(* ===== verification/Prelude.thy ===== *)
theory Prelude
  imports Main "HOL-Library.Char_ord" "HOL-Library.List_Lexorder"
begin

text \<open>
  Shared ground of the development: the parts of Go and of its standard library that the
  components use, and the generic lemmas about them.

  \<^item> Go strings are byte strings, so they are \<^typ>\<open>string\<close> (a list of 8-bit characters), and
    \<open>len\<close>, slicing and comparison are bytewise. The order on strings is the lexicographic one
    of \<open>List_Lexorder\<close> over the byte order of \<open>Char_ord\<close>, which is Go's \<open><\<close> on strings.
  \<^item> \<open>strings.TrimSpace\<close> and \<open>strings.Fields\<close> are modelled with every white-space rune of
    \<open>unicode.IsSpace\<close>, by its UTF-8 encoding.
  \<^item> \<open>strings.ToLower\<close>, \<open>strings.ToUpper\<close> and \<open>strings.EqualFold\<close> are modelled by their
    ASCII mapping, which is what Go computes on ASCII strings; the Unicode case tables are not
    modelled, so the definitions that use them describe the code on ASCII inputs.
  \<^item> Go's \<open>int\<close>, \<open>int64\<close> and \<open>time.Duration\<close> (nanoseconds) are \<^typ>\<open>int\<close>, with
    \<open>wrap64\<close> written out where a computation can overflow.
\<close>

named_theorems go_simps \<open>unfolding rules for the Go library functions\<close>

section \<open>Bytes and case mapping\<close>

definition byte :: "char \<Rightarrow> nat" where
  "byte c = of_char c"

definition lower_byte :: "char \<Rightarrow> char" where
  "lower_byte c = (if 65 \<le> byte c \<and> byte c \<le> 90 then char_of (byte c + 32) else c)"

definition upper_byte :: "char \<Rightarrow> char" where
  "upper_byte c = (if 97 \<le> byte c \<and> byte c \<le> 122 then char_of (byte c - 32) else c)"

definition to_lower :: "string \<Rightarrow> string" where
  "to_lower s = map lower_byte s"

definition to_upper :: "string \<Rightarrow> string" where
  "to_upper s = map upper_byte s"

definition equal_fold :: "string \<Rightarrow> string \<Rightarrow> bool" where
  "equal_fold s t \<longleftrightarrow> to_lower s = to_lower t"

section \<open>White space\<close>

definition ascii_space :: "char \<Rightarrow> bool" where
  "ascii_space c \<longleftrightarrow> (9 \<le> byte c \<and> byte c \<le> 13) \<or> byte c = 32"

text \<open>\<open>space_rune s\<close>: the bytes \<open>s\<close> are the UTF-8 encoding of exactly one white-space rune.\<close>

fun space_rune :: "string \<Rightarrow> bool" where
  "space_rune [a] = ascii_space a"
| "space_rune [a, b] = (byte a = 0xC2 \<and> (byte b = 0x85 \<or> byte b = 0xA0))"
| "space_rune [a, b, c] =
     ((byte a = 0xE1 \<and> byte b = 0x9A \<and> byte c = 0x80) \<or>
      (byte a = 0xE2 \<and> byte b = 0x80 \<and>
         ((0x80 \<le> byte c \<and> byte c \<le> 0x8A) \<or> byte c = 0xA8 \<or> byte c = 0xA9 \<or> byte c = 0xAF)) \<or>
      (byte a = 0xE2 \<and> byte b = 0x81 \<and> byte c = 0x9F) \<or>
      (byte a = 0xE3 \<and> byte b = 0x80 \<and> byte c = 0x80))"
| "space_rune _ = False"

text \<open>Number of bytes of the white-space rune a string starts with; 0 when there is none.\<close>

definition lead_space :: "string \<Rightarrow> nat" where
  "lead_space s = (if space_rune (take 1 s) then 1
     else if space_rune (take 2 s) then 2
     else if space_rune (take 3 s) then 3 else 0)"

definition tail_space :: "string \<Rightarrow> nat" where
  "tail_space r = (if space_rune (rev (take 1 r)) then 1
     else if space_rune (rev (take 2 r)) then 2
     else if space_rune (rev (take 3 r)) then 3 else 0)"

lemma space_rune_Nil [simp]: "\<not> space_rune []"
  by simp

lemma lead_space_Nil [simp]: "lead_space [] = 0"
  by (simp add: lead_space_def)

lemma tail_space_Nil [simp]: "tail_space [] = 0"
  by (simp add: tail_space_def)

function trim_left :: "string \<Rightarrow> string" where
  "trim_left s = (if lead_space s = 0 then s else trim_left (drop (lead_space s) s))"
  by pat_completeness auto
termination
  by (relation "measure length") (auto intro: diff_less)

text \<open>\<open>trim_rev r\<close> trims the end of a string given reversed.\<close>

function trim_rev :: "string \<Rightarrow> string" where
  "trim_rev r = (if tail_space r = 0 then r else trim_rev (drop (tail_space r) r))"
  by pat_completeness auto
termination
  by (relation "measure length") (auto intro: diff_less)

declare trim_left.simps [simp del] trim_rev.simps [simp del]

definition trim_space :: "string \<Rightarrow> string" where
  "trim_space s = rev (trim_rev (rev (trim_left s)))"

text \<open>\<open>strings.Fields\<close>: the maximal runs of bytes that hold no white-space rune.\<close>

fun span_word :: "string \<Rightarrow> string \<times> string" where
  "span_word [] = ([], [])"
| "span_word (c # s) =
     (if lead_space (c # s) = 0 then (let (w, r) = span_word s in (c # w, r)) else ([], c # s))"

lemma span_word_length: "length (snd (span_word s)) \<le> length s"
  by (induction s) (auto simp: Let_def split: prod.splits)

lemma trim_left_length: "length (trim_left s) \<le> length s"
proof (induction s rule: trim_left.induct)
  case (1 s)
  then show ?case by (subst trim_left.simps) (force simp: trim_left.simps [of s])
qed

function str_fields :: "string \<Rightarrow> string list" where
  "str_fields s =
     (case trim_left s of
        [] \<Rightarrow> []
      | c # t \<Rightarrow> (case span_word t of (w, r) \<Rightarrow> (c # w) # str_fields r))"
  by pat_completeness auto
termination
proof (relation "measure length", simp)
  fix s c t w r
  assume a: "trim_left s = c # t" and b: "(w, r) = span_word t"
  have "length r \<le> length t" using span_word_length [of t] b by (metis snd_conv)
  moreover have "Suc (length t) \<le> length s" using trim_left_length [of s] a by simp
  ultimately show "(r, s) \<in> measure length" by simp
qed

declare str_fields.simps [simp del]

section \<open>Splitting, joining, replacing\<close>

text \<open>\<open>strings.Split\<close> with a one-byte separator; \<open>strings.Join\<close>.\<close>

fun split_on :: "char \<Rightarrow> string \<Rightarrow> string list" where
  "split_on d [] = [[]]"
| "split_on d (c # s) =
     (if c = d then [] # split_on d s
      else (case split_on d s of [] \<Rightarrow> [[c]] | w # ws \<Rightarrow> (c # w) # ws))"

fun join :: "string \<Rightarrow> string list \<Rightarrow> string" where
  "join sep [] = []"
| "join sep [x] = x"
| "join sep (x # y # xs) = x @ sep @ join sep (y # xs)"

definition replace_byte :: "char \<Rightarrow> char \<Rightarrow> string \<Rightarrow> string" where
  "replace_byte a b s = map (\<lambda>c. if c = a then b else c) s"

definition has_prefix :: "string \<Rightarrow> string \<Rightarrow> bool" where
  "has_prefix p s \<longleftrightarrow> take (length p) s = p"

definition has_suffix :: "string \<Rightarrow> string \<Rightarrow> bool" where
  "has_suffix suf s = has_prefix (rev suf) (rev s)"

definition trim_suffix :: "string \<Rightarrow> string \<Rightarrow> string" where
  "trim_suffix s suf = (if has_suffix suf s then take (length s - length suf) s else s)"

fun contains_str :: "string \<Rightarrow> string \<Rightarrow> bool" where
  "contains_str p [] = (p = [])"
| "contains_str p (c # s) = (has_prefix p (c # s) \<or> contains_str p s)"

text \<open>
  The loop that several components share: keep the first occurrence of every non-empty key,
  with a set of the keys already seen.
\<close>

fun uniq_by :: "('a \<Rightarrow> string) \<Rightarrow> string list \<Rightarrow> 'a list \<Rightarrow> 'a list" where
  "uniq_by f seen [] = []"
| "uniq_by f seen (x # xs) =
     (if f x = [] \<or> f x \<in> set seen then uniq_by f seen xs
      else x # uniq_by f (f x # seen) xs)"

section \<open>Numbers\<close>

definition wrap64 :: "int \<Rightarrow> int" where
  "wrap64 x = (x + 2 ^ 63) mod 2 ^ 64 - 2 ^ 63"

definition digit_char :: "nat \<Rightarrow> char" where
  "digit_char d = char_of (48 + d mod 10)"

fun nat_dec :: "nat \<Rightarrow> string" where
  "nat_dec n = (if n < 10 then [digit_char n] else nat_dec (n div 10) @ [digit_char n])"

declare nat_dec.simps [simp del]

text \<open>\<open>strconv.Itoa\<close> and \<open>strconv.FormatInt(_, 10)\<close>.\<close>

definition itoa :: "int \<Rightarrow> string" where
  "itoa i = (if i < 0 then CHR ''-'' # nat_dec (nat (- i)) else nat_dec (nat i))"

fun dec_value :: "nat \<Rightarrow> string \<Rightarrow> nat option" where
  "dec_value a [] = Some a"
| "dec_value a (c # s) =
     (if 48 \<le> byte c \<and> byte c \<le> 57 then dec_value (10 * a + (byte c - 48)) s else None)"

text \<open>\<open>strconv.ParseInt(s, 10, bits)\<close>: \<open>None\<close> for a syntax or a range error.\<close>

definition parse_int :: "nat \<Rightarrow> string \<Rightarrow> int option" where
  "parse_int bits s =
     (let (neg, ds) = (case s of
          c # t \<Rightarrow> if c = CHR ''-'' then (True, t) else if c = CHR ''+'' then (False, t) else (False, s)
        | [] \<Rightarrow> (False, []))
      in if ds = [] then None
         else (case dec_value 0 ds of
             None \<Rightarrow> None
           | Some n \<Rightarrow>
               if neg then (if int n \<le> 2 ^ (bits - 1) then Some (- int n) else None)
               else (if int n < 2 ^ (bits - 1) then Some (int n) else None)))"

text \<open>\<open>strconv.ParseBool\<close>.\<close>

definition parse_bool :: "string \<Rightarrow> bool option" where
  "parse_bool s =
     (if s \<in> set [''1'', ''t'', ''T'', ''TRUE'', ''true'', ''True''] then Some True
      else if s \<in> set [''0'', ''f'', ''F'', ''FALSE'', ''false'', ''False''] then Some False
      else None)"

abbreviation second :: int where "second \<equiv> 1000000000"
abbreviation millisecond :: int where "millisecond \<equiv> 1000000"

section \<open>Lemmas: case mapping\<close>

lemma length_case [simp]: "length (to_lower s) = length s" "length (to_upper s) = length s"
  by (simp_all add: to_lower_def to_upper_def)

lemma case_eq_Nil [simp]: "to_lower s = [] \<longleftrightarrow> s = []" "to_upper s = [] \<longleftrightarrow> s = []"
  by (simp_all add: to_lower_def to_upper_def)

lemma case_Nil [simp]: "to_lower [] = []" "to_upper [] = []"
  by simp_all

lemma byte_bound [simp]: "byte c < 256"
  by (simp add: byte_def)

lemma byte_char_of: "n < 256 \<Longrightarrow> byte (char_of n) = n"
  by (simp add: byte_def)

lemma byte_eq_iff: "byte a = byte b \<longleftrightarrow> a = b"
  by (simp add: byte_def)

lemma lower_byte_idem [simp]: "lower_byte (lower_byte c) = lower_byte c"
  by (simp add: lower_byte_def byte_char_of)

lemma upper_byte_idem [simp]: "upper_byte (upper_byte c) = upper_byte c"
  by (auto simp: upper_byte_def byte_char_of)

lemma to_lower_idem [simp]: "to_lower (to_lower s) = to_lower s"
  by (simp add: to_lower_def)

lemma to_upper_idem [simp]: "to_upper (to_upper s) = to_upper s"
  by (simp add: to_upper_def)

lemma equal_fold_refl [simp]: "equal_fold s s"
  by (simp add: equal_fold_def)

section \<open>Lemmas: trimming\<close>

lemma lead_space_0_iff:
  "lead_space s = 0 \<longleftrightarrow>
     \<not> space_rune (take 1 s) \<and> \<not> space_rune (take 2 s) \<and> \<not> space_rune (take 3 s)"
  by (simp add: lead_space_def)

lemma tail_space_0_iff:
  "tail_space r = 0 \<longleftrightarrow>
     \<not> space_rune (rev (take 1 r)) \<and> \<not> space_rune (rev (take 2 r)) \<and> \<not> space_rune (rev (take 3 r))"
  by (simp add: tail_space_def)

lemma small_min: "min (k::nat) n = k \<or> n < k"
  by linarith

lemma lead_space_take:
  assumes "lead_space s = 0"
  shows "lead_space (take n s) = 0"
proof -
  have "n = 0 \<or> n = 1 \<or> n = 2 \<or> 3 \<le> n" by linarith
  with assms show ?thesis by (auto simp: lead_space_0_iff min_def)
qed

lemma lead_space_trim_left [simp]: "lead_space (trim_left s) = 0"
proof (induction s rule: trim_left.induct)
  case (1 s)
  then show ?case
    by (cases "lead_space s = 0") (simp_all add: trim_left.simps [of s])
qed

lemma trim_left_id: "lead_space s = 0 \<Longrightarrow> trim_left s = s"
  by (simp add: trim_left.simps [of s])

lemma tail_space_trim_rev [simp]: "tail_space (trim_rev s) = 0"
proof (induction s rule: trim_rev.induct)
  case (1 s)
  then show ?case
    by (cases "tail_space s = 0") (simp_all add: trim_rev.simps [of s])
qed

lemma trim_rev_id: "tail_space s = 0 \<Longrightarrow> trim_rev s = s"
  by (simp add: trim_rev.simps [of s])

lemma trim_left_drop: "\<exists>k. trim_left s = drop k s"
proof (induction s rule: trim_left.induct)
  case (1 s)
  show ?case
  proof (cases "lead_space s = 0")
    case True
    then have "trim_left s = drop 0 s" by (simp add: trim_left.simps [of s])
    then show ?thesis ..
  next
    case False
    then obtain k where "trim_left s = drop k (drop (lead_space s) s)"
      using "1.IH" by (auto simp: trim_left.simps [of s])
    then show ?thesis by auto
  qed
qed

lemma trim_rev_drop: "\<exists>k. trim_rev s = drop k s"
proof (induction s rule: trim_rev.induct)
  case (1 s)
  show ?case
  proof (cases "tail_space s = 0")
    case True
    then have "trim_rev s = drop 0 s" by (simp add: trim_rev.simps [of s])
    then show ?thesis ..
  next
    case False
    then obtain k where "trim_rev s = drop k (drop (tail_space s) s)"
      using "1.IH" by (auto simp: trim_rev.simps [of s])
    then show ?thesis by auto
  qed
qed

text \<open>Trimming cuts a piece out of the string: some bytes off each end.\<close>

lemma trim_space_take: "\<exists>k. trim_space s = take k (trim_left s)"
proof -
  obtain k where k: "trim_rev (rev (trim_left s)) = drop k (rev (trim_left s))"
    using trim_rev_drop by blast
  then have "trim_space s = take (length (trim_left s) - k) (trim_left s)"
    by (simp add: trim_space_def rev_drop)
  then show ?thesis ..
qed

lemma trim_space_slice: "\<exists>i j. trim_space s = take i (drop j s)"
  using trim_space_take [of s] trim_left_drop [of s] by metis

lemma lead_space_trim_space [simp]: "lead_space (trim_space s) = 0"
  using trim_space_take [of s] by (auto simp: lead_space_take)

lemma trim_space_idem [simp]: "trim_space (trim_space s) = trim_space s"
proof -
  have "trim_left (trim_space s) = trim_space s" by (rule trim_left_id) simp
  then have "trim_space (trim_space s) = rev (trim_rev (rev (trim_space s)))"
    by (simp add: trim_space_def [of "trim_space s"])
  also have "\<dots> = trim_space s" by (simp add: trim_space_def trim_rev_id)
  finally show ?thesis .
qed

text \<open>No byte that the case mapping touches is part of a white-space rune.\<close>

lemma byte_lower: "byte (lower_byte c) = (if 65 \<le> byte c \<and> byte c \<le> 90 then byte c + 32 else byte c)"
  by (simp add: lower_byte_def byte_char_of)

lemma space_rune_lower: "space_rune (map lower_byte s) \<longleftrightarrow> space_rune s"
  by (cases s rule: space_rune.cases) (auto simp: byte_lower ascii_space_def)

lemma space_lower [simp]: "lead_space (to_lower s) = lead_space s" "tail_space (to_lower s) = tail_space s"
  unfolding lead_space_def tail_space_def to_lower_def take_map rev_map space_rune_lower by (rule refl)+

lemma norm_idem [simp]: "trim_space (to_lower (trim_space s)) = to_lower (trim_space s)"
proof -
  have "rev (to_lower (trim_space s)) = to_lower (trim_rev (rev (trim_left s)))" by (simp add: trim_space_def to_lower_def rev_map [symmetric])
  then have "trim_rev (rev (to_lower (trim_space s))) = rev (to_lower (trim_space s))" by (simp add: trim_rev_id)
  then show ?thesis by (simp add: trim_space_def [of "to_lower _"] trim_left_id)
qed

lemma trim_space_Nil [simp]: "trim_space [] = []"
  by (simp add: trim_space_def trim_left.simps [of "[]"] trim_rev.simps [of "[]"])

lemma set_trim_space: "set (trim_space s) \<subseteq> set s"
  using trim_space_slice [of s] by (metis dual_order.trans set_drop_subset set_take_subset)

lemma length_trim_space: "length (trim_space s) \<le> length s"
proof -
  obtain i j where "trim_space s = take i (drop j s)" using trim_space_slice by blast
  then show ?thesis by simp
qed

lemma trim_space_no_lead: "trim_space s = c # t \<Longrightarrow> \<not> ascii_space c"
  using lead_space_trim_space [of s] by (auto simp: lead_space_0_iff)

section \<open>Lemmas: splitting and joining\<close>

lemma split_on_not_Nil [simp]: "split_on d s \<noteq> []"
  by (cases s) (auto split: list.splits)

lemma split_on_no_sep: "d \<notin> set s \<Longrightarrow> split_on d s = [s]"
  by (induction s) auto

lemma split_on_append: "d \<notin> set x \<Longrightarrow> split_on d (x @ d # s) = x # split_on d s"
  by (induction x) (auto split: list.splits)

lemma split_on_join:
  assumes "xs \<noteq> []" and "\<forall>x \<in> set xs. d \<notin> set x"
  shows "split_on d (join [d] xs) = xs"
  using assms by (induction "[d]" xs rule: join.induct) (auto simp: split_on_no_sep split_on_append)

text \<open>Joining with a separator that the parts do not contain is injective.\<close>

lemma join_inj:
  assumes "join [d] xs = join [d] ys" and "xs \<noteq> []" and "ys \<noteq> []"
    and "\<forall>x \<in> set xs. d \<notin> set x" and "\<forall>y \<in> set ys. d \<notin> set y"
  shows "xs = ys"
  using assms split_on_join by metis

lemma split_on_set: "x \<in> set (split_on d s) \<Longrightarrow> d \<notin> set x"
  by (induction s arbitrary: x) (auto split: list.splits if_splits)

lemma append_sep_inj:
  assumes "x @ d # s = y @ d # t" and "d \<notin> set x" and "d \<notin> set y"
  shows "x = y \<and> s = t"
  using assms by (induction x arbitrary: y) (auto simp: Cons_eq_append_conv append_eq_Cons_conv)

lemma length_replace_byte [simp]: "length (replace_byte a b s) = length s"
  by (simp add: replace_byte_def)

lemma replace_byte_eq_Nil [simp]: "replace_byte a b s = [] \<longleftrightarrow> s = []"
  by (simp add: replace_byte_def)

lemma replace_byte_free: "a \<noteq> b \<Longrightarrow> a \<notin> set (replace_byte a b s)"
  by (auto simp: replace_byte_def)

section \<open>Lemmas: first occurrences\<close>

lemma set_uniq_by:
  "f ` set (uniq_by f seen xs) = {k \<in> f ` set xs. k \<noteq> [] \<and> k \<notin> set seen}"
  by (induction f seen xs rule: uniq_by.induct) auto

lemma uniq_by_subset: "set (uniq_by f seen xs) \<subseteq> set xs"
  by (induction f seen xs rule: uniq_by.induct) auto

lemma distinct_uniq_by: "distinct (map f (uniq_by f seen xs))"
proof (induction f seen xs rule: uniq_by.induct)
  case (2 f seen x xs)
  have "f x \<notin> f ` set (uniq_by f (f x # seen) xs)" by (subst set_uniq_by) simp
  with 2 show ?case by simp
qed simp

lemma uniq_by_fixed:
  assumes "distinct (map f xs)" and "\<forall>x \<in> set xs. f x \<noteq> [] \<and> f x \<notin> set seen"
  shows "uniq_by f seen xs = xs"
  using assms by (induction f seen xs rule: uniq_by.induct) (force simp: image_iff)+

section \<open>Lemmas: numbers\<close>

lemma wrap64_id: "- (2 ^ 63) \<le> x \<Longrightarrow> x < 2 ^ 63 \<Longrightarrow> wrap64 x = x"
  by (simp add: wrap64_def)

lemma wrap64_range: "- (2 ^ 63) \<le> wrap64 x \<and> wrap64 x < 2 ^ 63"
proof -
  have "0 \<le> (x + 2 ^ 63) mod 2 ^ 64" and "(x + 2 ^ 63) mod 2 ^ 64 < (2::int) ^ 64"
    by (simp_all add: pos_mod_bound)
  then show ?thesis by (simp add: wrap64_def)
qed

lemma byte_digit_char: "byte (digit_char d) = 48 + d mod 10"
  by (simp add: digit_char_def byte_char_of)

lemma dec_value_append:
  "dec_value a (s @ t) = (case dec_value a s of None \<Rightarrow> None | Some b \<Rightarrow> dec_value b t)"
  by (induction a s rule: dec_value.induct) auto

lemma dec_value_nat_dec: "dec_value 0 (nat_dec n) = Some n"
proof (induction n rule: nat_dec.induct)
  case (1 n)
  show ?case
  proof (cases "n < 10")
    case True
    then show ?thesis by (simp add: nat_dec.simps [of n] byte_digit_char)
  next
    case False
    with 1 have "dec_value 0 (nat_dec (n div 10)) = Some (n div 10)" by simp
    with False show ?thesis
      by (simp add: nat_dec.simps [of n] dec_value_append byte_digit_char)
  qed
qed

lemma nat_dec_not_Nil [simp]: "nat_dec n \<noteq> []"
  by (subst nat_dec.simps) simp

lemma nat_dec_digits: "c \<in> set (nat_dec n) \<Longrightarrow> 48 \<le> byte c \<and> byte c \<le> 57"
proof (induction n rule: nat_dec.induct)
  case (1 n)
  then show ?case
    by (cases "n < 10") (auto simp: nat_dec.simps [of n] byte_digit_char)
qed

lemma byte_sign: "byte (CHR ''-'') = 45" "byte (CHR ''+'') = 43"
  by (simp_all add: byte_def)

lemma nat_dec_head: "nat_dec n = c # s \<Longrightarrow> c \<noteq> CHR ''-'' \<and> c \<noteq> CHR ''+''"
  using nat_dec_digits [of c n] byte_sign by auto

text \<open>Printing and parsing of integers round-trip, within the width asked for.\<close>

lemma parse_int_itoa:
  assumes "- (2 ^ (bits - 1)) \<le> i" and "i < 2 ^ (bits - 1)"
  shows "parse_int bits (itoa i) = Some i"
proof (cases "i < 0")
  case True
  with assms show ?thesis by (simp add: parse_int_def itoa_def dec_value_nat_dec)
next
  case False
  then obtain c s where cs: "nat_dec (nat i) = c # s" by (cases "nat_dec (nat i)") auto
  with nat_dec_head [OF cs] dec_value_nat_dec [of "nat i"] assms False show ?thesis
    by (simp add: parse_int_def itoa_def)
qed

lemma nat_dec_inj: "nat_dec m = nat_dec n \<Longrightarrow> m = n"
  using dec_value_nat_dec by (metis option.inject)

lemma itoa_inj: "itoa i = itoa j \<Longrightarrow> i = j"
  using nat_dec_head [of "nat i"] nat_dec_head [of "nat j"]
  by (auto simp: itoa_def split: if_splits dest: nat_dec_inj sym)

lemma itoa_byte: "c \<in> set (itoa i) \<Longrightarrow> byte c = 45 \<or> (48 \<le> byte c \<and> byte c \<le> 57)"
  by (auto simp: itoa_def byte_sign dest: nat_dec_digits split: if_splits)

section \<open>Lemmas: printable strings\<close>

text \<open>Strings of visible ASCII bytes, on which trimming is the identity.\<close>

definition visible :: "string \<Rightarrow> bool" where
  "visible s \<longleftrightarrow> list_all (\<lambda>c. 33 \<le> byte c \<and> byte c \<le> 126) s"

lemma visible_take: "visible s \<Longrightarrow> visible (take n s)"
  by (auto simp: visible_def list_all_iff dest: in_set_takeD)

lemma visible_drop: "visible s \<Longrightarrow> visible (drop n s)"
  by (auto simp: visible_def list_all_iff dest: in_set_dropD)

lemma visible_rev [simp]: "visible (rev s) = visible s"
  by (simp add: visible_def)

lemma visible_append [simp]: "visible (s @ t) \<longleftrightarrow> visible s \<and> visible t"
  by (simp add: visible_def)

lemma visible_not_space: "visible s \<Longrightarrow> \<not> space_rune s"
  by (induction s rule: space_rune.induct) (auto simp: visible_def ascii_space_def)

lemma visible_lead_space: "visible s \<Longrightarrow> lead_space s = 0"
  by (simp add: lead_space_0_iff visible_take visible_not_space)

lemma visible_tail_space: "visible s \<Longrightarrow> tail_space s = 0"
  by (simp add: tail_space_0_iff visible_take visible_not_space)

lemma trim_space_visible [simp]: "visible s \<Longrightarrow> trim_space s = s"
  by (simp add: trim_space_def trim_left_id trim_rev_id visible_lead_space visible_tail_space)

lemma visible_itoa: "visible (itoa i)"
  using itoa_byte [of _ i] by (force simp: visible_def list_all_iff)

lemma comma_itoa: "CHR '','' \<notin> set (itoa i)"
  using itoa_byte [of "CHR '',''" i] by (auto simp: byte_def)

lemma join_snoc_inj: "join sep (xs @ [a]) = join sep (xs @ [b]) \<Longrightarrow> a = b"
  by (induction sep xs rule: join.induct) (auto split: list.splits)

lemma join_append:
  "xs \<noteq> [] \<Longrightarrow> ys \<noteq> [] \<Longrightarrow> join sep (xs @ ys) = join sep xs @ sep @ join sep ys"
  by (induction sep xs rule: join.induct) (auto simp: neq_Nil_conv)

text \<open>The leading parts of a joined string can be read off when they do not hold the separator.\<close>

lemma split_on_join_append:
  assumes "ys \<noteq> []" and "\<forall>x \<in> set xs. d \<notin> set x"
  shows "split_on d (join [d] (xs @ ys)) = xs @ split_on d (join [d] ys)"
  using assms
proof (induction xs)
  case (Cons x xs)
  from Cons.prems obtain z zs where z: "xs @ ys = z # zs" by (cases "xs @ ys") auto
  have "join [d] ((x # xs) @ ys) = x @ d # join [d] (xs @ ys)" by (simp add: z)
  with Cons show ?case by (simp add: split_on_append)
qed simp

lemma join_head_inj:
  assumes "join [d] (xs @ ys) = join [d] (xs' @ ys')" and "length xs = length xs'"
    and "\<forall>x \<in> set xs. d \<notin> set x" and "\<forall>x \<in> set xs'. d \<notin> set x"
  shows "xs = xs'"
proof -
  have read: "take (length vs) (split_on d (join [d] (vs @ us))) = vs"
    if "\<forall>x \<in> set vs. d \<notin> set x" for vs us :: "string list"
  proof (cases "us = []")
    case True
    with that show ?thesis by (cases "vs = []") (simp_all add: split_on_join)
  next
    case False
    with that show ?thesis by (simp add: split_on_join_append)
  qed
  show ?thesis
    using read [OF assms(3), of ys] read [OF assms(4), of ys'] assms(1,2) by metis
qed

end
