(* ===== verification/Http.thy ===== *)
theory Http
  imports Prelude "HOL-Library.AList"
begin

text \<open>
  The request, the response writer and the error model that every policy works on:
  \<open>internal/core/errors\<close>, \<open>internal/core/response\<close>, \<open>internal/core/requestid\<close>,
  \<open>internal/core/netx\<close> and the principal of \<open>internal/core/auth/context.go\<close>.

  A handler is a function from a request and a world to an outcome. The world holds the
  response writer given by \<open>net/http\<close> (\<open>base\<close>), the stack of \<open>http.ResponseWriter\<close>
  wrappers that the policies put around it (innermost call first, \<open>layers\<close>), the metrics
  events observed so far, the clock, the cache manager's in-process token cache
  (\<open>tokens\<close>), and a state \<open>'s\<close> of the Redis service behind the policies. A panic keeps
  the world it happened in.
\<close>

section \<open>Principals and errors\<close>

record Attribute =
  attr_key :: string
  attr_value :: string

record AuthContext =
  UserID :: string
  Role :: string
  Permissions :: "string list"
  Attributes :: "Attribute list"

definition empty_principal :: AuthContext where
  "empty_principal = \<lparr>UserID = [], Role = [], Permissions = [], Attributes = []\<rparr>"

fun attribute_of :: "Attribute list \<Rightarrow> string \<Rightarrow> string" where
  "attribute_of [] key = []"
| "attribute_of (a # as) key = (if attr_key a = key then attr_value a else attribute_of as key)"

definition AuthContext_Attribute :: "AuthContext \<Rightarrow> string \<Rightarrow> string" where
  "AuthContext_Attribute a key = attribute_of (Attributes a) key"

datatype Code = CodeInternal | CodeBadRequest | CodeUnsupportedMedia | CodeNotFound
  | CodeMethodNotAllowed | CodeUnauthorized | CodeForbidden | CodeTooManyRequests
  | CodeConflict | CodeTimeout | CodeDependencyFailure

fun code_string :: "Code \<Rightarrow> string" where
  "code_string CodeInternal = ''internal_error''"
| "code_string CodeBadRequest = ''bad_request''"
| "code_string CodeUnsupportedMedia = ''unsupported_media_type''"
| "code_string CodeNotFound = ''not_found''"
| "code_string CodeMethodNotAllowed = ''method_not_allowed''"
| "code_string CodeUnauthorized = ''unauthorized''"
| "code_string CodeForbidden = ''forbidden''"
| "code_string CodeTooManyRequests = ''too_many_requests''"
| "code_string CodeConflict = ''conflict''"
| "code_string CodeTimeout = ''timeout''"
| "code_string CodeDependencyFailure = ''dependency_unavailable''"

text \<open>
  A Go error value. \<open>AppError\<close> carries its details as rendered JSON text and its cause;
  \<open>Wrapped\<close> is \<open>fmt.Errorf("...%w", err)\<close>; \<open>Plain\<close> is any other error.
\<close>

datatype lib_kind = MaxBytesKind | EOFKind | UnexpectedEOFKind | SyntaxKind | UnmarshalTypeKind

datatype go_error =
    AppError Code int string "string option" "go_error option"
  | DeadlineExceeded
  | LibError lib_kind string
  | Plain string
  | Wrapped string go_error

definition apperr_New :: "Code \<Rightarrow> int \<Rightarrow> string \<Rightarrow> go_error" where
  "apperr_New code status msg = AppError code status msg None None"

fun WithDetails :: "go_error option \<Rightarrow> string \<Rightarrow> go_error option" where
  "WithDetails (Some (AppError c s m d k)) details = Some (AppError c s m (Some details) k)"
| "WithDetails e details = e"

fun WithCause :: "go_error option \<Rightarrow> go_error \<Rightarrow> go_error option" where
  "WithCause (Some (AppError c s m d k)) cause = Some (AppError c s m d (Some cause))"
| "WithCause e cause = e"

text \<open>\<open>AppError.Unwrap\<close> is the cause; \<open>errors.Is\<close> and \<open>errors.As\<close> walk the chain.\<close>

fun is_deadline :: "go_error \<Rightarrow> bool" where
  "is_deadline DeadlineExceeded = True"
| "is_deadline (Wrapped m e) = is_deadline e"
| "is_deadline (AppError c s m d (Some e)) = is_deadline e"
| "is_deadline (AppError c s m d None) = False"
| "is_deadline (Plain m) = False"
| "is_deadline (LibError l m) = False"

fun AsAppError :: "go_error \<Rightarrow> go_error option" where
  "AsAppError (AppError c s m d k) = Some (AppError c s m d k)"
| "AsAppError (Wrapped m e) = AsAppError e"
| "AsAppError DeadlineExceeded = None"
| "AsAppError (Plain m) = None"
| "AsAppError (LibError l m) = None"

fun error_string :: "go_error \<Rightarrow> string" where
  "error_string (AppError c s m d k) = (if m \<noteq> [] then m else code_string c)"
| "error_string DeadlineExceeded = ''context deadline exceeded''"
| "error_string (Plain m) = m"
| "error_string (LibError l m) = m"
| "error_string (Wrapped m e) = m @ error_string e"

section \<open>Requests\<close>

text \<open>
  What the middleware reads of an \<open>http.Request\<close> and of its context. The header map is keyed
  by canonical names, as \<open>net/http\<close> builds it; \<open>req_query\<close> is the parsed query string;
  \<open>url_param\<close> is what the router (chi, outside the repository) answers for a path parameter
  name, and \<open>route_pattern\<close> its pattern (\<open>None\<close> when there is no route context);
  \<open>ctx_result\<close> and \<open>ctx_engine\<close> are goAuth's result and engine found in the context;
  \<open>ctx_request_tenant\<close> and \<open>ctx_goauth_tenant\<close> are the tenant under the tenancy feature's key
  and under goAuth's. \<open>ctx_deadline\<close> is the time at which the context ends (\<open>None\<close>: never; the
  disconnection of a client is left out), and \<open>ctx_body_limit\<close> the limit stored by \<open>MaxBodyBytes\<close>. A body is
  nil, \<open>http.NoBody\<close>, a stream of bytes that ends normally or with an error, or one of these
  under \<open>http.MaxBytesReader\<close>.
\<close>

record AuthResult =
  res_UserID :: string
  res_Role :: string
  res_Permissions :: "string list"
  res_Mask :: nat
  res_TenantID :: string

datatype body = NilBody | NoBody | Stream string "go_error option" | MaxBytesReader int body

record request =
  req_method :: string
  req_header :: "(string \<times> string list) list"
  req_remote :: string
  req_content_length :: int
  req_transfer_encoding :: "string list"
  req_query :: "(string \<times> string list) list"
  url_param :: "string \<Rightarrow> string"
  route_pattern :: "string option"
  ctx_request_id :: string
  ctx_principal :: "AuthContext option"
  ctx_result :: "AuthResult option"
  ctx_engine :: "nat option"
  ctx_client_ip :: "string option"
  req_path :: string
  req_host :: string
  ctx_request_tenant :: "string option"
  ctx_goauth_tenant :: "string option"
  req_body :: body
  ctx_deadline :: "int option"
  ctx_body_limit :: "int option"

text \<open>\<open>textproto.CanonicalMIMEHeaderKey\<close>: a name with a byte outside the token alphabet is left
  alone; otherwise the first letter and every letter after a hyphen is upper case.\<close>

definition token_byte :: "char \<Rightarrow> bool" where
  "token_byte c \<longleftrightarrow> (48 \<le> byte c \<and> byte c \<le> 57) \<or> (65 \<le> byte c \<and> byte c \<le> 90) \<or>
     (97 \<le> byte c \<and> byte c \<le> 122) \<or> c \<in> set ''!#$%&*+-.^_`|~'' \<or> byte c = 39"

fun canonical_from :: "bool \<Rightarrow> string \<Rightarrow> string" where
  "canonical_from up [] = []"
| "canonical_from up (c # s) =
     (if up then upper_byte c else lower_byte c) # canonical_from (c = CHR ''-'') s"

definition canonical_header :: "string \<Rightarrow> string" where
  "canonical_header k = (if list_all token_byte k then canonical_from True k else k)"

definition header_values :: "(string \<times> string list) list \<Rightarrow> string \<Rightarrow> string list" where
  "header_values h k = (case map_of h (canonical_header k) of None \<Rightarrow> [] | Some vs \<Rightarrow> vs)"

definition header_get :: "(string \<times> string list) list \<Rightarrow> string \<Rightarrow> string" where
  "header_get h k = (case header_values h k of [] \<Rightarrow> [] | v # _ \<Rightarrow> v)"

definition header_set :: "(string \<times> string list) list \<Rightarrow> string \<Rightarrow> string
    \<Rightarrow> (string \<times> string list) list" where
  "header_set h k v = AList.update (canonical_header k) [v] h"

definition header_add :: "(string \<times> string list) list \<Rightarrow> string \<Rightarrow> string
    \<Rightarrow> (string \<times> string list) list" where
  "header_add h k v = AList.update (canonical_header k) (header_values h k @ [v]) h"

definition auth_FromContext :: "request \<Rightarrow> AuthContext \<times> bool" where
  "auth_FromContext r =
     (case ctx_principal r of None \<Rightarrow> (empty_principal, False) | Some p \<Rightarrow> (p, True))"

definition ClientIPFromContext :: "request \<Rightarrow> string option" where
  "ClientIPFromContext r =
     (case ctx_client_ip r of
        None \<Rightarrow> None
      | Some v \<Rightarrow> (let trimmed = trim_space v in if trimmed = [] then None else Some trimmed))"

section \<open>The response writer and its wrappers\<close>

record base_writer =
  bw_header :: "(string \<times> string list) list"
  bw_status :: "int option"
  bw_body :: string

record caching_writer =
  cw_statusCode :: int
  cw_maxBytes :: int
  cw_cacheStatuses :: "int list"
  cw_body :: string
  cw_tooLarge :: bool
  cw_streaming :: bool

record access_writer =
  aw_statusCode :: int
  aw_bytesWritten :: int
  aw_routePattern :: string
  aw_wroteHeader :: bool

datatype layer =
    CachingW caching_writer
  | RecorderW int
  | GuardW bool bool   \<comment> \<open>\<open>unauthorized\<close> and \<open>nextCalled\<close>\<close>
  | TimeoutW int bool   \<comment> \<open>\<open>statusCode\<close> and \<open>wroteHeader\<close>\<close>
  | AccessW access_writer
  | CapturingW int string   \<comment> \<open>\<open>statusCode\<close> and \<open>routePattern\<close> (tracing and metrics)\<close>

text \<open>One structured log line: its level and its fields.\<close>

record log_event =
  ev_level :: string
  ev_strings :: "(string \<times> string) list"
  ev_ints :: "(string \<times> int) list"
  ev_bools :: "(string \<times> bool) list"
  ev_message :: string

record 's world =
  base :: base_writer
  layers :: "layer list"
  observed :: "(string \<times> string) list"
  now :: int
  tokens :: "string \<rightharpoonup> string \<times> int"
  logs :: "log_event list"
  svc :: 's

datatype 'w outcome = Ret 'w | Panic string 'w

type_synonym 's handler = "request \<Rightarrow> 's world \<Rightarrow> 's world outcome"

fun bind_outcome :: "'w outcome \<Rightarrow> ('w \<Rightarrow> 'w outcome) \<Rightarrow> 'w outcome" where
  "bind_outcome (Ret w) f = f w"
| "bind_outcome (Panic m w) f = Panic m w"

text \<open>
  \<open>net/http\<close>'s own writer: the first status wins (an informational status does not commit),
  and the first write commits 200.
\<close>

definition base_write_header :: "int \<Rightarrow> base_writer \<Rightarrow> base_writer" where
  "base_write_header code b =
     (if bw_status b \<noteq> None then b
      else if 100 \<le> code \<and> code \<le> 199 \<and> code \<noteq> 101 then b
      else b\<lparr>bw_status := Some code\<rparr>)"

definition base_write :: "string \<Rightarrow> base_writer \<Rightarrow> base_writer" where
  "base_write p b = (let b' = base_write_header 200 b in b'\<lparr>bw_body := bw_body b' @ p\<rparr>)"

fun layer_write_header :: "int \<Rightarrow> layer list \<Rightarrow> base_writer \<Rightarrow> layer list \<times> base_writer" where
  "layer_write_header code [] b = ([], base_write_header code b)"
| "layer_write_header code (CachingW c # ls) b =
     (let (ls', b') = layer_write_header code ls b in (CachingW (c\<lparr>cw_statusCode := code\<rparr>) # ls', b'))"
| "layer_write_header code (RecorderW s # ls) b =
     (let (ls', b') = layer_write_header code ls b in (RecorderW code # ls', b'))"
| "layer_write_header code (GuardW unauthorized nextCalled # ls) b =
     (if code = 401 \<and> \<not> nextCalled then (GuardW True nextCalled # ls, b)
      else (let (ls', b') = layer_write_header code ls b in (GuardW unauthorized nextCalled # ls', b')))"
| "layer_write_header code (TimeoutW s wrote # ls) b =
     (let (ls', b') = layer_write_header code ls b in (TimeoutW code True # ls', b'))"
| "layer_write_header code (AccessW a # ls) b =
     (let (ls', b') = layer_write_header code ls b in (AccessW (a\<lparr>aw_statusCode := code, aw_wroteHeader := True\<rparr>) # ls', b'))"
| "layer_write_header code (CapturingW s pattern # ls) b =
     (let (ls', b') = layer_write_header code ls b in (CapturingW code pattern # ls', b'))"

text \<open>\<open>cachingResponseWriter.Write\<close>, without the forwarding.\<close>

definition caching_buffer :: "string \<Rightarrow> caching_writer \<Rightarrow> caching_writer" where
  "caching_buffer p c =
     (if cw_maxBytes c \<le> 0 \<or> cw_tooLarge c then c
      else if int (length (cw_body c) + length p) > cw_maxBytes c then c\<lparr>cw_tooLarge := True\<rparr>
      else c\<lparr>cw_body := cw_body c @ p\<rparr>)"

fun layer_write :: "string \<Rightarrow> layer list \<Rightarrow> base_writer \<Rightarrow> layer list \<times> base_writer" where
  "layer_write p [] b = ([], base_write p b)"
| "layer_write p (CachingW c # ls) b =
     (let (ls', b') = layer_write p ls b in (CachingW (caching_buffer p c) # ls', b'))"
| "layer_write p (RecorderW s # ls) b =
     (let (ls', b') = layer_write p ls b in (RecorderW s # ls', b'))"
| "layer_write p (GuardW unauthorized nextCalled # ls) b =
     (if unauthorized \<and> \<not> nextCalled then (GuardW unauthorized nextCalled # ls, b)
      else (let (ls', b') = layer_write p ls b in (GuardW unauthorized nextCalled # ls', b')))"
| "layer_write p (TimeoutW s wrote # ls) b =
     (let (ls', b') = layer_write p ls b in (TimeoutW s True # ls', b'))"
| "layer_write p (AccessW a # ls) b =
     (let (ls', b') = layer_write p ls b
      in (AccessW (a\<lparr>aw_wroteHeader := True, aw_bytesWritten := aw_bytesWritten a + int (length p)\<rparr>) # ls', b'))"
| "layer_write p (CapturingW s pattern # ls) b =
     (let (ls', b') = layer_write p ls b in (CapturingW s pattern # ls', b'))"

text \<open>\<open>Flush\<close> marks every caching wrapper on the way down as streaming and commits 200.
  \<open>statusCodeRecorder\<close> embeds the \<open>ResponseWriter\<close> interface and has no \<open>Flush\<close>, so a
  flush stops there.\<close>

fun layer_flush :: "layer list \<Rightarrow> base_writer \<Rightarrow> layer list \<times> base_writer" where
  "layer_flush [] b = ([], base_write_header 200 b)"
| "layer_flush (CachingW c # ls) b =
     (let (ls', b') = layer_flush ls b in (CachingW (c\<lparr>cw_streaming := True\<rparr>) # ls', b'))"
| "layer_flush (RecorderW s # ls) b = (RecorderW s # ls, b)"
| "layer_flush (GuardW u n # ls) b =
     (let (ls', b') = layer_flush ls b in (GuardW u n # ls', b'))"
| "layer_flush (TimeoutW s wrote # ls) b =
     (let (ls', b') = layer_flush ls b in (TimeoutW s wrote # ls', b'))"
| "layer_flush (AccessW a # ls) b =
     (let (ls', b') = layer_flush ls b in (AccessW a # ls', b'))"
| "layer_flush (CapturingW s pattern # ls) b =
     (let (ls', b') = layer_flush ls b in (CapturingW s pattern # ls', b'))"

text \<open>\<open>SetRoutePattern\<close>. A caching writer and a status recorder do not have the method, and it
  stops there.\<close>

fun layer_set_pattern :: "string \<Rightarrow> layer list \<Rightarrow> layer list" where
  "layer_set_pattern pattern (GuardW u n # ls) = GuardW u n # layer_set_pattern pattern ls"
| "layer_set_pattern pattern (TimeoutW s wrote # ls) = TimeoutW s wrote # layer_set_pattern pattern ls"
| "layer_set_pattern pattern (AccessW a # ls) = AccessW (a\<lparr>aw_routePattern := pattern\<rparr>) # layer_set_pattern pattern ls"
| "layer_set_pattern pattern (CapturingW s old # ls) = CapturingW s pattern # layer_set_pattern pattern ls"
| "layer_set_pattern pattern ls = ls"

definition WriteHeader :: "int \<Rightarrow> 's world \<Rightarrow> 's world" where
  "WriteHeader code w =
     (let (ls, b) = layer_write_header code (layers w) (base w) in w\<lparr>layers := ls, base := b\<rparr>)"

definition Write :: "string \<Rightarrow> 's world \<Rightarrow> 's world" where
  "Write p w = (let (ls, b) = layer_write p (layers w) (base w) in w\<lparr>layers := ls, base := b\<rparr>)"

definition Flush :: "'s world \<Rightarrow> 's world" where
  "Flush w = (let (ls, b) = layer_flush (layers w) (base w) in w\<lparr>layers := ls, base := b\<rparr>)"

text \<open>Every wrapper embeds the writer below it, so all share one header map.\<close>

definition SetHeader :: "string \<Rightarrow> string \<Rightarrow> 's world \<Rightarrow> 's world" where
  "SetHeader k v w = w\<lparr>base := (base w)\<lparr>bw_header := header_set (bw_header (base w)) k v\<rparr>\<rparr>"

definition AddHeader :: "string \<Rightarrow> string \<Rightarrow> 's world \<Rightarrow> 's world" where
  "AddHeader k v w = w\<lparr>base := (base w)\<lparr>bw_header := header_add (bw_header (base w)) k v\<rparr>\<rparr>"

definition GetHeader :: "string \<Rightarrow> 's world \<Rightarrow> string" where
  "GetHeader k w = header_get (bw_header (base w)) k"

section \<open>Response envelopes\<close>

record ErrorBody =
  eb_Code :: string
  eb_Message :: string
  eb_Details :: "string option"

record Envelope =
  env_OK :: bool
  env_Data :: "string option"
  env_Error :: "ErrorBody option"
  env_RequestID :: string
  env_Meta :: "string option"

text \<open>The JSON encoder of the standard library is the parameter \<open>enc\<close>.\<close>

definition response_JSON :: "(Envelope \<Rightarrow> string) \<Rightarrow> int \<Rightarrow> Envelope \<Rightarrow> 's world \<Rightarrow> 's world" where
  "response_JSON enc status payload w =
     Write (enc payload)
       (WriteHeader status (SetHeader ''Content-Type'' ''application/json; charset=utf-8'' w))"

definition response_OK :: "(Envelope \<Rightarrow> string) \<Rightarrow> string \<Rightarrow> string \<Rightarrow> 's world \<Rightarrow> 's world" where
  "response_OK enc data rid w =
     response_JSON enc 200 \<lparr>env_OK = True, env_Data = Some data, env_Error = None,
       env_RequestID = rid, env_Meta = None\<rparr> w"

definition response_Created :: "(Envelope \<Rightarrow> string) \<Rightarrow> string \<Rightarrow> string \<Rightarrow> 's world \<Rightarrow> 's world" where
  "response_Created enc data rid w =
     response_JSON enc 201 \<lparr>env_OK = True, env_Data = Some data, env_Error = None,
       env_RequestID = rid, env_Meta = None\<rparr> w"

definition error_envelope :: "string \<Rightarrow> string \<Rightarrow> string option \<Rightarrow> string \<Rightarrow> Envelope" where
  "error_envelope code msg details rid =
     \<lparr>env_OK = False, env_Data = None,
      env_Error = Some \<lparr>eb_Code = code, eb_Message = msg, eb_Details = details\<rparr>,
      env_RequestID = rid, env_Meta = None\<rparr>"

text \<open>The status and the envelope that \<open>response.Error\<close> chooses for an error.\<close>

definition error_response :: "go_error \<Rightarrow> string \<Rightarrow> int \<times> Envelope" where
  "error_response err rid =
     (if is_deadline err
      then (504, error_envelope (code_string CodeTimeout) ''request timed out'' None rid)
      else (case AsAppError err of
          Some (AppError c s m d k) \<Rightarrow> (s, error_envelope (code_string c) m d rid)
        | _ \<Rightarrow> (500, error_envelope (code_string CodeInternal) ''internal server error'' None rid)))"

definition response_Error :: "(Envelope \<Rightarrow> string) \<Rightarrow> go_error \<Rightarrow> string \<Rightarrow> 's world \<Rightarrow> 's world" where
  "response_Error enc err rid w =
     (let (status, payload) = error_response err rid in response_JSON enc status payload w)"

section \<open>Concrete values for examples\<close>

definition blank_request :: request where
  "blank_request = \<lparr>req_method = ''GET'', req_header = [], req_remote = ''10.0.0.1:4242'',
     req_content_length = 0, req_transfer_encoding = [], req_query = [], url_param = (\<lambda>_. []),
     route_pattern = Some ''/x'', ctx_request_id = ''rid'', ctx_principal = None, ctx_result = None,
     ctx_engine = None, ctx_client_ip = None, req_path = ''/x'', req_host = ''localhost'',
     ctx_request_tenant = None, ctx_goauth_tenant = None, req_body = NoBody, ctx_deadline = None,
     ctx_body_limit = None\<rparr>"

definition blank_world :: "'s \<Rightarrow> 's world" where
  "blank_world s = \<lparr>base = \<lparr>bw_header = [], bw_status = None, bw_body = []\<rparr>, layers = [],
     observed = [], now = 0, tokens = Map.empty, logs = [], svc = s\<rparr>"

definition user_principal :: "string \<Rightarrow> AuthContext" where
  "user_principal u = \<lparr>UserID = u, Role = ''user'', Permissions = [], Attributes = []\<rparr>"

section \<open>Properties of the error response\<close>

lemma Write_header [simp]: "bw_header (base (Write p w)) = bw_header (base w)"
proof -
  have "bw_header (snd (layer_write p ls b)) = bw_header b" for ls b
    by (induction p ls b rule: layer_write.induct)
      (auto simp: base_write_def base_write_header_def Let_def split: prod.splits)
  then show ?thesis by (simp add: Write_def Let_def case_prod_unfold)
qed

lemma WriteHeader_header [simp]: "bw_header (base (WriteHeader c w)) = bw_header (base w)"
proof -
  have "bw_header (snd (layer_write_header c ls b)) = bw_header b" for ls b
    by (induction c ls b rule: layer_write_header.induct)
      (auto simp: base_write_header_def Let_def split: prod.splits)
  then show ?thesis by (simp add: WriteHeader_def Let_def case_prod_unfold)
qed

lemma writer_frame [simp]:
  "svc (Write p w) = svc w" "svc (WriteHeader c w) = svc w" "svc (SetHeader k v w) = svc w"
  "tokens (Write p w) = tokens w" "tokens (WriteHeader c w) = tokens w" "tokens (SetHeader k v w) = tokens w"
  "observed (Write p w) = observed w" "observed (WriteHeader c w) = observed w"
  "observed (SetHeader k v w) = observed w"
  "now (Write p w) = now w" "now (WriteHeader c w) = now w" "now (SetHeader k v w) = now w"
  "layers (SetHeader k v w) = layers w"
  by (simp_all add: Write_def WriteHeader_def SetHeader_def Let_def case_prod_unfold)

lemma response_Error_frame [simp]:
  "svc (response_Error enc e rid w) = svc w" "tokens (response_Error enc e rid w) = tokens w"
  "observed (response_Error enc e rid w) = observed w" "now (response_Error enc e rid w) = now w"
  by (simp_all add: response_Error_def response_JSON_def Let_def case_prod_unfold)

text \<open>What an error response writes on an uncommitted response without wrappers.\<close>

lemma response_Error_bare:
  assumes "layers w = []" and "bw_status (base w) = None" and "200 \<le> st"
  shows "layers (response_Error enc (apperr_New c st msg) rid w) = []"
    and "bw_status (base (response_Error enc (apperr_New c st msg) rid w)) = Some st"
    and "bw_body (base (response_Error enc (apperr_New c st msg) rid w)) =
      bw_body (base w) @ enc (error_envelope (code_string c) msg None rid)"
  using assms
  by (simp_all add: response_Error_def response_JSON_def error_response_def apperr_New_def Let_def
      WriteHeader_def Write_def SetHeader_def base_write_header_def base_write_def)

text \<open>
  whatever error value a handler hands to \<open>response.Error\<close>, the client gets the message and
  the details of an \<open>AppError\<close> in the error's chain, or one of two fixed texts: the text of
  any other error (and of an \<open>AppError\<close>'s cause) never reaches the response body, and a
  deadline anywhere in the chain is a 504.
\<close>

theorem error_response_sanitized:
  "(is_deadline err \<longrightarrow> error_response err rid =
      (504, error_envelope ''timeout'' ''request timed out'' None rid)) \<and>
   (\<not> is_deadline err \<longrightarrow>
      (\<exists>c s m d k. AsAppError err = Some (AppError c s m d k) \<and>
         error_response err rid = (s, error_envelope (code_string c) m d rid)) \<or>
      (AsAppError err = None \<and>
         error_response err rid = (500, error_envelope ''internal_error'' ''internal server error'' None rid)))"
proof -
  have shape: "AsAppError err = None \<or> (\<exists>c s m d k. AsAppError err = Some (AppError c s m d k))"
    by (induction err rule: AsAppError.induct) auto
  then show ?thesis by (auto simp: error_response_def)
qed

theorem error_response_sanitized_witness:
  "error_response (Wrapped ''load: '' (Plain ''pq: password authentication failed'')) ''r1'' =
     (500, error_envelope ''internal_error'' ''internal server error'' None ''r1'') \<and>
   error_response (AppError CodeNotFound 404 ''not found'' None (Some (Plain ''secret''))) ''r2'' =
     (404, error_envelope ''not_found'' ''not found'' None ''r2'')"
  using error_response_sanitized [of "Wrapped ''load: '' (Plain ''pq: password authentication failed'')" "''r1''"]
    error_response_sanitized [of "AppError CodeNotFound 404 ''not found'' None (Some (Plain ''secret''))" "''r2''"]
  by simp

end
