(* ===== verification/Policy_Meta.thy ===== *)
theory Policy_Meta
  imports Http
begin

text \<open>
  Policy metadata and the route validator: \<open>internal/core/policy/metadata.go\<close>,
  \<open>validator.go\<close> and \<open>validator_rules.go\<close>.

  A policy value is a Go closure: a code pointer and what the closure does. The metadata table
  \<open>policyMetadata\<close> is keyed by \<open>reflect.Value.Pointer\<close>, which is the code pointer only, so
  two policies built by the same constructor share one entry. The model keeps that.
\<close>

section \<open>Metadata\<close>

type_synonym PolicyType = string

abbreviation PolicyTypeUnknown :: PolicyType where "PolicyTypeUnknown \<equiv> ''unknown''"
abbreviation PolicyTypeNoop :: PolicyType where "PolicyTypeNoop \<equiv> ''noop''"
abbreviation PolicyTypeRequireJSON :: PolicyType where "PolicyTypeRequireJSON \<equiv> ''require_json''"
abbreviation PolicyTypeWithHeader :: PolicyType where "PolicyTypeWithHeader \<equiv> ''with_header''"
abbreviation PolicyTypeCacheControl :: PolicyType where "PolicyTypeCacheControl \<equiv> ''cache_control''"
abbreviation PolicyTypeAuthRequired :: PolicyType where "PolicyTypeAuthRequired \<equiv> ''auth_required''"
abbreviation PolicyTypeRequirePerm :: PolicyType where "PolicyTypeRequirePerm \<equiv> ''require_perm''"
abbreviation PolicyTypeRequireAnyPerm :: PolicyType where
  "PolicyTypeRequireAnyPerm \<equiv> ''require_any_perm''"
abbreviation PolicyTypeRateLimit :: PolicyType where "PolicyTypeRateLimit \<equiv> ''rate_limit''"
abbreviation PolicyTypeCacheRead :: PolicyType where "PolicyTypeCacheRead \<equiv> ''cache_read''"
abbreviation PolicyTypeCacheInvalidate :: PolicyType where
  "PolicyTypeCacheInvalidate \<equiv> ''cache_invalidate''"
abbreviation PolicyTypeCustom :: PolicyType where "PolicyTypeCustom \<equiv> ''custom''"

record CacheReadMetadata =
  AllowAuthenticated :: bool
  VaryByUserID :: bool
  VaryByIdentityPart :: bool

record CacheInvalidateMetadata =
  TagSpecCount :: nat

record Metadata =
  Type :: PolicyType
  Name :: string
  CacheReadMeta :: CacheReadMetadata
  CacheInvalidateMeta :: CacheInvalidateMetadata
  Stage :: int
  Data :: "(string \<times> string) list"

definition meta_of :: "PolicyType \<Rightarrow> string \<Rightarrow> Metadata" where
  "meta_of t n = \<lparr>Type = t, Name = n,
     CacheReadMeta = \<lparr>AllowAuthenticated = False, VaryByUserID = False, VaryByIdentityPart = False\<rparr>,
     CacheInvalidateMeta = \<lparr>TagSpecCount = 0\<rparr>, Stage = 0, Data = []\<rparr>"

section \<open>The metadata table\<close>

text \<open>A policy: its code pointer and its behaviour \<open>'p\<close> (\<open>None\<close> is the nil policy).\<close>

record 'p policy =
  code_ptr :: nat
  behaviour :: 'p

type_synonym policy_table = "nat \<rightharpoonup> Metadata"

definition policyPointer :: "'p policy \<Rightarrow> nat" where
  "policyPointer p = code_ptr p"

definition annotatePolicy :: "'p policy option \<Rightarrow> Metadata \<Rightarrow> policy_table
    \<Rightarrow> 'p policy option \<times> policy_table" where
  "annotatePolicy p meta t =
     (case p of
        None \<Rightarrow> (None, t)
      | Some q \<Rightarrow>
          (let m1 = (if Type meta = [] then meta\<lparr>Type := PolicyTypeUnknown\<rparr> else meta);
               m2 = (if trim_space (Name m1) = [] then m1\<lparr>Name := Type m1\<rparr> else m1)
           in (Some q, t(policyPointer q \<mapsto> m2))))"

definition AnnotateCustom :: "string \<Rightarrow> 'p policy option \<Rightarrow> policy_table
    \<Rightarrow> 'p policy option \<times> policy_table" where
  "AnnotateCustom name p t =
     (let trimmed = trim_space name;
          n = (if trimmed = [] then ''custom'' else trimmed)
      in annotatePolicy p (meta_of PolicyTypeCustom n) t)"

definition DescribePolicy :: "policy_table \<Rightarrow> 'p policy option \<Rightarrow> Metadata option" where
  "DescribePolicy t p = (case p of None \<Rightarrow> None | Some q \<Rightarrow> t (policyPointer q))"

datatype route_error =
    NilPolicy nat
  | NotAnnotated nat
  | MethodRequired
  | PatternRequired
  | OrderViolation string PolicyType      \<comment> \<open>policy name, type it may not follow\<close>
  | AuthRequiredForRBAC
  | UnsafeAuthenticatedCache
  | RuleError string

fun describe_from :: "policy_table \<Rightarrow> nat \<Rightarrow> 'p policy option list
    \<Rightarrow> route_error + Metadata list" where
  "describe_from t i [] = Inr []"
| "describe_from t i (None # ps) = Inl (NilPolicy i)"
| "describe_from t i (Some p # ps) =
     (case DescribePolicy t (Some p) of
        None \<Rightarrow> Inl (NotAnnotated i)
      | Some meta \<Rightarrow>
          (case describe_from t (Suc i) ps of Inl e \<Rightarrow> Inl e | Inr ms \<Rightarrow> Inr (meta # ms)))"

definition DescribePolicies :: "policy_table \<Rightarrow> 'p policy option list
    \<Rightarrow> route_error + Metadata list" where
  "DescribePolicies t ps = describe_from t 0 ps"

section \<open>Route rules\<close>

abbreviation StageAuth :: int where "StageAuth \<equiv> 1"
abbreviation StageIsolation :: int where "StageIsolation \<equiv> 2"
abbreviation StageRBAC :: int where "StageRBAC \<equiv> 3"
abbreviation StageRateLimit :: int where "StageRateLimit \<equiv> 4"
abbreviation StageCache :: int where "StageCache \<equiv> 5"
abbreviation StageCacheControl :: int where "StageCacheControl \<equiv> 6"

text \<open>A route rule takes verb, pattern and metadata; \<open>None\<close> in a rule list is a nil rule.\<close>

type_synonym RouteRule = "string \<Rightarrow> string \<Rightarrow> Metadata list \<Rightarrow> route_error option"

definition policyOrderStage :: "Metadata \<Rightarrow> int" where
  "policyOrderStage meta =
     (if Stage meta > 0 then Stage meta
      else if Type meta = PolicyTypeAuthRequired then StageAuth
      else if Type meta = PolicyTypeRequirePerm \<or> Type meta = PolicyTypeRequireAnyPerm then StageRBAC
      else if Type meta = PolicyTypeRateLimit then StageRateLimit
      else if Type meta = PolicyTypeCacheRead \<or> Type meta = PolicyTypeCacheInvalidate then StageCache
      else if Type meta = PolicyTypeCacheControl then StageCacheControl
      else 0)"

fun hasPolicyType :: "Metadata list \<Rightarrow> PolicyType \<Rightarrow> bool" where
  "hasPolicyType [] t = False"
| "hasPolicyType (m # ms) t = (if Type m = t then True else hasPolicyType ms t)"

fun findPolicies :: "Metadata list \<Rightarrow> PolicyType \<Rightarrow> Metadata list" where
  "findPolicies [] t = []"
| "findPolicies (m # ms) t =
     (if Type m = t then m # findPolicies ms t else findPolicies ms t)"

text \<open>The loop of \<open>validatePolicyOrdering\<close>, with \<open>previousStage\<close> and \<open>previousType\<close>.\<close>

fun ordering_loop :: "int \<Rightarrow> PolicyType \<Rightarrow> Metadata list \<Rightarrow> route_error option" where
  "ordering_loop previousStage previousType [] = None"
| "ordering_loop previousStage previousType (meta # ms) =
     (let stage = policyOrderStage meta in
      if stage > 0 then
        (if stage < previousStage then Some (OrderViolation (Name meta) previousType)
         else ordering_loop stage (Type meta) ms)
      else ordering_loop previousStage previousType ms)"

definition validatePolicyOrdering :: "Metadata list \<Rightarrow> route_error option" where
  "validatePolicyOrdering metas = ordering_loop 0 PolicyTypeUnknown metas"

definition validateAuthDependencies :: "Metadata list \<Rightarrow> route_error option" where
  "validateAuthDependencies metas =
     (if hasPolicyType metas PolicyTypeAuthRequired then None
      else if hasPolicyType metas PolicyTypeRequirePerm \<or> hasPolicyType metas PolicyTypeRequireAnyPerm
      then Some AuthRequiredForRBAC else None)"

definition validateCacheSafety :: "Metadata list \<Rightarrow> route_error option" where
  "validateCacheSafety metas =
     (if \<not> hasPolicyType metas PolicyTypeAuthRequired then None
      else if list_ex (\<lambda>m. \<not> VaryByUserID (CacheReadMeta m) \<and> \<not> VaryByIdentityPart (CacheReadMeta m))
             (findPolicies metas PolicyTypeCacheRead)
      then Some UnsafeAuthenticatedCache else None)"

fun run_rules :: "RouteRule option list \<Rightarrow> string \<Rightarrow> string \<Rightarrow> Metadata list \<Rightarrow> route_error option" where
  "run_rules [] m p ms = None"
| "run_rules (None # rs) m p ms = run_rules rs m p ms"
| "run_rules (Some rule # rs) m p ms =
     (case rule m p ms of Some e \<Rightarrow> Some e | None \<Rightarrow> run_rules rs m p ms)"

definition validateRouteRules :: "string \<Rightarrow> string \<Rightarrow> Metadata list \<Rightarrow> RouteRule option list
    \<Rightarrow> route_error option" where
  "validateRouteRules verb pattern metas rules =
     (case validatePolicyOrdering metas of Some e \<Rightarrow> Some e
      | None \<Rightarrow> (case validateAuthDependencies metas of Some e \<Rightarrow> Some e
      | None \<Rightarrow> (case validateCacheSafety metas of Some e \<Rightarrow> Some e
      | None \<Rightarrow> run_rules rules verb pattern metas)))"

definition ValidateRouteMetadataWith :: "RouteRule option list \<Rightarrow> string \<Rightarrow> string \<Rightarrow> Metadata list
    \<Rightarrow> route_error option" where
  "ValidateRouteMetadataWith rules verb pattern metas =
     (let trimmedMethod = to_upper (trim_space verb); trimmedPattern = trim_space pattern in
      if trimmedMethod = [] then Some MethodRequired
      else if trimmedPattern = [] then Some PatternRequired
      else if metas = [] then None
      else validateRouteRules trimmedMethod trimmedPattern metas rules)"

definition ValidateRouteWith :: "policy_table \<Rightarrow> RouteRule option list \<Rightarrow> string \<Rightarrow> string
    \<Rightarrow> 'p policy option list \<Rightarrow> route_error option" where
  "ValidateRouteWith t rules verb pattern ps =
     (let trimmedMethod = trim_space verb; trimmedPattern = trim_space pattern in
      if trimmedMethod = [] then Some MethodRequired
      else if trimmedPattern = [] then Some PatternRequired
      else (case DescribePolicies t ps of
          Inl e \<Rightarrow> Some e
        | Inr metas \<Rightarrow> ValidateRouteMetadataWith rules (to_upper trimmedMethod) trimmedPattern metas))"

definition ValidateRoute :: "policy_table \<Rightarrow> string \<Rightarrow> string \<Rightarrow> 'p policy option list
    \<Rightarrow> route_error option" where
  "ValidateRoute t verb pattern ps = ValidateRouteWith t [] verb pattern ps"

definition ValidateRouteMetadata :: "string \<Rightarrow> string \<Rightarrow> Metadata list \<Rightarrow> route_error option" where
  "ValidateRouteMetadata verb pattern metas = ValidateRouteMetadataWith [] verb pattern metas"

text \<open>\<open>MustValidateRouteWith\<close> panics where the validation errs: \<open>Some\<close> is the panic.\<close>

definition MustValidateRouteWith :: "policy_table \<Rightarrow> RouteRule option list \<Rightarrow> string \<Rightarrow> string
    \<Rightarrow> 'p policy option list \<Rightarrow> route_error option" where
  "MustValidateRouteWith t rules verb pattern ps = ValidateRouteWith t rules verb pattern ps"

section \<open>Properties of the validator\<close>

text \<open>The stages that take part in the order, in chain order.\<close>

definition stages :: "Metadata list \<Rightarrow> int list" where
  "stages ms = filter (\<lambda>s. 0 < s) (map policyOrderStage ms)"

lemma stages_simps [simp]:
  "stages [] = []"
  "stages (m # ms) = (if 0 < policyOrderStage m then policyOrderStage m # stages ms else stages ms)"
  by (simp_all add: stages_def)

lemma hasPolicyType_iff [simp]: "hasPolicyType ms t \<longleftrightarrow> (\<exists>m \<in> set ms. Type m = t)"
  by (induction ms) auto

lemma findPolicies_eq [simp]: "findPolicies ms t = filter (\<lambda>m. Type m = t) ms"
  by (induction ms) auto

lemma ordering_loop_None:
  "ordering_loop s t ms = None \<longleftrightarrow> sorted (stages ms) \<and> (\<forall>x \<in> set (stages ms). s \<le> x)"
proof (induction ms arbitrary: s t)
  case (Cons m ms)
  show ?case
    by (cases "0 < policyOrderStage m") (auto simp: Let_def Cons.IH)
qed simp

lemma stages_positive: "x \<in> set (stages ms) \<Longrightarrow> 0 < x"
  by (simp add: stages_def)

lemma validatePolicyOrdering_None:
  "validatePolicyOrdering ms = None \<longleftrightarrow> sorted (stages ms)"
  using stages_positive by (force simp: validatePolicyOrdering_def ordering_loop_None)

lemma stages_mem: "m \<in> set ms \<Longrightarrow> 0 < policyOrderStage m \<Longrightarrow> policyOrderStage m \<in> set (stages ms)"
  by (simp add: stages_def)

lemma stages_append [simp]: "stages (xs @ ys) = stages xs @ stages ys"
  by (simp add: stages_def)

lemma sorted_stages_before:
  assumes "sorted (stages (xs @ m # ys))" and "n \<in> set ys"
    and "0 < policyOrderStage m" and "0 < policyOrderStage n"
  shows "policyOrderStage m \<le> policyOrderStage n"
  using assms stages_mem [of n ys] by (auto simp: sorted_append)

lemma run_rules_None:
  "run_rules rs m p ms = None \<longleftrightarrow> (\<forall>r. Some r \<in> set rs \<longrightarrow> r m p ms = None)"
  by (induction rs m p ms rule: run_rules.induct) (auto split: option.splits)

lemma validateAuthDependencies_None:
  "validateAuthDependencies ms = None \<longleftrightarrow>
     (\<exists>m \<in> set ms. Type m = PolicyTypeAuthRequired) \<or>
     (\<forall>m \<in> set ms. Type m \<noteq> PolicyTypeRequirePerm \<and> Type m \<noteq> PolicyTypeRequireAnyPerm)"
  by (auto simp: validateAuthDependencies_def)

lemma validateCacheSafety_None:
  "validateCacheSafety ms = None \<longleftrightarrow>
     ((\<exists>m \<in> set ms. Type m = PolicyTypeAuthRequired) \<longrightarrow>
      (\<forall>m \<in> set ms. Type m = PolicyTypeCacheRead \<longrightarrow>
         VaryByUserID (CacheReadMeta m) \<or> VaryByIdentityPart (CacheReadMeta m)))"
  by (auto simp: validateCacheSafety_def list_ex_iff)

lemmas validator_None = validatePolicyOrdering_None validateAuthDependencies_None
  validateCacheSafety_None run_rules_None

lemma validateRouteRules_None:
  "validateRouteRules m p ms rs = None \<longleftrightarrow>
     validatePolicyOrdering ms = None \<and> validateAuthDependencies ms = None \<and>
     validateCacheSafety ms = None \<and> run_rules rs m p ms = None"
  by (simp add: validateRouteRules_def split: option.splits)

lemma describe_from_Inr:
  "describe_from t i ps = Inr ms \<longleftrightarrow>
     list_all2 (\<lambda>p m. \<exists>q. p = Some q \<and> t (code_ptr q) = Some m) ps ms"
  by (induction t i ps arbitrary: ms rule: describe_from.induct)
    (auto simp: DescribePolicy_def policyPointer_def list_all2_Cons1 split: option.splits sum.splits)

section \<open>Claims\<close>

text \<open>
  the route validator accepts exactly the routes with a verb and a pattern whose ordered
  policies are in stage order, whose RBAC policies come with an authentication policy, whose
  cache reads on authenticated routes vary by user or by an identity part, and which satisfy
  every feature rule; the order of the checks does not matter for acceptance.
\<close>

theorem validator_accepts_iff:
  "ValidateRouteMetadataWith rules verb pattern metas = None \<longleftrightarrow>
     trim_space verb \<noteq> [] \<and> trim_space pattern \<noteq> [] \<and>
     (metas = [] \<or>
       (sorted (stages metas) \<and>
        ((\<exists>m \<in> set metas. Type m = PolicyTypeAuthRequired) \<or>
         (\<forall>m \<in> set metas. Type m \<noteq> PolicyTypeRequirePerm \<and> Type m \<noteq> PolicyTypeRequireAnyPerm)) \<and>
        ((\<exists>m \<in> set metas. Type m = PolicyTypeAuthRequired) \<longrightarrow>
         (\<forall>m \<in> set metas. Type m = PolicyTypeCacheRead \<longrightarrow>
            VaryByUserID (CacheReadMeta m) \<or> VaryByIdentityPart (CacheReadMeta m))) \<and>
        (\<forall>r. Some r \<in> set rules \<longrightarrow>
            r (to_upper (trim_space verb)) (trim_space pattern) metas = None)))"
  by (simp add: ValidateRouteMetadataWith_def validateRouteRules_None validator_None Let_def)

abbreviation auth_meta :: Metadata where "auth_meta \<equiv> meta_of PolicyTypeAuthRequired ''AuthRequired''"
abbreviation perm_meta :: Metadata where "perm_meta \<equiv> meta_of PolicyTypeRequirePerm ''RequirePerm''"

definition cache_meta :: "bool \<Rightarrow> Metadata" where
  "cache_meta byUser = (meta_of PolicyTypeCacheRead ''CacheRead'')
     \<lparr>CacheReadMeta := \<lparr>AllowAuthenticated = True, VaryByUserID = byUser, VaryByIdentityPart = False\<rparr>\<rparr>"

lemma policyOrderStage_samples:
  "policyOrderStage auth_meta = 1" "policyOrderStage perm_meta = 3" "policyOrderStage (cache_meta b) = 5"
  by (simp_all add: policyOrderStage_def meta_of_def cache_meta_def)

theorem validator_accepts_iff_witness:
  "ValidateRouteMetadataWith [] ''GET'' ''/x'' [auth_meta, perm_meta, cache_meta True] = None"
proof -
  have "trim_space ''GET'' = ''GET''" "trim_space ''/x'' = ''/x''" by code_simp+
  then show ?thesis
    by (simp add: validator_accepts_iff policyOrderStage_samples) (simp add: meta_of_def cache_meta_def)
qed

text \<open>
  in a route the validator accepts, every RBAC policy is preceded by an authentication
  policy (built-in policies carry no explicit stage), so permissions are never checked before
  the principal is established.
\<close>

theorem rbac_after_auth:
  assumes ok: "ValidateRouteMetadataWith rules verb pattern (xs @ m # ys) = None"
    and m: "Type m = PolicyTypeRequirePerm \<or> Type m = PolicyTypeRequireAnyPerm"
    and builtin: "\<forall>n \<in> set (xs @ m # ys).
      Type n \<in> {PolicyTypeAuthRequired, PolicyTypeRequirePerm, PolicyTypeRequireAnyPerm} \<longrightarrow> Stage n = 0"
  shows "\<exists>a \<in> set xs. Type a = PolicyTypeAuthRequired"
proof -
  from ok have sorted: "sorted (stages (xs @ m # ys))"
    and dep: "validateAuthDependencies (xs @ m # ys) = None"
    by (simp_all add: ValidateRouteMetadataWith_def validateRouteRules_None validator_None Let_def
        split: if_splits del: stages_simps stages_append)
  from dep m obtain a where a: "a \<in> set (xs @ m # ys)" "Type a = PolicyTypeAuthRequired"
    by (auto simp: validateAuthDependencies_None)
  have st: "policyOrderStage a = 1" "policyOrderStage m = 3"
    using a m builtin by (auto simp: policyOrderStage_def)
  have "a \<notin> set ys" using sorted_stages_before [OF sorted, of a] st by auto
  moreover have "a \<noteq> m" using a m by auto
  ultimately show ?thesis using a by auto
qed

theorem rbac_after_auth_witness:
  "\<exists>a \<in> set [auth_meta]. Type a = PolicyTypeAuthRequired"
proof (rule rbac_after_auth [where rules = "[]" and verb = "''GET''" and pattern = "''/x''"
      and xs = "[auth_meta]" and m = perm_meta and ys = "[]"])
  show "ValidateRouteMetadataWith [] ''GET'' ''/x'' ([auth_meta] @ perm_meta # []) = None" by code_simp
qed (simp_all add: meta_of_def)

text \<open>
  the metadata table is keyed by code pointer, which all policies of one constructor share.
  Annotating a second cache-read policy that varies by user therefore hides the metadata of an
  earlier one that does not: the route the validator refuses just after the unsafe policy was
  built is accepted once a safe policy was built too.
\<close>

theorem shared_metadata_accepts_unsafe_cache:
  fixes p q a :: "'p policy"
  assumes "code_ptr p = code_ptr q" and "code_ptr a \<noteq> code_ptr p"
  shows "let t1 = snd (annotatePolicy (Some a) auth_meta t);
             t2 = snd (annotatePolicy (Some p) (cache_meta False) t1);
             t3 = snd (annotatePolicy (Some q) (cache_meta True) t2)
         in ValidateRoute t2 ''GET'' ''/x'' [Some a, Some p] = Some UnsafeAuthenticatedCache \<and>
            ValidateRoute t3 ''GET'' ''/x'' [Some a, Some p] = None"
proof -
  have trims: "trim_space ''GET'' = ''GET''" "trim_space ''/x'' = ''/x''" "to_upper ''GET'' = ''GET''"
      "trim_space ''CacheRead'' = ''CacheRead''" "trim_space ''AuthRequired'' = ''AuthRequired''"
    by code_simp+
  have metas: "ValidateRouteMetadataWith [] ''GET'' ''/x'' [auth_meta, cache_meta False] = Some UnsafeAuthenticatedCache"
      "ValidateRouteMetadataWith [] ''GET'' ''/x'' [auth_meta, cache_meta True] = None"
    by code_simp+
  have annotate: "annotatePolicy (Some x) auth_meta u = (Some x, u(code_ptr x \<mapsto> auth_meta))"
      "annotatePolicy (Some x) (cache_meta b) u = (Some x, u(code_ptr x \<mapsto> cache_meta b))"
    for x :: "'p policy" and b and u :: policy_table
    by (simp_all add: annotatePolicy_def policyPointer_def meta_of_def cache_meta_def trims)
  show ?thesis
    using assms metas
    by (simp add: Let_def annotate ValidateRoute_def
        ValidateRouteWith_def DescribePolicies_def DescribePolicy_def policyPointer_def trims)
qed

theorem shared_metadata_accepts_unsafe_cache_witness:
  "let p = \<lparr>code_ptr = 7, behaviour = ''by nothing''\<rparr>; q = \<lparr>code_ptr = 7, behaviour = ''by user''\<rparr>;
       a = \<lparr>code_ptr = 3, behaviour = ''auth''\<rparr>;
       t2 = snd (annotatePolicy (Some p) (cache_meta False) (snd (annotatePolicy (Some a) auth_meta Map.empty)));
       t3 = snd (annotatePolicy (Some q) (cache_meta True) t2)
   in ValidateRoute t2 ''GET'' ''/x'' [Some a, Some p] = Some UnsafeAuthenticatedCache \<and>
      ValidateRoute t3 ''GET'' ''/x'' [Some a, Some p] = None"
  using shared_metadata_accepts_unsafe_cache
    [of "\<lparr>code_ptr = 7, behaviour = ''by nothing''\<rparr>" "\<lparr>code_ptr = 7, behaviour = ''by user''\<rparr>"
        "\<lparr>code_ptr = 3, behaviour = ''auth''\<rparr>" Map.empty]
  by (simp add: Let_def)

end
