(* ===== verification/Redis.thy ===== *)
theory Redis
  imports Http
begin

text \<open>
  Redis is a service outside the repository. The definitions that talk to it take its
  operations as an argument of type \<open>'s redis\<close> over an abstract server state \<open>'s\<close>;
  what the code relies on is stated by the predicates of this theory, each a documented
  behaviour of one command, and used as a hypothesis by the properties that need it.
\<close>

datatype redis_value = RInt int | RStr string | RBytes string | RNil | RList "redis_value list"

record 's redis =
  redis_incr :: "string \<Rightarrow> 's \<Rightarrow> int \<times> 's"
  redis_pexpire :: "string \<Rightarrow> int \<Rightarrow> 's \<Rightarrow> 's"
  redis_pttl :: "string \<Rightarrow> 's \<Rightarrow> int"
  redis_eval :: "('s \<Rightarrow> redis_value \<times> 's) \<Rightarrow> 's \<Rightarrow> (go_error + redis_value) \<times> 's"
  redis_get :: "string \<Rightarrow> 's \<Rightarrow> go_error + string option"
  redis_set :: "string \<Rightarrow> string \<Rightarrow> int \<Rightarrow> 's \<Rightarrow> go_error option \<times> 's"
  redis_mget :: "string list \<Rightarrow> 's \<Rightarrow> go_error + redis_value list"
  redis_pipe_incr :: "string list \<Rightarrow> 's \<Rightarrow> go_error option \<times> 's"

text \<open>
  EVAL runs the script atomically: a reply is the script's own, on the state the script left.
  \<open>eval_available\<close> says in addition that the call succeeds.
\<close>

definition eval_faithful :: "'s redis \<Rightarrow> bool" where
  "eval_faithful R \<longleftrightarrow>
     (\<forall>f s v s'. redis_eval R f s = (Inr v, s') \<longrightarrow> f s = (v, s'))"

definition eval_available :: "'s redis \<Rightarrow> bool" where
  "eval_available R \<longleftrightarrow> (\<forall>f s. redis_eval R f s = (Inr (fst (f s)), snd (f s)))"

text \<open>
  Counters: \<open>ctr s k\<close> is the integer stored at \<open>k\<close> (0 when the key is absent). INCR adds one
  to its key alone; PEXPIRE with a positive timeout keeps the value, and with a non-positive
  one deletes the key.
\<close>

definition counter_laws :: "'s redis \<Rightarrow> ('s \<Rightarrow> string \<Rightarrow> int) \<Rightarrow> bool" where
  "counter_laws R ctr \<longleftrightarrow>
     (\<forall>k s. fst (redis_incr R k s) = ctr s k + 1) \<and>
     (\<forall>k s. ctr (snd (redis_incr R k s)) = (ctr s)(k := ctr s k + 1)) \<and>
     (\<forall>k t s. 0 < t \<longrightarrow> ctr (redis_pexpire R k t s) = ctr s) \<and>
     (\<forall>k t s. t \<le> 0 \<longrightarrow> ctr (redis_pexpire R k t s) = (ctr s)(k := 0))"

text \<open>
  Tag versions: a pipeline of INCRs that reports no error has incremented every key of its
  list (each once, for distinct keys) and no other key; MGET returns one value per key, the
  decimal text of the counter or nil for an absent key.
\<close>

definition version_laws :: "'s redis \<Rightarrow> ('s \<Rightarrow> string \<Rightarrow> int) \<Rightarrow> bool" where
  "version_laws R ctr \<longleftrightarrow>
     (\<forall>ks s s'. distinct ks \<longrightarrow> redis_pipe_incr R ks s = (None, s') \<longrightarrow>
        (\<forall>k. ctr s' k = (if k \<in> set ks then ctr s k + 1 else ctr s k))) \<and>
     (\<forall>ks s vs. redis_mget R ks s = Inr vs \<longrightarrow>
        vs = map (\<lambda>k. if ctr s k = 0 then RNil else RStr (itoa (ctr s k))) ks)"

section \<open>A small in-memory instance\<close>

text \<open>
  A concrete server on which the hypotheses above hold together, for the witnesses of the
  properties: integer counters without expiry, and string values.
\<close>

record mem =
  mem_ctr :: "string \<Rightarrow> int"
  mem_str :: "string \<Rightarrow> string option"

definition mem_redis :: "mem redis" where
  "mem_redis = \<lparr>
     redis_incr = (\<lambda>k s. (mem_ctr s k + 1, s\<lparr>mem_ctr := (mem_ctr s)(k := mem_ctr s k + 1)\<rparr>)),
     redis_pexpire = (\<lambda>k t s. if 0 < t then s else s\<lparr>mem_ctr := (mem_ctr s)(k := 0)\<rparr>),
     redis_pttl = (\<lambda>k s. 1000),
     redis_eval = (\<lambda>f s. (Inr (fst (f s)), snd (f s))),
     redis_get = (\<lambda>k s. Inr (mem_str s k)),
     redis_set = (\<lambda>k v t s. (None, s\<lparr>mem_str := (mem_str s)(k \<mapsto> v)\<rparr>)),
     redis_mget = (\<lambda>ks s. Inr (map (\<lambda>k. if mem_ctr s k = 0 then RNil else RStr (itoa (mem_ctr s k))) ks)),
     redis_pipe_incr = (\<lambda>ks s. (None,
        s\<lparr>mem_ctr := (\<lambda>k. if k \<in> set ks then mem_ctr s k + 1 else mem_ctr s k)\<rparr>))\<rparr>"

definition mem_empty :: mem where
  "mem_empty = \<lparr>mem_ctr = (\<lambda>_. 0), mem_str = (\<lambda>_. None)\<rparr>"

lemma mem_eval_available: "eval_available mem_redis"
  by (simp add: eval_available_def mem_redis_def)

lemma eval_available_faithful: "eval_available R \<Longrightarrow> eval_faithful R"
  by (auto simp: eval_available_def eval_faithful_def)

lemma mem_counter_laws: "counter_laws mem_redis mem_ctr"
  by (simp add: counter_laws_def mem_redis_def)

lemma mem_version_laws: "version_laws mem_redis mem_ctr"
  by (auto simp: version_laws_def mem_redis_def)

lemma counter_lawsD:
  assumes "counter_laws R ctr"
  shows "fst (redis_incr R k s) = ctr s k + 1"
    and "ctr (snd (redis_incr R k s)) = (ctr s)(k := ctr s k + 1)"
    and "0 < t \<Longrightarrow> ctr (redis_pexpire R k t s) = ctr s"
    and "t \<le> 0 \<Longrightarrow> ctr (redis_pexpire R k t s) = (ctr s)(k := 0)"
  using assms by (auto simp: counter_laws_def)

end
