(* ===== verification/Ratelimit.thy ===== *)
theory Ratelimit
  imports Redis
begin

text \<open>
  The fixed-window rate limiter of \<open>internal/core/ratelimit/ratelimit.go\<close>: rules, request
  identities, the Redis key, the Lua script and the decision of \<open>RedisLimiter.Allow\<close>.
\<close>

section \<open>Rules, requests and decisions\<close>

type_synonym Scope = string

abbreviation ScopeAuto :: Scope where "ScopeAuto \<equiv> ''auto''"
abbreviation ScopeAnon :: Scope where "ScopeAnon \<equiv> ''anon''"
abbreviation ScopeIP :: Scope where "ScopeIP \<equiv> ''ip''"
abbreviation ScopeUser :: Scope where "ScopeUser \<equiv> ''user''"
abbreviation ScopeToken :: Scope where "ScopeToken \<equiv> ''token''"

datatype Outcome = OutcomeAllowed | OutcomeBlocked | OutcomeFailOpen | OutcomeError

fun outcome_string :: "Outcome \<Rightarrow> string" where
  "outcome_string OutcomeAllowed = ''allowed''"
| "outcome_string OutcomeBlocked = ''blocked''"
| "outcome_string OutcomeFailOpen = ''fail_open''"
| "outcome_string OutcomeError = ''error''"

type_synonym Keyer = "request \<Rightarrow> Scope \<times> string"

record Rule =
  rule_Limit :: int
  rule_Window :: int
  rule_Scope :: Scope
  rule_Keyer :: "Keyer option"

datatype rate_error = LimitNotPositive | WindowNotPositive

definition Rule_Validate :: "Rule \<Rightarrow> rate_error option" where
  "Rule_Validate r =
     (if rule_Limit r \<le> 0 then Some LimitNotPositive
      else if rule_Window r \<le> 0 then Some WindowNotPositive else None)"

record Request =
  rq_Route :: string
  rq_Scope :: Scope
  rq_Identifier :: string
  rq_Limit :: int
  rq_Window :: int

record Decision =
  Allowed :: bool
  Remaining :: int
  RetryAfter :: int
  DOutcome :: Outcome

definition validateRequest :: "Request \<Rightarrow> rate_error option" where
  "validateRequest req =
     (if rq_Limit req \<le> 0 then Some LimitNotPositive
      else if rq_Window req \<le> 0 then Some WindowNotPositive else None)"

section \<open>Normalization and identities\<close>

definition rl_normalizeRoute :: "string \<Rightarrow> string" where
  "rl_normalizeRoute route =
     (let r = trim_space route in
      if r = [] then ''unknown''
      else (let r' = replace_byte (CHR '' '') (CHR ''_'') r in
            if length r' > 240 then take 240 r' else r'))"

definition sanitizeIdentifier :: "string \<Rightarrow> string" where
  "sanitizeIdentifier ident =
     (let trimmed = trim_space ident in
      if trimmed = [] then []
      else (let t = map (\<lambda>c. if c \<in> set [CHR '' '', CHR 0x0A, CHR 0x0D, CHR 0x09] then CHR ''_'' else c) trimmed
            in if length t > 128 then take 128 t else t))"

definition normalizeKey :: "Scope \<Rightarrow> string \<Rightarrow> Scope \<times> string" where
  "normalizeKey scope ident =
     (let scope1 = (if scope = [] \<or> scope = ScopeAuto then ScopeAnon else scope);
          id1 = sanitizeIdentifier ident
      in if id1 = [] then (ScopeAnon, ''anonymous'') else (scope1, id1))"

definition BuildKey :: "string \<Rightarrow> string \<Rightarrow> Scope \<Rightarrow> string \<Rightarrow> string" where
  "BuildKey env route scope ident =
     (let e0 = trim_space env;
          normalizedEnv = (if e0 = [] then ''dev'' else e0);
          normalizedRoute = rl_normalizeRoute route;
          normalizedScope = (if scope = [] \<or> scope = ScopeAuto then ScopeAnon else scope);
          i0 = sanitizeIdentifier ident;
          normalizedID = (if i0 = [] then ''anonymous'' else i0)
      in ''rl:'' @ normalizedEnv @ '':'' @ normalizedRoute @ '':'' @ normalizedScope @ '':'' @ normalizedID)"

text \<open>\<open>net.SplitHostPort\<close>: host and port, or \<open>None\<close> for any of its errors.\<close>

fun index_of :: "char \<Rightarrow> string \<Rightarrow> nat option" where
  "index_of d [] = None"
| "index_of d (c # s) = (if c = d then Some 0 else map_option Suc (index_of d s))"

fun last_index_of :: "char \<Rightarrow> string \<Rightarrow> nat option" where
  "last_index_of d [] = None"
| "last_index_of d (c # s) =
     (case last_index_of d s of
        Some i \<Rightarrow> Some (Suc i)
      | None \<Rightarrow> if c = d then Some 0 else None)"

definition SplitHostPort :: "string \<Rightarrow> (string \<times> string) option" where
  "SplitHostPort s =
     (case last_index_of (CHR '':'') s of
        None \<Rightarrow> None
      | Some i \<Rightarrow>
          (if take 1 s = ''['' then
             (case index_of (CHR '']'') s of
                None \<Rightarrow> None
              | Some e \<Rightarrow>
                  if e + 1 = i \<and> CHR ''['' \<notin> set (drop 1 s) \<and> CHR '']'' \<notin> set (drop (e + 1) s)
                  then Some (take (e - 1) (drop 1 s), drop (i + 1) s) else None)
           else
             (let host = take i s in
              if CHR '':'' \<in> set host \<or> CHR ''['' \<in> set s \<or> CHR '']'' \<in> set s then None
              else Some (host, drop (i + 1) s))))"

definition KeyByAnonymous :: Keyer where
  "KeyByAnonymous r = (ScopeAnon, ''anonymous'')"

definition KeyByIP :: Keyer where
  "KeyByIP r =
     (case ClientIPFromContext r of
        Some ip \<Rightarrow> (ScopeIP, ip)
      | None \<Rightarrow>
          (let addr = trim_space (req_remote r);
               host = (case SplitHostPort addr of Some (h, p) \<Rightarrow> h | None \<Rightarrow> addr)
           in if host = [] then (ScopeAnon, ''anonymous'') else (ScopeIP, host)))"

definition KeyByUser :: Keyer where
  "KeyByUser r =
     (let (prin, ok) = auth_FromContext r in
      if \<not> ok \<or> trim_space (UserID prin) = [] then (ScopeAnon, ''anonymous'')
      else (ScopeUser, UserID prin))"

definition bearerToken :: "string \<Rightarrow> string option" where
  "bearerToken header =
     (if header = [] then None
      else (case str_fields header of
          [p0, p1] \<Rightarrow> if equal_fold p0 ''Bearer'' \<and> p1 \<noteq> [] then Some p1 else None
        | _ \<Rightarrow> None))"

text \<open>\<open>sha\<close> is the hexadecimal SHA-256 digest of the standard library.\<close>

definition KeyByTokenHash :: "(string \<Rightarrow> string) \<Rightarrow> int \<Rightarrow> Keyer" where
  "KeyByTokenHash sha prefixLen0 r =
     (let prefixLen = (if prefixLen0 \<le> 0 then 16 else prefixLen0) in
      case bearerToken (header_get (req_header r) ''Authorization'') of
        None \<Rightarrow> (ScopeAnon, ''anonymous'')
      | Some token \<Rightarrow>
          (let hexHash = sha token;
               effectivePrefix = (if prefixLen > int (length hexHash) then int (length hexHash) else prefixLen)
           in (ScopeToken, take (nat effectivePrefix) hexHash)))"

definition KeyByUserOrTokenHash :: "(string \<Rightarrow> string) \<Rightarrow> int \<Rightarrow> Keyer" where
  "KeyByUserOrTokenHash sha prefixLen r =
     (if fst (KeyByUser r) \<noteq> ScopeAnon then KeyByUser r
      else if fst (KeyByTokenHash sha prefixLen r) \<noteq> ScopeAnon then KeyByTokenHash sha prefixLen r
      else (ScopeAnon, ''anonymous''))"

text \<open>\<open>or_anon k\<close>: the result \<open>k\<close>, or the anonymous bucket where \<open>k\<close> fell back to it.\<close>

definition or_anon :: "Scope \<times> string \<Rightarrow> Scope \<times> string" where
  "or_anon k = (if fst k \<noteq> ScopeAnon then k else (ScopeAnon, ''anonymous''))"

definition scope_identity :: "(string \<Rightarrow> string) \<Rightarrow> request \<Rightarrow> Scope \<Rightarrow> Scope \<times> string" where
  "scope_identity sha r scope =
     (let norm = (\<lambda>k. normalizeKey (fst k) (snd k)) in
      if scope = ScopeIP then norm (KeyByIP r)
      else if scope = ScopeUser then
        (if fst (norm (KeyByUser r)) \<noteq> ScopeAnon then norm (KeyByUser r)
         else or_anon (norm (KeyByTokenHash sha 16 r)))
      else if scope = ScopeToken then or_anon (norm (KeyByTokenHash sha 16 r))
      else if scope = ScopeAuto \<or> scope = [] then or_anon (norm (KeyByUserOrTokenHash sha 16 r))
      else (ScopeAnon, ''anonymous''))"

definition ResolveScopeAndIdentifier :: "(string \<Rightarrow> string) \<Rightarrow> request option \<Rightarrow> Rule \<Rightarrow> Scope \<times> string" where
  "ResolveScopeAndIdentifier sha req rule =
     (case req of
        None \<Rightarrow> (ScopeAnon, ''anonymous'')
      | Some r \<Rightarrow>
          (case rule_Keyer rule of
             None \<Rightarrow> scope_identity sha r (rule_Scope rule)
           | Some keyer \<Rightarrow>
               (let k = normalizeKey (fst (keyer r)) (snd (keyer r)) in
                if fst k \<noteq> ScopeAnon then k else scope_identity sha r (rule_Scope rule))))"

section \<open>The limiter\<close>

record RedisLimiter =
  rl_env :: string
  rl_failOpen :: bool
  rl_observe :: bool

text \<open>\<open>NewRedisLimiter\<close>; the first argument says whether a client was given.\<close>

definition NewRedisLimiter :: "bool \<Rightarrow> string \<Rightarrow> bool \<Rightarrow> bool \<Rightarrow> RedisLimiter option" where
  "NewRedisLimiter hasClient env0 failOpen hasObserve =
     (if \<not> hasClient then None
      else (let e = trim_space env0; env = (if e = [] then ''dev'' else e) in
            Some \<lparr>rl_env = env, rl_failOpen = failOpen, rl_observe = hasObserve\<rparr>))"

definition fixedWindowScript :: "'s redis \<Rightarrow> string \<Rightarrow> int \<Rightarrow> int \<Rightarrow> 's \<Rightarrow> redis_value \<times> 's" where
  "fixedWindowScript R key limit window_ms s =
     (let (current, s1) = redis_incr R key s;
          s2 = (if current = 1 then redis_pexpire R key window_ms s1 else s1);
          ttl0 = redis_pttl R key s2;
          ttl = (if ttl0 < 0 then window_ms else ttl0);
          allowed = (if current \<le> limit then 1 else 0)
      in (RList [RInt allowed, RInt current, RInt ttl], s2))"

text \<open>\<open>strconv.ParseInt\<close> with its error dropped: 0 on a syntax error, the nearest bound on a
  range error.\<close>

definition parse_int_lax :: "string \<Rightarrow> int" where
  "parse_int_lax s =
     (let (neg, ds) = (case s of
          c # t \<Rightarrow> if c = CHR ''-'' then (True, t) else if c = CHR ''+'' then (False, t) else (False, s)
        | [] \<Rightarrow> (False, []))
      in if ds = [] then 0
         else (case dec_value 0 ds of
             None \<Rightarrow> 0
           | Some n \<Rightarrow> if neg then max (- (2 ^ 63)) (- int n) else min (2 ^ 63 - 1) (int n)))"

fun toInt64 :: "redis_value \<Rightarrow> int" where
  "toInt64 (RInt n) = n"
| "toInt64 (RStr s) = parse_int_lax s"
| "toInt64 (RBytes s) = parse_int_lax s"
| "toInt64 RNil = 0"
| "toInt64 (RList vs) = 0"

definition int64ToIntBounded :: "int \<Rightarrow> int" where
  "int64ToIntBounded n =
     (if n > 2 ^ 63 - 1 then 2 ^ 63 - 1 else if n < - (2 ^ 63) then - (2 ^ 63) else n)"

definition observeDecision :: "RedisLimiter \<Rightarrow> string \<Rightarrow> Outcome \<Rightarrow> 's world \<Rightarrow> 's world" where
  "observeDecision l route oc w =
     (if \<not> rl_observe l then w
      else w\<lparr>observed := observed w @ [(rl_normalizeRoute route, outcome_string oc)]\<rparr>)"

definition failed_decision :: "RedisLimiter \<Rightarrow> Request \<Rightarrow> Decision" where
  "failed_decision l req =
     (if rl_failOpen l
      then \<lparr>Allowed = True, Remaining = 0, RetryAfter = 0, DOutcome = OutcomeFailOpen\<rparr>
      else \<lparr>Allowed = False, Remaining = 0, RetryAfter = rq_Window req, DOutcome = OutcomeError\<rparr>)"

definition decide :: "Request \<Rightarrow> int \<Rightarrow> int \<Rightarrow> int \<Rightarrow> Decision" where
  "decide req v0 v1 v2 =
     (let allowed = (v0 = 1);
          current = (if v1 < 0 then 0 else v1);
          rem = rq_Limit req - current;
          remaining = (if rem < 0 then 0 else rem)
      in if allowed
         then \<lparr>Allowed = True, Remaining = int64ToIntBounded remaining, RetryAfter = 0,
               DOutcome = OutcomeAllowed\<rparr>
         else (let ra = (if v2 > 0 then wrap64 (v2 * millisecond) else 0) in
               \<lparr>Allowed = False, Remaining = int64ToIntBounded remaining,
                RetryAfter = (if ra \<le> 0 then rq_Window req else ra), DOutcome = OutcomeBlocked\<rparr>))"

definition RedisLimiter_Allow :: "'s redis \<Rightarrow> RedisLimiter \<Rightarrow> Request \<Rightarrow> 's world
    \<Rightarrow> (rate_error + Decision) \<times> 's world" where
  "RedisLimiter_Allow R l req w =
     (case validateRequest req of
        Some e \<Rightarrow> (Inl e, w)
      | None \<Rightarrow>
          (let key = BuildKey (rl_env l) (rq_Route req) (rq_Scope req) (rq_Identifier req);
               windowMS = rq_Window req div millisecond;
               (raw, s') = redis_eval R (fixedWindowScript R key (rq_Limit req) windowMS) (svc w);
               w' = w\<lparr>svc := s'\<rparr>;
               decision = (case raw of
                   Inl err \<Rightarrow> failed_decision l req
                 | Inr (RList [v0, v1, v2]) \<Rightarrow> decide req (toInt64 v0) (toInt64 v1) (toInt64 v2)
                 | Inr v \<Rightarrow> failed_decision l req)
           in (Inr decision, observeDecision l (rq_Route req) (DOutcome decision) w')))"

definition RetryAfterSeconds :: "int \<Rightarrow> int" where
  "RetryAfterSeconds d = (if d \<le> 0 then 0 else (d + (second - 1)) div second)"

section \<open>Normalized keys\<close>

lemma rl_normalizeRoute_wf:
  "rl_normalizeRoute r \<noteq> [] \<and> length (rl_normalizeRoute r) \<le> 240 \<and> CHR '' '' \<notin> set (rl_normalizeRoute r)"
  using replace_byte_free [of "CHR '' ''" "CHR ''_''" "trim_space r"]
  by (auto simp: rl_normalizeRoute_def Let_def dest: in_set_takeD)

lemma sanitizeIdentifier_wf:
  "length (sanitizeIdentifier i) \<le> 128 \<and>
   set (sanitizeIdentifier i) \<inter> {CHR '' '', CHR 0x0A, CHR 0x0D, CHR 0x09} = {}"
  by (auto simp: sanitizeIdentifier_def Let_def dest!: in_set_takeD)

text \<open>What every resolved identity satisfies: a concrete scope and a bounded, blank-free id.\<close>

definition key_wf :: "Scope \<times> string \<Rightarrow> bool" where
  "key_wf k \<longleftrightarrow> fst k \<noteq> [] \<and> fst k \<noteq> ScopeAuto \<and> snd k \<noteq> [] \<and> length (snd k) \<le> 128 \<and>
     set (snd k) \<inter> {CHR '' '', CHR 0x0A, CHR 0x0D, CHR 0x09} = {}"

lemma key_wf_anon: "key_wf (ScopeAnon, ''anonymous'')"
  by (simp add: key_wf_def)

lemma key_wf_normalizeKey: "key_wf (normalizeKey sc i)"
  using sanitizeIdentifier_wf [of i] by (auto simp: normalizeKey_def key_wf_def Let_def)

lemma key_wf_or_anon: "key_wf k \<Longrightarrow> key_wf (or_anon k)"
  by (simp add: or_anon_def key_wf_anon)

lemmas key_wfs = key_wf_anon key_wf_normalizeKey key_wf_or_anon

lemma key_wf_scope_identity: "key_wf (scope_identity sha r sc)"
  by (simp add: scope_identity_def Let_def key_wfs)

section \<open>Decisions\<close>

definition decision_wf :: "Request \<Rightarrow> Decision \<Rightarrow> bool" where
  "decision_wf req d \<longleftrightarrow>
     0 \<le> Remaining d \<and> Remaining d \<le> rq_Limit req \<and>
     (Allowed d \<longleftrightarrow> DOutcome d = OutcomeAllowed \<or> DOutcome d = OutcomeFailOpen) \<and>
     (Allowed d \<longrightarrow> RetryAfter d = 0) \<and> (\<not> Allowed d \<longrightarrow> 0 < RetryAfter d)"

lemma int64ToIntBounded_nonneg:
  "0 \<le> n \<Longrightarrow> 0 \<le> int64ToIntBounded n \<and> int64ToIntBounded n \<le> n"
  by (simp add: int64ToIntBounded_def)

lemma failed_decision_wf: "validateRequest req = None \<Longrightarrow> decision_wf req (failed_decision l req)"
  by (auto simp: decision_wf_def failed_decision_def validateRequest_def split: if_splits)

lemma remaining_bounds:
  "0 < L \<Longrightarrow> 0 \<le> c \<Longrightarrow> 0 \<le> int64ToIntBounded (if L - c < 0 then 0 else L - c) \<and>
     int64ToIntBounded (if L - c < 0 then 0 else L - c) \<le> L"
  using int64ToIntBounded_nonneg [of "if L - c < 0 then 0 else L - c"] by (auto split: if_splits)

lemma decide_wf:
  assumes "validateRequest req = None"
  shows "decision_wf req (decide req v0 v1 v2)"
proof -
  have lim: "0 < rq_Limit req" and win: "0 < rq_Window req"
    using assms by (auto simp: validateRequest_def split: if_splits)
  have "0 \<le> (if v1 < 0 then 0 else v1)" by simp
  from remaining_bounds [OF lim this] win show ?thesis
    unfolding decision_wf_def decide_def Let_def by simp
qed

text \<open>\<open>Allow\<close> touches the service state and the metrics log only.\<close>

lemma Allow_frame:
  "base (snd (RedisLimiter_Allow R l req w)) = base w"
  "layers (snd (RedisLimiter_Allow R l req w)) = layers w"
  "tokens (snd (RedisLimiter_Allow R l req w)) = tokens w"
  "now (snd (RedisLimiter_Allow R l req w)) = now w"
  by (simp_all add: RedisLimiter_Allow_def observeDecision_def Let_def split: option.splits prod.splits)

lemma Allow_invalid: "validateRequest req = Some e \<Longrightarrow> RedisLimiter_Allow R l req w = (Inl e, w)"
  by (simp add: RedisLimiter_Allow_def)

lemma Allow_valid:
  assumes "validateRequest req = None"
  shows "\<exists>d. fst (RedisLimiter_Allow R l req w) = Inr d \<and> decision_wf req d"
  using assms failed_decision_wf [OF assms] decide_wf [OF assms]
  by (auto simp: RedisLimiter_Allow_def Let_def split: prod.splits sum.splits redis_value.splits list.splits)

section \<open>The budget of one window\<close>

definition limiter_key :: "RedisLimiter \<Rightarrow> Request \<Rightarrow> string" where
  "limiter_key l req = BuildKey (rl_env l) (rq_Route req) (rq_Scope req) (rq_Identifier req)"

definition admitted :: "rate_error + Decision \<Rightarrow> bool" where
  "admitted d = (case d of Inl e \<Rightarrow> False | Inr d \<Rightarrow> Allowed d)"

text \<open>A request sequence, as the policy middleware issues it.\<close>

primrec allow_run :: "'s redis \<Rightarrow> RedisLimiter \<Rightarrow> Request list \<Rightarrow> 's world
    \<Rightarrow> (Request \<times> (rate_error + Decision)) list \<times> 's world" where
  "allow_run R l [] w = ([], w)"
| "allow_run R l (req # reqs) w =
     (let (d, w1) = RedisLimiter_Allow R l req w;
          (ds, w2) = allow_run R l reqs w1
      in ((req, d) # ds, w2))"

lemma script_step:
  assumes "counter_laws R ctr" and "0 < win"
  shows "\<exists>ttl s2. fixedWindowScript R key lim win s =
           (RList [RInt (if ctr s key + 1 \<le> lim then 1 else 0), RInt (ctr s key + 1), RInt ttl], s2) \<and>
         ctr s2 = (ctr s)(key := ctr s key + 1)"
proof -
  obtain c s1 where inc: "redis_incr R key s = (c, s1)" by (cases "redis_incr R key s")
  have "c = ctr s key + 1" "ctr s1 = (ctr s)(key := ctr s key + 1)"
    using counter_lawsD(1,2) [OF assms(1), of key s] inc by simp_all
  then show ?thesis
    using counter_lawsD(3) [OF assms(1) assms(2), of key s1] inc
    by (auto simp: fixedWindowScript_def Let_def)
qed

lemma Allow_step:
  assumes "counter_laws R ctr" and "eval_available R"
    and "validateRequest req = None" and "millisecond \<le> rq_Window req"
  shows "admitted (fst (RedisLimiter_Allow R l req w)) \<longleftrightarrow>
           ctr (svc w) (limiter_key l req) + 1 \<le> rq_Limit req"
    and "ctr (svc (snd (RedisLimiter_Allow R l req w))) =
           (ctr (svc w))(limiter_key l req := ctr (svc w) (limiter_key l req) + 1)"
proof -
  have win: "0 < rq_Window req div millisecond" using assms(4) by (simp add: pos_imp_zdiv_pos_iff)
  from script_step [OF assms(1) win] obtain ttl s2 where
    sc: "fixedWindowScript R (limiter_key l req) (rq_Limit req) (rq_Window req div millisecond) (svc w) =
      (RList [RInt (if ctr (svc w) (limiter_key l req) + 1 \<le> rq_Limit req then 1 else 0),
              RInt (ctr (svc w) (limiter_key l req) + 1), RInt ttl], s2)"
    and s2: "ctr s2 = (ctr (svc w))(limiter_key l req := ctr (svc w) (limiter_key l req) + 1)"
    by blast
  note defs = RedisLimiter_Allow_def assms(3) limiter_key_def [symmetric] sc Let_def
    eval_available_def [THEN iffD1, OF assms(2), rule_format]
  show "admitted (fst (RedisLimiter_Allow R l req w)) \<longleftrightarrow>
      ctr (svc w) (limiter_key l req) + 1 \<le> rq_Limit req"
    by (simp add: defs admitted_def decide_def)
  show "ctr (svc (snd (RedisLimiter_Allow R l req w))) =
      (ctr (svc w))(limiter_key l req := ctr (svc w) (limiter_key l req) + 1)"
    by (simp add: defs s2 observeDecision_def)
qed

section \<open>The limiter interface\<close>

text \<open>
  The contract of the Go interface \<open>ratelimit.Limiter\<close> that the rate-limit policy relies on: an
  invalid request is refused and changes nothing, a valid one always gets a well-formed
  decision, and the response is left alone.
\<close>

locale limiter =
  fixes allow :: "Request \<Rightarrow> 's world \<Rightarrow> (rate_error + Decision) \<times> 's world"
  assumes refuses: "validateRequest req = Some e \<Longrightarrow> allow req w = (Inl e, w)"
    and decides: "validateRequest req = None \<Longrightarrow> \<exists>d. fst (allow req w) = Inr d \<and> decision_wf req d"
    and keeps_response: "base (snd (allow req w)) = base w" "layers (snd (allow req w)) = layers w"
begin

lemma allow_cases:
  obtains (refused) e where "validateRequest req = Some e" "allow req w = (Inl e, w)"
  | (decided) d w' where "validateRequest req = None" "allow req w = (Inr d, w')" "decision_wf req d"
      "base w' = base w" "layers w' = layers w"
proof (cases "validateRequest req")
  case None
  then obtain d where "fst (allow req w) = Inr d" "decision_wf req d" using decides by blast
  with None keeps_response [of req w] show ?thesis
    by (intro decided [of d "snd (allow req w)"]) (auto simp: prod_eq_iff)
next
  case (Some e)
  then show ?thesis using refuses refused by blast
qed

end

interpretation redis_limiter: limiter "RedisLimiter_Allow R l" for R l
  by unfold_locales (simp_all add: Allow_invalid Allow_valid Allow_frame)

section \<open>Claims\<close>

text \<open>
  C4: with Redis available and counters as documented, a request sequence that mixes any
  clients and routes is admitted, for each limiter key, exactly as long as the budget of the
  key's current window lasts: of the requests of a key, the number admitted is the smaller of
  their number and what is left of the limit. Requests of other keys use none of it.
\<close>

theorem window_budget:
  assumes laws: "counter_laws R ctr" "eval_available R"
    and reqs: "\<forall>q \<in> set reqs. validateRequest q = None \<and> millisecond \<le> rq_Window q \<and>
                 (limiter_key l q = K \<longrightarrow> rq_Limit q = L)"
  shows "length (filter (\<lambda>(q, d). limiter_key l q = K \<and> admitted d) (fst (allow_run R l reqs w))) =
         min (length (filter (\<lambda>q. limiter_key l q = K) reqs)) (nat (L - ctr (svc w) K))"
  using reqs
proof (induction reqs arbitrary: w)
  case (Cons q reqs)
  define w1 where "w1 = snd (RedisLimiter_Allow R l q w)"
  have q: "validateRequest q = None" "millisecond \<le> rq_Window q" using Cons.prems by auto
  note step = Allow_step [OF laws q, of l w]
  have IH: "length (filter (\<lambda>(q, d). limiter_key l q = K \<and> admitted d) (fst (allow_run R l reqs w1))) =
      min (length (filter (\<lambda>q. limiter_key l q = K) reqs)) (nat (L - ctr (svc w1) K))"
    using Cons by simp
  have run: "fst (allow_run R l (q # reqs) w) =
      (q, fst (RedisLimiter_Allow R l q w)) # fst (allow_run R l reqs w1)"
    by (simp add: w1_def Let_def split: prod.splits)
  note [simp del] = allow_run.simps
  show ?case
  proof (cases "limiter_key l q = K")
    case True
    then have "rq_Limit q = L" using Cons.prems by simp
    with True step show ?thesis by (auto simp: run IH w1_def [symmetric] min_def)
  next
    case False
    with step(2) have "ctr (svc w1) K = ctr (svc w) K" by (simp add: w1_def)
    with False show ?thesis by (simp add: run IH)
  qed
qed simp


definition sample_limiter :: RedisLimiter where
  "sample_limiter = \<lparr>rl_env = ''dev'', rl_failOpen = False, rl_observe = True\<rparr>"

definition sample_req :: "string \<Rightarrow> Request" where
  "sample_req i = \<lparr>rq_Route = ''/x'', rq_Scope = ScopeIP, rq_Identifier = i, rq_Limit = 2, rq_Window = second\<rparr>"

theorem window_budget_witness:
  "length (filter (\<lambda>(q, d). limiter_key sample_limiter q = ''rl:dev:/x:ip:a'' \<and> admitted d)
     (fst (allow_run mem_redis sample_limiter
        [sample_req ''a'', sample_req ''b'', sample_req ''a'', sample_req ''a''] (blank_world mem_empty)))) = 2"
proof -
  have keys: "limiter_key sample_limiter (sample_req ''a'') = ''rl:dev:/x:ip:a''"
      "limiter_key sample_limiter (sample_req ''b'') = ''rl:dev:/x:ip:b''"
    by code_simp+
  have "\<forall>q \<in> set [sample_req ''a'', sample_req ''b'', sample_req ''a'', sample_req ''a''].
      validateRequest q = None \<and> millisecond \<le> rq_Window q \<and>
      (limiter_key sample_limiter q = ''rl:dev:/x:ip:a'' \<longrightarrow> rq_Limit q = 2)"
    by (simp add: sample_req_def validateRequest_def)
  from window_budget [OF mem_counter_laws mem_eval_available this, of "blank_world mem_empty"]
  show ?thesis by (simp add: keys blank_world_def mem_empty_def)
qed

text \<open>
  every call of \<open>Allow\<close> on a valid request returns a decision, whatever Redis answers: the
  remaining budget is between 0 and the limit, an admitted request has no retry delay and a
  refused one has a positive delay; an invalid request is an error and touches nothing.
\<close>

theorem allow_total:
  "case validateRequest req of
     Some e \<Rightarrow> RedisLimiter_Allow R l req w = (Inl e, w)
   | None \<Rightarrow> \<exists>d w'. RedisLimiter_Allow R l req w = (Inr d, w') \<and>
       0 \<le> Remaining d \<and> Remaining d \<le> rq_Limit req \<and>
       (Allowed d \<and> RetryAfter d = 0 \<or> \<not> Allowed d \<and> 0 < RetryAfter d) \<and>
       base w' = base w \<and> layers w' = layers w"
  by (cases rule: redis_limiter.allow_cases [of req R l w]) (auto simp: decision_wf_def)

text \<open>
  when Redis fails or answers something that is not the script's triple, the limiter's
  fail-open setting alone decides: fail-open admits the request and reports \<open>fail_open\<close>,
  fail-closed refuses it for a whole window and reports \<open>error\<close>.
\<close>

theorem limiter_failure_mode:
  assumes "validateRequest req = None"
    and "\<nexists>v0 v1 v2. fst (redis_eval R (fixedWindowScript R (limiter_key l req) (rq_Limit req)
            (rq_Window req div millisecond)) (svc w)) = Inr (RList [v0, v1, v2])"
  shows "fst (RedisLimiter_Allow R l req w) =
     Inr (if rl_failOpen l
          then \<lparr>Allowed = True, Remaining = 0, RetryAfter = 0, DOutcome = OutcomeFailOpen\<rparr>
          else \<lparr>Allowed = False, Remaining = 0, RetryAfter = rq_Window req, DOutcome = OutcomeError\<rparr>)"
proof -
  obtain e s' where ev: "redis_eval R (fixedWindowScript R (limiter_key l req) (rq_Limit req)
      (rq_Window req div millisecond)) (svc w) = (e, s')" by fastforce
  with assms(2) have "e \<noteq> Inr (RList [v0, v1, v2])" for v0 v1 v2 by simp
  then have "(case e of Inl err \<Rightarrow> failed_decision l req
      | Inr (RList [v0, v1, v2]) \<Rightarrow> decide req (toInt64 v0) (toInt64 v1) (toInt64 v2)
      | Inr v \<Rightarrow> failed_decision l req) = failed_decision l req"
    by (auto split: sum.split redis_value.split list.split)
  with assms(1) ev show ?thesis
    by (simp add: RedisLimiter_Allow_def limiter_key_def [symmetric] failed_decision_def Let_def)
qed

definition down_redis :: "mem redis" where
  "down_redis = mem_redis\<lparr>redis_eval := (\<lambda>f s. (Inl (Plain ''connection refused''), s))\<rparr>"

theorem limiter_failure_mode_witness:
  "fst (RedisLimiter_Allow down_redis sample_limiter (sample_req ''a'') (blank_world mem_empty)) =
     Inr \<lparr>Allowed = False, Remaining = 0, RetryAfter = second, DOutcome = OutcomeError\<rparr>"
proof -
  have v: "validateRequest (sample_req ''a'') = None" by (simp add: sample_req_def validateRequest_def)
  show ?thesis
    by (subst limiter_failure_mode [OF v])
      (simp_all add: down_redis_def sample_limiter_def sample_req_def)
qed

text \<open>
  two requests share a limiter key only if they agree on the normalized route, the scope and
  the sanitized identifier (in one environment, for routes and scopes without a colon), so the
  buckets of different routes or clients never mix.
\<close>

theorem limiter_keys_separate:
  assumes "BuildKey env r1 s1 i1 = BuildKey env r2 s2 i2"
    and "CHR '':'' \<notin> set r1" and "CHR '':'' \<notin> set r2" and "CHR '':'' \<notin> set s1" and "CHR '':'' \<notin> set s2"
  shows "rl_normalizeRoute r1 = rl_normalizeRoute r2 \<and>
     (if s1 = [] \<or> s1 = ScopeAuto then ScopeAnon else s1) = (if s2 = [] \<or> s2 = ScopeAuto then ScopeAnon else s2) \<and>
     (if sanitizeIdentifier i1 = [] then ''anonymous'' else sanitizeIdentifier i1) =
     (if sanitizeIdentifier i2 = [] then ''anonymous'' else sanitizeIdentifier i2)"
proof -
  have route: "CHR '':'' \<notin> set (rl_normalizeRoute r)" if "CHR '':'' \<notin> set r" for r
    using that set_trim_space [of r]
    by (auto simp: rl_normalizeRoute_def Let_def replace_byte_def dest!: in_set_takeD split: if_splits)
  have scope: "CHR '':'' \<notin> set (if s = [] \<or> s = ScopeAuto then ScopeAnon else s)" if "CHR '':'' \<notin> set s" for s
    using that by auto
  have "rl_normalizeRoute r1 @ CHR '':'' # ((if s1 = [] \<or> s1 = ScopeAuto then ScopeAnon else s1) @ CHR '':'' #
          (if sanitizeIdentifier i1 = [] then ''anonymous'' else sanitizeIdentifier i1)) =
        rl_normalizeRoute r2 @ CHR '':'' # ((if s2 = [] \<or> s2 = ScopeAuto then ScopeAnon else s2) @ CHR '':'' #
          (if sanitizeIdentifier i2 = [] then ''anonymous'' else sanitizeIdentifier i2))"
    using assms(1) unfolding BuildKey_def Let_def by simp
  note parts = append_sep_inj [OF this route [OF assms(2)] route [OF assms(3)]]
  from parts append_sep_inj [OF conjunct2 [OF parts] scope [OF assms(4)] scope [OF assms(5)]]
  show ?thesis by blast
qed

theorem limiter_keys_separate_witness:
  "BuildKey ''dev'' ''/a'' ScopeUser ''u 1'' = BuildKey ''dev'' '' /a '' ScopeUser ''u 1 '' \<and>
   rl_normalizeRoute ''/a'' = rl_normalizeRoute '' /a ''"
proof -
  have eq: "BuildKey ''dev'' ''/a'' ScopeUser ''u 1'' = BuildKey ''dev'' '' /a '' ScopeUser ''u 1 ''" by code_simp
  from limiter_keys_separate [OF eq] eq show ?thesis by simp
qed

text \<open>
  \<open>Rule.Validate\<close> accepts every positive window, but the limiter hands Redis whole
  milliseconds: a window below one millisecond becomes a timeout of 0, which deletes the
  counter on the spot, and no request of such a rule is ever refused.
\<close>

theorem submillisecond_window_never_limits:
  assumes laws: "counter_laws R ctr" "eval_available R"
    and valid: "validateRequest req = None" and short: "rq_Window req < millisecond"
    and start: "ctr (svc w) (limiter_key l req) = 0"
  shows "\<forall>(q, d) \<in> set (fst (allow_run R l (replicate n req) w)). admitted d"
  using start
proof (induction n arbitrary: w)
  case (Suc n)
  have lim: "0 < rq_Limit req" and win: "0 < rq_Window req"
    using valid by (auto simp: validateRequest_def split: if_splits)
  with short have ms: "rq_Window req div millisecond = 0" by simp
  let ?k = "limiter_key l req" and ?w1 = "snd (RedisLimiter_Allow R l req w)"
  obtain c s1 where inc: "redis_incr R ?k (svc w) = (c, s1)" by (cases "redis_incr R ?k (svc w)")
  have c: "c = 1" using counter_lawsD(1) [OF laws(1), of ?k "svc w"] inc Suc.prems by simp
  have "ctr (redis_pexpire R ?k 0 s1) ?k = 0" using counter_lawsD(4) [OF laws(1), of 0 ?k s1] by simp
  with inc c lim have "ctr (svc ?w1) ?k = 0" and adm: "admitted (fst (RedisLimiter_Allow R l req w))"
    by (simp_all add: RedisLimiter_Allow_def valid limiter_key_def ms Let_def fixedWindowScript_def
        eval_available_def [THEN iffD1, OF laws(2), rule_format] observeDecision_def admitted_def decide_def)
  then have "\<forall>(q, d) \<in> set (fst (allow_run R l (replicate n req) ?w1)). admitted d" by (intro Suc.IH)
  with adm show ?case by (auto simp: Let_def split: prod.splits)
qed simp

theorem submillisecond_window_never_limits_witness:
  "list_all (\<lambda>(q, d). admitted d) (fst (allow_run mem_redis sample_limiter
      (replicate 100 ((sample_req ''a'')\<lparr>rq_Window := 60\<rparr>)) (blank_world mem_empty)))"
  unfolding list_all_iff
  by (rule submillisecond_window_never_limits [OF mem_counter_laws mem_eval_available])
    (simp_all add: sample_req_def validateRequest_def blank_world_def mem_empty_def)

text \<open>
  whatever keyer and scope a rule names, the identity it resolves to has a concrete scope and
  a non-empty identifier of at most 128 bytes without blanks or line breaks; and a request of
  an authenticated user under the \<open>auto\<close> or \<open>user\<close> scope is keyed by that user.
\<close>

theorem resolved_identity:
  "key_wf (ResolveScopeAndIdentifier sha req rule) \<and>
   (\<forall>r p. req = Some r \<and> rule_Keyer rule = None \<and> rule_Scope rule \<in> {ScopeAuto, ScopeUser, []} \<and>
      ctx_principal r = Some p \<and> trim_space (UserID p) \<noteq> [] \<longrightarrow>
      ResolveScopeAndIdentifier sha req rule = (ScopeUser, sanitizeIdentifier (UserID p)))"
proof (intro conjI allI impI)
  show "key_wf (ResolveScopeAndIdentifier sha req rule)"
    by (auto simp: ResolveScopeAndIdentifier_def Let_def key_wfs key_wf_scope_identity split: option.splits)
next
  fix r p
  assume a: "req = Some r \<and> rule_Keyer rule = None \<and> rule_Scope rule \<in> {ScopeAuto, ScopeUser, []} \<and>
      ctx_principal r = Some p \<and> trim_space (UserID p) \<noteq> []"
  then have user: "KeyByUser r = (ScopeUser, UserID p)"
    by (simp add: KeyByUser_def auth_FromContext_def)
  have "sanitizeIdentifier (UserID p) \<noteq> []" using a by (simp add: sanitizeIdentifier_def Let_def)
  then have "normalizeKey ScopeUser (UserID p) = (ScopeUser, sanitizeIdentifier (UserID p))"
    by (simp add: normalizeKey_def Let_def)
  with a user show "ResolveScopeAndIdentifier sha req rule = (ScopeUser, sanitizeIdentifier (UserID p))"
    by (auto simp: ResolveScopeAndIdentifier_def scope_identity_def KeyByUserOrTokenHash_def or_anon_def Let_def)
qed

theorem resolved_identity_witness:
  "ResolveScopeAndIdentifier (\<lambda>s. s) (Some (blank_request\<lparr>ctx_principal := Some (user_principal ''u1'')\<rparr>))
     \<lparr>rule_Limit = 1, rule_Window = second, rule_Scope = ScopeAuto, rule_Keyer = None\<rparr> =
   (ScopeUser, sanitizeIdentifier ''u1'')"
proof -
  have "trim_space ''u1'' \<noteq> []" by code_simp
  then show ?thesis
    using resolved_identity [of "\<lambda>s. s" "Some (blank_request\<lparr>ctx_principal := Some (user_principal ''u1'')\<rparr>)"
        "\<lparr>rule_Limit = 1, rule_Window = second, rule_Scope = ScopeAuto, rule_Keyer = None\<rparr>"]
    by (simp add: blank_request_def user_principal_def)
qed

end
