(* ===== verification/Policy_Handlers.thy ===== *)
theory Policy_Handlers
  imports Policy_Meta Ratelimit
begin

text \<open>
  The request side of the policies: \<open>internal/core/policy/policy.go\<close>, \<open>auth.go\<close>,
  \<open>authext.go\<close>, \<open>ratelimit.go\<close> and \<open>cachecontrol.go\<close>. A policy is a function from
  handlers to handlers; its constructor either panics on a bad configuration or returns the
  policy and the metadata table with the policy's entry.

  Outside the repository and hence arguments: \<open>enc\<close> (the JSON encoder), \<open>parse_media\<close>
  (\<open>mime.ParseMediaType\<close>), \<open>has_perm\<close> (goAuth's \<open>Engine.HasPermission\<close>) and \<open>guard\<close>
  (goAuth's \<open>middleware.Guard\<close>).
\<close>

section \<open>Policies and chains\<close>

type_synonym 's middleware = "'s handler \<Rightarrow> 's handler"

datatype config_panic =
    NoLimiter
  | BadRule rate_error
  | NoPermissions PolicyType
  | BadCacheControl string

text \<open>The code pointers of the policy literals: one per constructor.\<close>

abbreviation ptr_Noop :: nat where "ptr_Noop \<equiv> 1"
abbreviation ptr_RequireJSON :: nat where "ptr_RequireJSON \<equiv> 2"
abbreviation ptr_WithHeader :: nat where "ptr_WithHeader \<equiv> 3"
abbreviation ptr_AuthRequired :: nat where "ptr_AuthRequired \<equiv> 4"
abbreviation ptr_RequirePerm :: nat where "ptr_RequirePerm \<equiv> 5"
abbreviation ptr_RequireAnyPerm :: nat where "ptr_RequireAnyPerm \<equiv> 6"
abbreviation ptr_RateLimit :: nat where "ptr_RateLimit \<equiv> 7"
abbreviation ptr_CacheControl :: nat where "ptr_CacheControl \<equiv> 8"

definition built :: "nat \<Rightarrow> 's middleware \<Rightarrow> Metadata \<Rightarrow> policy_table
    \<Rightarrow> 's middleware policy option \<times> policy_table" where
  "built ptr p meta t = annotatePolicy (Some \<lparr>code_ptr = ptr, behaviour = p\<rparr>) meta t"

definition Chain :: "'s handler \<Rightarrow> 's middleware option list \<Rightarrow> 's handler" where
  "Chain h policies = foldr (\<lambda>p h. case p of None \<Rightarrow> h | Some q \<Rightarrow> q h) policies h"

section \<open>Plain policies\<close>

definition Noop_handler :: "'s middleware" where
  "Noop_handler next r w = next r w"

definition Noop :: "policy_table \<Rightarrow> 's middleware policy option \<times> policy_table" where
  "Noop = built ptr_Noop Noop_handler (meta_of PolicyTypeNoop ''Noop'')"

definition requiresJSONBody :: "request \<Rightarrow> bool" where
  "requiresJSONBody r \<longleftrightarrow>
     (if req_method r \<in> {''POST'', ''PUT'', ''PATCH''} then True
      else req_content_length r > 0 \<or> req_transfer_encoding r \<noteq> [])"

definition isJSONContentType :: "(string \<Rightarrow> string option) \<Rightarrow> string \<Rightarrow> bool" where
  "isJSONContentType parse_media contentType =
     (let trimmed = trim_space contentType in
      if trimmed = [] then False
      else (case parse_media trimmed of None \<Rightarrow> False | Some mt \<Rightarrow> equal_fold mt ''application/json''))"

definition RequireJSON_handler :: "(Envelope \<Rightarrow> string) \<Rightarrow> (string \<Rightarrow> string option) \<Rightarrow> 's middleware" where
  "RequireJSON_handler enc parse_media next r w =
     (if \<not> requiresJSONBody r then next r w
      else if \<not> isJSONContentType parse_media (header_get (req_header r) ''Content-Type'')
      then Ret (response_Error enc
             (apperr_New CodeUnsupportedMedia 415 ''content type must be application/json'') (ctx_request_id r) w)
      else next r w)"

definition RequireJSON :: "(Envelope \<Rightarrow> string) \<Rightarrow> (string \<Rightarrow> string option) \<Rightarrow> policy_table
    \<Rightarrow> 's middleware policy option \<times> policy_table" where
  "RequireJSON enc parse_media =
     built ptr_RequireJSON (RequireJSON_handler enc parse_media) (meta_of PolicyTypeRequireJSON ''RequireJSON'')"

definition WithHeader_handler :: "string \<Rightarrow> string \<Rightarrow> 's middleware" where
  "WithHeader_handler key value next r w = next r (SetHeader key value w)"

definition WithHeader :: "string \<Rightarrow> string \<Rightarrow> policy_table \<Rightarrow> 's middleware policy option \<times> policy_table" where
  "WithHeader key value =
     built ptr_WithHeader (WithHeader_handler key value) (meta_of PolicyTypeWithHeader ''WithHeader'')"

section \<open>Cache-Control\<close>

record CacheControlConfig =
  cc_Public :: bool
  cc_Private :: bool
  cc_NoStore :: bool
  cc_NoCache :: bool
  cc_MustRevalidate :: bool
  cc_Immutable :: bool
  cc_MaxAge :: int
  cc_SharedMaxAge :: int
  cc_StaleWhileRevalidate :: int
  cc_StaleIfError :: int
  cc_Vary :: "string list"

definition normalizeHeaderList :: "string list \<Rightarrow> string list" where
  "normalizeHeaderList items = uniq_by to_lower [] (map trim_space items)"

text \<open>\<open>int(d.Seconds())\<close> of a positive duration. \<open>Seconds\<close> adds the whole seconds and the
  fraction as float64, so the integer quotient is exact except where that sum rounds up to the
  next second: durations of months whose fraction is within some nanoseconds of one.\<close>

definition whole_seconds :: "int \<Rightarrow> int" where
  "whole_seconds d = d div second"

definition directive_list :: "CacheControlConfig \<Rightarrow> string list" where
  "directive_list cfg =
     (let on = (\<lambda>b d. if b then [d] else []);
          timed = (\<lambda>d name. if d > 0 \<and> \<not> cc_NoStore cfg then [name @ ''='' @ itoa (whole_seconds d)] else [])
      in on (cc_Public cfg) ''public'' @ on (cc_Private cfg) ''private'' @ on (cc_NoStore cfg) ''no-store'' @
         on (cc_NoCache cfg) ''no-cache'' @ timed (cc_MaxAge cfg) ''max-age'' @
         timed (cc_SharedMaxAge cfg) ''s-maxage'' @ timed (cc_StaleWhileRevalidate cfg) ''stale-while-revalidate'' @
         timed (cc_StaleIfError cfg) ''stale-if-error'' @ on (cc_MustRevalidate cfg) ''must-revalidate'' @
         on (cc_Immutable cfg \<and> \<not> cc_NoStore cfg) ''immutable'')"

definition buildCacheControl :: "CacheControlConfig \<Rightarrow> string + string \<times> string list" where
  "buildCacheControl cfg =
     (if cc_MaxAge cfg < 0 \<or> cc_SharedMaxAge cfg < 0 \<or> cc_StaleWhileRevalidate cfg < 0 \<or> cc_StaleIfError cfg < 0
      then Inl ''durations must be >= 0''
      else if cc_Public cfg \<and> cc_Private cfg then Inl ''public and private cannot both be set''
      else if cc_NoStore cfg \<and> (cc_MaxAge cfg > 0 \<or> cc_SharedMaxAge cfg > 0 \<or> cc_Immutable cfg \<or>
                cc_StaleWhileRevalidate cfg > 0 \<or> cc_StaleIfError cfg > 0)
      then Inl ''no-store cannot be combined with max-age, s-maxage, stale directives, or immutable''
      else (let directives = directive_list cfg; vary = normalizeHeaderList (cc_Vary cfg) in
            if directives = [] \<and> vary = []
            then Inl ''at least one cache directive or vary header is required''
            else Inr (join '', '' directives, vary)))"

definition appendVaryHeader :: "string \<Rightarrow> 's world \<Rightarrow> 's world" where
  "appendVaryHeader value w =
     (let existing = header_values (bw_header (base w)) ''Vary'' in
      if list_ex (\<lambda>current. list_ex (\<lambda>part. equal_fold (trim_space part) value)
           (split_on (CHR '','') current)) existing
      then w else AddHeader ''Vary'' value w)"

definition CacheControl_handler :: "string \<Rightarrow> string list \<Rightarrow> 's middleware" where
  "CacheControl_handler directive vary next r w =
     next r (fold appendVaryHeader vary
       (if directive \<noteq> [] then SetHeader ''Cache-Control'' directive w else w))"

definition CacheControl :: "CacheControlConfig \<Rightarrow> policy_table
    \<Rightarrow> config_panic + ('s middleware policy option \<times> policy_table)" where
  "CacheControl cfg t =
     (case buildCacheControl cfg of
        Inl err \<Rightarrow> Inl (BadCacheControl err)
      | Inr (directive, vary) \<Rightarrow>
          Inr (built ptr_CacheControl (CacheControl_handler directive vary)
                 (meta_of PolicyTypeCacheControl ''CacheControl'') t))"

section \<open>Permissions\<close>

definition required_perms :: "string list \<Rightarrow> string list" where
  "required_perms perms = filter (\<lambda>p. p \<noteq> []) (map trim_space perms)"

definition unauthorized_error :: go_error where
  "unauthorized_error = apperr_New CodeUnauthorized 401 ''authentication required''"

definition forbidden_error :: go_error where
  "forbidden_error = apperr_New CodeForbidden 403 ''forbidden''"

definition goAuthEngineFromContext :: "request \<Rightarrow> nat option" where
  "goAuthEngineFromContext r = ctx_engine r"

definition RequirePerm_handler :: "(Envelope \<Rightarrow> string) \<Rightarrow> (nat \<Rightarrow> nat \<Rightarrow> string \<Rightarrow> bool) \<Rightarrow> string list
    \<Rightarrow> 's middleware" where
  "RequirePerm_handler enc has_perm required next r w =
     (case (ctx_result r, goAuthEngineFromContext r) of
        (Some result, Some engine) \<Rightarrow>
          if list_ex (\<lambda>permission. \<not> has_perm engine (res_Mask result) permission) required
          then Ret (response_Error enc forbidden_error (ctx_request_id r) w)
          else next r w
      | _ \<Rightarrow> Ret (response_Error enc unauthorized_error (ctx_request_id r) w))"

definition RequirePerm :: "(Envelope \<Rightarrow> string) \<Rightarrow> (nat \<Rightarrow> nat \<Rightarrow> string \<Rightarrow> bool) \<Rightarrow> string list
    \<Rightarrow> policy_table \<Rightarrow> config_panic + ('s middleware policy option \<times> policy_table)" where
  "RequirePerm enc has_perm perms t =
     (let required = required_perms perms in
      if required = [] then Inl (NoPermissions PolicyTypeRequirePerm)
      else Inr (built ptr_RequirePerm (RequirePerm_handler enc has_perm required)
                  (meta_of PolicyTypeRequirePerm ''RequirePerm'') t))"

definition RequireAnyPerm_handler :: "(Envelope \<Rightarrow> string) \<Rightarrow> (nat \<Rightarrow> nat \<Rightarrow> string \<Rightarrow> bool) \<Rightarrow> string list
    \<Rightarrow> 's middleware" where
  "RequireAnyPerm_handler enc has_perm required next r w =
     (case (ctx_result r, goAuthEngineFromContext r) of
        (Some result, Some engine) \<Rightarrow>
          if list_ex (\<lambda>permission. has_perm engine (res_Mask result) permission) required
          then next r w
          else Ret (response_Error enc forbidden_error (ctx_request_id r) w)
      | _ \<Rightarrow> Ret (response_Error enc unauthorized_error (ctx_request_id r) w))"

definition RequireAnyPerm :: "(Envelope \<Rightarrow> string) \<Rightarrow> (nat \<Rightarrow> nat \<Rightarrow> string \<Rightarrow> bool) \<Rightarrow> string list
    \<Rightarrow> policy_table \<Rightarrow> config_panic + ('s middleware policy option \<times> policy_table)" where
  "RequireAnyPerm enc has_perm perms t =
     (let required = required_perms perms in
      if required = [] then Inl (NoPermissions PolicyTypeRequireAnyPerm)
      else Inr (built ptr_RequireAnyPerm (RequireAnyPerm_handler enc has_perm required)
                  (meta_of PolicyTypeRequireAnyPerm ''RequireAnyPerm'') t))"

section \<open>Rate limiting\<close>

definition routePattern :: "request \<Rightarrow> string" where
  "routePattern r =
     (case route_pattern r of None \<Rightarrow> ''unknown'' | Some p \<Rightarrow> if p \<noteq> [] then p else ''unknown'')"

type_synonym 's allow_op = "Request \<Rightarrow> 's world \<Rightarrow> (rate_error + Decision) \<times> 's world"

definition RateLimit_handler :: "(Envelope \<Rightarrow> string) \<Rightarrow> (string \<Rightarrow> string) \<Rightarrow> 's allow_op \<Rightarrow> Rule \<Rightarrow> 's middleware" where
  "RateLimit_handler enc sha allow rule next r w =
     (let rid = ctx_request_id r;
          (scope, identifier) = ResolveScopeAndIdentifier sha (Some r) rule;
          (decision, w1) = allow \<lparr>rq_Route = routePattern r, rq_Scope = scope, rq_Identifier = identifier,
             rq_Limit = rule_Limit rule, rq_Window = rule_Window rule\<rparr> w
      in case decision of
           Inl err \<Rightarrow> Ret (response_Error enc (apperr_New CodeInternal 500 ''internal server error'') rid w1)
         | Inr d \<Rightarrow>
             if Allowed d then next r w1
             else if DOutcome d = OutcomeError
             then Ret (response_Error enc
                    (apperr_New CodeDependencyFailure 503 ''rate limiter unavailable'') rid w1)
             else (let seconds = RetryAfterSeconds (RetryAfter d);
                       w2 = (if seconds > 0 then SetHeader ''Retry-After'' (itoa seconds) w1 else w1)
                   in Ret (response_Error enc
                        (apperr_New CodeTooManyRequests 429 ''rate limit exceeded'') rid w2)))"

definition RateLimitWithKeyer :: "(Envelope \<Rightarrow> string) \<Rightarrow> (string \<Rightarrow> string) \<Rightarrow> 's allow_op option \<Rightarrow> string \<Rightarrow> Rule
    \<Rightarrow> Keyer option \<Rightarrow> policy_table \<Rightarrow> config_panic + ('s middleware policy option \<times> policy_table)" where
  "RateLimitWithKeyer enc sha lim name rule keyer t =
     (case lim of
        None \<Rightarrow> Inl NoLimiter
      | Some allow \<Rightarrow>
          (let rule' = (if keyer \<noteq> None then rule\<lparr>rule_Keyer := keyer\<rparr> else rule) in
           case Rule_Validate rule' of
             Some e \<Rightarrow> Inl (BadRule e)
           | None \<Rightarrow> Inr (built ptr_RateLimit (RateLimit_handler enc sha allow rule')
                         (meta_of PolicyTypeRateLimit ''RateLimit'') t)))"

definition RateLimit :: "(Envelope \<Rightarrow> string) \<Rightarrow> (string \<Rightarrow> string) \<Rightarrow> 's allow_op option \<Rightarrow> Rule
    \<Rightarrow> policy_table \<Rightarrow> config_panic + ('s middleware policy option \<times> policy_table)" where
  "RateLimit enc sha lim rule t = RateLimitWithKeyer enc sha lim [] rule None t"

section \<open>Authentication\<close>

type_synonym Mode = string

abbreviation ModeJWTOnly :: Mode where "ModeJWTOnly \<equiv> ''jwt_only''"
abbreviation ModeHybrid :: Mode where "ModeHybrid \<equiv> ''hybrid''"
abbreviation ModeStrict :: Mode where "ModeStrict \<equiv> ''strict''"

datatype RouteMode = GoModeInherit | GoModeJWTOnly | GoModeStrict

definition route_mode :: "Mode \<Rightarrow> RouteMode" where
  "route_mode mode =
     (if mode = ModeJWTOnly then GoModeJWTOnly else if mode = ModeStrict then GoModeStrict else GoModeInherit)"

record 's AuthExtension =
  ext_Attribute :: "(AuthResult \<Rightarrow> string \<times> string) option"
  ext_Check :: "(request \<Rightarrow> AuthResult \<Rightarrow> 's world \<Rightarrow> go_error option \<times> 's world) option"

type_synonym 's ext_table = "nat \<rightharpoonup> 's AuthExtension list"

definition UseAuthExtensions :: "nat option \<Rightarrow> 's AuthExtension list \<Rightarrow> 's ext_table \<Rightarrow> 's ext_table" where
  "UseAuthExtensions engine exts t =
     (case engine of None \<Rightarrow> t | Some e \<Rightarrow> if exts = [] then t(e := None) else t(e \<mapsto> exts))"

definition authExtensionsFor :: "'s ext_table \<Rightarrow> nat option \<Rightarrow> 's AuthExtension list" where
  "authExtensionsFor t engine =
     (case engine of None \<Rightarrow> [] | Some e \<Rightarrow> (case t e of None \<Rightarrow> [] | Some exts \<Rightarrow> exts))"

fun ext_attributes :: "'s AuthExtension list \<Rightarrow> AuthResult \<Rightarrow> Attribute list" where
  "ext_attributes [] result = []"
| "ext_attributes (ext # exts) result =
     (case ext_Attribute ext of
        None \<Rightarrow> ext_attributes exts result
      | Some f \<Rightarrow> (let (key, value) = f result in
          if key \<noteq> [] then \<lparr>attr_key = key, attr_value = value\<rparr> # ext_attributes exts result
          else ext_attributes exts result))"

fun ext_checks :: "'s AuthExtension list \<Rightarrow> request \<Rightarrow> AuthResult \<Rightarrow> 's world \<Rightarrow> bool \<times> 's world" where
  "ext_checks [] r result w = (True, w)"
| "ext_checks (ext # exts) r result w =
     (case ext_Check ext of
        None \<Rightarrow> ext_checks exts r result w
      | Some f \<Rightarrow> (case f r result w of
          (Some err, w') \<Rightarrow> (False, w')
        | (None, w') \<Rightarrow> ext_checks exts r result w'))"

definition applyAuthExtensions :: "'s AuthExtension list \<Rightarrow> request \<Rightarrow> AuthResult \<Rightarrow> AuthContext \<Rightarrow> 's world
    \<Rightarrow> bool \<times> AuthContext \<times> 's world" where
  "applyAuthExtensions exts r result prin w =
     (let prin' = prin\<lparr>Attributes := Attributes prin @ ext_attributes exts result\<rparr>;
          (ok, w') = ext_checks exts r result w
      in (ok, prin', w'))"

text \<open>\<open>nextCalled = true\<close>: the flag that the adapter of this request reads.\<close>

fun mark_called :: "layer list \<Rightarrow> layer list" where
  "mark_called [] = []"
| "mark_called (GuardW u n # ls) = GuardW u True # ls"
| "mark_called (l # ls) = l # mark_called ls"

definition auth_inner :: "(Envelope \<Rightarrow> string) \<Rightarrow> 's ext_table \<Rightarrow> nat option \<Rightarrow> 's middleware" where
  "auth_inner enc table engine next r w0 =
     (let w = w0\<lparr>layers := mark_called (layers w0)\<rparr>; rid = ctx_request_id r in
      case ctx_result r of
        None \<Rightarrow> Ret (response_Error enc unauthorized_error rid w)
      | Some result \<Rightarrow>
          if trim_space (res_UserID result) = [] then Ret (response_Error enc unauthorized_error rid w)
          else (let prin = \<lparr>UserID = res_UserID result, Role = res_Role result,
                      Permissions = res_Permissions result, Attributes = []\<rparr>;
                    exts = authExtensionsFor table engine;
                    (ok, prin', w') = (if exts \<noteq> [] then applyAuthExtensions exts r result prin w
                                       else (True, prin, w))
                in if \<not> ok then Ret (response_Error enc unauthorized_error rid w')
                   else next (r\<lparr>ctx_principal := Some prin', ctx_engine := engine\<rparr>) w'))"

text \<open>Run a handler with one more wrapper around the response writer, and take it off again.\<close>

definition push :: "layer \<Rightarrow> 's world \<Rightarrow> 's world" where
  "push l w = w\<lparr>layers := l # layers w\<rparr>"

definition pop :: "layer \<Rightarrow> 's world \<Rightarrow> layer \<times> 's world" where
  "pop l w = (case layers w of [] \<Rightarrow> (l, w) | l' # ls \<Rightarrow> (l', w\<lparr>layers := ls\<rparr>))"

definition run_wrapped :: "layer \<Rightarrow> 's handler \<Rightarrow> request \<Rightarrow> 's world \<Rightarrow> (layer \<times> 's world) outcome" where
  "run_wrapped l h r w = map_outcome (pop l) (h r (push l w))"

type_synonym 's guard = "nat option \<Rightarrow> RouteMode \<Rightarrow> 's middleware"

definition authRequiredWithEngine :: "(Envelope \<Rightarrow> string) \<Rightarrow> 's guard \<Rightarrow> 's ext_table \<Rightarrow> nat option \<Rightarrow> Mode
    \<Rightarrow> 's middleware" where
  "authRequiredWithEngine enc guard table engine mode next r w =
     (case run_wrapped (GuardW False False)
             (guard engine (route_mode mode) (auth_inner enc table engine next)) r w of
        Panic m (l, w') \<Rightarrow> Panic m w'
      | Ret (l, w') \<Rightarrow>
          (case l of
             GuardW unauthorized nextCalled \<Rightarrow>
               Ret (if unauthorized \<and> \<not> nextCalled
                    then response_Error enc unauthorized_error (ctx_request_id r) w' else w')
           | _ \<Rightarrow> Ret w'))"

definition AuthRequired :: "(Envelope \<Rightarrow> string) \<Rightarrow> 's guard \<Rightarrow> 's ext_table \<Rightarrow> nat option \<Rightarrow> Mode \<Rightarrow> policy_table
    \<Rightarrow> 's middleware policy option \<times> policy_table" where
  "AuthRequired enc guard table engine mode =
     built ptr_AuthRequired (authRequiredWithEngine enc guard table engine mode)
       (meta_of PolicyTypeAuthRequired ''AuthRequired'')"

section \<open>Gates\<close>

text \<open>
  Most policies are gates: from the request and the world they decide either to answer
  themselves or to pass a request on. The locale collects what follows from that; two gates in
  a row are a gate again.
\<close>

type_synonym 's decision = "request \<Rightarrow> 's world \<Rightarrow> 's world + request \<times> 's world"

definition gate_run :: "'s decision \<Rightarrow> 's middleware" where
  "gate_run dec next r w = (case dec r w of Inl w' \<Rightarrow> Ret w' | Inr (r', w') \<Rightarrow> next r' w')"

definition gate_then :: "'s decision \<Rightarrow> 's decision \<Rightarrow> 's decision" where
  "gate_then d1 d2 r w = (case d1 r w of Inl w' \<Rightarrow> Inl w' | Inr (r', w') \<Rightarrow> d2 r' w')"

locale gate =
  fixes pol :: "'s middleware" and dec :: "'s decision"
  assumes runs: "pol next r w = gate_run dec next r w"
begin

lemma blocked: "dec r w = Inl w' \<Longrightarrow> pol next r w = Ret w'"
  by (simp add: runs gate_run_def)

lemma passed: "dec r w = Inr (r', w') \<Longrightarrow> pol next r w = next r' w'"
  by (simp add: runs gate_run_def)

text \<open>Where the outcome depends on the handler behind the gate, the gate let the request pass.\<close>

lemma reached:
  assumes "pol h1 r w \<noteq> pol h2 r w"
  obtains r' w' where "dec r w = Inr (r', w')" "h1 r' w' \<noteq> h2 r' w'"
  using assms by (auto simp: runs gate_run_def split: sum.splits)

end

locale gate_pair = g1: gate p1 d1 + g2: gate p2 d2
  for p1 :: "'s middleware" and d1 and p2 :: "'s middleware" and d2

sublocale gate_pair \<subseteq> seq: gate "\<lambda>next. p1 (p2 next)" "gate_then d1 d2"
  by unfold_locales (auto simp: g1.runs g2.runs gate_run_def gate_then_def split: sum.splits)

definition dec_json :: "(Envelope \<Rightarrow> string) \<Rightarrow> (string \<Rightarrow> string option) \<Rightarrow> 's decision" where
  "dec_json enc parse_media r w =
     (if requiresJSONBody r \<and> \<not> isJSONContentType parse_media (header_get (req_header r) ''Content-Type'')
      then Inl (response_Error enc
             (apperr_New CodeUnsupportedMedia 415 ''content type must be application/json'') (ctx_request_id r) w)
      else Inr (r, w))"

definition dec_perm :: "(Envelope \<Rightarrow> string) \<Rightarrow> (AuthResult \<Rightarrow> nat \<Rightarrow> bool) \<Rightarrow> 's decision" where
  "dec_perm enc ok r w =
     (case (ctx_result r, ctx_engine r) of
        (Some result, Some engine) \<Rightarrow>
          if ok result engine then Inr (r, w) else Inl (response_Error enc forbidden_error (ctx_request_id r) w)
      | _ \<Rightarrow> Inl (response_Error enc unauthorized_error (ctx_request_id r) w))"

abbreviation has_all :: "(nat \<Rightarrow> nat \<Rightarrow> string \<Rightarrow> bool) \<Rightarrow> string list \<Rightarrow> AuthResult \<Rightarrow> nat \<Rightarrow> bool" where
  "has_all has_perm ps result engine \<equiv> (\<forall>p \<in> set ps. has_perm engine (res_Mask result) p)"

abbreviation has_any :: "(nat \<Rightarrow> nat \<Rightarrow> string \<Rightarrow> bool) \<Rightarrow> string list \<Rightarrow> AuthResult \<Rightarrow> nat \<Rightarrow> bool" where
  "has_any has_perm ps result engine \<equiv> (\<exists>p \<in> set ps. has_perm engine (res_Mask result) p)"

text \<open>The request a rate-limit policy sends to the limiter, and what it makes of the answer.\<close>

definition limit_request :: "(string \<Rightarrow> string) \<Rightarrow> Rule \<Rightarrow> request \<Rightarrow> Request" where
  "limit_request sha rule r =
     \<lparr>rq_Route = routePattern r, rq_Scope = fst (ResolveScopeAndIdentifier sha (Some r) rule),
      rq_Identifier = snd (ResolveScopeAndIdentifier sha (Some r) rule),
      rq_Limit = rule_Limit rule, rq_Window = rule_Window rule\<rparr>"

definition limit_answer :: "(Envelope \<Rightarrow> string) \<Rightarrow> string \<Rightarrow> rate_error + Decision \<Rightarrow> 's world \<Rightarrow> 's world option" where
  "limit_answer enc rid d w =
     (case d of
        Inl e \<Rightarrow> Some (response_Error enc (apperr_New CodeInternal 500 ''internal server error'') rid w)
      | Inr d \<Rightarrow>
          if Allowed d then None
          else if DOutcome d = OutcomeError
          then Some (response_Error enc (apperr_New CodeDependencyFailure 503 ''rate limiter unavailable'') rid w)
          else Some (response_Error enc (apperr_New CodeTooManyRequests 429 ''rate limit exceeded'') rid
                 (if RetryAfterSeconds (RetryAfter d) > 0
                  then SetHeader ''Retry-After'' (itoa (RetryAfterSeconds (RetryAfter d))) w else w)))"

definition dec_limit :: "(Envelope \<Rightarrow> string) \<Rightarrow> (string \<Rightarrow> string) \<Rightarrow> 's allow_op \<Rightarrow> Rule \<Rightarrow> 's decision" where
  "dec_limit enc sha allow rule r w =
     (let (d, w1) = allow (limit_request sha rule r) w in
      case limit_answer enc (ctx_request_id r) d w1 of Some w2 \<Rightarrow> Inl w2 | None \<Rightarrow> Inr (r, w1))"

interpretation noop: gate Noop_handler "\<lambda>r w. Inr (r, w)"
  by unfold_locales (simp add: Noop_handler_def gate_run_def)

interpretation require_json: gate "RequireJSON_handler enc parse_media" "dec_json enc parse_media" for enc parse_media
  by unfold_locales (simp add: RequireJSON_handler_def gate_run_def dec_json_def)

interpretation with_header: gate "WithHeader_handler k v" "\<lambda>r w. Inr (r, SetHeader k v w)" for k v
  by unfold_locales (simp add: WithHeader_handler_def gate_run_def)

interpretation cache_control: gate "CacheControl_handler d vs"
    "\<lambda>r w. Inr (r, fold appendVaryHeader vs (if d \<noteq> [] then SetHeader ''Cache-Control'' d w else w))" for d vs
  by unfold_locales (simp add: CacheControl_handler_def gate_run_def)

interpretation require_perm: gate "RequirePerm_handler enc has_perm ps" "dec_perm enc (has_all has_perm ps)"
    for enc has_perm ps
  by unfold_locales (auto simp: RequirePerm_handler_def gate_run_def dec_perm_def list_ex_iff
      goAuthEngineFromContext_def split: option.splits)

interpretation require_any_perm: gate "RequireAnyPerm_handler enc has_perm ps" "dec_perm enc (has_any has_perm ps)"
    for enc has_perm ps
  by unfold_locales (auto simp: RequireAnyPerm_handler_def gate_run_def dec_perm_def list_ex_iff
      goAuthEngineFromContext_def split: option.splits)

interpretation rate_limit: gate "RateLimit_handler enc sha allow rule" "dec_limit enc sha allow rule"
    for enc sha allow rule
  by unfold_locales (auto simp: RateLimit_handler_def gate_run_def dec_limit_def limit_answer_def
      limit_request_def Let_def split: sum.splits prod.splits)

interpretation perm_then_limit: gate_pair "RequirePerm_handler enc has_perm ps" "dec_perm enc (has_all has_perm ps)"
    "RateLimit_handler enc sha allow rule" "dec_limit enc sha allow rule" for enc has_perm ps sha allow rule
  by unfold_locales

lemma Chain_simps [simp]:
  "Chain h [] = h" "Chain h (None # ps) = Chain h ps" "Chain h (Some p # ps) = p (Chain h ps)"
  by (simp_all add: Chain_def)

section \<open>Writing through the authentication adapter\<close>

text \<open>Once the inner handler runs, the adapter passes everything on; before, it swallows a 401.\<close>

abbreviation called :: "bool \<Rightarrow> layer" where "called u \<equiv> GuardW u True"

lemma push_writer:
  "Write p (push (called u) w) = push (called u) (Write p w)"
  "WriteHeader c (push (called u) w) = push (called u) (WriteHeader c w)"
  "Flush (push (called u) w) = push (called u) (Flush w)"
  "SetHeader k v (push l w) = push l (SetHeader k v w)"
  "AddHeader k v (push l w) = push l (AddHeader k v w)"
  "GetHeader k (push l w) = GetHeader k w"
  by (simp_all add: Write_def WriteHeader_def Flush_def SetHeader_def AddHeader_def GetHeader_def push_def
      case_prod_unfold Let_def)

lemma push_response_Error: "response_Error enc e rid (push (called u) w) = push (called u) (response_Error enc e rid w)"
  by (simp add: response_Error_def response_JSON_def push_writer case_prod_unfold Let_def)

lemma push_suppressed:
  "WriteHeader 401 (push (GuardW u False) w) = push (GuardW True False) w"
  "Write p (push (GuardW True False) w) = push (GuardW True False) w"
  by (simp_all add: Write_def WriteHeader_def push_def)

lemma push_set_headers:
  "fold (\<lambda>(k, v). SetHeader k v) hs (push l w) = push l (fold (\<lambda>(k, v). SetHeader k v) hs w)"
  by (induction hs arbitrary: w) (auto simp: push_writer)

lemma pop_push [simp]: "pop l0 (push l w) = (l, w)"
  by (simp add: pop_def push_def)

text \<open>A handler that works on the writer it is given, whatever the adapter's own flag says.\<close>

definition uniform :: "'s handler \<Rightarrow> bool" where
  "uniform h \<longleftrightarrow> (\<forall>r w u. h r (push (called u) w) = map_outcome (push (called u)) (h r w))"

definition uniform_dec :: "'s decision \<Rightarrow> bool" where
  "uniform_dec dec \<longleftrightarrow> (\<forall>r w u. dec r (push (called u) w) =
     map_sum (push (called u)) (apsnd (push (called u))) (dec r w))"

lemma uniform_gate_run:
  assumes "uniform_dec dec" and "uniform h"
  shows "uniform (gate_run dec h)"
  using assms by (auto simp: uniform_def uniform_dec_def gate_run_def split: sum.splits)

lemma uniform_dec_perm: "uniform_dec (dec_perm enc ok)"
  by (auto simp: uniform_dec_def dec_perm_def push_response_Error split: option.splits)

lemma Allow_push: "RedisLimiter_Allow R l req (push x w) = apsnd (push x) (RedisLimiter_Allow R l req w)"
  by (auto simp: RedisLimiter_Allow_def observeDecision_def push_def Let_def
      split: option.splits prod.splits)

lemma uniform_dec_limit:
  assumes "\<And>req x w. allow req (push x w) = apsnd (push x) (allow req w)"
  shows "uniform_dec (dec_limit enc sha allow rule)"
  by (auto simp: uniform_dec_def dec_limit_def limit_answer_def assms push_response_Error push_writer
      Let_def split: sum.splits prod.splits)

section \<open>Authentication as a gate\<close>

text \<open>
  What the code relies on of goAuth's \<open>middleware.Guard\<close>, as its documentation has it: it
  validates the request's token (\<open>V\<close>), and either answers 401 (with headers \<open>hs\<close> and some
  body) without calling the handler, or calls the handler once with the result in the context.
  Validation does not touch the response.
\<close>

type_synonym 's validation = "nat option \<Rightarrow> RouteMode \<Rightarrow> request \<Rightarrow> 's world \<Rightarrow> AuthResult option \<times> 's world"

definition guard_contract :: "'s guard \<Rightarrow> 's validation \<Rightarrow> (string \<times> string) list \<Rightarrow> string \<Rightarrow> bool" where
  "guard_contract G V hs body \<longleftrightarrow>
     (\<forall>e m next r w. G e m next r w =
        (case V e m r w of
           (None, w') \<Rightarrow> Ret (Write body (WriteHeader 401 (fold (\<lambda>(k, v). SetHeader k v) hs w')))
         | (Some res, w') \<Rightarrow> next (r\<lparr>ctx_result := Some res\<rparr>) w')) \<and>
     (\<forall>e m r w l. V e m r (push l w) = apsnd (push l) (V e m r w))"

text \<open>The checks of the extensions do not touch the response either.\<close>

definition checks_writer_free :: "'s ext_table \<Rightarrow> bool" where
  "checks_writer_free table \<longleftrightarrow>
     (\<forall>e exts ext f r res w l. table e = Some exts \<and> ext \<in> set exts \<and> ext_Check ext = Some f \<longrightarrow>
        f r res (push l w) = apsnd (push l) (f r res w))"

definition base_principal :: "AuthResult \<Rightarrow> AuthContext" where
  "base_principal result = \<lparr>UserID = res_UserID result, Role = res_Role result,
     Permissions = res_Permissions result, Attributes = []\<rparr>"

definition dec_auth :: "(Envelope \<Rightarrow> string) \<Rightarrow> 's validation \<Rightarrow> (string \<times> string) list \<Rightarrow> 's ext_table \<Rightarrow> nat option
    \<Rightarrow> Mode \<Rightarrow> 's decision" where
  "dec_auth enc V hs table engine mode r w =
     (case V engine (route_mode mode) r w of
        (None, w1) \<Rightarrow> Inl (response_Error enc unauthorized_error (ctx_request_id r)
                          (fold (\<lambda>(k, v). SetHeader k v) hs w1))
      | (Some res, w1) \<Rightarrow>
          if trim_space (res_UserID res) = []
          then Inl (response_Error enc unauthorized_error (ctx_request_id r) w1)
          else (let exts = authExtensionsFor table engine;
                    (ok, w2) = ext_checks exts (r\<lparr>ctx_result := Some res\<rparr>) res w1
                in if ok then Inr (r\<lparr>ctx_result := Some res,
                       ctx_principal := Some ((base_principal res)\<lparr>Attributes := ext_attributes exts res\<rparr>),
                       ctx_engine := engine\<rparr>, w2)
                   else Inl (response_Error enc unauthorized_error (ctx_request_id r) w2)))"

lemma ext_checks_push:
  assumes "\<And>ext f w. ext \<in> set exts \<Longrightarrow> ext_Check ext = Some f \<Longrightarrow> f r res (push l w) = apsnd (push l) (f r res w)"
  shows "ext_checks exts r res (push l w) = apsnd (push l) (ext_checks exts r res w)"
  using assms
proof (induction exts arbitrary: w)
  case (Cons ext exts)
  have IH: "ext_checks exts r res (push l w) = apsnd (push l) (ext_checks exts r res w)" for w
    by (rule Cons.IH) (use Cons.prems in auto)
  have "f r res (push l w) = apsnd (push l) (f r res w)" if "ext_Check ext = Some f" for f
    by (rule Cons.prems [OF _ that]) simp
  then show ?case by (auto simp: IH split: prod.splits option.splits)
qed simp

lemma checks_push:
  assumes "checks_writer_free table"
  shows "ext_checks (authExtensionsFor table engine) r res (push l w) =
    apsnd (push l) (ext_checks (authExtensionsFor table engine) r res w)"
proof -
  have "f r res (push l w) = apsnd (push l) (f r res w)"
    if "ext \<in> set (authExtensionsFor table engine)" "ext_Check ext = Some f" for ext f and w :: "'a world"
  proof -
    from that(1) obtain e exts where "table e = Some exts" "ext \<in> set exts"
      by (cases engine; cases "table (the engine)") (auto simp: authExtensionsFor_def)
    with assms that(2) show ?thesis unfolding checks_writer_free_def by blast
  qed
  then show ?thesis by (intro ext_checks_push) auto
qed

lemma auth_inner_push:
  assumes "checks_writer_free table" and "uniform next" and "ctx_result r = Some res"
  shows "auth_inner enc table engine next r (push (GuardW u False) w) =
    map_outcome (push (called u))
      (if trim_space (res_UserID res) = []
       then Ret (response_Error enc unauthorized_error (ctx_request_id r) w)
       else (let exts = authExtensionsFor table engine; (ok, w2) = ext_checks exts r res w
             in if ok then next (r\<lparr>ctx_principal := Some ((base_principal res)\<lparr>Attributes := ext_attributes exts res\<rparr>),
                    ctx_engine := engine\<rparr>) w2
                else Ret (response_Error enc unauthorized_error (ctx_request_id r) w2)))"
proof -
  have mark: "(push (GuardW u False) w)\<lparr>layers := mark_called (layers (push (GuardW u False) w))\<rparr> = push (called u) w"
    by (simp add: push_def)
  have nx: "next r' (push (called u) w') = map_outcome (push (called u)) (next r' w')" for r' w'
    using assms(2) by (simp add: uniform_def)
  show ?thesis
    unfolding auth_inner_def mark
    by (auto simp: assms(3) Let_def applyAuthExtensions_def checks_push [OF assms(1)] push_response_Error nx
        base_principal_def split: prod.splits)
qed

lemma auth_gate:
  assumes "guard_contract G V hs body" and "checks_writer_free table" and "uniform next"
  shows "authRequiredWithEngine enc G table engine mode next r w = gate_run (dec_auth enc V hs table engine mode) next r w"
proof -
  have G: "G engine (route_mode mode) inner r (push l w) =
      (case V engine (route_mode mode) r w of
         (None, w') \<Rightarrow> Ret (Write body (WriteHeader 401 (fold (\<lambda>(k, v). SetHeader k v) hs (push l w'))))
       | (Some res, w') \<Rightarrow> inner (r\<lparr>ctx_result := Some res\<rparr>) (push l w'))" for inner l
    using assms(1) unfolding guard_contract_def by (auto split: prod.splits option.splits)
  obtain res w1 where V: "V engine (route_mode mode) r w = (res, w1)" by (cases "V engine (route_mode mode) r w")
  show ?thesis
  proof (cases res)
    case None
    then show ?thesis
      by (simp add: authRequiredWithEngine_def run_wrapped_def G V push_set_headers push_suppressed gate_run_def
          dec_auth_def)
  next
    case (Some a)
    have inner: "auth_inner enc table engine next (r\<lparr>ctx_result := Some a\<rparr>) (push (GuardW False False) w1) =
        map_outcome (push (called False)) (gate_run (dec_auth enc V hs table engine mode) next r w)"
      by (subst auth_inner_push [OF assms(2,3), of _ a])
        (auto simp: gate_run_def dec_auth_def V Some Let_def split: prod.splits)
    show ?thesis
      unfolding authRequiredWithEngine_def run_wrapped_def G V Some
      by (cases "gate_run (dec_auth enc V hs table engine mode) next r w") (simp_all add: inner)
  qed
qed

text \<open>
  \<open>AuthRequired\<close> is a gate with exactly one answer. For every handler that writes only to the
  writer it is given, a request passes iff goAuth accepts its token, the result names a user and
  every registered extension check succeeds; the handler then sees the principal built from the
  result with the extensions' attributes. Every other request gets one 401 JSON error: what the
  guard itself wrote is discarded, and the handler does not run.
\<close>

theorem auth_required_gate:
  assumes "guard_contract G V hs body" and "checks_writer_free table" and "uniform next"
  shows "authRequiredWithEngine enc G table engine mode next r w = gate_run (dec_auth enc V hs table engine mode) next r w"
  using assms by (rule auth_gate)

text \<open>A guard, a handler and a request for the examples: the token \<open>good\<close> is user 7's.\<close>

definition sample_validation :: "'s validation" where
  "sample_validation e m r w =
     ((if bearerToken (header_get (req_header r) ''Authorization'') = Some ''good''
       then Some \<lparr>res_UserID = ''7'', res_Role = ''admin'', res_Permissions = [''a.read''], res_Mask = 1, res_TenantID = ''0''\<rparr>
       else None), w)"

definition sample_guard :: "'s guard" where
  "sample_guard e m next r w =
     (case sample_validation e m r w of
        (None, w') \<Rightarrow> Ret (Write ''unauthorized'' (WriteHeader 401 (fold (\<lambda>(k, v). SetHeader k v) [] w')))
      | (Some res, w') \<Rightarrow> next (r\<lparr>ctx_result := Some res\<rparr>) w')"

definition ok_handler :: "string \<Rightarrow> 's handler" where
  "ok_handler text r w = Ret (Write text (WriteHeader 200 w))"

definition token_request :: "string \<Rightarrow> request" where
  "token_request t = blank_request\<lparr>req_header := [(''Authorization'', [''Bearer '' @ t])]\<rparr>"

lemma sample_guard_contract: "guard_contract sample_guard sample_validation [] ''unauthorized''"
  by (simp add: guard_contract_def sample_guard_def sample_validation_def push_def)

lemma uniform_ok_handler: "uniform (ok_handler text)"
  by (simp add: uniform_def ok_handler_def push_writer)

lemma no_extensions: "checks_writer_free Map.empty"
  by (simp add: checks_writer_free_def)

theorem auth_required_gate_witness:
  "bw_status (base (case authRequiredWithEngine (\<lambda>e. ''E'') sample_guard Map.empty (Some 1) ModeStrict
       (ok_handler ''hi'') (token_request ''bad'') (blank_world ()) of Ret w \<Rightarrow> w | Panic m w \<Rightarrow> w)) = Some 401 \<and>
   bw_body (base (case authRequiredWithEngine (\<lambda>e. ''E'') sample_guard Map.empty (Some 1) ModeStrict
       (ok_handler ''hi'') (token_request ''bad'') (blank_world ()) of Ret w \<Rightarrow> w | Panic m w \<Rightarrow> w)) = ''E''"
proof -
  have "bearerToken (header_get (req_header (token_request ''bad'')) ''Authorization'') \<noteq> Some ''good''" by code_simp
  then show ?thesis
    using auth_required_gate [OF sample_guard_contract no_extensions uniform_ok_handler,
        of "\<lambda>e. ''E''" "Some 1" ModeStrict "''hi''" "token_request ''bad''" "blank_world ()"]
    by (simp add: gate_run_def dec_auth_def sample_validation_def response_Error_bare blank_world_def
        unauthorized_error_def)
qed

section \<open>Rate-limited routes\<close>

lemma header_get_set:
  "header_get (header_set h k v) k = v"
  "canonical_header k \<noteq> canonical_header k' \<Longrightarrow> header_get (header_set h k v) k' = header_get h k'"
  by (simp_all add: header_get_def header_values_def header_set_def update_conv')

lemma RetryAfterSeconds_pos: "0 < d \<Longrightarrow> 0 < RetryAfterSeconds d \<and> d \<le> RetryAfterSeconds d * second"
proof -
  assume "0 < d"
  moreover have "d \<le> (d + (second - 1)) div second * second"
    using div_mult_mod_eq [of "d + (second - 1)" second] pos_mod_bound [of second "d + (second - 1)"] by simp
  ultimately show ?thesis by (simp add: RetryAfterSeconds_def)
qed

lemma validate_limit_request: "validateRequest (limit_request sha rule r) = Rule_Validate rule"
  by (simp add: validateRequest_def limit_request_def Rule_Validate_def)

context limiter
begin

text \<open>A route with a valid rule never answers the 500 of an invalid request.\<close>

lemma rate_limit_cases:
  assumes "Rule_Validate rule = None"
  obtains (pass) d w1 where "allow (limit_request sha rule r) w = (Inr d, w1)" "Allowed d"
      "\<And>next. RateLimit_handler enc sha allow rule next r w = next r w1"
  | (down) d w1 where "allow (limit_request sha rule r) w = (Inr d, w1)" "\<not> Allowed d" "DOutcome d = OutcomeError"
      "base w1 = base w" "layers w1 = layers w"
      "\<And>next. RateLimit_handler enc sha allow rule next r w =
         Ret (response_Error enc (apperr_New CodeDependencyFailure 503 ''rate limiter unavailable'') (ctx_request_id r) w1)"
  | (limited) d w1 where "allow (limit_request sha rule r) w = (Inr d, w1)" "\<not> Allowed d" "DOutcome d = OutcomeBlocked"
      "0 < RetryAfter d" "base w1 = base w" "layers w1 = layers w"
      "\<And>next. RateLimit_handler enc sha allow rule next r w =
         Ret (response_Error enc (apperr_New CodeTooManyRequests 429 ''rate limit exceeded'') (ctx_request_id r)
           (SetHeader ''Retry-After'' (itoa (RetryAfterSeconds (RetryAfter d))) w1))"
proof (cases rule: allow_cases [of "limit_request sha rule r" w])
  case (refused e)
  with assms show ?thesis by (simp add: validate_limit_request)
next
  case (decided d w')
  note run = rate_limit.runs [of enc sha allow rule _ r w] gate_run_def dec_limit_def limit_answer_def
  show ?thesis
  proof (cases "Allowed d")
    case True
    with decided show ?thesis by (intro pass) (simp_all add: run)
  next
    case False
    with decided(3) have "0 < RetryAfter d" and oc: "DOutcome d = OutcomeBlocked \<or> DOutcome d = OutcomeError"
      by (cases "DOutcome d"; simp add: decision_wf_def)+
    with RetryAfterSeconds_pos have "0 < RetryAfterSeconds (RetryAfter d)" by blast
    with oc False decided \<open>0 < RetryAfter d\<close> show ?thesis
      by (elim disjE; intro limited down) (simp_all add: run)
  qed
qed

end

text \<open>
  what a client of a rate-limited route sees, for a valid rule on the Redis limiter. An
  admitted request goes to the handler on the untouched response. A refused one never does: it
  gets 503 when the limiter failed closed, and otherwise 429 with a \<open>Retry-After\<close> of whole
  positive seconds that cover the rest of the window.
\<close>

theorem rate_limited_response:
  assumes "Rule_Validate rule = None" and "layers w = []" and "bw_status (base w) = None"
    and "RedisLimiter_Allow R l (limit_request sha rule r) w = (Inr d, w1)"
  shows "(Allowed d \<longrightarrow> RateLimit_handler enc sha (RedisLimiter_Allow R l) rule next r w = next r w1) \<and>
    (\<not> Allowed d \<longrightarrow> (\<exists>w2. RateLimit_handler enc sha (RedisLimiter_Allow R l) rule next r w = Ret w2 \<and>
       svc w2 = svc w1 \<and>
       (if DOutcome d = OutcomeError then bw_status (base w2) = Some 503
        else bw_status (base w2) = Some 429 \<and>
          GetHeader ''Retry-After'' w2 = itoa (RetryAfterSeconds (RetryAfter d)) \<and>
          0 < RetryAfterSeconds (RetryAfter d) \<and> RetryAfter d \<le> RetryAfterSeconds (RetryAfter d) * second)))"
proof -
  have hdr: "canonical_header ''Content-Type'' \<noteq> canonical_header ''Retry-After''" by code_simp
  have fresh: "layers (SetHeader k v w1) = []" "bw_status (base (SetHeader k v w1)) = None"
    if "base w1 = base w" "layers w1 = layers w" for k v
    using that assms(2,3) by (simp_all add: SetHeader_def)
  have kept: "GetHeader ''Retry-After'' (response_Error enc e rid (SetHeader ''Retry-After'' v u)) = v" for e rid v and u :: "'a world"
    by (simp add: GetHeader_def response_Error_def response_JSON_def case_prod_unfold Let_def SetHeader_def
        header_get_set(1) header_get_set(2) [OF hdr])
  from assms(1) show ?thesis
  proof (cases rule: redis_limiter.rate_limit_cases [of rule R l sha r w enc])
    case (pass d' w1')
    with assms(4) show ?thesis by simp
  next
    case (down d' w1')
    with assms show ?thesis by (simp add: response_Error_bare)
  next
    case (limited d' w1')
    with assms fresh RetryAfterSeconds_pos [of "RetryAfter d'"] show ?thesis
      by (simp add: response_Error_bare kept)
  qed
qed

theorem rate_limited_response_witness:
  "\<exists>w2. RateLimit_handler (\<lambda>e. []) (\<lambda>s. s) (RedisLimiter_Allow down_redis sample_limiter)
      \<lparr>rule_Limit = 2, rule_Window = second, rule_Scope = ScopeIP, rule_Keyer = None\<rparr> (ok_handler ''hi'')
      blank_request (blank_world mem_empty) = Ret w2 \<and> bw_status (base w2) = Some 503"
proof -
  let ?rule = "\<lparr>rule_Limit = 2, rule_Window = second, rule_Scope = ScopeIP, rule_Keyer = None\<rparr>"
  let ?d = "\<lparr>Allowed = False, Remaining = 0, RetryAfter = second, DOutcome = OutcomeError\<rparr>"
  obtain w1 where "RedisLimiter_Allow down_redis sample_limiter (limit_request (\<lambda>s. s) ?rule blank_request)
      (blank_world mem_empty) = (Inr ?d, w1)"
    by (simp add: RedisLimiter_Allow_def limit_request_def validateRequest_def down_redis_def sample_limiter_def
        failed_decision_def Let_def)
  from rate_limited_response [OF _ _ _ this, of "\<lambda>e. []" "ok_handler ''hi''"]
  show ?thesis by (auto simp: Rule_Validate_def blank_world_def)
qed

section \<open>A protected route\<close>

lemma dec_auth_Inr:
  assumes "dec_auth enc V hs table engine mode r w = Inr (r', w')"
  obtains res w1 p where "V engine (route_mode mode) r w = (Some res, w1)" "trim_space (res_UserID res) \<noteq> []"
    "ctx_result r' = Some res" "ctx_engine r' = engine" "ctx_principal r' = Some p" "UserID p = res_UserID res"
    "fst (ext_checks (authExtensionsFor table engine) (r\<lparr>ctx_result := Some res\<rparr>) res w1)"
  using assms
  by (auto simp: dec_auth_def base_principal_def Let_def split: prod.splits option.splits if_splits)

lemma dec_limit_Inr:
  assumes "dec_limit enc sha allow rule r w = Inr (r', w')"
  shows "r' = r \<and> admitted (fst (allow (limit_request sha rule r) w))"
  using assms
  by (auto simp: dec_limit_def limit_answer_def admitted_def split: prod.splits sum.splits option.splits if_splits)

lemma dec_limit_admitted:
  "admitted (fst (allow (limit_request sha rule r) w)) \<Longrightarrow>
     dec_limit enc sha allow rule r w = Inr (r, snd (allow (limit_request sha rule r) w))"
  by (cases "allow (limit_request sha rule r) w")
    (auto simp: dec_limit_def limit_answer_def admitted_def split: sum.splits)

definition protected :: "(Envelope \<Rightarrow> string) \<Rightarrow> 's guard \<Rightarrow> 's ext_table \<Rightarrow> nat option \<Rightarrow> Mode
    \<Rightarrow> (nat \<Rightarrow> nat \<Rightarrow> string \<Rightarrow> bool) \<Rightarrow> string list \<Rightarrow> (string \<Rightarrow> string) \<Rightarrow> 's redis \<Rightarrow> RedisLimiter \<Rightarrow> Rule
    \<Rightarrow> 's middleware option list" where
  "protected enc G table engine mode has_perm ps sha R l rule =
     [Some (authRequiredWithEngine enc G table engine mode), Some (RequirePerm_handler enc has_perm ps),
      Some (RateLimit_handler enc sha (RedisLimiter_Allow R l) rule)]"

lemma gate_eqs:
  "RateLimit_handler enc sha allow rule h = gate_run (dec_limit enc sha allow rule) h"
  "RequirePerm_handler enc has_perm ps h = gate_run (dec_perm enc (has_all has_perm ps)) h"
  by (simp_all add: fun_eq_iff rate_limit.runs require_perm.runs)

lemma protected_eq:
  assumes "guard_contract G V hs body" and "checks_writer_free table" and "uniform h"
  shows "Chain h (protected enc G table engine mode has_perm ps sha R l rule) r w =
    gate_run (dec_auth enc V hs table engine mode) (gate_run (dec_perm enc (has_all has_perm ps))
      (gate_run (dec_limit enc sha (RedisLimiter_Allow R l) rule) h)) r w"
proof -
  have "uniform (gate_run (dec_perm enc (has_all has_perm ps)) (gate_run (dec_limit enc sha (RedisLimiter_Allow R l) rule) h))"
    by (intro uniform_gate_run uniform_dec_perm uniform_dec_limit Allow_push assms(3))
  from auth_gate [OF assms(1,2) this] show ?thesis by (simp add: protected_def gate_eqs)
qed

text \<open>
  C1: on a route behind \<open>AuthRequired\<close>, \<open>RequirePerm\<close> and \<open>RateLimit\<close>, composed by \<open>Chain\<close>, the handler
  has an influence on the response only if the token was accepted for a named user, every
  extension check passed, the engine grants that user's mask every required permission, and the
  limiter admitted the request as that user's. The handler then runs with that user as principal.
\<close>

theorem protected_route:
  assumes "guard_contract G V hs body" and "checks_writer_free table" and "uniform h1" and "uniform h2"
    and "Chain h1 (protected enc G table engine mode has_perm ps sha R l rule) r w \<noteq>
         Chain h2 (protected enc G table engine mode has_perm ps sha R l rule) r w"
  shows "\<exists>res w1 e p r' w2 w3. V engine (route_mode mode) r w = (Some res, w1) \<and> trim_space (res_UserID res) \<noteq> [] \<and>
    fst (ext_checks (authExtensionsFor table engine) (r\<lparr>ctx_result := Some res\<rparr>) res w1) \<and>
    engine = Some e \<and> (\<forall>q \<in> set ps. has_perm e (res_Mask res) q) \<and>
    ctx_principal r' = Some p \<and> UserID p = res_UserID res \<and>
    admitted (fst (RedisLimiter_Allow R l (limit_request sha rule r') w2)) \<and> h1 r' w3 \<noteq> h2 r' w3"
proof -
  let ?A = "RedisLimiter_Allow R l"
  from assms(5) obtain r' w' where a: "dec_auth enc V hs table engine mode r w = Inr (r', w')"
      and diff: "gate_run (dec_perm enc (has_all has_perm ps)) (gate_run (dec_limit enc sha ?A rule) h1) r' w' \<noteq>
        gate_run (dec_perm enc (has_all has_perm ps)) (gate_run (dec_limit enc sha ?A rule) h2) r' w'"
    unfolding protected_eq [OF assms(1-3)] protected_eq [OF assms(1,2,4)]
    by (auto simp: gate_run_def [of "dec_auth enc V hs table engine mode"] split: sum.splits)
  have "RequirePerm_handler enc has_perm ps (RateLimit_handler enc sha ?A rule h1) r' w' \<noteq>
      RequirePerm_handler enc has_perm ps (RateLimit_handler enc sha ?A rule h2) r' w'"
    unfolding gate_eqs by (rule diff)
  then obtain r'' w3 where "gate_then (dec_perm enc (has_all has_perm ps)) (dec_limit enc sha ?A rule) r' w' = Inr (r'', w3)"
      and h: "h1 r'' w3 \<noteq> h2 r'' w3"
    by (rule perm_then_limit.seq.reached)
  then obtain e where p: "\<forall>q \<in> set ps. has_perm e (res_Mask (the (ctx_result r'))) q" "ctx_engine r' = Some e"
      and "dec_limit enc sha ?A rule r' w' = Inr (r'', w3)"
    by (auto simp: gate_then_def dec_perm_def split: sum.splits option.splits if_splits)
  then have "r'' = r'" "admitted (fst (?A (limit_request sha rule r') w'))" using dec_limit_Inr by blast+
  moreover obtain res w1 pr where "V engine (route_mode mode) r w = (Some res, w1)" "trim_space (res_UserID res) \<noteq> []"
      "ctx_result r' = Some res" "ctx_engine r' = engine" "ctx_principal r' = Some pr" "UserID pr = res_UserID res"
      "fst (ext_checks (authExtensionsFor table engine) (r\<lparr>ctx_result := Some res\<rparr>) res w1)"
    by (rule dec_auth_Inr [OF a])
  ultimately show ?thesis
    using p h by (intro exI [of _ res] exI [of _ w1] exI [of _ e] exI [of _ pr] exI [of _ r'] exI [of _ w'] exI [of _ w3]) simp
qed

fun outcome_world :: "'w outcome \<Rightarrow> 'w" where
  "outcome_world (Ret w) = w"
| "outcome_world (Panic m w) = w"

theorem protected_route_witness:
  "\<exists>res p r' w2. fst (sample_validation (Some 1) GoModeStrict (token_request ''good'') (blank_world mem_empty)) = Some res \<and>
     ctx_principal r' = Some p \<and> UserID p = res_UserID res \<and>
     admitted (fst (RedisLimiter_Allow mem_redis sample_limiter (limit_request (\<lambda>s. s)
       \<lparr>rule_Limit = 2, rule_Window = second, rule_Scope = ScopeUser, rule_Keyer = None\<rparr> r') w2))"
proof -
  let ?rule = "\<lparr>rule_Limit = 2, rule_Window = second, rule_Scope = ScopeUser, rule_Keyer = None\<rparr>"
  let ?run = "\<lambda>t. Chain (ok_handler t) (protected (\<lambda>e. []) sample_guard Map.empty (Some 1) ModeStrict
      (\<lambda>e m p. True) [''a.read''] (\<lambda>s. s) mem_redis sample_limiter ?rule) (token_request ''good'') (blank_world mem_empty)"
  let ?w = "blank_world mem_empty"
  have tok: "bearerToken (header_get (req_header (token_request ''good'')) ''Authorization'') = Some ''good''"
      "trim_space ''7'' \<noteq> []" by code_simp+
  obtain r' where a: "dec_auth (\<lambda>e. []) sample_validation [] Map.empty (Some 1) ModeStrict (token_request ''good'') ?w = Inr (r', ?w)"
      and r': "ctx_result r' \<noteq> None" "ctx_engine r' = Some 1"
    by (simp add: dec_auth_def sample_validation_def tok authExtensionsFor_def)
  have "admitted (fst (RedisLimiter_Allow mem_redis sample_limiter (limit_request (\<lambda>s. s) ?rule r') ?w))"
    by (subst Allow_step(1) [OF mem_counter_laws mem_eval_available])
      (simp_all add: limit_request_def validateRequest_def blank_world_def mem_empty_def)
  then obtain w1 where l: "dec_limit (\<lambda>e. []) (\<lambda>s. s) (RedisLimiter_Allow mem_redis sample_limiter) ?rule r' ?w = Inr (r', w1)"
      and w1: "base w1 = base ?w" "layers w1 = layers ?w"
    using dec_limit_admitted Allow_frame(1,2) by blast
  then have w1': "bw_status (base w1) = None" "bw_body (base w1) = []" "layers w1 = []"
    by (simp_all add: blank_world_def)
  have "bw_body (base (outcome_world (?run t))) = t" for t
    unfolding protected_eq [OF sample_guard_contract no_extensions uniform_ok_handler] gate_run_def a
    using r' w1' by (auto simp: l dec_perm_def ok_handler_def Write_def WriteHeader_def base_write_def base_write_header_def)
  then have "bw_body (base (outcome_world (?run ''a''))) \<noteq> bw_body (base (outcome_world (?run ''b'')))" by simp
  then have "?run ''a'' \<noteq> ?run ''b''" by auto
  from protected_route [OF sample_guard_contract no_extensions uniform_ok_handler uniform_ok_handler this]
  show ?thesis by (fastforce simp: route_mode_def)
qed

section \<open>Cache-Control directives\<close>

lemma mem_directive_list:
  "d \<in> set (directive_list cfg) \<longleftrightarrow>
     cc_Public cfg \<and> d = ''public'' \<or> cc_Private cfg \<and> d = ''private'' \<or> cc_NoStore cfg \<and> d = ''no-store'' \<or>
     cc_NoCache cfg \<and> d = ''no-cache'' \<or> cc_MustRevalidate cfg \<and> d = ''must-revalidate'' \<or>
     \<not> cc_NoStore cfg \<and> (cc_Immutable cfg \<and> d = ''immutable'' \<or>
       0 < cc_MaxAge cfg \<and> d = ''max-age='' @ itoa (whole_seconds (cc_MaxAge cfg)) \<or>
       0 < cc_SharedMaxAge cfg \<and> d = ''s-maxage='' @ itoa (whole_seconds (cc_SharedMaxAge cfg)) \<or>
       0 < cc_StaleWhileRevalidate cfg \<and> d = ''stale-while-revalidate='' @ itoa (whole_seconds (cc_StaleWhileRevalidate cfg)) \<or>
       0 < cc_StaleIfError cfg \<and> d = ''stale-if-error='' @ itoa (whole_seconds (cc_StaleIfError cfg)))"
proof -
  have on: "x \<in> set (if b then [y] else []) \<longleftrightarrow> b \<and> x = y" for b and x y :: string by auto
  show ?thesis unfolding directive_list_def Let_def set_append Un_iff on by auto
qed

text \<open>
  a \<open>CacheControl\<close> configuration that passes registration is consistent: the header holds a
  directive or a \<open>Vary\<close> entry, never both \<open>public\<close> and \<open>private\<close>, and \<open>no-store\<close> only without
  lifetime directives; the \<open>Vary\<close> names are trimmed, not empty and pairwise different up to case.
\<close>

theorem cache_control_consistent:
  assumes "buildCacheControl cfg = Inr (directive, vary)"
  shows "directive = join '', '' (directive_list cfg) \<and> (directive_list cfg \<noteq> [] \<or> vary \<noteq> []) \<and>
    distinct (map to_lower vary) \<and> [] \<notin> set vary \<and> (\<forall>v \<in> set vary. trim_space v = v) \<and>
    \<not> (''public'' \<in> set (directive_list cfg) \<and> ''private'' \<in> set (directive_list cfg)) \<and>
    (''no-store'' \<in> set (directive_list cfg) \<longrightarrow>
       set (directive_list cfg) \<subseteq> {''public'', ''private'', ''no-store'', ''no-cache'', ''must-revalidate''})"
proof -
  have vary: "vary = uniq_by to_lower [] (map trim_space (cc_Vary cfg))"
    using assms by (auto simp: buildCacheControl_def normalizeHeaderList_def Let_def split: if_splits)
  have "distinct (map to_lower vary)" unfolding vary by (rule distinct_uniq_by)
  moreover have "to_lower ` set vary = {k \<in> to_lower ` set (map trim_space (cc_Vary cfg)). k \<noteq> [] \<and> k \<notin> set []}"
    unfolding vary by (rule set_uniq_by)
  then have "to_lower [] \<notin> to_lower ` set vary" by (simp add: to_lower_def)
  then have "[] \<notin> set vary" by blast
  moreover have "\<forall>v \<in> set vary. trim_space v = v"
    using uniq_by_subset [of to_lower "[]" "map trim_space (cc_Vary cfg)"] unfolding vary by auto
  moreover have "\<not> (''public'' \<in> set (directive_list cfg) \<and> ''private'' \<in> set (directive_list cfg))"
    using assms by (auto simp: buildCacheControl_def mem_directive_list split: if_splits)
  moreover have "''no-store'' \<in> set (directive_list cfg) \<longrightarrow>
      set (directive_list cfg) \<subseteq> {''public'', ''private'', ''no-store'', ''no-cache'', ''must-revalidate''}"
    by (auto simp: mem_directive_list)
  moreover have "directive = join '', '' (directive_list cfg) \<and> (directive_list cfg \<noteq> [] \<or> vary \<noteq> [])"
    using assms by (auto simp: buildCacheControl_def Let_def split: if_splits)
  ultimately show ?thesis by blast
qed

definition sample_cc :: CacheControlConfig where
  "sample_cc = \<lparr>cc_Public = True, cc_Private = False, cc_NoStore = False, cc_NoCache = False, cc_MustRevalidate = True,
     cc_Immutable = False, cc_MaxAge = 60 * second, cc_SharedMaxAge = 0, cc_StaleWhileRevalidate = 0,
     cc_StaleIfError = 0, cc_Vary = ['' Origin'', ''origin'', ''Accept'']\<rparr>"

theorem cache_control_consistent_witness:
  "buildCacheControl sample_cc = Inr (''public, max-age=60, must-revalidate'', [''Origin'', ''Accept'']) \<and>
   distinct (map to_lower [''Origin'', ''Accept''])"
proof -
  have ok: "buildCacheControl sample_cc = Inr (''public, max-age=60, must-revalidate'', [''Origin'', ''Accept''])"
    by code_simp
  from cache_control_consistent [OF ok] ok show ?thesis by blast
qed

end
