(* ===== verification/Cache_Manager.thy ===== *)
theory Cache_Manager
  imports Redis "HOL-Library.Product_Lexorder" "HOL-Library.Multiset"
begin

text \<open>
  The response cache manager of \<open>internal/core/cache/manager.go\<close>: key parts, vary
  dimensions, tag specifications, the read key with its tag version token, the in-process token
  cache, and the Redis operations \<open>Get\<close>, \<open>Set\<close> and \<open>BumpTags\<close>.

  \<open>sha\<close> is the hexadecimal SHA-256 digest and \<open>J\<close> the JSON codec of the standard library;
  \<open>R\<close> is the Redis service.
\<close>

section \<open>Configuration data\<close>

record KeyPart =
  kp_Name :: string
  kp_Extract :: "(request \<Rightarrow> AuthContext \<Rightarrow> string) option"
  kp_Identity :: bool

datatype cache_error =
    EmptyPartName
  | BadPartName string
  | NoExtractor string
  | ManagerNil
  | RequestNil
  | NoRedisClient
  | TTLNotPositive
  | MissingPathParam string string      \<comment> \<open>parameter, tag\<close>
  | MissingPart string string           \<comment> \<open>part, tag\<close>
  | MissingUserID string                \<comment> \<open>tag\<close>
  | RedisFailed go_error
  | DecodeFailed
  | EncodeFailed

definition key_part_byte :: "char \<Rightarrow> bool" where
  "key_part_byte c \<longleftrightarrow> (97 \<le> byte c \<and> byte c \<le> 122) \<or> (65 \<le> byte c \<and> byte c \<le> 90) \<or>
     (48 \<le> byte c \<and> byte c \<le> 57) \<or> c \<in> set ''_-.''"

definition KeyPart_Validate :: "KeyPart \<Rightarrow> cache_error option" where
  "KeyPart_Validate p =
     (let name = trim_space (kp_Name p) in
      if name = [] then Some EmptyPartName
      else if \<not> list_all key_part_byte name then Some (BadPartName (kp_Name p))
      else if kp_Extract p = None then Some (NoExtractor (kp_Name p))
      else None)"

definition usableKeyParts :: "KeyPart list \<Rightarrow> KeyPart list" where
  "usableKeyParts parts = filter (\<lambda>p. \<not> (trim_space (kp_Name p) = [] \<or> kp_Extract p = None)) parts"

definition HasIdentityPart :: "KeyPart list \<Rightarrow> bool" where
  "HasIdentityPart parts = list_ex kp_Identity parts"

record CacheVaryBy =
  vb_Method :: bool
  vb_UserID :: bool
  vb_Role :: bool
  vb_Parts :: "KeyPart list"
  vb_PathParams :: "string list"
  vb_QueryParams :: "string list"
  vb_Headers :: "string list"

record CacheTagLiteral =
  lit_Key :: string
  lit_Value :: string

record CacheTagSpec =
  ts_Name :: string
  ts_PathParams :: "string list"
  ts_UserID :: bool
  ts_Parts :: "KeyPart list"
  ts_Literals :: "CacheTagLiteral list"

record CacheReadConfig =
  cr_Key :: string
  cr_TTL :: int
  cr_MaxBytes :: int
  cr_TagSpecs :: "CacheTagSpec list"
  cr_Methods :: "string list"
  cr_CacheStatuses :: "int list"
  cr_VaryBy :: CacheVaryBy
  cr_FailOpen :: "bool option"
  cr_AllowAuthenticated :: bool

record CacheInvalidateConfig =
  ci_TagSpecs :: "CacheTagSpec list"
  ci_FailOpen :: "bool option"

record ReadKeyTemplate =
  tm_RoutePart :: string
  tm_Method :: bool
  tm_UserID :: bool
  tm_Role :: bool
  tm_Parts :: "KeyPart list"
  tm_PathParams :: "string list"
  tm_QueryParams :: "string list"
  tm_Headers :: "string list"
  tm_TagSpecs :: "CacheTagSpec list"
  tm_AllowAuthenticated :: bool

record ManagerConfig =
  mc_Env :: string
  mc_FailOpen :: bool
  mc_DefaultMaxBytes :: int
  mc_TagVersionCacheTTL :: int
  mc_Observe :: bool

record CachedResponse =
  Status :: int
  Body :: string
  ContentType :: string

record json_codec =
  json_enc :: "CachedResponse \<Rightarrow> string option"
  json_dec :: "string \<Rightarrow> CachedResponse option"

record Manager =
  m_env :: string
  m_failOpen :: bool
  m_defaultMaxBytes :: int
  m_tagTokenTTL :: int
  m_observe :: bool

definition NewManager :: "bool \<Rightarrow> ManagerConfig \<Rightarrow> cache_error + Manager" where
  "NewManager hasClient cfg =
     (if \<not> hasClient then Inl NoRedisClient
      else (let e = trim_space (mc_Env cfg) in
        Inr \<lparr>m_env = (if e = [] then ''dev'' else e),
             m_failOpen = mc_FailOpen cfg,
             m_defaultMaxBytes =
               (if mc_DefaultMaxBytes cfg \<le> 0 then 256 * 1024 else mc_DefaultMaxBytes cfg),
             m_tagTokenTTL =
               (if mc_TagVersionCacheTTL cfg < 0 then 0 else mc_TagVersionCacheTTL cfg),
             m_observe = mc_Observe cfg\<rparr>))"

section \<open>Normalization\<close>

definition normalizeRoute :: "string \<Rightarrow> string" where
  "normalizeRoute route =
     (let r = trim_space route in
      if r = [] then ''unknown''
      else (let r' = replace_byte (CHR '' '') (CHR ''_'') r in
            if length r' > 240 then take 240 r' else r'))"

definition normalizedNames :: "string list \<Rightarrow> string list" where
  "normalizedNames items = sort (uniq_by (\<lambda>x. x) [] (map (\<lambda>i. trim_space (to_lower i)) items))"

definition normalizeResolvedTags :: "string list \<Rightarrow> string list" where
  "normalizeResolvedTags tags = sort (uniq_by (\<lambda>x. x) [] (map trim_space tags))"

definition normalizeTagName :: "string \<Rightarrow> string" where
  "normalizeTagName name =
     (let tag = trim_space (to_lower name) in
      if tag = [] then []
      else (let t = replace_byte (CHR '' '') (CHR ''_'') tag in
            if length t > 120 then take 120 t else t))"

text \<open>Drop an element whose key equals the key of the last one kept (\<open>prev\<close> at the start).\<close>

fun dedup_adj :: "('a \<Rightarrow> string) \<Rightarrow> string option \<Rightarrow> 'a list \<Rightarrow> 'a list" where
  "dedup_adj f prev [] = []"
| "dedup_adj f prev (x # xs) =
     (if Some (f x) = prev then dedup_adj f prev xs else x # dedup_adj f (Some (f x)) xs)"

definition normalizeTagParts :: "KeyPart list \<Rightarrow> KeyPart list" where
  "normalizeTagParts parts =
     dedup_adj kp_Name None
       (sort_key kp_Name
         (filter (\<lambda>p. \<not> (kp_Name p = [] \<or> kp_Extract p = None))
           (map (\<lambda>p. p\<lparr>kp_Name := trim_space (kp_Name p)\<rparr>) parts)))"

definition literal_text :: "CacheTagLiteral \<Rightarrow> string" where
  "literal_text l = lit_Key l @ ''='' @ lit_Value l"

definition normalizeTagLiterals :: "CacheTagLiteral list \<Rightarrow> CacheTagLiteral list" where
  "normalizeTagLiterals items =
     dedup_adj literal_text (Some [])
       (sort_key (\<lambda>l. (lit_Key l, lit_Value l))
         (filter (\<lambda>l. \<not> (lit_Key l = [] \<or> lit_Value l = []))
           (map (\<lambda>l. \<lparr>lit_Key = trim_space (to_lower (lit_Key l)), lit_Value = trim_space (lit_Value l)\<rparr>)
             items)))"

definition tagSpecKey :: "CacheTagSpec \<Rightarrow> string" where
  "tagSpecKey spec =
     join ''|'' ([ts_Name spec] @ map (\<lambda>p. ''path.'' @ p) (ts_PathParams spec) @
       map (\<lambda>p. ''part.'' @ kp_Name p) (ts_Parts spec) @
       (if ts_UserID spec then [''user''] else []) @
       map (\<lambda>l. ''lit.'' @ literal_text l) (ts_Literals spec))"

definition normalizeTagSpec :: "CacheTagSpec \<Rightarrow> CacheTagSpec" where
  "normalizeTagSpec spec =
     \<lparr>ts_Name = normalizeTagName (ts_Name spec),
      ts_PathParams = normalizedNames (ts_PathParams spec),
      ts_UserID = ts_UserID spec,
      ts_Parts = normalizeTagParts (ts_Parts spec),
      ts_Literals = normalizeTagLiterals (ts_Literals spec)\<rparr>"

text \<open>\<open>sort.Slice\<close> leaves the order of equal keys open; the model takes the stable one.\<close>

definition normalizeTagSpecs :: "CacheTagSpec list \<Rightarrow> CacheTagSpec list" where
  "normalizeTagSpecs specs =
     dedup_adj tagSpecKey (Some [])
       (sort_key tagSpecKey (filter (\<lambda>s. ts_Name s \<noteq> []) (map normalizeTagSpec specs)))"

definition PrepareReadKeyTemplate :: "CacheReadConfig \<Rightarrow> ReadKeyTemplate" where
  "PrepareReadKeyTemplate cfg =
     (let vb = cr_VaryBy cfg; customKey = trim_space (cr_Key cfg) in
      \<lparr>tm_RoutePart = (if customKey \<noteq> [] then normalizeRoute customKey else []),
       tm_Method = vb_Method vb, tm_UserID = vb_UserID vb, tm_Role = vb_Role vb,
       tm_Parts = usableKeyParts (vb_Parts vb),
       tm_PathParams = normalizedNames (vb_PathParams vb),
       tm_QueryParams = normalizedNames (vb_QueryParams vb),
       tm_Headers = normalizedNames (vb_Headers vb),
       tm_TagSpecs = normalizeTagSpecs (cr_TagSpecs cfg),
       tm_AllowAuthenticated = cr_AllowAuthenticated cfg\<rparr>)"

section \<open>Tag names\<close>

text \<open>\<open>url.QueryEscape\<close>, byte by byte.\<close>

definition hex_digit :: "nat \<Rightarrow> char" where
  "hex_digit d = (if d < 10 then char_of (48 + d) else char_of (55 + d))"

definition unreserved :: "char \<Rightarrow> bool" where
  "unreserved c \<longleftrightarrow> (97 \<le> byte c \<and> byte c \<le> 122) \<or> (65 \<le> byte c \<and> byte c \<le> 90) \<or>
     (48 \<le> byte c \<and> byte c \<le> 57) \<or> c \<in> set ''-_.~''"

definition escape_byte :: "char \<Rightarrow> string" where
  "escape_byte c =
     (if unreserved c then [c]
      else if c = CHR '' '' then ''+''
      else [CHR ''%'', hex_digit (byte c div 16), hex_digit (byte c mod 16)])"

definition query_escape :: "string \<Rightarrow> string" where
  "query_escape s = concat (map escape_byte s)"

definition escapeTagValue :: "string \<Rightarrow> string" where
  "escapeTagValue v = query_escape (trim_space v)"

definition extract_part :: "KeyPart \<Rightarrow> request \<Rightarrow> AuthContext \<Rightarrow> string" where
  "extract_part p r prin = (case kp_Extract p of None \<Rightarrow> [] | Some f \<Rightarrow> f r prin)"

text \<open>The loops of \<open>resolveTagName\<close> over path parameters and parts, with their early returns.\<close>

fun resolve_paths :: "request \<Rightarrow> string \<Rightarrow> string list \<Rightarrow> cache_error + string list" where
  "resolve_paths r tag [] = Inr []"
| "resolve_paths r tag (p # ps) =
     (let value = trim_space (url_param r p) in
      if value = [] then Inl (MissingPathParam p tag)
      else (case resolve_paths r tag ps of
          Inl e \<Rightarrow> Inl e
        | Inr xs \<Rightarrow> Inr ((''path.'' @ p @ ''='' @ escapeTagValue value) # xs)))"

fun resolve_parts :: "request \<Rightarrow> AuthContext \<Rightarrow> string \<Rightarrow> KeyPart list \<Rightarrow> cache_error + string list" where
  "resolve_parts r prin tag [] = Inr []"
| "resolve_parts r prin tag (p # ps) =
     (let value = trim_space (extract_part p r prin) in
      if value = [] then Inl (MissingPart (kp_Name p) tag)
      else (case resolve_parts r prin tag ps of
          Inl e \<Rightarrow> Inl e
        | Inr xs \<Rightarrow> Inr ((kp_Name p @ ''='' @ escapeTagValue value) # xs)))"

definition resolve_user :: "AuthContext \<Rightarrow> CacheTagSpec \<Rightarrow> cache_error + string list" where
  "resolve_user prin spec =
     (if \<not> ts_UserID spec then Inr []
      else (let userID = trim_space (UserID prin) in
            if userID = [] then Inl (MissingUserID (ts_Name spec))
            else Inr [''user='' @ escapeTagValue userID]))"

definition resolve_literals :: "CacheTagLiteral list \<Rightarrow> string list" where
  "resolve_literals ls = map (\<lambda>l. ''lit.'' @ lit_Key l @ ''='' @ escapeTagValue (lit_Value l)) ls"

definition resolveTagName :: "request \<Rightarrow> AuthContext \<Rightarrow> CacheTagSpec \<Rightarrow> cache_error + string" where
  "resolveTagName r prin spec =
     (if ts_Name spec = [] then Inr []
      else (case resolve_paths r (ts_Name spec) (ts_PathParams spec) of Inl e \<Rightarrow> Inl e
        | Inr ps \<Rightarrow> (case resolve_parts r prin (ts_Name spec) (ts_Parts spec) of Inl e \<Rightarrow> Inl e
        | Inr qs \<Rightarrow> (case resolve_user prin spec of Inl e \<Rightarrow> Inl e
        | Inr us \<Rightarrow>
            (let parts = ps @ qs @ us @ resolve_literals (ts_Literals spec) in
             if parts = [] then Inr (ts_Name spec)
             else Inr (ts_Name spec @ ''|'' @ join ''|'' (sort parts)))))))"

fun resolve_all :: "request \<Rightarrow> AuthContext \<Rightarrow> CacheTagSpec list \<Rightarrow> cache_error + string list" where
  "resolve_all r prin [] = Inr []"
| "resolve_all r prin (spec # specs) =
     (case resolveTagName r prin spec of
        Inl e \<Rightarrow> Inl e
      | Inr tag \<Rightarrow>
          (case resolve_all r prin specs of
             Inl e \<Rightarrow> Inl e
           | Inr tags \<Rightarrow> Inr (if tag = [] then tags else tag # tags)))"

definition resolveTagNamesPrepared :: "request option \<Rightarrow> CacheTagSpec list \<Rightarrow> cache_error + string list" where
  "resolveTagNamesPrepared req specs =
     (if specs = [] then Inr []
      else (case req of
          None \<Rightarrow> Inl RequestNil
        | Some r \<Rightarrow>
            (case resolve_all r (fst (auth_FromContext r)) specs of
               Inl e \<Rightarrow> Inl e
             | Inr out \<Rightarrow> Inr (normalizeResolvedTags out))))"

section \<open>Manager operations\<close>

definition ResolveFailOpen :: "Manager option \<Rightarrow> bool option \<Rightarrow> bool" where
  "ResolveFailOpen m override =
     (case override of Some b \<Rightarrow> b
      | None \<Rightarrow> (case m of None \<Rightarrow> False | Some mm \<Rightarrow> m_failOpen mm))"

definition DefaultMaxBytes :: "Manager option \<Rightarrow> int" where
  "DefaultMaxBytes m = (case m of None \<Rightarrow> 0 | Some mm \<Rightarrow> m_defaultMaxBytes mm)"

definition Manager_Observe :: "Manager option \<Rightarrow> string \<Rightarrow> string \<Rightarrow> 's world \<Rightarrow> 's world" where
  "Manager_Observe m route oc w =
     (case m of None \<Rightarrow> w
      | Some mm \<Rightarrow>
          if \<not> m_observe mm then w
          else (let r0 = trim_space route; r = (if r0 = [] then ''unknown'' else r0);
                    o0 = trim_space oc; o1 = (if o0 = [] then ''unknown'' else o0)
                in w\<lparr>observed := observed w @ [(r, o1)]\<rparr>))"

definition tagVersionKey :: "Manager \<Rightarrow> string \<Rightarrow> string" where
  "tagVersionKey m tag = ''cver:'' @ m_env m @ '':'' @ tag"

definition tagTokenFromCache :: "Manager \<Rightarrow> string \<Rightarrow> 's world \<Rightarrow> string option \<times> 's world" where
  "tagTokenFromCache m key w =
     (if m_tagTokenTTL m \<le> 0 \<or> trim_space key = [] then (None, w)
      else (case tokens w key of
          None \<Rightarrow> (None, w)
        | Some (token, expiresAt) \<Rightarrow>
            if now w > expiresAt then (None, w\<lparr>tokens := (tokens w)(key := None)\<rparr>)
            else (Some token, w)))"

definition storeTagToken :: "Manager \<Rightarrow> string \<Rightarrow> string \<Rightarrow> 's world \<Rightarrow> 's world" where
  "storeTagToken m key token w =
     (if m_tagTokenTTL m \<le> 0 \<or> trim_space key = [] then w
      else w\<lparr>tokens := (tokens w)(key \<mapsto> (token, now w + m_tagTokenTTL m))\<rparr>)"

text \<open>The version a MGET value stands for.\<close>

fun version_of :: "redis_value \<Rightarrow> int" where
  "version_of (RStr n) =
     (case parse_int 64 (trim_space n) of None \<Rightarrow> 0 | Some v \<Rightarrow> if v > 0 then v else 0)"
| "version_of (RInt n) = (if n > 0 then n else 0)"
| "version_of _ = 0"

fun token_parts :: "string list \<Rightarrow> redis_value list \<Rightarrow> string list" where
  "token_parts [] vs = []"
| "token_parts (t # ts) [] = (t @ ''='' @ itoa 0) # token_parts ts []"
| "token_parts (t # ts) (v # vs) = (t @ ''='' @ itoa (version_of v)) # token_parts ts vs"

abbreviation unit_sep :: string where "unit_sep \<equiv> [CHR 0x1F]"

definition tagVersionTokenNormalized :: "'s redis \<Rightarrow> Manager \<Rightarrow> string list \<Rightarrow> 's world
    \<Rightarrow> (cache_error + string) \<times> 's world" where
  "tagVersionTokenNormalized R m tags w =
     (if tags = [] then (Inr [], w)
      else (let cacheKey = join unit_sep tags; (hit, w1) = tagTokenFromCache m cacheKey w in
        case hit of
          Some token \<Rightarrow> (Inr token, w1)
        | None \<Rightarrow>
            (case redis_mget R (map (tagVersionKey m) tags) (svc w1) of
               Inl err \<Rightarrow> (Inl (RedisFailed err), w1)
             | Inr vals \<Rightarrow>
                 (let token = join '','' (token_parts tags vals) in
                  (Inr token, storeTagToken m cacheKey token w1)))))"

definition TagVersionToken :: "'s redis \<Rightarrow> Manager \<Rightarrow> string list \<Rightarrow> 's world
    \<Rightarrow> (cache_error + string) \<times> 's world" where
  "TagVersionToken R m tags w = tagVersionTokenNormalized R m (normalizeResolvedTags tags) w"

definition queryParamHashSelected :: "(string \<Rightarrow> string) \<Rightarrow> (string \<times> string list) list
    \<Rightarrow> string list \<Rightarrow> string" where
  "queryParamHashSelected sha values selected =
     (if selected = [] then []
      else (let part = (\<lambda>name. name @ ''='' @
                 join '','' (sort (case map_of values name of None \<Rightarrow> [] | Some vs \<Rightarrow> vs)))
            in take 32 (sha (join ''&'' (map part selected)))))"

text \<open>The dimensions up to and including the user, which no request byte can forge, and the
  dimensions after it.\<close>

definition key_head :: "ReadKeyTemplate \<Rightarrow> string \<Rightarrow> request \<Rightarrow> string list" where
  "key_head tm routePart r =
     (let (prin, hasPrincipal) = auth_FromContext r in
      [''route='' @ routePart] @
      (if tm_Method tm then [''method='' @ to_upper (trim_space (req_method r))] else []) @
      map (\<lambda>p. trim_space (kp_Name p) @ ''='' @ escapeTagValue (extract_part p r prin)) (tm_Parts tm) @
      (if tm_UserID tm then [''user='' @ trim_space (UserID prin)] else []))"

definition key_tail :: "ReadKeyTemplate \<Rightarrow> request \<Rightarrow> string \<Rightarrow> string \<Rightarrow> string list" where
  "key_tail tm r queryHash tagToken =
     (let (prin, hasPrincipal) = auth_FromContext r in
      (if tm_Role tm then [''role='' @ trim_space (Role prin)] else []) @
      map (\<lambda>p. ''path.'' @ p @ ''='' @ trim_space (url_param r p)) (tm_PathParams tm) @
      map (\<lambda>h. ''header.'' @ h @ ''='' @ join '','' (header_values (req_header r) h)) (tm_Headers tm) @
      (if queryHash \<noteq> [] then [''query_hash='' @ queryHash] else []) @
      (if hasPrincipal \<and> tm_AllowAuthenticated tm then [''auth=allowed''] else []) @
      (if tagToken \<noteq> [] then [''tags='' @ tagToken] else []))"

definition canonical_key :: "ReadKeyTemplate \<Rightarrow> string \<Rightarrow> request \<Rightarrow> string \<Rightarrow> string \<Rightarrow> string" where
  "canonical_key tm routePart r queryHash tagToken =
     join ''|'' (key_head tm routePart r @ key_tail tm r queryHash tagToken)"

definition template_route :: "ReadKeyTemplate \<Rightarrow> string \<Rightarrow> string" where
  "template_route tm route =
     (let p = trim_space (tm_RoutePart tm) in if p = [] then normalizeRoute route else p)"

definition BuildReadKeyWithTemplate :: "(string \<Rightarrow> string) \<Rightarrow> 's redis \<Rightarrow> Manager option \<Rightarrow> request option
    \<Rightarrow> string \<Rightarrow> ReadKeyTemplate \<Rightarrow> 's world \<Rightarrow> (cache_error + string) \<times> 's world" where
  "BuildReadKeyWithTemplate sha R mgr req route tm w =
     (case mgr of None \<Rightarrow> (Inl ManagerNil, w)
      | Some m \<Rightarrow> (case req of None \<Rightarrow> (Inl RequestNil, w)
      | Some r \<Rightarrow>
          (let routePart = template_route tm route;
               queryHash = queryParamHashSelected sha (req_query r) (tm_QueryParams tm)
           in case resolveTagNamesPrepared (Some r) (tm_TagSpecs tm) of
                Inl e \<Rightarrow> (Inl e, w)
              | Inr resolvedTags \<Rightarrow>
                  (case tagVersionTokenNormalized R m resolvedTags w of
                     (Inl e, w1) \<Rightarrow> (Inl e, w1)
                   | (Inr tagToken, w1) \<Rightarrow>
                       (Inr (''cache:'' @ m_env m @ '':'' @ routePart @ '':'' @
                          take 32 (sha (canonical_key tm routePart r queryHash tagToken))), w1)))))"

definition BuildReadKey :: "(string \<Rightarrow> string) \<Rightarrow> 's redis \<Rightarrow> Manager option \<Rightarrow> request option
    \<Rightarrow> string \<Rightarrow> CacheReadConfig \<Rightarrow> 's world \<Rightarrow> (cache_error + string) \<times> 's world" where
  "BuildReadKey sha R mgr req route cfg w =
     BuildReadKeyWithTemplate sha R mgr req route (PrepareReadKeyTemplate cfg) w"

definition Manager_Get :: "'s redis \<Rightarrow> json_codec \<Rightarrow> Manager option \<Rightarrow> string \<Rightarrow> 's world
    \<Rightarrow> cache_error + CachedResponse option" where
  "Manager_Get R J mgr key w =
     (case mgr of None \<Rightarrow> Inl ManagerNil
      | Some m \<Rightarrow>
          (case redis_get R key (svc w) of
             Inl err \<Rightarrow> Inl (RedisFailed err)
           | Inr None \<Rightarrow> Inr None
           | Inr (Some payload) \<Rightarrow>
               (case json_dec J payload of
                  None \<Rightarrow> Inl DecodeFailed
                | Some item \<Rightarrow> if Status item \<le> 0 then Inr None else Inr (Some item))))"

definition Manager_Set :: "'s redis \<Rightarrow> json_codec \<Rightarrow> Manager option \<Rightarrow> string \<Rightarrow> CachedResponse \<Rightarrow> int
    \<Rightarrow> 's world \<Rightarrow> cache_error option \<times> 's world" where
  "Manager_Set R J mgr key value ttl w =
     (case mgr of None \<Rightarrow> (Some ManagerNil, w)
      | Some m \<Rightarrow>
          if ttl \<le> 0 then (Some TTLNotPositive, w)
          else (case json_enc J value of
              None \<Rightarrow> (Some EncodeFailed, w)
            | Some payload \<Rightarrow>
                (let (err, s') = redis_set R key payload ttl (svc w) in
                 (map_option RedisFailed err, w\<lparr>svc := s'\<rparr>))))"

definition BumpTags :: "'s redis \<Rightarrow> Manager option \<Rightarrow> string list \<Rightarrow> 's world
    \<Rightarrow> cache_error option \<times> 's world" where
  "BumpTags R mgr tags0 w =
     (case mgr of None \<Rightarrow> (Some ManagerNil, w)
      | Some m \<Rightarrow>
          (let tags = normalizeResolvedTags tags0 in
           if tags = [] then (None, w)
           else (let (err, s') = redis_pipe_incr R (map (tagVersionKey m) tags) (svc w);
                     w1 = w\<lparr>svc := s'\<rparr>
                 in (map_option RedisFailed err, if err = None then w1\<lparr>tokens := Map.empty\<rparr> else w1))))"

section \<open>Normal forms\<close>

lemma set_normalizedNames: "set (normalizedNames xs) = (\<lambda>i. trim_space (to_lower i)) ` set xs - {[]}"
  using set_uniq_by [of "\<lambda>x. x" "[]" "map (\<lambda>i. trim_space (to_lower i)) xs"]
  by (auto simp: normalizedNames_def)

lemma sorted_normalizedNames: "sorted (normalizedNames xs)"
  by (simp add: normalizedNames_def)

lemma distinct_normalizedNames: "distinct (normalizedNames xs)"
  using distinct_uniq_by [of "\<lambda>x. x" "[]" "map (\<lambda>i. trim_space (to_lower i)) xs"]
  by (simp add: normalizedNames_def)

lemma set_normalizeResolvedTags: "set (normalizeResolvedTags xs) = trim_space ` set xs - {[]}"
  using set_uniq_by [of "\<lambda>x. x" "[]" "map trim_space xs"]
  by (auto simp: normalizeResolvedTags_def)

lemma distinct_normalizeResolvedTags: "distinct (normalizeResolvedTags xs)"
  using distinct_uniq_by [of "\<lambda>x. x" "[]" "map trim_space xs"]
  by (simp add: normalizeResolvedTags_def)

lemma sorted_normalizeResolvedTags: "sorted (normalizeResolvedTags xs)"
  by (simp add: normalizeResolvedTags_def)

lemma normalizeRoute_wf:
  "normalizeRoute r \<noteq> [] \<and> length (normalizeRoute r) \<le> 240 \<and> CHR '' '' \<notin> set (normalizeRoute r)"
  using replace_byte_free [of "CHR '' ''" "CHR ''_''" "trim_space r"]
  by (auto simp: normalizeRoute_def Let_def dest: in_set_takeD)

section \<open>Escaping\<close>

lemma hex_digit_byte: "d < 16 \<Longrightarrow> byte (hex_digit d) = (if d < 10 then 48 + d else 55 + d)"
  by (simp add: hex_digit_def byte_char_of)

lemma hex_digit_inj:
  assumes "d < 16" and "e < 16" and "hex_digit d = hex_digit e"
  shows "d = e"
proof -
  have "(if d < 10 then 48 + d else 55 + d) = (if e < 10 then 48 + e else 55 + e)"
    using hex_digit_byte [OF assms(1)] hex_digit_byte [OF assms(2)] assms(3) by metis
  then show ?thesis by (simp split: if_splits)
qed

lemma byte_marks:
  "byte (CHR ''+'') = 43" "byte (CHR ''%'') = 37" "byte (CHR '' '') = 32" "byte (CHR ''|'') = 124"
  "byte (CHR ''='') = 61" "byte (CHR '','') = 44" "byte (CHR ''&'') = 38" "byte (CHR '':'') = 58"
  by (simp_all add: byte_def)

lemma unreserved_marks:
  "\<not> unreserved (CHR ''+'')" "\<not> unreserved (CHR ''%'')" "\<not> unreserved (CHR ''|'')"
  "\<not> unreserved (CHR ''='')" "\<not> unreserved (CHR '','')"
  by (simp_all add: unreserved_def byte_marks)

lemma byte_parts: "byte c div 16 < 16" "byte c mod 16 < 16"
  using byte_bound [of c] by (simp_all add: less_mult_imp_div_less)

lemma escape_byte_prefix:
  assumes "escape_byte a @ x = escape_byte b @ y"
  shows "a = b \<and> x = y"
proof (cases "unreserved a \<or> unreserved b \<or> a = CHR '' '' \<or> b = CHR '' ''")
  case True
  then show ?thesis using assms unreserved_marks by (auto simp: escape_byte_def split: if_splits)
next
  case False
  with assms have h: "hex_digit (byte a div 16) = hex_digit (byte b div 16)"
      "hex_digit (byte a mod 16) = hex_digit (byte b mod 16)" "x = y"
    by (auto simp: escape_byte_def)
  then have "byte a div 16 = byte b div 16" "byte a mod 16 = byte b mod 16"
    by (auto intro: hex_digit_inj simp: byte_parts)
  then have "byte a = byte b" by (metis div_mult_mod_eq)
  with h show ?thesis by (simp add: byte_eq_iff)
qed

lemma escape_byte_not_Nil [simp]: "escape_byte c \<noteq> []"
  by (simp add: escape_byte_def)

lemma query_escape_inj: "query_escape s = query_escape t \<Longrightarrow> s = t"
proof (induction s arbitrary: t)
  case Nil
  then show ?case by (cases t) (auto simp: query_escape_def)
next
  case (Cons a s)
  then obtain b u where t: "t = b # u" by (cases t) (auto simp: query_escape_def)
  with Cons.prems escape_byte_prefix [of a "query_escape s" b "query_escape u"] Cons.IH
  show ?case by (auto simp: query_escape_def)
qed

lemma escape_bytes: "c \<in> set (query_escape s) \<Longrightarrow> unreserved c \<or> c = CHR ''+'' \<or> c = CHR ''%''"
proof -
  have hex: "unreserved (hex_digit d)" if "d < 16" for d
    using hex_digit_byte [OF that] that by (auto simp: unreserved_def)
  assume "c \<in> set (query_escape s)"
  then show ?thesis
    by (auto simp: query_escape_def escape_byte_def byte_parts intro: hex split: if_splits)
qed

lemma escape_marks:
  "CHR ''|'' \<notin> set (escapeTagValue v)" "CHR ''='' \<notin> set (escapeTagValue v)"
  "CHR '','' \<notin> set (escapeTagValue v)"
  using escape_bytes [of _ "trim_space v"] unreserved_marks by (auto simp: escapeTagValue_def)

lemma escapeTagValue_inj: "escapeTagValue v = escapeTagValue u \<longleftrightarrow> trim_space v = trim_space u"
  using query_escape_inj by (auto simp: escapeTagValue_def)

section \<open>Version tokens\<close>

definition token_text :: "(string \<Rightarrow> int) \<Rightarrow> string list \<Rightarrow> string" where
  "token_text f ts = join '','' (map (\<lambda>t. t @ ''='' @ itoa (f t)) ts)"

lemma token_text_inj:
  assumes "token_text f ts = token_text g ts" and "t \<in> set ts"
  shows "f t = g t"
  using assms
proof (induction ts)
  case (Cons x xs)
  show ?case
  proof (cases xs)
    case Nil
    with Cons.prems show ?thesis by (auto simp: token_text_def dest: itoa_inj)
  next
    case (Cons y ys)
    with Cons.prems(1) have "itoa (f x) @ CHR '','' # token_text f xs = itoa (g x) @ CHR '','' # token_text g xs"
      by (simp add: token_text_def)
    then have "itoa (f x) = itoa (g x)" and "token_text f xs = token_text g xs"
      using append_sep_inj [OF _ comma_itoa comma_itoa] by blast+
    with Cons.IH Cons.prems(2) show ?thesis by (auto dest: itoa_inj)
  qed
qed simp

lemma token_text_not_Nil: "ts \<noteq> [] \<Longrightarrow> token_text f ts \<noteq> []"
proof (cases ts)
  case (Cons t us)
  then show ?thesis by (cases us) (simp_all add: token_text_def)
qed simp

lemma canonical_key_token_inj:
  assumes "canonical_key tm rp r qh tok = canonical_key tm rp r qh tok'" and "tok \<noteq> []" and "tok' \<noteq> []"
  shows "tok = tok'"
proof -
  define front where "front = key_head tm rp r @ key_tail tm r qh []"
  have split: "key_head tm rp r @ key_tail tm r qh t = front @ [''tags='' @ t]" if "t \<noteq> []" for t
    using that by (simp add: front_def key_tail_def Let_def split: prod.splits)
  from assms have "join ''|'' (front @ [''tags='' @ tok]) = join ''|'' (front @ [''tags='' @ tok'])"
    unfolding canonical_key_def split [OF assms(2)] split [OF assms(3)] by simp
  then show ?thesis by (auto dest: join_snoc_inj)
qed

definition versions_ok :: "('s \<Rightarrow> string \<Rightarrow> int) \<Rightarrow> 's \<Rightarrow> bool" where
  "versions_ok ctr s \<longleftrightarrow> (\<forall>k. 0 \<le> ctr s k \<and> ctr s k < 2 ^ 63)"

lemma version_of_counter:
  assumes "0 \<le> v" and "v < 2 ^ 63"
  shows "version_of (if v = 0 then RNil else RStr (itoa v)) = v"
  using assms parse_int_itoa [of 64 v] by (simp add: visible_itoa)

lemma token_parts_counters:
  assumes "versions_ok ctr s"
  shows "token_parts ts (map (\<lambda>k. if ctr s k = 0 then RNil else RStr (itoa (ctr s k))) (map kf ts)) =
         map (\<lambda>t. t @ ''='' @ itoa (ctr s (kf t))) ts"
  using assms version_of_counter by (induction ts) (auto simp: versions_ok_def)

lemma mget_token:
  assumes "version_laws R ctr" and "versions_ok ctr s" and "redis_mget R (map (tagVersionKey m) ts) s = Inr vals"
  shows "join '','' (token_parts ts vals) = token_text (\<lambda>t. ctr s (tagVersionKey m t)) ts"
proof -
  have "vals = map (\<lambda>k. if ctr s k = 0 then RNil else RStr (itoa (ctr s k))) (map (tagVersionKey m) ts)"
    using assms(1,3) unfolding version_laws_def by blast
  with token_parts_counters [OF assms(2)] show ?thesis by (simp only: token_text_def)
qed

lemma fresh_token:
  assumes "version_laws R ctr" and "versions_ok ctr (svc w)" and "tokens w = Map.empty" and "ts \<noteq> []"
    and "fst (tagVersionTokenNormalized R m ts w) = Inr tok"
  shows "tok = token_text (\<lambda>t. ctr (svc w) (tagVersionKey m t)) ts"
    and "svc (snd (tagVersionTokenNormalized R m ts w)) = svc w"
  using assms(3-5) mget_token [OF assms(1,2)]
  by (auto simp: tagVersionTokenNormalized_def tagTokenFromCache_def storeTagToken_def Let_def
      split: sum.splits if_splits)

lemma tagVersionKey_inj: "tagVersionKey m t = tagVersionKey m u \<longleftrightarrow> t = u"
  by (simp add: tagVersionKey_def)

lemma BumpTags_effect:
  assumes "version_laws R ctr" and "BumpTags R (Some m) bumped w = (None, w1)"
    and "t \<in> set (normalizeResolvedTags bumped)"
  shows "ctr (svc w1) (tagVersionKey m t) = ctr (svc w) (tagVersionKey m t) + 1"
    and "tokens w1 = Map.empty"
proof -
  let ?ks = "map (tagVersionKey m) (normalizeResolvedTags bumped)"
  have ne: "normalizeResolvedTags bumped \<noteq> []" using assms(3) by auto
  with assms(2) have pipe: "redis_pipe_incr R ?ks (svc w) = (None, svc w1)" and "tokens w1 = Map.empty"
    by (auto simp: BumpTags_def Let_def split: prod.splits if_splits)
  then show "tokens w1 = Map.empty" by simp
  have "distinct ?ks"
    by (simp add: distinct_map distinct_normalizeResolvedTags inj_on_def tagVersionKey_inj)
  with pipe assms(1,3) show "ctr (svc w1) (tagVersionKey m t) = ctr (svc w) (tagVersionKey m t) + 1"
    by (auto simp: version_laws_def)
qed

section \<open>What a read key identifies\<close>

text \<open>The string that \<open>BuildReadKeyWithTemplate\<close> hashes for a request.\<close>

definition read_key_input :: "(string \<Rightarrow> string) \<Rightarrow> 's redis \<Rightarrow> Manager \<Rightarrow> request \<Rightarrow> string
    \<Rightarrow> ReadKeyTemplate \<Rightarrow> 's world \<Rightarrow> cache_error + string" where
  "read_key_input sha R m r route tm w =
     (case resolveTagNamesPrepared (Some r) (tm_TagSpecs tm) of
        Inl e \<Rightarrow> Inl e
      | Inr tags \<Rightarrow>
          map_sum (\<lambda>e. e)
            (canonical_key tm (template_route tm route) r
               (queryParamHashSelected sha (req_query r) (tm_QueryParams tm)))
            (fst (tagVersionTokenNormalized R m tags w)))"

lemma BuildReadKey_input:
  "fst (BuildReadKeyWithTemplate sha R (Some m) (Some r) route tm w) =
     map_sum (\<lambda>e. e) (\<lambda>c. ''cache:'' @ m_env m @ '':'' @ template_route tm route @ '':'' @ take 32 (sha c))
       (read_key_input sha R m r route tm w)"
  by (auto simp: BuildReadKeyWithTemplate_def read_key_input_def Let_def split: sum.splits prod.splits)

lemma read_key_input_Inr:
  "read_key_input sha R m r route tm w = Inr c \<Longrightarrow> \<exists>qh tok. c = canonical_key tm (template_route tm route) r qh tok"
  by (auto simp: read_key_input_def map_sum_def split: sum.splits)

abbreviation principal_of :: "request \<Rightarrow> AuthContext" where
  "principal_of r \<equiv> fst (auth_FromContext r)"

abbreviation bar :: char where "bar \<equiv> CHR ''|''"

lemma bar_upper: "bar \<in> set (to_upper s) \<Longrightarrow> bar \<in> set s"
proof -
  assume "bar \<in> set (to_upper s)"
  then obtain c where c: "c \<in> set s" "upper_byte c = bar" by (auto simp: to_upper_def)
  have "c = bar"
  proof (rule ccontr)
    assume "c \<noteq> bar"
    with c(2) have "byte (char_of (byte c - 32)) = 124" "97 \<le> byte c" "byte c \<le> 122"
      by (auto simp: upper_byte_def byte_marks split: if_splits)
    then show False by (simp add: byte_char_of)
  qed
  with c show ?thesis by simp
qed

lemma bar_trim: "bar \<notin> set s \<Longrightarrow> bar \<notin> set (trim_space s)"
  using set_trim_space [of s] by blast

lemma KeyPart_Validate_bar: "KeyPart_Validate p = None \<Longrightarrow> bar \<notin> set (trim_space (kp_Name p))"
  by (auto simp: KeyPart_Validate_def Let_def list_all_iff key_part_byte_def byte_marks split: if_splits)

lemma key_head_bar_free:
  assumes "\<forall>p \<in> set (tm_Parts tm). KeyPart_Validate p = None"
    and "bar \<notin> set rp" and "bar \<notin> set (req_method r)" and "bar \<notin> set (UserID (principal_of r))"
  shows "\<forall>x \<in> set (key_head tm rp r). bar \<notin> set x"
proof -
  have "\<forall>p \<in> set (tm_Parts tm). bar \<notin> set (trim_space (kp_Name p))"
    using assms(1) KeyPart_Validate_bar by blast
  then show ?thesis
    using assms(2) bar_trim [OF assms(3)] bar_trim [OF assms(4)]
    by (auto simp: key_head_def Let_def escape_marks case_prod_unfold dest: bar_upper)
qed

lemma key_head_length: "length (key_head tm rp r1) = length (key_head tm rp r2)"
  by (simp add: key_head_def Let_def split: prod.splits)

lemma key_head_identity:
  assumes "key_head tm rp r1 = key_head tm rp r2"
  shows "tm_UserID tm \<Longrightarrow> trim_space (UserID (principal_of r1)) = trim_space (UserID (principal_of r2))"
    and "p \<in> set (tm_Parts tm) \<Longrightarrow>
      trim_space (extract_part p r1 (principal_of r1)) = trim_space (extract_part p r2 (principal_of r2))"
  using assms by (auto simp: key_head_def Let_def escapeTagValue_inj split: prod.splits if_splits)

section \<open>What a tag identifies\<close>

text \<open>The dynamic dimensions of a specification: their labels, and their values for a request.\<close>

definition spec_labels :: "CacheTagSpec \<Rightarrow> string list" where
  "spec_labels spec = map (\<lambda>p. ''path.'' @ p) (ts_PathParams spec) @ map kp_Name (ts_Parts spec) @
     (if ts_UserID spec then [''user''] else [])"

definition spec_values :: "request \<Rightarrow> AuthContext \<Rightarrow> CacheTagSpec \<Rightarrow> string list" where
  "spec_values r prin spec = map (\<lambda>p. trim_space (url_param r p)) (ts_PathParams spec) @
     map (\<lambda>p. trim_space (extract_part p r prin)) (ts_Parts spec) @
     (if ts_UserID spec then [trim_space (UserID prin)] else [])"

definition labelled :: "string \<times> string \<Rightarrow> string" where
  "labelled kv = fst kv @ ''='' @ escapeTagValue (snd kv)"

lemma spec_lengths: "length (spec_values r prin spec) = length (spec_labels spec)"
  by (simp add: spec_values_def spec_labels_def)

lemma resolve_paths_Inr:
  "resolve_paths r tag ps = Inr xs \<Longrightarrow>
     xs = map labelled (zip (map (\<lambda>p. ''path.'' @ p) ps) (map (\<lambda>p. trim_space (url_param r p)) ps))"
  by (induction ps arbitrary: xs) (auto simp: Let_def labelled_def split: if_splits sum.splits)

lemma resolve_parts_Inr:
  "resolve_parts r prin tag ps = Inr xs \<Longrightarrow>
     xs = map labelled (zip (map kp_Name ps) (map (\<lambda>p. trim_space (extract_part p r prin)) ps))"
  by (induction ps arbitrary: xs) (auto simp: Let_def labelled_def split: if_splits sum.splits)

lemma resolve_user_Inr:
  "resolve_user prin spec = Inr xs \<Longrightarrow>
     xs = (if ts_UserID spec then [labelled (''user'', trim_space (UserID prin))] else [])"
  by (auto simp: resolve_user_def Let_def labelled_def split: if_splits)

lemma resolveTagName_Inr:
  assumes "resolveTagName r prin spec = Inr t" and "ts_Name spec \<noteq> []"
  shows "t = (let xs = map labelled (zip (spec_labels spec) (spec_values r prin spec)) @
                       resolve_literals (ts_Literals spec)
              in if xs = [] then ts_Name spec else ts_Name spec @ ''|'' @ join ''|'' (sort xs))"
  using assms
  by (auto simp: resolveTagName_def spec_labels_def spec_values_def Let_def split: sum.splits if_splits
      dest!: resolve_paths_Inr resolve_parts_Inr resolve_user_Inr)

lemma labelled_inj:
  assumes "labelled (k, v) = labelled (k', v')" and "CHR ''='' \<notin> set k" and "CHR ''='' \<notin> set k'"
  shows "k = k' \<and> trim_space v = trim_space v'"
  using append_sep_inj [of k "CHR ''=''" "escapeTagValue v" k' "escapeTagValue v'"] assms
  by (simp add: labelled_def escapeTagValue_inj)

lemma labelled_values_eq:
  assumes "set (map labelled (zip ks vs)) \<subseteq> set (map labelled (zip ks us))"
    and "distinct ks" and "\<forall>k \<in> set ks. CHR ''='' \<notin> set k"
    and "length vs = length ks" and "length us = length ks"
  shows "map trim_space vs = map trim_space us"
proof (rule nth_equalityI)
  show "length (map trim_space vs) = length (map trim_space us)" using assms by simp
next
  fix i assume "i < length (map trim_space vs)"
  with assms(4,5) have i: "i < length ks" "i < length vs" "i < length us" by auto
  then have "labelled (ks ! i, vs ! i) \<in> set (map labelled (zip ks vs))"
    by (metis in_set_zip fst_conv snd_conv imageI set_map)
  with assms(1) obtain j where j: "j < length ks" "j < length us" "labelled (ks ! i, vs ! i) = labelled (ks ! j, us ! j)"
    by (auto simp: in_set_zip set_zip)
  with assms(3) i have "ks ! i = ks ! j \<and> trim_space (vs ! i) = trim_space (us ! j)"
    by (intro labelled_inj) auto
  moreover from this have "i = j" using assms(2) i j by (metis nth_eq_iff_index_eq)
  ultimately show "map trim_space vs ! i = map trim_space us ! i" using i by simp
qed

lemma spec_values_trimmed: "map trim_space (spec_values r prin spec) = spec_values r prin spec"
  by (simp add: spec_values_def)

lemma sort_cancel: "sort (xs @ zs) = sort (ys @ zs) \<Longrightarrow> set xs = set ys"
proof -
  assume "sort (xs @ zs) = sort (ys @ zs)"
  then have "mset (xs @ zs) = mset (ys @ zs)" by (metis mset_sort)
  then have "mset xs = mset ys" by simp
  then show "set xs = set ys" by (rule mset_eq_setD)
qed

lemma labelled_bar: "bar \<notin> set k \<Longrightarrow> bar \<notin> set (labelled (k, v))"
  by (simp add: labelled_def escape_marks)

lemma resolve_literals_bar:
  "\<forall>l \<in> set ls. bar \<notin> set (lit_Key l) \<Longrightarrow> \<forall>x \<in> set (resolve_literals ls). bar \<notin> set x"
  by (auto simp: resolve_literals_def escape_marks)

section \<open>Bounded staleness of the token cache\<close>

text \<open>
  The manager keeps version tokens in process memory for \<open>TagVersionCacheTTL\<close>, while other
  instances may bump the versions in Redis. A system state is the world with the history of
  (time, Redis state) pairs passed so far; a step is a token read, a bump by this process,
  an arbitrary change of Redis by somebody else, or the passing of time. A tag that holds the
  unit separator byte would make the cache key ambiguous, so reads are of tags without it.
\<close>

record 's token_system =
  tsw :: "'s world"
  hist :: "(int \<times> 's) list"

definition moment :: "'s token_system \<Rightarrow> int \<times> 's" where
  "moment s = (now (tsw s), svc (tsw s))"

definition sep_free :: "string list \<Rightarrow> bool" where
  "sep_free ts \<longleftrightarrow> ts \<noteq> [] \<and> (\<forall>t \<in> set ts. CHR 0x1F \<notin> set t)"

inductive token_step :: "'s redis \<Rightarrow> Manager \<Rightarrow> 's token_system \<Rightarrow> 's token_system \<Rightarrow> bool"
  for R :: "'s redis" and m :: Manager where
  read: "sep_free ts \<Longrightarrow> token_step R m s
      (s\<lparr>tsw := snd (tagVersionTokenNormalized R m ts (tsw s)), hist := moment s # hist s\<rparr>)"
| bump: "token_step R m s
      (s\<lparr>tsw := snd (BumpTags R (Some m) ts (tsw s)), hist := moment s # hist s\<rparr>)"
| other: "token_step R m s (s\<lparr>tsw := (tsw s)\<lparr>svc := x\<rparr>, hist := moment s # hist s\<rparr>)"
| tick: "0 \<le> d \<Longrightarrow> token_step R m s
      (s\<lparr>tsw := (tsw s)\<lparr>now := now (tsw s) + d\<rparr>, hist := moment s # hist s\<rparr>)"

inductive_cases token_stepE: "token_step R m s s'"

inductive token_reach :: "'s redis \<Rightarrow> Manager \<Rightarrow> 's token_system \<Rightarrow> bool"
  for R :: "'s redis" and m :: Manager where
  start: "tokens w = Map.empty \<Longrightarrow> token_reach R m \<lparr>tsw = w, hist = []\<rparr>"
| step: "token_reach R m s \<Longrightarrow> token_step R m s s' \<Longrightarrow> token_reach R m s'"

text \<open>The token that Redis answers for a tag list in a given state.\<close>

definition token_in :: "'s redis \<Rightarrow> Manager \<Rightarrow> string list \<Rightarrow> 's \<Rightarrow> string option" where
  "token_in R m ts s =
     (case redis_mget R (map (tagVersionKey m) ts) s of
        Inl e \<Rightarrow> None | Inr vals \<Rightarrow> Some (join '','' (token_parts ts vals)))"

definition entry_ok :: "'s redis \<Rightarrow> Manager \<Rightarrow> (int \<times> 's) set \<Rightarrow> string \<Rightarrow> string \<Rightarrow> int \<Rightarrow> bool" where
  "entry_ok R m H key tok e \<longleftrightarrow>
     (\<exists>ts t0 s0. sep_free ts \<and> key = join unit_sep ts \<and> (t0, s0) \<in> H \<and>
        e = t0 + m_tagTokenTTL m \<and> token_in R m ts s0 = Some tok)"

definition token_inv :: "'s redis \<Rightarrow> Manager \<Rightarrow> 's token_system \<Rightarrow> bool" where
  "token_inv R m s \<longleftrightarrow>
     (\<forall>h \<in> set (hist s). fst h \<le> now (tsw s)) \<and>
     (\<forall>key tok e. tokens (tsw s) key = Some (tok, e) \<longrightarrow>
        entry_ok R m (insert (moment s) (set (hist s))) key tok e)"

lemma entry_ok_mono: "entry_ok R m H key tok e \<Longrightarrow> H \<subseteq> H' \<Longrightarrow> entry_ok R m H' key tok e"
  by (auto simp: entry_ok_def)

text \<open>Every entry after a read is an old entry, or was just built from the current Redis state.\<close>

lemma token_read_entries:
  assumes "tokens (snd (tagVersionTokenNormalized R m ts w)) key = Some (tok, e)"
  shows "tokens w key = Some (tok, e) \<or>
    (ts \<noteq> [] \<and> key = join unit_sep ts \<and> e = now w + m_tagTokenTTL m \<and> token_in R m ts (svc w) = Some tok)"
  using assms
  by (auto simp: tagVersionTokenNormalized_def tagTokenFromCache_def storeTagToken_def token_in_def Let_def
      split: if_splits option.splits sum.splits prod.splits)

lemma token_read_frame:
  "now (snd (tagVersionTokenNormalized R m ts w)) = now w"
  "svc (snd (tagVersionTokenNormalized R m ts w)) = svc w"
  by (auto simp: tagVersionTokenNormalized_def tagTokenFromCache_def storeTagToken_def Let_def
      split: option.splits sum.splits prod.splits)

lemma bump_frame: "now (snd (BumpTags R mgr ts w)) = now w"
  by (auto simp: BumpTags_def Let_def split: option.splits prod.splits)

lemma bump_entries: "tokens (snd (BumpTags R mgr ts w)) key = Some x \<Longrightarrow> tokens w key = Some x"
  by (auto simp: BumpTags_def Let_def split: option.splits prod.splits if_splits)

text \<open>A step whose entries are all old ones keeps the invariant.\<close>

lemma token_inv_old:
  assumes "token_inv R m s" and "now (tsw s) \<le> now w"
    and "\<And>key x. tokens w key = Some x \<Longrightarrow> tokens (tsw s) key = Some x"
  shows "token_inv R m (s\<lparr>tsw := w, hist := moment s # hist s\<rparr>)"
  unfolding token_inv_def
proof (intro conjI allI impI)
  show "\<forall>h \<in> set (hist (s\<lparr>tsw := w, hist := moment s # hist s\<rparr>)). fst h \<le> now (tsw (s\<lparr>tsw := w, hist := moment s # hist s\<rparr>))"
    using assms(1,2) by (force simp: token_inv_def moment_def)
next
  fix key tok e
  assume "tokens (tsw (s\<lparr>tsw := w, hist := moment s # hist s\<rparr>)) key = Some (tok, e)"
  then have "tokens (tsw s) key = Some (tok, e)" using assms(3) by simp
  with assms(1) have "entry_ok R m (insert (moment s) (set (hist s))) key tok e"
    by (auto simp: token_inv_def)
  then show "entry_ok R m (insert (moment (s\<lparr>tsw := w, hist := moment s # hist s\<rparr>))
      (set (hist (s\<lparr>tsw := w, hist := moment s # hist s\<rparr>)))) key tok e"
    by (rule entry_ok_mono) auto
qed

lemma token_inv_read:
  assumes inv: "token_inv R m s" and "sep_free ts"
  shows "token_inv R m (s\<lparr>tsw := snd (tagVersionTokenNormalized R m ts (tsw s)), hist := moment s # hist s\<rparr>)"
    (is "token_inv R m ?s'")
  unfolding token_inv_def
proof (intro conjI allI impI)
  show "\<forall>h \<in> set (hist ?s'). fst h \<le> now (tsw ?s')"
    using inv by (auto simp: token_inv_def moment_def token_read_frame)
next
  fix key tok e
  assume "tokens (tsw ?s') key = Some (tok, e)"
  then have "tokens (tsw s) key = Some (tok, e) \<or> (key = join unit_sep ts \<and>
      e = now (tsw s) + m_tagTokenTTL m \<and> token_in R m ts (svc (tsw s)) = Some tok)"
    using token_read_entries [of R m ts "tsw s" key tok e] by auto
  then have "entry_ok R m (insert (moment s) (set (hist s))) key tok e"
    using inv assms(2) unfolding token_inv_def entry_ok_def moment_def by blast
  then show "entry_ok R m (insert (moment ?s') (set (hist ?s'))) key tok e"
    by (rule entry_ok_mono) auto
qed

lemma token_step_inv: "token_step R m s s' \<Longrightarrow> token_inv R m s \<Longrightarrow> token_inv R m s'"
proof (induction rule: token_step.induct)
  case (read ts s)
  then show ?case by (blast intro: token_inv_read)
next
  case (bump s ts)
  then show ?case by (intro token_inv_old) (auto simp: bump_frame dest: bump_entries)
next
  case (other s x)
  then show ?case by (intro token_inv_old) auto
next
  case (tick d s)
  then show ?case by (intro token_inv_old) auto
qed

lemma token_reach_inv: "token_reach R m s \<Longrightarrow> token_inv R m s"
proof (induction rule: token_reach.induct)
  case (start w)
  then show ?case by (simp add: token_inv_def)
next
  case (step s s')
  then show ?case by (blast intro: token_step_inv)
qed

lemma sep_free_join_inj: "sep_free ts \<Longrightarrow> sep_free us \<Longrightarrow> join unit_sep ts = join unit_sep us \<Longrightarrow> ts = us"
  unfolding sep_free_def by (rule join_inj) auto

lemma token_answer:
  assumes "fst (tagVersionTokenNormalized R m ts w) = Inr tok" and "ts \<noteq> []"
  shows "token_in R m ts (svc w) = Some tok \<or>
    (\<exists>e. tokens w (join unit_sep ts) = Some (tok, e) \<and> now w \<le> e \<and> 0 < m_tagTokenTTL m)"
  using assms
  by (auto simp: tagVersionTokenNormalized_def tagTokenFromCache_def token_in_def Let_def
      split: if_splits option.splits sum.splits prod.splits)

section \<open>Claims\<close>

text \<open>
  C7: invalidation works: once \<open>BumpTags\<close> has succeeded for a tag of a response, the string
  hashed into the response's read key is another one than before the bump, so an entry cached
  under the old key is not found again. The token before the bump may even have been put into
  the in-process cache.
\<close>

theorem bump_changes_read_key:
  assumes laws: "version_laws R ctr" and ok: "versions_ok ctr (svc w)" "versions_ok ctr (svc wb)"
    and empty: "tokens w = Map.empty"
    and before: "tagVersionTokenNormalized R m tags w = (Inr tok, w')"
    and bump: "BumpTags R (Some m) bumped w' = (None, wb)"
    and after: "fst (tagVersionTokenNormalized R m tags wb) = Inr tok'"
    and hit: "t \<in> set tags" "t \<in> set (normalizeResolvedTags bumped)"
  shows "canonical_key tm rp r qh tok' \<noteq> canonical_key tm rp r qh tok"
proof -
  let ?v = "\<lambda>s t. ctr s (tagVersionKey m t)"
  have ne: "tags \<noteq> []" using hit by auto
  have t1: "tok = token_text (?v (svc w)) tags" and sv: "svc w' = svc w"
    using fresh_token [OF laws ok(1) empty ne, of m tok] before by simp_all
  note eff = BumpTags_effect [OF laws bump hit(2)]
  have t2: "tok' = token_text (?v (svc wb)) tags"
    using fresh_token(1) [OF laws ok(2) eff(2) ne after] .
  have "tok' \<noteq> tok"
  proof
    assume "tok' = tok"
    with t1 t2 have "?v (svc wb) t = ?v (svc w) t" using token_text_inj hit(1) by metis
    with eff(1) sv show False by simp
  qed
  moreover have "tok \<noteq> []" "tok' \<noteq> []" using t1 t2 token_text_not_Nil [OF ne] by simp_all
  ultimately show ?thesis using canonical_key_token_inj by metis
qed

definition sample_manager :: Manager where
  "sample_manager = \<lparr>m_env = ''dev'', m_failOpen = True, m_defaultMaxBytes = 1024,
     m_tagTokenTTL = 250 * millisecond, m_observe = False\<rparr>"

definition sample_template :: ReadKeyTemplate where
  "sample_template = \<lparr>tm_RoutePart = [], tm_Method = True, tm_UserID = True, tm_Role = False, tm_Parts = [],
     tm_PathParams = [], tm_QueryParams = [], tm_Headers = [], tm_TagSpecs = [], tm_AllowAuthenticated = True\<rparr>"

theorem bump_changes_read_key_witness:
  "canonical_key sample_template ''/x'' blank_request [] ''project=1'' \<noteq>
   canonical_key sample_template ''/x'' blank_request [] ''project=0''"
proof (rule bump_changes_read_key [where w = "blank_world mem_empty"
      and w' = "(blank_world mem_empty)\<lparr>tokens := [''project'' \<mapsto> (''project=0'', 250 * millisecond)]\<rparr>"
      and wb = "(blank_world mem_empty)\<lparr>svc := mem_empty\<lparr>mem_ctr := (\<lambda>k. if k = ''cver:dev:project'' then 1 else 0)\<rparr>\<rparr>"
      and m = sample_manager and tags = "[''project'']" and bumped = "[''project'']" and t = "''project''", OF mem_version_laws])
  have vis: "trim_space ''project'' = ''project''" by code_simp
  have it: "itoa 0 = ''0''" "itoa 1 = ''1''" by code_simp+
  have p1: "parse_int 64 (trim_space ''1'') = Some 1" by code_simp
  show "versions_ok mem_ctr (svc (blank_world mem_empty))"
    by (simp add: versions_ok_def blank_world_def mem_empty_def)
  show "versions_ok mem_ctr (svc ((blank_world mem_empty)\<lparr>svc := mem_empty\<lparr>mem_ctr :=
      (\<lambda>k. if k = ''cver:dev:project'' then 1 else 0)\<rparr>\<rparr>))"
    by (simp add: versions_ok_def)
  show "tokens (blank_world mem_empty) = Map.empty" by (simp add: blank_world_def)
  show "tagVersionTokenNormalized mem_redis sample_manager [''project''] (blank_world mem_empty) =
      (Inr ''project=0'', (blank_world mem_empty)\<lparr>tokens := [''project'' \<mapsto> (''project=0'', 250 * millisecond)]\<rparr>)"
    by (simp add: tagVersionTokenNormalized_def tagTokenFromCache_def storeTagToken_def blank_world_def
        sample_manager_def mem_redis_def mem_empty_def vis it Let_def)
  show "BumpTags mem_redis (Some sample_manager) [''project'']
      ((blank_world mem_empty)\<lparr>tokens := [''project'' \<mapsto> (''project=0'', 250 * millisecond)]\<rparr>) =
      (None, (blank_world mem_empty)\<lparr>svc := mem_empty\<lparr>mem_ctr := (\<lambda>k. if k = ''cver:dev:project'' then 1 else 0)\<rparr>\<rparr>)"
    by (simp add: BumpTags_def normalizeResolvedTags_def vis mem_redis_def tagVersionKey_def sample_manager_def
        blank_world_def mem_empty_def fun_eq_iff)
  show "fst (tagVersionTokenNormalized mem_redis sample_manager [''project'']
      ((blank_world mem_empty)\<lparr>svc := mem_empty\<lparr>mem_ctr := (\<lambda>k. if k = ''cver:dev:project'' then 1 else 0)\<rparr>\<rparr>)) =
      Inr ''project=1''"
    by (simp add: tagVersionTokenNormalized_def tagTokenFromCache_def blank_world_def sample_manager_def
        mem_redis_def tagVersionKey_def vis it p1 Let_def)
  show "''project'' \<in> set [''project'']" by simp
  show "''project'' \<in> set (normalizeResolvedTags [''project''])" by (simp add: normalizeResolvedTags_def vis)
qed

text \<open>
  two requests on one route template that get the same read key are for the same identity:
  with \<open>VaryBy.UserID\<close> the same user, and for every key part (the tenant, say) the same value.
  No path, header or query byte of a request can forge another identity. The hypotheses are
  that the two hashed strings do not collide, that the parts passed \<open>KeyPart.Validate\<close>, and that
  the route, the methods and the user ids hold no bar.
\<close>

theorem read_key_identity:
  assumes "fst (BuildReadKeyWithTemplate sha R (Some m) (Some r1) route tm w1) = Inr k"
    and "fst (BuildReadKeyWithTemplate sha R (Some m) (Some r2) route tm w2) = Inr k"
    and "read_key_input sha R m r1 route tm w1 = Inr c1" and "read_key_input sha R m r2 route tm w2 = Inr c2"
    and "take 32 (sha c1) = take 32 (sha c2) \<longrightarrow> c1 = c2"
    and "\<forall>p \<in> set (tm_Parts tm). KeyPart_Validate p = None" and "bar \<notin> set (template_route tm route)"
    and "bar \<notin> set (req_method r1)" and "bar \<notin> set (UserID (principal_of r1))"
    and "bar \<notin> set (req_method r2)" and "bar \<notin> set (UserID (principal_of r2))"
  shows "(tm_UserID tm \<longrightarrow> trim_space (UserID (principal_of r1)) = trim_space (UserID (principal_of r2))) \<and>
    (\<forall>p \<in> set (tm_Parts tm). trim_space (extract_part p r1 (principal_of r1)) =
       trim_space (extract_part p r2 (principal_of r2)))"
proof -
  let ?rp = "template_route tm route"
  have "take 32 (sha c1) = take 32 (sha c2)"
    using assms(1,2) unfolding BuildReadKey_input assms(3,4) by auto
  with assms(5) have "c1 = c2" by simp
  then obtain qh1 t1 qh2 t2 where "canonical_key tm ?rp r1 qh1 t1 = canonical_key tm ?rp r2 qh2 t2"
    using read_key_input_Inr [OF assms(3)] read_key_input_Inr [OF assms(4)] by blast
  then have "key_head tm ?rp r1 = key_head tm ?rp r2"
    unfolding canonical_key_def
    by (rule join_head_inj) (intro key_head_length key_head_bar_free assms)+
  then show ?thesis using key_head_identity by blast
qed

definition user_request :: "string \<Rightarrow> request" where
  "user_request u = blank_request\<lparr>ctx_principal := Some (user_principal u)\<rparr>"

theorem read_key_identity_witness:
  "trim_space (UserID (principal_of (user_request ''u1''))) = trim_space (UserID (principal_of (user_request ''u1 '')))"
proof -
  let ?w = "blank_world mem_empty" and ?c = "''route=/x|method=GET|user=u1|auth=allowed''"
  have tr: "trim_space ''u1'' = ''u1''" "trim_space ''u1 '' = ''u1''" "to_upper (trim_space ''GET'') = ''GET''"
      "trim_space [] = []" "normalizeRoute ''/x'' = ''/x''"
    by code_simp+
  note defs = sample_template_def resolveTagNamesPrepared_def
    tagVersionTokenNormalized_def template_route_def user_request_def blank_request_def user_principal_def
    auth_FromContext_def canonical_key_def key_head_def key_tail_def queryParamHashSelected_def tr
  have c: "read_key_input (\<lambda>s. s) mem_redis sample_manager (user_request u) ''/x'' sample_template ?w = Inr ?c"
    if "u = ''u1'' \<or> u = ''u1 ''" for u
    using that by (auto simp: read_key_input_def defs)
  have k: "fst (BuildReadKeyWithTemplate (\<lambda>s. s) mem_redis (Some sample_manager) (Some (user_request u)) ''/x''
      sample_template ?w) = Inr (''cache:dev:/x:'' @ take 32 ?c)" if "u = ''u1'' \<or> u = ''u1 ''" for u
    unfolding BuildReadKey_input c [OF that] by (simp add: sample_manager_def defs)
  have "tm_UserID sample_template" by (simp add: sample_template_def)
  moreover have "tm_UserID sample_template \<longrightarrow>
      trim_space (UserID (principal_of (user_request ''u1''))) = trim_space (UserID (principal_of (user_request ''u1 '')))"
    by (rule conjunct1 [OF read_key_identity [OF k k c c]])
      (simp_all add: sample_template_def template_route_def user_request_def blank_request_def user_principal_def
        auth_FromContext_def tr)
  ultimately show ?thesis by blast
qed

text \<open>
  the tags of two requests under one prepared specification are equal only if every scoping
  value is: each path parameter, each part and the user. So bumping the tag of one scope
  (one project, one tenant) leaves the entries of every other scope alone. The labels of the
  specification must be distinct and free of the delimiters.
\<close>

theorem tag_names_separate_scopes:
  assumes "resolveTagName r1 p1 spec = Inr t" and "resolveTagName r2 p2 spec = Inr t"
    and "ts_Name spec \<noteq> []" and "distinct (spec_labels spec)"
    and "\<forall>k \<in> set (spec_labels spec). CHR ''='' \<notin> set k \<and> bar \<notin> set k"
    and "\<forall>l \<in> set (ts_Literals spec). bar \<notin> set (lit_Key l)"
  shows "spec_values r1 p1 spec = spec_values r2 p2 spec"
proof -
  define lits where "lits = resolve_literals (ts_Literals spec)"
  define xs where "xs r p = map labelled (zip (spec_labels spec) (spec_values r p spec))" for r p
  have t: "t = (if xs r p @ lits = [] then ts_Name spec else ts_Name spec @ ''|'' @ join ''|'' (sort (xs r p @ lits)))"
    if "resolveTagName r p spec = Inr t" for r p
    using resolveTagName_Inr [OF that assms(3)] by (simp add: xs_def lits_def Let_def)
  have free: "\<forall>x \<in> set (xs r p @ lits). bar \<notin> set x" for r p
    using assms(5) resolve_literals_bar [OF assms(6)] labelled_bar
    by (fastforce simp: xs_def lits_def dest: set_zip_leftD)
  have "set (xs r1 p1) = set (xs r2 p2)"
  proof (cases "xs r1 p1 @ lits = [] \<or> xs r2 p2 @ lits = []")
    case True
    with t [OF assms(1)] t [OF assms(2)] show ?thesis by (auto split: if_splits)
  next
    case False
    with t [OF assms(1)] t [OF assms(2)] have "join ''|'' (sort (xs r1 p1 @ lits)) = join ''|'' (sort (xs r2 p2 @ lits))"
      by (auto split: if_splits)
    then have "sort (xs r1 p1 @ lits) = sort (xs r2 p2 @ lits)"
      by (rule join_inj) (use False free in \<open>auto simp flip: set_empty\<close>)
    then show ?thesis by (rule sort_cancel)
  qed
  then have "map trim_space (spec_values r1 p1 spec) = map trim_space (spec_values r2 p2 spec)"
    using assms(4,5) by (intro labelled_values_eq) (auto simp: xs_def spec_lengths)
  then show ?thesis by (simp add: spec_values_trimmed)
qed

definition project_spec :: CacheTagSpec where
  "project_spec = \<lparr>ts_Name = ''project'', ts_PathParams = [''id''], ts_UserID = True, ts_Parts = [],
     ts_Literals = [\<lparr>lit_Key = ''kind'', lit_Value = ''board''\<rparr>]\<rparr>"

theorem tag_names_separate_scopes_witness:
  "spec_values (blank_request\<lparr>url_param := (\<lambda>_. ''7'')\<rparr>) (user_principal ''u1'') project_spec =
   spec_values (blank_request\<lparr>url_param := (\<lambda>_. '' 7'')\<rparr>) (user_principal ''u1 '') project_spec"
proof (rule tag_names_separate_scopes)
  show "resolveTagName (blank_request\<lparr>url_param := (\<lambda>_. ''7'')\<rparr>) (user_principal ''u1'') project_spec =
      Inr ''project|lit.kind=board|path.id=7|user=u1''"
    by code_simp
  show "resolveTagName (blank_request\<lparr>url_param := (\<lambda>_. '' 7'')\<rparr>) (user_principal ''u1 '') project_spec =
      Inr ''project|lit.kind=board|path.id=7|user=u1''"
    by code_simp
qed (simp_all add: project_spec_def spec_labels_def)

text \<open>
  C14: the staleness of an in-process version token is bounded. Whatever this process reads and
  bumps, whatever others do to Redis and however time passes, a token handed out for a tag list
  is the one Redis held for that list at some moment at most \<open>TagVersionCacheTTL\<close> ago, so an
  invalidation by another instance is seen after that time at the latest.
\<close>

theorem token_bounded_staleness:
  assumes "token_reach R m s" and "sep_free ts"
    and "fst (tagVersionTokenNormalized R m ts (tsw s)) = Inr tok"
  shows "\<exists>(t0, s0) \<in> insert (moment s) (set (hist s)).
    t0 \<le> now (tsw s) \<and> now (tsw s) \<le> t0 + max 0 (m_tagTokenTTL m) \<and> token_in R m ts s0 = Some tok"
proof -
  have inv: "token_inv R m s" using assms(1) by (rule token_reach_inv)
  have "ts \<noteq> []" using assms(2) by (simp add: sep_free_def)
  with assms(3) consider "token_in R m ts (svc (tsw s)) = Some tok"
    | e where "tokens (tsw s) (join unit_sep ts) = Some (tok, e)" "now (tsw s) \<le> e" "0 < m_tagTokenTTL m"
    using token_answer by blast
  then show ?thesis
  proof cases
    case 1
    then show ?thesis by (simp add: moment_def)
  next
    case 2
    then obtain us t0 s0 where o: "sep_free us" "join unit_sep ts = join unit_sep us"
        "(t0, s0) \<in> insert (moment s) (set (hist s))" "e = t0 + m_tagTokenTTL m" "token_in R m us s0 = Some tok"
      using inv unfolding token_inv_def entry_ok_def by blast
    have "us = ts" using sep_free_join_inj o(1,2) assms(2) by metis
    moreover have "t0 \<le> now (tsw s)" using inv o(3) by (auto simp: token_inv_def moment_def)
    ultimately show ?thesis using o 2 by (intro bexI [of _ "(t0, s0)"]) auto
  qed
qed

definition stale_system :: "mem token_system" where
  "stale_system = \<lparr>tsw = (snd (tagVersionTokenNormalized mem_redis sample_manager [''project''] (blank_world mem_empty)))
       \<lparr>svc := mem_empty\<lparr>mem_ctr := (\<lambda>k. 1)\<rparr>\<rparr>,
     hist = [(0, mem_empty), (0, mem_empty)]\<rparr>"

lemma stale_system_reach: "token_reach mem_redis sample_manager stale_system"
proof -
  let ?w = "blank_world mem_empty"
  let ?r = "snd (tagVersionTokenNormalized mem_redis sample_manager [''project''] ?w)"
  have m: "moment \<lparr>tsw = ?w, hist = []\<rparr> = (0, mem_empty)" "moment \<lparr>tsw = ?r, hist = h\<rparr> = (0, mem_empty)" for h
    by (simp_all add: moment_def token_read_frame blank_world_def)
  have 1: "token_reach mem_redis sample_manager \<lparr>tsw = ?r, hist = [(0, mem_empty)]\<rparr>"
    using token_reach.step [OF token_reach.start token_step.read [of "[''project'']"], of ?w mem_redis sample_manager] m
    by (simp add: sep_free_def blank_world_def)
  show ?thesis
    using token_reach.step [OF 1 token_step.other [of _ _ _ "mem_empty\<lparr>mem_ctr := (\<lambda>k. 1)\<rparr>"]] m
    by (simp add: stale_system_def)
qed

theorem token_bounded_staleness_witness:
  "\<exists>(t0, s0) \<in> insert (moment stale_system) (set (hist stale_system)).
    t0 \<le> now (tsw stale_system) \<and> now (tsw stale_system) \<le> t0 + max 0 (m_tagTokenTTL sample_manager) \<and>
    token_in mem_redis sample_manager [''project''] s0 = Some ''project=0''"
proof (rule token_bounded_staleness [OF stale_system_reach])
  have vis: "trim_space ''project'' = ''project''" by code_simp
  have it: "itoa 0 = ''0''" by code_simp
  show "sep_free [''project'']" by (simp add: sep_free_def)
  show "fst (tagVersionTokenNormalized mem_redis sample_manager [''project''] (tsw stale_system)) = Inr ''project=0''"
    by (simp add: stale_system_def tagVersionTokenNormalized_def tagTokenFromCache_def storeTagToken_def Let_def
        blank_world_def sample_manager_def mem_redis_def mem_empty_def vis it)
qed

text \<open>
  the names a policy varies by are put in a normal form that depends only on the set of
  trimmed, lower-cased names: neither order nor duplicates nor blanks in the configuration
  change the read keys of a route.
\<close>

theorem vary_names_canonical:
  "normalizedNames xs = normalizedNames ys \<longleftrightarrow>
     (\<lambda>i. trim_space (to_lower i)) ` set xs - {[]} = (\<lambda>i. trim_space (to_lower i)) ` set ys - {[]}"
  using sorted_distinct_set_unique [OF sorted_normalizedNames distinct_normalizedNames sorted_normalizedNames
      distinct_normalizedNames, of xs ys]
  by (metis set_normalizedNames)

definition mixed_case_config :: CacheReadConfig where
  "mixed_case_config = \<lparr>cr_Key = [], cr_TTL = 30 * second, cr_MaxBytes = 0, cr_TagSpecs = [], cr_Methods = [],
     cr_CacheStatuses = [], cr_VaryBy = \<lparr>vb_Method = True, vb_UserID = False, vb_Role = False, vb_Parts = [],
       vb_PathParams = [''projectID''], vb_QueryParams = [''pageSize''], vb_Headers = []\<rparr>,
     cr_FailOpen = None, cr_AllowAuthenticated = False\<rparr>"

definition project_page :: "string \<Rightarrow> string \<Rightarrow> request" where
  "project_page project pg = blank_request\<lparr>req_query := [(''pageSize'', [pg])],
     url_param := (\<lambda>name. if name = ''projectID'' then project else [])\<rparr>"

text \<open>
  a name with an upper-case letter cannot be varied by. \<open>normalizedNames\<close> lower-cases the
  configured path and query parameters, while the router and \<open>url.Values\<close> are case-sensitive, so
  a route that varies by \<open>projectID\<close> and \<open>pageSize\<close> has one read key for all projects and page
  sizes, and serves the response of the first.
\<close>

theorem mixed_case_names_share_key:
  "BuildReadKey sha R mgr (Some (project_page p1 n1)) route mixed_case_config w =
   BuildReadKey sha R mgr (Some (project_page p2 n2)) route mixed_case_config w"
proof -
  have names: "normalizedNames [''projectID''] = [''projectid'']" "normalizedNames [''pageSize''] = [''pagesize'']"
    by code_simp+
  have tm: "tm_PathParams (PrepareReadKeyTemplate mixed_case_config) = [''projectid'']"
      "tm_QueryParams (PrepareReadKeyTemplate mixed_case_config) = [''pagesize'']"
      "tm_TagSpecs (PrepareReadKeyTemplate mixed_case_config) = []"
      "tm_Parts (PrepareReadKeyTemplate mixed_case_config) = []"
    by (simp_all add: PrepareReadKeyTemplate_def mixed_case_config_def names Let_def usableKeyParts_def
        normalizeTagSpecs_def)
  have "canonical_key (PrepareReadKeyTemplate mixed_case_config) rp (project_page p1 n1) qh tok =
        canonical_key (PrepareReadKeyTemplate mixed_case_config) rp (project_page p2 n2) qh tok" for rp qh tok
    by (simp add: canonical_key_def key_head_def key_tail_def Let_def tm project_page_def auth_FromContext_def)
  moreover have "queryParamHashSelected sha (req_query (project_page p1 n1)) [''pagesize''] =
      queryParamHashSelected sha (req_query (project_page p2 n2)) [''pagesize'']"
    by (simp add: queryParamHashSelected_def project_page_def Let_def)
  ultimately show ?thesis
    by (auto simp: BuildReadKey_def BuildReadKeyWithTemplate_def tm resolveTagNamesPrepared_def
        tagVersionTokenNormalized_def Let_def split: option.splits)
qed

end
