(* ===== verification/Policy_Cache.thy ===== *)
theory Policy_Cache
  imports Policy_Handlers Cache_Manager
begin

text \<open>
  The cache policies of \<open>internal/core/policy/cache.go\<close>: \<open>CacheRead\<close> with its caching response
  writer and \<open>CacheInvalidate\<close> with its status recorder.
\<close>

section \<open>Configuration\<close>

datatype spec_error =
    NoTagSpecs
  | EmptyTagName nat
  | EmptyPathParam string
  | BadTagPart string cache_error
  | EmptyLiteralKey string
  | EmptyLiteralValue string string

datatype cache_panic =
    NilManager PolicyType
  | BadTTL
  | BadTagSpecs PolicyType spec_error
  | BadVaryPart cache_error

fun first_some :: "('a \<Rightarrow> 'b option) \<Rightarrow> 'a list \<Rightarrow> 'b option" where
  "first_some f [] = None"
| "first_some f (x # xs) = (case f x of Some y \<Rightarrow> Some y | None \<Rightarrow> first_some f xs)"

definition check_literal :: "string \<Rightarrow> CacheTagLiteral \<Rightarrow> spec_error option" where
  "check_literal name l =
     (if trim_space (lit_Key l) = [] then Some (EmptyLiteralKey name)
      else if trim_space (lit_Value l) = [] then Some (EmptyLiteralValue name (lit_Key l)) else None)"

definition check_spec :: "nat \<Rightarrow> CacheTagSpec \<Rightarrow> spec_error option" where
  "check_spec i spec =
     (if trim_space (ts_Name spec) = [] then Some (EmptyTagName i)
      else (case first_some (\<lambda>p. if trim_space p = [] then Some (EmptyPathParam (ts_Name spec)) else None)
                   (ts_PathParams spec) of Some e \<Rightarrow> Some e
      | None \<Rightarrow> (case first_some (\<lambda>p. map_option (BadTagPart (ts_Name spec)) (KeyPart_Validate p)) (ts_Parts spec) of
            Some e \<Rightarrow> Some e
          | None \<Rightarrow> first_some (check_literal (ts_Name spec)) (ts_Literals spec))))"

definition validateCacheTagSpecs :: "CacheTagSpec list \<Rightarrow> bool \<Rightarrow> spec_error option" where
  "validateCacheTagSpecs specs requireAtLeastOne =
     (if specs = [] then (if requireAtLeastOne then Some NoTagSpecs else None)
      else first_some (\<lambda>(i, spec). check_spec i spec) (enumerate 0 specs))"

definition buildMethodSet :: "string list \<Rightarrow> string list" where
  "buildMethodSet configured =
     (if configured = [] then [''GET'', ''HEAD'']
      else (let out = filter (\<lambda>m. m \<noteq> []) (map (\<lambda>c. to_upper (trim_space c)) configured) in
            if out = [] then [''GET'', ''HEAD''] else out))"

definition buildCacheStatusSet :: "int list \<Rightarrow> int list" where
  "buildCacheStatusSet statuses = (if statuses = [] then [200] else statuses)"

record cacheReadRuntime =
  rt_manager :: Manager
  rt_cfg :: CacheReadConfig
  rt_template :: ReadKeyTemplate
  rt_allowedMethods :: "string list"
  rt_cacheStatuses :: "int list"
  rt_maxBytes :: int
  rt_requireAuthSafety :: bool

definition newCacheReadRuntime :: "Manager \<Rightarrow> CacheReadConfig \<Rightarrow> cacheReadRuntime" where
  "newCacheReadRuntime manager cfg =
     (let template = PrepareReadKeyTemplate cfg in
      \<lparr>rt_manager = manager, rt_cfg = cfg, rt_template = template,
       rt_allowedMethods = buildMethodSet (cr_Methods cfg),
       rt_cacheStatuses = buildCacheStatusSet (cr_CacheStatuses cfg),
       rt_maxBytes = (if cr_MaxBytes cfg \<le> 0 then DefaultMaxBytes (Some manager) else cr_MaxBytes cfg),
       rt_requireAuthSafety = (\<not> tm_UserID template \<and> \<not> HasIdentityPart (tm_Parts template))\<rparr>)"

definition methodAllowed :: "cacheReadRuntime \<Rightarrow> string \<Rightarrow> bool" where
  "methodAllowed c m \<longleftrightarrow> to_upper (trim_space m) \<in> set (rt_allowedMethods c)"

text \<open>
  \<open>routeLabel\<close> memoizes \<open>NormalizeRoute\<close> per trimmed route in \<open>routeParts\<close>; the memo is not
  part of the world, since \<open>NormalizeRoute\<close> trims its argument and so gives the memoized value.
\<close>

definition routeLabel :: "cacheReadRuntime \<Rightarrow> string \<Rightarrow> string" where
  "routeLabel c route =
     (if tm_RoutePart (rt_template c) \<noteq> [] then tm_RoutePart (rt_template c) else normalizeRoute route)"

section \<open>Reading through the cache\<close>

definition hasAuthPrincipal :: "request \<Rightarrow> bool" where
  "hasAuthPrincipal r =
     (case auth_FromContext r of
        (_, False) \<Rightarrow> False
      | (prin, True) \<Rightarrow>
          trim_space (UserID prin) \<noteq> [] \<or> trim_space (Role prin) \<noteq> [] \<or> Attributes prin \<noteq> [])"

definition unsafe_cache_message :: string where
  "unsafe_cache_message = ''invalid route config: cache_read on authenticated routes requires '' @
     ''VaryBy.UserID or an identity-bearing VaryBy.Parts entry''"

definition newCachingResponseWriter :: "int \<Rightarrow> int list \<Rightarrow> caching_writer" where
  "newCachingResponseWriter maxBytes statuses =
     \<lparr>cw_statusCode = 200, cw_maxBytes = maxBytes, cw_cacheStatuses = statuses, cw_body = [],
      cw_tooLarge = False, cw_streaming = False\<rparr>"

definition Cacheable :: "caching_writer \<Rightarrow> 's world \<Rightarrow> bool" where
  "Cacheable c w \<longleftrightarrow>
     \<not> cw_streaming c \<and> \<not> cw_tooLarge c \<and> GetHeader ''Set-Cookie'' w = [] \<and>
     cw_statusCode c \<in> set (cw_cacheStatuses c)"

definition cache_unavailable :: go_error where
  "cache_unavailable = apperr_New CodeDependencyFailure 503 ''cache unavailable''"

definition serve_hit :: "CachedResponse \<Rightarrow> 's world \<Rightarrow> 's world" where
  "serve_hit cached w =
     Write (Body cached) (WriteHeader (Status cached)
       (if ContentType cached \<noteq> [] then SetHeader ''Content-Type'' (ContentType cached) w else w))"

text \<open>The part of the handler after the miss: run the handler under the caching writer and store.\<close>

definition fill_cache :: "'s redis \<Rightarrow> json_codec \<Rightarrow> cacheReadRuntime \<Rightarrow> string \<Rightarrow> string \<Rightarrow> 's handler \<Rightarrow> 's handler" where
  "fill_cache R J rt route key next r w =
     (case run_wrapped (CachingW (newCachingResponseWriter (rt_maxBytes rt) (rt_cacheStatuses rt))) next r w of
        Panic m (l, w') \<Rightarrow> Panic m w'
      | Ret (CachingW c, w') \<Rightarrow>
          (if \<not> Cacheable c w' then Ret (Manager_Observe (Some (rt_manager rt)) route ''bypass'' w')
           else (case Manager_Set R J (Some (rt_manager rt)) key
                     \<lparr>Status = cw_statusCode c, Body = cw_body c, ContentType = GetHeader ''Content-Type'' w'\<rparr>
                     (cr_TTL (rt_cfg rt)) w' of
               (Some err, w2) \<Rightarrow> Ret (Manager_Observe (Some (rt_manager rt)) route ''error'' w2)
             | (None, w2) \<Rightarrow> Ret (Manager_Observe (Some (rt_manager rt)) route ''set'' w2)))
      | Ret (l, w') \<Rightarrow> Ret w')"

definition CacheRead_handler :: "(Envelope \<Rightarrow> string) \<Rightarrow> (string \<Rightarrow> string) \<Rightarrow> 's redis \<Rightarrow> json_codec
    \<Rightarrow> cacheReadRuntime \<Rightarrow> 's middleware" where
  "CacheRead_handler enc sha R J rt next r w =
     (let m = rt_manager rt; rid = ctx_request_id r; route = routePattern r; routePart = routeLabel rt route;
          failOpen = ResolveFailOpen (Some m) (cr_FailOpen (rt_cfg rt));
          observe = Manager_Observe (Some m) route
      in if \<not> methodAllowed rt (req_method r) then next r (observe ''bypass'' w)
         else if rt_requireAuthSafety rt \<and> hasAuthPrincipal r then Panic unsafe_cache_message w
         else (case BuildReadKeyWithTemplate sha R (Some m) (Some r) routePart (rt_template rt) w of
             (Inl err, w1) \<Rightarrow>
               (let w2 = observe ''error'' w1 in
                if \<not> failOpen then Ret (response_Error enc cache_unavailable rid w2) else next r w2)
           | (Inr key, w1) \<Rightarrow>
               (case Manager_Get R J (Some m) key w1 of
                  Inl err \<Rightarrow>
                    (let w2 = observe ''error'' w1 in
                     if \<not> failOpen then Ret (response_Error enc cache_unavailable rid w2)
                     else fill_cache R J rt route key next r (observe ''miss'' w2))
                | Inr (Some cached) \<Rightarrow> Ret (observe ''hit'' (serve_hit cached w1))
                | Inr None \<Rightarrow> fill_cache R J rt route key next r (observe ''miss'' w1))))"

abbreviation ptr_CacheRead :: nat where "ptr_CacheRead \<equiv> 9"
abbreviation ptr_CacheInvalidate :: nat where "ptr_CacheInvalidate \<equiv> 10"

definition CacheRead :: "(Envelope \<Rightarrow> string) \<Rightarrow> (string \<Rightarrow> string) \<Rightarrow> 's redis \<Rightarrow> json_codec \<Rightarrow> Manager option
    \<Rightarrow> CacheReadConfig \<Rightarrow> policy_table \<Rightarrow> cache_panic + ('s middleware policy option \<times> policy_table)" where
  "CacheRead enc sha R J manager cfg t =
     (case manager of
        None \<Rightarrow> Inl (NilManager PolicyTypeCacheRead)
      | Some m \<Rightarrow>
          if cr_TTL cfg \<le> 0 then Inl BadTTL
          else (case validateCacheTagSpecs (cr_TagSpecs cfg) False of
              Some e \<Rightarrow> Inl (BadTagSpecs PolicyTypeCacheRead e)
            | None \<Rightarrow>
                (case first_some KeyPart_Validate (vb_Parts (cr_VaryBy cfg)) of
                   Some e \<Rightarrow> Inl (BadVaryPart e)
                 | None \<Rightarrow>
                     Inr (built ptr_CacheRead (CacheRead_handler enc sha R J (newCacheReadRuntime m cfg))
                       ((meta_of PolicyTypeCacheRead ''CacheRead'')\<lparr>CacheReadMeta :=
                          \<lparr>AllowAuthenticated = cr_AllowAuthenticated cfg,
                           VaryByUserID = vb_UserID (cr_VaryBy cfg),
                           VaryByIdentityPart = HasIdentityPart (vb_Parts (cr_VaryBy cfg))\<rparr>\<rparr>) t))))"

section \<open>Invalidating\<close>

definition CacheInvalidate_handler :: "'s redis \<Rightarrow> Manager \<Rightarrow> CacheTagSpec list \<Rightarrow> 's middleware" where
  "CacheInvalidate_handler R m prepared next r w =
     (case run_wrapped (RecorderW 200) next r w of
        Panic msg (l, w') \<Rightarrow> Panic msg w'
      | Ret (RecorderW statusCode, w') \<Rightarrow>
          (if statusCode < 200 \<or> statusCode \<ge> 300 then Ret w'
           else (case resolveTagNamesPrepared (Some r) prepared of
               Inl err \<Rightarrow> Ret (Manager_Observe (Some m) (routePattern r) ''error'' w')
             | Inr tags \<Rightarrow>
                 if tags = [] then Ret w'
                 else (case BumpTags R (Some m) tags w' of
                     (Some err, w2) \<Rightarrow> Ret (Manager_Observe (Some m) (routePattern r) ''error'' w2)
                   | (None, w2) \<Rightarrow> Ret w2)))
      | Ret (l, w') \<Rightarrow> Ret w')"

definition CacheInvalidate :: "'s redis \<Rightarrow> Manager option \<Rightarrow> CacheInvalidateConfig \<Rightarrow> policy_table
    \<Rightarrow> cache_panic + ('s middleware policy option \<times> policy_table)" where
  "CacheInvalidate R manager cfg t =
     (case manager of
        None \<Rightarrow> Inl (NilManager PolicyTypeCacheInvalidate)
      | Some m \<Rightarrow>
          (case validateCacheTagSpecs (ci_TagSpecs cfg) True of
             Some e \<Rightarrow> Inl (BadTagSpecs PolicyTypeCacheInvalidate e)
           | None \<Rightarrow>
               (let prepared = normalizeTagSpecs (ci_TagSpecs cfg) in
                Inr (built ptr_CacheInvalidate (CacheInvalidate_handler R m prepared)
                  ((meta_of PolicyTypeCacheInvalidate ''CacheInvalidate'')\<lparr>CacheInvalidateMeta :=
                     \<lparr>TagSpecCount = length prepared\<rparr>\<rparr>) t))))"

section \<open>Handlers as scripts of writer calls\<close>

text \<open>
  A handler of the application reaches the response only through the methods of the
  \<open>http.ResponseWriter\<close> it is given. The properties below are for all handlers of this form: a
  request-dependent list of calls.
\<close>

datatype action = AStatus int | AWrite string | AFlush | ASet string string | AAdd string string

fun act :: "action \<Rightarrow> 's world \<Rightarrow> 's world" where
  "act (AStatus c) w = WriteHeader c w"
| "act (AWrite p) w = Write p w"
| "act AFlush w = Flush w"
| "act (ASet k v) w = SetHeader k v w"
| "act (AAdd k v) w = AddHeader k v w"

definition acts :: "action list \<Rightarrow> 's world \<Rightarrow> 's world" where
  "acts as w = fold act as w"

definition script :: "(request \<Rightarrow> action list) \<Rightarrow> 's handler" where
  "script f r w = Ret (acts (f r) w)"

text \<open>What the calls do to the caching writer, and to the recorder, of their layer alone.\<close>

fun cact :: "action \<Rightarrow> caching_writer \<Rightarrow> caching_writer" where
  "cact (AStatus c) cw = cw\<lparr>cw_statusCode := c\<rparr>"
| "cact (AWrite p) cw = caching_buffer p cw"
| "cact AFlush cw = cw\<lparr>cw_streaming := True\<rparr>"
| "cact a cw = cw"

definition cacts :: "action list \<Rightarrow> caching_writer \<Rightarrow> caching_writer" where
  "cacts as c = fold cact as c"

lemma act_caching: "act a (push (CachingW c) w) = push (CachingW (cact a c)) (act a w)"
  by (cases a) (simp_all add: push_def Write_def WriteHeader_def Flush_def SetHeader_def AddHeader_def
      case_prod_unfold Let_def)

lemma acts_caching: "acts as (push (CachingW c) w) = push (CachingW (cacts as c)) (acts as w)"
  by (induction as arbitrary: c w) (simp_all add: acts_def cacts_def act_caching)

lemma run_caching: "run_wrapped (CachingW c) (script f) r w = Ret (CachingW (cacts (f r) c), acts (f r) w)"
  by (simp add: run_wrapped_def script_def acts_caching)

lemma act_frame [simp]:
  "svc (act a w) = svc w" "tokens (act a w) = tokens w" "now (act a w) = now w" "observed (act a w) = observed w"
  by (cases a; simp add: Flush_def AddHeader_def case_prod_unfold Let_def)+

lemma acts_frame [simp]:
  "svc (acts as w) = svc w" "tokens (acts as w) = tokens w" "now (acts as w) = now w" "observed (acts as w) = observed w"
  by (induction as arbitrary: w) (simp_all add: acts_def)

text \<open>The response seen by the client, and worlds that agree on it.\<close>

definition same_response :: "'s world \<Rightarrow> 's world \<Rightarrow> bool" where
  "same_response w w' \<longleftrightarrow> base w = base w' \<and> layers w = layers w'"

lemma same_response_refl [simp]: "same_response w w"
  by (simp add: same_response_def)

lemma same_response_trans: "same_response a b \<Longrightarrow> same_response b c \<Longrightarrow> same_response a c"
  by (simp add: same_response_def)

lemma act_same: "same_response w w' \<Longrightarrow> same_response (act a w) (act a w')"
  by (cases a) (simp_all add: same_response_def Write_def WriteHeader_def Flush_def SetHeader_def AddHeader_def
      case_prod_unfold Let_def)

lemma acts_same: "same_response w w' \<Longrightarrow> same_response (acts as w) (acts as w')"
  by (induction as arbitrary: w w') (simp_all add: acts_def act_same)

lemma response_Error_same: "same_response w w' \<Longrightarrow> same_response (response_Error enc e rid w) (response_Error enc e rid w')"
  by (simp add: same_response_def response_Error_def response_JSON_def Write_def WriteHeader_def SetHeader_def
      case_prod_unfold Let_def)

lemma serve_hit_same: "same_response w w' \<Longrightarrow> same_response (serve_hit c w) (serve_hit c w')"
  by (simp add: same_response_def serve_hit_def Write_def WriteHeader_def SetHeader_def case_prod_unfold Let_def)

lemma Manager_Observe_same [simp]: "same_response (Manager_Observe m rt oc w) w' = same_response w w'"
  "same_response w (Manager_Observe m rt oc w') = same_response w w'"
  by (auto simp: same_response_def Manager_Observe_def Let_def split: option.splits)

lemma Manager_Set_same: "same_response (snd (Manager_Set R J m k v t w)) w"
  by (auto simp: same_response_def Manager_Set_def Let_def split: option.splits prod.splits)

lemma token_read_same: "same_response (snd (tagVersionTokenNormalized R m ts w)) w"
  by (auto simp: same_response_def tagVersionTokenNormalized_def tagTokenFromCache_def storeTagToken_def Let_def
      split: option.splits sum.splits prod.splits)

lemma token_read_sameD: "tagVersionTokenNormalized R m ts w = (x, w') \<Longrightarrow> same_response w' w"
  using token_read_same [of R m ts w] by simp

lemma Manager_Set_sameD: "Manager_Set R J m k v t w = (x, w') \<Longrightarrow> same_response w' w"
  using Manager_Set_same [of R J m k v t w] by simp

lemma BuildReadKey_same: "same_response (snd (BuildReadKeyWithTemplate sha R mgr req route tm w)) w"
  by (auto simp: BuildReadKeyWithTemplate_def Let_def split: option.splits sum.splits prod.splits
      dest: token_read_sameD)

lemma fill_cache_same:
  "\<exists>w'. fill_cache R J rt route key (script f) r w = Ret w' \<and> same_response w' (acts (f r) w)"
  by (auto simp: fill_cache_def run_caching split: prod.splits option.splits dest: Manager_Set_sameD)


definition public_config :: CacheReadConfig where
  "public_config = \<lparr>cr_Key = [], cr_TTL = 30 * second, cr_MaxBytes = 0, cr_TagSpecs = [], cr_Methods = [],
     cr_CacheStatuses = [], cr_VaryBy = \<lparr>vb_Method = True, vb_UserID = False, vb_Role = False, vb_Parts = [],
       vb_PathParams = [], vb_QueryParams = [], vb_Headers = []\<rparr>,
     cr_FailOpen = None, cr_AllowAuthenticated = False\<rparr>"

definition public_runtime :: cacheReadRuntime where
  "public_runtime = newCacheReadRuntime sample_manager public_config"

lemma public_runtime_facts:
  "rt_manager public_runtime = sample_manager" "rt_cfg public_runtime = public_config"
  "tm_TagSpecs (rt_template public_runtime) = []" "methodAllowed public_runtime ''GET''"
  "0 < rt_maxBytes public_runtime" "rt_cacheStatuses public_runtime = [200]" "\<not> hasAuthPrincipal blank_request"
proof -
  show "methodAllowed public_runtime ''GET''" by code_simp
qed (simp_all add: public_runtime_def newCacheReadRuntime_def public_config_def PrepareReadKeyTemplate_def
    normalizeTagSpecs_def Let_def DefaultMaxBytes_def sample_manager_def buildCacheStatusSet_def hasAuthPrincipal_def
    auth_FromContext_def blank_request_def)

lemma BuildReadKey_no_tags:
  "tm_TagSpecs tm = [] \<Longrightarrow>
     \<exists>key. \<forall>w. BuildReadKeyWithTemplate sha R (Some m) (Some r) route tm w = (Inr key, w)"
  by (simp add: BuildReadKeyWithTemplate_def resolveTagNamesPrepared_def tagVersionTokenNormalized_def Let_def)

definition hello :: "request \<Rightarrow> action list" where
  "hello r = [ASet ''Content-Type'' ''text/plain'', AStatus 200, AWrite ''hi'']"

definition sample_codec :: json_codec where
  "sample_codec = \<lparr>json_enc = (\<lambda>v. Some (Body v)),
     json_dec = (\<lambda>p. Some \<lparr>Status = 200, Body = p, ContentType = ''text/plain''\<rparr>)\<rparr>"


section \<open>Replay\<close>

text \<open>Calls in the order \<open>net/http\<close> asks for: at most one status, a final one, before any body byte.\<close>

fun proper :: "bool \<Rightarrow> action list \<Rightarrow> bool" where
  "proper committed [] = True"
| "proper committed (AStatus c # as) = (\<not> committed \<and> 200 \<le> c \<and> proper True as)"
| "proper committed (AWrite p # as) = proper True as"
| "proper committed (AFlush # as) = proper True as"
| "proper committed (ASet k v # as) = proper committed as"
| "proper committed (AAdd k v # as) = proper committed as"

definition final_status :: "base_writer \<Rightarrow> int" where
  "final_status b = (case bw_status b of None \<Rightarrow> 200 | Some s \<Rightarrow> s)"

definition response_of :: "'s world \<Rightarrow> int \<times> string \<times> string" where
  "response_of w = (final_status (base w), bw_body (base w), GetHeader ''Content-Type'' w)"

definition fresh_response :: "'s world \<Rightarrow> bool" where
  "fresh_response w \<longleftrightarrow> layers w = [] \<and> base w = \<lparr>bw_header = [], bw_status = None, bw_body = []\<rparr>"

text \<open>How far the caching writer agrees with the writer below it.\<close>

definition tracks :: "bool \<Rightarrow> caching_writer \<Rightarrow> 's world \<Rightarrow> bool" where
  "tracks committed c w \<longleftrightarrow>
     layers w = [] \<and> 0 < cw_maxBytes c \<and>
     bw_status (base w) = (if committed then Some (cw_statusCode c) else None) \<and>
     (\<not> committed \<longrightarrow> cw_statusCode c = 200) \<and> (cw_tooLarge c \<or> cw_body c = bw_body (base w))"

lemma tracks_acts:
  "tracks committed c w \<Longrightarrow> proper committed as \<Longrightarrow> \<exists>committed'. tracks committed' (cacts as c) (acts as w)"
proof (induction committed as arbitrary: c w rule: proper.induct)
  case (1 committed)
  then show ?case by (auto simp: cacts_def acts_def)
next
  case (2 committed code as)
  then have "tracks True (cact (AStatus code) c) (act (AStatus code) w)"
    by (auto simp: tracks_def WriteHeader_def base_write_header_def)
  with 2 show ?case by (auto simp: cacts_def acts_def)
next
  case (3 committed p as)
  then have "tracks True (cact (AWrite p) c) (act (AWrite p) w)"
    by (auto simp: tracks_def Write_def base_write_def base_write_header_def caching_buffer_def Let_def split: if_splits)
  with 3 show ?case by (auto simp: cacts_def acts_def)
next
  case (4 committed as)
  then have "tracks True (cact AFlush c) (act AFlush w)"
    by (auto simp: tracks_def Flush_def base_write_header_def split: if_splits)
  with 4 show ?case by (auto simp: cacts_def acts_def)
next
  case (5 committed k v as)
  then have "tracks committed (cact (ASet k v) c) (act (ASet k v) w)"
    by (simp add: tracks_def SetHeader_def)
  with 5 show ?case by (auto simp: cacts_def acts_def)
next
  case (6 committed k v as)
  then have "tracks committed (cact (AAdd k v) c) (act (AAdd k v) w)"
    by (simp add: tracks_def AddHeader_def)
  with 6 show ?case by (auto simp: cacts_def acts_def)
qed

lemma cacts_statuses: "cw_cacheStatuses (cacts as c) = cw_cacheStatuses c"
proof (induction as arbitrary: c)
  case (Cons a as)
  have "cw_cacheStatuses (cact a c) = cw_cacheStatuses c" by (cases a) (simp_all add: caching_buffer_def)
  with Cons show ?case by (simp add: cacts_def)
qed (simp add: cacts_def)

definition captured :: "cacheReadRuntime \<Rightarrow> action list \<Rightarrow> caching_writer" where
  "captured rt as = cacts as (newCachingResponseWriter (rt_maxBytes rt) (rt_cacheStatuses rt))"

lemma captured_response:
  assumes "fresh_response w" and "0 < rt_maxBytes rt" and "proper False as" and "\<not> cw_tooLarge (captured rt as)"
  shows "final_status (base (acts as w)) = cw_statusCode (captured rt as)"
    and "bw_body (base (acts as w)) = cw_body (captured rt as)"
proof -
  have "tracks False (newCachingResponseWriter (rt_maxBytes rt) (rt_cacheStatuses rt)) w"
    using assms(1,2) by (simp add: tracks_def newCachingResponseWriter_def fresh_response_def)
  from tracks_acts [OF this assms(3)] obtain committed where "tracks committed (captured rt as) (acts as w)"
    unfolding captured_def by blast
  then show "final_status (base (acts as w)) = cw_statusCode (captured rt as)"
    and "bw_body (base (acts as w)) = cw_body (captured rt as)"
    using assms(4) by (auto simp: tracks_def final_status_def split: if_splits)
qed

lemma serve_hit_response:
  assumes "fresh_response w" and "200 \<le> Status v"
  shows "response_of (serve_hit v w) = (Status v, Body v, ContentType v)"
  using assms
  by (auto simp: response_of_def serve_hit_def fresh_response_def final_status_def GetHeader_def SetHeader_def
      WriteHeader_def Write_def base_write_header_def base_write_def header_get_set)
    (simp add: header_get_def header_values_def)

text \<open>
  Redis strings: \<open>str s k\<close> is the value stored at \<open>k\<close>. SET with a positive expiry stores its
  value and GET answers what is stored (until it expires).
\<close>

definition string_laws :: "'s redis \<Rightarrow> ('s \<Rightarrow> string \<rightharpoonup> string) \<Rightarrow> bool" where
  "string_laws R str \<longleftrightarrow>
     (\<forall>k v t s. 0 < t \<longrightarrow> fst (redis_set R k v t s) = None \<and> str (snd (redis_set R k v t s)) = (str s)(k \<mapsto> v)) \<and>
     (\<forall>k s. redis_get R k s = Inr (str s k))"

lemma mem_string_laws: "string_laws mem_redis mem_str"
  by (simp add: string_laws_def mem_redis_def)

definition stored :: "cacheReadRuntime \<Rightarrow> action list \<Rightarrow> 's world \<Rightarrow> CachedResponse" where
  "stored rt as w = \<lparr>Status = cw_statusCode (captured rt as), Body = cw_body (captured rt as),
     ContentType = GetHeader ''Content-Type'' (acts as w)\<rparr>"

text \<open>A request that \<open>CacheRead\<close> looks up, with the key it uses.\<close>

definition looks_up :: "(string \<Rightarrow> string) \<Rightarrow> 's redis \<Rightarrow> cacheReadRuntime \<Rightarrow> request \<Rightarrow> 's world \<Rightarrow> string \<Rightarrow> 's world \<Rightarrow> bool" where
  "looks_up sha R rt r w key w1 \<longleftrightarrow>
     methodAllowed rt (req_method r) \<and> \<not> (rt_requireAuthSafety rt \<and> hasAuthPrincipal r) \<and>
     BuildReadKeyWithTemplate sha R (Some (rt_manager rt)) (Some r) (routeLabel rt (routePattern r)) (rt_template rt) w
       = (Inr key, w1)"

lemma CacheRead_hit:
  assumes "looks_up sha R rt r w key w1" and "Manager_Get R J (Some (rt_manager rt)) key w1 = Inr (Some v)"
  shows "CacheRead_handler enc sha R J rt next r w =
    Ret (Manager_Observe (Some (rt_manager rt)) (routePattern r) ''hit'' (serve_hit v w1))"
  using assms by (simp add: looks_up_def CacheRead_handler_def Let_def)

lemma CacheRead_miss:
  assumes "looks_up sha R rt r w key w1" and "Manager_Get R J (Some (rt_manager rt)) key w1 = Inr None"
  shows "CacheRead_handler enc sha R J rt next r w = fill_cache R J rt (routePattern r) key next r
    (Manager_Observe (Some (rt_manager rt)) (routePattern r) ''miss'' w1)"
  using assms by (auto simp: looks_up_def CacheRead_handler_def Let_def)

lemma looks_up_frame:
  assumes "looks_up sha R rt r w key w1"
  shows "same_response w1 w" and "svc w1 = svc w"
proof -
  have "tagVersionTokenNormalized R m ts w = (x, w') \<Longrightarrow> svc w' = svc w" for m ts x w'
    using token_read_frame(2) [of R m ts w] by simp
  then show "svc w1 = svc w"
    using assms by (auto simp: looks_up_def BuildReadKeyWithTemplate_def Let_def split: sum.splits prod.splits)
  show "same_response w1 w"
    using assms BuildReadKey_same [of sha R "Some (rt_manager rt)" "Some r" "routeLabel rt (routePattern r)" "rt_template rt" w]
    by (simp add: looks_up_def)
qed

lemma Observe_svc [simp]: "svc (Manager_Observe m rt oc w) = svc w"
  by (simp add: Manager_Observe_def Let_def split: option.splits)

lemma fill_cache_stores:
  assumes "string_laws R str" and "0 < cr_TTL (rt_cfg rt)" and "Cacheable (captured rt (f r)) (acts (f r) w)"
    and "json_enc J (stored rt (f r) w) = Some payload" and "fill_cache R J rt route key (script f) r w = Ret w'"
  shows "str (svc w') key = Some payload"
proof -
  have st: "\<lparr>Status = cw_statusCode (captured rt (f r)), Body = cw_body (captured rt (f r)),
      ContentType = GetHeader ''Content-Type'' (acts (f r) w)\<rparr> = stored rt (f r) w"
    by (simp add: stored_def)
  have set: "fst (redis_set R key payload (cr_TTL (rt_cfg rt)) (svc w)) = None"
      "str (snd (redis_set R key payload (cr_TTL (rt_cfg rt)) (svc w))) key = Some payload"
    using assms(1,2) by (simp_all add: string_laws_def)
  show ?thesis
    using assms(2-5) set
    by (auto simp: fill_cache_def run_caching captured_def [symmetric] st Manager_Set_def Let_def case_prod_unfold)
qed

text \<open>
  a cached response replays the original. When a first request misses and its handler's
  response is cacheable, then every later request that \<open>CacheRead\<close> looks up under the same key,
  before the entry expires, is answered with the status, the body and the content type the
  first client got, whatever the handler would do now. The handler of the first request calls
  its writer in the order \<open>net/http\<close> asks for, and the stored value survives the JSON codec.
\<close>

theorem cached_replay:
  assumes laws: "string_laws R str"
    and cfg: "0 < cr_TTL (rt_cfg rt)" "0 < rt_maxBytes rt" "\<forall>s \<in> set (rt_cacheStatuses rt). 200 \<le> s"
    and first: "looks_up sha R rt r w key w1" "Manager_Get R J (Some (rt_manager rt)) key w1 = Inr None"
      "fresh_response w" "proper False (f r)" "Cacheable (captured rt (f r)) (acts (f r) w)"
    and codec: "json_enc J (stored rt (f r) w) = Some payload" "json_dec J payload = Some (stored rt (f r) w)"
    and run: "CacheRead_handler enc sha R J rt (script f) r w = Ret w'"
    and later: "fresh_response v" "svc v = svc w'" "looks_up sha R rt r2 v key v1"
  shows "\<exists>v'. CacheRead_handler enc sha R J rt (script g) r2 v = Ret v' \<and> response_of v' = response_of (acts (f r) w)"
proof -
  let ?w = "Manager_Observe (Some (rt_manager rt)) (routePattern r) ''miss'' w1"
  have same: "same_response ?w w" using looks_up_frame(1) [OF first(1)] by simp
  then have acts: "same_response (acts (f r) ?w) (acts (f r) w)" by (rule acts_same)
  then have hdr: "GetHeader k (acts (f r) ?w) = GetHeader k (acts (f r) w)" for k
    by (simp add: GetHeader_def same_response_def)
  have cb: "Cacheable (captured rt (f r)) (acts (f r) ?w)" "stored rt (f r) ?w = stored rt (f r) w"
    using first(5) by (simp_all add: Cacheable_def stored_def hdr)
  have "fill_cache R J rt (routePattern r) key (script f) r ?w = Ret w'"
    using run by (simp add: CacheRead_miss [OF first(1,2)])
  with cb codec(1) have "str (svc w') key = Some payload"
    by (intro fill_cache_stores [OF laws cfg(1)]) simp_all
  moreover have "svc v1 = svc v" by (rule looks_up_frame(2) [OF later(3)])
  moreover have st: "200 \<le> Status (stored rt (f r) w)"
    using first(5) cfg(3)
    by (simp add: Cacheable_def stored_def captured_def cacts_statuses newCachingResponseWriter_def)
  ultimately have "Manager_Get R J (Some (rt_manager rt)) key v1 = Inr (Some (stored rt (f r) w))"
    using laws later(2) codec(2) by (simp add: Manager_Get_def string_laws_def)
  from CacheRead_hit [OF later(3) this] obtain v' where v':
    "CacheRead_handler enc sha R J rt (script g) r2 v = Ret v'" "same_response v' (serve_hit (stored rt (f r) w) v1)"
    by simp
  have "fresh_response v1" using later(1) looks_up_frame(1) [OF later(3)] by (simp add: fresh_response_def same_response_def)
  from serve_hit_response [OF this st] v'(2)
  have "response_of v' = (Status (stored rt (f r) w), Body (stored rt (f r) w), ContentType (stored rt (f r) w))"
    by (simp add: response_of_def same_response_def GetHeader_def)
  also have "\<dots> = response_of (acts (f r) w)"
    using captured_response [OF first(3) cfg(2) first(4)] first(5) by (simp add: Cacheable_def stored_def response_of_def)
  finally show ?thesis using v'(1) by blast
qed

theorem cached_replay_witness:
  "\<exists>v'. CacheRead_handler (\<lambda>e. []) (\<lambda>s. s) mem_redis sample_codec public_runtime (script (\<lambda>r. [AStatus 500]))
     blank_request (blank_world (svc (outcome_world (CacheRead_handler (\<lambda>e. []) (\<lambda>s. s) mem_redis sample_codec
       public_runtime (script hello) blank_request (blank_world mem_empty))))) = Ret v' \<and>
     response_of v' = response_of (acts (hello blank_request) (blank_world mem_empty))"
proof -
  let ?w = "blank_world mem_empty"
  let ?run = "CacheRead_handler (\<lambda>e. []) (\<lambda>s. s) mem_redis sample_codec public_runtime (script hello) blank_request ?w"
  note facts = public_runtime_facts
  have m: "req_method blank_request = ''GET''" by (simp add: blank_request_def)
  obtain key where k: "\<And>w :: mem world. BuildReadKeyWithTemplate (\<lambda>s. s) mem_redis (Some sample_manager)
      (Some blank_request) (routeLabel public_runtime (routePattern blank_request)) (rt_template public_runtime) w = (Inr key, w)"
    using BuildReadKey_no_tags [OF facts(3)] by blast
  have look: "looks_up (\<lambda>s. s) mem_redis public_runtime blank_request w key w" for w
    by (simp add: looks_up_def facts m k)
  have miss: "Manager_Get mem_redis sample_codec (Some (rt_manager public_runtime)) key ?w = Inr None"
    by (simp add: Manager_Get_def mem_redis_def blank_world_def mem_empty_def)
  have cb: "Cacheable (captured public_runtime (hello blank_request)) (acts (hello blank_request) ?w)"
    and st: "stored public_runtime (hello blank_request) ?w = \<lparr>Status = 200, Body = ''hi'', ContentType = ''text/plain''\<rparr>"
    by code_simp+
  obtain w' where w': "?run = Ret w'"
    unfolding CacheRead_miss [OF look miss] using fill_cache_same by blast
  show ?thesis
    unfolding w' outcome_world.simps
    by (rule cached_replay [OF mem_string_laws _ _ _ look miss _ _ cb _ _ w' _ _ look, where payload = "''hi''"])
      (simp_all add: facts public_config_def fresh_response_def blank_world_def hello_def st [unfolded hello_def blank_world_def]
        sample_codec_def)
qed

text \<open>
  the caching writer records the last status it is given, \<open>net/http\<close> sends the first. A handler
  that writes an error and then, by a missing return, a success (a superfluous \<open>WriteHeader\<close>,
  which \<open>net/http\<close> ignores with a log line) sends the client a 500, but the response is
  cacheable as a 200, and later clients are served the error body with status 200.
\<close>

theorem superfluous_status_is_cached:
  "let as = [AStatus 500, AWrite msg, AStatus 200, AWrite body]; w' = acts as (blank_world s) in
   bw_status (base w') = Some 500 \<and>
   (length (msg @ body) \<le> 1024 \<longrightarrow> Cacheable (captured public_runtime as) w' \<and>
      Status (stored public_runtime as (blank_world s)) = 200 \<and> Body (stored public_runtime as (blank_world s)) = msg @ body)"
proof -
  have rt: "rt_maxBytes public_runtime = 1024"
    by (simp add: public_runtime_def newCacheReadRuntime_def public_config_def DefaultMaxBytes_def sample_manager_def Let_def)
  show ?thesis
    by (simp add: acts_def captured_def cacts_def stored_def rt public_runtime_facts newCachingResponseWriter_def
        caching_buffer_def Cacheable_def blank_world_def WriteHeader_def Write_def base_write_def base_write_header_def
        GetHeader_def header_get_def header_values_def Let_def)
qed

theorem superfluous_status_is_cached_witness:
  "Status (stored public_runtime [AStatus 500, AWrite ''boom'', AStatus 200, AWrite ''ok''] (blank_world ())) = 200"
  using superfluous_status_is_cached [of "''boom''" "''ok''" "()"] by (simp add: Let_def)

section \<open>Invalidation\<close>

text \<open>The recorder's status after a script, and the script as the recorder lets it through: the recorder has no
  \<open>Flush\<close>, so a handler's flush stops there.\<close>

fun recorded :: "int \<Rightarrow> action list \<Rightarrow> int" where
  "recorded s [] = s"
| "recorded s (AStatus c # as) = recorded c as"
| "recorded s (a # as) = recorded s as"

definition unflushed :: "action list \<Rightarrow> action list" where
  "unflushed as = filter (\<lambda>a. a \<noteq> AFlush) as"

lemma act_recorder:
  "act (AStatus c) (push (RecorderW s) w) = push (RecorderW c) (act (AStatus c) w)"
  "act (AWrite p) (push (RecorderW s) w) = push (RecorderW s) (act (AWrite p) w)"
  "act AFlush (push (RecorderW s) w) = push (RecorderW s) w"
  by (simp_all add: push_def Write_def WriteHeader_def Flush_def case_prod_unfold Let_def)

lemma acts_recorder: "acts as (push (RecorderW s) w) = push (RecorderW (recorded s as)) (acts (unflushed as) w)"
  by (induction s as arbitrary: w rule: recorded.induct)
    (simp_all add: acts_def unflushed_def act_recorder push_writer del: act.simps(1-3))

lemma normalizeResolvedTags_again: "set (normalizeResolvedTags (normalizeResolvedTags xs)) = set (normalizeResolvedTags xs)"
proof -
  have "trim_space x \<in> trim_space ` (trim_space ` set xs - {[]})" if "x \<in> set xs" "trim_space x \<noteq> []" for x
    using that by (intro image_eqI [of _ _ "trim_space x"]) auto
  then show ?thesis by (auto simp: set_normalizeResolvedTags)
qed

lemma run_recorder:
  "run_wrapped (RecorderW s) (script f) r w = Ret (RecorderW (recorded s (f r)), acts (unflushed (f r)) w)"
  by (simp add: run_wrapped_def script_def acts_recorder)

text \<open>
  what \<open>CacheInvalidate\<close> does for every handler. The client gets what the handler writes (flushes
  aside). A handler that does not end in a 2xx status leaves Redis and the token cache alone.
  After a 2xx, when the tags resolve and the bump succeeds, the version of every resolved tag is
  one higher, no other version has moved, and the in-process tokens are gone.
\<close>

theorem invalidate_after_success:
  assumes laws: "version_laws R ctr"
    and tags: "resolveTagNamesPrepared (Some r) prepared = Inr tags" "tags \<noteq> []"
    and bump: "BumpTags R (Some m) tags (acts (unflushed (f r)) w) = (None, w2)"
  shows "\<exists>w'. CacheInvalidate_handler R m prepared (script f) r w = Ret w' \<and>
    same_response w' (acts (unflushed (f r)) w) \<and>
    (if 200 \<le> recorded 200 (f r) \<and> recorded 200 (f r) < 300
     then (\<forall>k. ctr (svc w') k = ctr (svc w) k + (if k \<in> tagVersionKey m ` set tags then 1 else 0)) \<and> tokens w' = Map.empty
     else svc w' = svc w \<and> tokens w' = tokens w)"
proof -
  have norm: "set (normalizeResolvedTags tags) = set tags"
    using tags by (auto simp: resolveTagNamesPrepared_def normalizeResolvedTags_again split: if_splits sum.splits)
  then have ne: "normalizeResolvedTags tags \<noteq> []" using tags(2) by (metis set_empty)
  have same: "same_response w2 (acts (unflushed (f r)) w)"
    using bump by (auto simp: BumpTags_def same_response_def Let_def split: prod.splits if_splits)
  have tok: "tokens w2 = Map.empty" and pipe:
    "redis_pipe_incr R (map (tagVersionKey m) (normalizeResolvedTags tags)) (svc w) = (None, svc w2)"
    using bump ne by (auto simp: BumpTags_def Let_def split: prod.splits if_splits)
  have "distinct (map (tagVersionKey m) (normalizeResolvedTags tags))"
    by (simp add: distinct_map distinct_normalizeResolvedTags inj_on_def tagVersionKey_inj)
  with laws pipe norm have "ctr (svc w2) k = ctr (svc w) k + (if k \<in> tagVersionKey m ` set tags then 1 else 0)" for k
    by (auto simp: version_laws_def)
  with same tok tags bump show ?thesis
    by (auto simp: CacheInvalidate_handler_def run_recorder)
qed

definition list_spec :: CacheTagSpec where
  "list_spec = \<lparr>ts_Name = ''project'', ts_PathParams = [], ts_UserID = False, ts_Parts = [], ts_Literals = []\<rparr>"

lemma list_spec_tags: "resolveTagNamesPrepared (Some blank_request) [list_spec] = Inr [''project'']"
  by code_simp

theorem invalidate_after_success_witness:
  "\<exists>w'. CacheInvalidate_handler mem_redis sample_manager [list_spec] (script (\<lambda>r. [AStatus 201])) blank_request
      (blank_world mem_empty) = Ret w' \<and> mem_ctr (svc w') (tagVersionKey sample_manager ''project'') = 1"
proof -
  let ?w = "blank_world mem_empty"
  have "fst (BumpTags mem_redis (Some sample_manager) [''project''] (acts (unflushed [AStatus 201]) ?w)) = None"
    by (simp add: BumpTags_def mem_redis_def Let_def)
  then obtain w2 where "BumpTags mem_redis (Some sample_manager) [''project''] (acts (unflushed [AStatus 201]) ?w) = (None, w2)"
    by (cases "BumpTags mem_redis (Some sample_manager) [''project''] (acts (unflushed [AStatus 201]) ?w)") simp
  from invalidate_after_success [OF mem_version_laws list_spec_tags _ this]
  show ?thesis by (force simp: blank_world_def mem_empty_def)
qed

text \<open>
  an informational status ends invalidation. A handler that sends Early Hints (103) and then
  writes its body without naming a status answers 200, but the recorder keeps 103: the write
  succeeded and its tags are never bumped, so cached reads stay stale until they expire.
\<close>

theorem early_hints_skip_invalidation:
  "\<exists>w'. CacheInvalidate_handler R m prepared (script (\<lambda>r. [AStatus 103, AWrite body])) r (blank_world s) = Ret w' \<and>
     bw_status (base w') = Some 200 \<and> svc w' = s"
  by (simp add: CacheInvalidate_handler_def run_recorder unflushed_def)
    (simp add: acts_def blank_world_def WriteHeader_def Write_def base_write_def base_write_header_def)

section \<open>Registration\<close>

lemma first_some_None: "first_some f xs = None \<longleftrightarrow> (\<forall>x \<in> set xs. f x = None)"
  by (induction xs) (auto split: option.splits)


definition user_config :: CacheReadConfig where
  "user_config = public_config\<lparr>cr_VaryBy := (cr_VaryBy public_config)\<lparr>vb_UserID := True\<rparr>, cr_AllowAuthenticated := True\<rparr>"


end
