(* ===== verification/Presets.thy ===== *)
theory Presets
  imports Policy_Cache
begin

text \<open>
  Preset chains: \<open>internal/core/policy/options.go\<close> and \<open>presets.go\<close>. A preset option is a function
  on the preset configuration; a preset builds its policies in order, threading the metadata
  table, and validates the chain it built.
\<close>

record 's presetConfig =
  pc_authEngine :: "nat option"
  pc_authMode :: Mode
  pc_strictAuth :: bool
  pc_limiter :: "'s allow_op option"
  pc_rateLimitRule :: Rule
  pc_rateLimitSet :: bool
  pc_cacheManager :: "Manager option"
  pc_cacheTTL :: int
  pc_cacheTagSpecs :: "CacheTagSpec list"
  pc_cacheConfigured :: bool
  pc_cacheAllowAuth :: bool
  pc_cacheVaryBy :: CacheVaryBy
  pc_cacheVarySet :: bool
  pc_invalidateTagCfg :: "CacheTagSpec list"
  pc_invalidateTagSet :: bool

type_synonym 's PresetOption = "'s presetConfig \<Rightarrow> 's presetConfig"

definition resource_spec :: CacheTagSpec where
  "resource_spec = \<lparr>ts_Name = ''resource'', ts_PathParams = [], ts_UserID = False, ts_Parts = [], ts_Literals = []\<rparr>"

definition empty_vary :: CacheVaryBy where
  "empty_vary = \<lparr>vb_Method = False, vb_UserID = False, vb_Role = False, vb_Parts = [], vb_PathParams = [],
     vb_QueryParams = [], vb_Headers = []\<rparr>"

definition defaultPresetConfig :: "'s presetConfig" where
  "defaultPresetConfig = \<lparr>pc_authEngine = None, pc_authMode = ModeHybrid, pc_strictAuth = False, pc_limiter = None,
     pc_rateLimitRule = \<lparr>rule_Limit = 30, rule_Window = 60 * second, rule_Scope = [], rule_Keyer = None\<rparr>,
     pc_rateLimitSet = False, pc_cacheManager = None, pc_cacheTTL = 30 * second, pc_cacheTagSpecs = [resource_spec],
     pc_cacheConfigured = False, pc_cacheAllowAuth = True, pc_cacheVaryBy = empty_vary\<lparr>vb_UserID := True\<rparr>,
     pc_cacheVarySet = False, pc_invalidateTagCfg = [resource_spec], pc_invalidateTagSet = False\<rparr>"

definition applyPresetOptions :: "'s PresetOption option list \<Rightarrow> 's presetConfig" where
  "applyPresetOptions opts =
     (let cfg = fold (\<lambda>opt cfg. case opt of None \<Rightarrow> cfg | Some f \<Rightarrow> f cfg) opts defaultPresetConfig in
      if pc_strictAuth cfg then cfg\<lparr>pc_authMode := ModeStrict\<rparr> else cfg)"

definition WithAuthEngine :: "nat option \<Rightarrow> Mode \<Rightarrow> 's PresetOption" where
  "WithAuthEngine engine mode cfg =
     (let cfg' = cfg\<lparr>pc_authEngine := engine\<rparr> in
      if trim_space mode \<noteq> [] then cfg'\<lparr>pc_authMode := mode\<rparr> else cfg')"

definition WithLimiter :: "'s allow_op option \<Rightarrow> 's PresetOption" where
  "WithLimiter lim cfg = cfg\<lparr>pc_limiter := lim\<rparr>"

definition WithCacheManager :: "Manager option \<Rightarrow> 's PresetOption" where
  "WithCacheManager manager cfg = cfg\<lparr>pc_cacheManager := manager\<rparr>"

definition WithCache :: "int \<Rightarrow> CacheTagSpec list \<Rightarrow> 's PresetOption" where
  "WithCache ttl tagSpecs cfg =
     (let c1 = cfg\<lparr>pc_cacheConfigured := True\<rparr>;
          c2 = (if ttl > 0 then c1\<lparr>pc_cacheTTL := ttl\<rparr> else c1)
      in if tagSpecs \<noteq> [] then c2\<lparr>pc_cacheTagSpecs := tagSpecs\<rparr> else c2)"

definition WithRateLimit :: "int \<Rightarrow> int \<Rightarrow> 's PresetOption" where
  "WithRateLimit limit window cfg =
     (let c1 = cfg\<lparr>pc_rateLimitSet := True\<rparr>;
          c2 = (if limit > 0 then c1\<lparr>pc_rateLimitRule := (pc_rateLimitRule c1)\<lparr>rule_Limit := limit\<rparr>\<rparr> else c1)
      in if window > 0 then c2\<lparr>pc_rateLimitRule := (pc_rateLimitRule c2)\<lparr>rule_Window := window\<rparr>\<rparr> else c2)"

definition WithStrictAuth :: "'s PresetOption" where
  "WithStrictAuth cfg = cfg\<lparr>pc_strictAuth := True\<rparr>"

definition WithInvalidateTags :: "CacheTagSpec list \<Rightarrow> 's PresetOption" where
  "WithInvalidateTags tagSpecs cfg =
     (if tagSpecs = [] then cfg else cfg\<lparr>pc_invalidateTagSet := True, pc_invalidateTagCfg := tagSpecs\<rparr>)"

definition WithCacheVaryBy :: "CacheVaryBy \<Rightarrow> 's PresetOption" where
  "WithCacheVaryBy varyBy cfg = cfg\<lparr>pc_cacheVaryBy := varyBy, pc_cacheVarySet := True\<rparr>"

record 's PresetSettings =
  ps_AuthEngine :: "nat option"
  ps_AuthMode :: Mode
  ps_Limiter :: "'s allow_op option"
  ps_RateLimit :: Rule
  ps_CacheManager :: "Manager option"
  ps_CacheTTL :: int
  ps_CacheTags :: "CacheTagSpec list"
  ps_CacheAllowAuth :: bool
  ps_CacheVaryBy :: CacheVaryBy
  ps_CacheVaryBySet :: bool
  ps_InvalidateTags :: "CacheTagSpec list"

definition ResolvePreset :: "'s PresetOption option list \<Rightarrow> 's PresetSettings" where
  "ResolvePreset opts =
     (let cfg = applyPresetOptions opts;
          tags = (if \<not> pc_invalidateTagSet cfg then pc_cacheTagSpecs cfg else pc_invalidateTagCfg cfg)
      in \<lparr>ps_AuthEngine = pc_authEngine cfg, ps_AuthMode = pc_authMode cfg, ps_Limiter = pc_limiter cfg,
          ps_RateLimit = pc_rateLimitRule cfg, ps_CacheManager = pc_cacheManager cfg, ps_CacheTTL = pc_cacheTTL cfg,
          ps_CacheTags = pc_cacheTagSpecs cfg, ps_CacheAllowAuth = pc_cacheAllowAuth cfg,
          ps_CacheVaryBy = pc_cacheVaryBy cfg, ps_CacheVaryBySet = pc_cacheVarySet cfg, ps_InvalidateTags = tags\<rparr>)"

section \<open>Building presets\<close>

datatype preset_panic =
    RequiresAuthEngine string
  | RequiresLimiter string
  | RequiresCacheManager string
  | PolicyPanic config_panic
  | CachePanic cache_panic
  | InvalidPreset string route_error

definition Require :: "'s PresetSettings \<Rightarrow> string \<Rightarrow> bool \<Rightarrow> bool \<Rightarrow> bool \<Rightarrow> preset_panic option" where
  "Require s name needAuth needLimiter needCache =
     (if needAuth \<and> ps_AuthEngine s = None then Some (RequiresAuthEngine name)
      else if needLimiter \<and> ps_Limiter s = None then Some (RequiresLimiter name)
      else if needCache \<and> ps_CacheManager s = None then Some (RequiresCacheManager name)
      else None)"

definition MustValidatePreset :: "policy_table \<Rightarrow> string \<Rightarrow> string \<Rightarrow> string \<Rightarrow> RouteRule option list
    \<Rightarrow> 'p policy option list \<Rightarrow> preset_panic option" where
  "MustValidatePreset t name verb pattern rules policies =
     (case DescribePolicies t policies of
        Inl e \<Rightarrow> Some (InvalidPreset name e)
      | Inr metas \<Rightarrow> map_option (InvalidPreset name) (ValidateRouteMetadataWith rules verb pattern metas))"

definition mustValidatePreset :: "policy_table \<Rightarrow> string \<Rightarrow> string \<Rightarrow> string \<Rightarrow> 'p policy option list \<Rightarrow> preset_panic option" where
  "mustValidatePreset t name verb pattern policies =
     (case DescribePolicies t policies of
        Inl e \<Rightarrow> Some (InvalidPreset name e)
      | Inr metas \<Rightarrow> map_option (InvalidPreset name) (ValidateRouteMetadata verb pattern metas))"

definition public_read_config :: "'s presetConfig \<Rightarrow> CacheReadConfig" where
  "public_read_config cfg = \<lparr>cr_Key = [], cr_TTL = pc_cacheTTL cfg, cr_MaxBytes = 0, cr_TagSpecs = pc_cacheTagSpecs cfg,
     cr_Methods = [], cr_CacheStatuses = [], cr_VaryBy = empty_vary\<lparr>vb_Method := True\<rparr>, cr_FailOpen = None,
     cr_AllowAuthenticated = False\<rparr>"

definition PublicRead :: "(Envelope \<Rightarrow> string) \<Rightarrow> (string \<Rightarrow> string) \<Rightarrow> 's redis \<Rightarrow> json_codec \<Rightarrow> 's PresetOption option list
    \<Rightarrow> policy_table \<Rightarrow> preset_panic + ('s middleware policy option list \<times> policy_table)" where
  "PublicRead enc sha R J opts t =
     (let cfg = applyPresetOptions opts in
      if pc_limiter cfg = None then Inl (RequiresLimiter ''PublicRead'')
      else if pc_cacheManager cfg = None then Inl (RequiresCacheManager ''PublicRead'')
      else (case RateLimit enc sha (pc_limiter cfg) ((pc_rateLimitRule cfg)\<lparr>rule_Scope := ScopeIP\<rparr>) t of
          Inl e \<Rightarrow> Inl (PolicyPanic e)
        | Inr (p1, t1) \<Rightarrow>
            (case CacheRead enc sha R J (pc_cacheManager cfg) (public_read_config cfg) t1 of
               Inl e \<Rightarrow> Inl (CachePanic e)
             | Inr (p2, t2) \<Rightarrow>
                 (case mustValidatePreset t2 ''PublicRead'' ''GET'' ''/api/v1/public/resource'' [p1, p2] of
                    Some e \<Rightarrow> Inl e
                  | None \<Rightarrow> Inr ([p1, p2], t2)))))"

section \<open>The options keep presets valid\<close>

text \<open>The options that the package exports.\<close>

inductive exported :: "'s PresetOption \<Rightarrow> bool" where
  "exported (WithAuthEngine e m)"
| "exported (WithLimiter l)"
| "exported (WithCacheManager c)"
| "exported (WithCache ttl specs)"
| "exported (WithRateLimit n win)"
| "exported WithStrictAuth"
| "exported (WithInvalidateTags specs)"
| "exported (WithCacheVaryBy v)"

inductive_cases exportedE: "exported f"

definition preset_inv :: "'s presetConfig \<Rightarrow> bool" where
  "preset_inv cfg \<longleftrightarrow> Rule_Validate (pc_rateLimitRule cfg) = None \<and> rule_Keyer (pc_rateLimitRule cfg) = None \<and>
     0 < pc_cacheTTL cfg \<and> pc_cacheTagSpecs cfg \<noteq> [] \<and> pc_invalidateTagCfg cfg \<noteq> []"

lemma exported_inv: "exported f \<Longrightarrow> preset_inv cfg \<Longrightarrow> preset_inv (f cfg)"
  by (induction rule: exported.induct)
    (auto simp: preset_inv_def WithAuthEngine_def WithLimiter_def WithCacheManager_def WithCache_def WithRateLimit_def
      WithStrictAuth_def WithInvalidateTags_def WithCacheVaryBy_def Rule_Validate_def Let_def split: if_splits)

lemma fold_options_inv:
  "\<forall>f. Some f \<in> set opts \<longrightarrow> exported f \<Longrightarrow> preset_inv cfg \<Longrightarrow>
     preset_inv (fold (\<lambda>opt cfg. case opt of None \<Rightarrow> cfg | Some f \<Rightarrow> f cfg) opts cfg)"
  by (induction opts arbitrary: cfg) (auto simp: exported_inv split: option.splits)

lemma default_inv: "preset_inv defaultPresetConfig"
  by (simp add: preset_inv_def defaultPresetConfig_def Rule_Validate_def)

lemma options_inv: "\<forall>f. Some f \<in> set opts \<longrightarrow> exported f \<Longrightarrow> preset_inv (applyPresetOptions opts)"
  using fold_options_inv [OF _ default_inv, of opts] by (auto simp: applyPresetOptions_def preset_inv_def Let_def)

text \<open>
  \<open>PublicRead\<close> always registers. Whatever exported options it is given, in any order and with any
  arguments, once a limiter and a cache manager are among them and the tag specifications are
  valid, no constructor panics and the chain passes the validator: rate limiting by client
  address comes first, then the cache read on keys that vary by method.
\<close>

theorem public_read_registers:
  assumes "\<forall>f. Some f \<in> set opts \<longrightarrow> exported f"
    and "pc_limiter (applyPresetOptions opts) = Some allow" and "pc_cacheManager (applyPresetOptions opts) = Some m"
    and "validateCacheTagSpecs (pc_cacheTagSpecs (applyPresetOptions opts)) False = None"
  shows "\<exists>p1 p2 t'. PublicRead enc sha R J opts t = Inr ([Some p1, Some p2], t') \<and>
    behaviour p1 = RateLimit_handler enc sha allow
      ((pc_rateLimitRule (applyPresetOptions opts))\<lparr>rule_Scope := ScopeIP\<rparr>) \<and>
    behaviour p2 = CacheRead_handler enc sha R J (newCacheReadRuntime m (public_read_config (applyPresetOptions opts)))"
proof -
  let ?cfg = "applyPresetOptions opts"
  have inv: "preset_inv ?cfg" using assms(1) by (rule options_inv)
  have names: "trim_space ''RateLimit'' \<noteq> []" "trim_space ''CacheRead'' \<noteq> []" by code_simp+
  have valid: "ValidateRouteMetadata ''GET'' ''/api/v1/public/resource''
      [meta_of PolicyTypeRateLimit ''RateLimit'', (meta_of PolicyTypeCacheRead ''CacheRead'')
        \<lparr>CacheReadMeta := \<lparr>AllowAuthenticated = False, VaryByUserID = False, VaryByIdentityPart = False\<rparr>\<rparr>] = None"
    by code_simp
  have "Rule_Validate ((pc_rateLimitRule ?cfg)\<lparr>rule_Scope := ScopeIP\<rparr>) = None" "0 < pc_cacheTTL ?cfg"
    using inv by (auto simp: preset_inv_def Rule_Validate_def split: if_splits)
  with valid names assms(2-4) show ?thesis
    by (simp add: PublicRead_def RateLimit_def RateLimitWithKeyer_def CacheRead_def public_read_config_def empty_vary_def
        built_def annotatePolicy_def policyPointer_def meta_of_def mustValidatePreset_def DescribePolicies_def
        DescribePolicy_def HasIdentityPart_def Let_def)
qed

theorem public_read_registers_witness:
  "\<exists>p1 p2 t'. PublicRead (\<lambda>e. []) (\<lambda>s. s) mem_redis sample_codec
     [Some (WithRateLimit (- 5) second), None, Some (WithLimiter (Some (RedisLimiter_Allow mem_redis sample_limiter))),
      Some (WithCacheManager (Some sample_manager))] Map.empty = Inr ([Some p1, Some p2], t')"
proof -
  let ?opts = "[Some (WithRateLimit (- 5) second), None,
    Some (WithLimiter (Some (RedisLimiter_Allow mem_redis sample_limiter))), Some (WithCacheManager (Some sample_manager))]"
  have v: "validateCacheTagSpecs [resource_spec] False = None" by code_simp
  have "pc_limiter (applyPresetOptions ?opts) = Some (RedisLimiter_Allow mem_redis sample_limiter)"
      "pc_cacheManager (applyPresetOptions ?opts) = Some sample_manager"
      "pc_cacheTagSpecs (applyPresetOptions ?opts) = [resource_spec]"
    by (simp_all add: applyPresetOptions_def defaultPresetConfig_def WithRateLimit_def WithLimiter_def WithCacheManager_def)
  moreover have "\<forall>f. Some f \<in> set ?opts \<longrightarrow> exported f" by (auto intro: exported.intros)
  ultimately show ?thesis using public_read_registers [of ?opts] v by fastforce
qed

lemma strict_kept: "exported f \<Longrightarrow> pc_strictAuth cfg \<Longrightarrow> pc_strictAuth (f cfg)"
  by (induction rule: exported.induct)
    (simp_all add: WithAuthEngine_def WithLimiter_def WithCacheManager_def WithCache_def WithRateLimit_def
      WithStrictAuth_def WithInvalidateTags_def WithCacheVaryBy_def Let_def)

lemma strict_set: "pc_strictAuth (WithStrictAuth cfg)"
  by (simp add: WithStrictAuth_def)

lemma strict_fold:
  "\<forall>f. Some f \<in> set opts \<longrightarrow> exported f \<Longrightarrow> pc_strictAuth cfg \<or> Some WithStrictAuth \<in> set opts \<Longrightarrow>
     pc_strictAuth (fold (\<lambda>opt cfg. case opt of None \<Rightarrow> cfg | Some f \<Rightarrow> f cfg) opts cfg)"
proof (induction opts arbitrary: cfg)
  case (Cons o' opts)
  have "pc_strictAuth (case o' of None \<Rightarrow> cfg | Some f \<Rightarrow> f cfg) \<or> Some WithStrictAuth \<in> set opts"
    using Cons.prems strict_set [of cfg] by (auto simp: strict_kept split: option.splits)
  moreover have "\<forall>f. Some f \<in> set opts \<longrightarrow> exported f" using Cons.prems(1) by simp
  ultimately show ?case using Cons.IH by simp
qed simp

text \<open>
  strict authentication cannot be undone. If \<open>WithStrictAuth\<close> is anywhere among the options of a
  preset, the resolved mode is strict, whatever \<open>WithAuthEngine\<close> says before or after it.
\<close>

theorem strict_auth_wins:
  assumes "\<forall>f. Some f \<in> set opts \<longrightarrow> exported f" and "Some WithStrictAuth \<in> set opts"
  shows "ps_AuthMode (ResolvePreset opts) = ModeStrict"
  using strict_fold [OF assms(1), of defaultPresetConfig] assms(2)
  by (simp add: ResolvePreset_def applyPresetOptions_def Let_def)

theorem strict_auth_wins_witness:
  "ps_AuthMode (ResolvePreset [Some WithStrictAuth, Some (WithAuthEngine (Some 1) ModeJWTOnly)] :: mem PresetSettings) = ModeStrict"
  by (rule strict_auth_wins) (auto intro: exported.intros)

end
