(* ===== verification/Tenant_Cache.thy ===== *)
theory Tenant_Cache
  imports Prelude
begin

text \<open>
  The in-process tenant validation cache of \<open>internal/tenancy/cache.go\<close>: two bounded LRU
  segments with a deadline per entry.

  Of \<open>ttlLRU\<close> the model keeps the recency list, front first. The Go map \<open>items\<close> is the index of
  that list by key: it is written only together with the list, and a lookup in it is the search
  for the key. The clock reading is an argument.
\<close>

section \<open>Segments\<close>

record lruEntry =
  le_key :: string
  le_value :: string
  le_expires :: int

record ttlLRU =
  lru_max :: nat
  lru_ttl :: int
  lru_order :: "lruEntry list"

definition newTTLLRU :: "int \<Rightarrow> int \<Rightarrow> ttlLRU" where
  "newTTLLRU mx ttl = \<lparr>lru_max = (if mx < 1 then 1 else nat mx), lru_ttl = ttl, lru_order = []\<rparr>"

definition lru_find :: "string \<Rightarrow> ttlLRU \<Rightarrow> lruEntry option" where
  "lru_find key l = List.find (\<lambda>e. le_key e = key) (lru_order l)"

text \<open>\<open>removeElement\<close>, by the key of the element.\<close>

definition removeElement :: "string \<Rightarrow> ttlLRU \<Rightarrow> ttlLRU" where
  "removeElement key l = l\<lparr>lru_order := filter (\<lambda>e. le_key e \<noteq> key) (lru_order l)\<rparr>"

definition lru_get :: "int \<Rightarrow> string \<Rightarrow> ttlLRU \<Rightarrow> string option \<times> ttlLRU" where
  "lru_get t key l =
     (case lru_find key l of
        None \<Rightarrow> (None, l)
      | Some e \<Rightarrow>
          if t > le_expires e then (None, removeElement key l)
          else (Some (le_value e), l\<lparr>lru_order := e # lru_order (removeElement key l)\<rparr>))"

text \<open>The eviction loop of \<open>put\<close>: remove the back while the list is over capacity.\<close>

function evict :: "nat \<Rightarrow> lruEntry list \<Rightarrow> lruEntry list" where
  "evict mx es = (if length es > mx then evict mx (butlast es) else es)"
  by pat_completeness auto
termination by (relation "measure (\<lambda>(mx, es). length es)") auto

declare evict.simps [simp del]

definition lru_put :: "int \<Rightarrow> string \<Rightarrow> string \<Rightarrow> ttlLRU \<Rightarrow> ttlLRU" where
  "lru_put t key value l =
     (let e = \<lparr>le_key = key, le_value = value, le_expires = t + lru_ttl l\<rparr> in
      case lru_find key l of
        Some old \<Rightarrow> l\<lparr>lru_order := e # lru_order (removeElement key l)\<rparr>
      | None \<Rightarrow> l\<lparr>lru_order := evict (lru_max l) (e # lru_order l)\<rparr>)"

definition lru_remove :: "string \<Rightarrow> ttlLRU \<Rightarrow> ttlLRU" where
  "lru_remove key l = (case lru_find key l of None \<Rightarrow> l | Some e \<Rightarrow> removeElement key l)"

definition lru_len :: "ttlLRU \<Rightarrow> nat" where
  "lru_len l = length (lru_order l)"

section \<open>The two-segment cache\<close>

definition negativeTTL :: "int \<Rightarrow> int" where
  "negativeTTL positive =
     (let t1 = positive div 4;
          t2 = (if t1 < second then second else t1)
      in if t2 > positive then positive else t2)"

record cachedTenant =
  ct_ID :: string
  ct_Active :: bool

record validationCache =
  vc_active :: ttlLRU
  vc_inactive :: ttlLRU

definition newValidationCacheSized :: "int \<Rightarrow> int \<Rightarrow> int \<Rightarrow> validationCache" where
  "newValidationCacheSized ttl maxActive maxInactive =
     \<lparr>vc_active = newTTLLRU maxActive ttl, vc_inactive = newTTLLRU maxInactive (negativeTTL ttl)\<rparr>"

definition newValidationCache :: "int \<Rightarrow> validationCache" where
  "newValidationCache ttl = newValidationCacheSized ttl 10000 1000"

definition cacheKey :: "string \<Rightarrow> string \<Rightarrow> string" where
  "cacheKey resolver value = resolver @ '':'' @ value"

definition vc_get :: "int \<Rightarrow> string \<Rightarrow> validationCache option \<Rightarrow> cachedTenant option \<times> validationCache option" where
  "vc_get t key c =
     (case c of
        None \<Rightarrow> (None, None)
      | Some vc \<Rightarrow>
          (case lru_get t key (vc_active vc) of
             (Some i, a) \<Rightarrow> (Some \<lparr>ct_ID = i, ct_Active = True\<rparr>, Some (vc\<lparr>vc_active := a\<rparr>))
           | (None, a) \<Rightarrow>
               (case lru_get t key (vc_inactive vc) of
                  (Some i, n) \<Rightarrow> (Some \<lparr>ct_ID = i, ct_Active = False\<rparr>, Some \<lparr>vc_active = a, vc_inactive = n\<rparr>)
                | (None, n) \<Rightarrow> (None, Some \<lparr>vc_active = a, vc_inactive = n\<rparr>))))"

definition vc_put :: "int \<Rightarrow> string \<Rightarrow> cachedTenant \<Rightarrow> validationCache option \<Rightarrow> validationCache option" where
  "vc_put t key v c =
     (case c of
        None \<Rightarrow> None
      | Some vc \<Rightarrow>
          Some (if ct_Active v
                then \<lparr>vc_active = lru_put t key (ct_ID v) (vc_active vc), vc_inactive = lru_remove key (vc_inactive vc)\<rparr>
                else \<lparr>vc_active = lru_remove key (vc_active vc), vc_inactive = lru_put t key (ct_ID v) (vc_inactive vc)\<rparr>))"

section \<open>Invariants of a segment\<close>

definition lru_inv :: "ttlLRU \<Rightarrow> bool" where
  "lru_inv l \<longleftrightarrow> distinct (map le_key (lru_order l)) \<and> lru_len l \<le> lru_max l \<and> 1 \<le> lru_max l"

lemma evict_take: "evict mx es = take mx es"
proof (induction mx es rule: evict.induct)
  case (1 mx es)
  show ?case
  proof (cases "length es > mx")
    case True
    then have "take mx (butlast es) = take mx es" by (simp add: take_butlast)
    with 1 True show ?thesis by (subst evict.simps) simp
  next
    case False
    then show ?thesis by (subst evict.simps) simp
  qed
qed

lemma newTTLLRU_inv: "lru_inv (newTTLLRU mx ttl)"
  by (auto simp: lru_inv_def newTTLLRU_def lru_len_def)

lemma lru_find_Some: "lru_find key l = Some e \<Longrightarrow> e \<in> set (lru_order l) \<and> le_key e = key"
  by (auto simp: lru_find_def find_Some_iff)

lemma lru_find_None: "lru_find key l = None \<longleftrightarrow> key \<notin> le_key ` set (lru_order l)"
  by (auto simp: lru_find_def find_None_iff)

lemma distinct_filter_keys: "distinct (map f xs) \<Longrightarrow> distinct (map f (filter P xs))"
  by (induction xs) auto

lemma filter_shorter: "e \<in> set xs \<Longrightarrow> \<not> P e \<Longrightarrow> Suc (length (filter P xs)) \<le> length xs"
  by (metis Suc_leI length_filter_less)

lemma removeElement_inv: "lru_inv l \<Longrightarrow> lru_inv (removeElement key l)"
  by (auto simp: lru_inv_def removeElement_def lru_len_def distinct_filter_keys intro: le_trans [OF length_filter_le])

text \<open>Moving the entry of a key to the front, possibly with new contents.\<close>

lemma refront_inv:
  assumes "lru_inv l" and "lru_find key l = Some old" and "le_key e = key"
  shows "lru_inv (l\<lparr>lru_order := e # lru_order (removeElement key l)\<rparr>)"
proof -
  have "old \<in> set (lru_order l)" "le_key old = key" using lru_find_Some [OF assms(2)] by simp_all
  then have "Suc (length (filter (\<lambda>e. le_key e \<noteq> key) (lru_order l))) \<le> length (lru_order l)"
    by (intro filter_shorter) simp_all
  then show ?thesis
    using assms(1,3) by (auto simp: lru_inv_def removeElement_def lru_len_def distinct_filter_keys)
qed

lemma lru_get_inv: "lru_inv l \<Longrightarrow> lru_inv (snd (lru_get t key l))"
  using refront_inv [of l key] lru_find_Some [of key l]
  by (auto simp: lru_get_def removeElement_inv split: option.splits)

lemma lru_put_inv:
  assumes "lru_inv l"
  shows "lru_inv (lru_put t key value l)"
proof (cases "lru_find key l")
  case None
  then have "distinct (map le_key (\<lparr>le_key = key, le_value = value, le_expires = t + lru_ttl l\<rparr> # lru_order l))"
    using assms by (auto simp: lru_inv_def lru_find_None)
  with None assms show ?thesis
    by (auto simp: lru_put_def Let_def evict_take lru_inv_def lru_len_def simp flip: take_map
        intro: distinct_take simp del: distinct.simps list.map)
next
  case (Some old)
  then show ?thesis using refront_inv [OF assms Some] by (simp add: lru_put_def Let_def)
qed

lemma lru_remove_inv: "lru_inv l \<Longrightarrow> lru_inv (lru_remove key l)"
  by (simp add: lru_remove_def removeElement_inv split: option.splits)

lemmas lru_invs = newTTLLRU_inv lru_get_inv lru_put_inv lru_remove_inv

datatype lru_op = LGet int string | LPut int string string | LRemove string

fun lru_apply :: "lru_op \<Rightarrow> ttlLRU \<Rightarrow> ttlLRU" where
  "lru_apply (LGet t k) l = snd (lru_get t k l)"
| "lru_apply (LPut t k v) l = lru_put t k v l"
| "lru_apply (LRemove k) l = lru_remove k l"

lemma lru_apply_inv: "lru_inv l \<Longrightarrow> lru_inv (lru_apply x l)"
  by (cases x) (simp_all add: lru_invs)

lemma lru_fold_inv: "lru_inv l \<Longrightarrow> lru_inv (fold lru_apply xs l)"
  by (induction xs arbitrary: l) (simp_all add: lru_apply_inv)

lemma lru_put_find:
  assumes "lru_inv l"
  shows "lru_find key (lru_put t key value l) = Some \<lparr>le_key = key, le_value = value, le_expires = t + lru_ttl l\<rparr>"
proof -
  obtain n where "lru_max l = Suc n" using assms by (cases "lru_max l") (auto simp: lru_inv_def)
  then show ?thesis by (auto simp: lru_put_def lru_find_def Let_def evict_take split: option.splits)
qed

lemma lru_ttl_put [simp]: "lru_ttl (lru_put t k v l) = lru_ttl l"
  by (simp add: lru_put_def Let_def split: option.splits)

text \<open>
  a segment stays well formed and bounded. Whatever sequence of gets, puts and removes it
  sees, at any clock readings, it holds at most one entry per key and never more than its
  capacity (at least one); what was just put is found until its deadline, under its new value.
\<close>

theorem lru_bounded:
  "lru_len (fold lru_apply xs (newTTLLRU mx ttl)) \<le> max 1 (nat mx) \<and>
   distinct (map le_key (lru_order (fold lru_apply xs (newTTLLRU mx ttl)))) \<and>
   (t' \<le> t + lru_ttl (fold lru_apply xs (newTTLLRU mx ttl)) \<longrightarrow>
      fst (lru_get t' key (lru_put t key value (fold lru_apply xs (newTTLLRU mx ttl)))) = Some value)"
proof -
  let ?l = "fold lru_apply xs (newTTLLRU mx ttl)"
  have inv: "lru_inv ?l" by (intro lru_fold_inv newTTLLRU_inv)
  have keep: "lru_max (lru_apply x l) = lru_max l" for x l
    by (cases x) (simp_all add: lru_get_def lru_put_def lru_remove_def removeElement_def Let_def split: option.splits)
  have "lru_max (fold lru_apply xs l) = lru_max l" for l
    by (induction xs arbitrary: l) (simp_all add: keep)
  then have "lru_max ?l = max 1 (nat mx)" by (simp add: newTTLLRU_def)
  moreover have "fst (lru_get t' key (lru_put t key value ?l)) = Some value" if "t' \<le> t + lru_ttl ?l"
    using that by (simp add: lru_get_def lru_put_find [OF inv])
  ultimately show ?thesis using inv by (auto simp: lru_inv_def)
qed

theorem lru_bounded_witness:
  "fst (lru_get 5 ''b'' (lru_put 1 ''b'' ''2'' (fold lru_apply [LPut 0 ''a'' ''1''] (newTTLLRU 1 10)))) = Some ''2''"
  using conjunct2 [OF conjunct2 [OF lru_bounded [of "[LPut 0 ''a'' ''1'']" 1 10 5 1 "''b''" "''2''"]]]
  by (simp add: newTTLLRU_def)

section \<open>Read-through caches with a deadline\<close>

text \<open>
  The contract between a cache and a client that reads through it: a hit is a stored entry that
  is still alive, a get stores nothing, and a put stores its value with a deadline at most
  \<open>ttl\<close> ahead. What a client may conclude is the staleness bound below.
\<close>

type_synonym ('v, 'c) getter = "int \<Rightarrow> string \<Rightarrow> 'c \<Rightarrow> 'v option \<times> 'c"
type_synonym ('v, 'c) putter = "int \<Rightarrow> string \<Rightarrow> 'v \<Rightarrow> 'c \<Rightarrow> 'c"

definition read_through :: "('v, 'c) getter \<Rightarrow> ('v, 'c) putter \<Rightarrow> int \<Rightarrow> string \<Rightarrow> 'v option \<Rightarrow> 'c \<Rightarrow> 'v option \<times> 'c" where
  "read_through get put t key fresh c =
     (case get t key c of
        (Some v, c') \<Rightarrow> (Some v, c')
      | (None, c') \<Rightarrow> (case fresh of None \<Rightarrow> (None, c') | Some v \<Rightarrow> (Some v, put t key v c')))"

text \<open>A system: the clock, the source the cache reads from, the cache, and the past sources with their times.\<close>

record ('v, 'c) cached_system =
  cs_now :: int
  cs_source :: "string \<Rightarrow> 'v option"
  cs_cache :: 'c
  cs_past :: "(int \<times> (string \<Rightarrow> 'v option)) list"

inductive cached_step :: "('v, 'c) getter \<Rightarrow> ('v, 'c) putter \<Rightarrow> ('v, 'c) cached_system \<Rightarrow> ('v, 'c) cached_system \<Rightarrow> bool"
  for get :: "('v, 'c) getter" and put :: "('v, 'c) putter" where
  lookup: "cached_step get put s
     (s\<lparr>cs_cache := snd (read_through get put (cs_now s) key (cs_source s key) (cs_cache s)),
        cs_past := (cs_now s, cs_source s) # cs_past s\<rparr>)"
| change: "cached_step get put s (s\<lparr>cs_source := f, cs_past := (cs_now s, cs_source s) # cs_past s\<rparr>)"
| tick: "0 \<le> d \<Longrightarrow> cached_step get put s (s\<lparr>cs_now := cs_now s + d, cs_past := (cs_now s, cs_source s) # cs_past s\<rparr>)"

inductive cached_reach :: "('v, 'c) getter \<Rightarrow> ('v, 'c) putter \<Rightarrow> 'c \<Rightarrow> ('v, 'c) cached_system \<Rightarrow> bool"
  for get :: "('v, 'c) getter" and put :: "('v, 'c) putter" and c0 :: 'c where
  start: "cached_reach get put c0 \<lparr>cs_now = t, cs_source = f, cs_cache = c0, cs_past = []\<rparr>"
| step: "cached_reach get put c0 s \<Longrightarrow> cached_step get put s s' \<Longrightarrow> cached_reach get put c0 s'"

definition moments :: "('v, 'c) cached_system \<Rightarrow> (int \<times> (string \<Rightarrow> 'v option)) set" where
  "moments s = insert (cs_now s, cs_source s) (set (cs_past s))"

locale ttl_cache =
  fixes entries :: "'c \<Rightarrow> (string \<times> 'v \<times> int) set" and inv :: "'c \<Rightarrow> bool"
    and get :: "('v, 'c) getter" and put :: "('v, 'c) putter" and ttl :: int
  assumes get_inv: "inv c \<Longrightarrow> inv (snd (get t k c))"
    and put_inv: "inv c \<Longrightarrow> inv (put t k v c)"
    and get_live: "get t k c = (Some v, c') \<Longrightarrow> \<exists>e. (k, v, e) \<in> entries c \<and> t \<le> e"
    and get_old: "entries (snd (get t k c)) \<subseteq> entries c"
    and put_new: "inv c \<Longrightarrow> \<exists>e \<le> t + ttl. entries (put t k v c) \<subseteq> insert (k, v, e) (entries c)"
begin

definition fresh_entries :: "('v, 'c) cached_system \<Rightarrow> bool" where
  "fresh_entries s \<longleftrightarrow> inv (cs_cache s) \<and> (\<forall>h \<in> set (cs_past s). fst h \<le> cs_now s) \<and>
     (\<forall>(k, v, e) \<in> entries (cs_cache s). \<exists>(t0, f) \<in> moments s. e \<le> t0 + ttl \<and> f k = Some v)"

lemma read_through_old:
  assumes "inv c" and "(k', v, e) \<in> entries (snd (read_through get put t k src c))"
  shows "(k', v, e) \<in> entries c \<or> (k' = k \<and> e \<le> t + ttl \<and> src = Some v)"
proof -
  obtain r c' where g: "get t k c = (r, c')" by (cases "get t k c")
  have sub: "entries c' \<subseteq> entries c" and inv': "inv c'"
    using get_old [of t k c] get_inv [OF assms(1), of t k] by (simp_all add: g)
  show ?thesis
  proof (cases "r = None \<and> src \<noteq> None")
    case True
    then obtain v' where v': "src = Some v'" by auto
    obtain e' where "e' \<le> t + ttl" "entries (put t k v' c') \<subseteq> insert (k, v', e') (entries c')"
      using put_new [OF inv'] by blast
    with True v' assms(2) sub show ?thesis by (auto simp: read_through_def g)
  next
    case False
    with assms(2) sub show ?thesis by (auto simp: read_through_def g split: option.splits)
  qed
qed

lemma read_through_inv: "inv c \<Longrightarrow> inv (snd (read_through get put t k src c))"
  using get_inv [of c t k] by (auto simp: read_through_def put_inv split: option.splits prod.splits)

lemma step_fresh: "cached_step get put s s' \<Longrightarrow> fresh_entries s \<Longrightarrow> fresh_entries s'"
proof (induction rule: cached_step.induct)
  case (lookup s key)
  let ?c = "snd (read_through get put (cs_now s) key (cs_source s key) (cs_cache s))"
  have "\<exists>(t0, f) \<in> moments s. e \<le> t0 + ttl \<and> f k = Some v" if "(k, v, e) \<in> entries ?c" for k v e
  proof -
    have "(k, v, e) \<in> entries (cs_cache s) \<or> (k = key \<and> e \<le> cs_now s + ttl \<and> cs_source s key = Some v)"
      using read_through_old [OF _ that] lookup by (simp add: fresh_entries_def)
    then show ?thesis using lookup by (auto simp: fresh_entries_def moments_def)
  qed
  then show ?case using lookup by (auto simp: fresh_entries_def moments_def read_through_inv)
next
  case (change s f)
  then show ?case by (fastforce simp: fresh_entries_def moments_def)
next
  case (tick d s)
  then show ?case by (fastforce simp: fresh_entries_def moments_def)
qed

lemma reach_fresh:
  assumes "inv c0" and "entries c0 = {}" and "cached_reach get put c0 s"
  shows "fresh_entries s"
  using assms(3)
proof (induction rule: cached_reach.induct)
  case (start t f)
  then show ?case using assms by (simp add: fresh_entries_def)
next
  case (step s s')
  then show ?case by (blast intro: step_fresh)
qed

lemma bounded_staleness:
  assumes "inv c0" and "entries c0 = {}" and "cached_reach get put c0 s" and "0 \<le> ttl"
    and "fst (read_through get put (cs_now s) key (cs_source s key) (cs_cache s)) = Some v"
  shows "\<exists>(t0, f) \<in> moments s. cs_now s \<le> t0 + ttl \<and> f key = Some v"
proof -
  have fr: "fresh_entries s" by (rule reach_fresh [OF assms(1-3)])
  obtain r c' where g: "get (cs_now s) key (cs_cache s) = (r, c')" by fastforce
  show ?thesis
  proof (cases r)
    case None
    with assms(5) g have "cs_source s key = Some v" by (auto simp: read_through_def split: option.splits)
    with assms(4) show ?thesis by (auto simp: moments_def)
  next
    case (Some v')
    with assms(5) g have "v' = v" by (simp add: read_through_def)
    with Some get_live g obtain e where e: "(key, v, e) \<in> entries (cs_cache s)" "cs_now s \<le> e" by blast
    from fr have "\<forall>(k, v, e) \<in> entries (cs_cache s). \<exists>(t0, f) \<in> moments s. e \<le> t0 + ttl \<and> f k = Some v"
      by (simp add: fresh_entries_def)
    from bspec [OF this e(1)] e(2) show ?thesis by (force intro: order_trans)
  qed
qed

end

section \<open>The validation cache as a read-through cache\<close>

definition seg_entries :: "bool \<Rightarrow> ttlLRU \<Rightarrow> (string \<times> cachedTenant \<times> int) set" where
  "seg_entries active l = (\<lambda>e. (le_key e, \<lparr>ct_ID = le_value e, ct_Active = active\<rparr>, le_expires e)) ` set (lru_order l)"

definition vc_entries :: "validationCache option \<Rightarrow> (string \<times> cachedTenant \<times> int) set" where
  "vc_entries c = (case c of None \<Rightarrow> {} | Some vc \<Rightarrow> seg_entries True (vc_active vc) \<union> seg_entries False (vc_inactive vc))"

definition vc_inv :: "int \<Rightarrow> validationCache option \<Rightarrow> bool" where
  "vc_inv ttl c \<longleftrightarrow> (\<forall>vc. c = Some vc \<longrightarrow> lru_inv (vc_active vc) \<and> lru_inv (vc_inactive vc) \<and>
     lru_ttl (vc_active vc) \<le> ttl \<and> lru_ttl (vc_inactive vc) \<le> ttl)"

lemma lru_ttl_kept [simp]:
  "lru_ttl (snd (lru_get t k l)) = lru_ttl l" "lru_ttl (lru_remove k l) = lru_ttl l"
  by (simp_all add: lru_get_def lru_remove_def removeElement_def split: option.splits)

lemma removeElement_entries: "seg_entries a (removeElement k l) \<subseteq> seg_entries a l"
  by (auto simp: seg_entries_def removeElement_def)

lemma lru_remove_entries: "seg_entries a (lru_remove k l) \<subseteq> seg_entries a l"
  using removeElement_entries by (simp add: lru_remove_def split: option.splits)

lemma lru_get_entries: "seg_entries a (snd (lru_get t k l)) \<subseteq> seg_entries a l"
  using lru_find_Some [of k l] by (auto simp: lru_get_def seg_entries_def removeElement_def split: option.splits)

lemma lru_getD:
  assumes "lru_get t k l = (r, l')"
  shows "lru_inv l \<Longrightarrow> lru_inv l'" and "lru_ttl l' = lru_ttl l" and "seg_entries a l' \<subseteq> seg_entries a l"
  using lru_get_inv [of l t k] lru_ttl_kept(1) [of t k l] lru_get_entries [of a t k l] by (simp_all add: assms)

lemma lru_get_hit:
  "lru_get t k l = (Some v, l') \<Longrightarrow> \<exists>e. (k, \<lparr>ct_ID = v, ct_Active = a\<rparr>, e) \<in> seg_entries a l \<and> t \<le> e"
  using lru_find_Some [of k l] by (force simp: lru_get_def seg_entries_def split: option.splits if_splits)

lemma lru_put_entries:
  "seg_entries a (lru_put t k v l) \<subseteq> insert (k, \<lparr>ct_ID = v, ct_Active = a\<rparr>, t + lru_ttl l) (seg_entries a l)"
  by (auto simp: lru_put_def seg_entries_def removeElement_def evict_take Let_def dest!: in_set_takeD split: option.splits)

lemma negativeTTL_le: "negativeTTL ttl \<le> ttl"
  by (simp add: negativeTTL_def Let_def)

lemma negativeTTL_pos: "0 < ttl \<Longrightarrow> 0 < negativeTTL ttl"
  by (simp add: negativeTTL_def Let_def)

interpretation tenants: ttl_cache vc_entries "vc_inv ttl" vc_get vc_put ttl for ttl
proof
  fix c :: "validationCache option" and t k v
  show "vc_inv ttl (snd (vc_get t k c))" if "vc_inv ttl c"
    using that by (auto simp: vc_inv_def vc_get_def split: option.splits prod.splits dest: lru_getD)
  show "vc_inv ttl (vc_put t k v c)" if "vc_inv ttl c"
    using that by (auto simp: vc_inv_def vc_put_def lru_put_inv lru_remove_inv split: option.splits)
  show "\<exists>e. (k, v, e) \<in> vc_entries c \<and> t \<le> e" if "vc_get t k c = (Some v, c')" for c'
    using that lru_get_hit [of t k] by (fastforce simp: vc_get_def vc_entries_def split: option.splits prod.splits)
  show "vc_entries (snd (vc_get t k c)) \<subseteq> vc_entries c"
    by (auto simp: vc_get_def vc_entries_def split: option.splits prod.splits dest: lru_getD(3) [THEN subsetD])
  show "\<exists>e \<le> t + ttl. vc_entries (vc_put t k v c) \<subseteq> insert (k, v, e) (vc_entries c)" if "vc_inv ttl c"
  proof (cases c)
    case (Some vc)
    let ?e = "t + lru_ttl (if ct_Active v then vc_active vc else vc_inactive vc)"
    have "?e \<le> t + ttl" using that Some by (auto simp: vc_inv_def)
    moreover have "vc_entries (vc_put t k v c) \<subseteq> insert (k, v, ?e) (vc_entries c)"
      using lru_put_entries [of True t k "ct_ID v" "vc_active vc"] lru_remove_entries [of False k "vc_inactive vc"]
        lru_put_entries [of False t k "ct_ID v" "vc_inactive vc"] lru_remove_entries [of True k "vc_active vc"]
      by (cases v; cases "ct_Active v") (auto simp: Some vc_put_def vc_entries_def)
    ultimately show ?thesis by blast
  qed (auto simp: vc_put_def vc_entries_def intro: exI [of _ "t + ttl"])
qed

section \<open>Floods of unknown tenants\<close>

text \<open>What requests for made-up tenants do to the cache: lookups, and negative results for other keys.\<close>

datatype flood_op = FLookup int string | FNegative int string string

fun flood :: "flood_op \<Rightarrow> validationCache \<Rightarrow> validationCache" where
  "flood (FLookup t k) c = the (snd (vc_get t k (Some c)))"
| "flood (FNegative t k i) c = the (vc_put t k \<lparr>ct_ID = i, ct_Active = False\<rparr> (Some c))"

fun flood_time :: "flood_op \<Rightarrow> int" where
  "flood_time (FLookup t k) = t"
| "flood_time (FNegative t k i) = t"

fun flood_negative :: "flood_op \<Rightarrow> string option" where
  "flood_negative (FLookup t k) = None"
| "flood_negative (FNegative t k i) = Some k"

lemma removeElement_keeps: "e \<in> set (lru_order l) \<Longrightarrow> le_key e \<noteq> k \<Longrightarrow> e \<in> set (lru_order (removeElement k l))"
  by (simp add: removeElement_def)

lemma lru_get_keeps:
  assumes "lru_inv l" and "e \<in> set (lru_order l)" and "t \<le> le_expires e"
  shows "e \<in> set (lru_order (snd (lru_get t k l)))"
proof (cases "lru_find k l")
  case (Some e')
  have "e' = e" if "le_key e = k"
    using lru_find_Some [OF Some] assms(1,2) that by (auto simp: lru_inv_def distinct_map inj_on_def)
  with Some assms show ?thesis by (auto simp: lru_get_def removeElement_def)
qed (use assms in \<open>simp add: lru_get_def\<close>)

lemma flood_keeps:
  assumes "lru_inv (vc_active c)" and "e \<in> set (lru_order (vc_active c))"
    and "flood_time x \<le> le_expires e" and "flood_negative x \<noteq> Some (le_key e)"
  shows "lru_inv (vc_active (flood x c)) \<and> e \<in> set (lru_order (vc_active (flood x c)))"
proof (cases x)
  case (FLookup t k)
  then have "lru_inv (snd (lru_get t k (vc_active c)))" "e \<in> set (lru_order (snd (lru_get t k (vc_active c))))"
    using assms lru_get_inv lru_get_keeps by simp_all
  then show ?thesis using FLookup by (auto simp: vc_get_def split: prod.splits option.splits)
next
  case (FNegative t k i)
  then show ?thesis
    using assms by (auto simp: vc_put_def lru_remove_def removeElement_inv removeElement_keeps split: option.splits)
qed

text \<open>
  a flood of made-up tenants cannot push real tenants out of the cache. However many lookups
  and negative results for other keys are recorded, an active entry stays in the cache until its
  own deadline: unlike positive results, negative ones evict only negative ones.
\<close>

theorem flood_spares_active:
  assumes "lru_inv (vc_active c)" and "e \<in> set (lru_order (vc_active c))"
    and "\<forall>x \<in> set xs. flood_time x \<le> le_expires e \<and> flood_negative x \<noteq> Some (le_key e)"
    and "t \<le> le_expires e"
  shows "fst (vc_get t (le_key e) (Some (fold flood xs c))) = Some \<lparr>ct_ID = le_value e, ct_Active = True\<rparr>"
proof -
  have kept: "lru_inv (vc_active (fold flood xs c)) \<and> e \<in> set (lru_order (vc_active (fold flood xs c)))"
    using assms(1-3)
  proof (induction xs arbitrary: c)
    case (Cons x xs)
    then have "lru_inv (vc_active (flood x c)) \<and> e \<in> set (lru_order (vc_active (flood x c)))"
      by (intro flood_keeps) simp_all
    with Cons show ?case by simp
  qed simp
  then obtain e' where f: "lru_find (le_key e) (vc_active (fold flood xs c)) = Some e'"
    by (cases "lru_find (le_key e) (vc_active (fold flood xs c))") (auto simp: lru_find_None)
  with kept have "e' = e"
    using lru_find_Some [OF f] by (auto simp: lru_inv_def distinct_map inj_on_def)
  with f assms(4) show ?thesis by (simp add: vc_get_def lru_get_def)
qed

theorem flood_spares_active_witness:
  "fst (vc_get 9 ''header:acme'' (Some (fold flood [FNegative 2 ''header:x'' [], FNegative 3 ''header:y'' []]
     \<lparr>vc_active = lru_put 0 ''header:acme'' ''acme'' (newTTLLRU 1 10), vc_inactive = newTTLLRU 1 2\<rparr>))) =
   Some \<lparr>ct_ID = ''acme'', ct_Active = True\<rparr>"
  using flood_spares_active [of "\<lparr>vc_active = lru_put 0 ''header:acme'' ''acme'' (newTTLLRU 1 10), vc_inactive = newTTLLRU 1 2\<rparr>"
      "\<lparr>le_key = ''header:acme'', le_value = ''acme'', le_expires = 10\<rparr>"
      "[FNegative 2 ''header:x'' [], FNegative 3 ''header:y'' []]" 9]
  by (simp add: lru_put_inv newTTLLRU_inv) (simp add: lru_put_def newTTLLRU_def lru_find_def evict_take)

end
