(* ===== verification/Tenancy.thy ===== *)
theory Tenancy
  imports Presets Tenant_Cache
begin

text \<open>
  The tenancy feature: \<open>internal/tenancy/tenant.go\<close>, \<open>context.go\<close>, \<open>authhook.go\<close>,
  \<open>policies.go\<close>, \<open>rules.go\<close>, \<open>keys.go\<close>, \<open>directory.go\<close>, \<open>resolver.go\<close>, \<open>presets.go\<close> and the
  lint of \<open>config.go\<close>.

  The tenant directory is a database behind an interface: its two lookups are arguments. The
  validation cache of the middleware lives in the service state next to it.
\<close>

section \<open>Tenants of principals and requests\<close>

abbreviation AttrTenantID :: string where "AttrTenantID \<equiv> ''tenant_id''"
abbreviation DefaultTenantID :: string where "DefaultTenantID \<equiv> ''0''"

definition PrincipalTenant :: "AuthContext \<Rightarrow> string" where
  "PrincipalTenant prin = trim_space (AuthContext_Attribute prin AttrTenantID)"

definition TenantIDFromContext :: "request \<Rightarrow> string option" where
  "TenantIDFromContext r =
     (case auth_FromContext r of
        (prin, False) \<Rightarrow> None
      | (prin, True) \<Rightarrow>
          (let tenantID = PrincipalTenant prin in if tenantID = [] then None else Some tenantID))"

definition RequireTenant :: "request \<Rightarrow> go_error option" where
  "RequireTenant r =
     (case TenantIDFromContext r of
        Some t \<Rightarrow> None
      | None \<Rightarrow> Some (apperr_New CodeForbidden 403 ''tenant scope required''))"

definition IsSameTenant :: "string \<Rightarrow> string \<Rightarrow> bool" where
  "IsSameTenant a b \<longleftrightarrow> trim_space a \<noteq> [] \<and> trim_space a = trim_space b"

definition WithRequestTenant :: "request \<Rightarrow> string \<Rightarrow> request" where
  "WithRequestTenant r tenantID0 =
     (let tenantID = trim_space tenantID0 in
      if tenantID = [] then r
      else r\<lparr>ctx_request_tenant := Some tenantID, ctx_goauth_tenant := Some tenantID\<rparr>)"

definition RequestTenantFromContext :: "request \<Rightarrow> string option" where
  "RequestTenantFromContext r =
     (case ctx_request_tenant r of None \<Rightarrow> None | Some t \<Rightarrow> if t = [] then None else Some t)"

definition checkTokenTenant :: "request \<Rightarrow> AuthResult \<Rightarrow> go_error option" where
  "checkTokenTenant r result =
     (case RequestTenantFromContext r of
        Some requestTenant \<Rightarrow>
          if \<not> IsSameTenant (res_TenantID result) requestTenant
          then Some (Plain ''token tenant does not match the request tenant'') else None
      | None \<Rightarrow> None)"

definition tenancy_AuthExtension :: "bool \<Rightarrow> 's AuthExtension" where
  "tenancy_AuthExtension enabled =
     \<lparr>ext_Attribute = Some (\<lambda>result. (AttrTenantID, res_TenantID result)),
      ext_Check = (if enabled then Some (\<lambda>r result w. (checkTokenTenant r result, w)) else None)\<rparr>"

section \<open>Policies\<close>

abbreviation PolicyTypeTenantRequired :: PolicyType where "PolicyTypeTenantRequired \<equiv> ''tenant_required''"
abbreviation PolicyTypeTenantMatchFromPath :: PolicyType where
  "PolicyTypeTenantMatchFromPath \<equiv> ''tenant_match_from_path''"
abbreviation DataPathParam :: string where "DataPathParam \<equiv> ''tenant_path_param''"

abbreviation ptr_TenantRequired :: nat where "ptr_TenantRequired \<equiv> 11"
abbreviation ptr_TenantMatchFromPath :: nat where "ptr_TenantMatchFromPath \<equiv> 12"

definition tenant_not_found :: go_error where
  "tenant_not_found = apperr_New CodeNotFound 404 ''not found''"

definition TenantRequired_handler :: "(Envelope \<Rightarrow> string) \<Rightarrow> 's middleware" where
  "TenantRequired_handler enc next r w =
     (let rid = ctx_request_id r in
      case auth_FromContext r of
        (prin, False) \<Rightarrow> Ret (response_Error enc unauthorized_error rid w)
      | (prin, True) \<Rightarrow>
          if RequireTenant r \<noteq> None
          then Ret (response_Error enc (apperr_New CodeForbidden 403 ''tenant scope required'') rid w)
          else (case RequestTenantFromContext r of
              Some requestTenant \<Rightarrow>
                if \<not> IsSameTenant (PrincipalTenant prin) requestTenant
                then Ret (response_Error enc tenant_not_found rid w) else next r w
            | None \<Rightarrow> next r w))"

definition TenantRequired :: "(Envelope \<Rightarrow> string) \<Rightarrow> policy_table \<Rightarrow> 's middleware policy option \<times> policy_table" where
  "TenantRequired enc =
     built ptr_TenantRequired (TenantRequired_handler enc)
       ((meta_of PolicyTypeTenantRequired ''TenantRequired'')\<lparr>Stage := StageIsolation\<rparr>)"

definition TenantMatchFromPath_handler :: "(Envelope \<Rightarrow> string) \<Rightarrow> string \<Rightarrow> 's middleware" where
  "TenantMatchFromPath_handler enc paramName next r w =
     (let rid = ctx_request_id r in
      case auth_FromContext r of
        (prin, False) \<Rightarrow> Ret (response_Error enc unauthorized_error rid w)
      | (prin, True) \<Rightarrow>
          (let resourceTenant = trim_space (url_param r paramName) in
           if resourceTenant = []
           then Ret (response_Error enc (apperr_New CodeBadRequest 400 (paramName @ '' is required'')) rid w)
           else if PrincipalTenant prin = []
           then Ret (response_Error enc (apperr_New CodeForbidden 403 ''tenant scope required'') rid w)
           else if \<not> IsSameTenant (PrincipalTenant prin) resourceTenant
           then Ret (response_Error enc tenant_not_found rid w)
           else next r w))"

text \<open>\<open>TenantMatchFromPath\<close>; \<open>None\<close> is the panic on a blank parameter name.\<close>

definition TenantMatchFromPath :: "(Envelope \<Rightarrow> string) \<Rightarrow> string \<Rightarrow> policy_table
    \<Rightarrow> ('s middleware policy option \<times> policy_table) option" where
  "TenantMatchFromPath enc paramName0 t =
     (let paramName = trim_space paramName0 in
      if paramName = [] then None
      else Some (built ptr_TenantMatchFromPath (TenantMatchFromPath_handler enc paramName)
             ((meta_of PolicyTypeTenantMatchFromPath ''TenantMatchFromPath'')
                \<lparr>Stage := StageIsolation, Data := [(DataPathParam, paramName)]\<rparr>) t))"

section \<open>The route rule\<close>

abbreviation tenantIDParam :: string where "tenantIDParam \<equiv> ''tenant_id''"

definition patternContainsTenantID :: "string \<Rightarrow> bool" where
  "patternContainsTenantID pattern = contains_str (''{'' @ tenantIDParam @ ''}'') (to_lower (trim_space pattern))"

text \<open>The scan of the metadata: the first index of a type, if any.\<close>

fun first_index :: "PolicyType \<Rightarrow> nat \<Rightarrow> Metadata list \<Rightarrow> nat option" where
  "first_index t i [] = None"
| "first_index t i (m # ms) = (if Type m = t then Some i else first_index t (Suc i) ms)"

definition path_param_of :: "Metadata \<Rightarrow> string" where
  "path_param_of m = (case map_of (Data m) DataPathParam of None \<Rightarrow> [] | Some v \<Rightarrow> v)"

definition tenancy_RouteRule :: "bool \<Rightarrow> RouteRule" where
  "tenancy_RouteRule strictPaths verb pattern metas =
     (let requiredAt = first_index PolicyTypeTenantRequired 0 metas;
          matchAt = first_index PolicyTypeTenantMatchFromPath 0 metas;
          matches = findPolicies metas PolicyTypeTenantMatchFromPath;
          hasAuth = hasPolicyType metas PolicyTypeAuthRequired
      in if requiredAt \<noteq> None \<and> \<not> hasAuth then Some (RuleError (PolicyTypeAuthRequired @ '' is required when RBAC or tenant policies are configured''))
         else if matches \<noteq> [] \<and> requiredAt = None then Some (RuleError (PolicyTypeTenantMatchFromPath @ '' requires '' @ PolicyTypeTenantRequired))
         else if (case (requiredAt, matchAt) of (Some i, Some j) \<Rightarrow> j < i | _ \<Rightarrow> False)
         then Some (RuleError (''policy '' @ PolicyTypeTenantMatchFromPath @ '' must appear after '' @ PolicyTypeTenantRequired))
         else if strictPaths \<and> patternContainsTenantID pattern then
           (if requiredAt = None then Some (RuleError (''route '' @ pattern @ '' requires '' @ PolicyTypeTenantRequired))
            else if matches = [] then Some (RuleError (''route '' @ pattern @ '' requires '' @ PolicyTypeTenantMatchFromPath))
            else if list_ex (\<lambda>m. to_lower (trim_space (path_param_of m)) \<noteq> tenantIDParam) matches
            then Some (RuleError (PolicyTypeTenantMatchFromPath @ '' for route '' @ pattern @ '' must use path param '' @
              [CHR 0x22] @ tenantIDParam @ [CHR 0x22]))
            else None)
         else None)"

section \<open>Keys\<close>

definition CacheVary :: KeyPart where
  "CacheVary = \<lparr>kp_Name = ''tenant'', kp_Extract = Some (\<lambda>r prin. PrincipalTenant prin), kp_Identity = True\<rparr>"

definition CacheTag :: KeyPart where
  "CacheTag = \<lparr>kp_Name = ''tenant'', kp_Extract = Some (\<lambda>r prin. PrincipalTenant prin), kp_Identity = True\<rparr>"

abbreviation ScopeTenant :: Scope where "ScopeTenant \<equiv> ''tenant''"

definition KeyByTenant :: Keyer where
  "KeyByTenant r =
     (let (prin, ok) = auth_FromContext r in
      if \<not> ok \<or> trim_space (PrincipalTenant prin) = [] then (ScopeAnon, ''anonymous'')
      else (ScopeTenant, PrincipalTenant prin))"

definition KeyByUserOrTenantOrTokenHash :: "(string \<Rightarrow> string) \<Rightarrow> int \<Rightarrow> Keyer" where
  "KeyByUserOrTenantOrTokenHash sha prefixLen r =
     (if fst (KeyByUser r) \<noteq> ScopeAnon then KeyByUser r
      else if fst (KeyByTenant r) \<noteq> ScopeAnon then KeyByTenant r
      else if fst (KeyByTokenHash sha prefixLen r) \<noteq> ScopeAnon then KeyByTokenHash sha prefixLen r
      else (ScopeAnon, ''anonymous''))"

section \<open>Resolution\<close>

abbreviation ResolverHeader :: string where "ResolverHeader \<equiv> ''header''"
abbreviation ResolverSubdomain :: string where "ResolverSubdomain \<equiv> ''subdomain''"
abbreviation StatusActive :: string where "StatusActive \<equiv> ''active''"

record TenantRecord =
  tr_ID :: string
  tr_Slug :: string
  tr_Name :: string
  tr_Status :: string

definition tenant_Active :: "TenantRecord \<Rightarrow> bool" where
  "tenant_Active rec \<longleftrightarrow> tr_Status rec = StatusActive"

datatype directory_reply = DirFound TenantRecord | DirNotFound | DirError go_error

record 's Directory =
  dir_Get :: "string \<Rightarrow> 's \<Rightarrow> directory_reply"
  dir_GetBySlug :: "string \<Rightarrow> 's \<Rightarrow> directory_reply"

record ResolverConfig =
  rc_Resolver :: string
  rc_Header :: string
  rc_BaseDomain :: string
  rc_ExemptPaths :: "string list"
  rc_CacheTTL :: int

text \<open>The service state behind a tenant-aware server.\<close>

record 's tenant_svc =
  tv_cache :: "validationCache option"
  tv_rest :: 's

definition NormalizeSlug :: "string \<Rightarrow> string" where
  "NormalizeSlug slug = to_lower (trim_space slug)"

fun tenant_bytes :: "nat \<Rightarrow> string \<Rightarrow> bool" where
  "tenant_bytes i [] = True"
| "tenant_bytes i (c # s) =
     (if (97 \<le> byte c \<and> byte c \<le> 122) \<or> (65 \<le> byte c \<and> byte c \<le> 90) \<or> (48 \<le> byte c \<and> byte c \<le> 57)
         \<or> (i > 0 \<and> (c = CHR ''.'' \<or> c = CHR ''_'' \<or> c = CHR ''-''))
      then tenant_bytes (Suc i) s else False)"

definition ValidTenantID :: "string \<Rightarrow> bool" where
  "ValidTenantID i \<longleftrightarrow> (if i = [] \<or> length i > 64 then False else tenant_bytes 0 i)"

definition ValidSlug :: "string \<Rightarrow> bool" where
  "ValidSlug slug \<longleftrightarrow> slug = to_lower slug \<and> ValidTenantID slug"

definition headerExtractor :: "string \<Rightarrow> request \<Rightarrow> string" where
  "headerExtractor header0 r =
     (let h = trim_space header0; header = (if h = [] then ''X-Tenant-ID'' else h) in
      case header_values (req_header r) header of [v] \<Rightarrow> trim_space v | _ \<Rightarrow> [])"

definition trim_dots :: "string \<Rightarrow> string" where
  "trim_dots s = rev (dropWhile (\<lambda>c. c = CHR ''.'') (rev (dropWhile (\<lambda>c. c = CHR ''.'') s)))"

text \<open>The host of a request without its port and trailing dot, in lower case.\<close>

definition bare_host :: "string \<Rightarrow> string" where
  "bare_host s =
     (let host0 = to_lower (trim_space s);
          host1 = (case SplitHostPort host0 of Some (h, p) \<Rightarrow> h | None \<Rightarrow> host0)
      in trim_suffix host1 ''.'')"

definition subdomainExtractor :: "string \<Rightarrow> request \<Rightarrow> string" where
  "subdomainExtractor baseDomain r =
     (let suffix = ''.'' @ to_lower (trim_dots (trim_space baseDomain));
          host = bare_host (req_host r)
      in if \<not> has_suffix suffix host then []
         else (let label = trim_suffix host suffix in
               if label = [] \<or> CHR ''.'' \<in> set label then [] else label))"

definition lookupTenant :: "'s Directory \<Rightarrow> string \<Rightarrow> string \<Rightarrow> 's tenant_svc world
    \<Rightarrow> (go_error + string \<times> bool) \<times> 's tenant_svc world" where
  "lookupTenant dir resolver value w =
     (let key = cacheKey resolver value; (hit, c1) = vc_get (now w) key (tv_cache (svc w));
          w1 = w\<lparr>svc := (svc w)\<lparr>tv_cache := c1\<rparr>\<rparr>
      in case hit of
           Some h \<Rightarrow> (Inr (ct_ID h, ct_Active h), w1)
         | None \<Rightarrow>
             (case (if resolver = ResolverSubdomain then dir_GetBySlug dir value (tv_rest (svc w1))
                    else dir_Get dir value (tv_rest (svc w1))) of
                DirNotFound \<Rightarrow>
                  (Inr ([], False), w1\<lparr>svc := (svc w1)\<lparr>tv_cache :=
                     vc_put (now w1) key \<lparr>ct_ID = [], ct_Active = False\<rparr> (tv_cache (svc w1))\<rparr>\<rparr>)
              | DirError e \<Rightarrow> (Inl e, w1)
              | DirFound rec \<Rightarrow>
                  (Inr (tr_ID rec, tenant_Active rec), w1\<lparr>svc := (svc w1)\<lparr>tv_cache :=
                     vc_put (now w1) key \<lparr>ct_ID = tr_ID rec, ct_Active = tenant_Active rec\<rparr> (tv_cache (svc w1))\<rparr>\<rparr>)))"

definition tenant_required_error :: go_error where
  "tenant_required_error = apperr_New CodeBadRequest 400 ''tenant required''"

definition tenant_invalid_error :: go_error where
  "tenant_invalid_error = apperr_New CodeBadRequest 400 ''tenant invalid''"

definition tenant_unknown_error :: go_error where
  "tenant_unknown_error = apperr_New CodeNotFound 404 ''tenant not found''"

definition tenant_unavailable_error :: "go_error \<Rightarrow> go_error" where
  "tenant_unavailable_error cause = AppError CodeDependencyFailure 503 ''tenant lookup unavailable'' None (Some cause)"

text \<open>\<open>Middleware\<close>; \<open>dir\<close> is \<open>None\<close> where validation is off. What it computes once: the exempt paths,
  the resolver and its extractor, and the validation cache it starts with.\<close>

definition exempt_paths :: "ResolverConfig \<Rightarrow> string list" where
  "exempt_paths cfg = filter (\<lambda>p. p \<noteq> []) (map trim_space (rc_ExemptPaths cfg))"

definition resolver_of :: "ResolverConfig \<Rightarrow> string" where
  "resolver_of cfg =
     (if equal_fold (trim_space (rc_Resolver cfg)) ResolverSubdomain then ResolverSubdomain else ResolverHeader)"

definition extract_value :: "ResolverConfig \<Rightarrow> request \<Rightarrow> string" where
  "extract_value cfg r =
     (if resolver_of cfg = ResolverSubdomain then subdomainExtractor (rc_BaseDomain cfg) r
      else headerExtractor (rc_Header cfg) r)"

definition initial_cache :: "ResolverConfig \<Rightarrow> 's Directory option \<Rightarrow> validationCache option" where
  "initial_cache cfg dir =
     (if dir \<noteq> None \<and> rc_CacheTTL cfg > 0 then Some (newValidationCache (rc_CacheTTL cfg)) else None)"

definition Middleware :: "(Envelope \<Rightarrow> string) \<Rightarrow> ResolverConfig \<Rightarrow> 's Directory option \<Rightarrow> 's tenant_svc middleware" where
  "Middleware enc cfg dir next r w =
     (let resolver = resolver_of cfg; rid = ctx_request_id r; fail = (\<lambda>e w. Ret (response_Error enc e rid w)) in
      if req_path r \<in> set (exempt_paths cfg) then next r w
      else if extract_value cfg r = [] then fail tenant_required_error w
      else (let value = (if resolver = ResolverSubdomain then NormalizeSlug (extract_value cfg r) else extract_value cfg r) in
        if \<not> (if resolver = ResolverSubdomain then ValidSlug value else ValidTenantID value) then fail tenant_invalid_error w
        else (case dir of
            Some d \<Rightarrow>
              (case lookupTenant d resolver value w of
                 (Inl err, w1) \<Rightarrow> fail (tenant_unavailable_error err) w1
               | (Inr (i, active), w1) \<Rightarrow>
                   if \<not> active then fail tenant_unknown_error w1 else next (WithRequestTenant r i) w1)
          | None \<Rightarrow>
              if resolver = ResolverSubdomain
              then fail (tenant_unavailable_error (Plain
                ''the subdomain resolver needs a tenant directory (TENANCY_VALIDATE=true)'')) w
              else next (WithRequestTenant r value) w)))"

section \<open>Presets\<close>

definition presetVaryBy :: "bool \<Rightarrow> 's PresetSettings \<Rightarrow> CacheVaryBy" where
  "presetVaryBy enabled s =
     (if ps_CacheVaryBySet s then ps_CacheVaryBy s
      else if enabled then empty_vary\<lparr>vb_Parts := [CacheVary]\<rparr>
      else empty_vary\<lparr>vb_UserID := True\<rparr>)"

definition tenant_rule :: "Rule \<Rightarrow> Rule" where
  "tenant_rule rule = rule\<lparr>rule_Scope := ScopeTenant, rule_Keyer := Some KeyByTenant\<rparr>"

definition tenant_read_config :: "bool \<Rightarrow> 's PresetSettings \<Rightarrow> CacheReadConfig" where
  "tenant_read_config enabled s = \<lparr>cr_Key = [], cr_TTL = ps_CacheTTL s, cr_MaxBytes = 0, cr_TagSpecs = ps_CacheTags s,
     cr_Methods = [], cr_CacheStatuses = [], cr_VaryBy = presetVaryBy enabled s, cr_FailOpen = None,
     cr_AllowAuthenticated = ps_CacheAllowAuth s\<rparr>"

text \<open>The head of both presets: authentication, tenant scope and the rate limit.\<close>

definition tenant_head :: "(Envelope \<Rightarrow> string) \<Rightarrow> (string \<Rightarrow> string) \<Rightarrow> 's guard \<Rightarrow> 's ext_table \<Rightarrow> 's PresetSettings
    \<Rightarrow> policy_table \<Rightarrow> preset_panic + ('s middleware policy option list \<times> policy_table)" where
  "tenant_head enc sha guard table s t =
     (let (p1, t1) = AuthRequired enc guard table (ps_AuthEngine s) (ps_AuthMode s) t;
          (p2, t2) = TenantRequired enc t1
      in case RateLimit enc sha (ps_Limiter s) (tenant_rule (ps_RateLimit s)) t2 of
           Inl e \<Rightarrow> Inl (PolicyPanic e)
         | Inr (p3, t3) \<Rightarrow> Inr ([p1, p2, p3], t3))"

definition TenantRead :: "(Envelope \<Rightarrow> string) \<Rightarrow> (string \<Rightarrow> string) \<Rightarrow> 's redis \<Rightarrow> json_codec \<Rightarrow> 's guard \<Rightarrow> 's ext_table
    \<Rightarrow> bool \<Rightarrow> 's PresetOption option list \<Rightarrow> policy_table
    \<Rightarrow> preset_panic + ('s middleware policy option list \<times> policy_table)" where
  "TenantRead enc sha R J guard table enabled opts t =
     (let s = ResolvePreset opts in
      case Require s ''TenantRead'' True True True of
        Some e \<Rightarrow> Inl e
      | None \<Rightarrow>
          (case tenant_head enc sha guard table s t of
             Inl e \<Rightarrow> Inl e
           | Inr (ps, t1) \<Rightarrow>
               (case CacheRead enc sha R J (ps_CacheManager s) (tenant_read_config enabled s) t1 of
                  Inl e \<Rightarrow> Inl (CachePanic e)
                | Inr (p, t2) \<Rightarrow>
                    (case MustValidatePreset t2 ''TenantRead'' ''GET'' ''/api/v1/resource/{id}''
                            [Some (tenancy_RouteRule enabled)] (ps @ [p]) of
                       Some e \<Rightarrow> Inl e
                     | None \<Rightarrow> Inr (ps @ [p], t2)))))"

definition TenantWrite :: "(Envelope \<Rightarrow> string) \<Rightarrow> (string \<Rightarrow> string) \<Rightarrow> 's redis \<Rightarrow> 's guard \<Rightarrow> 's ext_table
    \<Rightarrow> bool \<Rightarrow> 's PresetOption option list \<Rightarrow> policy_table
    \<Rightarrow> preset_panic + ('s middleware policy option list \<times> policy_table)" where
  "TenantWrite enc sha R guard table enabled opts t =
     (let s = ResolvePreset opts in
      case Require s ''TenantWrite'' True True True of
        Some e \<Rightarrow> Inl e
      | None \<Rightarrow>
          (case tenant_head enc sha guard table s t of
             Inl e \<Rightarrow> Inl e
           | Inr (ps, t1) \<Rightarrow>
               (case CacheInvalidate R (ps_CacheManager s) \<lparr>ci_TagSpecs = ps_InvalidateTags s, ci_FailOpen = None\<rparr> t1 of
                  Inl e \<Rightarrow> Inl (CachePanic e)
                | Inr (p, t2) \<Rightarrow>
                    (case MustValidatePreset t2 ''TenantWrite'' ''POST'' ''/api/v1/resource''
                            [Some (tenancy_RouteRule enabled)] (ps @ [p]) of
                       Some e \<Rightarrow> Inl e
                     | None \<Rightarrow> Inr (ps @ [p], t2)))))"

section \<open>Configuration\<close>

record TenancyConfig =
  tc_Enabled :: bool
  tc_Resolver :: string
  tc_Header :: string
  tc_BaseDomain :: string
  tc_Validate :: bool
  tc_ValidateCacheTTL :: int
  tc_ExemptPaths :: "string list"

datatype tenancy_lint =
    BadHeader | NoBaseDomain | SubdomainNeedsValidate | BadResolver string | NeedsPostgres | NegativeCacheTTL | BadExemptPath string

definition tenancy_Lint :: "bool \<Rightarrow> TenancyConfig \<Rightarrow> tenancy_lint option" where
  "tenancy_Lint postgres c =
     (if \<not> tc_Enabled c then None
      else if tc_Resolver c = ResolverHeader \<and>
           (tc_Header c = [] \<or> list_ex (\<lambda>x. x \<in> {CHR '' '', CHR 0x09, CHR 0x0D, CHR 0x0A, CHR '',''}) (tc_Header c))
      then Some BadHeader
      else if tc_Resolver c = ResolverSubdomain \<and> tc_BaseDomain c = [] then Some NoBaseDomain
      else if tc_Resolver c = ResolverSubdomain \<and> \<not> tc_Validate c then Some SubdomainNeedsValidate
      else if tc_Resolver c \<noteq> ResolverHeader \<and> tc_Resolver c \<noteq> ResolverSubdomain then Some (BadResolver (tc_Resolver c))
      else if tc_Validate c \<and> \<not> postgres then Some NeedsPostgres
      else if tc_ValidateCacheTTL c < 0 then Some NegativeCacheTTL
      else first_some (\<lambda>p. if p = [] \<or> hd p \<noteq> CHR ''/'' then Some (BadExemptPath p) else None) (tc_ExemptPaths c))"

section \<open>The tenant policies as gates\<close>

definition dec_tenant :: "(Envelope \<Rightarrow> string) \<Rightarrow> 's decision" where
  "dec_tenant enc r w =
     (case ctx_principal r of
        None \<Rightarrow> Inl (response_Error enc unauthorized_error (ctx_request_id r) w)
      | Some p \<Rightarrow>
          if PrincipalTenant p = []
          then Inl (response_Error enc (apperr_New CodeForbidden 403 ''tenant scope required'') (ctx_request_id r) w)
          else (case RequestTenantFromContext r of
              None \<Rightarrow> Inr (r, w)
            | Some t \<Rightarrow> if IsSameTenant (PrincipalTenant p) t then Inr (r, w)
                else Inl (response_Error enc tenant_not_found (ctx_request_id r) w)))"

definition dec_match :: "(Envelope \<Rightarrow> string) \<Rightarrow> string \<Rightarrow> 's decision" where
  "dec_match enc q r w =
     (case ctx_principal r of
        None \<Rightarrow> Inl (response_Error enc unauthorized_error (ctx_request_id r) w)
      | Some p \<Rightarrow>
          if trim_space (url_param r q) = []
          then Inl (response_Error enc (apperr_New CodeBadRequest 400 (q @ '' is required'')) (ctx_request_id r) w)
          else if PrincipalTenant p = []
          then Inl (response_Error enc (apperr_New CodeForbidden 403 ''tenant scope required'') (ctx_request_id r) w)
          else if IsSameTenant (PrincipalTenant p) (url_param r q) then Inr (r, w)
          else Inl (response_Error enc tenant_not_found (ctx_request_id r) w))"

lemma IsSameTenant_trim [simp]:
  "IsSameTenant (trim_space a) b = IsSameTenant a b" "IsSameTenant a (trim_space b) = IsSameTenant a b"
  by (simp_all add: IsSameTenant_def)

interpretation tenant_required: gate "TenantRequired_handler enc" "dec_tenant enc" for enc
  by unfold_locales
    (auto simp: TenantRequired_handler_def gate_run_def dec_tenant_def auth_FromContext_def RequireTenant_def
      TenantIDFromContext_def Let_def split: option.splits)

interpretation tenant_match: gate "TenantMatchFromPath_handler enc q" "dec_match enc q" for enc q
  by unfold_locales
    (auto simp: TenantMatchFromPath_handler_def gate_run_def dec_match_def auth_FromContext_def Let_def split: option.splits)

interpretation tenant_pair: gate_pair "TenantRequired_handler enc" "dec_tenant enc"
    "TenantMatchFromPath_handler enc q" "dec_match enc q" for enc q
  by unfold_locales

lemma uniform_dec_tenant: "uniform_dec (dec_tenant enc)"
  by (auto simp: uniform_dec_def dec_tenant_def push_response_Error split: option.splits)

lemma uniform_dec_match: "uniform_dec (dec_match enc q)"
  by (auto simp: uniform_dec_def dec_match_def push_response_Error split: option.splits)

lemma PrincipalTenant_trimmed [simp]: "trim_space (PrincipalTenant p) = PrincipalTenant p"
  by (simp add: PrincipalTenant_def)

lemma dec_tenant_Inr:
  assumes "dec_tenant enc r w = Inr (r', w')"
  shows "r' = r \<and> w' = w \<and> (\<exists>p. ctx_principal r = Some p \<and> PrincipalTenant p \<noteq> [] \<and>
    (\<forall>t. RequestTenantFromContext r = Some t \<longrightarrow> trim_space t = PrincipalTenant p))"
  using assms by (auto simp: dec_tenant_def IsSameTenant_def split: option.splits if_splits)

lemma dec_match_Inr:
  assumes "dec_match enc q r w = Inr (r', w')"
  shows "r' = r \<and> w' = w \<and> (\<exists>p. ctx_principal r = Some p \<and> trim_space (url_param r q) = PrincipalTenant p)"
  using assms by (auto simp: dec_match_def IsSameTenant_def split: option.splits if_splits)

lemma tenant_gates:
  assumes "gate_then (dec_tenant enc) (dec_match enc q) r w = Inr (r', w')"
  obtains p where "r' = r" "w' = w" "ctx_principal r = Some p" "PrincipalTenant p \<noteq> []"
    "trim_space (url_param r q) = PrincipalTenant p"
    "\<forall>t. RequestTenantFromContext r = Some t \<longrightarrow> trim_space t = PrincipalTenant p"
proof -
  from assms obtain r1 w1 where "dec_tenant enc r w = Inr (r1, w1)" "dec_match enc q r1 w1 = Inr (r', w')"
    by (auto simp: gate_then_def split: sum.splits)
  with that show thesis by (auto dest!: dec_tenant_Inr dec_match_Inr)
qed

text \<open>The tenant extension names the token's tenant, and refuses a token of another tenant.\<close>

lemma tenancy_attribute:
  "PrincipalTenant (p\<lparr>Attributes := ext_attributes (tenancy_AuthExtension b # exts) res\<rparr>) = trim_space (res_TenantID res)"
  by (simp add: PrincipalTenant_def AuthContext_Attribute_def tenancy_AuthExtension_def)

lemma tenancy_check:
  assumes "fst (ext_checks (tenancy_AuthExtension True # exts) r res w)" and "RequestTenantFromContext r = Some t"
  shows "IsSameTenant (res_TenantID res) t"
  using assms by (auto simp: tenancy_AuthExtension_def checkTokenTenant_def split: if_splits)

section \<open>Tenant isolation\<close>

definition tenant_chain :: "(Envelope \<Rightarrow> string) \<Rightarrow> 's guard \<Rightarrow> 's ext_table \<Rightarrow> nat option \<Rightarrow> Mode \<Rightarrow> string
    \<Rightarrow> 's middleware option list" where
  "tenant_chain enc G table engine mode q =
     [Some (authRequiredWithEngine enc G table engine mode), Some (TenantRequired_handler enc),
      Some (TenantMatchFromPath_handler enc q)]"

lemma tenant_chain_eq:
  assumes "guard_contract G V hs body" and "checks_writer_free table" and "uniform h"
  shows "Chain h (tenant_chain enc G table engine mode q) r w =
    gate_run (dec_auth enc V hs table engine mode) (\<lambda>r w. TenantRequired_handler enc (TenantMatchFromPath_handler enc q h) r w) r w"
proof -
  have eq: "TenantRequired_handler enc (TenantMatchFromPath_handler enc q h) =
      gate_run (dec_tenant enc) (gate_run (dec_match enc q) h)"
    by (simp add: fun_eq_iff tenant_required.runs tenant_match.runs gate_run_def split: sum.splits)
  have "uniform (gate_run (dec_tenant enc) (gate_run (dec_match enc q) h))"
    by (intro uniform_gate_run uniform_dec_tenant uniform_dec_match assms(3))
  from auth_gate [OF assms(1,2) this] show ?thesis by (simp add: tenant_chain_def eq)
qed

lemma tenant_chain_reached:
  assumes "guard_contract G V hs body" and "checks_writer_free table" and "uniform h1" and "uniform h2"
    and "authExtensionsFor table engine = tenancy_AuthExtension True # exts"
    and "Chain h1 (tenant_chain enc G table engine mode q) r w \<noteq> Chain h2 (tenant_chain enc G table engine mode q) r w"
  obtains res w1 p r' w' where "V engine (route_mode mode) r w = (Some res, w1)" "trim_space (res_TenantID res) \<noteq> []"
    "trim_space (url_param r q) = trim_space (res_TenantID res)"
    "\<forall>t. RequestTenantFromContext r = Some t \<longrightarrow> trim_space t = trim_space (res_TenantID res)"
    "ctx_principal r' = Some p" "UserID p = res_UserID res" "PrincipalTenant p = trim_space (res_TenantID res)"
    "h1 r' w' \<noteq> h2 r' w'"
proof -
  from assms(6) obtain r1 w2 where a: "dec_auth enc V hs table engine mode r w = Inr (r1, w2)"
      and diff: "TenantRequired_handler enc (TenantMatchFromPath_handler enc q h1) r1 w2 \<noteq>
        TenantRequired_handler enc (TenantMatchFromPath_handler enc q h2) r1 w2"
    unfolding tenant_chain_eq [OF assms(1-3)] tenant_chain_eq [OF assms(1,2,4)]
    by (auto simp: gate_run_def split: sum.splits)
  from diff obtain r' w' where g: "gate_then (dec_tenant enc) (dec_match enc q) r1 w2 = Inr (r', w')"
      and h: "h1 r' w' \<noteq> h2 r' w'"
    by (rule tenant_pair.seq.reached)
  from g obtain p where p: "r' = r1" "ctx_principal r1 = Some p" "PrincipalTenant p \<noteq> []"
      "trim_space (url_param r1 q) = PrincipalTenant p"
      "\<forall>t. RequestTenantFromContext r1 = Some t \<longrightarrow> trim_space t = PrincipalTenant p"
    by (rule tenant_gates)
  from a obtain res w1 where V: "V engine (route_mode mode) r w = (Some res, w1)"
      and r1: "r1 = r\<lparr>ctx_result := Some res, ctx_principal := Some ((base_principal res)
          \<lparr>Attributes := ext_attributes (authExtensionsFor table engine) res\<rparr>), ctx_engine := engine\<rparr>"
    by (auto simp: dec_auth_def Let_def split: prod.splits option.splits if_splits)
  have "RequestTenantFromContext r1 = RequestTenantFromContext r" "url_param r1 q = url_param r q"
    by (simp_all add: r1 RequestTenantFromContext_def)
  moreover have "PrincipalTenant p = trim_space (res_TenantID res)" "UserID p = res_UserID res"
    using p(2) tenancy_attribute [where p = "base_principal res" and b = True and exts = exts and res = res]
    by (auto simp: r1 assms(5) base_principal_def simp del: ext_attributes.simps)
  ultimately show thesis using V p h by (intro that) simp_all
qed

text \<open>
  C2: tenants are isolated. On a route behind \<open>AuthRequired\<close> (with the tenancy extension registered for its
  engine), \<open>TenantRequired\<close> and \<open>TenantMatchFromPath\<close>, the handler has an influence on the response only if
  goAuth accepted the token, the token names a tenant, the path parameter is that tenant, and any
  tenant the resolver attached to the request is that tenant too; the handler then sees a
  principal of that user and that tenant.
\<close>

theorem tenant_isolation:
  assumes "guard_contract G V hs body" and "checks_writer_free table" and "uniform h1" and "uniform h2"
    and "authExtensionsFor table engine = tenancy_AuthExtension True # exts"
    and "Chain h1 (tenant_chain enc G table engine mode q) r w \<noteq> Chain h2 (tenant_chain enc G table engine mode q) r w"
  shows "\<exists>res w1 p r' w'. V engine (route_mode mode) r w = (Some res, w1) \<and> trim_space (res_TenantID res) \<noteq> [] \<and>
    trim_space (url_param r q) = trim_space (res_TenantID res) \<and>
    (\<forall>t. RequestTenantFromContext r = Some t \<longrightarrow> trim_space t = trim_space (res_TenantID res)) \<and>
    ctx_principal r' = Some p \<and> UserID p = res_UserID res \<and> PrincipalTenant p = trim_space (res_TenantID res) \<and>
    h1 r' w' \<noteq> h2 r' w'"
  by (rule tenant_chain_reached [OF assms]) blast

definition sample_table :: "'s ext_table" where
  "sample_table = UseAuthExtensions (Some 2) [tenancy_AuthExtension True] Map.empty"

definition tenant_request :: "string \<Rightarrow> request" where
  "tenant_request t = (token_request ''good'')\<lparr>url_param := (\<lambda>q. t), ctx_request_tenant := Some ''0''\<rparr>"

lemma sample_table_writer_free: "checks_writer_free sample_table"
  by (auto simp: checks_writer_free_def sample_table_def UseAuthExtensions_def tenancy_AuthExtension_def
      split: if_splits)

lemma sample_table_exts: "authExtensionsFor sample_table (Some 2) = [tenancy_AuthExtension True]"
  by (simp add: authExtensionsFor_def sample_table_def UseAuthExtensions_def)

lemma tenant_chain_run:
  "bw_body (base (outcome_world (Chain (ok_handler t) (tenant_chain (\<lambda>e. []) sample_guard sample_table (Some 2) ModeStrict ''tenant_id'')
     (tenant_request ''0'') (blank_world ())))) = t"
proof -
  have tok: "bearerToken (header_get (req_header (token_request ''good'')) ''Authorization'') = Some ''good''"
      "trim_space ''7'' = ''7''" "trim_space ''0'' = ''0''" by code_simp+
  show ?thesis
    unfolding tenant_chain_eq [OF sample_guard_contract sample_table_writer_free uniform_ok_handler]
    by (simp add: gate_run_def dec_auth_def sample_validation_def tenant_request_def tok sample_table_exts tenancy_AuthExtension_def
        checkTokenTenant_def RequestTenantFromContext_def IsSameTenant_def tenant_required.runs tenant_match.runs dec_tenant_def
        dec_match_def PrincipalTenant_def AuthContext_Attribute_def base_principal_def ok_handler_def blank_world_def Write_def
        WriteHeader_def base_write_def base_write_header_def)
qed

theorem tenant_isolation_witness:
  "\<exists>res w1 p (r' :: request). sample_validation (Some 2) GoModeStrict (tenant_request ''0'') (blank_world ()) = (Some res, w1) \<and>
     trim_space (res_TenantID res) = trim_space ''0'' \<and> ctx_principal r' = Some p \<and>
     PrincipalTenant p = trim_space (res_TenantID res)"
proof -
  let ?run = "\<lambda>t. Chain (ok_handler t) (tenant_chain (\<lambda>e. []) sample_guard sample_table (Some 2) ModeStrict ''tenant_id'')
     (tenant_request ''0'') (blank_world ())"
  have "bw_body (base (outcome_world (?run ''a''))) \<noteq> bw_body (base (outcome_world (?run ''b'')))"
    by (simp add: tenant_chain_run)
  then have "?run ''a'' \<noteq> ?run ''b''" by auto
  note iso = tenant_isolation [OF sample_guard_contract sample_table_writer_free uniform_ok_handler uniform_ok_handler
      sample_table_exts this]
  have eqs: "route_mode ModeStrict = GoModeStrict" "url_param (tenant_request ''0'') ''tenant_id'' = ''0''"
    by (simp_all add: route_mode_def tenant_request_def)
  from iso obtain res w1 p and r' :: request where
      "sample_validation (Some 2) (route_mode ModeStrict) (tenant_request ''0'') (blank_world ()) = (Some res, w1)"
      "trim_space (url_param (tenant_request ''0'') ''tenant_id'') = trim_space (res_TenantID res)" "ctx_principal r' = Some p"
      "PrincipalTenant p = trim_space (res_TenantID res)"
    by blast
  then show ?thesis unfolding eqs by (intro exI [of _ res] exI [of _ w1] exI [of _ p] exI [of _ r']) simp
qed

section \<open>Accepted tenant routes\<close>

lemma first_index_Some:
  "first_index t i ms = Some k \<longleftrightarrow> (\<exists>n < length ms. k = i + n \<and> Type (ms ! n) = t \<and> (\<forall>j < n. Type (ms ! j) \<noteq> t))"
proof (induction ms arbitrary: i)
  case (Cons m ms)
  have split: "(\<exists>n < Suc (length ms). P n) \<longleftrightarrow> P 0 \<or> (\<exists>n < length ms. P (Suc n))" for P
    using less_Suc_eq_0_disj by auto
  show ?case
    by (auto simp: Cons.IH split All_less_Suc2)
qed simp

lemma first_index_None: "first_index t i ms = None \<longleftrightarrow> (\<forall>m \<in> set ms. Type m \<noteq> t)"
  by (induction ms arbitrary: i) auto

text \<open>The stages the constructors give their policies.\<close>

definition tenant_annotated :: "Metadata list \<Rightarrow> bool" where
  "tenant_annotated metas \<longleftrightarrow> list_all (\<lambda>m.
     (Type m = PolicyTypeAuthRequired \<longrightarrow> Stage m = 0) \<and>
     (Type m = PolicyTypeTenantRequired \<or> Type m = PolicyTypeTenantMatchFromPath \<longrightarrow> Stage m = StageIsolation)) metas"

lemma sorted_stage_index:
  assumes "sorted (stages ms)" and "i < length ms" and "j < length ms"
    and "0 < policyOrderStage (ms ! i)" and "policyOrderStage (ms ! i) < policyOrderStage (ms ! j)"
  shows "i < j"
proof (rule ccontr)
  assume "\<not> i < j"
  with assms(5) have "j < i" using less_irrefl linorder_neqE_nat by metis
  then have "ms ! i \<in> set (drop (Suc j) ms)"
    using assms(2) by (auto simp: in_set_conv_nth intro: exI [of _ "i - Suc j"])
  moreover have "ms = take j ms @ ms ! j # drop (Suc j) ms" by (rule id_take_nth_drop [OF assms(3)])
  ultimately have "policyOrderStage (ms ! j) \<le> policyOrderStage (ms ! i)"
    using sorted_stages_before [of "take j ms" "ms ! j" "drop (Suc j) ms" "ms ! i"] assms(1,4,5) by simp
  with assms(5) show False by simp
qed

lemma route_rule_accepts:
  assumes "tenancy_RouteRule True verb pattern metas = None" and "patternContainsTenantID pattern"
  obtains i j where "first_index PolicyTypeTenantRequired 0 metas = Some i"
    "first_index PolicyTypeTenantMatchFromPath 0 metas = Some j" "i \<le> j"
    "\<exists>m \<in> set metas. Type m = PolicyTypeAuthRequired"
    "\<forall>m \<in> set metas. Type m = PolicyTypeTenantMatchFromPath \<longrightarrow> to_lower (trim_space (path_param_of m)) = tenantIDParam"
proof -
  have nonempty: "filter (\<lambda>m. Type m = PolicyTypeTenantMatchFromPath) metas \<noteq> [] \<Longrightarrow>
      first_index PolicyTypeTenantMatchFromPath 0 metas \<noteq> None"
    by (auto simp: first_index_None filter_empty_conv)
  obtain i where i: "first_index PolicyTypeTenantRequired 0 metas = Some i"
    using assms by (auto simp: tenancy_RouteRule_def Let_def split: if_splits)
  moreover obtain j where j: "first_index PolicyTypeTenantMatchFromPath 0 metas = Some j"
    using assms nonempty by (auto simp: tenancy_RouteRule_def Let_def split: if_splits)
  moreover have "i \<le> j" "\<exists>m \<in> set metas. Type m = PolicyTypeAuthRequired"
      "\<forall>m \<in> set metas. Type m = PolicyTypeTenantMatchFromPath \<longrightarrow> to_lower (trim_space (path_param_of m)) = tenantIDParam"
    using assms i j by (auto simp: tenancy_RouteRule_def Let_def list_ex_iff split: if_splits)
  ultimately show thesis by (rule that)
qed

lemma index_ne: "first_index t i ms = Some k \<Longrightarrow> first_index u i ms = Some k \<Longrightarrow> t = u"
  by (auto simp: first_index_Some)

text \<open>
  with tenancy on, an accepted route whose pattern contains \<open>{tenant_id}\<close> and which has policies at all is
  protected in the right order: some authentication policy comes before a \<open>TenantRequired\<close>, which comes
  before a \<open>TenantMatchFromPath\<close>, and every \<open>TenantMatchFromPath\<close> of the route reads the \<open>tenant_id\<close> parameter.
\<close>

theorem tenant_routes_guarded:
  assumes "ValidateRouteMetadataWith rules verb pattern metas = None" and "Some (tenancy_RouteRule True) \<in> set rules"
    and "metas \<noteq> []" and "tenant_annotated metas" and "patternContainsTenantID (trim_space pattern)"
  shows "\<exists>i j k. i < j \<and> j < k \<and> k < length metas \<and> Type (metas ! i) = PolicyTypeAuthRequired \<and>
    Type (metas ! j) = PolicyTypeTenantRequired \<and> Type (metas ! k) = PolicyTypeTenantMatchFromPath \<and>
    (\<forall>m \<in> set metas. Type m = PolicyTypeTenantMatchFromPath \<longrightarrow> to_lower (trim_space (path_param_of m)) = tenantIDParam)"
proof -
  have srt: "sorted (stages metas)" and rule: "tenancy_RouteRule True (to_upper (trim_space verb)) (trim_space pattern) metas = None"
    using assms(1-3)
    by (auto simp: ValidateRouteMetadataWith_def validateRouteRules_None validator_None Let_def split: if_splits)
  from rule assms(5) obtain j k where jk: "first_index PolicyTypeTenantRequired 0 metas = Some j"
      "first_index PolicyTypeTenantMatchFromPath 0 metas = Some k" "j \<le> k"
      and auth: "\<exists>m \<in> set metas. Type m = PolicyTypeAuthRequired"
      and par: "\<forall>m \<in> set metas. Type m = PolicyTypeTenantMatchFromPath \<longrightarrow> to_lower (trim_space (path_param_of m)) = tenantIDParam"
    by (rule route_rule_accepts)
  from jk(1,2) have j: "j < length metas" "Type (metas ! j) = PolicyTypeTenantRequired"
      and k: "k < length metas" "Type (metas ! k) = PolicyTypeTenantMatchFromPath"
    by (auto simp: first_index_Some)
  have "j \<noteq> k" using j k by auto
  with jk(3) have "j < k" by simp
  from auth obtain i where i: "i < length metas" "Type (metas ! i) = PolicyTypeAuthRequired"
    by (auto simp: in_set_conv_nth)
  have "Stage (metas ! i) = 0" "Stage (metas ! j) = StageIsolation"
    using assms(4) i j by (simp_all add: tenant_annotated_def list_all_length)
  then have "policyOrderStage (metas ! i) = 1" "policyOrderStage (metas ! j) = 2"
    using i j by (simp_all add: policyOrderStage_def)
  with sorted_stage_index [OF srt i(1) j(1)] have "i < j" by simp
  with \<open>j < k\<close> i j k par show ?thesis by blast
qed

definition match_meta :: "string \<Rightarrow> Metadata" where
  "match_meta q = (meta_of PolicyTypeTenantMatchFromPath ''TenantMatchFromPath'')
     \<lparr>Stage := StageIsolation, Data := [(DataPathParam, q)]\<rparr>"

definition tenant_meta :: Metadata where
  "tenant_meta = (meta_of PolicyTypeTenantRequired ''TenantRequired'')\<lparr>Stage := StageIsolation\<rparr>"

theorem tenant_routes_guarded_witness:
  "\<exists>i j k. i < j \<and> j < k \<and> k < 3 \<and> Type ([auth_meta, tenant_meta, match_meta ''tenant_id''] ! i) = PolicyTypeAuthRequired \<and>
     Type ([auth_meta, tenant_meta, match_meta ''tenant_id''] ! j) = PolicyTypeTenantRequired \<and>
     Type ([auth_meta, tenant_meta, match_meta ''tenant_id''] ! k) = PolicyTypeTenantMatchFromPath"
proof -
  have "ValidateRouteMetadataWith [Some (tenancy_RouteRule True)] ''GET'' ''/t/{tenant_id}/x''
      [auth_meta, tenant_meta, match_meta ''tenant_id''] = None" by code_simp
  moreover have "tenant_annotated [auth_meta, tenant_meta, match_meta ''tenant_id'']"
      "patternContainsTenantID (trim_space ''/t/{tenant_id}/x'')" by code_simp+
  ultimately obtain i j k where "i < j" "j < k" "k < length [auth_meta, tenant_meta, match_meta ''tenant_id'']"
      "Type ([auth_meta, tenant_meta, match_meta ''tenant_id''] ! i) = PolicyTypeAuthRequired"
      "Type ([auth_meta, tenant_meta, match_meta ''tenant_id''] ! j) = PolicyTypeTenantRequired"
      "Type ([auth_meta, tenant_meta, match_meta ''tenant_id''] ! k) = PolicyTypeTenantMatchFromPath"
    using tenant_routes_guarded [of "[Some (tenancy_RouteRule True)]" "''GET''" "''/t/{tenant_id}/x''"
        "[auth_meta, tenant_meta, match_meta ''tenant_id'']"] by (elim meta_impE exE conjE) simp_all
  then show ?thesis by (intro exI [of _ i] exI [of _ j] exI [of _ k]) simp
qed

text \<open>
  the restriction to routes with policies is needed: the validator returns before it runs the feature
  rules when a route has no policy, so with tenancy on an unprotected \<open>{tenant_id}\<close> route is accepted.
  With any policy at all, even a no-op, the same route is refused.
\<close>

theorem bare_tenant_route_accepted:
  "ValidateRouteMetadataWith [Some (tenancy_RouteRule True)] ''GET'' ''/t/{tenant_id}/x'' [] = None \<and>
   ValidateRouteMetadataWith [Some (tenancy_RouteRule True)] ''GET'' ''/t/{tenant_id}/x'' [meta_of PolicyTypeNoop ''Noop''] =
     Some (RuleError ''route /t/{tenant_id}/x requires tenant_required'')"
  by code_simp

section \<open>Resolution\<close>

lemma tenant_bytes_visible: "tenant_bytes i s \<Longrightarrow> list_all (\<lambda>c. 45 \<le> byte c \<and> byte c \<le> 122) s"
proof (induction s arbitrary: i)
  case (Cons c s)
  have "byte (CHR ''.'') = 46" "byte (CHR ''_'') = 95" "byte (CHR ''-'') = 45" by code_simp+
  with Cons show ?case by (auto split: if_splits)
qed simp

lemma ValidTenantID_trim:
  assumes "ValidTenantID i"
  shows "trim_space i = i" and "i \<noteq> []" and "length i \<le> 64"
proof -
  from assms have i: "i \<noteq> []" "length i \<le> 64" "tenant_bytes 0 i" by (auto simp: ValidTenantID_def split: if_splits)
  then show "i \<noteq> []" "length i \<le> 64" by simp_all
  have "visible i" using tenant_bytes_visible [OF i(3)] by (fastforce simp: visible_def list_all_iff)
  then show "trim_space i = i" by simp
qed

lemma WithRequestTenant_get:
  "trim_space t \<noteq> [] \<Longrightarrow> RequestTenantFromContext (WithRequestTenant r t) = Some (trim_space t)"
  by (simp add: WithRequestTenant_def RequestTenantFromContext_def Let_def)

lemma resolver_of_cases: "resolver_of cfg = ResolverSubdomain \<or> resolver_of cfg = ResolverHeader"
  by (simp add: resolver_of_def)

text \<open>The value that is looked up.\<close>

definition resolved :: "ResolverConfig \<Rightarrow> request \<Rightarrow> string" where
  "resolved cfg r = (if resolver_of cfg = ResolverSubdomain then NormalizeSlug (extract_value cfg r) else extract_value cfg r)"

fun error_status :: "go_error \<Rightarrow> int" where
  "error_status (AppError c st m d k) = st"
| "error_status e = 500"

lemmas tenant_errors = tenant_required_error_def tenant_invalid_error_def tenant_unknown_error_def
  tenant_unavailable_error_def

lemma error_status_tenant [simp]:
  "error_status tenant_required_error = 400" "error_status tenant_invalid_error = 400"
  "error_status tenant_unknown_error = 404" "error_status (tenant_unavailable_error k) = 503"
  by (simp_all add: tenant_errors apperr_New_def)

lemma lookup_frame:
  assumes "lookupTenant d res v w = (x, w1)"
  shows "base w1 = base w" and "layers w1 = layers w"
  using assms by (auto simp: lookupTenant_def Let_def split: prod.splits option.splits directory_reply.splits)

lemma Middleware_cases:
  assumes "req_path r \<notin> set (exempt_paths cfg)"
  obtains (refused) e w' where "\<forall>next. Middleware enc cfg dir next r w = Ret (response_Error enc e (ctx_request_id r) w')"
      "base w' = base w" "layers w' = layers w"
      "error_status e \<in> {400, 404, 503}"
  | (validated) d i w' where "dir = Some d" "ValidTenantID (resolved cfg r)"
      "lookupTenant d (resolver_of cfg) (resolved cfg r) w = (Inr (i, True), w')"
      "\<forall>next. Middleware enc cfg dir next r w = next (WithRequestTenant r i) w'"
  | (trusted) "dir = None" "resolver_of cfg = ResolverHeader" "ValidTenantID (resolved cfg r)"
      "\<forall>next. Middleware enc cfg dir next r w = next (WithRequestTenant r (resolved cfg r)) w"
proof -
  let ?valid = "if resolver_of cfg = ResolverSubdomain then ValidSlug (resolved cfg r) else ValidTenantID (resolved cfg r)"
  show thesis
  proof (cases "extract_value cfg r = [] \<or> \<not> ?valid")
    case True
    then show thesis
      using assms by (intro refused [of "if extract_value cfg r = [] then tenant_required_error else tenant_invalid_error" w])
        (auto simp: Middleware_def Let_def resolved_def)
  next
    case False
    then have valid: "ValidTenantID (resolved cfg r)" by (auto simp: ValidSlug_def split: if_splits)
    show thesis
    proof (cases dir)
      case None
      show thesis
      proof (cases "resolver_of cfg = ResolverSubdomain")
        case True
        with False None assms show thesis
          by (intro refused [of "tenant_unavailable_error (Plain
              ''the subdomain resolver needs a tenant directory (TENANCY_VALIDATE=true)'')" w])
            (auto simp: Middleware_def Let_def resolved_def)
      next
        case sub: False
        then have "resolver_of cfg = ResolverHeader" using resolver_of_cases by blast
        with sub False None assms valid show thesis
          by (intro trusted) (auto simp: Middleware_def Let_def resolved_def)
      qed
    next
      case (Some d)
      obtain x w1 where l: "lookupTenant d (resolver_of cfg) (resolved cfg r) w = (x, w1)" by fastforce
      have run: "Middleware enc cfg dir next r w =
          (case x of Inl err \<Rightarrow> Ret (response_Error enc (tenant_unavailable_error err) (ctx_request_id r) w1)
           | Inr (i, active) \<Rightarrow> if \<not> active then Ret (response_Error enc tenant_unknown_error (ctx_request_id r) w1)
               else next (WithRequestTenant r i) w1)" for "next"
        using False Some assms l unfolding Middleware_def resolved_def Let_def
        by (auto split: if_splits)
      show thesis
      proof (cases "\<exists>i. x = Inr (i, True)")
        case True
        then show thesis using Some l valid run by (auto intro: validated)
      next
        case no: False
        then show thesis
          using lookup_frame [OF l] run
          by (intro refused [of "case x of Inl err \<Rightarrow> tenant_unavailable_error err | Inr p \<Rightarrow> tenant_unknown_error" w1])
            (auto split: sum.splits)
      qed
    qed
  qed
qed

text \<open>
  what the tenant middleware lets through. Unless the path is exempt, a handler behind it has an
  influence on the response only with a tenant attached to the request: with a directory, the
  identifier under which the lookup of a well-formed value reported an active tenant; without one,
  the well-formed header value itself (never a slug). Every other request is answered with 400, 404
  or 503.
\<close>

theorem resolved_tenant_attached:
  assumes "req_path r \<notin> set (exempt_paths cfg)"
    and "Middleware enc cfg dir h1 r w \<noteq> Middleware enc cfg dir h2 r w"
  shows "\<exists>i w'. h1 (WithRequestTenant r i) w' \<noteq> h2 (WithRequestTenant r i) w' \<and> ValidTenantID (resolved cfg r) \<and>
    (case dir of
       Some d \<Rightarrow> lookupTenant d (resolver_of cfg) (resolved cfg r) w = (Inr (i, True), w')
     | None \<Rightarrow> resolver_of cfg = ResolverHeader \<and> i = resolved cfg r \<and> w' = w \<and>
         RequestTenantFromContext (WithRequestTenant r i) = Some i)"
  using assms(1)
proof (cases rule: Middleware_cases [of r cfg enc dir w])
  case (refused e w')
  with assms(2) show ?thesis by simp
next
  case (validated d i w')
  with assms(2) show ?thesis by auto
next
  case trusted
  with assms(2) ValidTenantID_trim [of "resolved cfg r"] show ?thesis by (auto simp: WithRequestTenant_get)
qed

definition sample_directory :: "'s Directory" where
  "sample_directory =
     \<lparr>dir_Get = (\<lambda>i s. if i = ''acme'' then DirFound \<lparr>tr_ID = ''acme'', tr_Slug = ''ac'', tr_Name = ''Acme'', tr_Status = ''active''\<rparr>
        else DirNotFound),
      dir_GetBySlug = (\<lambda>i s. DirNotFound)\<rparr>"

definition header_config :: ResolverConfig where
  "header_config = \<lparr>rc_Resolver = ''header'', rc_Header = [], rc_BaseDomain = [], rc_ExemptPaths = [''/healthz''], rc_CacheTTL = 0\<rparr>"

definition acme_request :: request where
  "acme_request = blank_request\<lparr>req_path := ''/x'', req_header := [(''X-Tenant-Id'', ['' acme''])]\<rparr>"

theorem resolved_tenant_attached_witness:
  "\<exists>i. fst (lookupTenant sample_directory ResolverHeader ''acme'' (blank_world \<lparr>tv_cache = None, tv_rest = ()\<rparr>)) = Inr (i, True)"
proof -
  let ?w = "blank_world \<lparr>tv_cache = None, tv_rest = ()\<rparr>"
  let ?run = "\<lambda>t. Middleware (\<lambda>e. []) header_config (Some sample_directory) (ok_handler t) acme_request ?w"
  have cfg: "resolver_of header_config = ResolverHeader" "extract_value header_config acme_request = ''acme''"
      "ValidTenantID ''acme''" "exempt_paths header_config = [''/healthz'']" by code_simp+
  then have res: "resolved header_config acme_request = ''acme''" by (simp add: resolved_def)
  have path: "req_path acme_request \<notin> set (exempt_paths header_config)" by (simp add: cfg acme_request_def)
  have "bw_body (base (outcome_world (?run t))) = t" for t
    using path cfg
    by (simp add: Middleware_def lookupTenant_def sample_directory_def vc_get_def vc_put_def tenant_Active_def Let_def
        ok_handler_def blank_world_def Write_def WriteHeader_def base_write_def base_write_header_def)
  then have "bw_body (base (outcome_world (?run ''a''))) \<noteq> bw_body (base (outcome_world (?run ''b'')))" by simp
  then have "?run ''a'' \<noteq> ?run ''b''" by auto
  from resolved_tenant_attached [OF path this] show ?thesis by (auto simp: res cfg)
qed

section \<open>Staleness of tenant validation\<close>

text \<open>What the directory says of a value, as a cache entry.\<close>

definition directory_says :: "'s Directory \<Rightarrow> string \<Rightarrow> string \<Rightarrow> 's \<Rightarrow> cachedTenant option" where
  "directory_says dir resolver value s =
     (case (if resolver = ResolverSubdomain then dir_GetBySlug dir value s else dir_Get dir value s) of
        DirNotFound \<Rightarrow> Some \<lparr>ct_ID = [], ct_Active = False\<rparr>
      | DirError e \<Rightarrow> None
      | DirFound rec \<Rightarrow> Some \<lparr>ct_ID = tr_ID rec, ct_Active = tenant_Active rec\<rparr>)"

lemma lookup_read_through:
  assumes "lookupTenant dir resolver value w = (x, w')"
  shows "tv_cache (svc w') = snd (read_through vc_get vc_put (now w) (cacheKey resolver value)
      (directory_says dir resolver value (tv_rest (svc w))) (tv_cache (svc w)))"
    and "x = Inr (i, a) \<Longrightarrow> fst (read_through vc_get vc_put (now w) (cacheKey resolver value)
      (directory_says dir resolver value (tv_rest (svc w))) (tv_cache (svc w))) = Some \<lparr>ct_ID = i, ct_Active = a\<rparr>"
proof -
  let ?s = "tv_rest (svc w)"
  define reply where "reply = (if resolver = ResolverSubdomain then dir_GetBySlug dir value ?s else dir_Get dir value ?s)"
  obtain hit c where g: "vc_get (now w) (cacheKey resolver value) (tv_cache (svc w)) = (hit, c)" by fastforce
  have says: "directory_says dir resolver value ?s =
      (case reply of DirNotFound \<Rightarrow> Some \<lparr>ct_ID = [], ct_Active = False\<rparr> | DirError e \<Rightarrow> None
       | DirFound rec \<Rightarrow> Some \<lparr>ct_ID = tr_ID rec, ct_Active = tenant_Active rec\<rparr>)"
    by (simp add: directory_says_def reply_def)
  have run: "lookupTenant dir resolver value w = (case hit of Some h \<Rightarrow> (Inr (ct_ID h, ct_Active h), w\<lparr>svc := (svc w)\<lparr>tv_cache := c\<rparr>\<rparr>)
      | None \<Rightarrow> (case directory_says dir resolver value ?s of
          None \<Rightarrow> (case reply of DirError e \<Rightarrow> (Inl e, w\<lparr>svc := (svc w)\<lparr>tv_cache := c\<rparr>\<rparr>))
        | Some v \<Rightarrow> (Inr (ct_ID v, ct_Active v), w\<lparr>svc := (svc w)\<lparr>tv_cache := vc_put (now w) (cacheKey resolver value) v c\<rparr>\<rparr>)))"
    by (cases hit; cases reply) (auto simp: lookupTenant_def g Let_def says reply_def)
  have err: "\<exists>e. reply = DirError e" if "directory_says dir resolver value ?s = None"
    using that by (cases reply) (simp_all add: says)
  show "tv_cache (svc w') = snd (read_through vc_get vc_put (now w) (cacheKey resolver value)
      (directory_says dir resolver value ?s) (tv_cache (svc w)))"
    using assms err by (auto simp: run read_through_def g split: option.splits)
  show "fst (read_through vc_get vc_put (now w) (cacheKey resolver value)
      (directory_says dir resolver value ?s) (tv_cache (svc w))) = Some \<lparr>ct_ID = i, ct_Active = a\<rparr>" if "x = Inr (i, a)"
    using assms err that by (auto simp: run read_through_def g split: option.splits)
qed

lemma new_cache_ok: "vc_inv ttl (Some (newValidationCache ttl)) \<and> vc_entries (Some (newValidationCache ttl)) = {}"
  using negativeTTL_le [of ttl]
  by (simp add: vc_inv_def vc_entries_def seg_entries_def newValidationCache_def newValidationCacheSized_def newTTLLRU_inv)
    (simp add: newTTLLRU_def)



section \<open>Subdomains\<close>

lemma last_index_of_None: "last_index_of d s = None \<longleftrightarrow> d \<notin> set s"
  by (induction s) (auto split: option.splits)

lemma SplitHostPort_no_colon: "CHR '':'' \<notin> set s \<Longrightarrow> SplitHostPort s = None"
  using last_index_of_None [of "CHR '':''" s] by (simp add: SplitHostPort_def)

lemma last_index_of_append: "d \<notin> set t \<Longrightarrow> last_index_of d (s @ d # t) = Some (length s)"
  using last_index_of_None [of d t] by (induction s) auto

lemma SplitHostPort_join:
  assumes "set h \<inter> {CHR '':'', CHR ''['', CHR '']''} = {}" and "set port \<inter> {CHR '':'', CHR ''['', CHR '']''} = {}"
  shows "SplitHostPort (h @ CHR '':'' # port) = Some (h, port)"
proof -
  have "take 1 (h @ CHR '':'' # port) \<noteq> ''[''" using assms(1) by (cases h) auto
  with assms show ?thesis by (auto simp: SplitHostPort_def last_index_of_append)
qed

lemma has_suffix_append [simp]: "has_suffix suf (s @ suf)"
  by (simp add: has_suffix_def has_prefix_def)

lemma trim_suffix_append [simp]: "trim_suffix (s @ suf) suf = s"
  by (simp add: trim_suffix_def)

lemma dropWhile_hd: "xs \<noteq> [] \<Longrightarrow> \<not> P (hd xs) \<Longrightarrow> dropWhile P xs = xs"
  by (cases xs) auto

lemma trim_dots_id: "s \<noteq> [] \<Longrightarrow> hd s \<noteq> CHR ''.'' \<Longrightarrow> last s \<noteq> CHR ''.'' \<Longrightarrow> trim_dots s = s"
  by (simp add: trim_dots_def dropWhile_hd hd_rev)

lemma trim_suffix_dot: "s \<noteq> [] \<Longrightarrow> last s \<noteq> CHR ''.'' \<Longrightarrow> trim_suffix s ''.'' = s"
  by (cases "rev s") (auto simp: trim_suffix_def has_suffix_def has_prefix_def hd_rev [symmetric])

text \<open>A host name in canonical form: lower-case printable bytes other than \<open>:\<close> and brackets, no dot at either end.\<close>

definition host_name :: "string \<Rightarrow> bool" where
  "host_name d \<longleftrightarrow> d \<noteq> [] \<and> hd d \<noteq> CHR ''.'' \<and> last d \<noteq> CHR ''.'' \<and> to_lower d = d \<and> visible d \<and>
     list_all (\<lambda>c. c \<notin> {CHR '':'', CHR ''['', CHR '']''}) d"

lemma to_lower_append: "to_lower (a @ b) = to_lower a @ to_lower b"
  by (simp add: to_lower_def)

lemma itoa_lower: "to_lower (itoa n) = itoa n"
  using itoa_byte [of _ n] by (force simp: to_lower_def lower_byte_def intro: map_idI)

lemma itoa_no_brackets: "set (itoa n) \<inter> {CHR '':'', CHR ''['', CHR '']''} = {}"
proof -
  have "byte (CHR '':'') = 58" "byte (CHR ''['') = 91" "byte (CHR '']'') = 93" by code_simp+
  then show ?thesis using itoa_byte [of _ n] by fastforce
qed

text \<open>
  the subdomain extractor inverts the naming scheme. For a tenant label (a host name without dots)
  and a base domain, the host \<open>label.base\<close> resolves to \<open>label\<close>, with or without a port; the base domain may be
  configured with surrounding dots removed or in canonical form, and a host of the base domain
  itself or with two labels below it resolves to no tenant.
\<close>

theorem subdomain_roundtrip:
  assumes "host_name label" and "CHR ''.'' \<notin> set label" and "host_name dm"
    and "port = [] \<or> (\<exists>n. port = CHR '':'' # itoa n)"
  shows "subdomainExtractor dm (r\<lparr>req_host := label @ ''.'' @ dm @ port\<rparr>) = label \<and>
    subdomainExtractor dm (r\<lparr>req_host := label @ ''.'' @ label @ ''.'' @ dm @ port\<rparr>) = []"
proof -
  have dm: "trim_dots (trim_space dm) = dm" "to_lower dm = dm"
    using assms(3) by (simp_all add: host_name_def trim_dots_id)
  have suffix: "''.'' @ to_lower (trim_dots (trim_space dm)) = ''.'' @ dm" by (simp add: dm)
  have dots: "visible ''.''" "to_lower ''.'' = ''.''" "to_lower '':'' = '':''" "visible '':''" by code_simp+
  have digits: "to_lower (itoa n) = itoa n" "set (itoa n) \<inter> {CHR '':'', CHR ''['', CHR '']''} = {}" for n
    by (rule itoa_lower) (rule itoa_no_brackets)
  have host: "bare_host (h @ port) = h"
    if h: "host_name h" for h
  proof -
    have "visible port \<and> to_lower port = port"
    proof (cases "port = []")
      case False
      then obtain n where n: "port = '':'' @ itoa n" using assms(4) by auto
      show ?thesis unfolding n visible_append to_lower_append using dots digits(1) visible_itoa by simp
    qed (simp add: visible_def)
    then have vis: "to_lower (trim_space (h @ port)) = h @ port"
      using h by (simp add: host_name_def visible_append to_lower_append)
    have dot: "trim_suffix h ''.'' = h" using h by (intro trim_suffix_dot) (simp_all add: host_name_def)
    show ?thesis
    proof (cases "port = []")
      case True
      have "CHR '':'' \<notin> set h" using h by (auto simp: host_name_def list_all_iff)
      then show ?thesis unfolding bare_host_def vis by (simp add: True SplitHostPort_no_colon dot)
    next
      case False
      then obtain n where n: "port = CHR '':'' # itoa n" using assms(4) by blast
      have "set h \<inter> {CHR '':'', CHR ''['', CHR '']''} = {}" using h by (auto simp: host_name_def list_all_iff)
      from SplitHostPort_join [OF this digits(2)] show ?thesis unfolding bare_host_def vis by (simp add: n dot)
    qed
  qed
  have name: "host_name (a @ ''.'' @ b)" if "host_name a" "host_name b" for a b
    using that dots visible_append [of "''.''" b] to_lower_append [of "''.''" b]
    by (auto simp: host_name_def visible_append to_lower_append)
  have run: "subdomainExtractor dm (r\<lparr>req_host := a @ ''.'' @ dm @ port\<rparr>) = (if CHR ''.'' \<in> set a then [] else a)"
    if a: "host_name a" for a
  proof -
    have "bare_host (a @ ''.'' @ dm @ port) = a @ ''.'' @ dm" using host [OF name [OF a assms(3)]] by simp
    moreover have "a \<noteq> []" using a by (simp add: host_name_def)
    moreover have "has_suffix (''.'' @ dm) (a @ ''.'' @ dm)" "trim_suffix (a @ ''.'' @ dm) (''.'' @ dm) = a"
      by (rule has_suffix_append) (rule trim_suffix_append)
    ultimately show ?thesis unfolding subdomainExtractor_def suffix by (simp add: Let_def)
  qed
  show ?thesis
    using run [OF assms(1)] run [OF name [OF assms(1,1)]] assms(2) by simp
qed

theorem subdomain_roundtrip_witness:
  "subdomainExtractor ''example.com'' (blank_request\<lparr>req_host := ''acme'' @ ''.'' @ ''example.com'' @ CHR '':'' # itoa 8080\<rparr>) = ''acme''"
proof -
  have "host_name ''acme''" "host_name ''example.com''" "CHR ''.'' \<notin> set ''acme''" by code_simp+
  with subdomain_roundtrip [of "''acme''" "''example.com''" "CHR '':'' # itoa 8080" blank_request] show ?thesis by blast
qed

section \<open>Tenant presets\<close>

lemma resolved_inv:
  assumes "\<forall>f. Some f \<in> set opts \<longrightarrow> exported f"
  shows "Rule_Validate (ps_RateLimit (ResolvePreset opts)) = None" and "0 < ps_CacheTTL (ResolvePreset opts)"
    and "ps_InvalidateTags (ResolvePreset opts) \<noteq> []"
  using options_inv [OF assms] by (auto simp: preset_inv_def ResolvePreset_def Let_def)

lemma tenant_preset_valid:
  assumes "identity \<or> user"
  shows "ValidateRouteMetadataWith [Some (tenancy_RouteRule b)] ''GET'' ''/api/v1/resource/{id}''
      [meta_of PolicyTypeAuthRequired ''AuthRequired'', tenant_meta, meta_of PolicyTypeRateLimit ''RateLimit'',
       (meta_of PolicyTypeCacheRead ''CacheRead'')\<lparr>CacheReadMeta :=
          \<lparr>AllowAuthenticated = a, VaryByUserID = user, VaryByIdentityPart = identity\<rparr>\<rparr>] = None"
proof -
  have str: "trim_space ''GET'' = ''GET''" "to_upper ''GET'' = ''GET''" "trim_space ''/api/v1/resource/{id}'' = ''/api/v1/resource/{id}''"
      "patternContainsTenantID ''/api/v1/resource/{id}'' = False"
    by code_simp+
  show ?thesis
    using assms
    by (auto simp: ValidateRouteMetadataWith_def validateRouteRules_None validator_None str tenancy_RouteRule_def tenant_meta_def
        meta_of_def policyOrderStage_def Let_def)
qed

text \<open>
  \<open>TenantRead\<close> always registers. Whatever exported options it is given, once an engine, a limiter, a cache
  manager and valid tag specifications are among them and the caller's own cache key (if any)
  varies by an identity and has well-formed parts, no constructor panics and the chain passes the
  validator with the tenancy rule, with tenancy on or off: authentication, tenant scope, the rate
  limit by tenant and the cache read, in this order.
\<close>

theorem tenant_read_registers:
  assumes "\<forall>f. Some f \<in> set opts \<longrightarrow> exported f"
    and "ps_AuthEngine (ResolvePreset opts) = Some e" and "ps_Limiter (ResolvePreset opts) = Some allow"
    and "ps_CacheManager (ResolvePreset opts) = Some m"
    and "validateCacheTagSpecs (ps_CacheTags (ResolvePreset opts)) False = None"
    and "first_some KeyPart_Validate (vb_Parts (presetVaryBy enabled (ResolvePreset opts))) = None"
    and "vb_UserID (presetVaryBy enabled (ResolvePreset opts)) \<or> HasIdentityPart (vb_Parts (presetVaryBy enabled (ResolvePreset opts)))"
  shows "\<exists>p1 p2 p3 p4 t'. TenantRead enc sha R J guard table enabled opts t = Inr ([Some p1, Some p2, Some p3, Some p4], t') \<and>
    behaviour p1 = authRequiredWithEngine enc guard table (Some e) (ps_AuthMode (ResolvePreset opts)) \<and>
    behaviour p2 = TenantRequired_handler enc \<and>
    behaviour p3 = RateLimit_handler enc sha allow (tenant_rule (ps_RateLimit (ResolvePreset opts))) \<and>
    behaviour p4 = CacheRead_handler enc sha R J (newCacheReadRuntime m (tenant_read_config enabled (ResolvePreset opts)))"
proof -
  let ?s = "ResolvePreset opts"
  have names: "trim_space ''RateLimit'' \<noteq> []" "trim_space ''CacheRead'' \<noteq> []" "trim_space ''AuthRequired'' \<noteq> []"
      "trim_space ''TenantRequired'' \<noteq> []" by code_simp+
  have rule: "Rule_Validate (tenant_rule (ps_RateLimit ?s)) = None"
    using resolved_inv(1) [OF assms(1)] by (auto simp: Rule_Validate_def tenant_rule_def split: if_splits)
  have req: "Require ?s ''TenantRead'' True True True = None" by (simp add: Require_def assms(2-4))
  have head: "\<exists>p1 p2 p3 t'. tenant_head enc sha guard table ?s t = Inr ([Some p1, Some p2, Some p3], t') \<and>
      behaviour p1 = authRequiredWithEngine enc guard table (Some e) (ps_AuthMode ?s) \<and> code_ptr p1 = ptr_AuthRequired \<and>
      behaviour p2 = TenantRequired_handler enc \<and> code_ptr p2 = ptr_TenantRequired \<and>
      behaviour p3 = RateLimit_handler enc sha allow (tenant_rule (ps_RateLimit ?s)) \<and> code_ptr p3 = ptr_RateLimit \<and>
      t' ptr_AuthRequired = Some (meta_of PolicyTypeAuthRequired ''AuthRequired'') \<and> t' ptr_TenantRequired = Some tenant_meta \<and>
      t' ptr_RateLimit = Some (meta_of PolicyTypeRateLimit ''RateLimit'')"
    by (simp add: tenant_head_def AuthRequired_def TenantRequired_def RateLimit_def RateLimitWithKeyer_def assms(2,3) rule
        built_def annotatePolicy_def policyPointer_def meta_of_def tenant_meta_def names Let_def)
  then obtain p1 p2 p3 t1 where h: "tenant_head enc sha guard table ?s t = Inr ([Some p1, Some p2, Some p3], t1)"
      and b: "behaviour p1 = authRequiredWithEngine enc guard table (Some e) (ps_AuthMode ?s)" "behaviour p2 = TenantRequired_handler enc"
        "behaviour p3 = RateLimit_handler enc sha allow (tenant_rule (ps_RateLimit ?s))"
      and c: "code_ptr p1 = ptr_AuthRequired" "code_ptr p2 = ptr_TenantRequired" "code_ptr p3 = ptr_RateLimit"
      and t1: "t1 ptr_AuthRequired = Some (meta_of PolicyTypeAuthRequired ''AuthRequired'')" "t1 ptr_TenantRequired = Some tenant_meta"
        "t1 ptr_RateLimit = Some (meta_of PolicyTypeRateLimit ''RateLimit'')"
    by blast
  show ?thesis
    using assms(5,6) resolved_inv(2) [OF assms(1)] tenant_preset_valid [OF assms(7) [THEN disj_commute [THEN iffD1]]]
    by (simp add: TenantRead_def req h assms(4) CacheRead_def tenant_read_config_def built_def annotatePolicy_def policyPointer_def
        names MustValidatePreset_def DescribePolicies_def DescribePolicy_def c t1 b meta_of_def Let_def)
qed

theorem tenant_read_registers_witness:
  "\<exists>p1 p2 p3 p4 t'. TenantRead (\<lambda>e. []) (\<lambda>s. s) mem_redis sample_codec sample_guard sample_table True
     [Some (WithAuthEngine (Some 2) ModeStrict), Some (WithLimiter (Some (RedisLimiter_Allow mem_redis sample_limiter))),
      Some (WithCacheManager (Some sample_manager))] Map.empty = Inr ([Some p1, Some p2, Some p3, Some p4], t')"
proof -
  let ?opts = "[Some (WithAuthEngine (Some 2) ModeStrict), Some (WithLimiter (Some (RedisLimiter_Allow mem_redis sample_limiter))),
      Some (WithCacheManager (Some sample_manager))]"
  have v: "validateCacheTagSpecs [resource_spec] False = None" "KeyPart_Validate CacheVary = None" by code_simp+
  have r: "ps_AuthEngine (ResolvePreset ?opts) = Some 2" "ps_Limiter (ResolvePreset ?opts) = Some (RedisLimiter_Allow mem_redis sample_limiter)"
      "ps_CacheManager (ResolvePreset ?opts) = Some sample_manager" "ps_CacheTags (ResolvePreset ?opts) = [resource_spec]"
      "ps_CacheVaryBySet (ResolvePreset ?opts) = False"
    by (simp_all add: ResolvePreset_def applyPresetOptions_def defaultPresetConfig_def WithAuthEngine_def WithLimiter_def
        WithCacheManager_def Let_def)
  have vary: "presetVaryBy True (ResolvePreset ?opts) = empty_vary\<lparr>vb_Parts := [CacheVary]\<rparr>" by (simp add: presetVaryBy_def r)
  have "first_some KeyPart_Validate [CacheVary] = None" by (simp add: v)
  moreover have "HasIdentityPart [CacheVary]" by (simp add: HasIdentityPart_def CacheVary_def)
  moreover have "\<forall>f. Some f \<in> set ?opts \<longrightarrow> exported f" by (auto intro: exported.intros)
  ultimately show ?thesis
    using tenant_read_registers [OF _ r(1-3), of True "\<lambda>e. []" "\<lambda>s. s" mem_redis sample_codec sample_guard sample_table Map.empty] v(1)
    by (fastforce simp: vary r(4))
qed

text \<open>
  the default cache key of \<open>TenantRead\<close> ignores the path. With tenancy on and no \<open>WithCacheVaryBy\<close>, the
  key varies by tenant only, so two requests of one principal for different resources of one
  route pattern (or with different query strings) have the same read key: on the pattern the preset is
  validated for, \<open>/api/v1/resource/{id}\<close>, the cached response of one resource is served for all.
\<close>

theorem tenant_read_default_shares_key:
  assumes "ps_CacheVaryBySet s = False" and "ps_CacheTags s = [resource_spec]"
  shows "BuildReadKey sha R mgr (Some r) route (tenant_read_config True s) w =
    BuildReadKey sha R mgr (Some (r\<lparr>url_param := f, req_query := q\<rparr>)) route (tenant_read_config True s) w"
proof -
  let ?tm = "PrepareReadKeyTemplate (tenant_read_config True s)"
  have names: "normalizedNames [] = []" by code_simp
  have cfg: "tm_PathParams ?tm = []" "tm_QueryParams ?tm = []" "tm_Parts ?tm = usableKeyParts [CacheVary]"
      "tm_TagSpecs ?tm = normalizeTagSpecs [resource_spec]" "tm_Headers ?tm = []"
    by (simp_all add: PrepareReadKeyTemplate_def tenant_read_config_def presetVaryBy_def assms empty_vary_def names Let_def)
  have "normalizeTagName ''resource'' = ''resource''" by code_simp
  then have specs: "normalizeTagSpecs [resource_spec] = [resource_spec]"
    by (simp add: normalizeTagSpecs_def normalizeTagSpec_def resource_spec_def names normalizeTagParts_def normalizeTagLiterals_def
        tagSpecKey_def)
  have tag: "resolveTagName r' p resource_spec = Inr ''resource''" for r' p
    by (simp add: resolveTagName_def resource_spec_def resolve_user_def resolve_literals_def Let_def)
  have key: "canonical_key ?tm rp (r\<lparr>url_param := f, req_query := q\<rparr>) qh tok = canonical_key ?tm rp r qh tok" for rp qh tok
    by (simp add: canonical_key_def key_head_def key_tail_def Let_def cfg auth_FromContext_def extract_part_def CacheVary_def
        usableKeyParts_def)
  have qh: "queryParamHashSelected sha x [] = []" for x
    by (simp add: queryParamHashSelected_def Let_def)
  have tags: "resolveTagNamesPrepared (Some r') [resource_spec] = Inr (normalizeResolvedTags [''resource''])" for r'
    by (simp add: resolveTagNamesPrepared_def tag)
  show ?thesis
    unfolding BuildReadKey_def BuildReadKeyWithTemplate_def cfg specs tags option.case sum.case qh Let_def key by (rule refl)
qed

definition default_settings :: "unit PresetSettings" where
  "default_settings = ResolvePreset []"

theorem tenant_read_default_shares_key_witness:
  "BuildReadKey (\<lambda>s. s) mem_redis (Some sample_manager) (Some (tenant_request ''1'')) ''/api/v1/resource/{id}''
     (tenant_read_config True default_settings) (blank_world mem_empty) =
   BuildReadKey (\<lambda>s. s) mem_redis (Some sample_manager) (Some ((tenant_request ''1'')\<lparr>url_param := (\<lambda>q. ''2''), req_query := []\<rparr>))
     ''/api/v1/resource/{id}'' (tenant_read_config True default_settings) (blank_world mem_empty)"
  by (rule tenant_read_default_shares_key)
    (simp_all add: default_settings_def ResolvePreset_def applyPresetOptions_def defaultPresetConfig_def)

end
