(* ===== verification/Config.thy ===== *)
theory Config
  imports Env_Values
begin

text \<open>
  Configuration: \<open>internal/core/config/config.go\<close> (the structs, \<open>Load\<close>, \<open>Lint\<close> and \<open>Warnings\<close>),
  \<open>totp_keys.go\<close>, \<open>webauthn.go\<close>, \<open>notify_smtp.go\<close> and \<open>notify_drivers.go\<close>.

  \<open>Load\<close> and \<open>Lint\<close> read the process environment, which is an argument. The parsers of
  \<open>net\<close>, \<open>net/url\<close>, \<open>net/mail\<close> and \<open>encoding/base64\<close> are the record \<open>netlib\<close>. Error texts are the
  source's, with their explanatory tails left out and values quoted without escapes.
\<close>

section \<open>The configuration\<close>

record AccessLogConfig =
  al_Enabled :: bool
  al_SampleRate :: float64
  al_ExcludePaths :: "string list"
  al_SlowThreshold :: int
  al_IncludeUserAgent :: bool
  al_IncludeRemoteIP :: bool

record ClientIPConfig =
  cip_TrustedProxies :: "string list"

record CORSConfig =
  co_Enabled :: bool
  co_AllowOrigins :: "string list"
  co_DenyOrigins :: "string list"
  co_AllowMethods :: "string list"
  co_AllowHeaders :: "string list"
  co_ExposeHeaders :: "string list"
  co_AllowCredentials :: bool
  co_MaxAge :: int
  co_AllowPrivateNetwork :: bool

record HTTPMiddlewareConfig =
  mw_RequestIDEnabled :: bool
  mw_RecovererEnabled :: bool
  mw_MaxBodyBytes :: int
  mw_SecurityHeadersEnabled :: bool
  mw_RequestTimeout :: int
  mw_AccessLog :: AccessLogConfig
  mw_ClientIP :: ClientIPConfig
  mw_CORS :: CORSConfig
  mw_TracingExcludePaths :: "string list"

record HTTPConfig =
  hc_Addr :: string
  hc_ReadHeaderTimeout :: int
  hc_ReadTimeout :: int
  hc_WriteTimeout :: int
  hc_IdleTimeout :: int
  hc_ShutdownTimeout :: int
  hc_MaxHeaderBytes :: int
  hc_Middleware :: HTTPMiddlewareConfig

record LogConfig =
  lg_Level :: string
  lg_Format :: string

record AuthConfig =
  au_Enabled :: bool
  au_Mode :: string
  au_RegistrationEnabled :: bool
  au_RegistrationAutoLogin :: bool
  au_PasswordResetEnabled :: bool
  au_EmailVerificationEnabled :: bool
  au_EmailVerificationRequired :: bool
  au_TOTPEnabled :: bool
  au_TOTPIssuer :: string
  au_TOTPEncryptionKey :: string
  au_TOTPEncryptionKeys :: string
  au_TOTPEncryptionActiveKID :: string
  au_TestOverridesAllowed :: bool

record RateLimitConfig =
  rlc_Enabled :: bool
  rlc_FailOpen :: bool
  rlc_DefaultLimit :: int
  rlc_DefaultWindow :: int

record CacheConfig =
  ca_Enabled :: bool
  ca_FailOpen :: bool
  ca_DefaultMaxBytes :: int
  ca_TagVersionCacheTTL :: int

record PostgresConfig =
  pg_Enabled :: bool
  pg_URL :: string
  pg_MaxConns :: int
  pg_MinConns :: int
  pg_ConnMaxLifetime :: int
  pg_ConnMaxIdleTime :: int
  pg_StartupPingTimeout :: int
  pg_HealthCheckTimeout :: int

record RedisConfig =
  rd_Enabled :: bool
  rd_Addr :: string
  rd_Password :: string
  rd_DB :: int
  rd_DialTimeout :: int
  rd_ReadTimeout :: int
  rd_WriteTimeout :: int
  rd_PoolSize :: int
  rd_MinIdleConns :: int
  rd_StartupPingTimeout :: int
  rd_HealthCheckTimeout :: int

record MetricsConfig =
  me_Enabled :: bool
  me_Path :: string
  me_AuthToken :: string
  me_ExcludePaths :: "string list"

record TracingConfig =
  trc_Enabled :: bool
  trc_ServiceName :: string
  trc_Exporter :: string
  trc_OTLPEndpoint :: string
  trc_Sampler :: string
  trc_SampleRatio :: float64
  trc_Insecure :: bool

record SMTPConfig =
  sm_Host :: string
  sm_Port :: int
  sm_Username :: string
  sm_Password :: string
  sm_From :: string
  sm_TLS :: string
  sm_ResetURL :: string
  sm_VerifyURL :: string

record NotifyConfig =
  nt_Driver :: string
  nt_LogSecrets :: bool
  nt_Timeout :: int
  nt_SMTP :: SMTPConfig

record Config =
  cf_Env :: string
  cf_Profile :: string
  cf_ServiceName :: string
  cf_HTTP :: HTTPConfig
  cf_Log :: LogConfig
  cf_Auth :: AuthConfig
  cf_RateLimit :: RateLimitConfig
  cf_Cache :: CacheConfig
  cf_Postgres :: PostgresConfig
  cf_Redis :: RedisConfig
  cf_Metrics :: MetricsConfig
  cf_Tracing :: TracingConfig
  cf_Notify :: NotifyConfig

section \<open>Loading\<close>

definition isDevOrTestEnv :: "string \<Rightarrow> bool" where
  "isDevOrTestEnv env \<longleftrightarrow> to_lower (trim_space env) \<in> set [''dev'', ''development'', ''local'', ''test'']"

definition is_prod :: "string \<Rightarrow> bool" where
  "is_prod env \<longleftrightarrow> equal_fold (trim_space env) ''prod'' \<or> equal_fold (trim_space env) ''production''"

text \<open>The readers of one \<open>Load\<close>: the environment with the profile defaults that are active.\<close>

record readers =
  rs_string :: "string \<Rightarrow> string \<Rightarrow> string"
  rs_int :: "string \<Rightarrow> int \<Rightarrow> int"
  rs_int32 :: "string \<Rightarrow> int \<Rightarrow> int"
  rs_int64 :: "string \<Rightarrow> int \<Rightarrow> int"
  rs_bool :: "string \<Rightarrow> bool \<Rightarrow> bool"
  rs_dur :: "string \<Rightarrow> int \<Rightarrow> int"
  rs_float :: "string \<Rightarrow> float64 \<Rightarrow> float64"
  rs_csv :: "string \<Rightarrow> string list \<Rightarrow> string list"

definition readers_of :: "floats \<Rightarrow> environ \<Rightarrow> defaults option \<Rightarrow> readers" where
  "readers_of F env active = \<lparr>rs_string = getenv env active, rs_int = getInt env active, rs_int32 = getInt32 env active,
     rs_int64 = getInt64 env active, rs_bool = getBool env active, rs_dur = getDuration F env active,
     rs_float = getFloat64 F env active, rs_csv = getCSV env active\<rparr>"

abbreviation minute :: int where "minute \<equiv> 60 * second"

definition load_access_log :: "readers \<Rightarrow> AccessLogConfig" where
  "load_access_log R =
     \<lparr>al_Enabled = rs_bool R ''HTTP_MIDDLEWARE_ACCESS_LOG_ENABLED'' True,
      al_SampleRate = rs_float R ''HTTP_MIDDLEWARE_ACCESS_LOG_SAMPLE_RATE'' (Finite (5 / 100)),
      al_ExcludePaths = rs_csv R ''HTTP_MIDDLEWARE_ACCESS_LOG_EXCLUDE_PATHS'' [''/healthz'', ''/readyz'', ''/metrics''],
      al_SlowThreshold = rs_dur R ''HTTP_MIDDLEWARE_ACCESS_LOG_SLOW_THRESHOLD'' (2 * second),
      al_IncludeUserAgent = rs_bool R ''HTTP_MIDDLEWARE_ACCESS_LOG_INCLUDE_USER_AGENT'' False,
      al_IncludeRemoteIP = rs_bool R ''HTTP_MIDDLEWARE_ACCESS_LOG_INCLUDE_REMOTE_IP'' False\<rparr>"

definition load_cors :: "readers \<Rightarrow> CORSConfig" where
  "load_cors R =
     \<lparr>co_Enabled = rs_bool R ''HTTP_MIDDLEWARE_CORS_ENABLED'' False,
      co_AllowOrigins = rs_csv R ''HTTP_MIDDLEWARE_CORS_ALLOW_ORIGINS'' [],
      co_DenyOrigins = rs_csv R ''HTTP_MIDDLEWARE_CORS_DENY_ORIGINS'' [],
      co_AllowMethods = rs_csv R ''HTTP_MIDDLEWARE_CORS_ALLOW_METHODS'' [],
      co_AllowHeaders = rs_csv R ''HTTP_MIDDLEWARE_CORS_ALLOW_HEADERS'' [],
      co_ExposeHeaders = rs_csv R ''HTTP_MIDDLEWARE_CORS_EXPOSE_HEADERS'' [],
      co_AllowCredentials = rs_bool R ''HTTP_MIDDLEWARE_CORS_ALLOW_CREDENTIALS'' False,
      co_MaxAge = rs_dur R ''HTTP_MIDDLEWARE_CORS_MAX_AGE'' 0,
      co_AllowPrivateNetwork = rs_bool R ''HTTP_MIDDLEWARE_CORS_ALLOW_PRIVATE_NETWORK'' False\<rparr>"

definition load_http :: "readers \<Rightarrow> bool \<Rightarrow> HTTPConfig" where
  "load_http R securityHeadersDefault =
     \<lparr>hc_Addr = rs_string R ''HTTP_ADDR'' '':8080'',
      hc_ReadHeaderTimeout = rs_dur R ''HTTP_READ_HEADER_TIMEOUT'' (5 * second),
      hc_ReadTimeout = rs_dur R ''HTTP_READ_TIMEOUT'' (15 * second),
      hc_WriteTimeout = rs_dur R ''HTTP_WRITE_TIMEOUT'' (15 * second),
      hc_IdleTimeout = rs_dur R ''HTTP_IDLE_TIMEOUT'' (60 * second),
      hc_ShutdownTimeout = rs_dur R ''HTTP_SHUTDOWN_TIMEOUT'' (10 * second),
      hc_MaxHeaderBytes = rs_int R ''HTTP_MAX_HEADER_BYTES'' (2 ^ 20),
      hc_Middleware =
        \<lparr>mw_RequestIDEnabled = rs_bool R ''HTTP_MIDDLEWARE_REQUEST_ID_ENABLED'' True,
         mw_RecovererEnabled = rs_bool R ''HTTP_MIDDLEWARE_RECOVERER_ENABLED'' True,
         mw_MaxBodyBytes = rs_int64 R ''HTTP_MIDDLEWARE_MAX_BODY_BYTES'' (2 ^ 20),
         mw_SecurityHeadersEnabled = rs_bool R ''HTTP_MIDDLEWARE_SECURITY_HEADERS_ENABLED'' securityHeadersDefault,
         mw_RequestTimeout = rs_dur R ''HTTP_MIDDLEWARE_REQUEST_TIMEOUT'' 0,
         mw_AccessLog = load_access_log R,
         mw_ClientIP = \<lparr>cip_TrustedProxies = rs_csv R ''HTTP_TRUSTED_PROXIES'' []\<rparr>,
         mw_CORS = load_cors R,
         mw_TracingExcludePaths = rs_csv R ''HTTP_MIDDLEWARE_TRACING_EXCLUDE_PATHS'' [''/healthz'', ''/readyz'', ''/metrics'']\<rparr>\<rparr>"

definition load_auth :: "readers \<Rightarrow> string \<Rightarrow> string \<Rightarrow> AuthConfig" where
  "load_auth R env serviceName =
     (let issuer = trim_space (rs_string R ''AUTH_TOTP_ISSUER'' []) in
      \<lparr>au_Enabled = rs_bool R ''AUTH_ENABLED'' False,
       au_Mode = rs_string R ''AUTH_MODE'' ''hybrid'',
       au_RegistrationEnabled = rs_bool R ''AUTH_REGISTRATION_ENABLED'' False,
       au_RegistrationAutoLogin = rs_bool R ''AUTH_REGISTRATION_AUTO_LOGIN'' False,
       au_PasswordResetEnabled = rs_bool R ''AUTH_PASSWORD_RESET_ENABLED'' False,
       au_EmailVerificationEnabled = rs_bool R ''AUTH_EMAIL_VERIFICATION_ENABLED'' False,
       au_EmailVerificationRequired = rs_bool R ''AUTH_EMAIL_VERIFICATION_REQUIRED'' True,
       au_TOTPEnabled = rs_bool R ''AUTH_TOTP_ENABLED'' False,
       au_TOTPIssuer = (if issuer = [] then serviceName else issuer),
       au_TOTPEncryptionKey = trim_space (rs_string R ''AUTH_TOTP_ENCRYPTION_KEY'' []),
       au_TOTPEncryptionKeys = trim_space (rs_string R ''AUTH_TOTP_ENCRYPTION_KEYS'' []),
       au_TOTPEncryptionActiveKID = trim_space (rs_string R ''AUTH_TOTP_ENCRYPTION_ACTIVE_KID'' []),
       au_TestOverridesAllowed = isDevOrTestEnv env\<rparr>)"

definition load_postgres :: "readers \<Rightarrow> PostgresConfig" where
  "load_postgres R =
     \<lparr>pg_Enabled = rs_bool R ''POSTGRES_ENABLED'' False,
      pg_URL = rs_string R ''POSTGRES_URL'' [],
      pg_MaxConns = rs_int32 R ''POSTGRES_MAX_CONNS'' 10,
      pg_MinConns = rs_int32 R ''POSTGRES_MIN_CONNS'' 0,
      pg_ConnMaxLifetime = rs_dur R ''POSTGRES_CONN_MAX_LIFETIME'' (30 * minute),
      pg_ConnMaxIdleTime = rs_dur R ''POSTGRES_CONN_MAX_IDLE_TIME'' (5 * minute),
      pg_StartupPingTimeout = rs_dur R ''POSTGRES_STARTUP_PING_TIMEOUT'' (3 * second),
      pg_HealthCheckTimeout = rs_dur R ''POSTGRES_HEALTH_CHECK_TIMEOUT'' (1 * second)\<rparr>"

definition load_redis :: "readers \<Rightarrow> RedisConfig" where
  "load_redis R =
     \<lparr>rd_Enabled = rs_bool R ''REDIS_ENABLED'' False,
      rd_Addr = rs_string R ''REDIS_ADDR'' ''127.0.0.1:6379'',
      rd_Password = rs_string R ''REDIS_PASSWORD'' [],
      rd_DB = rs_int R ''REDIS_DB'' 0,
      rd_DialTimeout = rs_dur R ''REDIS_DIAL_TIMEOUT'' (2 * second),
      rd_ReadTimeout = rs_dur R ''REDIS_READ_TIMEOUT'' (2 * second),
      rd_WriteTimeout = rs_dur R ''REDIS_WRITE_TIMEOUT'' (2 * second),
      rd_PoolSize = rs_int R ''REDIS_POOL_SIZE'' 10,
      rd_MinIdleConns = rs_int R ''REDIS_MIN_IDLE_CONNS'' 0,
      rd_StartupPingTimeout = rs_dur R ''REDIS_STARTUP_PING_TIMEOUT'' (3 * second),
      rd_HealthCheckTimeout = rs_dur R ''REDIS_HEALTH_CHECK_TIMEOUT'' (1 * second)\<rparr>"

definition load_tracing :: "readers \<Rightarrow> bool \<Rightarrow> string \<Rightarrow> TracingConfig" where
  "load_tracing R tracingInsecureDefault serviceName =
     (let name = rs_string R ''TRACING_SERVICE_NAME'' [] in
      \<lparr>trc_Enabled = rs_bool R ''TRACING_ENABLED'' False,
       trc_ServiceName = (if name = [] then serviceName else name),
       trc_Exporter = rs_string R ''TRACING_EXPORTER'' ''otlpgrpc'',
       trc_OTLPEndpoint = rs_string R ''TRACING_OTLP_ENDPOINT'' ''localhost:4317'',
       trc_Sampler = rs_string R ''TRACING_SAMPLER'' ''traceidratio'',
       trc_SampleRatio = rs_float R ''TRACING_SAMPLE_RATIO'' (Finite (5 / 100)),
       trc_Insecure = rs_bool R ''TRACING_INSECURE'' tracingInsecureDefault\<rparr>)"

abbreviation SMTPTLSStartTLS :: string where "SMTPTLSStartTLS \<equiv> ''starttls''"
abbreviation SMTPTLSImplicit :: string where "SMTPTLSImplicit \<equiv> ''implicit''"
abbreviation SMTPTLSNone :: string where "SMTPTLSNone \<equiv> ''none''"

definition DefaultSMTPPort :: "string \<Rightarrow> int" where
  "DefaultSMTPPort mode = (if mode = SMTPTLSImplicit then 465 else if mode = SMTPTLSNone then 25 else 587)"

definition loadSMTP :: "readers \<Rightarrow> SMTPConfig" where
  "loadSMTP R =
     (let mode = to_lower (trim_space (rs_string R ''SMTP_TLS'' SMTPTLSStartTLS)) in
      \<lparr>sm_Host = trim_space (rs_string R ''SMTP_HOST'' []),
       sm_Port = rs_int R ''SMTP_PORT'' (DefaultSMTPPort mode),
       sm_Username = rs_string R ''SMTP_USERNAME'' [],
       sm_Password = rs_string R ''SMTP_PASSWORD'' [],
       sm_From = trim_space (rs_string R ''SMTP_FROM'' []),
       sm_TLS = mode,
       sm_ResetURL = trim_space (rs_string R ''NOTIFY_RESET_URL'' []),
       sm_VerifyURL = trim_space (rs_string R ''NOTIFY_VERIFY_URL'' [])\<rparr>)"

text \<open>What \<open>Load\<close> builds from its readers, and \<open>Load\<close> itself: the profile is active for its duration.\<close>

definition build_config :: "readers \<Rightarrow> string \<Rightarrow> Config" where
  "build_config R profile =
     (let env = rs_string R ''APP_ENV'' ''dev''; prod = is_prod env;
          serviceName = rs_string R ''APP_SERVICE_NAME'' ''api-template''
      in \<lparr>cf_Env = env, cf_Profile = profile, cf_ServiceName = serviceName,
          cf_HTTP = load_http R prod,
          cf_Log = \<lparr>lg_Level = rs_string R ''LOG_LEVEL'' ''info'', lg_Format = rs_string R ''LOG_FORMAT'' ''json''\<rparr>,
          cf_Auth = load_auth R env serviceName,
          cf_RateLimit = \<lparr>rlc_Enabled = rs_bool R ''RATELIMIT_ENABLED'' False,
            rlc_FailOpen = rs_bool R ''RATELIMIT_FAIL_OPEN'' (\<not> prod),
            rlc_DefaultLimit = rs_int R ''RATELIMIT_DEFAULT_LIMIT'' 10,
            rlc_DefaultWindow = rs_dur R ''RATELIMIT_DEFAULT_WINDOW'' minute\<rparr>,
          cf_Cache = \<lparr>ca_Enabled = rs_bool R ''CACHE_ENABLED'' False,
            ca_FailOpen = rs_bool R ''CACHE_FAIL_OPEN'' (\<not> prod),
            ca_DefaultMaxBytes = rs_int R ''CACHE_DEFAULT_MAX_BYTES'' (256 * 1024),
            ca_TagVersionCacheTTL = rs_dur R ''CACHE_TAG_VERSION_CACHE_TTL'' (250 * millisecond)\<rparr>,
          cf_Postgres = load_postgres R,
          cf_Redis = load_redis R,
          cf_Metrics = \<lparr>me_Enabled = rs_bool R ''METRICS_ENABLED'' True,
            me_Path = rs_string R ''METRICS_PATH'' ''/metrics'',
            me_AuthToken = rs_string R ''METRICS_AUTH_TOKEN'' [],
            me_ExcludePaths = rs_csv R ''METRICS_EXCLUDE_PATHS'' [''/healthz'', ''/readyz'']\<rparr>,
          cf_Tracing = load_tracing R (\<not> prod) serviceName,
          cf_Notify = \<lparr>nt_Driver = to_lower (trim_space (rs_string R ''NOTIFY_DRIVER'' ''noop'')),
            nt_LogSecrets = rs_bool R ''NOTIFY_LOG_SECRETS'' False,
            nt_Timeout = rs_dur R ''NOTIFY_TIMEOUT'' (10 * second),
            nt_SMTP = loadSMTP R\<rparr>\<rparr>)"

definition Load :: "floats \<Rightarrow> environ \<Rightarrow> config_error + Config" where
  "Load F env =
     (let profile = trim_space (os_Getenv env ''APP_PROFILE'') in
      case activateProfile profile None of
        Inl e \<Rightarrow> Inl e
      | Inr (active, previous) \<Rightarrow> Inr (build_config (readers_of F env active) profile))"

section \<open>Library parsers\<close>

record url =
  u_Scheme :: string
  u_Host :: string
  u_Path :: string
  u_RawQuery :: string
  u_Fragment :: string
  u_Hostname :: string
  u_Port :: string

datatype base64 = StdEncoding | RawStdEncoding | URLEncoding | RawURLEncoding

type_synonym ip = "nat list"

record netlib =
  nl_ParseURL :: "string \<Rightarrow> url option"
  nl_ParseIP :: "string \<Rightarrow> ip option"
  nl_ParseCIDR :: "string \<Rightarrow> (ip \<times> ip) option"   \<comment> \<open>network number and mask\<close>
  nl_ParseAddress :: "string \<Rightarrow> bool"
  nl_Base64 :: "base64 \<Rightarrow> string \<Rightarrow> string option"
  nl_IPString :: "ip \<Rightarrow> string"
  nl_ParseUint0 :: "string \<Rightarrow> bool"   \<comment> \<open>\<open>strconv.ParseUint(s, 0, 64)\<close> succeeds\<close>

section \<open>Linting\<close>

type_synonym lint = "config_error option"

text \<open>A function that returns its first error is the first \<open>Some\<close> of its checks.\<close>

fun first_error :: "lint list \<Rightarrow> lint" where
  "first_error [] = None"
| "first_error (Some e # cs) = Some e"
| "first_error (None # cs) = first_error cs"

definition refuse :: "bool \<Rightarrow> string \<Rightarrow> lint" where
  "refuse b msg = (if b then Some (ConfigError msg) else None)"

definition contains_any :: "string \<Rightarrow> string \<Rightarrow> bool" where
  "contains_any s chars = list_ex (\<lambda>c. c \<in> set chars) s"

definition containsWildcard :: "string list \<Rightarrow> bool" where
  "containsWildcard items = list_ex (\<lambda>item. trim_space item = ''*'') items"

definition validateOrigin :: "netlib \<Rightarrow> string \<Rightarrow> string \<Rightarrow> lint" where
  "validateOrigin N label origin =
     (let trimmed = trim_space origin in
      if trimmed = [] \<or> trimmed = ''*'' \<or> equal_fold trimmed ''null'' then None
      else (case nl_ParseURL N trimmed of
          None \<Rightarrow> Some (ConfigError (label @ '' contains invalid origin: '' @ quoted origin))
        | Some u \<Rightarrow>
            if u_Scheme u = [] \<or> u_Host u = []
            then Some (ConfigError (label @ '' contains invalid origin: '' @ quoted origin))
            else refuse (u_Path u \<noteq> [] \<or> u_RawQuery u \<noteq> [] \<or> u_Fragment u \<noteq> [])
                   (label @ '' origin must not include path, query, or fragment: '' @ quoted origin)))"

definition validateOrigins :: "netlib \<Rightarrow> string \<Rightarrow> string list \<Rightarrow> lint" where
  "validateOrigins N label origins = first_error (map (validateOrigin N label) origins)"

definition validateTokens :: "string \<Rightarrow> string list \<Rightarrow> lint" where
  "validateTokens label items =
     first_error (map (\<lambda>item. let trimmed = trim_space item in
       if trimmed = [] then None
       else refuse (contains_any trimmed [CHR '' '', CHR 0x09, CHR 0x0D, CHR 0x0A] \<or> CHR '','' \<in> set trimmed)
              (label @ '' contains invalid token: '' @ quoted item)) items)"

definition validateTrustedProxies :: "netlib \<Rightarrow> string list \<Rightarrow> lint" where
  "validateTrustedProxies N items =
     first_error (map (\<lambda>item. let trimmed = trim_space item in
       if trimmed = [] then None
       else if CHR ''/'' \<in> set trimmed
       then refuse (nl_ParseCIDR N trimmed = None) (''http trusted proxy is invalid cidr: '' @ quoted item)
       else refuse (nl_ParseIP N trimmed = None) (''http trusted proxy is invalid ip: '' @ quoted item)) items)"

text \<open>A path list: \<open>blank\<close> tells which entries count as empty.\<close>

definition lint_paths :: "(string \<Rightarrow> bool) \<Rightarrow> string \<Rightarrow> string list \<Rightarrow> lint" where
  "lint_paths blank label ps =
     first_error (map (\<lambda>p. if blank p then Some (ConfigError (label @ '' cannot be empty''))
       else refuse (hd p \<noteq> CHR ''/'') (label @ '' must start with '' @ [CHR 0x27] @ ''/'' @ [CHR 0x27] @ '': '' @ quoted p)) ps)"

definition lint_http :: "netlib \<Rightarrow> Config \<Rightarrow> lint list" where
  "lint_http N c =
     (let h = cf_HTTP c; m = hc_Middleware h; co = mw_CORS m in
      [refuse (cf_ServiceName c = []) ''service name cannot be empty'',
       refuse (trim_space (hc_Addr h) = []) ''http addr cannot be empty'',
       refuse (hc_ReadHeaderTimeout h \<le> 0) ''http read header timeout must be > 0'',
       refuse (hc_ReadTimeout h \<le> 0 \<or> hc_WriteTimeout h \<le> 0) ''http read/write timeout must be > 0'',
       refuse (hc_IdleTimeout h \<le> 0) ''http idle timeout must be > 0'',
       refuse (hc_ShutdownTimeout h \<le> 0) ''http shutdown timeout must be > 0'',
       refuse (hc_MaxHeaderBytes h < 4096) (''http max header bytes too low: '' @ itoa (hc_MaxHeaderBytes h)),
       refuse (mw_MaxBodyBytes m < 0) ''http middleware max body bytes must be >= 0'',
       refuse (mw_RequestTimeout m < 0) ''http middleware request timeout must be >= 0'',
       refuse (mw_RequestTimeout m > 0 \<and> mw_RequestTimeout m > hc_WriteTimeout h)
         ''http middleware request timeout cannot exceed http write timeout'',
       refuse (float_less (al_SampleRate (mw_AccessLog m)) (Finite 0) \<or> float_less (Finite 1) (al_SampleRate (mw_AccessLog m)))
         ''http middleware access log sample rate must be in [0,1]'',
       refuse (al_SlowThreshold (mw_AccessLog m) < 0) ''http middleware access log slow threshold must be >= 0'',
       refuse (co_MaxAge co < 0) ''http middleware cors max age must be >= 0'',
       refuse (co_AllowCredentials co \<and> containsWildcard (co_AllowOrigins co))
         ''http middleware cors allow credentials cannot be used with wildcard allow origins'',
       refuse (ca_TagVersionCacheTTL (cf_Cache c) < 0) ''cache tag version cache ttl must be >= 0'',
       validateOrigins N ''http middleware cors allow origins'' (co_AllowOrigins co),
       validateOrigins N ''http middleware cors deny origins'' (co_DenyOrigins co),
       validateTokens ''http middleware cors allow methods'' (co_AllowMethods co),
       validateTokens ''http middleware cors allow headers'' (co_AllowHeaders co),
       validateTokens ''http middleware cors expose headers'' (co_ExposeHeaders co),
       validateTrustedProxies N (cip_TrustedProxies (mw_ClientIP m)),
       lint_paths (\<lambda>p. trim_space p = []) ''http middleware tracing exclude path'' (mw_TracingExcludePaths m)])"

section \<open>TOTP keys\<close>

abbreviation DefaultTOTPKeyID :: string where "DefaultTOTPKeyID \<equiv> ''default''"

definition key_id_byte :: "char \<Rightarrow> bool" where
  "key_id_byte c \<longleftrightarrow> (65 \<le> byte c \<and> byte c \<le> 90) \<or> (97 \<le> byte c \<and> byte c \<le> 122) \<or> (48 \<le> byte c \<and> byte c \<le> 57) \<or>
     c = CHR ''.'' \<or> c = CHR ''_'' \<or> c = CHR ''-''"

definition ValidTOTPKeyID :: "string \<Rightarrow> bool" where
  "ValidTOTPKeyID kid \<longleftrightarrow> 1 \<le> length kid \<and> length kid \<le> 32 \<and> list_all key_id_byte kid"

definition DecodeKey32 :: "netlib \<Rightarrow> string \<Rightarrow> string + string" where
  "DecodeKey32 N raw0 =
     (let raw = trim_space raw0 in
      case List.find (\<lambda>enc. nl_Base64 N enc raw \<noteq> None) [StdEncoding, RawStdEncoding, URLEncoding, RawURLEncoding] of
        None \<Rightarrow> Inl ''must be base64-encoded''
      | Some enc \<Rightarrow>
          (let key = the (nl_Base64 N enc raw) in
           if length key \<noteq> 32 then Inl (''must decode to 32 bytes, got '' @ itoa (int (length key))) else Inr key))"

record TOTPKeyring =
  kr_Keys :: "(string \<times> string) list"
  kr_ActiveKID :: string
  kr_LegacyKey :: "string option"

text \<open>\<open>strings.Cut\<close> at the first separator byte.\<close>

fun cut :: "char \<Rightarrow> string \<Rightarrow> string \<times> string \<times> bool" where
  "cut sep [] = ([], [], False)"
| "cut sep (c # s) =
     (if c = sep then ([], s, True) else (let (a, b, ok) = cut sep s in (c # a, b, ok)))"

definition keyring_entry :: "netlib \<Rightarrow> bool \<Rightarrow> int \<Rightarrow> string \<Rightarrow> (string \<times> string) list \<Rightarrow> config_error + (string \<times> string) list" where
  "keyring_entry N single i entry0 keys =
     (let entry = trim_space entry0 in
      if entry = [] then Inl (ConfigError (''AUTH_TOTP_ENCRYPTION_KEYS entry '' @ itoa i @ '' is empty (a stray comma?)''))
      else (let (kid0, encoded0, ok) = cut (CHR '':'') entry; kid = trim_space kid0; encoded = trim_space encoded0 in
        if \<not> ok \<or> kid = [] \<or> encoded = []
        then Inl (ConfigError (''AUTH_TOTP_ENCRYPTION_KEYS entry '' @ itoa i @ '' must be kid:base64key''))
        else if \<not> ValidTOTPKeyID kid
        then Inl (ConfigError (''AUTH_TOTP_ENCRYPTION_KEYS: invalid key id '' @ quoted kid))
        else if map_of keys kid \<noteq> None
        then Inl (ConfigError (if kid = DefaultTOTPKeyID \<and> single
               then ''AUTH_TOTP_ENCRYPTION_KEYS: key id '' @ quoted kid @ '' is already taken by AUTH_TOTP_ENCRYPTION_KEY''
               else ''AUTH_TOTP_ENCRYPTION_KEYS: key id '' @ quoted kid @ '' appears more than once''))
        else (case DecodeKey32 N encoded of
            Inl e \<Rightarrow> Inl (ConfigError (''AUTH_TOTP_ENCRYPTION_KEYS key '' @ quoted kid @ '': '' @ e))
          | Inr key \<Rightarrow> Inr (keys @ [(kid, key)]))))"

fun keyring_entries :: "netlib \<Rightarrow> bool \<Rightarrow> int \<Rightarrow> string list \<Rightarrow> (string \<times> string) list \<Rightarrow> config_error + (string \<times> string) list" where
  "keyring_entries N single i [] keys = Inr keys"
| "keyring_entries N single i (e # es) keys =
     (case keyring_entry N single i e keys of Inl err \<Rightarrow> Inl err | Inr keys' \<Rightarrow> keyring_entries N single (i + 1) es keys')"

definition AuthConfig_TOTPKeyring :: "netlib \<Rightarrow> AuthConfig \<Rightarrow> config_error + TOTPKeyring" where
  "AuthConfig_TOTPKeyring N a =
     (let single = trim_space (au_TOTPEncryptionKey a); lst = trim_space (au_TOTPEncryptionKeys a);
          active = trim_space (au_TOTPEncryptionActiveKID a)
      in if single = [] \<and> lst = []
         then Inl (ConfigError ''AUTH_TOTP_ENABLED requires AUTH_TOTP_ENCRYPTION_KEY or AUTH_TOTP_ENCRYPTION_KEYS'')
         else (case (if single = [] then Inr ([], None)
                     else (case DecodeKey32 N single of
                         Inl e \<Rightarrow> Inl (ConfigError (''AUTH_TOTP_ENCRYPTION_KEY: '' @ e))
                       | Inr key \<Rightarrow> Inr ([(DefaultTOTPKeyID, key)], Some key))) of
             Inl e \<Rightarrow> Inl e
           | Inr (keys, legacy) \<Rightarrow>
               if lst = [] then
                 (if active \<noteq> [] \<and> active \<noteq> DefaultTOTPKeyID
                  then Inl (ConfigError (''AUTH_TOTP_ENCRYPTION_ACTIVE_KID='' @ quoted active @ '' but AUTH_TOTP_ENCRYPTION_KEYS is not set''))
                  else Inr \<lparr>kr_Keys = keys, kr_ActiveKID = DefaultTOTPKeyID, kr_LegacyKey = legacy\<rparr>)
               else (case keyring_entries N (single \<noteq> []) 1 (split_on (CHR '','') lst) keys of
                   Inl e \<Rightarrow> Inl e
                 | Inr keys' \<Rightarrow>
                     if active = [] then Inl (ConfigError ''AUTH_TOTP_ENCRYPTION_KEYS requires AUTH_TOTP_ENCRYPTION_ACTIVE_KID'')
                     else if map_of keys' active = None
                     then Inl (ConfigError (''AUTH_TOTP_ENCRYPTION_ACTIVE_KID='' @ quoted active @ '' is not one of the configured keys''))
                     else Inr \<lparr>kr_Keys = keys', kr_ActiveKID = active, kr_LegacyKey = legacy\<rparr>)))"

section \<open>Linting features\<close>

text \<open>\<open>lintAuthFeatures\<close>. The source ranges over a Go map of the four flags, so which of several flags is
  named in the error is left open there; the model takes the order of the literal.\<close>

definition lintAuthFeatures :: "netlib \<Rightarrow> environ \<Rightarrow> Config \<Rightarrow> lint" where
  "lintAuthFeatures N env c =
     (let a = cf_Auth c;
          feature = (\<lambda>name on. refuse (on \<and> \<not> au_Enabled a) (name @ '' requires AUTH_ENABLED=true''))
      in first_error
        ([feature ''AUTH_REGISTRATION_ENABLED'' (au_RegistrationEnabled a),
          feature ''AUTH_PASSWORD_RESET_ENABLED'' (au_PasswordResetEnabled a),
          feature ''AUTH_EMAIL_VERIFICATION_ENABLED'' (au_EmailVerificationEnabled a),
          feature ''AUTH_TOTP_ENABLED'' (au_TOTPEnabled a),
          refuse (au_RegistrationAutoLogin a \<and> \<not> au_RegistrationEnabled a)
            ''AUTH_REGISTRATION_AUTO_LOGIN requires AUTH_REGISTRATION_ENABLED=true'',
          (if au_TOTPEnabled a then (case AuthConfig_TOTPKeyring N a of Inl e \<Rightarrow> Some e | Inr k \<Rightarrow> None) else None)] @
         (if au_TestOverridesAllowed a then []
          else map (\<lambda>key. refuse (trim_space (os_Getenv env key) \<noteq> [])
                 (key @ '' is a performance-testing override and is only allowed with APP_ENV=dev or APP_ENV=test''))
               [''AUTH_TEST_SHARED_SECRET'', ''AUTH_TEST_ACCESS_TTL'', ''AUTH_TEST_REFRESH_TTL''])))"

definition notifyDeliveryFlags :: "Config \<Rightarrow> string list" where
  "notifyDeliveryFlags c =
     (if au_PasswordResetEnabled (cf_Auth c) then [''AUTH_PASSWORD_RESET_ENABLED''] else []) @
     (if au_EmailVerificationEnabled (cf_Auth c) then [''AUTH_EMAIL_VERIFICATION_ENABLED''] else [])"

definition usesNoopNotifier :: "Config \<Rightarrow> bool" where
  "usesNoopNotifier c \<longleftrightarrow> (let driver = to_lower (trim_space (nt_Driver (cf_Notify c))) in driver = [] \<or> driver = ''noop'')"

definition lintNotifyDelivery :: "Config \<Rightarrow> lint" where
  "lintNotifyDelivery c =
     (if notifyDeliveryFlags c = [] \<or> \<not> usesNoopNotifier c \<or> isDevOrTestEnv (cf_Env c) then None
      else Some (ConfigError (join '' and '' (notifyDeliveryFlags c) @ '' needs a notifier that delivers messages, but NOTIFY_DRIVER is noop'')))"

definition Warnings :: "Config \<Rightarrow> string list" where
  "Warnings c =
     (if notifyDeliveryFlags c \<noteq> [] \<and> usesNoopNotifier c
      then [join '' and '' (notifyDeliveryFlags c) @ '' is on but NOTIFY_DRIVER=noop discards every reset and verification message''] else [])"

text \<open>The registered drivers are the list \<open>drivers\<close>; the built-in ones are \<open>noop\<close>, \<open>log\<close> and \<open>smtp\<close>.
  \<open>None\<close> is the panic of \<open>RegisterNotifyDriver\<close> on an empty name.\<close>

definition builtin_drivers :: "string list" where
  "builtin_drivers = [''noop'', ''log'', ''smtp'']"

definition RegisterNotifyDriver :: "string \<Rightarrow> string list \<Rightarrow> string list option" where
  "RegisterNotifyDriver name0 drivers =
     (let name = to_lower (trim_space name0) in if name = [] then None else Some (List.insert name drivers))"

definition NotifyDriverNames :: "string list \<Rightarrow> string list" where
  "NotifyDriverNames drivers = sort drivers"

definition notifyDriverKnown :: "string list \<Rightarrow> string \<Rightarrow> bool" where
  "notifyDriverKnown drivers name \<longleftrightarrow> to_lower (trim_space name) \<in> set drivers"

definition lintNotifyDriver :: "string list \<Rightarrow> Config \<Rightarrow> lint" where
  "lintNotifyDriver drivers c =
     refuse (\<not> notifyDriverKnown drivers (nt_Driver (cf_Notify c)))
       (''invalid notify driver: '' @ quoted (nt_Driver (cf_Notify c)) @ '' (valid: '' @ join '', '' (NotifyDriverNames drivers) @ '')'')"

subsection \<open>Link templates and SMTP\<close>

abbreviation TokenPlaceholder :: string where "TokenPlaceholder \<equiv> ''{token}''"

text \<open>\<open>strings.Count\<close> and the first replacement of \<open>strings.Replace\<close>, for a non-empty pattern.\<close>

function count_str :: "string \<Rightarrow> string \<Rightarrow> nat" where
  "count_str p s =
     (if p = [] \<or> s = [] then 0
      else if has_prefix p s then Suc (count_str p (drop (length p) s)) else count_str p (tl s))"
  by pat_completeness auto
termination
proof (relation "measure (\<lambda>(p, s). length s)", goal_cases)
  case (2 p s)
  then show ?case by (cases p; cases s) auto
next
  case (3 p s)
  then show ?case by (cases s) auto
qed simp

declare count_str.simps [simp del]

fun replace_first :: "string \<Rightarrow> string \<Rightarrow> string \<Rightarrow> string" where
  "replace_first p q [] = []"
| "replace_first p q (c # s) =
     (if has_prefix p (c # s) then q @ drop (length p) (c # s) else c # replace_first p q s)"

definition ValidateLinkTemplate :: "netlib \<Rightarrow> string \<Rightarrow> string option" where
  "ValidateLinkTemplate N tmpl =
     (if contains_any tmpl [CHR '' '', CHR 0x0D, CHR 0x0A, CHR 0x09] then Some ''must not contain whitespace''
      else if count_str TokenPlaceholder tmpl \<noteq> 1
      then Some (''must contain {token} exactly once, found '' @ itoa (int (count_str TokenPlaceholder tmpl)))
      else (case nl_ParseURL N (replace_first TokenPlaceholder ''token'' tmpl) of
          None \<Rightarrow> Some ''is not a valid URL''
        | Some u \<Rightarrow>
            if u_Scheme u \<noteq> ''http'' \<and> u_Scheme u \<noteq> ''https''
            then Some (''must be an absolute http(s) URL, got scheme '' @ quoted (u_Scheme u))
            else if u_Hostname u = [] then Some ''must include a host''
            else if u_Port u \<noteq> [] \<and> (case parse_int 64 (u_Port u) of None \<Rightarrow> True | Some n \<Rightarrow> n < 1 \<or> n > 65535)
            then Some (''has an invalid port '' @ quoted (u_Port u)) else None))"

definition lint_template :: "netlib \<Rightarrow> string \<Rightarrow> string \<Rightarrow> lint" where
  "lint_template N label tmpl =
     (if tmpl = [] then None
      else map_option (\<lambda>e. ConfigError (label @ '': '' @ e)) (ValidateLinkTemplate N tmpl))"

definition lintSMTP :: "netlib \<Rightarrow> Config \<Rightarrow> lint" where
  "lintSMTP N c =
     (if to_lower (trim_space (nt_Driver (cf_Notify c))) \<noteq> ''smtp'' then None
      else (let s = nt_SMTP (cf_Notify c); crlf = [CHR 0x0D, CHR 0x0A] in
        first_error
         [refuse (sm_Host s = []) ''NOTIFY_DRIVER=smtp requires SMTP_HOST'',
          refuse (contains_any (sm_Host s) ('' /'' @ [CHR 0x5C] @ ''@:?#'' @ crlf)) (''SMTP_HOST must be a bare host name or IP address: '' @ quoted (sm_Host s)),
          refuse (sm_Port s < 1 \<or> sm_Port s > 65535) (''SMTP_PORT must be between 1 and 65535, got '' @ itoa (sm_Port s)),
          (if sm_TLS s = SMTPTLSStartTLS \<or> sm_TLS s = SMTPTLSImplicit then None
           else if sm_TLS s = SMTPTLSNone
           then refuse (\<not> equal_fold (trim_space (cf_Env c)) ''dev'')
                  ''SMTP_TLS=none sends mail and credentials in the clear and is only allowed with APP_ENV=dev''
           else Some (ConfigError (''invalid SMTP_TLS: '' @ quoted (sm_TLS s)))),
          refuse ((sm_Username s = []) \<noteq> (sm_Password s = [])) ''SMTP_USERNAME and SMTP_PASSWORD must be set together'',
          refuse (contains_any (sm_Username s @ sm_Password s) crlf) ''SMTP_USERNAME and SMTP_PASSWORD must not contain line breaks'',
          refuse (sm_From s = []) ''NOTIFY_DRIVER=smtp requires SMTP_FROM'',
          refuse (contains_any (sm_From s) crlf) ''SMTP_FROM must not contain line breaks'',
          refuse (\<not> nl_ParseAddress N (sm_From s)) ''SMTP_FROM is not a valid address'',
          refuse (au_PasswordResetEnabled (cf_Auth c) \<and> sm_ResetURL s = [])
            ''AUTH_PASSWORD_RESET_ENABLED with NOTIFY_DRIVER=smtp requires NOTIFY_RESET_URL'',
          refuse (au_EmailVerificationEnabled (cf_Auth c) \<and> sm_VerifyURL s = [])
            ''AUTH_EMAIL_VERIFICATION_ENABLED with NOTIFY_DRIVER=smtp requires NOTIFY_VERIFY_URL'',
          lint_template N ''NOTIFY_RESET_URL'' (sm_ResetURL s),
          lint_template N ''NOTIFY_VERIFY_URL'' (sm_VerifyURL s)]))"

subsection \<open>WebAuthn\<close>

definition isNumericLabel :: "netlib \<Rightarrow> string \<Rightarrow> bool" where
  "isNumericLabel N label \<longleftrightarrow>
     (if label = [] then False else if list_all digit label then True else nl_ParseUint0 N label)"

text \<open>The checks on one label, in order. Bytes above \<open>0x7F\<close> belong to runes above it.\<close>

definition check_label :: "string \<Rightarrow> string option" where
  "check_label label =
     (if label = [] then Some ''contains an empty label''
      else if length label > 63 then Some ''a label is longer than 63 characters''
      else if hd label = CHR ''-'' \<or> last label = CHR ''-'' then Some ''a label begins or ends with a hyphen''
      else if contains_any label ('' #/:<>?@['' @ [CHR 0x5C] @ '']^|%'')
      then Some ''contains a forbidden character (scheme, port, path and similar are not allowed)''
      else (case List.find (\<lambda>c. byte c < 32 \<or> byte c \<ge> 127) label of
          None \<Rightarrow> None
        | Some c \<Rightarrow> if byte c < 32 \<or> byte c = 127 then Some ''contains a control character''
            else Some ''contains a non-ASCII character (apply IDNA/punycode first)''))"

fun check_labels :: "string list \<Rightarrow> string option" where
  "check_labels [] = None"
| "check_labels (l # ls) = (case check_label l of Some e \<Rightarrow> Some e | None \<Rightarrow> check_labels ls)"

definition ValidateRPID :: "netlib \<Rightarrow> string \<Rightarrow> string option" where
  "ValidateRPID N value =
     (if value = [] then Some ''empty value''
      else if nl_ParseIP N value \<noteq> None then Some ''an IP address is not a domain''
      else if length value > 253 then Some ''longer than 253 characters''
      else (let labels = split_on (CHR ''.'') value in
        case check_labels labels of
          Some e \<Rightarrow> Some e
        | None \<Rightarrow>
            if isNumericLabel N (last labels) then Some ''the last label must not be a number''
            else if length labels = 1 \<and> value \<noteq> ''localhost'' then Some ''a single-label name is not a domain (only localhost is allowed)''
            else None))"

definition lintWebAuthn :: "netlib \<Rightarrow> environ \<Rightarrow> lint" where
  "lintWebAuthn N env =
     (if to_lower (trim_space (os_Getenv env ''WEBAUTHN_ENABLED'')) \<notin> set [''1'', ''t'', ''true'', ''yes'', ''y'', ''on''] then None
      else (let rpID = trim_space (os_Getenv env ''WEBAUTHN_RP_ID'') in
        if rpID = [] then Some (ConfigError ''WEBAUTHN_RP_ID is required when WEBAUTHN_ENABLED=true'')
        else map_option (\<lambda>e. ConfigError (''WEBAUTHN_RP_ID '' @ quoted rpID @ '' is not a valid relying party ID: '' @ e)) (ValidateRPID N rpID)))"

section \<open>Lint\<close>

definition lint_auth :: "netlib \<Rightarrow> string list \<Rightarrow> environ \<Rightarrow> Config \<Rightarrow> lint list" where
  "lint_auth N drivers env c =
     (let a = cf_Auth c; n = cf_Notify c in
      [refuse (to_lower (trim_space (au_Mode a)) \<notin> set [''jwt_only'', ''jwt-only'', ''jwtonly'', ''hybrid'', ''strict'', []])
         (''invalid auth mode: '' @ quoted (au_Mode a) @ '' (valid: jwt_only, hybrid, strict)''),
       refuse (au_Enabled a \<and> \<not> rd_Enabled (cf_Redis c)) ''auth enabled requires redis enabled'',
       refuse (au_Enabled a \<and> \<not> pg_Enabled (cf_Postgres c)) ''auth enabled requires postgres enabled'',
       lintAuthFeatures N env c,
       lintWebAuthn N env,
       lintNotifyDriver drivers c,
       lintSMTP N c,
       lintNotifyDelivery c,
       refuse (nt_LogSecrets n \<and> \<not> equal_fold (trim_space (cf_Env c)) ''dev'')
         ''NOTIFY_LOG_SECRETS=true is only allowed with APP_ENV=dev'',
       refuse (nt_Timeout n \<le> 0) ''notify timeout must be > 0''])"

definition lint_limits :: "Config \<Rightarrow> lint list" where
  "lint_limits c =
     (let rl = cf_RateLimit c; ca = cf_Cache c in
      [refuse (rlc_Enabled rl \<and> \<not> rd_Enabled (cf_Redis c)) ''ratelimit enabled requires redis enabled'',
       refuse (ca_Enabled ca \<and> \<not> rd_Enabled (cf_Redis c)) ''cache enabled requires redis enabled'',
       refuse (rlc_DefaultLimit rl \<le> 0) ''ratelimit default limit must be > 0'',
       refuse (rlc_DefaultWindow rl \<le> 0) ''ratelimit default window must be > 0'',
       refuse (ca_DefaultMaxBytes ca \<le> 0) ''cache default max bytes must be > 0'',
       refuse (is_prod (cf_Env c) \<and> rlc_Enabled rl \<and> rlc_FailOpen rl) ''ratelimit fail-open cannot be enabled in prod'',
       refuse (is_prod (cf_Env c) \<and> ca_Enabled ca \<and> ca_FailOpen ca) ''cache fail-open cannot be enabled in prod'',
       lint_paths (\<lambda>p. p = []) ''http middleware access log exclude path'' (al_ExcludePaths (mw_AccessLog (hc_Middleware (cf_HTTP c))))])"

definition lint_postgres :: "PostgresConfig \<Rightarrow> lint list" where
  "lint_postgres p =
     [refuse (pg_Enabled p \<and> pg_URL p = []) ''postgres url cannot be empty when enabled'',
      refuse (pg_MaxConns p \<le> 0) ''postgres max conns must be > 0'',
      refuse (pg_MinConns p < 0) ''postgres min conns must be >= 0'',
      refuse (pg_MinConns p > pg_MaxConns p) ''postgres min conns cannot exceed max conns'',
      refuse (pg_ConnMaxLifetime p < 0) ''postgres conn max lifetime must be >= 0'',
      refuse (pg_ConnMaxIdleTime p < 0) ''postgres conn max idle time must be >= 0'',
      refuse (pg_StartupPingTimeout p \<le> 0) ''postgres startup ping timeout must be > 0'',
      refuse (pg_HealthCheckTimeout p \<le> 0) ''postgres health check timeout must be > 0'']"

definition lint_redis :: "RedisConfig \<Rightarrow> lint list" where
  "lint_redis r =
     [refuse (rd_Enabled r \<and> rd_Addr r = []) ''redis addr cannot be empty when enabled'',
      refuse (rd_DB r < 0) ''redis db must be >= 0'',
      refuse (rd_PoolSize r \<le> 0) ''redis pool size must be > 0'',
      refuse (rd_MinIdleConns r < 0) ''redis min idle conns must be >= 0'',
      refuse (rd_MinIdleConns r > rd_PoolSize r) ''redis min idle conns cannot exceed pool size'',
      refuse (rd_DialTimeout r \<le> 0) ''redis dial timeout must be > 0'',
      refuse (rd_ReadTimeout r \<le> 0) ''redis read timeout must be > 0'',
      refuse (rd_WriteTimeout r \<le> 0) ''redis write timeout must be > 0'',
      refuse (rd_StartupPingTimeout r \<le> 0) ''redis startup ping timeout must be > 0'',
      refuse (rd_HealthCheckTimeout r \<le> 0) ''redis health check timeout must be > 0'']"

definition lint_observability :: "Config \<Rightarrow> lint list" where
  "lint_observability c =
     (let m = cf_Metrics c; t = cf_Tracing c in
      [refuse (me_Path m = []) ''metrics path cannot be empty'',
       refuse (hd (me_Path m) \<noteq> CHR ''/'') (''metrics path must start with '' @ [CHR 0x27] @ ''/'' @ [CHR 0x27]),
       lint_paths (\<lambda>p. trim_space p = []) ''metrics exclude path'' (me_ExcludePaths m),
       refuse (is_prod (cf_Env c) \<and> me_Enabled m \<and> trim_space (me_AuthToken m) = [])
         ''metrics auth token cannot be empty in prod when metrics is enabled''] @
      (if trc_Enabled t then
         [refuse (trc_ServiceName t = []) ''tracing service name cannot be empty when enabled'',
          refuse (trc_OTLPEndpoint t = []) ''tracing otlp endpoint cannot be empty when enabled'',
          refuse (trc_Exporter t \<noteq> ''otlpgrpc'') (''invalid tracing exporter: '' @ quoted (trc_Exporter t) @ '' (valid: otlpgrpc)''),
          refuse (trc_Sampler t \<notin> set [''always_on'', ''always_off'', ''traceidratio''])
            (''invalid tracing sampler: '' @ quoted (trc_Sampler t) @ '' (valid: always_on, always_off, traceidratio)''),
          refuse (float_less (trc_SampleRatio t) (Finite 0) \<or> float_less (Finite 1) (trc_SampleRatio t))
            ''tracing sample ratio must be in [0,1]'']
       else []))"

text \<open>The formats of the environment variables, in the order of the calls. The first three are written out in
  the source like \<open>lintBoolEnv\<close>.\<close>

definition lint_env_http :: "floats \<Rightarrow> environ \<Rightarrow> lint list" where
  "lint_env_http F env =
     [lintBoolEnv env ''HTTP_MIDDLEWARE_REQUEST_ID_ENABLED'',
      lintBoolEnv env ''HTTP_MIDDLEWARE_RECOVERER_ENABLED'',
      lintBoolEnv env ''HTTP_MIDDLEWARE_SECURITY_HEADERS_ENABLED'',
      lintDurationEnv F env ''HTTP_MIDDLEWARE_REQUEST_TIMEOUT'',
      (case env ''HTTP_MIDDLEWARE_REQUEST_TIMEOUT'' of
         None \<Rightarrow> None
       | Some v \<Rightarrow> (case parse_duration (fl_frac F) v of
           None \<Rightarrow> None
         | Some d \<Rightarrow> refuse (d < 0) ''http middleware request timeout must be >= 0'')),
      (case env ''HTTP_ADDR'' of None \<Rightarrow> None | Some v \<Rightarrow> refuse (trim_space v = []) ''http addr cannot be empty''),
      lintBoolEnv env ''HTTP_MIDDLEWARE_ACCESS_LOG_ENABLED'',
      lintBoolEnv env ''HTTP_MIDDLEWARE_CORS_ENABLED'',
      lintBoolEnv env ''HTTP_MIDDLEWARE_CORS_ALLOW_CREDENTIALS'',
      lintBoolEnv env ''HTTP_MIDDLEWARE_CORS_ALLOW_PRIVATE_NETWORK'',
      lintBoolEnv env ''AUTH_ENABLED'',
      lintBoolEnv env ''RATELIMIT_ENABLED'',
      lintBoolEnv env ''RATELIMIT_FAIL_OPEN'',
      lintIntEnv env ''RATELIMIT_DEFAULT_LIMIT'',
      lintDurationEnv F env ''RATELIMIT_DEFAULT_WINDOW'',
      lintIntEnv env ''HTTP_MAX_HEADER_BYTES'',
      lintInt64Env env ''HTTP_MIDDLEWARE_MAX_BODY_BYTES'',
      lintDurationEnv F env ''HTTP_READ_HEADER_TIMEOUT'',
      lintDurationEnv F env ''HTTP_READ_TIMEOUT'',
      lintDurationEnv F env ''HTTP_WRITE_TIMEOUT'',
      lintDurationEnv F env ''HTTP_IDLE_TIMEOUT'',
      lintDurationEnv F env ''HTTP_SHUTDOWN_TIMEOUT'',
      lintDurationEnv F env ''HTTP_MIDDLEWARE_CORS_MAX_AGE'',
      lintDurationEnv F env ''CACHE_TAG_VERSION_CACHE_TTL'',
      lintFloat64Env F env ''HTTP_MIDDLEWARE_ACCESS_LOG_SAMPLE_RATE'',
      lintDurationEnv F env ''HTTP_MIDDLEWARE_ACCESS_LOG_SLOW_THRESHOLD'',
      lintBoolEnv env ''HTTP_MIDDLEWARE_ACCESS_LOG_INCLUDE_USER_AGENT'',
      lintBoolEnv env ''HTTP_MIDDLEWARE_ACCESS_LOG_INCLUDE_REMOTE_IP'']"

definition lint_env_stores :: "floats \<Rightarrow> environ \<Rightarrow> lint list" where
  "lint_env_stores F env =
     [lintBoolEnv env ''POSTGRES_ENABLED'',
      lintInt32Env env ''POSTGRES_MAX_CONNS'',
      lintInt32Env env ''POSTGRES_MIN_CONNS'',
      lintDurationEnv F env ''POSTGRES_CONN_MAX_LIFETIME'',
      lintDurationEnv F env ''POSTGRES_CONN_MAX_IDLE_TIME'',
      lintDurationEnv F env ''POSTGRES_STARTUP_PING_TIMEOUT'',
      lintDurationEnv F env ''POSTGRES_HEALTH_CHECK_TIMEOUT'',
      lintBoolEnv env ''REDIS_ENABLED'',
      lintIntEnv env ''REDIS_DB'',
      lintIntEnv env ''REDIS_POOL_SIZE'',
      lintIntEnv env ''REDIS_MIN_IDLE_CONNS'',
      lintDurationEnv F env ''REDIS_DIAL_TIMEOUT'',
      lintDurationEnv F env ''REDIS_READ_TIMEOUT'',
      lintDurationEnv F env ''REDIS_WRITE_TIMEOUT'',
      lintDurationEnv F env ''REDIS_STARTUP_PING_TIMEOUT'',
      lintDurationEnv F env ''REDIS_HEALTH_CHECK_TIMEOUT'',
      lintBoolEnv env ''METRICS_ENABLED'',
      lintBoolEnv env ''TRACING_ENABLED'',
      lintFloat64Env F env ''TRACING_SAMPLE_RATIO'',
      lintBoolEnv env ''TRACING_INSECURE'']"

definition lint_log :: "LogConfig \<Rightarrow> lint list" where
  "lint_log l =
     [refuse (lg_Level l \<notin> set [''debug'', ''info'', ''warn'', ''warning'', ''error'', ''fatal'', []])
        (''invalid log level: '' @ quoted (lg_Level l) @ '' (valid: debug, info, warn, error, fatal)''),
      refuse (lg_Format l \<notin> set [''json'', ''text'', []])
        (''invalid log format: '' @ quoted (lg_Format l) @ '' (valid: json, text)'')]"

definition lint_profile :: "environ \<Rightarrow> lint" where
  "lint_profile env =
     (let profile = trim_space (os_Getenv env ''APP_PROFILE'') in
      if profile = [] then None
      else (case resolveProfileDefaults profile of Inl e \<Rightarrow> Some e | Inr d \<Rightarrow> None))"

definition Lint :: "floats \<Rightarrow> netlib \<Rightarrow> string list \<Rightarrow> environ \<Rightarrow> Config \<Rightarrow> lint" where
  "Lint F N drivers env c = first_error
     ([lint_profile env] @ lint_http N c @ lint_auth N drivers env c @ lint_limits c @ lint_postgres (cf_Postgres c) @
      lint_redis (cf_Redis c) @ lint_observability c @ lint_env_http F env @ lint_env_stores F env @ lint_log (cf_Log c))"

section \<open>What a checked configuration guarantees\<close>

lemma first_error_None: "first_error cs = None \<longleftrightarrow> list_all (\<lambda>c. c = None) cs"
  by (induction cs rule: first_error.induct) auto

lemma refuse_None [simp]: "refuse b msg = None \<longleftrightarrow> \<not> b"
  by (simp add: refuse_def)

lemma lint_parse_None: "lint_parse parse env key = None \<longleftrightarrow> (\<forall>v. env key = Some v \<longrightarrow> parse v \<noteq> None)"
  by (auto simp: lint_parse_def split: option.splits)

text \<open>One fact per group of checks, so that a property unfolds only the groups it is about.\<close>

lemma Lint_groups:
  assumes "Lint F N drivers env c = None"
  shows "lint_profile env = None" and "first_error (lint_http N c) = None" and "first_error (lint_auth N drivers env c) = None"
    and "first_error (lint_limits c) = None" and "first_error (lint_postgres (cf_Postgres c)) = None"
    and "first_error (lint_redis (cf_Redis c)) = None" and "first_error (lint_observability c) = None"
    and "first_error (lint_env_http F env) = None" and "first_error (lint_env_stores F env) = None"
    and "first_error (lint_log (cf_Log c)) = None"
  using assms by (simp_all add: Lint_def first_error_None)

lemma lintSMTP_clear:
  assumes "lintSMTP N c = None" and "to_lower (trim_space (nt_Driver (cf_Notify c))) = ''smtp''"
  shows "sm_TLS (nt_SMTP (cf_Notify c)) = SMTPTLSNone \<longrightarrow> equal_fold (trim_space (cf_Env c)) ''dev''"
  using assms by (auto simp: lintSMTP_def first_error_None Let_def)


text \<open>Library parsers that accept nothing, for evaluating the model on settings that need none of them.\<close>

definition no_floats :: floats where
  "no_floats = \<lparr>fl_parse = \<lambda>s. None, fl_frac = \<lambda>f u s. 0\<rparr>"

definition no_netlib :: netlib where
  "no_netlib = \<lparr>nl_ParseURL = \<lambda>s. None, nl_ParseIP = \<lambda>s. None, nl_ParseCIDR = \<lambda>s. None, nl_ParseAddress = \<lambda>s. False,
     nl_Base64 = \<lambda>e s. None, nl_IPString = \<lambda>a. [], nl_ParseUint0 = \<lambda>s. False\<rparr>"

definition config_of :: "environ \<Rightarrow> Config" where
  "config_of env = build_config (readers_of no_floats env None) []"

lemma empty_reader [simp]:
  "os_Getenv Map.empty k = []" "raw_value Map.empty None k = []" "parsed p [] fb = fb"
  "getCSV Map.empty None k fb' = fb'"
  by (simp_all add: os_Getenv_def raw_value_def profileDefaultValue_def parsed_def getCSV_def Let_def)

lemma default_readers:
  "readers_of F Map.empty None = \<lparr>rs_string = \<lambda>k fb. fb, rs_int = \<lambda>k fb. fb, rs_int32 = \<lambda>k fb. fb, rs_int64 = \<lambda>k fb. fb,
     rs_bool = \<lambda>k fb. fb, rs_dur = \<lambda>k fb. fb, rs_float = \<lambda>k fb. fb, rs_csv = \<lambda>k fb. fb\<rparr>"
  by (simp add: readers_of_def fun_eq_iff getenv_def getInt_def getInt32_def getInt64_def getBool_def getDuration_def getFloat64_def)

lemma lint_parse_unset [simp]: "lint_parse p Map.empty k = None"
  by (simp add: lint_parse_def)

lemmas lint_env_defs = lint_env_http_def lint_env_stores_def lintBoolEnv_def lintIntEnv_def lintInt32Env_def lintInt64Env_def
  lintDurationEnv_def lintFloat64Env_def

lemma default_env_formats: "first_error (lint_env_http F Map.empty) = None" "first_error (lint_env_stores F Map.empty) = None"
  by (simp_all add: lint_env_defs)

lemma default_words:
  "trim_space '':8080'' = '':8080''" "trim_space ''/healthz'' = ''/healthz''" "trim_space ''/readyz'' = ''/readyz''"
  "trim_space ''/metrics'' = ''/metrics''" "to_lower (trim_space ''hybrid'') = ''hybrid''"
  "to_lower (trim_space ''noop'') = ''noop''" "to_lower (trim_space ''starttls'') = ''starttls''"
  "is_prod ''dev'' = False" "isDevOrTestEnv ''dev'' = True"
  by code_simp+

lemmas default_defs = first_error_None config_of_def build_config_def default_readers default_words Let_def lint_paths_def

lemma default_groups:
  "lint_profile Map.empty = None" "lintWebAuthn N Map.empty = None"
  "first_error (lint_http N (config_of Map.empty)) = None"
  "first_error (lint_auth N builtin_drivers Map.empty (config_of Map.empty)) = None"
  "first_error (lint_limits (config_of Map.empty)) = None"
  "first_error (lint_postgres (cf_Postgres (config_of Map.empty))) = None"
  "first_error (lint_redis (cf_Redis (config_of Map.empty))) = None"
  "first_error (lint_observability (config_of Map.empty)) = None"
  "first_error (lint_log (cf_Log (config_of Map.empty))) = None"
  subgoal by (simp add: lint_profile_def)
  subgoal by (simp add: lintWebAuthn_def)
  subgoal by (simp add: lint_http_def default_defs load_http_def load_cors_def load_access_log_def
     validateOrigins_def validateTokens_def validateTrustedProxies_def containsWildcard_def)
  subgoal by (simp add: lint_auth_def default_defs load_auth_def load_redis_def load_postgres_def
    lintAuthFeatures_def lintWebAuthn_def lintNotifyDriver_def lintSMTP_def lintNotifyDelivery_def notifyDeliveryFlags_def notifyDriverKnown_def builtin_drivers_def)
  subgoal by (simp add: lint_limits_def default_defs load_http_def load_access_log_def)
  subgoal by (simp add: lint_postgres_def default_defs load_postgres_def)
  subgoal by (simp add: lint_redis_def default_defs load_redis_def)
  subgoal by (simp add: lint_observability_def default_defs load_tracing_def)
  subgoal by (simp add: lint_log_def default_defs)
  done

lemma default_config_accepted: "Lint no_floats no_netlib builtin_drivers Map.empty (config_of Map.empty) = None"
  using default_groups default_env_formats by (simp add: Lint_def first_error_None)


section \<open>The key ring\<close>

text \<open>The invariant of the key list: distinct valid identifiers, 32-byte keys.\<close>

definition keys_valid :: "(string \<times> string) list \<Rightarrow> bool" where
  "keys_valid keys \<longleftrightarrow> distinct (map fst keys) \<and> list_all (\<lambda>(kid, key). ValidTOTPKeyID kid \<and> length key = 32) keys"

lemma DecodeKey32_length: "DecodeKey32 N raw = Inr key \<Longrightarrow> length key = 32"
  by (auto simp: DecodeKey32_def Let_def split: option.splits if_splits)

lemma keyring_entry_extends:
  assumes "keyring_entry N single i e keys = Inr keys'" and "keys_valid keys"
  shows "keys_valid keys'" and "\<exists>kv. keys' = keys @ [kv]"
proof -
  from assms(1) obtain kid key where k: "keys' = keys @ [(kid, key)]" "map_of keys kid = None" "ValidTOTPKeyID kid" "length key = 32"
    by (auto simp: keyring_entry_def Let_def DecodeKey32_length split: if_splits sum.splits prod.splits)
  from k(2) have "kid \<notin> set (map fst keys)" by (simp add: map_of_eq_None_iff)
  with k assms(2) show "keys_valid keys'" by (simp add: keys_valid_def)
  from k(1) show "\<exists>kv. keys' = keys @ [kv]" by blast
qed

lemma keyring_entries_extend:
  "keyring_entries N single i es keys = Inr keys' \<Longrightarrow> keys_valid keys \<Longrightarrow>
     keys_valid keys' \<and> (\<exists>ks. keys' = keys @ ks \<and> length ks = length es)"
proof (induction N single i es keys rule: keyring_entries.induct)
  case (2 N single i e es keys)
  then obtain mid where mid: "keyring_entry N single i e keys = Inr mid" "keyring_entries N single (i + 1) es mid = Inr keys'"
    by (auto split: sum.splits)
  from keyring_entry_extends [OF mid(1) 2(3)] obtain kv where "keys_valid mid" "mid = keys @ [kv]" by blast
  with 2(1) [OF mid(1) mid(2)] show ?case by auto
qed simp

lemma keys_valid_default: "length key = 32 \<Longrightarrow> keys_valid [(DefaultTOTPKeyID, key)]"
proof -
  have "ValidTOTPKeyID DefaultTOTPKeyID" by code_simp
  then show "length key = 32 \<Longrightarrow> ?thesis" by (simp add: keys_valid_def)
qed

lemma keyring_usable:
  assumes "AuthConfig_TOTPKeyring N a = Inr ring"
  shows "keys_valid (kr_Keys ring) \<and>
    (\<exists>key. map_of (kr_Keys ring) (kr_ActiveKID ring) = Some key \<and> length key = 32) \<and>
    (\<forall>key. kr_LegacyKey ring = Some key \<longrightarrow> map_of (kr_Keys ring) DefaultTOTPKeyID = Some key) \<and>
    length (kr_Keys ring) = (if trim_space (au_TOTPEncryptionKey a) = [] then 0 else 1) +
      (if trim_space (au_TOTPEncryptionKeys a) = [] then 0 else length (split_on (CHR '','') (trim_space (au_TOTPEncryptionKeys a))))"
proof -
  let ?single = "trim_space (au_TOTPEncryptionKey a)" and ?lst = "trim_space (au_TOTPEncryptionKeys a)"
  obtain keys0 where start: "keys_valid keys0" "length keys0 = (if ?single = [] then 0 else 1)"
      "\<forall>key. kr_LegacyKey ring = Some key \<longrightarrow> keys0 = [(DefaultTOTPKeyID, key)]"
    and rest: "(if ?lst = [] then ?single \<noteq> [] \<and> kr_Keys ring = keys0 \<and> kr_ActiveKID ring = DefaultTOTPKeyID \<and> (\<exists>key. keys0 = [(DefaultTOTPKeyID, key)])
       else keyring_entries N (?single \<noteq> []) 1 (split_on (CHR '','') ?lst) keys0 = Inr (kr_Keys ring) \<and>
            map_of (kr_Keys ring) (kr_ActiveKID ring) \<noteq> None)"
  proof (cases "?single = []")
    case True
    have "keys_valid []" by (simp add: keys_valid_def)
    with assms True show ?thesis
      by (intro that [of "[]"]) (auto simp: AuthConfig_TOTPKeyring_def Let_def split: if_splits sum.splits)
  next
    case False
    with assms obtain key where key: "DecodeKey32 N ?single = Inr key"
      by (auto simp: AuthConfig_TOTPKeyring_def Let_def split: sum.splits)
    show ?thesis
      using assms False key keys_valid_default [OF DecodeKey32_length [OF key]]
      by (intro that [of "[(DefaultTOTPKeyID, key)]"]) (auto simp: AuthConfig_TOTPKeyring_def Let_def split: if_splits sum.splits)
  qed
  obtain ks where ks: "kr_Keys ring = keys0 @ ks" "keys_valid (kr_Keys ring)"
      "length ks = (if ?lst = [] then 0 else length (split_on (CHR '','') ?lst))"
  proof (cases "?lst = []")
    case True
    with rest start show ?thesis by (intro that [of "[]"]) auto
  next
    case False
    with rest have "keyring_entries N (?single \<noteq> []) 1 (split_on (CHR '','') ?lst) keys0 = Inr (kr_Keys ring)" by simp
    from keyring_entries_extend [OF this start(1)] False show ?thesis by (auto intro: that)
  qed
  have "map_of (kr_Keys ring) (kr_ActiveKID ring) \<noteq> None" using rest by (auto split: if_splits)
  then obtain key where key: "map_of (kr_Keys ring) (kr_ActiveKID ring) = Some key" by blast
  with ks(2) have "length key = 32" by (auto simp: keys_valid_def list_all_iff dest: map_of_SomeD)
  with key ks start show ?thesis by auto
qed

text \<open>
  A key ring that the settings decode to is usable: its key identifiers are valid and pairwise different,
  every key has 32 bytes, the active identifier names one of the keys, and the legacy key, when
  there is one, is the key stored under \<open>default\<close>. Every entry of the list setting contributes a key:
  none is dropped or overwritten.
\<close>

theorem keyring_sound:
  assumes "AuthConfig_TOTPKeyring N a = Inr ring"
  shows "keys_valid (kr_Keys ring) \<and>
    (\<exists>key. map_of (kr_Keys ring) (kr_ActiveKID ring) = Some key \<and> length key = 32) \<and>
    (\<forall>key. kr_LegacyKey ring = Some key \<longrightarrow> map_of (kr_Keys ring) DefaultTOTPKeyID = Some key) \<and>
    length (kr_Keys ring) = (if trim_space (au_TOTPEncryptionKey a) = [] then 0 else 1) +
      (if trim_space (au_TOTPEncryptionKeys a) = [] then 0 else length (split_on (CHR '','') (trim_space (au_TOTPEncryptionKeys a))))"
  using keyring_usable [OF assms] .

definition sample_auth :: AuthConfig where
  "sample_auth = cf_Auth (config_of Map.empty)\<lparr>au_TOTPEncryptionKey := ''old'', au_TOTPEncryptionKeys := ''k1:AAAA, k2:BBBB'',
     au_TOTPEncryptionActiveKID := ''k2''\<rparr>"

definition sample_netlib :: netlib where
  "sample_netlib = no_netlib\<lparr>nl_Base64 := \<lambda>e s. Some (replicate 32 (hd s))\<rparr>"

lemma sample_keyring:
  "AuthConfig_TOTPKeyring sample_netlib sample_auth =
     Inr \<lparr>kr_Keys = [(''default'', replicate 32 (CHR ''o'')), (''k1'', replicate 32 (CHR ''A'')), (''k2'', replicate 32 (CHR ''B''))],
          kr_ActiveKID = ''k2'', kr_LegacyKey = Some (replicate 32 (CHR ''o''))\<rparr>"
proof -
  have words: "trim_space ''old'' = ''old''" "trim_space ''k1:AAAA, k2:BBBB'' = ''k1:AAAA, k2:BBBB''" "trim_space ''k2'' = ''k2''"
    "trim_space ''k1:AAAA'' = ''k1:AAAA''" "trim_space '' k2:BBBB'' = ''k2:BBBB''" "trim_space ''k1'' = ''k1''"
    "trim_space ''AAAA'' = ''AAAA''" "trim_space ''BBBB'' = ''BBBB''"
    "split_on (CHR '','') ''k1:AAAA, k2:BBBB'' = [''k1:AAAA'', '' k2:BBBB'']" "ValidTOTPKeyID ''k1''" "ValidTOTPKeyID ''k2''"
    by code_simp+
  show ?thesis
    by (simp add: AuthConfig_TOTPKeyring_def sample_auth_def sample_netlib_def words DecodeKey32_def keyring_entry_def Let_def)
qed

theorem keyring_sound_witness: "keys_valid (kr_Keys (projr (AuthConfig_TOTPKeyring sample_netlib sample_auth)))"
  using keyring_sound [OF sample_keyring] by (simp add: sample_keyring)

section \<open>Profiles\<close>

text \<open>The environment a profile stands for: its defaults where a variable is unset or empty.\<close>

definition env_overlay :: "environ \<Rightarrow> defaults \<Rightarrow> environ" where
  "env_overlay env d = (\<lambda>key. if os_Getenv env key = [] then map_of d key else env key)"

lemma raw_value_overlay: "raw_value env (Some d) key = raw_value (env_overlay env d) None key"
  by (auto simp: raw_value_def env_overlay_def profileDefaultValue_def os_Getenv_def Let_def split: option.splits)

lemma getCSV_overlay: "map_of d key = None \<Longrightarrow> getCSV env (Some d) key fb = getCSV (env_overlay env d) None key fb"
  by (auto simp: getCSV_def env_overlay_def profileDefaultValue_def os_Getenv_def Let_def split: option.splits)

lemma readers_overlay:
  "rs_string (readers_of F env (Some d)) = rs_string (readers_of F (env_overlay env d) None)"
  "rs_int (readers_of F env (Some d)) = rs_int (readers_of F (env_overlay env d) None)"
  "rs_int32 (readers_of F env (Some d)) = rs_int32 (readers_of F (env_overlay env d) None)"
  "rs_int64 (readers_of F env (Some d)) = rs_int64 (readers_of F (env_overlay env d) None)"
  "rs_bool (readers_of F env (Some d)) = rs_bool (readers_of F (env_overlay env d) None)"
  "rs_dur (readers_of F env (Some d)) = rs_dur (readers_of F (env_overlay env d) None)"
  "rs_float (readers_of F env (Some d)) = rs_float (readers_of F (env_overlay env d) None)"
  by (simp_all add: readers_of_def fun_eq_iff getenv_def getInt_def getInt32_def getInt64_def getBool_def getDuration_def
      getFloat64_def raw_value_overlay)

text \<open>The settings that \<open>Load\<close> reads as lists. No profile has a default for one.\<close>

definition csv_keys :: "string list" where
  "csv_keys = [''HTTP_MIDDLEWARE_ACCESS_LOG_EXCLUDE_PATHS'', ''HTTP_MIDDLEWARE_CORS_ALLOW_ORIGINS'', ''HTTP_MIDDLEWARE_CORS_DENY_ORIGINS'',
     ''HTTP_MIDDLEWARE_CORS_ALLOW_METHODS'', ''HTTP_MIDDLEWARE_CORS_ALLOW_HEADERS'', ''HTTP_MIDDLEWARE_CORS_EXPOSE_HEADERS'',
     ''HTTP_TRUSTED_PROXIES'', ''HTTP_MIDDLEWARE_TRACING_EXCLUDE_PATHS'', ''METRICS_EXCLUDE_PATHS'']"

lemma profiles_no_csv: "(name, d) \<in> set profileDefaults \<Longrightarrow> key \<in> set csv_keys \<Longrightarrow> map_of d key = None"
proof -
  have "list_all (\<lambda>(name, d). list_all (\<lambda>key. map_of d key = None) csv_keys) profileDefaults" by code_simp
  then show "(name, d) \<in> set profileDefaults \<Longrightarrow> key \<in> set csv_keys \<Longrightarrow> map_of d key = None" by (auto simp: list_all_iff)
qed

lemma build_config_overlay:
  assumes "\<forall>key \<in> set csv_keys. map_of d key = None"
  shows "build_config (readers_of F env (Some d)) profile = build_config (readers_of F (env_overlay env d) None) profile"
proof -
  have csv: "rs_csv (readers_of F env (Some d)) key = rs_csv (readers_of F (env_overlay env d) None) key" if "key \<in> set csv_keys" for key
    using assms that by (simp add: readers_of_def fun_eq_iff getCSV_overlay)
  then show ?thesis
    by (simp add: build_config_def load_http_def load_access_log_def load_cors_def load_auth_def load_postgres_def load_redis_def
        load_tracing_def loadSMTP_def readers_overlay csv_keys_def)
qed

text \<open>
  A profile is a set of defaults and nothing more. When \<open>Load\<close> succeeds with a profile, the configuration is the
  one it builds without a profile in the environment extended by the profile's table, where every variable that
  is set to a non-empty text keeps its value; without a profile it is built from the environment alone,
  and an unknown profile is the only way \<open>Load\<close> fails.
\<close>

theorem profile_overlay:
  "let profile = trim_space (os_Getenv env ''APP_PROFILE'') in
     if profile = [] then Load F env = Inr (build_config (readers_of F env None) [])
     else case map_of profileDefaults (to_lower profile) of
       Some d \<Rightarrow> Load F env = Inr (build_config (readers_of F (env_overlay env d) None) profile) \<and>
         (\<forall>key v. env key = Some v \<and> v \<noteq> [] \<longrightarrow> env_overlay env d key = Some v)
     | None \<Rightarrow> \<exists>e. Load F env = Inl e"
proof -
  let ?p = "trim_space (os_Getenv env ''APP_PROFILE'')"
  have low: "to_lower (trim_space ?p) = to_lower ?p" "to_lower ?p = [] \<longleftrightarrow> ?p = []" by (simp_all add: to_lower_def)
  have keep: "env_overlay env d key = Some v" if "env key = Some v \<and> v \<noteq> []" for d key v
    using that by (simp add: env_overlay_def os_Getenv_def)
  have "build_config (readers_of F env (Some d)) ?p = build_config (readers_of F (env_overlay env d) None) ?p"
    if "map_of profileDefaults (to_lower ?p) = Some d" for d
    using profiles_no_csv [OF map_of_SomeD [OF that]] by (intro build_config_overlay) blast
  then show ?thesis
    using keep low
    by (auto simp: Load_def activateProfile_def resolveProfileDefaults_def Let_def split: option.splits)
qed

definition prod_env :: environ where
  "prod_env = [''APP_PROFILE'' \<mapsto> ''prod'', ''AUTH_MODE'' \<mapsto> ''hybrid'']"

theorem profile_overlay_witness: "env_overlay prod_env (the (map_of profileDefaults ''prod'')) ''AUTH_MODE'' = Some ''hybrid''"
proof -
  have words: "trim_space ''prod'' = ''prod''" "to_lower ''prod'' = ''prod''" by code_simp+
  have "os_Getenv prod_env ''APP_PROFILE'' = ''prod''" "prod_env ''AUTH_MODE'' = Some ''hybrid''" by (simp_all add: prod_env_def os_Getenv_def)
  moreover have "map_of profileDefaults ''prod'' = Some (the (map_of profileDefaults ''prod''))" by (simp add: profileDefaults_def)
  ultimately show ?thesis using profile_overlay [of prod_env no_floats] by (auto simp: words Let_def split: option.splits)
qed

section \<open>Checked values are used\<close>

definition linted_bools :: "string list" where
  "linted_bools = [''HTTP_MIDDLEWARE_REQUEST_ID_ENABLED'', ''HTTP_MIDDLEWARE_RECOVERER_ENABLED'', ''HTTP_MIDDLEWARE_SECURITY_HEADERS_ENABLED'',
     ''HTTP_MIDDLEWARE_ACCESS_LOG_ENABLED'', ''HTTP_MIDDLEWARE_CORS_ENABLED'', ''HTTP_MIDDLEWARE_CORS_ALLOW_CREDENTIALS'',
     ''HTTP_MIDDLEWARE_CORS_ALLOW_PRIVATE_NETWORK'', ''AUTH_ENABLED'', ''RATELIMIT_ENABLED'', ''RATELIMIT_FAIL_OPEN'',
     ''HTTP_MIDDLEWARE_ACCESS_LOG_INCLUDE_USER_AGENT'', ''HTTP_MIDDLEWARE_ACCESS_LOG_INCLUDE_REMOTE_IP'', ''POSTGRES_ENABLED'',
     ''REDIS_ENABLED'', ''METRICS_ENABLED'', ''TRACING_ENABLED'', ''TRACING_INSECURE'']"

definition linted_ints :: "string list" where
  "linted_ints = [''RATELIMIT_DEFAULT_LIMIT'', ''HTTP_MAX_HEADER_BYTES'', ''REDIS_DB'', ''REDIS_POOL_SIZE'', ''REDIS_MIN_IDLE_CONNS'']"

definition linted_durations :: "string list" where
  "linted_durations = [''HTTP_MIDDLEWARE_REQUEST_TIMEOUT'', ''RATELIMIT_DEFAULT_WINDOW'', ''HTTP_READ_HEADER_TIMEOUT'', ''HTTP_READ_TIMEOUT'',
     ''HTTP_WRITE_TIMEOUT'', ''HTTP_IDLE_TIMEOUT'', ''HTTP_SHUTDOWN_TIMEOUT'', ''HTTP_MIDDLEWARE_CORS_MAX_AGE'',
     ''CACHE_TAG_VERSION_CACHE_TTL'', ''HTTP_MIDDLEWARE_ACCESS_LOG_SLOW_THRESHOLD'', ''POSTGRES_CONN_MAX_LIFETIME'',
     ''POSTGRES_CONN_MAX_IDLE_TIME'', ''POSTGRES_STARTUP_PING_TIMEOUT'', ''POSTGRES_HEALTH_CHECK_TIMEOUT'', ''REDIS_DIAL_TIMEOUT'',
     ''REDIS_READ_TIMEOUT'', ''REDIS_WRITE_TIMEOUT'', ''REDIS_STARTUP_PING_TIMEOUT'', ''REDIS_HEALTH_CHECK_TIMEOUT'']"

lemma parsed_checked:
  assumes "lint_parse parse env key = None" and "env key = Some v" and "parse [] = None"
  shows "\<exists>x. parse v = Some x \<and> (\<forall>active fb. parsed parse (raw_value env active key) fb = x)"
proof -
  from assms(1,2) obtain x where x: "parse v = Some x" by (auto simp: lint_parse_None)
  with assms(3) have "v \<noteq> []" by auto
  with assms(2) have "raw_value env active key = v" for active by (simp add: raw_value_def os_Getenv_def)
  with x \<open>v \<noteq> []\<close> show ?thesis by (simp add: parsed_def)
qed

lemma parse_empty: "parse_bool [] = None" "parse_int w [] = None" "parse_duration fmul [] = None"
  by (simp_all add: parse_bool_def parse_int_def parse_duration_def)

text \<open>
  The readers fall back to a default on a malformed value, and \<open>Lint\<close> makes that harmless for the variables it
  checks: with an accepted environment, a flag, number or duration that is set is parsed, and every reader
  of it gives the parsed value, whatever the profile and the default.
\<close>

theorem checked_values_used:
  assumes "Lint F N drivers env c = None" and "env key = Some v"
  shows "(key \<in> set linted_bools \<longrightarrow> (\<exists>b. parse_bool v = Some b \<and> (\<forall>active fb. getBool env active key fb = b))) \<and>
    (key \<in> set linted_ints \<longrightarrow> (\<exists>n. parse_int 64 v = Some n \<and> (\<forall>active fb. getInt env active key fb = n))) \<and>
    (key \<in> set linted_durations \<longrightarrow>
      (\<exists>d. parse_duration (fl_frac F) v = Some d \<and> (\<forall>active fb. getDuration F env active key fb = d)))"
proof -
  note formats = Lint_groups(8,9) [OF assms(1)]
  have "lintBoolEnv env key = None" if "key \<in> set linted_bools"
    using that formats unfolding linted_bools_def by (auto simp: lint_env_http_def lint_env_stores_def first_error_None)
  moreover have "lintIntEnv env key = None" if "key \<in> set linted_ints"
    using that formats unfolding linted_ints_def by (auto simp: lint_env_http_def lint_env_stores_def first_error_None)
  moreover have "lintDurationEnv F env key = None" if "key \<in> set linted_durations"
    using that formats unfolding linted_durations_def by (auto simp: lint_env_http_def lint_env_stores_def first_error_None)
  ultimately show ?thesis
    using parsed_checked [of parse_bool env key v] parsed_checked [of "parse_int 64" env key v]
      parsed_checked [of "parse_duration (fl_frac F)" env key v] assms(2)
    by (simp add: parse_empty getBool_def getInt_def getDuration_def lintBoolEnv_def lintIntEnv_def lintDurationEnv_def)
qed

text \<open>An accepted environment: the default configuration with a rate limit.\<close>

definition limit_env :: environ where
  "limit_env = [''RATELIMIT_DEFAULT_LIMIT'' \<mapsto> ''25'']"

lemma limit_env_unset: "key \<noteq> ''RATELIMIT_DEFAULT_LIMIT'' \<Longrightarrow> limit_env key = None"
  by (simp add: limit_env_def)

lemma limit_env_formats: "first_error (lint_env_http F limit_env) = None" "first_error (lint_env_stores F limit_env) = None"
proof -
  have "parse_int 64 ''25'' = Some 25" by code_simp
  then show "first_error (lint_env_http F limit_env) = None" "first_error (lint_env_stores F limit_env) = None"
    by (simp_all add: lint_env_defs first_error_None lint_parse_def limit_env_def)
qed

lemma limit_env_accepted: "Lint no_floats no_netlib builtin_drivers limit_env (config_of Map.empty) = None"
proof -
  have unset: "os_Getenv limit_env key = []" if "key \<noteq> ''RATELIMIT_DEFAULT_LIMIT''" for key
    using that by (simp add: os_Getenv_def limit_env_def)
  have same: "lint_profile limit_env = lint_profile Map.empty" "lintWebAuthn N limit_env = lintWebAuthn N Map.empty"
      "lintAuthFeatures N limit_env c = lintAuthFeatures N Map.empty c" for N c
    by (simp_all add: lint_profile_def lintWebAuthn_def lintAuthFeatures_def unset Let_def split: if_split)
  have "lint_auth N drivers limit_env c = lint_auth N drivers Map.empty c" for N drivers c
    by (simp only: lint_auth_def same)
  with default_groups(4) have "first_error (lint_auth no_netlib builtin_drivers limit_env (config_of Map.empty)) = None" by (simp only:)
  moreover from default_groups(1) have "lint_profile limit_env = None" by (simp only: same)
  ultimately show ?thesis using default_groups limit_env_formats by (simp add: Lint_def first_error_None)
qed

theorem checked_values_used_witness: "getInt limit_env None ''RATELIMIT_DEFAULT_LIMIT'' 10 = 25"
proof -
  have set: "limit_env ''RATELIMIT_DEFAULT_LIMIT'' = Some ''25''" by (simp add: limit_env_def)
  have "parse_int 64 ''25'' = Some 25" by code_simp
  moreover have "''RATELIMIT_DEFAULT_LIMIT'' \<in> set linted_ints" by (simp add: linted_ints_def)
  ultimately show ?thesis using checked_values_used [OF limit_env_accepted set] by auto
qed

end
