(* ===== verification/Secret_Cipher.thy ===== *)
theory Secret_Cipher
  imports Config
begin

text \<open>
  The key-ring cipher of \<open>internal/core/auth/secret_cipher.go\<close>, which seals TOTP secrets before they reach the database, and how the
  application builds it from its settings (\<open>newTOTPCipher\<close> of \<open>app/deps.go\<close>).

  AES-GCM (\<open>crypto/aes\<close>, \<open>crypto/cipher\<close>) is the record \<open>aead_lib\<close>; what the code relies on is \<open>aead_ok\<close>: a
  sealed text is 16 bytes longer than its plaintext and opens, under the same key, nonce and additional data, to it.
\<close>

section \<open>The cipher\<close>

record aead_lib =
  ae_Seal :: "string \<Rightarrow> string \<Rightarrow> string \<Rightarrow> string \<Rightarrow> string"   \<comment> \<open>key, nonce, plaintext, additional data\<close>
  ae_Open :: "string \<Rightarrow> string \<Rightarrow> string \<Rightarrow> string \<Rightarrow> string option"

abbreviation NonceSize :: nat where "NonceSize \<equiv> 12"
abbreviation Overhead :: nat where "Overhead \<equiv> 16"

definition aead_ok :: "aead_lib \<Rightarrow> bool" where
  "aead_ok A \<longleftrightarrow> (\<forall>k n p a. length (ae_Seal A k n p a) = length p + Overhead \<and> ae_Open A k n (ae_Seal A k n p a) a = Some p)"

datatype secret_error = ErrSecretDecrypt | SecretKeyError string | NonceFailed | NilAEAD

abbreviation secretFormatV1 :: char where "secretFormatV1 \<equiv> CHR 0x01"
abbreviation secretFormatV2 :: char where "secretFormatV2 \<equiv> CHR 0x02"
abbreviation secretAADPrefixV1 :: string where "secretAADPrefixV1 \<equiv> ''superapi/totp/v1:''"
abbreviation secretAADPrefixV2 :: string where "secretAADPrefixV2 \<equiv> ''superapi/totp/v2:''"
abbreviation maxKeyIDLength :: nat where "maxKeyIDLength \<equiv> 32"

definition ValidKeyID :: "string \<Rightarrow> bool" where
  "ValidKeyID kid \<longleftrightarrow> 1 \<le> length kid \<and> length kid \<le> maxKeyIDLength \<and> list_all key_id_byte kid"

record KeyRing =
  ring_Keys :: "(string \<times> string) list"
  ring_ActiveKID :: string
  ring_LegacyKey :: "string option"

record aesGCMCipher =
  ci_active :: string
  ci_aeads :: "(string \<times> string) list"   \<comment> \<open>key id and key\<close>
  ci_legacy :: "string option"

definition newAEAD :: "string \<Rightarrow> string + string" where
  "newAEAD key = (if length key \<noteq> 32 then Inl (''secret cipher key must be 32 bytes, got '' @ itoa (int (length key))) else Inr key)"

text \<open>The loop over the keys; the source ranges over a Go map, so which of several faults is reported is left open there.\<close>

fun add_keys :: "(string \<times> string) list \<Rightarrow> (string \<times> string) list \<Rightarrow> string + (string \<times> string) list" where
  "add_keys [] out = Inr out"
| "add_keys ((kid, key) # keys) out =
     (if \<not> ValidKeyID kid then Inl (''secret cipher: invalid key id '' @ quoted kid @ '' (1-'' @ itoa (int maxKeyIDLength) @ '' characters from [A-Za-z0-9._-])'')
      else (case newAEAD key of
          Inl e \<Rightarrow> Inl (''secret cipher key '' @ quoted kid @ '': '' @ e)
        | Inr aead \<Rightarrow> add_keys keys (out @ [(kid, aead)])))"

definition NewKeyRingCipher :: "KeyRing \<Rightarrow> string + aesGCMCipher" where
  "NewKeyRingCipher ring =
     (if ring_Keys ring = [] then Inl ''secret cipher: no keys configured''
      else (case add_keys (ring_Keys ring) [] of
          Inl e \<Rightarrow> Inl e
        | Inr aeads \<Rightarrow>
            if map_of aeads (ring_ActiveKID ring) = None
            then Inl (''secret cipher: active key id '' @ quoted (ring_ActiveKID ring) @ '' is not among the configured keys ('' @ join '', '' (sort (map fst (ring_Keys ring))) @ '')'')
            else (case ring_LegacyKey ring of
                None \<Rightarrow> Inr \<lparr>ci_active = ring_ActiveKID ring, ci_aeads = aeads, ci_legacy = None\<rparr>
              | Some key \<Rightarrow> (case newAEAD key of
                  Inl e \<Rightarrow> Inl (''secret cipher legacy key: '' @ e)
                | Inr aead \<Rightarrow> Inr \<lparr>ci_active = ring_ActiveKID ring, ci_aeads = aeads, ci_legacy = Some aead\<rparr>))))"

definition NewAESGCMCipher :: "string \<Rightarrow> string + aesGCMCipher" where
  "NewAESGCMCipher key = NewKeyRingCipher \<lparr>ring_Keys = [(''default'', key)], ring_ActiveKID = ''default'', ring_LegacyKey = Some key\<rparr>"

text \<open>\<open>newTOTPCipher\<close> of \<open>app/deps.go\<close>.\<close>

definition newTOTPCipher :: "netlib \<Rightarrow> AuthConfig \<Rightarrow> (config_error + string) + aesGCMCipher" where
  "newTOTPCipher N a =
     (case AuthConfig_TOTPKeyring N a of
        Inl e \<Rightarrow> Inl (Inl e)
      | Inr ring \<Rightarrow>
          (case NewKeyRingCipher \<lparr>ring_Keys = kr_Keys ring, ring_ActiveKID = kr_ActiveKID ring, ring_LegacyKey = kr_LegacyKey ring\<rparr> of
             Inl e \<Rightarrow> Inl (Inr e)
           | Inr c \<Rightarrow> Inr c))"

text \<open>\<open>nonce\<close> is what the random source delivers, \<open>None\<close> its error. A missing active key would be a nil dereference.\<close>

definition Seal :: "aead_lib \<Rightarrow> aesGCMCipher \<Rightarrow> string option \<Rightarrow> string \<Rightarrow> string \<Rightarrow> secret_error + string" where
  "Seal A c nonce userID plaintext =
     (case map_of (ci_aeads c) (ci_active c) of
        None \<Rightarrow> Inl NilAEAD
      | Some key \<Rightarrow>
          (case nonce of
             None \<Rightarrow> Inl NonceFailed
           | Some n \<Rightarrow> Inr ([secretFormatV2, char_of (length (ci_active c))] @ ci_active c @ n @
               ae_Seal A key n plaintext (secretAADPrefixV2 @ userID))))"

definition splitV2 :: "string \<Rightarrow> (string \<times> string) option" where
  "splitV2 ciphertext =
     (if length ciphertext < 2 then None
      else (let n = byte (ciphertext ! 1) in
        if n = 0 \<or> n > maxKeyIDLength \<or> length ciphertext < 2 + n then None
        else Some (take n (drop 2 ciphertext), drop (2 + n) ciphertext)))"

definition openWith :: "aead_lib \<Rightarrow> string \<Rightarrow> string \<Rightarrow> string \<Rightarrow> secret_error + string" where
  "openWith A key nonceAndSealed aad =
     (if length nonceAndSealed < NonceSize + Overhead then Inl ErrSecretDecrypt
      else (case ae_Open A key (take NonceSize nonceAndSealed) (drop NonceSize nonceAndSealed) aad of
          None \<Rightarrow> Inl ErrSecretDecrypt
        | Some p \<Rightarrow> Inr p))"

definition Open :: "aead_lib \<Rightarrow> aesGCMCipher \<Rightarrow> string \<Rightarrow> string \<Rightarrow> secret_error + string" where
  "Open A c userID ciphertext =
     (if ciphertext = [] then Inl ErrSecretDecrypt
      else if hd ciphertext = secretFormatV1 then
        (case ci_legacy c of
           None \<Rightarrow> Inl (SecretKeyError [])
         | Some key \<Rightarrow> openWith A key (drop 1 ciphertext) (secretAADPrefixV1 @ userID))
      else if hd ciphertext = secretFormatV2 then
        (case splitV2 ciphertext of
           None \<Rightarrow> Inl ErrSecretDecrypt
         | Some (kid, rest) \<Rightarrow>
             (case map_of (ci_aeads c) kid of
                None \<Rightarrow> Inl (SecretKeyError kid)
              | Some key \<Rightarrow> openWith A key rest (secretAADPrefixV2 @ userID)))
      else Inl ErrSecretDecrypt)"

definition NeedsRotation :: "aesGCMCipher \<Rightarrow> string \<Rightarrow> bool" where
  "NeedsRotation c ciphertext \<longleftrightarrow>
     (if ciphertext = [] then False
      else if hd ciphertext = secretFormatV1 then True
      else if hd ciphertext = secretFormatV2 then (case splitV2 ciphertext of None \<Rightarrow> False | Some (kid, rest) \<Rightarrow> kid \<noteq> ci_active c)
      else False)"

section \<open>Sealed secrets open again\<close>

definition cipher_ok :: "aesGCMCipher \<Rightarrow> bool" where
  "cipher_ok c \<longleftrightarrow> ValidKeyID (ci_active c) \<and> map_of (ci_aeads c) (ci_active c) \<noteq> None"

lemma add_keys_valid:
  "list_all (\<lambda>(kid, key). ValidKeyID kid \<and> length key = 32) keys \<Longrightarrow> add_keys keys out = Inr (out @ keys)"
  by (induction keys out rule: add_keys.induct) (auto simp: newAEAD_def)

lemma add_keys_ids:
  "add_keys keys out = Inr aeads \<Longrightarrow> \<forall>kid \<in> fst ` set out. ValidKeyID kid \<Longrightarrow> \<forall>kid \<in> fst ` set aeads. ValidKeyID kid"
  by (induction keys out rule: add_keys.induct) (auto simp: newAEAD_def split: if_splits sum.splits)

lemma NewKeyRingCipher_ok: "NewKeyRingCipher ring = Inr c \<Longrightarrow> cipher_ok c"
proof -
  assume "NewKeyRingCipher ring = Inr c"
  then obtain aeads where k: "add_keys (ring_Keys ring) [] = Inr aeads" "ci_aeads c = aeads" "map_of aeads (ci_active c) \<noteq> None"
    by (auto simp: NewKeyRingCipher_def split: if_splits sum.splits option.splits)
  then have "ci_active c \<in> fst ` set aeads" by (auto simp: map_of_eq_None_iff)
  with add_keys_ids [OF k(1)] k show ?thesis by (auto simp: cipher_ok_def)
qed

lemma NewKeyRingCipher_succeeds:
  assumes "list_all (\<lambda>(kid, key). ValidKeyID kid \<and> length key = 32) (ring_Keys ring)"
    and "map_of (ring_Keys ring) (ring_ActiveKID ring) \<noteq> None" and "\<forall>key. ring_LegacyKey ring = Some key \<longrightarrow> length key = 32"
  shows "\<exists>c. NewKeyRingCipher ring = Inr c"
proof -
  have "add_keys (ring_Keys ring) [] = Inr (ring_Keys ring)" using add_keys_valid [OF assms(1), of "[]"] by simp
  moreover have "ring_Keys ring \<noteq> []" using assms(2) by auto
  ultimately show ?thesis using assms(2,3) by (cases "ring_LegacyKey ring") (simp_all add: NewKeyRingCipher_def newAEAD_def)
qed

text \<open>A key ring that the configuration check accepts makes a cipher.\<close>

lemma newTOTPCipher_ring:
  assumes "AuthConfig_TOTPKeyring N a = Inr ring"
  shows "\<exists>c. NewKeyRingCipher \<lparr>ring_Keys = kr_Keys ring, ring_ActiveKID = kr_ActiveKID ring, ring_LegacyKey = kr_LegacyKey ring\<rparr> = Inr c \<and>
    newTOTPCipher N a = Inr c"
proof -
  have valid: "keys_valid (kr_Keys ring)" and active: "map_of (kr_Keys ring) (kr_ActiveKID ring) \<noteq> None"
    and legacy: "\<forall>key. kr_LegacyKey ring = Some key \<longrightarrow> length key = 32"
    using keyring_usable [OF assms] by (auto simp: keys_valid_def list_all_iff dest: map_of_SomeD)
  have id: "ValidTOTPKeyID = ValidKeyID" by (simp add: fun_eq_iff ValidTOTPKeyID_def ValidKeyID_def)
  obtain c where nk: "NewKeyRingCipher \<lparr>ring_Keys = kr_Keys ring, ring_ActiveKID = kr_ActiveKID ring, ring_LegacyKey = kr_LegacyKey ring\<rparr> = Inr c"
    using NewKeyRingCipher_succeeds [of "\<lparr>ring_Keys = kr_Keys ring, ring_ActiveKID = kr_ActiveKID ring, ring_LegacyKey = kr_LegacyKey ring\<rparr>"]
      valid active legacy by (auto simp: keys_valid_def id)
  then show ?thesis using assms by (simp add: newTOTPCipher_def)
qed

lemma Seal_shape:
  assumes "cipher_ok c" and "Seal A c (Some n) u p = Inr ct"
  obtains key where "map_of (ci_aeads c) (ci_active c) = Some key"
    and "hd ct = secretFormatV2" and "ct \<noteq> []" and "splitV2 ct = Some (ci_active c, n @ ae_Seal A key n p (secretAADPrefixV2 @ u))"
proof -
  obtain key where key: "map_of (ci_aeads c) (ci_active c) = Some key" using assms(1) by (auto simp: cipher_ok_def)
  have len: "1 \<le> length (ci_active c)" "length (ci_active c) \<le> 32" using assms(1) by (auto simp: cipher_ok_def ValidKeyID_def)
  have ct: "ct = secretFormatV2 # char_of (length (ci_active c)) # ci_active c @ n @ ae_Seal A key n p (secretAADPrefixV2 @ u)"
    using assms(2) key by (simp add: Seal_def)
  have "byte (char_of (length (ci_active c))) = length (ci_active c)" using len by (simp add: byte_def take_bit_eq_mod)
  then have "splitV2 ct = Some (ci_active c, n @ ae_Seal A key n p (secretAADPrefixV2 @ u))" using len by (auto simp: ct splitV2_def Let_def)
  then show ?thesis using that key by (simp add: ct)
qed

lemma Seal_Open:
  assumes "aead_ok A" and "cipher_ok c" and "length n = NonceSize" and "Seal A c (Some n) u p = Inr ct"
  shows "\<not> NeedsRotation c ct"
    and "map_of (ci_aeads c') (ci_active c) = map_of (ci_aeads c) (ci_active c) \<Longrightarrow> Open A c' u ct = Inr p"
proof -
  obtain key where key: "map_of (ci_aeads c) (ci_active c) = Some key" and ct: "hd ct = secretFormatV2" "ct \<noteq> []"
    "splitV2 ct = Some (ci_active c, n @ ae_Seal A key n p (secretAADPrefixV2 @ u))"
    using Seal_shape [OF assms(2,4)] by metis
  show "\<not> NeedsRotation c ct" using ct by (simp add: NeedsRotation_def)
  have opens: "openWith A key (n @ ae_Seal A key n p (secretAADPrefixV2 @ u)) (secretAADPrefixV2 @ u) = Inr p"
    using assms(1,3) by (simp add: openWith_def aead_ok_def)
  show "Open A c' u ct = Inr p" if "map_of (ci_aeads c') (ci_active c) = map_of (ci_aeads c) (ci_active c)"
    using that key ct opens by (simp add: Open_def)
qed

text \<open>
  C18: TOTP secrets survive restarts and key changes. Settings that pass the configuration check build a cipher; what it
  seals for a user is current and opens for that user to the same secret, under it and under every later cipher that still
  has the key; after a change of the active key it is reported for rotation.
\<close>

theorem secret_roundtrip:
  assumes "aead_ok A" and "AuthConfig_TOTPKeyring N a = Inr ring" and "length n = NonceSize"
  shows "\<exists>c. newTOTPCipher N a = Inr c \<and> (\<forall>u p. \<exists>ct. Seal A c (Some n) u p = Inr ct \<and>
    Open A c u ct = Inr p \<and> \<not> NeedsRotation c ct \<and>
    (\<forall>c'. map_of (ci_aeads c') (ci_active c) = map_of (ci_aeads c) (ci_active c) \<longrightarrow> Open A c' u ct = Inr p) \<and>
    (\<forall>c'. ci_active c' \<noteq> ci_active c \<longrightarrow> NeedsRotation c' ct))"
proof -
  from newTOTPCipher_ring [OF assms(2)] obtain c where
      nk: "NewKeyRingCipher \<lparr>ring_Keys = kr_Keys ring, ring_ActiveKID = kr_ActiveKID ring, ring_LegacyKey = kr_LegacyKey ring\<rparr> = Inr c"
      and c: "newTOTPCipher N a = Inr c" by blast
  from nk have ok: "cipher_ok c" by (rule NewKeyRingCipher_ok)
  have "\<exists>ct. Seal A c (Some n) u p = Inr ct \<and> Open A c u ct = Inr p \<and> \<not> NeedsRotation c ct \<and>
      (\<forall>c'. map_of (ci_aeads c') (ci_active c) = map_of (ci_aeads c) (ci_active c) \<longrightarrow> Open A c' u ct = Inr p) \<and>
      (\<forall>c'. ci_active c' \<noteq> ci_active c \<longrightarrow> NeedsRotation c' ct)" for u p
  proof -
    obtain ct where ct: "Seal A c (Some n) u p = Inr ct" using ok by (auto simp: Seal_def cipher_ok_def)
    obtain key where "hd ct = secretFormatV2" "ct \<noteq> []" "splitV2 ct = Some (ci_active c, n @ ae_Seal A key n p (secretAADPrefixV2 @ u))"
      using Seal_shape [OF ok ct] by metis
    then have "\<forall>c'. ci_active c' \<noteq> ci_active c \<longrightarrow> NeedsRotation c' ct" by (auto simp: NeedsRotation_def)
    with ct Seal_Open [OF assms(1) ok assms(3) ct] show ?thesis by blast
  qed
  with c show ?thesis by blast
qed

text \<open>A library with the documented behaviour.\<close>

definition sample_aead :: aead_lib where
  "sample_aead = \<lparr>ae_Seal = \<lambda>k n p a. replicate 16 CHR ''t'' @ p, ae_Open = \<lambda>k n s a. Some (drop 16 s)\<rparr>"

lemma sample_aead_ok: "aead_ok sample_aead"
  by (simp add: aead_ok_def sample_aead_def)

definition sample_ring :: KeyRing where
  "sample_ring = \<lparr>ring_Keys = [(''k2'', replicate 32 CHR ''2''), (''k1'', replicate 32 CHR ''1'')], ring_ActiveKID = ''k2'', ring_LegacyKey = None\<rparr>"

definition sample_cipher :: aesGCMCipher where
  "sample_cipher = \<lparr>ci_active = ''k2'', ci_aeads = ring_Keys sample_ring, ci_legacy = None\<rparr>"

definition sample_secret :: string where
  "sample_secret = [secretFormatV2, CHR 0x02, CHR ''k'', CHR ''1''] @ replicate 12 CHR ''n'' @ replicate 16 CHR ''t'' @ ''pq''"

lemma sample_ring_cipher: "NewKeyRingCipher sample_ring = Inr sample_cipher"
  by code_simp

theorem secret_roundtrip_witness:
  "\<exists>c. newTOTPCipher sample_netlib sample_auth = Inr c \<and>
    (\<exists>ct. Seal sample_aead c (Some (replicate 12 CHR ''n'')) ''u1'' ''pq'' = Inr ct \<and> Open sample_aead c ''u1'' ct = Inr ''pq'')"
  using secret_roundtrip [OF sample_aead_ok sample_keyring, of "replicate 12 CHR ''n''"] by fastforce

end
