(* ===== verification/Auth_Db.thy ===== *)
theory Auth_Db
  imports Secret_Cipher
begin

text \<open>
  Accounts and second factors in the database: the tables of \<open>db/migrations\<close>, the queries of \<open>db/queries\<close> as
  \<open>internal/core/db/sqlcgen\<close> runs them, the transaction boundary of \<open>internal/core/storage/postgres_store.go\<close>, and the
  repositories of \<open>internal/core/auth\<close>.

  A query is a function on the tables that runs alone, as one SQL statement does. The database may refuse any query
  (\<open>db_fault\<close>) or commit (\<open>db_commit_fault\<close>). What the server and the driver decide, the reading of ids and \<open>lower\<close>, is the record \<open>pglib\<close>.
  Columns of creation and update times that no query reads are left out.
\<close>

section \<open>Tables\<close>

record pglib =
  pl_scan :: "string \<Rightarrow> string option"   \<comment> \<open>\<open>pgtype.UUID.Scan\<close>, the id given by its canonical text\<close>
  pl_lower :: "string \<Rightarrow> string"

record user_row =
  ur_id :: string
  ur_email :: string
  ur_password_hash :: string
  ur_role :: "string option"
  ur_permissions :: int
  ur_status :: string
  ur_account_version :: int
  ur_totp_enabled :: bool
  ur_tenant_id :: string

record totp_row =
  tr_user_id :: string
  tr_secret_ciphertext :: string
  tr_verified :: bool
  tr_last_used_counter :: int

record code_row =
  cr_id :: nat
  cr_user_id :: string
  cr_code_hash :: string
  cr_used_at :: "int option"

record WebAuthnCredential =
  wa_CredentialID :: string
  wa_PublicKey :: string
  wa_AttestationType :: string
  wa_Transports :: "string list"
  wa_UserPresent :: bool
  wa_UserVerified :: bool
  wa_BackupEligible :: bool
  wa_BackupState :: bool
  wa_AAGUID :: string
  wa_SignCount :: int
  wa_Attachment :: string
  wa_CreatedAt :: "int option"   \<comment> \<open>\<open>None\<close> is the zero time\<close>
  wa_LastUsedAt :: "int option"

type_synonym cred_row = "string \<times> WebAuthnCredential"   \<comment> \<open>user id and credential\<close>

record auth_db =
  db_users :: "user_row list"
  db_totp :: "totp_row list"
  db_codes :: "code_row list"
  db_creds :: "cred_row list"
  db_now :: int
  db_serial :: nat                      \<comment> \<open>next value of the sequence of \<open>user_backup_codes.id\<close>\<close>
  db_new_uuid :: string                 \<comment> \<open>next value of \<open>gen_random_uuid\<close>\<close>
  db_fault :: "string option"
  db_commit_fault :: "string option"

section \<open>Errors\<close>

datatype pg_error = ErrNoRows | PgCode string | DriverError string

datatype auth_error =
    ErrAuthUserNotFound | ErrAuthUserExists | ErrTOTPCounterNotAdvanced | ErrTransactionRequired | ErrWebAuthnCredentialNotFound
  | ErrUserNotFound | ErrProviderDuplicateIdentifier | ErrUnauthorized
  | errMFAUnavailable | Plain string | PgFailed pg_error | CipherFailed secret_error | Wrapped string auth_error

text \<open>\<open>errors.Is\<close>.\<close>

fun err_is :: "auth_error \<Rightarrow> auth_error \<Rightarrow> bool" where
  "err_is (Wrapped op e) target \<longleftrightarrow> Wrapped op e = target \<or> err_is e target"
| "err_is e target \<longleftrightarrow> e = target"

abbreviation pgUniqueViolation :: string where "pgUniqueViolation \<equiv> ''23505''"
abbreviation pgNotNullViolation :: string where "pgNotNullViolation \<equiv> ''23502''"
abbreviation pgForeignKeyViolation :: string where "pgForeignKeyViolation \<equiv> ''23503''"
abbreviation pgCheckViolation :: string where "pgCheckViolation \<equiv> ''23514''"
abbreviation pgNumericOutOfRange :: string where "pgNumericOutOfRange \<equiv> ''22003''"

section \<open>Queries\<close>

type_synonym 'a query = "auth_db \<Rightarrow> (pg_error + 'a) \<times> auth_db"

definition exec :: "'a query \<Rightarrow> 'a query" where
  "exec q db = (case db_fault db of Some e \<Rightarrow> (Inl (DriverError e), db) | None \<Rightarrow> q db)"

definition update_where :: "('r \<Rightarrow> bool) \<Rightarrow> ('r \<Rightarrow> 'r) \<Rightarrow> 'r list \<Rightarrow> 'r list" where
  "update_where P f rows = map (\<lambda>r. if P r then f r else r) rows"

abbreviation int32_max :: int where "int32_max \<equiv> 2147483647"

abbreviation user_by_id :: "auth_db \<Rightarrow> string \<Rightarrow> user_row option" where
  "user_by_id db uid \<equiv> List.find (\<lambda>u. ur_id u = uid) (db_users db)"

abbreviation totp_by_id :: "auth_db \<Rightarrow> string \<Rightarrow> totp_row option" where
  "totp_by_id db uid \<equiv> List.find (\<lambda>t. tr_user_id t = uid) (db_totp db)"

abbreviation on_user :: "string \<Rightarrow> (user_row \<Rightarrow> user_row) \<Rightarrow> auth_db \<Rightarrow> auth_db" where
  "on_user uid f db \<equiv> db\<lparr>db_users := update_where (\<lambda>u. ur_id u = uid) f (db_users db)\<rparr>"

subsection \<open>Accounts\<close>

record CreateAuthUserParams =
  cp_Email :: string
  cp_PasswordHash :: string
  cp_Role :: "string option"
  cp_Permissions :: int
  cp_Status :: string

text \<open>An insertion into \<open>users\<close>: the primary key, the check of the address and the index on \<open>lower(email)\<close>.\<close>

definition insert_user :: "pglib \<Rightarrow> CreateAuthUserParams \<Rightarrow> string \<Rightarrow> user_row query" where
  "insert_user L p tenant = exec (\<lambda>db.
     if cp_Email p \<noteq> pl_lower L (cp_Email p) then (Inl (PgCode pgCheckViolation), db)
     else if list_ex (\<lambda>u. ur_id u = db_new_uuid db \<or> pl_lower L (ur_email u) = pl_lower L (cp_Email p)) (db_users db)
     then (Inl (PgCode pgUniqueViolation), db)
     else (let u = \<lparr>ur_id = db_new_uuid db, ur_email = cp_Email p, ur_password_hash = cp_PasswordHash p, ur_role = cp_Role p,
                 ur_permissions = cp_Permissions p, ur_status = cp_Status p, ur_account_version = 1, ur_totp_enabled = False, ur_tenant_id = tenant\<rparr>
           in (Inr u, db\<lparr>db_users := db_users db @ [u]\<rparr>)))"

definition CreateAuthUser :: "pglib \<Rightarrow> CreateAuthUserParams \<Rightarrow> user_row query" where
  "CreateAuthUser L p = insert_user L p ''0''"

definition one_row :: "'r option \<Rightarrow> auth_db \<Rightarrow> (pg_error + 'r) \<times> auth_db" where
  "one_row r db = ((case r of None \<Rightarrow> Inl ErrNoRows | Some u \<Rightarrow> Inr u), db)"

definition GetAuthUserByID :: "string \<Rightarrow> user_row query" where
  "GetAuthUserByID uid = exec (\<lambda>db. one_row (user_by_id db uid) db)"

definition GetAuthUserByLogin :: "pglib \<Rightarrow> string \<Rightarrow> user_row query" where
  "GetAuthUserByLogin L email = exec (\<lambda>db. one_row (List.find (\<lambda>u. pl_lower L (ur_email u) = pl_lower L email) (db_users db)) db)"

definition UpdateAuthUserPasswordHash :: "string \<Rightarrow> string \<Rightarrow> string query" where
  "UpdateAuthUserPasswordHash uid newHash = exec (\<lambda>db.
     if user_by_id db uid = None then (Inl ErrNoRows, db) else (Inr uid, on_user uid (\<lambda>u. u\<lparr>ur_password_hash := newHash\<rparr>) db))"

definition UpdateAuthUserStatus :: "string \<Rightarrow> string \<Rightarrow> user_row query" where
  "UpdateAuthUserStatus uid status = exec (\<lambda>db.
     case user_by_id db uid of
       None \<Rightarrow> (Inl ErrNoRows, db)
     | Some u \<Rightarrow>
         if ur_account_version u + 1 > int32_max then (Inl (PgCode pgNumericOutOfRange), db)
         else (let f = (\<lambda>u. u\<lparr>ur_status := status, ur_account_version := ur_account_version u + 1\<rparr>) in (Inr (f u), on_user uid f db)))"

subsection \<open>One-time passwords\<close>

text \<open>\<open>totp_enabled\<close> set to a value, and the version advanced when it flips.\<close>

definition set_totp_enabled :: "bool \<Rightarrow> user_row \<Rightarrow> user_row" where
  "set_totp_enabled b u =
     u\<lparr>ur_totp_enabled := b, ur_account_version := ur_account_version u + (if ur_totp_enabled u \<noteq> b then 1 else 0)\<rparr>"

record GetUserTOTPRow =
  gt_SecretCiphertext :: string
  gt_Verified :: bool
  gt_LastUsedCounter :: int
  gt_TotpEnabled :: bool

definition GetUserTOTP :: "string \<Rightarrow> GetUserTOTPRow query" where
  "GetUserTOTP uid = exec (\<lambda>db.
     one_row (case (totp_by_id db uid, user_by_id db uid) of
         (Some t, Some u) \<Rightarrow> Some \<lparr>gt_SecretCiphertext = tr_secret_ciphertext t, gt_Verified = tr_verified t,
           gt_LastUsedCounter = tr_last_used_counter t, gt_TotpEnabled = ur_totp_enabled u\<rparr>
       | _ \<Rightarrow> None) db)"

definition UpsertUserTOTPSecret :: "string \<Rightarrow> string \<Rightarrow> string query" where
  "UpsertUserTOTPSecret uid ciphertext = exec (\<lambda>db.
     case user_by_id db uid of
       None \<Rightarrow> (Inl ErrNoRows, db)
     | Some u \<Rightarrow>
         (let (rows, verified) =
            (case totp_by_id db uid of
               None \<Rightarrow> (db_totp db @ [\<lparr>tr_user_id = uid, tr_secret_ciphertext = ciphertext, tr_verified = False, tr_last_used_counter = 0\<rparr>], False)
             | Some t \<Rightarrow> (update_where (\<lambda>t. tr_user_id t = uid) (\<lambda>t. t\<lparr>tr_secret_ciphertext := ciphertext\<rparr>) (db_totp db), tr_verified t)) in
          if ur_account_version (set_totp_enabled verified u) > int32_max then (Inl (PgCode pgNumericOutOfRange), db)
          else (Inr uid, on_user uid (set_totp_enabled verified) (db\<lparr>db_totp := rows\<rparr>))))"

definition MarkUserTOTPVerified :: "string \<Rightarrow> string query" where
  "MarkUserTOTPVerified uid = exec (\<lambda>db.
     case (totp_by_id db uid, user_by_id db uid) of
       (Some t, Some u) \<Rightarrow> (Inr uid, db\<lparr>db_totp := update_where (\<lambda>t. tr_user_id t = uid) (\<lambda>t. t\<lparr>tr_verified := True\<rparr>) (db_totp db)\<rparr>)
     | _ \<Rightarrow> (Inl ErrNoRows, db))"

definition AdvanceUserTOTPCounter :: "int \<Rightarrow> string \<Rightarrow> string query" where
  "AdvanceUserTOTPCounter counter uid = exec (\<lambda>db.
     case (totp_by_id db uid, user_by_id db uid) of
       (Some t, Some u) \<Rightarrow>
         if tr_last_used_counter t < counter
         then (Inr uid, db\<lparr>db_totp := update_where (\<lambda>t. tr_user_id t = uid) (\<lambda>t. t\<lparr>tr_last_used_counter := counter\<rparr>) (db_totp db)\<rparr>)
         else (Inl ErrNoRows, db)
     | _ \<Rightarrow> (Inl ErrNoRows, db))"

definition DisableUserTOTP :: "string \<Rightarrow> string query" where
  "DisableUserTOTP uid = exec (\<lambda>db.
     case user_by_id db uid of
       None \<Rightarrow> (Inl ErrNoRows, db)
     | Some u \<Rightarrow>
         if ur_account_version (set_totp_enabled False u) > int32_max then (Inl (PgCode pgNumericOutOfRange), db)
         else (Inr uid, on_user uid (set_totp_enabled False)
                 (db\<lparr>db_totp := filter (\<lambda>t. tr_user_id t \<noteq> uid) (db_totp db), db_codes := filter (\<lambda>b. cr_user_id b \<noteq> uid) (db_codes db)\<rparr>)))"

definition RotateUserTOTPSecret :: "string \<Rightarrow> string \<Rightarrow> string \<Rightarrow> nat query" where
  "RotateUserTOTPSecret succ uid prev = exec (\<lambda>db.
     case (totp_by_id db uid, user_by_id db uid) of
       (Some t, Some u) \<Rightarrow>
         if tr_secret_ciphertext t = prev
         then (Inr 1, db\<lparr>db_totp := update_where (\<lambda>t. tr_user_id t = uid) (\<lambda>t. t\<lparr>tr_secret_ciphertext := succ\<rparr>) (db_totp db)\<rparr>)
         else (Inr 0, db)
     | _ \<Rightarrow> (Inr 0, db))"

definition totp_rows :: "auth_db \<Rightarrow> (string \<times> string) list" where
  "totp_rows db = sort_key fst (map (\<lambda>t. (tr_user_id t, tr_secret_ciphertext t)) (db_totp db))"

definition ListUserTOTPSecrets :: "string option \<Rightarrow> nat \<Rightarrow> (string \<times> string) list query" where
  "ListUserTOTPSecrets after rowLimit = exec (\<lambda>db.
     (Inr (take rowLimit (filter (\<lambda>(u, ct). case after of None \<Rightarrow> True | Some a \<Rightarrow> a < u) (totp_rows db))), db))"

subsection \<open>Backup codes\<close>

definition unused_code :: "string \<Rightarrow> code_row \<Rightarrow> bool" where
  "unused_code uid b \<longleftrightarrow> cr_user_id b = uid \<and> cr_used_at b = None"

definition ListUnusedBackupCodes_query :: "string \<Rightarrow> string list query" where
  "ListUnusedBackupCodes_query uid = exec (\<lambda>db.
     (Inr (if user_by_id db uid = None then [] else map cr_code_hash (sort_key cr_id (filter (unused_code uid) (db_codes db)))), db))"

definition DeleteBackupCodes :: "string \<Rightarrow> nat query" where
  "DeleteBackupCodes uid = exec (\<lambda>db.
     if user_by_id db uid = None then (Inr 0, db)
     else (Inr (length (filter (\<lambda>b. cr_user_id b = uid) (db_codes db))), db\<lparr>db_codes := filter (\<lambda>b. cr_user_id b \<noteq> uid) (db_codes db)\<rparr>))"

text \<open>The rows of one insertion take consecutive values of the sequence, which are not given back when it fails.\<close>

definition InsertBackupCodes :: "string list \<Rightarrow> string \<Rightarrow> nat query" where
  "InsertBackupCodes hashes uid = exec (\<lambda>db.
     if user_by_id db uid = None then (Inr 0, db)
     else (let n = length hashes;
               rows = map (\<lambda>(i, h). \<lparr>cr_id = i, cr_user_id = uid, cr_code_hash = h, cr_used_at = None\<rparr>) (zip [db_serial db ..< db_serial db + n] hashes);
               db' = db\<lparr>db_serial := db_serial db + n\<rparr> in
           if \<not> list_all (\<lambda>h. length h = 32) hashes then (Inl (PgCode pgCheckViolation), db')
           else if \<not> distinct hashes \<or> list_ex (\<lambda>b. cr_user_id b = uid \<and> cr_code_hash b \<in> set hashes) (db_codes db)
           then (Inl (PgCode pgUniqueViolation), db')
           else (Inr n, db'\<lparr>db_codes := db_codes db @ rows\<rparr>)))"

definition ConsumeBackupCode_query :: "string \<Rightarrow> string \<Rightarrow> nat query" where
  "ConsumeBackupCode_query uid h = exec (\<lambda>db.
     let hit = (\<lambda>b. unused_code uid b \<and> cr_code_hash b = h) in
     if user_by_id db uid = None then (Inr 0, db)
     else (Inr (length (filter hit (db_codes db))), db\<lparr>db_codes := update_where hit (\<lambda>b. b\<lparr>cr_used_at := Some (db_now db)\<rparr>) (db_codes db)\<rparr>))"

subsection \<open>Passkeys\<close>

text \<open>The driver sends an unset time as \<open>NULL\<close>, which the column refuses: a default applies only to a column that is not named.\<close>

definition CreateWebAuthnCredential :: "string \<Rightarrow> WebAuthnCredential \<Rightarrow> unit query" where
  "CreateWebAuthnCredential uid cred = exec (\<lambda>db.
     if wa_CreatedAt cred = None \<or> wa_LastUsedAt cred = None then (Inl (PgCode pgNotNullViolation), db)
     else if list_ex (\<lambda>(u, c). wa_CredentialID c = wa_CredentialID cred) (db_creds db) then (Inl (PgCode pgUniqueViolation), db)
     else if user_by_id db uid = None then (Inl (PgCode pgForeignKeyViolation), db)
     else (Inr (), db\<lparr>db_creds := db_creds db @ [(uid, cred)]\<rparr>))"

definition ListWebAuthnCredentialsByUser :: "string \<Rightarrow> WebAuthnCredential list query" where
  "ListWebAuthnCredentialsByUser uid = exec (\<lambda>db.
     (Inr (sort_key (\<lambda>c. the (wa_CreatedAt c)) (map snd (filter (\<lambda>(u, c). u = uid) (db_creds db)))), db))"

definition UpdateWebAuthnCredentialSignCount_query :: "string \<Rightarrow> int \<Rightarrow> string query" where
  "UpdateWebAuthnCredentialSignCount_query cid signCount = exec (\<lambda>db.
     if \<not> list_ex (\<lambda>(u, c). wa_CredentialID c = cid) (db_creds db) then (Inl ErrNoRows, db)
     else (Inr cid, db\<lparr>db_creds := update_where (\<lambda>(u, c). wa_CredentialID c = cid)
            (\<lambda>(u, c). (u, c\<lparr>wa_SignCount := signCount, wa_LastUsedAt := Some (db_now db)\<rparr>)) (db_creds db)\<rparr>))"

definition DeleteWebAuthnCredential :: "string \<Rightarrow> string \<Rightarrow> string query" where
  "DeleteWebAuthnCredential uid cid = exec (\<lambda>db.
     if \<not> list_ex (\<lambda>(u, c). u = uid \<and> wa_CredentialID c = cid) (db_creds db) then (Inl ErrNoRows, db)
     else (Inr cid, db\<lparr>db_creds := filter (\<lambda>(u, c). \<not> (u = uid \<and> wa_CredentialID c = cid)) (db_creds db)\<rparr>))"

section \<open>Transactions\<close>

text \<open>\<open>Postgres.WithTx\<close> over a callback that gets \<open>True\<close> for a context that carries the transaction. The callback runs as a block; a rollback
  restores the tables, not the sequence.\<close>

type_synonym 'a tx_result = "(auth_error + 'a) \<times> auth_db"

definition rollback :: "auth_db \<Rightarrow> auth_db \<Rightarrow> auth_db" where
  "rollback db db' = db\<lparr>db_serial := db_serial db'\<rparr>"

definition Postgres_WithTx :: "(bool \<Rightarrow> auth_db \<Rightarrow> 'a tx_result) \<Rightarrow> auth_db \<Rightarrow> 'a tx_result" where
  "Postgres_WithTx fn db =
     (case db_fault db of
        Some e \<Rightarrow> (Inl (Wrapped ''begin tx'' (PgFailed (DriverError e))), db)
      | None \<Rightarrow>
          (case fn True db of
             (Inl e, db') \<Rightarrow> (Inl e, rollback db db')
           | (Inr x, db') \<Rightarrow>
               (case db_commit_fault db of
                  Some e \<Rightarrow> (Inl (Wrapped ''commit tx'' (PgFailed (DriverError e))), rollback db db')
                | None \<Rightarrow> (Inr x, db'))))"

end
