(* ===== verification/Auth_Repo.thy ===== *)
theory Auth_Repo
  imports Auth_Db
begin

text \<open>
  The repositories of \<open>internal/core/auth\<close> (\<open>user_repository.go\<close>, \<open>mfa_repository.go\<close>, \<open>webauthn_repository.go\<close>) over the
  queries of \<open>Auth_Db\<close>, and the store-backed provider that goAuth calls (\<open>provider_store.go\<close>, \<open>provider_webauthn.go\<close>).
  Timeouts of contexts are not modelled.
\<close>

section \<open>Accounts\<close>

record StoredUser =
  su_ID :: string
  su_Email :: string
  su_PasswordHash :: string
  su_Role :: string
  su_Status :: string
  su_AccountVersion :: int
  su_TOTPEnabled :: bool

record CreateStoredUserInput =
  ci_Identifier :: string
  ci_PasswordHash :: string
  ci_Role :: string
  ci_Status :: string

definition NormalizeIdentifier :: "string \<Rightarrow> string" where
  "NormalizeIdentifier identifier = to_lower (trim_space identifier)"

definition nonNegativeUint32 :: "int \<Rightarrow> int" where
  "nonNegativeUint32 v = (if v < 0 then 0 else v)"

definition textToRole :: "string option \<Rightarrow> string" where
  "textToRole role = (case role of None \<Rightarrow> [] | Some r \<Rightarrow> r)"

definition roleToText :: "string \<Rightarrow> string option" where
  "roleToText role = (let trimmed = trim_space role in if trimmed = [] then None else Some trimmed)"

definition mapUserRow :: "user_row \<Rightarrow> StoredUser" where
  "mapUserRow row = \<lparr>su_ID = ur_id row, su_Email = ur_email row, su_PasswordHash = ur_password_hash row, su_Role = textToRole (ur_role row),
     su_Status = ur_status row, su_AccountVersion = nonNegativeUint32 (ur_account_version row), su_TOTPEnabled = ur_totp_enabled row\<rparr>"

definition parseUserID :: "pglib \<Rightarrow> string \<Rightarrow> auth_error + string" where
  "parseUserID L userID =
     (let trimmed = trim_space userID in
      if trimmed = [] then Inl ErrAuthUserNotFound
      else (case pl_scan L trimmed of None \<Rightarrow> Inl ErrAuthUserNotFound | Some uid \<Rightarrow> Inr uid))"

text \<open>The ends of the repository methods: a query whose missing row is an error of its own, and one that only fails.\<close>

definition row_or :: "auth_error \<Rightarrow> string \<Rightarrow> ('a \<Rightarrow> 'b) \<Rightarrow> (pg_error + 'a) \<times> auth_db \<Rightarrow> 'b tx_result" where
  "row_or missing op f res =
     (case res of
        (Inl ErrNoRows, db) \<Rightarrow> (Inl missing, db)
      | (Inl e, db) \<Rightarrow> (Inl (Wrapped op (PgFailed e)), db)
      | (Inr x, db) \<Rightarrow> (Inr (f x), db))"

definition wrap_error :: "string \<Rightarrow> ('a \<Rightarrow> 'b) \<Rightarrow> (pg_error + 'a) \<times> auth_db \<Rightarrow> 'b tx_result" where
  "wrap_error op f res = (case res of (Inl e, db) \<Rightarrow> (Inl (Wrapped op (PgFailed e)), db) | (Inr x, db) \<Rightarrow> (Inr (f x), db))"

definition GetByIdentifier :: "pglib \<Rightarrow> string \<Rightarrow> auth_db \<Rightarrow> StoredUser tx_result" where
  "GetByIdentifier L identifier db =
     row_or ErrAuthUserNotFound ''get user by identifier'' mapUserRow (GetAuthUserByLogin L (NormalizeIdentifier identifier) db)"

definition GetByID :: "pglib \<Rightarrow> string \<Rightarrow> auth_db \<Rightarrow> StoredUser tx_result" where
  "GetByID L userID db =
     (case parseUserID L userID of
        Inl e \<Rightarrow> (Inl (Wrapped ''get user by id'' e), db)
      | Inr uid \<Rightarrow> row_or ErrAuthUserNotFound ''get user by id'' mapUserRow (GetAuthUserByID uid db))"

definition repo_UpdatePasswordHash :: "pglib \<Rightarrow> string \<Rightarrow> string \<Rightarrow> auth_db \<Rightarrow> unit tx_result" where
  "repo_UpdatePasswordHash L userID newHash db =
     (case parseUserID L userID of
        Inl e \<Rightarrow> (Inl (Wrapped ''update password hash'' e), db)
      | Inr uid \<Rightarrow> row_or ErrAuthUserNotFound ''update password hash'' (\<lambda>_. ()) (UpdateAuthUserPasswordHash uid newHash db))"

definition Create :: "pglib \<Rightarrow> CreateStoredUserInput \<Rightarrow> auth_db \<Rightarrow> StoredUser tx_result" where
  "Create L i db =
     (case CreateAuthUser L \<lparr>cp_Email = NormalizeIdentifier (ci_Identifier i), cp_PasswordHash = ci_PasswordHash i,
             cp_Role = roleToText (ci_Role i), cp_Permissions = 0, cp_Status = trim_space (ci_Status i)\<rparr> db of
        (Inl e, db') \<Rightarrow> (Inl (if e = PgCode pgUniqueViolation then ErrAuthUserExists else Wrapped ''create user'' (PgFailed e)), db')
      | (Inr row, db') \<Rightarrow> (Inr (mapUserRow row), db'))"

definition UpdateStatus :: "pglib \<Rightarrow> string \<Rightarrow> string \<Rightarrow> auth_db \<Rightarrow> StoredUser tx_result" where
  "UpdateStatus L userID status db =
     (case parseUserID L userID of
        Inl e \<Rightarrow> (Inl (Wrapped ''update account status'' e), db)
      | Inr uid \<Rightarrow> row_or ErrAuthUserNotFound ''update account status'' mapUserRow (UpdateAuthUserStatus uid (trim_space status) db))"

section \<open>Second factors\<close>

record TOTPState =
  ts_SecretCiphertext :: string
  ts_Verified :: bool
  ts_Enabled :: bool
  ts_LastUsedCounter :: int

definition totp_state :: "GetUserTOTPRow \<Rightarrow> TOTPState" where
  "totp_state row = \<lparr>ts_SecretCiphertext = gt_SecretCiphertext row, ts_Verified = gt_Verified row, ts_Enabled = gt_TotpEnabled row,
     ts_LastUsedCounter = gt_LastUsedCounter row\<rparr>"

text \<open>\<open>None\<close> is \<open>found=false\<close>.\<close>

definition GetTOTP :: "pglib \<Rightarrow> string \<Rightarrow> auth_db \<Rightarrow> TOTPState option tx_result" where
  "GetTOTP L userID db =
     (case parseUserID L userID of
        Inl e \<Rightarrow> (Inr None, db)
      | Inr uid \<Rightarrow>
          (case GetUserTOTP uid db of
             (Inl ErrNoRows, db') \<Rightarrow> (Inr None, db')
           | (Inl e, db') \<Rightarrow> (Inl (Wrapped ''get totp'' (PgFailed e)), db')
           | (Inr row, db') \<Rightarrow> (Inr (Some (totp_state row)), db')))"

text \<open>A method that first reads the user id, and its error for an id that is none.\<close>

definition with_user :: "pglib \<Rightarrow> string \<Rightarrow> (string \<Rightarrow> auth_db \<Rightarrow> 'b tx_result) \<Rightarrow> auth_db \<Rightarrow> 'b tx_result" where
  "with_user L userID f db = (case parseUserID L userID of Inl e \<Rightarrow> (Inl e, db) | Inr uid \<Rightarrow> f uid db)"

definition UpsertTOTPSecret :: "pglib \<Rightarrow> string \<Rightarrow> string \<Rightarrow> auth_db \<Rightarrow> unit tx_result" where
  "UpsertTOTPSecret L userID ciphertext =
     with_user L userID (\<lambda>uid db. row_or ErrAuthUserNotFound ''upsert totp secret'' (\<lambda>_. ()) (UpsertUserTOTPSecret uid ciphertext db))"

definition repo_MarkTOTPVerified :: "pglib \<Rightarrow> string \<Rightarrow> auth_db \<Rightarrow> unit tx_result" where
  "repo_MarkTOTPVerified L userID =
     with_user L userID (\<lambda>uid db. row_or ErrAuthUserNotFound ''mark totp verified'' (\<lambda>_. ()) (MarkUserTOTPVerified uid db))"

definition AdvanceTOTPCounter :: "pglib \<Rightarrow> string \<Rightarrow> int \<Rightarrow> auth_db \<Rightarrow> unit tx_result" where
  "AdvanceTOTPCounter L userID counter =
     with_user L userID (\<lambda>uid db. row_or ErrTOTPCounterNotAdvanced ''advance totp counter'' (\<lambda>_. ()) (AdvanceUserTOTPCounter counter uid db))"

definition RotateTOTPSecret :: "pglib \<Rightarrow> string \<Rightarrow> string \<Rightarrow> string \<Rightarrow> auth_db \<Rightarrow> bool tx_result" where
  "RotateTOTPSecret L userID prev succ =
     with_user L userID (\<lambda>uid db. wrap_error ''rotate totp secret'' (\<lambda>swapped. swapped > 0) (RotateUserTOTPSecret succ uid prev db))"

definition ListTOTPSecrets :: "pglib \<Rightarrow> string \<Rightarrow> int \<Rightarrow> auth_db \<Rightarrow> (string \<times> string) list tx_result" where
  "ListTOTPSecrets L afterUserID limit db =
     (if limit < 1 then (Inr [], db)
      else (let page = (\<lambda>after db. wrap_error ''list totp secrets'' (\<lambda>rows. rows) (ListUserTOTPSecrets after (nat (min limit 1000000)) db)) in
        if afterUserID \<noteq> [] then with_user L afterUserID (\<lambda>uid. page (Some uid)) db else page None db))"

definition repo_DisableTOTP :: "pglib \<Rightarrow> string \<Rightarrow> auth_db \<Rightarrow> unit tx_result" where
  "repo_DisableTOTP L userID = with_user L userID (\<lambda>uid db. row_or ErrAuthUserNotFound ''disable totp'' (\<lambda>_. ()) (DisableUserTOTP uid db))"

definition ListUnusedBackupCodes :: "pglib \<Rightarrow> string \<Rightarrow> auth_db \<Rightarrow> string list tx_result" where
  "ListUnusedBackupCodes L userID db =
     (case parseUserID L userID of
        Inl e \<Rightarrow> (Inr [], db)
      | Inr uid \<Rightarrow> wrap_error ''list backup codes'' (filter (\<lambda>raw. length raw = 32)) (ListUnusedBackupCodes_query uid db))"

text \<open>The loop over the hashes keeps the first of equal ones.\<close>

fun dedup_hashes :: "string list \<Rightarrow> string list \<Rightarrow> string list" where
  "dedup_hashes seen [] = []"
| "dedup_hashes seen (h # hs) = (if h \<in> set seen then dedup_hashes seen hs else h # dedup_hashes (h # seen) hs)"

definition repo_ReplaceBackupCodes :: "pglib \<Rightarrow> bool \<Rightarrow> string \<Rightarrow> string list \<Rightarrow> auth_db \<Rightarrow> unit tx_result" where
  "repo_ReplaceBackupCodes L inTx userID hashes db =
     (if \<not> inTx then (Inl (Wrapped ''replace backup codes'' ErrTransactionRequired), db)
      else with_user L userID (\<lambda>uid db.
        let raw = dedup_hashes [] hashes in
        (case DeleteBackupCodes uid db of
           (Inl e, db1) \<Rightarrow> (Inl (Wrapped ''replace backup codes: delete'' (PgFailed e)), db1)
         | (Inr n, db1) \<Rightarrow>
             (case InsertBackupCodes raw uid db1 of
                (Inl e, db2) \<Rightarrow> (Inl (Wrapped ''replace backup codes: insert'' (PgFailed e)), db2)
              | (Inr inserted, db2) \<Rightarrow> if inserted \<noteq> length raw then (Inl ErrAuthUserNotFound, db2) else (Inr (), db2)))) db)"

definition repo_ConsumeBackupCode :: "pglib \<Rightarrow> string \<Rightarrow> string \<Rightarrow> auth_db \<Rightarrow> bool tx_result" where
  "repo_ConsumeBackupCode L userID h db =
     (case parseUserID L userID of
        Inl e \<Rightarrow> (Inr False, db)
      | Inr uid \<Rightarrow> wrap_error ''consume backup code'' (\<lambda>consumed. consumed > 0) (ConsumeBackupCode_query uid h db))"

section \<open>Passkeys\<close>

definition ListByUser :: "pglib \<Rightarrow> string \<Rightarrow> auth_db \<Rightarrow> WebAuthnCredential list tx_result" where
  "ListByUser L userID db =
     (case parseUserID L userID of
        Inl e \<Rightarrow> (Inr [], db)
      | Inr uid \<Rightarrow> wrap_error ''list webauthn credentials'' (\<lambda>rows. rows) (ListWebAuthnCredentialsByUser uid db))"

definition Add :: "pglib \<Rightarrow> string \<Rightarrow> WebAuthnCredential \<Rightarrow> auth_db \<Rightarrow> unit tx_result" where
  "Add L userID cred db =
     (case parseUserID L userID of
        Inl e \<Rightarrow> (Inl (Wrapped ''add webauthn credential'' e), db)
      | Inr uid \<Rightarrow> wrap_error ''add webauthn credential'' (\<lambda>_. ()) (CreateWebAuthnCredential uid cred db))"

definition UpdateSignCount :: "string \<Rightarrow> int \<Rightarrow> auth_db \<Rightarrow> unit tx_result" where
  "UpdateSignCount cid signCount db =
     row_or ErrWebAuthnCredentialNotFound ''update webauthn sign count'' (\<lambda>_. ()) (UpdateWebAuthnCredentialSignCount_query cid signCount db)"

definition Delete_credential :: "pglib \<Rightarrow> string \<Rightarrow> string \<Rightarrow> auth_db \<Rightarrow> unit tx_result" where
  "Delete_credential L userID cid db =
     (case parseUserID L userID of
        Inl e \<Rightarrow> (Inl ErrWebAuthnCredentialNotFound, db)
      | Inr uid \<Rightarrow> row_or ErrWebAuthnCredentialNotFound ''delete webauthn credential'' (\<lambda>_. ()) (DeleteWebAuthnCredential uid cid db))"

section \<open>The provider\<close>

datatype AccountStatus = AccountActive | AccountPendingVerification | AccountDisabled | AccountLocked | AccountDeleted | AccountOther nat

definition AccountStatusText :: "AccountStatus \<Rightarrow> string" where
  "AccountStatusText s =
     (case s of
        AccountActive \<Rightarrow> ''active''
      | AccountPendingVerification \<Rightarrow> ''pending_verification''
      | AccountDisabled \<Rightarrow> ''disabled''
      | AccountLocked \<Rightarrow> ''locked''
      | AccountDeleted \<Rightarrow> ''deleted''
      | AccountOther n \<Rightarrow> ''active'')"

definition parseAccountStatus :: "string \<Rightarrow> AccountStatus" where
  "parseAccountStatus s =
     (if s = ''active'' then AccountActive
      else if s = ''pending_verification'' then AccountPendingVerification
      else if s = ''disabled'' then AccountDisabled
      else if s = ''locked'' then AccountLocked
      else if s = ''deleted'' then AccountDeleted
      else AccountActive)"

text \<open>goAuth's record, with the field that the tenancy feature fills.\<close>

record UserRecord =
  rec_UserID :: string
  rec_Identifier :: string
  rec_PasswordHash :: string
  rec_Role :: string
  rec_Status :: AccountStatus
  rec_TOTPEnabled :: bool
  rec_AccountVersion :: int
  rec_TenantID :: string

definition RecordFromStored :: "StoredUser \<Rightarrow> UserRecord" where
  "RecordFromStored row = \<lparr>rec_UserID = su_ID row, rec_Identifier = su_Email row, rec_PasswordHash = su_PasswordHash row,
     rec_Role = su_Role row, rec_Status = parseAccountStatus (su_Status row), rec_TOTPEnabled = su_TOTPEnabled row,
     rec_AccountVersion = su_AccountVersion row, rec_TenantID = []\<rparr>"

record CreateUserInput =
  cu_Identifier :: string
  cu_PasswordHash :: string
  cu_Role :: string
  cu_Status :: AccountStatus
  cu_TenantID :: string

text \<open>What is wired into a provider: the repositories that are not nil, and the cipher.\<close>

record StoreUserProvider =
  pv_repo :: bool
  pv_webauthnRepo :: bool
  pv_mfaRepo :: bool
  pv_cipher :: "aesGCMCipher option"
  pv_tx :: bool

definition NewStoreUserProvider :: "bool \<Rightarrow> StoreUserProvider" where
  "NewStoreUserProvider repo = \<lparr>pv_repo = repo, pv_webauthnRepo = False, pv_mfaRepo = False, pv_cipher = None, pv_tx = False\<rparr>"

definition WithMFA :: "bool \<Rightarrow> aesGCMCipher option \<Rightarrow> StoreUserProvider \<Rightarrow> StoreUserProvider" where
  "WithMFA repo cipher p = p\<lparr>pv_mfaRepo := repo, pv_cipher := cipher\<rparr>"

definition provider_WithTx :: "bool \<Rightarrow> StoreUserProvider \<Rightarrow> StoreUserProvider" where
  "provider_WithTx tx p = p\<lparr>pv_tx := tx\<rparr>"

definition WithWebAuthnRepository :: "bool \<Rightarrow> StoreUserProvider \<Rightarrow> StoreUserProvider" where
  "WithWebAuthnRepository repo p = p\<lparr>pv_webauthnRepo := repo\<rparr>"

definition inTx :: "StoreUserProvider \<Rightarrow> (bool \<Rightarrow> auth_db \<Rightarrow> 'a tx_result) \<Rightarrow> auth_db \<Rightarrow> 'a tx_result" where
  "inTx p fn db = (if pv_tx p then Postgres_WithTx fn db else fn False db)"

text \<open>The end of the account methods: one error of the repository becomes goAuth's, the others are wrapped.\<close>

definition provider_result :: "auth_error \<Rightarrow> auth_error \<Rightarrow> string \<Rightarrow> ('a \<Rightarrow> 'b) \<Rightarrow> 'a tx_result \<Rightarrow> 'b tx_result" where
  "provider_result from to op f res =
     (case res of (Inl e, db) \<Rightarrow> (Inl (if err_is e from then to else Wrapped op e), db) | (Inr x, db) \<Rightarrow> (Inr (f x), db))"

definition GetUserByIdentifier :: "pglib \<Rightarrow> StoreUserProvider \<Rightarrow> string \<Rightarrow> auth_db \<Rightarrow> UserRecord tx_result" where
  "GetUserByIdentifier L p identifier db =
     (if \<not> pv_repo p then (Inl ErrUserNotFound, db)
      else provider_result ErrAuthUserNotFound ErrUserNotFound ''get user by identifier'' RecordFromStored (GetByIdentifier L identifier db))"

definition GetUserByID :: "pglib \<Rightarrow> StoreUserProvider \<Rightarrow> string \<Rightarrow> auth_db \<Rightarrow> UserRecord tx_result" where
  "GetUserByID L p userID db =
     (if \<not> pv_repo p then (Inl ErrUserNotFound, db)
      else provider_result ErrAuthUserNotFound ErrUserNotFound ''get user by id'' RecordFromStored (GetByID L userID db))"

definition UpdatePasswordHash :: "pglib \<Rightarrow> StoreUserProvider \<Rightarrow> string \<Rightarrow> string \<Rightarrow> auth_db \<Rightarrow> unit tx_result" where
  "UpdatePasswordHash L p userID newHash db =
     (if \<not> pv_repo p then (Inl ErrUserNotFound, db)
      else provider_result ErrAuthUserNotFound ErrUserNotFound ''update password hash'' (\<lambda>_. ()) (repo_UpdatePasswordHash L userID newHash db))"

definition CreateUser :: "pglib \<Rightarrow> StoreUserProvider \<Rightarrow> CreateUserInput \<Rightarrow> auth_db \<Rightarrow> UserRecord tx_result" where
  "CreateUser L p i db =
     (if \<not> pv_repo p then (Inl ErrUserNotFound, db)
      else provider_result ErrAuthUserExists ErrProviderDuplicateIdentifier ''create user'' RecordFromStored
        (Create L \<lparr>ci_Identifier = cu_Identifier i, ci_PasswordHash = cu_PasswordHash i, ci_Role = cu_Role i, ci_Status = AccountStatusText (cu_Status i)\<rparr> db))"

definition UpdateAccountStatus :: "pglib \<Rightarrow> StoreUserProvider \<Rightarrow> string \<Rightarrow> AccountStatus \<Rightarrow> auth_db \<Rightarrow> UserRecord tx_result" where
  "UpdateAccountStatus L p userID status db =
     (if \<not> pv_repo p then (Inl ErrUserNotFound, db)
      else provider_result ErrAuthUserNotFound ErrUserNotFound ''update account status'' RecordFromStored (UpdateStatus L userID (AccountStatusText status) db))"

record TOTPRecord =
  tp_Secret :: string
  tp_Enabled :: bool
  tp_Verified :: bool
  tp_LastUsedCounter :: int

definition no_totp :: TOTPRecord where
  "no_totp = \<lparr>tp_Secret = [], tp_Enabled = False, tp_Verified = False, tp_LastUsedCounter = 0\<rparr>"

text \<open>\<open>mfaReady\<close>, as the cipher the methods then use.\<close>

definition mfaReady :: "StoreUserProvider \<Rightarrow> aesGCMCipher option" where
  "mfaReady p = (if pv_mfaRepo p then pv_cipher p else None)"

definition mfaErr :: "'a tx_result \<Rightarrow> 'a tx_result" where
  "mfaErr res = (case res of (Inl e, db) \<Rightarrow> (Inl (if err_is e ErrAuthUserNotFound then ErrUserNotFound else e), db) | _ \<Rightarrow> res)"

text \<open>\<open>nonce\<close> is what the random source delivers to \<open>Seal\<close>.\<close>

definition rotateSecretLazily :: "pglib \<Rightarrow> aead_lib \<Rightarrow> string option \<Rightarrow> aesGCMCipher \<Rightarrow> string \<Rightarrow> string \<Rightarrow> string \<Rightarrow> auth_db \<Rightarrow> auth_db" where
  "rotateSecretLazily L A nonce c userID current secret db =
     (if \<not> NeedsRotation c current then db
      else (case Seal A c nonce userID secret of Inl e \<Rightarrow> db | Inr succ \<Rightarrow> snd (RotateTOTPSecret L userID current succ db)))"

definition GetTOTPSecret :: "pglib \<Rightarrow> aead_lib \<Rightarrow> string option \<Rightarrow> StoreUserProvider \<Rightarrow> string \<Rightarrow> auth_db \<Rightarrow> TOTPRecord tx_result" where
  "GetTOTPSecret L A nonce p userID db =
     (case mfaReady p of
        None \<Rightarrow> (Inr no_totp, db)
      | Some c \<Rightarrow>
          (case GetTOTP L userID db of
             (Inl e, db1) \<Rightarrow> (Inl e, db1)
           | (Inr None, db1) \<Rightarrow> (Inr no_totp, db1)
           | (Inr (Some state), db1) \<Rightarrow>
               (case Open A c userID (ts_SecretCiphertext state) of
                  Inl e \<Rightarrow> (Inl (CipherFailed e), db1)
                | Inr secret \<Rightarrow>
                    (Inr \<lparr>tp_Secret = secret, tp_Enabled = ts_Enabled state, tp_Verified = ts_Verified state, tp_LastUsedCounter = ts_LastUsedCounter state\<rparr>,
                     rotateSecretLazily L A nonce c userID (ts_SecretCiphertext state) secret db1))))"

definition EnableTOTP :: "pglib \<Rightarrow> aead_lib \<Rightarrow> string option \<Rightarrow> StoreUserProvider \<Rightarrow> string \<Rightarrow> string \<Rightarrow> auth_db \<Rightarrow> unit tx_result" where
  "EnableTOTP L A nonce p userID secret db =
     (case mfaReady p of
        None \<Rightarrow> (Inl errMFAUnavailable, db)
      | Some c \<Rightarrow>
          if secret = [] then (Inl (Plain ''enable totp: empty secret''), db)
          else (case Seal A c nonce userID secret of
              Inl e \<Rightarrow> (Inl (CipherFailed e), db)
            | Inr ciphertext \<Rightarrow> mfaErr (UpsertTOTPSecret L userID ciphertext db)))"

definition mfa_write :: "StoreUserProvider \<Rightarrow> (auth_db \<Rightarrow> unit tx_result) \<Rightarrow> auth_db \<Rightarrow> unit tx_result" where
  "mfa_write p f db = (case mfaReady p of None \<Rightarrow> (Inl errMFAUnavailable, db) | Some c \<Rightarrow> mfaErr (f db))"

definition DisableTOTP :: "pglib \<Rightarrow> StoreUserProvider \<Rightarrow> string \<Rightarrow> auth_db \<Rightarrow> unit tx_result" where
  "DisableTOTP L p userID = mfa_write p (repo_DisableTOTP L userID)"

definition MarkTOTPVerified :: "pglib \<Rightarrow> StoreUserProvider \<Rightarrow> string \<Rightarrow> auth_db \<Rightarrow> unit tx_result" where
  "MarkTOTPVerified L p userID = mfa_write p (repo_MarkTOTPVerified L userID)"

definition UpdateTOTPLastUsedCounter :: "pglib \<Rightarrow> StoreUserProvider \<Rightarrow> string \<Rightarrow> int \<Rightarrow> auth_db \<Rightarrow> unit tx_result" where
  "UpdateTOTPLastUsedCounter L p userID counter = mfa_write p (AdvanceTOTPCounter L userID counter)"

definition GetBackupCodes :: "pglib \<Rightarrow> StoreUserProvider \<Rightarrow> string \<Rightarrow> auth_db \<Rightarrow> string list tx_result" where
  "GetBackupCodes L p userID db = (case mfaReady p of None \<Rightarrow> (Inr [], db) | Some c \<Rightarrow> ListUnusedBackupCodes L userID db)"

definition ReplaceBackupCodes :: "pglib \<Rightarrow> StoreUserProvider \<Rightarrow> string \<Rightarrow> string list \<Rightarrow> auth_db \<Rightarrow> unit tx_result" where
  "ReplaceBackupCodes L p userID codes = mfa_write p (inTx p (\<lambda>tx. repo_ReplaceBackupCodes L tx userID codes))"

definition ConsumeBackupCode :: "pglib \<Rightarrow> StoreUserProvider \<Rightarrow> string \<Rightarrow> string \<Rightarrow> auth_db \<Rightarrow> bool tx_result" where
  "ConsumeBackupCode L p userID codeHash db = (case mfaReady p of None \<Rightarrow> (Inr False, db) | Some c \<Rightarrow> repo_ConsumeBackupCode L userID codeHash db)"

definition GetWebAuthnCredentials :: "pglib \<Rightarrow> StoreUserProvider \<Rightarrow> string \<Rightarrow> auth_db \<Rightarrow> WebAuthnCredential list tx_result" where
  "GetWebAuthnCredentials L p userID db = (if \<not> pv_webauthnRepo p then (Inr [], db) else ListByUser L userID db)"

definition AddWebAuthnCredential :: "pglib \<Rightarrow> StoreUserProvider \<Rightarrow> string \<Rightarrow> WebAuthnCredential \<Rightarrow> auth_db \<Rightarrow> unit tx_result" where
  "AddWebAuthnCredential L p userID cred db = (if \<not> pv_webauthnRepo p then (Inl ErrUnauthorized, db) else Add L userID cred db)"

definition UpdateWebAuthnCredentialSignCount :: "StoreUserProvider \<Rightarrow> string \<Rightarrow> string \<Rightarrow> int \<Rightarrow> auth_db \<Rightarrow> unit tx_result" where
  "UpdateWebAuthnCredentialSignCount p userID cid signCount db =
     (if \<not> pv_webauthnRepo p then (Inl ErrUnauthorized, db) else UpdateSignCount cid signCount db)"

definition RemoveWebAuthnCredential :: "pglib \<Rightarrow> StoreUserProvider \<Rightarrow> string \<Rightarrow> string \<Rightarrow> auth_db \<Rightarrow> unit tx_result" where
  "RemoveWebAuthnCredential L p userID cid db =
     (if \<not> pv_webauthnRepo p then (Inl ErrWebAuthnCredentialNotFound, db) else Delete_credential L userID cid db)"

end
