(* ===== verification/Auth_Safety.thy ===== *)
theory Auth_Safety
  imports Auth_Repo
begin

text \<open>
  What the tables of accounts and second factors keep under every operation of the provider, in any order, with faults of the database
  in between: the operations simulate a small relation of changes (\<open>db_step\<close>), over which the invariants are shown by cases.
  Every operation writes in one statement or one transaction, so an order of operations is an interleaving of concurrent requests.
\<close>

section \<open>Operations\<close>

datatype auth_op =
    Environment int string "string option" "string option"   \<comment> \<open>clock, next id, faults\<close>
  | OpCreateUser CreateUserInput
  | OpUpdateStatus string AccountStatus
  | OpUpdatePassword string string
  | OpGetTOTP string "string option"
  | OpEnableTOTP string string "string option"
  | OpMarkVerified string
  | OpUpdateCounter string int
  | OpDisableTOTP string
  | OpRotateSecret string string string
  | OpReplaceCodes string "string list"
  | OpConsumeCode string string
  | OpAddCredential string WebAuthnCredential
  | OpSignCount string string int
  | OpRemoveCredential string string

definition finished :: "'a tx_result \<Rightarrow> bool tx_result" where
  "finished res = (case res of (Inl e, db) \<Rightarrow> (Inl e, db) | (Inr x, db) \<Rightarrow> (Inr True, db))"

fun auth_step :: "pglib \<Rightarrow> aead_lib \<Rightarrow> StoreUserProvider \<Rightarrow> auth_op \<Rightarrow> auth_db \<Rightarrow> bool tx_result" where
  "auth_step L A p (Environment now uid f g) db = (Inr True, db\<lparr>db_now := now, db_new_uuid := uid, db_fault := f, db_commit_fault := g\<rparr>)"
| "auth_step L A p (OpCreateUser i) db = finished (CreateUser L p i db)"
| "auth_step L A p (OpUpdateStatus u s) db = finished (UpdateAccountStatus L p u s db)"
| "auth_step L A p (OpUpdatePassword u h) db = finished (UpdatePasswordHash L p u h db)"
| "auth_step L A p (OpGetTOTP u n) db = finished (GetTOTPSecret L A n p u db)"
| "auth_step L A p (OpEnableTOTP u s n) db = finished (EnableTOTP L A n p u s db)"
| "auth_step L A p (OpMarkVerified u) db = finished (MarkTOTPVerified L p u db)"
| "auth_step L A p (OpUpdateCounter u c) db = finished (UpdateTOTPLastUsedCounter L p u c db)"
| "auth_step L A p (OpDisableTOTP u) db = finished (DisableTOTP L p u db)"
| "auth_step L A p (OpRotateSecret u prev succ) db = RotateTOTPSecret L u prev succ db"
| "auth_step L A p (OpReplaceCodes u hs) db = finished (ReplaceBackupCodes L p u hs db)"
| "auth_step L A p (OpConsumeCode u h) db = ConsumeBackupCode L p u h db"
| "auth_step L A p (OpAddCredential u c) db = finished (AddWebAuthnCredential L p u c db)"
| "auth_step L A p (OpSignCount u cid n) db = finished (UpdateWebAuthnCredentialSignCount p u cid n db)"
| "auth_step L A p (OpRemoveCredential u cid) db = finished (RemoveWebAuthnCredential L p u cid db)"

fun run_auth :: "pglib \<Rightarrow> aead_lib \<Rightarrow> StoreUserProvider \<Rightarrow> auth_op list \<Rightarrow> auth_db \<Rightarrow> (auth_op \<times> (auth_error + bool)) list \<times> auth_db" where
  "run_auth L A p [] db = ([], db)"
| "run_auth L A p (op # ops) db =
     (let (r, db1) = auth_step L A p op db; (tr, db2) = run_auth L A p ops db1 in ((op, r) # tr, db2))"

section \<open>Changes of the tables\<close>

datatype change =
    Silent | Created string | StatusSet string | TotpStored string | Verified string | CounterSet string int | Disabled string
  | Resealed string | CodesReplaced string | CodeUsed string string nat

definition new_codes :: "nat \<Rightarrow> string \<Rightarrow> string list \<Rightarrow> code_row list" where
  "new_codes n uid hashes = map (\<lambda>(i, h). \<lparr>cr_id = i, cr_user_id = uid, cr_code_hash = h, cr_used_at = None\<rparr>) (zip [n ..< n + length hashes] hashes)"

abbreviation on_totp :: "string \<Rightarrow> (totp_row \<Rightarrow> totp_row) \<Rightarrow> auth_db \<Rightarrow> auth_db" where
  "on_totp uid f db \<equiv> db\<lparr>db_totp := update_where (\<lambda>t. tr_user_id t = uid) f (db_totp db)\<rparr>"

inductive db_step :: "pglib \<Rightarrow> auth_db \<Rightarrow> change \<Rightarrow> auth_db \<Rightarrow> bool" for L where
  Env: "parseUserID L i = Inr i \<Longrightarrow> db_step L db Silent (db\<lparr>db_now := n, db_new_uuid := i, db_fault := f, db_commit_fault := g\<rparr>)"
| Serial: "db_serial db \<le> n \<Longrightarrow> db_step L db Silent (db\<lparr>db_serial := n\<rparr>)"
| Create: "ur_id u = db_new_uuid db \<Longrightarrow> ur_email u = pl_lower L (ur_email u) \<Longrightarrow> \<forall>v \<in> set (db_users db). ur_id v \<noteq> ur_id u \<and> pl_lower L (ur_email v) \<noteq> pl_lower L (ur_email u) \<Longrightarrow>
    ur_account_version u = 1 \<Longrightarrow> \<not> ur_totp_enabled u \<Longrightarrow> db_step L db (Created (ur_id u)) (db\<lparr>db_users := db_users db @ [u]\<rparr>)"
| Password: "db_step L db Silent (on_user uid (\<lambda>u. u\<lparr>ur_password_hash := h\<rparr>) db)"
| Status: "user_by_id db uid = Some u \<Longrightarrow> ur_account_version u < int32_max \<Longrightarrow>
    db_step L db (StatusSet uid) (on_user uid (\<lambda>u. u\<lparr>ur_status := s, ur_account_version := ur_account_version u + 1\<rparr>) db)"
| Insert_Totp: "user_by_id db uid = Some u \<Longrightarrow> totp_by_id db uid = None \<Longrightarrow> ur_account_version (set_totp_enabled False u) \<le> int32_max \<Longrightarrow>
    db_step L db (TotpStored uid) (on_user uid (set_totp_enabled False)
      (db\<lparr>db_totp := db_totp db @ [\<lparr>tr_user_id = uid, tr_secret_ciphertext = ct, tr_verified = False, tr_last_used_counter = 0\<rparr>]\<rparr>))"
| Update_Totp: "user_by_id db uid = Some u \<Longrightarrow> totp_by_id db uid = Some t \<Longrightarrow> ur_account_version (set_totp_enabled (tr_verified t) u) \<le> int32_max \<Longrightarrow>
    db_step L db (TotpStored uid) (on_user uid (set_totp_enabled (tr_verified t)) (on_totp uid (\<lambda>t. t\<lparr>tr_secret_ciphertext := ct\<rparr>) db))"
| Verify: "db_step L db (Verified uid) (on_totp uid (\<lambda>t. t\<lparr>tr_verified := True\<rparr>) db)"
| Counter: "totp_by_id db uid = Some t \<Longrightarrow> tr_last_used_counter t < c \<Longrightarrow>
    db_step L db (CounterSet uid c) (on_totp uid (\<lambda>t. t\<lparr>tr_last_used_counter := c\<rparr>) db)"
| Reseal: "db_step L db (Resealed uid) (on_totp uid (\<lambda>t. t\<lparr>tr_secret_ciphertext := ct\<rparr>) db)"
| Disable: "user_by_id db uid = Some u \<Longrightarrow> ur_account_version (set_totp_enabled False u) \<le> int32_max \<Longrightarrow>
    db_step L db (Disabled uid) (on_user uid (set_totp_enabled False)
      (db\<lparr>db_totp := filter (\<lambda>t. tr_user_id t \<noteq> uid) (db_totp db), db_codes := filter (\<lambda>b. cr_user_id b \<noteq> uid) (db_codes db)\<rparr>))"
| Replace: "user_by_id db uid = Some u \<Longrightarrow> distinct hs \<Longrightarrow> \<forall>h \<in> set hs. length h = 32 \<Longrightarrow>
    db_step L db (CodesReplaced uid) (db\<lparr>db_codes := filter (\<lambda>b. cr_user_id b \<noteq> uid) (db_codes db) @ new_codes (db_serial db) uid hs,
      db_serial := db_serial db + length hs\<rparr>)"
| Consume: "user_by_id db uid = Some u \<Longrightarrow>
    db_step L db (CodeUsed uid h (length (filter (\<lambda>b. unused_code uid b \<and> cr_code_hash b = h) (db_codes db))))
      (db\<lparr>db_codes := update_where (\<lambda>b. unused_code uid b \<and> cr_code_hash b = h) (\<lambda>b. b\<lparr>cr_used_at := Some (db_now db)\<rparr>) (db_codes db)\<rparr>)"
| Add_Cred: "user_by_id db uid = Some u \<Longrightarrow> \<forall>(v, c) \<in> set (db_creds db). wa_CredentialID c \<noteq> wa_CredentialID cred \<Longrightarrow> wa_CreatedAt cred \<noteq> None \<Longrightarrow>
    db_step L db Silent (db\<lparr>db_creds := db_creds db @ [(uid, cred)]\<rparr>)"
| Sign_Count: "db_step L db Silent (db\<lparr>db_creds := update_where (\<lambda>(v, c). wa_CredentialID c = cid)
    (\<lambda>(v, c). (v, c\<lparr>wa_SignCount := n, wa_LastUsedAt := Some (db_now db)\<rparr>)) (db_creds db)\<rparr>)"
| Remove_Cred: "db_step L db Silent (db\<lparr>db_creds := filter (\<lambda>(v, c). \<not> (v = uid \<and> wa_CredentialID c = cid)) (db_creds db)\<rparr>)"

text \<open>The change an operation makes when it reports success.\<close>

fun change_of :: "pglib \<Rightarrow> auth_op \<Rightarrow> change \<Rightarrow> bool" where
  "change_of L (OpUpdateStatus u s) ch \<longleftrightarrow> (\<exists>uid. parseUserID L u = Inr uid \<and> ch = StatusSet uid)"
| "change_of L (OpUpdateCounter u c) ch \<longleftrightarrow> (\<exists>uid. parseUserID L u = Inr uid \<and> ch = CounterSet uid c)"
| "change_of L (OpDisableTOTP u) ch \<longleftrightarrow> (\<exists>uid. parseUserID L u = Inr uid \<and> ch = Disabled uid)"
| "change_of L (OpReplaceCodes u hs) ch \<longleftrightarrow> (\<exists>uid. parseUserID L u = Inr uid \<and> ch \<in> {CodesReplaced uid, Silent})"
| "change_of L (OpConsumeCode u h) ch \<longleftrightarrow> (\<exists>uid n. parseUserID L u = Inr uid \<and> ch = CodeUsed uid h n \<and> n > 0)"
| "change_of L op ch \<longleftrightarrow> (\<forall>uid. ch \<noteq> Disabled uid \<and> ch \<noteq> CodesReplaced uid)"

section \<open>Operations simulate changes\<close>

text \<open>A result whose error left the tables alone and whose success made the given change.\<close>

definition makes :: "pglib \<Rightarrow> auth_db \<Rightarrow> change \<Rightarrow> ('e + 'a) \<times> auth_db \<Rightarrow> bool" where
  "makes L db ch res \<longleftrightarrow> db_step L db (if isl (fst res) then Silent else ch) (snd res)"

lemma step_Same: "db_step L db Silent db"
  using db_step.Serial [of db "db_serial db" L] by simp

lemma makes_simps [simp]:
  "makes L db ch (Inl e, db') \<longleftrightarrow> db_step L db Silent db'"
  "makes L db ch (Inr x, db') \<longleftrightarrow> db_step L db ch db'"
  by (simp_all add: makes_def)

lemma makes_wrappers [simp]:
  "makes L db ch (row_or missing op f res) \<longleftrightarrow> makes L db ch res"
  "makes L db ch (wrap_error op f res) \<longleftrightarrow> makes L db ch res"
  "makes L db ch (provider_result from to op g res') \<longleftrightarrow> makes L db ch res'"
  "makes L db ch (mfaErr res') \<longleftrightarrow> makes L db ch res'"
  "makes L db ch (finished res') \<longleftrightarrow> makes L db ch res'"
  by (auto simp: makes_def row_or_def wrap_error_def provider_result_def mfaErr_def finished_def split: prod.splits sum.splits pg_error.splits)

lemma makes_exec: "makes L db ch (q db) \<Longrightarrow> makes L db ch (exec q db)"
  by (auto simp: exec_def step_Same split: option.splits)

lemma makes_with_user: "(\<And>uid. parseUserID L u = Inr uid \<Longrightarrow> makes L db (ch uid) (f uid db)) \<Longrightarrow>
    \<exists>uid. (parseUserID L u = Inr uid \<or> isl (fst (with_user L u f db))) \<and> makes L db (ch uid) (with_user L u f db)"
  by (auto simp: with_user_def step_Same split: sum.splits)

lemma isl_wrappers [simp]:
  "isl (fst (row_or missing op f res)) = isl (fst res)"
  "isl (fst (wrap_error op f res)) = isl (fst res)"
  "isl (fst (provider_result from to op g res')) = isl (fst res')"
  "isl (fst (mfaErr res')) = isl (fst res')"
  "isl (fst (finished res')) = isl (fst res')"
  by (auto simp: row_or_def wrap_error_def provider_result_def mfaErr_def finished_def split: prod.splits sum.splits pg_error.splits)

lemma CreateAuthUser_makes: "makes L db (Created (db_new_uuid db)) (CreateAuthUser L p db)"
proof -
  let ?u = "\<lparr>ur_id = db_new_uuid db, ur_email = cp_Email p, ur_password_hash = cp_PasswordHash p, ur_role = cp_Role p,
      ur_permissions = cp_Permissions p, ur_status = cp_Status p, ur_account_version = 1, ur_totp_enabled = False, ur_tenant_id = ''0''\<rparr>"
  show ?thesis
    unfolding CreateAuthUser_def insert_user_def
    by (intro makes_exec) (use db_step.Create [where u = ?u and L = L and db = db] in \<open>auto simp: step_Same Let_def list_ex_iff\<close>)
qed

lemma UpdateAuthUserStatus_makes: "makes L db (StatusSet uid) (UpdateAuthUserStatus uid s db)"
  unfolding UpdateAuthUserStatus_def
  by (intro makes_exec) (auto simp: step_Same Let_def split: option.split intro: db_step.Status)

lemma UpdateAuthUserPasswordHash_makes: "makes L db Silent (UpdateAuthUserPasswordHash uid h db)"
  unfolding UpdateAuthUserPasswordHash_def by (intro makes_exec) (auto simp: step_Same intro: db_step.Password)

lemma UpsertUserTOTPSecret_makes: "makes L db (TotpStored uid) (UpsertUserTOTPSecret uid ct db)"
  unfolding UpsertUserTOTPSecret_def
proof (intro makes_exec, cases "user_by_id db uid")
  case (Some u)
  then show "makes L db (TotpStored uid) (case user_by_id db uid of None \<Rightarrow> (Inl ErrNoRows, db) | Some u \<Rightarrow>
         (let (rows, verified) =
            (case totp_by_id db uid of
               None \<Rightarrow> (db_totp db @ [\<lparr>tr_user_id = uid, tr_secret_ciphertext = ct, tr_verified = False, tr_last_used_counter = 0\<rparr>], False)
             | Some t \<Rightarrow> (update_where (\<lambda>t. tr_user_id t = uid) (\<lambda>t. t\<lparr>tr_secret_ciphertext := ct\<rparr>) (db_totp db), tr_verified t)) in
          if ur_account_version (set_totp_enabled verified u) > int32_max then (Inl (PgCode pgNumericOutOfRange), db)
          else (Inr uid, on_user uid (set_totp_enabled verified) (db\<lparr>db_totp := rows\<rparr>))))"
    using db_step.Insert_Totp [OF Some, of L ct] db_step.Update_Totp [OF Some, of _ L ct]
    by (cases "totp_by_id db uid") (simp_all add: step_Same Let_def)
qed (simp add: step_Same)

lemma MarkUserTOTPVerified_makes: "makes L db (Verified uid) (MarkUserTOTPVerified uid db)"
  unfolding MarkUserTOTPVerified_def by (intro makes_exec) (auto simp: step_Same split: option.split intro: db_step.Verify)

lemma AdvanceUserTOTPCounter_makes: "makes L db (CounterSet uid c) (AdvanceUserTOTPCounter c uid db)"
  unfolding AdvanceUserTOTPCounter_def by (intro makes_exec) (auto simp: step_Same split: option.split intro: db_step.Counter)

lemma DisableUserTOTP_makes: "makes L db (Disabled uid) (DisableUserTOTP uid db)"
  unfolding DisableUserTOTP_def
  by (intro makes_exec) (use db_step.Disable [where db = db and uid = uid and L = L] in \<open>auto simp: step_Same split: option.split\<close>)

lemma RotateUserTOTPSecret_makes: "\<exists>ch \<in> {Silent, Resealed uid}. makes L db ch (RotateUserTOTPSecret succ uid prev db)"
proof -
  have "(\<exists>n. RotateUserTOTPSecret succ uid prev db = (n, db)) \<or>
      RotateUserTOTPSecret succ uid prev db = (Inr 1, on_totp uid (\<lambda>t. t\<lparr>tr_secret_ciphertext := succ\<rparr>) db)"
    by (auto simp: RotateUserTOTPSecret_def exec_def split: option.split)
  then show ?thesis by (auto simp: makes_def step_Same intro: db_step.Reseal)
qed

lemma ConsumeBackupCode_makes: "\<exists>n. makes L db (if n = 0 then Silent else CodeUsed uid h n) (ConsumeBackupCode_query uid h db) \<and>
    (\<forall>k. fst (ConsumeBackupCode_query uid h db) = Inr k \<longrightarrow> k = n)"
proof (cases "db_fault db = None \<and> user_by_id db uid \<noteq> None")
  case True
  then obtain u where u: "user_by_id db uid = Some u" by auto
  let ?hit = "\<lambda>b. unused_code uid b \<and> cr_code_hash b = h"
  have "update_where ?hit (\<lambda>b. b\<lparr>cr_used_at := Some (db_now db)\<rparr>) (db_codes db) = db_codes db" if "filter ?hit (db_codes db) = []"
    unfolding update_where_def by (rule map_idI) (use that in \<open>auto simp: filter_empty_conv\<close>)
  with True u db_step.Consume [OF u, of L h] step_Same [of L db] show ?thesis
    by (intro exI [of _ "length (filter ?hit (db_codes db))"]) (auto simp: ConsumeBackupCode_query_def exec_def Let_def)
next
  case False
  then show ?thesis by (intro exI [of _ 0]) (auto simp: ConsumeBackupCode_query_def exec_def Let_def step_Same split: option.splits)
qed

lemma dedup_hashes: "distinct (dedup_hashes seen hs) \<and> set (dedup_hashes seen hs) = set hs - set seen"
  by (induction seen hs rule: dedup_hashes.induct) auto

lemma replace_in_tx:
  assumes "db_fault db = None" and "parseUserID L u = Inr uid" and "user_by_id db uid = Some r"
    and "repo_ReplaceBackupCodes L True u hs db = (res, db')"
  shows "(\<exists>e. res = Inl e) \<and> db_serial db \<le> db_serial db' \<or>
    res = Inr () \<and> (\<forall>h \<in> set hs. length h = 32) \<and>
    db' = db\<lparr>db_codes := filter (\<lambda>b. cr_user_id b \<noteq> uid) (db_codes db) @ new_codes (db_serial db) uid (dedup_hashes [] hs),
      db_serial := db_serial db + length (dedup_hashes [] hs)\<rparr>"
proof -
  let ?db1 = "db\<lparr>db_codes := filter (\<lambda>b. cr_user_id b \<noteq> uid) (db_codes db)\<rparr>"
  have del: "DeleteBackupCodes uid db = (Inr (length (filter (\<lambda>b. cr_user_id b = uid) (db_codes db))), ?db1)"
    using assms(1,3) by (simp add: DeleteBackupCodes_def exec_def)
  have fresh: "\<not> list_ex (\<lambda>b. cr_user_id b = uid \<and> cr_code_hash b \<in> set hs) (db_codes ?db1)" by (simp add: list_ex_iff)
  have set: "set (dedup_hashes [] hs) = set hs" "distinct (dedup_hashes [] hs)" using dedup_hashes [of "[]" hs] by simp_all
  show ?thesis
  proof (cases "\<forall>h \<in> set hs. length h = 32")
    case True
    then have "InsertBackupCodes (dedup_hashes [] hs) uid ?db1 = (Inr (length (dedup_hashes [] hs)),
        ?db1\<lparr>db_serial := db_serial db + length (dedup_hashes [] hs), db_codes := db_codes ?db1 @ new_codes (db_serial db) uid (dedup_hashes [] hs)\<rparr>)"
      using assms(1,3) set fresh by (simp add: InsertBackupCodes_def exec_def Let_def new_codes_def list_all_iff)
    with assms(2,4) del True show ?thesis by (auto simp: repo_ReplaceBackupCodes_def with_user_def Let_def)
  next
    case False
    then have "InsertBackupCodes (dedup_hashes [] hs) uid ?db1 = (Inl (PgCode pgCheckViolation), ?db1\<lparr>db_serial := db_serial db + length (dedup_hashes [] hs)\<rparr>)"
      using assms(1,3) set by (simp add: InsertBackupCodes_def exec_def Let_def list_all_iff)
    with assms(2,4) del show ?thesis by (auto simp: repo_ReplaceBackupCodes_def with_user_def Let_def)
  qed
qed

lemma replace_no_user:
  assumes "db_fault db = None" and "parseUserID L u = Inr uid" and "user_by_id db uid = None"
  shows "snd (repo_ReplaceBackupCodes L True u hs db) = db"
  using assms by (simp add: repo_ReplaceBackupCodes_def with_user_def DeleteBackupCodes_def InsertBackupCodes_def exec_def Let_def)

lemma Postgres_WithTx_cases:
  assumes "Postgres_WithTx fn db = (r, db')"
  shows "(\<exists>e. r = Inl e) \<and> (db' = db \<or> (db_fault db = None \<and> db' = rollback db (snd (fn True db)))) \<or>
    db_fault db = None \<and> (\<exists>x. r = Inr x \<and> fn True db = (Inr x, db'))"
  using assms by (auto simp: Postgres_WithTx_def split: option.splits prod.splits sum.splits)

lemma rollback_makes: "db_serial db \<le> db_serial db' \<Longrightarrow> db_step L db Silent (rollback db db')"
  unfolding rollback_def by (rule db_step.Serial)

lemma rollback_same [simp]: "rollback db db = db"
  by (simp add: rollback_def)

lemma ReplaceBackupCodes_makes:
  "\<exists>ch. makes L db ch (inTx p (\<lambda>tx. repo_ReplaceBackupCodes L tx u hs) db) \<and>
    (isl (fst (inTx p (\<lambda>tx. repo_ReplaceBackupCodes L tx u hs) db)) \<or> change_of L (OpReplaceCodes u hs) ch)"
proof (cases "pv_tx p \<and> db_fault db = None \<and> \<not> isl (parseUserID L u)")
  case False
  then show ?thesis
    by (auto simp: inTx_def Postgres_WithTx_def repo_ReplaceBackupCodes_def with_user_def step_Same split: option.splits sum.splits)
next
  case True
  then obtain uid where uid: "parseUserID L u = Inr uid" and up: "db_fault db = None" by (cases "parseUserID L u") auto
  obtain r db' where run: "Postgres_WithTx (\<lambda>tx. repo_ReplaceBackupCodes L tx u hs) db = (r, db')" by fastforce
  obtain r1 db1 where body: "repo_ReplaceBackupCodes L True u hs db = (r1, db1)" by fastforce
  have "\<exists>ch. makes L db ch (r, db') \<and> (isl r \<or> change_of L (OpReplaceCodes u hs) ch)"
  proof (cases "user_by_id db uid")
    case None
    then have "db1 = db" using replace_no_user [OF up uid None, of hs] body by simp
    then have "db' = db" using Postgres_WithTx_cases [OF run] body by auto
    then show ?thesis using uid by (intro exI [of _ Silent]) (simp add: makes_def step_Same)
  next
    case (Some row)
    note body_cases = replace_in_tx [OF up uid Some body]
    have step: "db_step L db (CodesReplaced uid) db1" if "r1 = Inr ()"
      using body_cases that db_step.Replace [OF Some, of "dedup_hashes [] hs" L] dedup_hashes [of "[]" hs] by auto
    have "db_serial db \<le> db_serial db1" using body_cases by auto
    with Postgres_WithTx_cases [OF run] body step uid show ?thesis
      by (intro exI [of _ "CodesReplaced uid"]) (auto simp: step_Same rollback_makes)
  qed
  with run True show ?thesis by (simp add: inTx_def)
qed

lemma CreateWebAuthnCredential_makes: "makes L db Silent (CreateWebAuthnCredential uid cred db)"
  unfolding CreateWebAuthnCredential_def
  by (intro makes_exec) (use db_step.Add_Cred [where db = db and uid = uid and L = L and cred = cred] in \<open>auto simp: step_Same list_ex_iff\<close>)

lemma UpdateWebAuthnCredentialSignCount_makes: "makes L db Silent (UpdateWebAuthnCredentialSignCount_query cid n db)"
  unfolding UpdateWebAuthnCredentialSignCount_query_def by (intro makes_exec) (auto simp: step_Same intro: db_step.Sign_Count)

lemma DeleteWebAuthnCredential_makes: "makes L db Silent (DeleteWebAuthnCredential uid cid db)"
  unfolding DeleteWebAuthnCredential_def 
  by (intro makes_exec) (use db_step.Remove_Cred [where db = db and uid = uid and cid = cid and L = L] in \<open>simp add: step_Same\<close>)

lemmas query_makes = CreateAuthUser_makes UpdateAuthUserStatus_makes UpdateAuthUserPasswordHash_makes UpsertUserTOTPSecret_makes
  MarkUserTOTPVerified_makes AdvanceUserTOTPCounter_makes DisableUserTOTP_makes CreateWebAuthnCredential_makes
  UpdateWebAuthnCredentialSignCount_makes DeleteWebAuthnCredential_makes

text \<open>The ids the server makes are in the form that reads back as itself.\<close>

fun op_ok :: "pglib \<Rightarrow> auth_op \<Rightarrow> bool" where
  "op_ok L (Environment now uid f g) \<longleftrightarrow> parseUserID L uid = Inr uid"
| "op_ok L op \<longleftrightarrow> True"

lemma finished_sim:
  assumes "finished res = (r, db')" and "makes L db ch res" and "isl (fst res) \<or> P ch"
  shows "\<exists>ch. db_step L db ch db' \<and> (if r = Inr True then P ch else ch = Silent)"
proof (cases "isl (fst res)")
  case True
  with assms show ?thesis by (intro exI [of _ Silent]) (auto simp: finished_def makes_def isl_def split: prod.splits)
next
  case False
  with assms show ?thesis by (intro exI [of _ ch]) (auto simp: finished_def makes_def split: prod.splits sum.splits)
qed

lemma mfa_write_sim:
  assumes "finished (mfa_write p (with_user L u f) db) = (r, db')" and "\<And>uid. makes L db (ch uid) (f uid db)"
    and "\<And>uid. parseUserID L u = Inr uid \<Longrightarrow> P (ch uid)"
  shows "\<exists>ch. db_step L db ch db' \<and> (if r = Inr True then P ch else ch = Silent)"
proof -
  obtain uid where uid: "parseUserID L u = Inr uid \<or> isl (fst (with_user L u f db))" "makes L db (ch uid) (with_user L u f db)"
    using makes_with_user [of L u db ch f] assms(2) by blast
  have "makes L db (ch uid) (mfa_write p (with_user L u f) db)" using uid(2) by (simp add: mfa_write_def step_Same split: option.split)
  moreover have "isl (fst (mfa_write p (with_user L u f) db)) \<or> P (ch uid)" using uid(1) assms(3) by (auto simp: mfa_write_def split: option.split)
  ultimately show ?thesis by (rule finished_sim [OF assms(1)])
qed

lemma GetTOTPSecret_makes: "\<exists>ch. makes L db ch (GetTOTPSecret L A n p u db) \<and> (\<forall>uid. ch \<noteq> Disabled uid \<and> ch \<noteq> CodesReplaced uid)"
proof -
  have read: "snd (GetTOTP L u db) = db"
    by (auto simp: GetTOTP_def GetUserTOTP_def exec_def one_row_def split: sum.split option.split prod.split)
  have "\<exists>ch. db_step L db ch (snd (RotateTOTPSecret L u prev succ db)) \<and> (\<forall>uid. ch \<noteq> Disabled uid \<and> ch \<noteq> CodesReplaced uid)" for prev succ
  proof (cases "parseUserID L u")
    case (Inr uid)
    obtain ch where "makes L db ch (RotateUserTOTPSecret succ uid prev db)" "ch \<in> {Silent, Resealed uid}"
      using RotateUserTOTPSecret_makes by metis
    then have "db_step L db (if isl (fst (RotateTOTPSecret L u prev succ db)) then Silent else ch) (snd (RotateTOTPSecret L u prev succ db))"
      using Inr makes_wrappers(2) unfolding makes_def [symmetric] by (simp add: RotateTOTPSecret_def with_user_def)
    with \<open>ch \<in> {Silent, Resealed uid}\<close> show ?thesis by (auto split: if_splits)
  qed (auto simp: RotateTOTPSecret_def with_user_def intro: step_Same)
  then have lazy: "\<exists>ch. db_step L db ch (rotateSecretLazily L A n c u current secret db) \<and> (\<forall>uid. ch \<noteq> Disabled uid \<and> ch \<noteq> CodesReplaced uid)" for c current secret
    using step_Same [of L db] by (auto simp: rotateSecretLazily_def split: sum.split)
  obtain r where r: "GetTOTP L u db = (r, db)" using read by (metis prod.collapse)
  have "(\<exists>q. GetTOTPSecret L A n p u db = (q, db)) \<or>
      (\<exists>x c cur sec. GetTOTPSecret L A n p u db = (Inr x, rotateSecretLazily L A n c u cur sec db))"
    unfolding GetTOTPSecret_def r by (auto split: option.split sum.split)
  then show ?thesis
  proof
    assume "\<exists>q. GetTOTPSecret L A n p u db = (q, db)"
    then show ?thesis using step_Same [of L db] by (intro exI [of _ Silent]) (auto simp: makes_def)
  next
    assume "\<exists>x c cur sec. GetTOTPSecret L A n p u db = (Inr x, rotateSecretLazily L A n c u cur sec db)"
    then show ?thesis using lazy by auto
  qed
qed

lemma account_sims:
  "finished (CreateUser L p i db) = (r, db') \<Longrightarrow> \<exists>ch. db_step L db ch db' \<and> (if r = Inr True then change_of L (OpCreateUser i) ch else ch = Silent)"
  "finished (UpdateAccountStatus L p u s db) = (r, db') \<Longrightarrow> \<exists>ch. db_step L db ch db' \<and> (if r = Inr True then change_of L (OpUpdateStatus u s) ch else ch = Silent)"
  "finished (UpdatePasswordHash L p u h db) = (r, db') \<Longrightarrow> \<exists>ch. db_step L db ch db' \<and> (if r = Inr True then change_of L (OpUpdatePassword u h) ch else ch = Silent)"
proof -
  have "makes L db (Created (db_new_uuid db)) (Create L j db)" for j
    using CreateAuthUser_makes [of L db "\<lparr>cp_Email = NormalizeIdentifier (ci_Identifier j), cp_PasswordHash = ci_PasswordHash j,
             cp_Role = roleToText (ci_Role j), cp_Permissions = 0, cp_Status = trim_space (ci_Status j)\<rparr>"]
    by (auto simp: Create_def makes_def split: prod.splits sum.splits)
  then have "makes L db (Created (db_new_uuid db)) (CreateUser L p i db)" by (simp add: CreateUser_def step_Same)
  then show "finished (CreateUser L p i db) = (r, db') \<Longrightarrow> \<exists>ch. db_step L db ch db' \<and> (if r = Inr True then change_of L (OpCreateUser i) ch else ch = Silent)"
    using finished_sim [of "CreateUser L p i db" r db' L db "Created (db_new_uuid db)" "change_of L (OpCreateUser i)"] by simp
next
  assume fin: "finished (UpdateAccountStatus L p u s db) = (r, db')"
  show "\<exists>ch. db_step L db ch db' \<and> (if r = Inr True then change_of L (OpUpdateStatus u s) ch else ch = Silent)"
  proof (cases "parseUserID L u")
    case (Inr uid)
    have "makes L db (StatusSet uid) (UpdateAccountStatus L p u s db)"
      using Inr UpdateAuthUserStatus_makes by (simp add: UpdateAccountStatus_def UpdateStatus_def step_Same)
    then show ?thesis using Inr by (intro finished_sim [OF fin]) auto
  next
    case (Inl e)
    then have "makes L db Silent (UpdateAccountStatus L p u s db)" "isl (fst (UpdateAccountStatus L p u s db))"
      by (auto simp: UpdateAccountStatus_def UpdateStatus_def step_Same)
    then show ?thesis by (intro finished_sim [OF fin]) auto
  qed
next
  have "makes L db Silent (UpdatePasswordHash L p u h db)"
    using UpdateAuthUserPasswordHash_makes by (auto simp: UpdatePasswordHash_def repo_UpdatePasswordHash_def step_Same split: sum.split)
  then show "finished (UpdatePasswordHash L p u h db) = (r, db') \<Longrightarrow> \<exists>ch. db_step L db ch db' \<and> (if r = Inr True then change_of L (OpUpdatePassword u h) ch else ch = Silent)"
    using finished_sim [of "UpdatePasswordHash L p u h db" r db' L db Silent "change_of L (OpUpdatePassword u h)"] by simp
qed

lemma EnableTOTP_makes: "\<exists>uid. makes L db (TotpStored uid) (EnableTOTP L A n p u secret db)"
  by (auto intro: UpsertUserTOTPSecret_makes simp: EnableTOTP_def UpsertTOTPSecret_def with_user_def step_Same split: option.split sum.split)

lemma passkey_makes:
  "makes L db Silent (AddWebAuthnCredential L p u cred db)"
  "makes L db Silent (UpdateWebAuthnCredentialSignCount p u cid n db)"
  "makes L db Silent (RemoveWebAuthnCredential L p u cid db)"
  by (auto simp: AddWebAuthnCredential_def Add_def UpdateWebAuthnCredentialSignCount_def UpdateSignCount_def RemoveWebAuthnCredential_def
      Delete_credential_def step_Same query_makes split: sum.split)

lemma consume_sim:
  assumes "ConsumeBackupCode L p u h db = (r, db')"
  shows "\<exists>ch. db_step L db ch db' \<and> (if r = Inr True then change_of L (OpConsumeCode u h) ch else ch = Silent)"
proof (cases "mfaReady p = None \<or> isl (parseUserID L u)")
  case True
  with assms show ?thesis
    by (intro exI [of _ Silent]) (auto simp: ConsumeBackupCode_def repo_ConsumeBackupCode_def step_Same split: option.splits sum.splits)
next
  case False
  then obtain c uid where uid: "mfaReady p = Some c" "parseUserID L u = Inr uid" by (cases "parseUserID L u") auto
  obtain q d where q: "ConsumeBackupCode_query uid h db = (q, d)" by fastforce
  obtain n where n: "makes L db (if n = 0 then Silent else CodeUsed uid h n) (q, d)" "\<forall>k. q = Inr k \<longrightarrow> k = n"
    using ConsumeBackupCode_makes [of L db uid h] q by auto
  have res: "wrap_error ''consume backup code'' (\<lambda>consumed. consumed > 0) (q, d) = (r, db')"
    using assms uid q by (simp add: ConsumeBackupCode_def repo_ConsumeBackupCode_def)
  show ?thesis
  proof (cases q)
    case (Inr k)
    with n res uid show ?thesis by (intro exI [of _ "if n = 0 then Silent else CodeUsed uid h n"]) (auto simp: wrap_error_def)
  qed (use n res in \<open>intro exI [of _ Silent], auto simp: wrap_error_def\<close>)
qed

lemma rotate_sim:
  assumes "RotateTOTPSecret L u prev succ db = (r, db')"
  shows "\<exists>ch. db_step L db ch db' \<and> (\<forall>uid. ch \<noteq> Disabled uid \<and> ch \<noteq> CodesReplaced uid)"
proof (cases "parseUserID L u")
  case (Inr uid)
  obtain ch where "makes L db ch (RotateUserTOTPSecret succ uid prev db)" "ch \<in> {Silent, Resealed uid}"
    using RotateUserTOTPSecret_makes by metis
  moreover from this(1) have "makes L db ch (r, db')" using assms Inr by (simp add: RotateTOTPSecret_def with_user_def flip: assms)
  ultimately show ?thesis by (auto simp: makes_def split: if_splits)
qed (use assms in \<open>auto simp: RotateTOTPSecret_def with_user_def intro: step_Same\<close>)

text \<open>Every operation makes a change of the relation; a failed one makes none that matters.\<close>

lemma auth_step_simulates:
  assumes "auth_step L A p op db = (r, db')" and "op_ok L op"
  shows "\<exists>ch. db_step L db ch db' \<and> (if r = Inr True then change_of L op ch else \<forall>uid. ch \<noteq> Disabled uid \<and> ch \<noteq> CodesReplaced uid)"
proof -
  have harmless: ?thesis if "\<exists>ch. db_step L db ch db' \<and> (if r = Inr True then change_of L op ch else ch = Silent)"
    using that by (auto split: if_splits)
  show ?thesis
  proof (cases op)
    case (Environment now uid f g)
    with assms show ?thesis by (auto intro: db_step.Env)
  next
    case (OpCreateUser i)
    with assms(1) account_sims(1) [of L p i db r db'] show ?thesis by (intro harmless) (simp only: auth_step.simps)
  next
    case (OpUpdateStatus u s)
    with assms(1) account_sims(2) [of L p u s db r db'] show ?thesis by (intro harmless) (simp only: auth_step.simps)
  next
    case (OpUpdatePassword u h)
    with assms(1) account_sims(3) [of L p u h db r db'] show ?thesis by (intro harmless) (simp only: auth_step.simps)
  next
    case (OpGetTOTP u n)
    with assms show ?thesis using GetTOTPSecret_makes [of L db A n p u] finished_sim [of "GetTOTPSecret L A n p u db" r db' L db _ "change_of L op"]
      by (intro harmless) (auto split del: if_split)
  next
    case (OpEnableTOTP u secret n)
    with assms show ?thesis using EnableTOTP_makes [of L db A n p u secret] finished_sim [of "EnableTOTP L A n p u secret db" r db' L db _ "change_of L op"]
      by (intro harmless) (auto split del: if_split)
  next
    case (OpMarkVerified u)
    with assms mfa_write_sim [where ch = Verified and P = "change_of L op"] MarkUserTOTPVerified_makes show ?thesis
      by (intro harmless) (auto simp: MarkTOTPVerified_def repo_MarkTOTPVerified_def split del: if_split)
  next
    case (OpUpdateCounter u c)
    with assms mfa_write_sim [where ch = "\<lambda>uid. CounterSet uid c" and P = "change_of L op"] AdvanceUserTOTPCounter_makes show ?thesis
      by (intro harmless) (auto simp: UpdateTOTPLastUsedCounter_def AdvanceTOTPCounter_def split del: if_split)
  next
    case (OpDisableTOTP u)
    with assms mfa_write_sim [where ch = Disabled and P = "change_of L op"] DisableUserTOTP_makes show ?thesis
      by (intro harmless) (auto simp: DisableTOTP_def repo_DisableTOTP_def split del: if_split)
  next
    case (OpRotateSecret u prev succ)
    with assms rotate_sim [of L u prev succ db r db'] show ?thesis by auto
  next
    case (OpReplaceCodes u hs)
    then show ?thesis
      using assms ReplaceBackupCodes_makes [of L db p u hs] finished_sim [of "ReplaceBackupCodes L p u hs db" r db' L db _ "change_of L op"]
      by (intro harmless) (auto simp: ReplaceBackupCodes_def mfa_write_def step_Same split: option.splits split del: if_split)
  next
    case (OpConsumeCode u h)
    with assms(1) consume_sim [of L p u h db r db'] show ?thesis by (intro harmless) (simp only: auth_step.simps)
  next
    case (OpAddCredential u cred)
    with assms finished_sim [OF _ passkey_makes(1), where P = "change_of L op"] show ?thesis by (intro harmless) (auto split del: if_split)
  next
    case (OpSignCount u cid n)
    with assms finished_sim [OF _ passkey_makes(2), where P = "change_of L op"] show ?thesis by (intro harmless) (auto split del: if_split)
  next
    case (OpRemoveCredential u cid)
    with assms finished_sim [OF _ passkey_makes(3), where P = "change_of L op"] show ?thesis by (intro harmless) (auto split del: if_split)
  qed
qed

section \<open>Well-formed tables\<close>

definition users_ok :: "pglib \<Rightarrow> user_row list \<Rightarrow> bool" where
  "users_ok L us \<longleftrightarrow> distinct (map ur_id us) \<and> distinct (map (\<lambda>u. pl_lower L (ur_email u)) us) \<and>
     (\<forall>u \<in> set us. parseUserID L (ur_id u) = Inr (ur_id u) \<and> ur_email u = pl_lower L (ur_email u) \<and> 1 \<le> ur_account_version u \<and> ur_account_version u \<le> int32_max)"

definition totp_ok :: "user_row list \<Rightarrow> totp_row list \<Rightarrow> bool" where
  "totp_ok us ts \<longleftrightarrow> distinct (map tr_user_id ts) \<and> tr_user_id ` set ts \<subseteq> ur_id ` set us"

definition codes_ok :: "user_row list \<Rightarrow> nat \<Rightarrow> code_row list \<Rightarrow> bool" where
  "codes_ok us n bs \<longleftrightarrow> distinct (map (\<lambda>b. (cr_user_id b, cr_code_hash b)) bs) \<and> distinct (map cr_id bs) \<and>
     (\<forall>b \<in> set bs. cr_user_id b \<in> ur_id ` set us \<and> length (cr_code_hash b) = 32 \<and> cr_id b < n)"

definition creds_ok :: "user_row list \<Rightarrow> cred_row list \<Rightarrow> bool" where
  "creds_ok us cs \<longleftrightarrow> distinct (map (wa_CredentialID \<circ> snd) cs) \<and> (\<forall>(u, c) \<in> set cs. u \<in> ur_id ` set us \<and> wa_CreatedAt c \<noteq> None)"

text \<open>Primary keys, unique indexes, checks and foreign keys of the schema hold.\<close>

definition db_ok :: "pglib \<Rightarrow> auth_db \<Rightarrow> bool" where
  "db_ok L db \<longleftrightarrow> users_ok L (db_users db) \<and> totp_ok (db_users db) (db_totp db) \<and> codes_ok (db_users db) (db_serial db) (db_codes db) \<and>
     creds_ok (db_users db) (db_creds db) \<and> parseUserID L (db_new_uuid db) = Inr (db_new_uuid db)"

lemma update_where_keys: "(\<And>r. P r \<Longrightarrow> key (f r) = key r) \<Longrightarrow> map key (update_where P f rs) = map key rs"
  by (simp add: update_where_def)

lemma update_where_image: "(\<And>r. P r \<Longrightarrow> key (f r) = key r) \<Longrightarrow> key ` set (update_where P f rs) = key ` set rs"
  by (metis list.set_map update_where_keys)

lemma set_update_where: "set (update_where P f rs) = (\<lambda>r. if P r then f r else r) ` set rs"
  by (simp add: update_where_def)

lemma users_ok_update:
  assumes "users_ok L us" and "\<And>u. ur_id (f u) = ur_id u \<and> ur_email (f u) = ur_email u"
    and "\<And>u. u \<in> set us \<Longrightarrow> ur_id u = uid \<Longrightarrow> 1 \<le> ur_account_version (f u) \<and> ur_account_version (f u) \<le> int32_max"
  shows "users_ok L (update_where (\<lambda>u. ur_id u = uid) f us)"
  using assms unfolding users_ok_def by (auto simp: update_where_keys set_update_where)

lemma find_unique:
  assumes "distinct (map key rs)" and "List.find (\<lambda>r. key r = k) rs = Some r" and "r' \<in> set rs" and "key r' = k"
  shows "r' = r"
  using assms by (induction rs) (auto split: if_splits)

lemma find_mem: "List.find (\<lambda>r. key r = k) rs = Some r \<Longrightarrow> r \<in> set rs \<and> key r = k"
  by (auto simp: find_Some_iff)

lemma find_None_key: "List.find (\<lambda>r. key r = k) rs = None \<longleftrightarrow> k \<notin> key ` set rs"
  by (auto simp: find_None_iff)

lemma new_codes_facts:
  "map (\<lambda>b. (cr_user_id b, cr_code_hash b)) (new_codes n uid hs) = map (Pair uid) hs" "map cr_id (new_codes n uid hs) = [n ..< n + length hs]"
  "\<forall>b \<in> set (new_codes n uid hs). cr_user_id b = uid \<and> cr_code_hash b \<in> set hs \<and> cr_id b < n + length hs \<and> n \<le> cr_id b \<and> cr_used_at b = None"
proof -
  have "map (\<lambda>b. (cr_user_id b, cr_code_hash b)) (new_codes n uid hs) = map (Pair uid) (map snd (zip [n ..< n + length hs] hs))"
    "map cr_id (new_codes n uid hs) = map fst (zip [n ..< n + length hs] hs)"
    unfolding new_codes_def map_map by (auto simp del: map_snd_zip map_fst_zip)
  then show "map (\<lambda>b. (cr_user_id b, cr_code_hash b)) (new_codes n uid hs) = map (Pair uid) hs" "map cr_id (new_codes n uid hs) = [n ..< n + length hs]" by simp_all
qed (auto simp: new_codes_def dest: set_zip_leftD set_zip_rightD)

lemma codes_ok_replace:
  assumes "codes_ok us n bs" and "uid \<in> ur_id ` set us" and "distinct hs" and "\<forall>h \<in> set hs. length h = 32"
  shows "codes_ok us (n + length hs) (filter (\<lambda>b. cr_user_id b \<noteq> uid) bs @ new_codes n uid hs)"
  unfolding codes_ok_def
proof (intro conjI ballI)
  let ?old = "filter (\<lambda>b. cr_user_id b \<noteq> uid) bs" and ?key = "\<lambda>b. (cr_user_id b, cr_code_hash b)"
  have old: "distinct (map ?key ?old)" "distinct (map cr_id ?old)" "\<forall>b \<in> set ?old. cr_user_id b \<noteq> uid \<and> cr_id b < n"
    using assms(1) by (auto simp: codes_ok_def distinct_map_filter)
  have "set (map ?key ?old) \<inter> set (map (Pair uid) hs) = {}" by auto
  then show "distinct (map ?key (?old @ new_codes n uid hs))"
    using old(1) assms(3) by (simp only: map_append new_codes_facts(1) distinct_append) (simp add: distinct_map inj_on_def)
  have "set (map cr_id ?old) \<inter> set [n ..< n + length hs] = {}" using old(3) by fastforce
  then show "distinct (map cr_id (?old @ new_codes n uid hs))"
    using old(2) by (simp only: map_append new_codes_facts(2) distinct_append distinct_upt)
  fix b assume "b \<in> set (?old @ new_codes n uid hs)"
  then consider "b \<in> set bs" | "b \<in> set (new_codes n uid hs)" by auto
  then have "cr_user_id b \<in> ur_id ` set us \<and> length (cr_code_hash b) = 32 \<and> cr_id b < n + length hs"
  proof cases
    case 1
    then have "cr_user_id b \<in> ur_id ` set us \<and> length (cr_code_hash b) = 32 \<and> cr_id b < n" using assms(1) by (simp add: codes_ok_def)
    then show ?thesis by simp
  qed (use new_codes_facts(3) [of n uid hs] assms(2,4) in simp)
  then show "cr_user_id b \<in> ur_id ` set us" "length (cr_code_hash b) = 32" "cr_id b < n + length hs" by simp_all
qed

lemma codes_ok_update: "codes_ok us n bs \<Longrightarrow> codes_ok us n (update_where P (\<lambda>b. b\<lparr>cr_used_at := t\<rparr>) bs)"
  unfolding codes_ok_def by (auto simp: update_where_keys set_update_where)

lemma codes_ok_filter: "codes_ok us n bs \<Longrightarrow> codes_ok us n (filter P bs)"
  unfolding codes_ok_def by (auto simp: distinct_map_filter)

lemma foreign_keys:
  assumes "ur_id ` set us \<subseteq> ur_id ` set us'"
  shows "totp_ok us ts \<Longrightarrow> totp_ok us' ts" and "codes_ok us n bs \<Longrightarrow> codes_ok us' n bs" and "creds_ok us cs \<Longrightarrow> creds_ok us' cs"
  using assms unfolding totp_ok_def codes_ok_def creds_ok_def by blast+

lemma codes_ok_mono: "codes_ok us n bs \<Longrightarrow> n \<le> n' \<Longrightarrow> codes_ok us n' bs"
  by (auto simp: codes_ok_def)

lemma totp_ok_update: "totp_ok us ts \<Longrightarrow> (\<And>t. tr_user_id (f t) = tr_user_id t) \<Longrightarrow> totp_ok us (update_where P f ts)"
  by (simp add: totp_ok_def update_where_keys update_where_image)

lemma on_user_ok:
  assumes "db_ok L db" and "user_by_id db uid = Some u" and "\<And>u. ur_id (f u) = ur_id u \<and> ur_email (f u) = ur_email u"
    and "1 \<le> ur_account_version (f u)" and "ur_account_version (f u) \<le> int32_max"
  shows "db_ok L (on_user uid f db)"
proof -
  let ?us = "update_where (\<lambda>u. ur_id u = uid) f (db_users db)"
  have "users_ok L ?us"
  proof (rule users_ok_update)
    fix v assume "v \<in> set (db_users db)" "ur_id v = uid"
    then have "v = u" using find_unique [of ur_id "db_users db" uid u] assms(1,2) by (simp add: db_ok_def users_ok_def)
    then show "1 \<le> ur_account_version (f v) \<and> ur_account_version (f v) \<le> int32_max" using assms(4,5) by simp
  qed (use assms in \<open>auto simp: db_ok_def\<close>)
  moreover have "ur_id ` set (db_users db) \<subseteq> ur_id ` set ?us" using assms(3) by (simp add: update_where_image)
  ultimately show ?thesis using assms(1) unfolding db_ok_def by (simp add: foreign_keys [of "db_users db" ?us])
qed

lemma user_version: "db_ok L db \<Longrightarrow> user_by_id db uid = Some u \<Longrightarrow> 1 \<le> ur_account_version u \<and> ur_account_version u \<le> int32_max"
  using find_mem [of ur_id uid "db_users db" u] by (simp add: db_ok_def users_ok_def)

lemma user_present: "user_by_id db uid = Some u \<Longrightarrow> uid \<in> ur_id ` set (db_users db)"
  using find_mem [of ur_id uid "db_users db" u] by force

lemma set_totp_enabled_fields [simp]:
  "ur_id (set_totp_enabled b u) = ur_id u" "ur_email (set_totp_enabled b u) = ur_email u" "ur_totp_enabled (set_totp_enabled b u) = b"
  "ur_account_version u \<le> ur_account_version (set_totp_enabled b u)" "ur_tenant_id (set_totp_enabled b u) = ur_tenant_id u"
  by (simp_all add: set_totp_enabled_def)

lemma set_totp_enabled_ok:
  assumes "db_ok L db" and "user_by_id db uid = Some u" and "ur_account_version (set_totp_enabled b u) \<le> int32_max"
  shows "db_ok L (on_user uid (set_totp_enabled b) db)"
proof (rule on_user_ok [OF assms(1,2)])
  show "1 \<le> ur_account_version (set_totp_enabled b u)"
    using user_version [OF assms(1,2)] set_totp_enabled_fields(4) by (blast intro: order.trans)
qed (use assms(3) in simp_all)

lemma db_step_ok: "db_step L db ch db' \<Longrightarrow> db_ok L db \<Longrightarrow> db_ok L db'"
proof (induction rule: db_step.induct)
  case (Env i db n f g)
  then show ?case by (simp add: db_ok_def)
next
  case (Serial db n)
  then show ?case by (auto simp: db_ok_def intro: codes_ok_mono)
next
  case (Create u db)
  let ?us = "db_users db @ [u]"
  have "users_ok L ?us" using Create unfolding db_ok_def users_ok_def by (auto simp: image_iff)
  moreover have "ur_id ` set (db_users db) \<subseteq> ur_id ` set ?us" by auto
  ultimately show ?case using Create.prems unfolding db_ok_def by (simp add: foreign_keys [of "db_users db" ?us])
next
  case (Password db uid h)
  show ?case
  proof (cases "user_by_id db uid")
    case None
    then have "update_where (\<lambda>u. ur_id u = uid) (\<lambda>u. u\<lparr>ur_password_hash := h\<rparr>) (db_users db) = db_users db"
      unfolding update_where_def by (intro map_idI) (auto simp: find_None_iff)
    with Password show ?thesis by simp
  qed (use Password user_version in \<open>auto intro!: on_user_ok\<close>)
next
  case (Status db uid u s)
  then show ?case using user_version [OF Status.prems Status.hyps(1)] by (intro on_user_ok [OF Status.prems Status.hyps(1)]) auto
next
  case (Insert_Totp db uid u ct)
  have "db_ok L (db\<lparr>db_totp := db_totp db @ [\<lparr>tr_user_id = uid, tr_secret_ciphertext = ct, tr_verified = False, tr_last_used_counter = 0\<rparr>]\<rparr>)"
    using Insert_Totp user_present [OF Insert_Totp.hyps(1)] find_None_key [of tr_user_id uid "db_totp db"] by (auto simp: db_ok_def totp_ok_def)
  then show ?case by (rule set_totp_enabled_ok) (use Insert_Totp in simp_all)
next
  case (Update_Totp db uid u t ct)
  have "db_ok L (on_totp uid (\<lambda>t. t\<lparr>tr_secret_ciphertext := ct\<rparr>) db)" using Update_Totp by (simp add: db_ok_def totp_ok_update)
  then show ?case by (rule set_totp_enabled_ok) (use Update_Totp in simp_all)
next
  case (Disable db uid u)
  have "db_ok L (db\<lparr>db_totp := filter (\<lambda>t. tr_user_id t \<noteq> uid) (db_totp db), db_codes := filter (\<lambda>b. cr_user_id b \<noteq> uid) (db_codes db)\<rparr>)"
    using Disable by (auto simp: db_ok_def codes_ok_filter totp_ok_def distinct_map_filter)
  then show ?case by (rule set_totp_enabled_ok) (use Disable in simp_all)
next
  case (Replace db uid u hs)
  then show ?case using codes_ok_replace [of "db_users db" "db_serial db" "db_codes db" uid hs] user_present [OF Replace.hyps(1)] by (simp add: db_ok_def)
next
  case (Add_Cred db uid u cred)
  then show ?case using user_present [OF Add_Cred.hyps(1)] by (auto simp: db_ok_def creds_ok_def)
next
  case (Sign_Count db cid n)
  let ?cs = "update_where (\<lambda>(v, c). wa_CredentialID c = cid) (\<lambda>(v, c). (v, c\<lparr>wa_SignCount := n, wa_LastUsedAt := Some (db_now db)\<rparr>)) (db_creds db)"
  have "map (wa_CredentialID \<circ> snd) ?cs = map (wa_CredentialID \<circ> snd) (db_creds db)" by (rule update_where_keys) auto
  with Sign_Count show ?case unfolding db_ok_def creds_ok_def by (auto simp: set_update_where)
next
  case (Remove_Cred db uid cid)
  then show ?case by (auto simp: db_ok_def creds_ok_def distinct_map_filter)
qed (simp_all add: db_ok_def totp_ok_update codes_ok_update)

section \<open>What a step does to one user\<close>

lemma find_update_where:
  "(\<And>r. key (f r) = key r) \<Longrightarrow>
    List.find (\<lambda>r. key r = k) (update_where (\<lambda>r. key r = k') f rs) = (if k = k' then map_option f (List.find (\<lambda>r. key r = k) rs) else List.find (\<lambda>r. key r = k) rs)"
  by (induction rs) (auto simp: update_where_def)

lemma find_append: "List.find P (xs @ ys) = (case List.find P xs of None \<Rightarrow> List.find P ys | Some x \<Rightarrow> Some x)"
  by (induction xs) auto

lemma find_filter_key: "List.find (\<lambda>r. key r = k) (filter (\<lambda>r. key r \<noteq> k') rs) = (if k = k' then None else List.find (\<lambda>r. key r = k) rs)"
  by (induction rs) auto

lemmas row_simps = find_update_where [of ur_id] find_update_where [of tr_user_id] find_append find_filter_key [of tr_user_id]

definition counter :: "string \<Rightarrow> auth_db \<Rightarrow> int option" where
  "counter uid db = map_option tr_last_used_counter (totp_by_id db uid)"

text \<open>The counter of a user never moves back while the secret is not removed.\<close>

lemma counter_step:
  assumes "db_step L db ch db'" and "ch \<noteq> Disabled uid" and "counter uid db = Some n"
  shows "\<exists>n'. counter uid db' = Some n' \<and> n \<le> n'"
  using assms by (induction rule: db_step.induct) (auto simp: counter_def row_simps)

lemma counter_set: "db_step L db (CounterSet uid c) db' \<Longrightarrow> counter uid db' = Some c \<and> (\<exists>n. counter uid db = Some n \<and> n < c)"
  by (induction db "CounterSet uid c" db' rule: db_step.induct) (auto simp: counter_def row_simps)

text \<open>A code is spent when no unused row has it.\<close>

definition spent :: "string \<Rightarrow> string \<Rightarrow> auth_db \<Rightarrow> bool" where
  "spent uid h db \<longleftrightarrow> (\<forall>b \<in> set (db_codes db). \<not> (unused_code uid b \<and> cr_code_hash b = h))"

lemma spent_step:
  assumes "db_step L db ch db'" and "ch \<noteq> CodesReplaced uid" and "spent uid h db"
  shows "spent uid h db'"
  using assms
proof (induction rule: db_step.induct)
  case (Replace db v u hs)
  then show ?case using new_codes_facts(3) [of "db_serial db" v hs] by (auto simp: spent_def unused_code_def)
qed (auto simp: spent_def unused_code_def set_update_where)

lemma mem_update_where: "b \<in> set (update_where P f rs) \<Longrightarrow> \<exists>r \<in> set rs. b = (if P r then f r else r)"
  by (auto simp: update_where_def)

inductive_cases CodeUsedE: "db_step L db (CodeUsed uid h n) db'"

lemma code_used:
  assumes "db_step L db (CodeUsed uid h n) db'" and "n > 0"
  shows "spent uid h db' \<and> \<not> spent uid h db"
proof -
  let ?hit = "\<lambda>b. unused_code uid b \<and> cr_code_hash b = h"
  let ?new = "update_where ?hit (\<lambda>b. b\<lparr>cr_used_at := Some (db_now db)\<rparr>) (db_codes db)"
  have n: "n = length (filter ?hit (db_codes db))" and new: "db_codes db' = ?new" using assms(1) by (auto elim: CodeUsedE)
  have "\<not> ?hit b" if "b \<in> set ?new" for b
  proof -
    from mem_update_where [OF that] obtain r where "b = (if ?hit r then r\<lparr>cr_used_at := Some (db_now db)\<rparr> else r)" by blast
    then show ?thesis by (cases "?hit r") (simp_all add: unused_code_def)
  qed
  then have "spent uid h db'" unfolding spent_def new by blast
  moreover have "filter ?hit (db_codes db) \<noteq> []" using assms(2) n by simp
  then have "\<not> spent uid h db" by (simp add: spent_def filter_empty_conv)
  ultimately show ?thesis by simp
qed

text \<open>The version of an account, and its second-factor flag.\<close>

lemma version_step:
  assumes "db_step L db ch db'" and "user_by_id db uid = Some u"
  shows "\<exists>u'. user_by_id db' uid = Some u' \<and> ur_account_version u \<le> ur_account_version u' \<and>
    (ur_totp_enabled u' \<noteq> ur_totp_enabled u \<or> ch = StatusSet uid \<longrightarrow> ur_account_version u < ur_account_version u')"
  using assms by (induction rule: db_step.induct) (simp_all add: row_simps set_totp_enabled_def, auto)

section \<open>Any order of operations\<close>

type_synonym auth_trace = "(auth_op \<times> (auth_error + bool)) list"

fun accepted_counters :: "pglib \<Rightarrow> string \<Rightarrow> auth_trace \<Rightarrow> int list" where
  "accepted_counters L uid [] = []"
| "accepted_counters L uid ((op, r) # tr) =
     (case op of
        OpUpdateCounter u c \<Rightarrow> if r = Inr True \<and> parseUserID L u = Inr uid then c # accepted_counters L uid tr else accepted_counters L uid tr
      | _ \<Rightarrow> accepted_counters L uid tr)"

fun accepted_uses :: "pglib \<Rightarrow> string \<Rightarrow> string \<Rightarrow> auth_trace \<Rightarrow> nat" where
  "accepted_uses L uid h [] = 0"
| "accepted_uses L uid h ((op, r) # tr) =
     (case op of
        OpConsumeCode u g \<Rightarrow> (if r = Inr True \<and> parseUserID L u = Inr uid \<and> g = h then 1 else 0)
      | _ \<Rightarrow> 0) + accepted_uses L uid h tr"

lemma run_auth_Cons:
  assumes "run_auth L A p (op # ops) db = (tr, db')"
  obtains r db1 tr' where "auth_step L A p op db = (r, db1)" and "run_auth L A p ops db1 = (tr', db')" and "tr = (op, r) # tr'"
  using assms by (auto simp: Let_def split: prod.splits)

text \<open>The change behind a step that is not the given removal or replacement.\<close>

lemma step_change:
  assumes "auth_step L A p op db = (r, db1)" and "op_ok L op"
  obtains ch where "db_step L db ch db1" and "r = Inr True \<Longrightarrow> change_of L op ch"
    and "\<And>uid. ch = Disabled uid \<Longrightarrow> \<exists>u. op = OpDisableTOTP u \<and> r = Inr True \<and> parseUserID L u = Inr uid"
    and "\<And>uid. ch = CodesReplaced uid \<Longrightarrow> \<exists>u hs. op = OpReplaceCodes u hs \<and> r = Inr True \<and> parseUserID L u = Inr uid"
proof -
  obtain ch where ch: "db_step L db ch db1" "if r = Inr True then change_of L op ch else \<forall>uid. ch \<noteq> Disabled uid \<and> ch \<noteq> CodesReplaced uid"
    using auth_step_simulates [OF assms] by blast
  have "\<exists>u. op = OpDisableTOTP u \<and> r = Inr True \<and> parseUserID L u = Inr uid" if "ch = Disabled uid" for uid
    using ch(2) that by (cases op) (auto split: if_splits)
  moreover have "\<exists>u hs. op = OpReplaceCodes u hs \<and> r = Inr True \<and> parseUserID L u = Inr uid" if "ch = CodesReplaced uid" for uid
    using ch(2) that by (cases op) (auto split: if_splits)
  ultimately show ?thesis using that [of ch] ch by simp
qed

text \<open>
  C22: the tables of accounts and second factors stay well-formed: whatever operations run in whatever order, with faults of the database in
  between, ids and addresses stay unique and in canonical form, every secret, code and passkey belongs to an account, codes are 32-byte
  hashes held once per user, and versions stay within 32 bits.
\<close>

theorem tables_well_formed:
  assumes "db_ok L db" and "list_all (op_ok L) ops" and "run_auth L A p ops db = (tr, db')"
  shows "db_ok L db'"
  using assms
proof (induction ops arbitrary: db tr)
  case (Cons op ops)
  from Cons.prems(3) obtain r db1 tr' where s: "auth_step L A p op db = (r, db1)" "run_auth L A p ops db1 = (tr', db')" by (rule run_auth_Cons)
  obtain ch where "db_step L db ch db1" using auth_step_simulates [OF s(1)] Cons.prems(2) by auto
  then have "db_ok L db1" using Cons.prems(1) by (rule db_step_ok)
  from Cons.IH [OF this _ s(2)] Cons.prems(2) show ?case by simp
qed simp

text \<open>
  C20: a one-time password is accepted at most once: in any order of operations in which the second factor of a user is not removed, the counters
  accepted for that user are strictly increasing and above the stored one, so that a code replayed by a concurrent request is refused.
\<close>

theorem totp_codes_not_replayed:
  assumes "list_all (op_ok L) ops" and "run_auth L A p ops db = (tr, db')"
    and "\<forall>u. (OpDisableTOTP u, Inr True) \<in> set tr \<longrightarrow> parseUserID L u \<noteq> Inr uid"
  shows "sorted_wrt (<) (accepted_counters L uid tr) \<and> (\<forall>n c. counter uid db = Some n \<and> c \<in> set (accepted_counters L uid tr) \<longrightarrow> n < c)"
  using assms
proof (induction ops arbitrary: db tr)
  case (Cons op ops)
  from Cons.prems(2) obtain r db1 tr' where s: "auth_step L A p op db = (r, db1)" "run_auth L A p ops db1 = (tr', db')" "tr = (op, r) # tr'"
    by (rule run_auth_Cons)
  have ok: "op_ok L op" using Cons.prems(1) by simp
  obtain ch where ch: "db_step L db ch db1" "r = Inr True \<Longrightarrow> change_of L op ch"
    "\<And>v. ch = Disabled v \<Longrightarrow> \<exists>u. op = OpDisableTOTP u \<and> r = Inr True \<and> parseUserID L u = Inr v"
    using step_change [OF s(1) ok] by metis
  have keep: "ch \<noteq> Disabled uid" using ch(3) [of uid] Cons.prems(3) s(3) by auto
  have IH: "sorted_wrt (<) (accepted_counters L uid tr')" "\<And>n c. counter uid db1 = Some n \<Longrightarrow> c \<in> set (accepted_counters L uid tr') \<Longrightarrow> n < c"
    using Cons.IH [OF _ s(2)] Cons.prems(1,3) s(3) by auto
  have mono: "n < c" if "counter uid db = Some n" "c \<in> set (accepted_counters L uid tr')" for n c
    using counter_step [OF ch(1) keep that(1)] IH(2) that(2) by fastforce
  show ?case
  proof (cases "\<exists>u c. op = OpUpdateCounter u c \<and> r = Inr True \<and> parseUserID L u = Inr uid")
    case True
    then obtain u c where op: "op = OpUpdateCounter u c" "r = Inr True" "parseUserID L u = Inr uid" by blast
    with ch have "db_step L db (CounterSet uid c) db1" by auto
    from counter_set [OF this] op s(3) IH mono show ?thesis by auto
  next
    case False
    then have "accepted_counters L uid tr = accepted_counters L uid tr'" by (auto simp: s(3) split: auth_op.splits)
    then show ?thesis using IH(1) mono by auto
  qed
qed simp

text \<open>
  C21: a backup code is used at most once: in any order of operations in which the codes of a user are not replaced, at most one use of a code
  is accepted, none if no unused code has the hash, and afterwards the code is no longer offered.
\<close>

theorem backup_codes_single_use:
  assumes "list_all (op_ok L) ops" and "run_auth L A p ops db = (tr, db')"
    and "\<forall>u hs. (OpReplaceCodes u hs, Inr True) \<in> set tr \<longrightarrow> parseUserID L u \<noteq> Inr uid"
  shows "accepted_uses L uid h tr \<le> (if spent uid h db then 0 else 1) \<and> (spent uid h db \<or> 0 < accepted_uses L uid h tr \<longrightarrow> spent uid h db')"
  using assms
proof (induction ops arbitrary: db tr)
  case (Cons op ops)
  from Cons.prems(2) obtain r db1 tr' where s: "auth_step L A p op db = (r, db1)" "run_auth L A p ops db1 = (tr', db')" "tr = (op, r) # tr'"
    by (rule run_auth_Cons)
  have ok: "op_ok L op" using Cons.prems(1) by simp
  obtain ch where ch: "db_step L db ch db1" "r = Inr True \<Longrightarrow> change_of L op ch"
    "\<And>v. ch = CodesReplaced v \<Longrightarrow> \<exists>u hs. op = OpReplaceCodes u hs \<and> r = Inr True \<and> parseUserID L u = Inr v"
    using step_change [OF s(1) ok] by metis
  have keep: "spent uid h db \<Longrightarrow> spent uid h db1" using spent_step [OF ch(1)] ch(3) [of uid] Cons.prems(3) s(3) by auto
  have rest: "\<forall>u hs. (OpReplaceCodes u hs, Inr True) \<in> set tr' \<longrightarrow> parseUserID L u \<noteq> Inr uid" using Cons.prems(3) s(3) by auto
  have IH: "accepted_uses L uid h tr' \<le> (if spent uid h db1 then 0 else 1) \<and> (spent uid h db1 \<or> 0 < accepted_uses L uid h tr' \<longrightarrow> spent uid h db')"
    using Cons.IH [OF _ s(2) rest] Cons.prems(1) by simp
  show ?case
  proof (cases "\<exists>u. op = OpConsumeCode u h \<and> r = Inr True \<and> parseUserID L u = Inr uid")
    case True
    then obtain n where "db_step L db (CodeUsed uid h n) db1" "n > 0" using ch(1,2) by auto
    from code_used [OF this] have now: "spent uid h db1" "\<not> spent uid h db" by simp_all
    have "accepted_uses L uid h tr = 1 + accepted_uses L uid h tr'" using True s(3) by auto
    with now IH show ?thesis by simp
  next
    case False
    then have "accepted_uses L uid h tr = accepted_uses L uid h tr'" by (auto simp: s(3) split: auth_op.splits)
    with IH keep show ?thesis by (auto split: if_splits)
  qed
qed simp

text \<open>
  sessions are revoked by every change of an account: whatever operations run in whatever order, the version of an account never decreases, and
  it has increased whenever the second factor was switched on or off or the status of the account was set.
\<close>

theorem account_version_advances:
  assumes "list_all (op_ok L) ops" and "run_auth L A p ops db = (tr, db')" and "user_by_id db uid = Some u"
  shows "\<exists>u'. user_by_id db' uid = Some u' \<and> ur_account_version u \<le> ur_account_version u' \<and>
    (ur_totp_enabled u' \<noteq> ur_totp_enabled u \<or> (\<exists>v st. (OpUpdateStatus v st, Inr True) \<in> set tr \<and> parseUserID L v = Inr uid) \<longrightarrow>
      ur_account_version u < ur_account_version u')"
  using assms
proof (induction ops arbitrary: db tr u)
  case (Cons op ops)
  from Cons.prems(2) obtain r db1 tr' where s: "auth_step L A p op db = (r, db1)" "run_auth L A p ops db1 = (tr', db')" "tr = (op, r) # tr'"
    by (rule run_auth_Cons)
  have ok: "op_ok L op" using Cons.prems(1) by simp
  obtain ch where ch: "db_step L db ch db1" "r = Inr True \<Longrightarrow> change_of L op ch" using step_change [OF s(1) ok] by metis
  from version_step [OF ch(1) Cons.prems(3)] obtain u1 where u1: "user_by_id db1 uid = Some u1" "ur_account_version u \<le> ur_account_version u1"
    "ur_totp_enabled u1 \<noteq> ur_totp_enabled u \<or> ch = StatusSet uid \<Longrightarrow> ur_account_version u < ur_account_version u1" by blast
  have status: "ch = StatusSet uid" if "op = OpUpdateStatus v st" "r = Inr True" "parseUserID L v = Inr uid" for v st using ch(2) that by auto
  from Cons.IH [OF _ s(2) u1(1)] Cons.prems(1) obtain u' where u': "user_by_id db' uid = Some u'" "ur_account_version u1 \<le> ur_account_version u'"
    "ur_totp_enabled u' \<noteq> ur_totp_enabled u1 \<or> (\<exists>v st. (OpUpdateStatus v st, Inr True) \<in> set tr' \<and> parseUserID L v = Inr uid) \<Longrightarrow>
      ur_account_version u1 < ur_account_version u'" by auto
  have "ur_account_version u < ur_account_version u'"
    if "ur_totp_enabled u' \<noteq> ur_totp_enabled u \<or> (\<exists>v st. (OpUpdateStatus v st, Inr True) \<in> set tr \<and> parseUserID L v = Inr uid)"
  proof (cases "ur_account_version u < ur_account_version u1")
    case False
    then have "ur_totp_enabled u1 = ur_totp_enabled u" "ch \<noteq> StatusSet uid" using u1(3) by auto
    then have "ur_totp_enabled u' \<noteq> ur_totp_enabled u1 \<or> (\<exists>v st. (OpUpdateStatus v st, Inr True) \<in> set tr' \<and> parseUserID L v = Inr uid)"
      using that status s(3) by auto
    from u'(3) [OF this] u1(2) show ?thesis by simp
  qed (use u'(2) in simp)
  with u'(1,2) u1(2) show ?case by auto
qed simp

section \<open>A sample\<close>

definition sample_pg :: pglib where
  "sample_pg = \<lparr>pl_scan = Some, pl_lower = to_lower\<rparr>"

definition sample_provider :: StoreUserProvider where
  "sample_provider = WithWebAuthnRepository True (provider_WithTx True (WithMFA True (Some sample_cipher) (NewStoreUserProvider True)))"

definition sample_hash :: string where "sample_hash = replicate 32 CHR ''h''"

definition sample_db :: auth_db where
  "sample_db = \<lparr>db_users = [\<lparr>ur_id = ''u1'', ur_email = ''a@b'', ur_password_hash = ''x'', ur_role = None, ur_permissions = 0, ur_status = ''active'',
       ur_account_version = 1, ur_totp_enabled = False, ur_tenant_id = ''0''\<rparr>],
     db_totp = [\<lparr>tr_user_id = ''u1'', tr_secret_ciphertext = sample_secret, tr_verified = True, tr_last_used_counter = 5\<rparr>],
     db_codes = [\<lparr>cr_id = 0, cr_user_id = ''u1'', cr_code_hash = sample_hash, cr_used_at = None\<rparr>], db_creds = [],
     db_now = 0, db_serial = 1, db_new_uuid = ''u9'', db_fault = None, db_commit_fault = None\<rparr>"

definition sample_ops :: "auth_op list" where
  "sample_ops = [OpUpdateCounter ''u1'' 6, OpUpdateCounter '' u1'' 6, OpConsumeCode ''u1'' sample_hash, OpConsumeCode ''u1'' sample_hash,
     OpUpdateCounter ''u1'' 7, OpUpdateStatus ''u1'' AccountLocked]"

definition sample_run :: "auth_trace \<times> auth_db" where
  "sample_run = run_auth sample_pg sample_aead sample_provider sample_ops sample_db"

lemma sample_run_eq: "run_auth sample_pg sample_aead sample_provider sample_ops sample_db = (fst sample_run, snd sample_run)"
  by (simp add: sample_run_def)

lemma sample_ops_ok: "list_all (op_ok sample_pg) sample_ops"
  by (simp add: sample_ops_def)

lemma sample_trace: "fst sample_run =
  [(OpUpdateCounter ''u1'' 6, Inr True), (OpUpdateCounter '' u1'' 6, Inl ErrTOTPCounterNotAdvanced), (OpConsumeCode ''u1'' sample_hash, Inr True),
   (OpConsumeCode ''u1'' sample_hash, Inr False), (OpUpdateCounter ''u1'' 7, Inr True), (OpUpdateStatus ''u1'' AccountLocked, Inr True)]"
  by code_simp

lemma sample_id: "parseUserID sample_pg ''u1'' = Inr ''u1''" "parseUserID sample_pg ''u9'' = Inr ''u9''" "parseUserID sample_pg '' u1'' = Inr ''u1''"
  by code_simp+

lemma sample_db_ok: "db_ok sample_pg sample_db"
proof -
  have "to_lower ''a@b'' = ''a@b''" by code_simp
  then show ?thesis
    using sample_id by (simp add: db_ok_def users_ok_def totp_ok_def codes_ok_def creds_ok_def sample_db_def sample_hash_def sample_pg_def)
qed

theorem tables_well_formed_witness: "db_ok sample_pg (snd sample_run)"
  by (rule tables_well_formed [OF sample_db_ok sample_ops_ok sample_run_eq])

theorem totp_codes_not_replayed_witness:
  "accepted_counters sample_pg ''u1'' (fst sample_run) = [6, 7] \<and> sorted_wrt (<) (accepted_counters sample_pg ''u1'' (fst sample_run))"
  using totp_codes_not_replayed [OF sample_ops_ok sample_run_eq, of "''u1''"] by (simp add: sample_trace sample_id)

theorem backup_codes_single_use_witness:
  "accepted_uses sample_pg ''u1'' sample_hash (fst sample_run) = 1 \<and> spent ''u1'' sample_hash (snd sample_run)"
  using backup_codes_single_use [OF sample_ops_ok sample_run_eq, of "''u1''" sample_hash] by (simp add: sample_trace sample_id)

theorem account_version_advances_witness:
  "\<exists>u'. user_by_id (snd sample_run) ''u1'' = Some u' \<and> 1 < ur_account_version u'"
proof -
  let ?u = "\<lparr>ur_id = ''u1'', ur_email = ''a@b'', ur_password_hash = ''x'', ur_role = None, ur_permissions = 0, ur_status = ''active'',
       ur_account_version = 1, ur_totp_enabled = False, ur_tenant_id = ''0''\<rparr>"
  have "user_by_id sample_db ''u1'' = Some ?u" by (simp add: sample_db_def)
  from account_version_advances [OF sample_ops_ok sample_run_eq this] show ?thesis by (auto simp: sample_trace sample_id)
qed

end
