(* ===== verification/Tenant_Store.thy ===== *)
theory Tenant_Store
  imports Tenancy Auth_Safety
begin

text \<open>
  Users per tenant: the tenant-aware store of \<open>internal/tenancy/store.go\<close> over the queries of \<open>db/queries/tenancy.sql\<close>, and the provider of
  \<open>internal/tenancy/provider.go\<close> that goAuth gets when tenancy is on. A lookup or a password change for a tenant neither finds nor touches the users of
  another one.
\<close>

section \<open>Queries\<close>

definition GetAuthUserByIDInTenant :: "string \<Rightarrow> string \<Rightarrow> user_row query" where
  "GetAuthUserByIDInTenant tenant uid = exec (\<lambda>db. one_row (List.find (\<lambda>u. ur_tenant_id u = tenant \<and> ur_id u = uid) (db_users db)) db)"

definition GetAuthUserByLoginInTenant :: "pglib \<Rightarrow> string \<Rightarrow> string \<Rightarrow> user_row query" where
  "GetAuthUserByLoginInTenant L tenant email = exec (\<lambda>db.
     one_row (List.find (\<lambda>u. ur_tenant_id u = tenant \<and> pl_lower L (ur_email u) = pl_lower L email) (db_users db)) db)"

definition CreateAuthUserInTenant :: "pglib \<Rightarrow> CreateAuthUserParams \<Rightarrow> string \<Rightarrow> user_row query" where
  "CreateAuthUserInTenant L p tenant = insert_user L p tenant"

definition GetAuthUserTenant :: "string \<Rightarrow> string query" where
  "GetAuthUserTenant uid = exec (\<lambda>db. one_row (map_option ur_tenant_id (user_by_id db uid)) db)"

definition UpdateAuthUserPasswordHashInTenant :: "string \<Rightarrow> string \<Rightarrow> string \<Rightarrow> string query" where
  "UpdateAuthUserPasswordHashInTenant uid tenant newHash = exec (\<lambda>db.
     let hit = (\<lambda>u. ur_id u = uid \<and> ur_tenant_id u = tenant) in
     if \<not> list_ex hit (db_users db) then (Inl ErrNoRows, db)
     else (Inr uid, db\<lparr>db_users := update_where hit (\<lambda>u. u\<lparr>ur_password_hash := newHash\<rparr>) (db_users db)\<rparr>))"

section \<open>The store\<close>

record TenantUser =
  tu_StoredUser :: StoredUser
  tu_TenantID :: string

definition mapUser :: "user_row \<Rightarrow> TenantUser" where
  "mapUser row = \<lparr>tu_StoredUser = \<lparr>su_ID = ur_id row, su_Email = ur_email row, su_PasswordHash = ur_password_hash row,
       su_Role = (case ur_role row of None \<Rightarrow> [] | Some r \<Rightarrow> r), su_Status = ur_status row,
       su_AccountVersion = (if ur_account_version row > 0 then ur_account_version row else 0), su_TOTPEnabled = ur_totp_enabled row\<rparr>,
     tu_TenantID = ur_tenant_id row\<rparr>"

definition tenantOrDefault :: "string \<Rightarrow> string" where
  "tenantOrDefault tenantID = (let trimmed = trim_space tenantID in if trimmed \<noteq> [] then trimmed else DefaultTenantID)"

definition store_GetByIdentifier :: "pglib \<Rightarrow> string \<Rightarrow> auth_db \<Rightarrow> TenantUser tx_result" where
  "store_GetByIdentifier L identifier db =
     row_or ErrAuthUserNotFound ''get user by identifier'' mapUser (GetAuthUserByLogin L (NormalizeIdentifier identifier) db)"

definition store_GetByID :: "pglib \<Rightarrow> string \<Rightarrow> auth_db \<Rightarrow> TenantUser tx_result" where
  "store_GetByID L userID = with_user L userID (\<lambda>uid db. row_or ErrAuthUserNotFound ''get user by id'' mapUser (GetAuthUserByID uid db))"

definition GetByIdentifierInTenant :: "pglib \<Rightarrow> string \<Rightarrow> string \<Rightarrow> auth_db \<Rightarrow> TenantUser tx_result" where
  "GetByIdentifierInTenant L tenantID identifier db =
     (let tenant = trim_space tenantID in
      if tenant = [] then (Inl ErrAuthUserNotFound, db)
      else row_or ErrAuthUserNotFound ''get user by identifier in tenant'' mapUser (GetAuthUserByLoginInTenant L tenant (NormalizeIdentifier identifier) db))"

definition GetByIDInTenant :: "pglib \<Rightarrow> string \<Rightarrow> string \<Rightarrow> auth_db \<Rightarrow> TenantUser tx_result" where
  "GetByIDInTenant L tenantID userID db =
     (let tenant = trim_space tenantID in
      if tenant = [] then (Inl ErrAuthUserNotFound, db)
      else with_user L userID (\<lambda>uid db. row_or ErrAuthUserNotFound ''get user by id in tenant'' mapUser (GetAuthUserByIDInTenant tenant uid db)) db)"

definition CreateInTenant :: "pglib \<Rightarrow> string \<Rightarrow> CreateStoredUserInput \<Rightarrow> auth_db \<Rightarrow> TenantUser tx_result" where
  "CreateInTenant L tenantID i db =
     (case CreateAuthUserInTenant L \<lparr>cp_Email = NormalizeIdentifier (ci_Identifier i), cp_PasswordHash = ci_PasswordHash i,
             cp_Role = roleToText (ci_Role i), cp_Permissions = 0, cp_Status = trim_space (ci_Status i)\<rparr> (tenantOrDefault tenantID) db of
        (Inl e, db') \<Rightarrow> (Inl (if e = PgCode pgUniqueViolation then ErrAuthUserExists else Wrapped ''create user in tenant'' (PgFailed e)), db')
      | (Inr row, db') \<Rightarrow> (Inr (mapUser row), db'))"

definition TenantOf :: "pglib \<Rightarrow> string \<Rightarrow> auth_db \<Rightarrow> string tx_result" where
  "TenantOf L userID = with_user L userID (\<lambda>uid db. row_or ErrAuthUserNotFound ''get user tenant'' (\<lambda>t. t) (GetAuthUserTenant uid db))"

definition store_UpdatePasswordHashInTenant :: "pglib \<Rightarrow> string \<Rightarrow> string \<Rightarrow> string \<Rightarrow> auth_db \<Rightarrow> unit tx_result" where
  "store_UpdatePasswordHashInTenant L tenantID userID newHash db =
     (let tenant = trim_space tenantID in
      if tenant = [] then (Inl ErrAuthUserNotFound, db)
      else with_user L userID (\<lambda>uid db.
        row_or ErrAuthUserNotFound ''update password hash in tenant'' (\<lambda>_. ()) (UpdateAuthUserPasswordHashInTenant uid tenant newHash db)) db)"

section \<open>The provider\<close>

definition tenant_record :: "TenantUser \<Rightarrow> UserRecord" where
  "tenant_record u = (RecordFromStored (tu_StoredUser u))\<lparr>rec_TenantID := tu_TenantID u\<rparr>"

definition mapNotFound :: "string \<Rightarrow> ('a \<Rightarrow> 'b) \<Rightarrow> 'a tx_result \<Rightarrow> 'b tx_result" where
  "mapNotFound op f res = provider_result ErrAuthUserNotFound ErrUserNotFound op f res"

definition tenant_GetUserByIdentifier :: "pglib \<Rightarrow> string \<Rightarrow> auth_db \<Rightarrow> UserRecord tx_result" where
  "tenant_GetUserByIdentifier L identifier db = mapNotFound ''get user by identifier'' tenant_record (store_GetByIdentifier L identifier db)"

definition tenant_GetUserByID :: "pglib \<Rightarrow> string \<Rightarrow> auth_db \<Rightarrow> UserRecord tx_result" where
  "tenant_GetUserByID L userID db = mapNotFound ''get user by id'' tenant_record (store_GetByID L userID db)"

definition GetUserByIdentifierInTenant :: "pglib \<Rightarrow> string \<Rightarrow> string \<Rightarrow> auth_db \<Rightarrow> UserRecord tx_result" where
  "GetUserByIdentifierInTenant L tenantID identifier db =
     mapNotFound ''get user by identifier in tenant'' tenant_record (GetByIdentifierInTenant L tenantID identifier db)"

definition GetUserByIDInTenant :: "pglib \<Rightarrow> string \<Rightarrow> string \<Rightarrow> auth_db \<Rightarrow> UserRecord tx_result" where
  "GetUserByIDInTenant L tenantID userID db = mapNotFound ''get user by id in tenant'' tenant_record (GetByIDInTenant L tenantID userID db)"

definition UpdatePasswordHashInTenant :: "pglib \<Rightarrow> string \<Rightarrow> string \<Rightarrow> string \<Rightarrow> auth_db \<Rightarrow> unit tx_result" where
  "UpdatePasswordHashInTenant L tenantID userID newHash db =
     mapNotFound ''update password hash in tenant'' (\<lambda>_. ()) (store_UpdatePasswordHashInTenant L tenantID userID newHash db)"

definition tenant_CreateUser :: "pglib \<Rightarrow> CreateUserInput \<Rightarrow> auth_db \<Rightarrow> UserRecord tx_result" where
  "tenant_CreateUser L i db =
     provider_result ErrAuthUserExists ErrProviderDuplicateIdentifier ''create user'' tenant_record
       (CreateInTenant L (cu_TenantID i) \<lparr>ci_Identifier = cu_Identifier i, ci_PasswordHash = cu_PasswordHash i, ci_Role = cu_Role i,
          ci_Status = AccountStatusText (cu_Status i)\<rparr> db)"

definition tenant_UpdateAccountStatus :: "pglib \<Rightarrow> StoreUserProvider \<Rightarrow> string \<Rightarrow> AccountStatus \<Rightarrow> auth_db \<Rightarrow> UserRecord tx_result" where
  "tenant_UpdateAccountStatus L p userID status db =
     (case UpdateAccountStatus L p userID status db of
        (Inl e, db1) \<Rightarrow> (Inl e, db1)
      | (Inr r, db1) \<Rightarrow>
          (case mapNotFound ''update account status'' (\<lambda>t. t) (TenantOf L userID db1) of
             (Inl e, db2) \<Rightarrow> (Inl e, db2)
           | (Inr tenant, db2) \<Rightarrow> (Inr (r\<lparr>rec_TenantID := tenant\<rparr>), db2)))"

section \<open>Separation\<close>

lemma snd_wrappers [simp]:
  "snd (row_or missing op f res) = snd res" "snd (provider_result from to op g res') = snd res'" "snd (mapNotFound op g res') = snd res'"
  by (auto simp: row_or_def provider_result_def mapNotFound_def split: prod.splits sum.splits pg_error.splits)

lemma wrappers_Inr:
  "fst (row_or missing op f res) = Inr y \<longleftrightarrow> (\<exists>x. fst res = Inr x \<and> y = f x)"
  "fst (mapNotFound op g res') = Inr z \<longleftrightarrow> (\<exists>x. fst res' = Inr x \<and> z = g x)"
  "fst (provider_result from to op g res') = Inr z \<longleftrightarrow> (\<exists>x. fst res' = Inr x \<and> z = g x)"
  by (auto simp: row_or_def provider_result_def mapNotFound_def split: prod.splits sum.splits pg_error.splits)

lemma one_row_Inr: "fst (exec (\<lambda>db. one_row (q db) db) db) = Inr x \<Longrightarrow> q db = Some x" "snd (exec (\<lambda>db. one_row (q db) db) db) = db"
  by (auto simp: exec_def one_row_def split: option.splits)

lemma find_SomeD: "List.find P xs = Some x \<Longrightarrow> x \<in> set xs \<and> P x"
  by (auto simp: find_Some_iff)

lemma record_fields [simp]: "rec_TenantID (tenant_record (mapUser u)) = ur_tenant_id u" "rec_UserID (tenant_record (mapUser u)) = ur_id u"
  by (simp_all add: tenant_record_def mapUser_def RecordFromStored_def)

lemma lookups_scoped:
  assumes "lookup \<in> {GetUserByIDInTenant L tenant u db, GetUserByIdentifierInTenant L tenant u db}"
  shows "snd lookup = db" and "fst lookup = Inr r \<Longrightarrow>
    trim_space tenant \<noteq> [] \<and> (\<exists>row \<in> set (db_users db). ur_tenant_id row = trim_space tenant \<and> r = tenant_record (mapUser row))"
proof -
  consider "lookup = GetUserByIDInTenant L tenant u db" | "lookup = GetUserByIdentifierInTenant L tenant u db" using assms by blast
  then have "snd lookup = db \<and> (fst lookup = Inr r \<longrightarrow>
    trim_space tenant \<noteq> [] \<and> (\<exists>row \<in> set (db_users db). ur_tenant_id row = trim_space tenant \<and> r = tenant_record (mapUser row)))"
  proof cases
    case 1
    then show ?thesis
      by (auto simp: GetUserByIDInTenant_def GetByIDInTenant_def Let_def with_user_def GetAuthUserByIDInTenant_def one_row_Inr(2) wrappers_Inr
          split: sum.splits dest!: one_row_Inr(1) find_SomeD)
  next
    case 2
    then show ?thesis
      by (auto simp: GetUserByIdentifierInTenant_def GetByIdentifierInTenant_def Let_def GetAuthUserByLoginInTenant_def one_row_Inr(2) wrappers_Inr
          dest!: one_row_Inr(1) find_SomeD)
  qed
  then show "snd lookup = db" and "fst lookup = Inr r \<Longrightarrow>
    trim_space tenant \<noteq> [] \<and> (\<exists>row \<in> set (db_users db). ur_tenant_id row = trim_space tenant \<and> r = tenant_record (mapUser row))" by simp_all
qed

lemma update_filter: "(\<And>r. P r \<Longrightarrow> \<not> Q r \<and> \<not> Q (f r)) \<Longrightarrow> filter Q (update_where P f rs) = filter Q rs"
  by (induction rs) (auto simp: update_where_def)

lemma password_write_scoped:
  assumes "UpdatePasswordHashInTenant L tenant u h db = (res, db')"
  shows "(isl res \<longrightarrow> db' = db) \<and> db'\<lparr>db_users := []\<rparr> = db\<lparr>db_users := []\<rparr> \<and>
    filter (\<lambda>r. ur_tenant_id r \<noteq> trim_space tenant) (db_users db') = filter (\<lambda>r. ur_tenant_id r \<noteq> trim_space tenant) (db_users db) \<and>
    (\<forall>uid. parseUserID L u = Inr uid \<longrightarrow> filter (\<lambda>r. ur_id r \<noteq> uid) (db_users db') = filter (\<lambda>r. ur_id r \<noteq> uid) (db_users db))"
proof -
  have run: "mapNotFound ''update password hash in tenant'' (\<lambda>_. ()) (store_UpdatePasswordHashInTenant L tenant u h db) = (res, db')"
    using assms by (simp add: UpdatePasswordHashInTenant_def)
  show ?thesis
  proof (cases "trim_space tenant = [] \<or> isl (parseUserID L u) \<or> db_fault db \<noteq> None")
    case True
    then have "store_UpdatePasswordHashInTenant L tenant u h db = (fst (store_UpdatePasswordHashInTenant L tenant u h db), db)"
      by (auto simp: store_UpdatePasswordHashInTenant_def Let_def with_user_def UpdateAuthUserPasswordHashInTenant_def exec_def row_or_def split: sum.splits)
    then have "db' = db" using arg_cong [OF run, of snd] by simp (metis snd_conv)
    then show ?thesis by simp
  next
    case False
    then obtain uid where uid: "parseUserID L u = Inr uid" "db_fault db = None" "trim_space tenant \<noteq> []" by (cases "parseUserID L u") auto
    let ?hit = "\<lambda>v. ur_id v = uid \<and> ur_tenant_id v = trim_space tenant"
    have "res = Inl ErrUserNotFound \<and> db' = db \<or>
        res = Inr () \<and> db' = db\<lparr>db_users := update_where ?hit (\<lambda>u. u\<lparr>ur_password_hash := h\<rparr>) (db_users db)\<rparr>"
      using run uid by (auto simp: mapNotFound_def provider_result_def store_UpdatePasswordHashInTenant_def Let_def with_user_def
          UpdateAuthUserPasswordHashInTenant_def exec_def row_or_def split: if_splits)
    then show ?thesis using uid(1) by (auto intro!: update_filter)
  qed
qed

lemma create_scoped:
  assumes "tenant_CreateUser L i db = (Inr r, db')"
  shows "\<exists>row. ur_tenant_id row = tenantOrDefault (cu_TenantID i) \<and> r = tenant_record (mapUser row) \<and> db' = db\<lparr>db_users := db_users db @ [row]\<rparr>"
proof -
  let ?i = "\<lparr>ci_Identifier = cu_Identifier i, ci_PasswordHash = cu_PasswordHash i, ci_Role = cu_Role i, ci_Status = AccountStatusText (cu_Status i)\<rparr>"
  let ?p = "\<lparr>cp_Email = NormalizeIdentifier (ci_Identifier ?i), cp_PasswordHash = ci_PasswordHash ?i,
             cp_Role = roleToText (ci_Role ?i), cp_Permissions = 0, cp_Status = trim_space (ci_Status ?i)\<rparr>"
  obtain q d where q: "insert_user L ?p (tenantOrDefault (cu_TenantID i)) db = (q, d)" by fastforce
  then obtain row where row: "q = Inr row" "r = tenant_record (mapUser row)" "db' = d"
    using assms by (auto simp: tenant_CreateUser_def CreateInTenant_def CreateAuthUserInTenant_def provider_result_def split: sum.splits)
  with q have "ur_tenant_id row = tenantOrDefault (cu_TenantID i) \<and> d = db\<lparr>db_users := db_users db @ [row]\<rparr>"
    by (auto simp: insert_user_def exec_def Let_def split: option.splits if_splits)
  with row show ?thesis by blast
qed

text \<open>
  C23: tenants do not share users. A user looked up for a tenant, by id or by address, belongs to it, and for an empty tenant none is found; a
  password written for a tenant changes at most the named user of that tenant and nothing when it reports an error; a new user is in the tenant it
  was created for, or in the default one.
\<close>

theorem tenant_users_separate:
  shows "(\<forall>lookup \<in> {GetUserByIDInTenant L tenant u db, GetUserByIdentifierInTenant L tenant u db}.
       snd lookup = db \<and> (\<forall>r. fst lookup = Inr r \<longrightarrow> rec_TenantID r = trim_space tenant \<and> trim_space tenant \<noteq> [])) \<and>
    (\<forall>res db'. UpdatePasswordHashInTenant L tenant u h db = (res, db') \<longrightarrow>
       (isl res \<longrightarrow> db' = db) \<and> db'\<lparr>db_users := []\<rparr> = db\<lparr>db_users := []\<rparr> \<and>
       filter (\<lambda>r. ur_tenant_id r \<noteq> trim_space tenant) (db_users db') = filter (\<lambda>r. ur_tenant_id r \<noteq> trim_space tenant) (db_users db) \<and>
       (\<forall>uid. parseUserID L u = Inr uid \<longrightarrow> filter (\<lambda>r. ur_id r \<noteq> uid) (db_users db') = filter (\<lambda>r. ur_id r \<noteq> uid) (db_users db))) \<and>
    (\<forall>i r db'. tenant_CreateUser L i db = (Inr r, db') \<longrightarrow>
       rec_TenantID r = tenantOrDefault (cu_TenantID i) \<and> (\<exists>row. ur_tenant_id row = rec_TenantID r \<and> db_users db' = db_users db @ [row]))"
proof (intro conjI ballI allI impI)
  fix lookup assume "lookup \<in> {GetUserByIDInTenant L tenant u db, GetUserByIdentifierInTenant L tenant u db}"
  note scoped = lookups_scoped [OF this]
  show "snd lookup = db" by (rule scoped(1))
  fix r assume "fst lookup = Inr r"
  from scoped(2) [OF this] show "rec_TenantID r = trim_space tenant" "trim_space tenant \<noteq> []" by auto
next
  fix res db' assume "UpdatePasswordHashInTenant L tenant u h db = (res, db')"
  note scoped = password_write_scoped [OF this]
  { assume "isl res" then show "db' = db" using scoped by simp }
  show "db'\<lparr>db_users := []\<rparr> = db\<lparr>db_users := []\<rparr>"
    "filter (\<lambda>r. ur_tenant_id r \<noteq> trim_space tenant) (db_users db') = filter (\<lambda>r. ur_tenant_id r \<noteq> trim_space tenant) (db_users db)"
    using scoped by simp_all
  fix uid assume "parseUserID L u = Inr uid"
  then show "filter (\<lambda>r. ur_id r \<noteq> uid) (db_users db') = filter (\<lambda>r. ur_id r \<noteq> uid) (db_users db)" using scoped by simp
next
  fix i r db' assume "tenant_CreateUser L i db = (Inr r, db')"
  from create_scoped [OF this] show "rec_TenantID r = tenantOrDefault (cu_TenantID i)"
    "\<exists>row. ur_tenant_id row = rec_TenantID r \<and> db_users db' = db_users db @ [row]" by auto
qed

theorem tenant_users_separate_witness:
  "\<exists>r. fst (GetUserByIDInTenant sample_pg '' 0'' ''u1'' sample_db) = Inr r \<and> rec_TenantID r = ''0'' \<and>
    isl (fst (GetUserByIDInTenant sample_pg ''1'' ''u1'' sample_db))"
proof -
  have trim: "trim_space '' 0'' = ''0''" by code_simp
  have other: "isl (fst (GetUserByIDInTenant sample_pg ''1'' ''u1'' sample_db))" by code_simp
  have "\<not> isl (fst (GetUserByIDInTenant sample_pg '' 0'' ''u1'' sample_db))" by code_simp
  then obtain r where "fst (GetUserByIDInTenant sample_pg '' 0'' ''u1'' sample_db) = Inr r"
    by (cases "fst (GetUserByIDInTenant sample_pg '' 0'' ''u1'' sample_db)") auto
  with tenant_users_separate [of sample_pg "'' 0''" "''u1''" sample_db] trim other show ?thesis by fastforce
qed

end
