(* ===== verification/Document_Store.thy ===== *)
theory Document_Store
  imports Prelude "HOL-Library.AList"
begin

text \<open>
  The document storage boundary and its in-memory implementation:
  \<open>internal/storage/document/store.go\<close> and \<open>memory.go\<close>.

  Go maps are association lists with distinct keys, and an absent collection is an absent key.
  The state of one goroutine's context is the shared store data together with the transaction
  its context carries. \<open>jl\<close> is the JSON library (\<open>json.Unmarshal\<close> into a map and
  \<open>json.Marshal\<close>), over an abstract type of decoded values.
\<close>

section \<open>Data\<close>

datatype doc_error = ErrNotFound | ErrAlreadyExists | ErrIDRequired | ErrNilCallback | ErrCallback string

record Document =
  doc_ID :: string
  doc_Data :: string

record 'v Query =
  q_Fields :: "(string \<times> 'v) list"

record 'v json_lib =
  jl_unmarshal :: "string \<Rightarrow> (string \<times> 'v) list option"
  jl_marshal :: "'v \<Rightarrow> string option"

type_synonym 'a table = "(string \<times> (string \<times> 'a) list) list"

text \<open>A staged write: \<open>None\<close> marks a delete.\<close>

record memoryTx =
  tx_writes :: "string option table"

record mem_state =
  ms_data :: "string table"
  ms_tx :: "memoryTx option"

definition NewInMemoryStore :: mem_state where
  "NewInMemoryStore = \<lparr>ms_data = [], ms_tx = None\<rparr>"

text \<open>\<open>t[collection]\<close>, the nil map where the collection is absent.\<close>

definition column :: "'a table \<Rightarrow> string \<Rightarrow> (string \<times> 'a) list" where
  "column t c = (case map_of t c of None \<Rightarrow> [] | Some col \<Rightarrow> col)"

text \<open>\<open>t[collection][id] = v\<close>, making the inner map where it is absent.\<close>

definition put :: "string \<Rightarrow> string \<Rightarrow> 'a \<Rightarrow> 'a table \<Rightarrow> 'a table" where
  "put c i v t = AList.update c (AList.update i v (column t c)) t"

text \<open>\<open>delete(t[collection], id)\<close>, where the collection is present.\<close>

definition drop_id :: "string \<Rightarrow> string \<Rightarrow> 'a table \<Rightarrow> 'a table" where
  "drop_id c i t = (case map_of t c of None \<Rightarrow> t | Some col \<Rightarrow> AList.update c (AList.delete i col) t)"

section \<open>Operations\<close>

definition stage :: "string \<Rightarrow> string \<Rightarrow> string option \<Rightarrow> memoryTx \<Rightarrow> memoryTx" where
  "stage c i payload t = t\<lparr>tx_writes := put c i payload (tx_writes t)\<rparr>"

definition staged :: "memoryTx \<Rightarrow> string \<Rightarrow> string \<Rightarrow> string option option" where
  "staged t c i = map_of (column (tx_writes t) c) i"

definition committed_get :: "mem_state \<Rightarrow> string \<Rightarrow> string \<Rightarrow> doc_error + Document" where
  "committed_get st c i =
     (case map_of (column (ms_data st) c) i of
        None \<Rightarrow> Inl ErrNotFound
      | Some payload \<Rightarrow> Inr \<lparr>doc_ID = i, doc_Data = payload\<rparr>)"

definition Get :: "string \<Rightarrow> string \<Rightarrow> mem_state \<Rightarrow> doc_error + Document" where
  "Get c i st =
     (case ms_tx st of
        None \<Rightarrow> committed_get st c i
      | Some t \<Rightarrow>
          (case staged t c i of
             Some None \<Rightarrow> Inl ErrNotFound
           | Some (Some payload) \<Rightarrow> Inr \<lparr>doc_ID = i, doc_Data = payload\<rparr>
           | None \<Rightarrow> committed_get st c i))"

definition write_doc :: "string \<Rightarrow> Document \<Rightarrow> mem_state \<Rightarrow> mem_state" where
  "write_doc c doc st =
     (case ms_tx st of
        Some t \<Rightarrow> st\<lparr>ms_tx := Some (stage c (doc_ID doc) (Some (doc_Data doc)) t)\<rparr>
      | None \<Rightarrow> st\<lparr>ms_data := put c (doc_ID doc) (doc_Data doc) (ms_data st)\<rparr>)"

definition Insert :: "string \<Rightarrow> Document \<Rightarrow> mem_state \<Rightarrow> doc_error option \<times> mem_state" where
  "Insert c doc st =
     (if doc_ID doc = [] then (Some ErrIDRequired, st)
      else (case Get c (doc_ID doc) st of
          Inr d \<Rightarrow> (Some ErrAlreadyExists, st)
        | Inl e \<Rightarrow> if e \<noteq> ErrNotFound then (Some e, st) else (None, write_doc c doc st)))"

definition Replace :: "string \<Rightarrow> Document \<Rightarrow> mem_state \<Rightarrow> doc_error option \<times> mem_state" where
  "Replace c doc st =
     (if doc_ID doc = [] then (Some ErrIDRequired, st) else (None, write_doc c doc st))"

definition getForDelete :: "string \<Rightarrow> string \<Rightarrow> memoryTx \<Rightarrow> mem_state \<Rightarrow> doc_error option" where
  "getForDelete c i t st =
     (case staged t c i of
        Some None \<Rightarrow> Some ErrNotFound
      | Some (Some p) \<Rightarrow> None
      | None \<Rightarrow> if map_of (column (ms_data st) c) i = None then Some ErrNotFound else None)"

definition Delete :: "string \<Rightarrow> string \<Rightarrow> mem_state \<Rightarrow> doc_error option \<times> mem_state" where
  "Delete c i st =
     (case ms_tx st of
        Some t \<Rightarrow>
          (case getForDelete c i t st of
             Some e \<Rightarrow> (Some e, st)
           | None \<Rightarrow> (None, st\<lparr>ms_tx := Some (stage c i None t)\<rparr>))
      | None \<Rightarrow>
          if map_of (column (ms_data st) c) i = None then (Some ErrNotFound, st)
          else (None, st\<lparr>ms_data := drop_id c i (ms_data st)\<rparr>))"

definition jsonEqual :: "'v json_lib \<Rightarrow> 'v \<Rightarrow> 'v \<Rightarrow> bool" where
  "jsonEqual jl got want =
     (case jl_marshal jl want of None \<Rightarrow> False
      | Some wantJSON \<Rightarrow> (case jl_marshal jl got of None \<Rightarrow> False | Some gotJSON \<Rightarrow> gotJSON = wantJSON))"

definition matchesFilter :: "'v json_lib \<Rightarrow> string \<Rightarrow> (string \<times> 'v) list \<Rightarrow> bool" where
  "matchesFilter jl payload flt =
     (if flt = [] then True
      else (case jl_unmarshal jl payload of
          None \<Rightarrow> False
        | Some decoded \<Rightarrow>
            list_all (\<lambda>(key, want). case map_of decoded key of None \<Rightarrow> False | Some got \<Rightarrow> jsonEqual jl got want) flt))"

definition overlay :: "(string \<times> string option) \<Rightarrow> (string \<times> string) list \<Rightarrow> (string \<times> string) list" where
  "overlay w view = (case w of (i, None) \<Rightarrow> AList.delete i view | (i, Some p) \<Rightarrow> AList.update i p view)"

definition effective_view :: "string \<Rightarrow> mem_state \<Rightarrow> (string \<times> string) list" where
  "effective_view c st =
     (case ms_tx st of
        None \<Rightarrow> column (ms_data st) c
      | Some t \<Rightarrow> fold overlay (column (tx_writes t) c) (column (ms_data st) c))"

definition Find :: "'v json_lib \<Rightarrow> string \<Rightarrow> 'v Query \<Rightarrow> mem_state \<Rightarrow> Document list" where
  "Find jl c query st =
     (let view = effective_view c st in
      map (\<lambda>i. \<lparr>doc_ID = i, doc_Data = the (map_of view i)\<rparr>)
        (filter (\<lambda>i. matchesFilter jl (the (map_of view i)) (q_Fields query)) (sort (map fst view))))"

section \<open>Transactions\<close>

text \<open>A callback returns, fails or panics; it runs on the state with the transaction in its context.\<close>

datatype fn_result = FnOk | FnErr doc_error | FnPanic

type_synonym callback = "mem_state \<Rightarrow> fn_result \<times> mem_state"

definition apply_write :: "string \<Rightarrow> string \<times> string option \<Rightarrow> string table \<Rightarrow> string table" where
  "apply_write c w data = (case w of (i, None) \<Rightarrow> drop_id c i data | (i, Some p) \<Rightarrow> put c i p data)"

definition commit :: "memoryTx \<Rightarrow> string table \<Rightarrow> string table" where
  "commit t data = fold (\<lambda>(c, ws) d. fold (apply_write c) ws d) (tx_writes t) data"

definition InMemoryStore_WithTx :: "callback option \<Rightarrow> mem_state \<Rightarrow> fn_result \<times> mem_state" where
  "InMemoryStore_WithTx fn st =
     (case fn of
        None \<Rightarrow> (FnErr ErrNilCallback, st)
      | Some f \<Rightarrow>
          (let (r, st1) = f (st\<lparr>ms_tx := Some \<lparr>tx_writes = []\<rparr>\<rparr>);
               tx = (case ms_tx st1 of None \<Rightarrow> \<lparr>tx_writes = []\<rparr> | Some t \<Rightarrow> t)
           in case r of
                FnOk \<Rightarrow> (FnOk, \<lparr>ms_data = commit tx (ms_data st1), ms_tx = ms_tx st\<rparr>)
              | _ \<Rightarrow> (r, \<lparr>ms_data = ms_data st1, ms_tx = ms_tx st\<rparr>)))"

text \<open>The free function \<open>WithTx\<close>: \<open>tx_store\<close> says whether the store implements \<open>TxStore\<close>.\<close>

definition WithTx :: "bool \<Rightarrow> callback option \<Rightarrow> mem_state \<Rightarrow> fn_result \<times> mem_state" where
  "WithTx tx_store fn st =
     (case fn of
        None \<Rightarrow> (FnErr ErrNilCallback, st)
      | Some f \<Rightarrow> if tx_store then InMemoryStore_WithTx (Some f) st else f st)"

section \<open>Tables\<close>

definition keys_ok :: "'a table \<Rightarrow> bool" where
  "keys_ok t \<longleftrightarrow> distinct (map fst t) \<and> (\<forall>c. distinct (map fst (column t c)))"

lemma column_put: "column (put c i v t) c' = (if c' = c then AList.update i v (column t c) else column t c')"
  by (simp add: column_def put_def update_conv')

lemma column_drop_id: "column (drop_id c i t) c' = (if c' = c then AList.delete i (column t c) else column t c')"
  by (auto simp: column_def drop_id_def update_conv' split: option.splits)

lemma keys_ok_put: "keys_ok t \<Longrightarrow> keys_ok (put c i v t)"
  by (simp add: keys_ok_def column_put) (simp add: put_def distinct_update)

lemma keys_ok_drop_id: "keys_ok t \<Longrightarrow> keys_ok (drop_id c i t)"
  by (simp add: keys_ok_def column_drop_id distinct_delete)
    (simp add: drop_id_def distinct_update split: option.splits)

lemma keys_ok_Nil [simp]: "keys_ok []"
  by (simp add: keys_ok_def column_def)

text \<open>The entry of a table, and the state's view: staged writes over committed data.\<close>

definition entry :: "'a table \<Rightarrow> string \<Rightarrow> string \<Rightarrow> 'a option" where
  "entry t c i = map_of (column t c) i"

lemma entry_put: "entry (put c i v t) c' i' = (if c' = c \<and> i' = i then Some v else entry t c' i')"
  by (simp add: entry_def column_put update_conv')

lemma entry_drop_id: "entry (drop_id c i t) c' i' = (if c' = c \<and> i' = i then None else entry t c' i')"
  by (simp add: entry_def column_drop_id delete_conv')

lemma entry_Nil [simp]: "entry [] c i = None"
  by (simp add: entry_def column_def)

definition view :: "mem_state \<Rightarrow> string \<Rightarrow> string \<Rightarrow> string option" where
  "view st c i =
     (case ms_tx st of
        None \<Rightarrow> entry (ms_data st) c i
      | Some t \<Rightarrow> (case entry (tx_writes t) c i of Some p \<Rightarrow> p | None \<Rightarrow> entry (ms_data st) c i))"

definition state_ok :: "mem_state \<Rightarrow> bool" where
  "state_ok st \<longleftrightarrow> keys_ok (ms_data st) \<and> (\<forall>t. ms_tx st = Some t \<longrightarrow> keys_ok (tx_writes t))"

section \<open>The contract of a collection\<close>

text \<open>
  What \<open>store.go\<close> promises of a \<open>Collection\<close>, over a view of the documents by collection and id.
  The laws are those of a map; a client's sequence of operations then behaves as on a map.
\<close>

type_synonym docs = "string \<Rightarrow> string \<Rightarrow> string option"

definition set_doc :: "docs \<Rightarrow> string \<Rightarrow> string \<Rightarrow> string option \<Rightarrow> docs" where
  "set_doc v c i x = v(c := (v c)(i := x))"

datatype doc_op = OpGet string string | OpInsert string Document | OpReplace string Document | OpDelete string string

datatype reply = Found Document | Failed doc_error | Done

definition reply_of :: "doc_error option \<Rightarrow> reply" where
  "reply_of e = (case e of None \<Rightarrow> Done | Some e \<Rightarrow> Failed e)"

text \<open>The abstract operation: the reply and the new documents.\<close>

fun spec_op :: "doc_op \<Rightarrow> docs \<Rightarrow> reply \<times> docs" where
  "spec_op (OpGet c i) v =
     ((case v c i of None \<Rightarrow> Failed ErrNotFound | Some p \<Rightarrow> Found \<lparr>doc_ID = i, doc_Data = p\<rparr>), v)"
| "spec_op (OpInsert c d) v =
     (if doc_ID d = [] then (Failed ErrIDRequired, v)
      else if v c (doc_ID d) \<noteq> None then (Failed ErrAlreadyExists, v)
      else (Done, set_doc v c (doc_ID d) (Some (doc_Data d))))"
| "spec_op (OpReplace c d) v =
     (if doc_ID d = [] then (Failed ErrIDRequired, v) else (Done, set_doc v c (doc_ID d) (Some (doc_Data d))))"
| "spec_op (OpDelete c i) v =
     (if v c i = None then (Failed ErrNotFound, v) else (Done, set_doc v c i None))"

primrec run_ops :: "(doc_op \<Rightarrow> 'st \<Rightarrow> reply \<times> 'st) \<Rightarrow> doc_op list \<Rightarrow> 'st \<Rightarrow> reply list \<times> 'st" where
  "run_ops f [] st = ([], st)"
| "run_ops f (x # xs) st = (let (r, st1) = f x st; (rs, st2) = run_ops f xs st1 in (r # rs, st2))"

locale collection =
  fixes vw :: "'st \<Rightarrow> docs" and inv :: "'st \<Rightarrow> bool" and impl :: "doc_op \<Rightarrow> 'st \<Rightarrow> reply \<times> 'st"
  assumes keeps: "inv st \<Longrightarrow> inv (snd (impl x st))"
    and simulates: "inv st \<Longrightarrow> fst (impl x st) = fst (spec_op x (vw st)) \<and> vw (snd (impl x st)) = snd (spec_op x (vw st))"
begin

text \<open>A whole sequence of operations gets the replies of the map, and ends in the map's documents.\<close>

lemma run_simulates:
  "inv st \<Longrightarrow> fst (run_ops impl xs st) = fst (run_ops spec_op xs (vw st)) \<and>
     vw (snd (run_ops impl xs st)) = snd (run_ops spec_op xs (vw st)) \<and> inv (snd (run_ops impl xs st))"
proof (induction xs arbitrary: st)
  case (Cons x xs)
  have "inv (snd (impl x st))" using Cons.prems by (rule keeps)
  from Cons.IH [OF this] simulates [OF Cons.prems, of x] show ?case
    by (simp add: Let_def case_prod_unfold)
qed simp

end

fun mem_op :: "doc_op \<Rightarrow> mem_state \<Rightarrow> reply \<times> mem_state" where
  "mem_op (OpGet c i) st = ((case Get c i st of Inl e \<Rightarrow> Failed e | Inr d \<Rightarrow> Found d), st)"
| "mem_op (OpInsert c d) st = apfst reply_of (Insert c d st)"
| "mem_op (OpReplace c d) st = apfst reply_of (Replace c d st)"
| "mem_op (OpDelete c i) st = apfst reply_of (Delete c i st)"

lemma Get_view: "Get c i st = (case view st c i of None \<Rightarrow> Inl ErrNotFound | Some p \<Rightarrow> Inr \<lparr>doc_ID = i, doc_Data = p\<rparr>)"
  by (auto simp: Get_def view_def committed_get_def staged_def entry_def split: option.splits)

lemma write_doc_view: "view (write_doc c d st) = set_doc (view st) c (doc_ID d) (Some (doc_Data d))"
  by (auto simp: fun_eq_iff view_def write_doc_def stage_def entry_put set_doc_def split: option.splits)

lemma write_doc_ok: "state_ok st \<Longrightarrow> state_ok (write_doc c d st)"
  by (auto simp: state_ok_def write_doc_def stage_def keys_ok_put split: option.splits)

lemma Delete_view:
  "Delete c i st = (if view st c i = None then (Some ErrNotFound, st)
     else (None, case ms_tx st of Some t \<Rightarrow> st\<lparr>ms_tx := Some (stage c i None t)\<rparr>
                 | None \<Rightarrow> st\<lparr>ms_data := drop_id c i (ms_data st)\<rparr>))"
  by (auto simp: Delete_def getForDelete_def view_def staged_def entry_def split: option.splits)

lemma Delete_effect:
  assumes "view st c i \<noteq> None"
  shows "view (snd (Delete c i st)) = set_doc (view st) c i None"
  using assms
  by (auto simp: Delete_view fun_eq_iff view_def stage_def entry_put entry_drop_id set_doc_def split: option.splits)

lemma Delete_ok: "state_ok st \<Longrightarrow> state_ok (snd (Delete c i st))"
  by (auto simp: Delete_view state_ok_def stage_def keys_ok_put keys_ok_drop_id split: option.splits)

interpretation memory: collection view state_ok mem_op
proof
  fix st x assume ok: "state_ok st"
  show "state_ok (snd (mem_op x st))"
    using ok by (cases x) (auto simp: Insert_def Replace_def write_doc_ok Delete_ok split: sum.splits)
  show "fst (mem_op x st) = fst (spec_op x (view st)) \<and> view (snd (mem_op x st)) = snd (spec_op x (view st))"
  proof (cases x)
    case (OpDelete c i)
    then show ?thesis using Delete_effect [of st c i] by (simp add: Delete_view reply_of_def)
  qed (auto simp: Insert_def Replace_def Get_view write_doc_view reply_of_def split: option.splits)
qed

text \<open>
  C9: the in-memory store implements the document contract. For every sequence of gets, inserts,
  replaces and deletes, outside a transaction and inside one, each call gets the reply that a
  plain map of documents gives (duplicate inserts, missing documents and empty ids included),
  and the documents visible afterwards are the map's.
\<close>

theorem store_refines_map:
  assumes "state_ok st"
  shows "fst (run_ops mem_op xs st) = fst (run_ops spec_op xs (view st)) \<and>
    view (snd (run_ops mem_op xs st)) = snd (run_ops spec_op xs (view st))"
  using memory.run_simulates [OF assms, of xs] by simp_all

theorem store_refines_map_witness:
  "fst (run_ops mem_op [OpInsert ''u'' \<lparr>doc_ID = ''1'', doc_Data = ''a''\<rparr>, OpInsert ''u'' \<lparr>doc_ID = ''1'', doc_Data = ''b''\<rparr>,
     OpGet ''u'' ''1'', OpDelete ''u'' ''1'', OpDelete ''u'' ''1''] NewInMemoryStore) =
   [Done, Failed ErrAlreadyExists, Found \<lparr>doc_ID = ''1'', doc_Data = ''a''\<rparr>, Done, Failed ErrNotFound]"
proof -
  have ok: "state_ok NewInMemoryStore" and v: "view NewInMemoryStore = (\<lambda>c i. None)"
    by (simp_all add: state_ok_def NewInMemoryStore_def view_def fun_eq_iff)
  show ?thesis
    by (subst conjunct1 [OF store_refines_map [OF ok]]) (simp add: v set_doc_def)
qed

section \<open>Transactions\<close>

lemma entry_apply_writes:
  "distinct (map fst ws) \<Longrightarrow> entry (fold (apply_write c) ws d) c' i =
     (if c' = c then (case map_of ws i of Some p \<Rightarrow> p | None \<Rightarrow> entry d c i) else entry d c' i)"
proof (induction ws arbitrary: d)
  case (Cons w ws)
  have "map_of ws (fst w) = None" using Cons.prems by (simp add: map_of_eq_None_iff)
  with Cons show ?case
    by (cases w; cases "snd w") (auto simp: apply_write_def entry_put entry_drop_id split: option.splits)
qed simp

lemma keys_ok_apply_writes: "keys_ok d \<Longrightarrow> keys_ok (fold (apply_write c) ws d)"
  by (induction ws arbitrary: d) (auto simp: apply_write_def keys_ok_put keys_ok_drop_id split: option.splits)

lemma column_Cons: "column ((c, ws) # t) c' = (if c' = c then ws else column t c')"
  by (simp add: column_def)

text \<open>What a commit leaves, whatever the order in which the staged writes are applied.\<close>

lemma entry_commit:
  assumes "keys_ok (tx_writes t)"
  shows "entry (commit t d) c i = (case entry (tx_writes t) c i of Some p \<Rightarrow> p | None \<Rightarrow> entry d c i)"
proof -
  have "entry (fold (\<lambda>(c, ws) d. fold (apply_write c) ws d) W d) c i =
      (case entry W c i of Some p \<Rightarrow> p | None \<Rightarrow> entry d c i)"
    if "distinct (map fst W)" "\<forall>c ws. (c, ws) \<in> set W \<longrightarrow> distinct (map fst ws)" for W d
    using that
  proof (induction W arbitrary: d)
    case (Cons w W)
    obtain c0 ws where w: "w = (c0, ws)" by (cases w)
    have "map_of W c0 = None" using Cons.prems(1) w by (simp add: map_of_eq_None_iff)
    then have out: "entry W c0 i = None" by (simp add: entry_def column_def)
    have "distinct (map fst ws)" using Cons.prems(2) w by auto
    with Cons out w show ?case
      by (auto simp: entry_apply_writes entry_def [of "(c0, ws) # W"] column_Cons split: option.splits)
        (simp add: entry_def)+
  qed simp
  moreover have "distinct (map fst ws)" if "(c, ws) \<in> set (tx_writes t)" for c ws
    using assms that by (auto simp: keys_ok_def column_def dest: map_of_is_SomeI) (metis map_of_is_SomeI option.simps(5))
  ultimately show ?thesis using assms by (simp add: commit_def keys_ok_def)
qed

lemma keys_ok_commit: "keys_ok d \<Longrightarrow> keys_ok (commit t d)"
proof -
  have "keys_ok d \<Longrightarrow> keys_ok (fold (\<lambda>(c, ws) d. fold (apply_write c) ws d) W d)" for W
    by (induction W arbitrary: d) (auto simp: keys_ok_apply_writes)
  then show "keys_ok d \<Longrightarrow> keys_ok (commit t d)" by (simp add: commit_def)
qed

text \<open>Inside a transaction the committed data stay as they are.\<close>

lemma mem_op_in_tx:
  "ms_tx st = Some t \<Longrightarrow> ms_data (snd (mem_op x st)) = ms_data st \<and> ms_tx (snd (mem_op x st)) \<noteq> None"
  by (cases x) (auto simp: Insert_def Replace_def write_doc_def Delete_view split: sum.splits option.splits)

lemma run_ops_in_tx:
  "ms_tx st \<noteq> None \<Longrightarrow> ms_data (snd (run_ops mem_op xs st)) = ms_data st \<and> ms_tx (snd (run_ops mem_op xs st)) \<noteq> None"
proof (induction xs arbitrary: st)
  case (Cons x xs)
  then have "ms_data (snd (mem_op x st)) = ms_data st \<and> ms_tx (snd (mem_op x st)) \<noteq> None"
    using mem_op_in_tx by blast
  with Cons.IH show ?case by (simp add: Let_def case_prod_unfold)
qed simp

text \<open>A callback that runs operations and then returns \<open>r\<close>, where \<open>r\<close> may depend on the replies.\<close>

definition ops_callback :: "doc_op list \<Rightarrow> (reply list \<Rightarrow> fn_result) \<Rightarrow> callback" where
  "ops_callback xs r st = (let (rs, st') = run_ops mem_op xs st in (r rs, st'))"

text \<open>
  C3: a transaction is all or nothing. A callback that runs any operations and then decides from
  their replies to return, fail or panic gets the replies a map gives. If it returns, the store
  ends in the map's documents; if it fails or panics, the store is as it was before; in each
  case the caller gets the callback's own result and the surrounding context back.
\<close>

theorem transaction_atomic:
  assumes "state_ok st" and "ms_tx st = None"
  shows "let (rs, docs) = run_ops spec_op xs (view st);
             (r, st') = InMemoryStore_WithTx (Some (ops_callback xs f)) st
         in r = f rs \<and> ms_tx st' = None \<and> (if f rs = FnOk then view st' = docs else st' = st)"
proof -
  let ?s0 = "st\<lparr>ms_tx := Some \<lparr>tx_writes = []\<rparr>\<rparr>"
  obtain rs st1 where run: "run_ops mem_op xs ?s0 = (rs, st1)" by fastforce
  have ok0: "state_ok ?s0" using assms(1) by (simp add: state_ok_def)
  have v0: "view ?s0 = view st" using assms(2) by (simp add: view_def fun_eq_iff)
  have sim: "rs = fst (run_ops spec_op xs (view st))" "view st1 = snd (run_ops spec_op xs (view st))" "state_ok st1"
    using memory.run_simulates [OF ok0, of xs] by (simp_all add: run v0)
  obtain t where t: "ms_tx st1 = Some t" and data: "ms_data st1 = ms_data st"
    using run_ops_in_tx [of ?s0 xs] by (auto simp: run)
  have "keys_ok (tx_writes t)" using sim(3) t by (simp add: state_ok_def)
  then have "view \<lparr>ms_data = commit t (ms_data st), ms_tx = None\<rparr> = view st1"
    by (auto simp: fun_eq_iff view_def entry_commit t data split: option.splits)
  then show ?thesis
    using sim t data assms(2)
    by (cases "f rs") (auto simp: InMemoryStore_WithTx_def ops_callback_def run Let_def case_prod_unfold)
qed

theorem transaction_atomic_witness:
  "InMemoryStore_WithTx (Some (ops_callback [OpInsert ''u'' \<lparr>doc_ID = ''1'', doc_Data = ''a''\<rparr>] (\<lambda>rs. FnPanic)))
     NewInMemoryStore = (FnPanic, NewInMemoryStore)"
proof -
  have ok: "state_ok NewInMemoryStore" "ms_tx NewInMemoryStore = None"
    by (simp_all add: state_ok_def NewInMemoryStore_def)
  show ?thesis
    using transaction_atomic [OF ok, of "[OpInsert ''u'' \<lparr>doc_ID = ''1'', doc_Data = ''a''\<rparr>]" "\<lambda>rs. FnPanic"]
    by (simp add: Let_def case_prod_unfold prod_eq_iff)
qed

section \<open>Queries\<close>

lemma map_of_overlay:
  "map_of (overlay (i, p) vs) = (map_of vs)(i := p)"
  by (cases p) (simp_all add: overlay_def update_conv' delete_conv' fun_eq_iff)

lemma map_of_fold_overlay:
  "distinct (map fst ws) \<Longrightarrow> map_of (fold overlay ws vs) i = (case map_of ws i of Some p \<Rightarrow> p | None \<Rightarrow> map_of vs i)"
proof (induction ws arbitrary: vs)
  case (Cons w ws)
  have "map_of ws (fst w) = None" using Cons.prems by (simp add: map_of_eq_None_iff)
  with Cons show ?case by (cases w) (auto simp: map_of_overlay split: option.splits)
qed simp

lemma distinct_fold_overlay: "distinct (map fst vs) \<Longrightarrow> distinct (map fst (fold overlay ws vs))"
  by (induction ws arbitrary: vs) (auto simp: overlay_def distinct_update distinct_delete split: option.splits)

lemma effective_view_correct:
  assumes "state_ok st"
  shows "map_of (effective_view c st) i = view st c i" and "distinct (map fst (effective_view c st))"
  using assms
  by (auto simp: effective_view_def view_def entry_def state_ok_def keys_ok_def map_of_fold_overlay
      distinct_fold_overlay split: option.splits)

text \<open>
  \<open>Find\<close> answers from the effective view: the documents come in strictly ascending order of
  their ids, and they are exactly the visible documents (committed ones overlaid with the
  transaction's own writes) that match every condition of the query.
\<close>

theorem find_exact:
  assumes "state_ok st"
  shows "sorted_wrt (<) (map doc_ID (Find jl c q st)) \<and>
    (\<forall>d. d \<in> set (Find jl c q st) \<longleftrightarrow>
       view st c (doc_ID d) = Some (doc_Data d) \<and> matchesFilter jl (doc_Data d) (q_Fields q))"
proof -
  let ?v = "effective_view c st"
  note v = effective_view_correct [OF assms, of c]
  have ids: "map doc_ID (Find jl c q st) = filter (\<lambda>i. matchesFilter jl (the (map_of ?v i)) (q_Fields q)) (sort (map fst ?v))"
    by (simp add: Find_def Let_def o_def)
  have "sorted_wrt (<) (map doc_ID (Find jl c q st))"
    unfolding ids using v(2) by (simp add: strict_sorted_iff sorted_wrt_filter)
  moreover have "d \<in> set (Find jl c q st) \<longleftrightarrow> view st c (doc_ID d) = Some (doc_Data d) \<and> matchesFilter jl (doc_Data d) (q_Fields q)" for d
  proof -
    have "doc_ID d \<in> fst ` set ?v \<longleftrightarrow> view st c (doc_ID d) \<noteq> None"
      using v(1) [of "doc_ID d"] by (metis map_of_eq_None_iff)
    then show ?thesis by (cases d) (auto simp: Find_def Let_def v(1))
  qed
  ultimately show ?thesis by blast
qed

definition plain_json :: "string json_lib" where
  "plain_json = \<lparr>jl_unmarshal = (\<lambda>p. Some [(''k'', p)]), jl_marshal = Some\<rparr>"

theorem find_exact_witness:
  "map doc_ID (Find plain_json ''u'' \<lparr>q_Fields = [(''k'', ''x'')]\<rparr>
     \<lparr>ms_data = [(''u'', [(''b'', ''x''), (''c'', ''y''), (''a'', ''x'')])], ms_tx = None\<rparr>) = [''a'', ''b''] \<and>
   sorted_wrt (<) [''a'', ''b'']"
proof -
  let ?st = "\<lparr>ms_data = [(''u'', [(''b'', ''x''), (''c'', ''y''), (''a'', ''x'')])], ms_tx = None\<rparr>"
  have ok: "state_ok ?st" by (auto simp: state_ok_def keys_ok_def column_def)
  have ids: "map doc_ID (Find plain_json ''u'' \<lparr>q_Fields = [(''k'', ''x'')]\<rparr> ?st) = [''a'', ''b'']" by code_simp
  from conjunct1 [OF find_exact [OF ok, of plain_json "''u''" "\<lparr>q_Fields = [(''k'', ''x'')]\<rparr>"]] ids
  show ?thesis by metis
qed

section \<open>Concurrency\<close>

text \<open>
  Goroutines interleave at the lock boundaries. An \<open>Insert\<close> outside a transaction takes the read
  lock for its duplicate check and, after releasing it, the write lock for the write: two
  atomic steps. A thread is idle, between the two, or finished with its result.
\<close>

datatype insert_thread = Start string Document | Checked string Document | Finished "doc_error option"

fun thread_step :: "insert_thread \<Rightarrow> mem_state \<Rightarrow> insert_thread \<times> mem_state" where
  "thread_step (Start c d) st =
     (if doc_ID d = [] then (Finished (Some ErrIDRequired), st)
      else (case Get c (doc_ID d) st of
          Inr x \<Rightarrow> (Finished (Some ErrAlreadyExists), st)
        | Inl e \<Rightarrow> if e \<noteq> ErrNotFound then (Finished (Some e), st) else (Checked c d, st)))"
| "thread_step (Checked c d) st = (Finished None, write_doc c d st)"
| "thread_step (Finished r) st = (Finished r, st)"

text \<open>One thread running alone is the sequential \<open>Insert\<close>.\<close>

lemma thread_alone:
  "(let (t1, st1) = thread_step (Start c d) st; (t2, st2) = thread_step t1 st1 in (t2, st2)) =
   (Finished (fst (Insert c d st)), snd (Insert c d st))"
  by (auto simp: Insert_def split: sum.splits)

inductive insert_run :: "insert_thread list \<times> mem_state \<Rightarrow> insert_thread list \<times> mem_state \<Rightarrow> bool" where
  refl: "insert_run s s"
| step: "insert_run s (ts, st) \<Longrightarrow> i < length ts \<Longrightarrow> thread_step (ts ! i) st = (t', st') \<Longrightarrow>
     insert_run s (ts[i := t'], st')"

text \<open>
  concurrent inserts break the promise of \<open>Insert\<close>. For any two documents with one fresh id
  there is an interleaving in which both inserts report success and the second overwrites the
  first, where the contract has the second fail with \<open>ErrAlreadyExists\<close>.
\<close>

theorem concurrent_inserts_both_succeed:
  assumes "doc_ID d1 = i" and "doc_ID d2 = i" and "i \<noteq> []" and "ms_tx st = None" and "view st c i = None"
  shows "\<exists>st'. insert_run ([Start c d1, Start c d2], st) ([Finished None, Finished None], st') \<and>
    view st' c i = Some (doc_Data d2)"
proof -
  have chk: "thread_step (Start c d) st = (Checked c d, st)" if "doc_ID d = i" for d
    using assms that by (simp add: Get_view)
  have wr: "thread_step (Checked c d) s = (Finished None, write_doc c d s)" for d s by simp
  have "insert_run ([Start c d1, Start c d2], st) ([Checked c d1, Start c d2], st)"
    using insert_run.step [OF insert_run.refl, of 0 "[Start c d1, Start c d2]" st] chk [OF assms(1)] by simp
  then have "insert_run ([Start c d1, Start c d2], st) ([Checked c d1, Checked c d2], st)"
    using insert_run.step [of _ "[Checked c d1, Start c d2]" st 1] chk [OF assms(2)] by simp
  then have "insert_run ([Start c d1, Start c d2], st) ([Finished None, Checked c d2], write_doc c d1 st)"
    using insert_run.step [of _ "[Checked c d1, Checked c d2]" st 0] by simp
  then have "insert_run ([Start c d1, Start c d2], st) ([Finished None, Finished None], write_doc c d2 (write_doc c d1 st))"
    using insert_run.step [of _ "[Finished None, Checked c d2]" "write_doc c d1 st" 1] by simp
  moreover have "view (write_doc c d2 (write_doc c d1 st)) c i = Some (doc_Data d2)"
    by (simp add: write_doc_view set_doc_def assms(2))
  ultimately show ?thesis by blast
qed

theorem concurrent_inserts_both_succeed_witness:
  "\<exists>st'. insert_run ([Start ''u'' \<lparr>doc_ID = ''1'', doc_Data = ''a''\<rparr>, Start ''u'' \<lparr>doc_ID = ''1'', doc_Data = ''b''\<rparr>],
      NewInMemoryStore) ([Finished None, Finished None], st') \<and> view st' ''u'' ''1'' = Some ''b''"
  using concurrent_inserts_both_succeed [of "\<lparr>doc_ID = ''1'', doc_Data = ''a''\<rparr>" "''1''" "\<lparr>doc_ID = ''1'', doc_Data = ''b''\<rparr>"
      NewInMemoryStore "''u''"]
  by (simp add: NewInMemoryStore_def view_def)

text \<open>
  a nested transaction escapes its parent. A callback that opens a second \<open>WithTx\<close> in its
  transaction's context and then fails has the inner writes committed: the rollback of the
  outer transaction does not take them back.
\<close>

theorem nested_tx_escapes_rollback:
  assumes "doc_ID d \<noteq> []"
  shows "let inner = InMemoryStore_WithTx (Some (ops_callback [OpReplace c d] (\<lambda>rs. FnOk)));
             outer = (\<lambda>st. (FnErr e, snd (inner st)));
             (r, st') = InMemoryStore_WithTx (Some outer) \<lparr>ms_data = data, ms_tx = None\<rparr>
         in r = FnErr e \<and> view st' c (doc_ID d) = Some (doc_Data d)"
  using assms
  by (simp add: InMemoryStore_WithTx_def ops_callback_def Replace_def write_doc_def stage_def commit_def put_def column_def
      apply_write_def view_def entry_def Let_def update_conv')

theorem nested_tx_escapes_rollback_witness:
  "view (snd (InMemoryStore_WithTx (Some (\<lambda>st. (FnErr ErrNotFound,
     snd (InMemoryStore_WithTx (Some (ops_callback [OpReplace ''u'' \<lparr>doc_ID = ''1'', doc_Data = ''a''\<rparr>] (\<lambda>rs. FnOk))) st))))
     NewInMemoryStore)) ''u'' ''1'' = Some ''a''"
  using nested_tx_escapes_rollback [of "\<lparr>doc_ID = ''1'', doc_Data = ''a''\<rparr>" "''u''" ErrNotFound "[]"]
  by (simp add: NewInMemoryStore_def Let_def case_prod_unfold)

end
