(* ===== verification/Totp_Rotation.thy ===== *)
theory Totp_Rotation
  imports Auth_Safety
begin

text \<open>
  The command \<open>cmd/rotatetotpkey\<close>: its loop over the stored TOTP secrets, against the repository as an interface
  (\<open>totp_repository\<close>) with the database of \<open>Auth_Repo\<close> as its interpretation. Flags, progress lines and the printed
  report are left out.
\<close>

section \<open>The loop\<close>

type_synonym row = "string \<times> string"   \<comment> \<open>user id and ciphertext\<close>

text \<open>The part of \<open>MFARepository\<close> that rotation uses.\<close>

record 't mfa_repo =
  mr_list :: "string \<Rightarrow> int \<Rightarrow> 't \<Rightarrow> (auth_error + row list) \<times> 't"
  mr_rotate :: "string \<Rightarrow> string \<Rightarrow> string \<Rightarrow> 't \<Rightarrow> (auth_error + bool) \<times> 't"

definition db_repo :: "pglib \<Rightarrow> auth_db mfa_repo" where
  "db_repo L = \<lparr>mr_list = ListTOTPSecrets L, mr_rotate = RotateTOTPSecret L\<rparr>"

record rotation =
  ro_Scanned :: nat
  ro_Current :: nat
  ro_Rotated :: nat
  ro_Skipped :: nat
  ro_Failed :: nat
  ro_Failures :: "(string \<times> auth_error) list"   \<comment> \<open>user and reason\<close>

definition no_rotation :: rotation where
  "no_rotation = \<lparr>ro_Scanned = 0, ro_Current = 0, ro_Rotated = 0, ro_Skipped = 0, ro_Failed = 0, ro_Failures = []\<rparr>"

definition fail :: "string \<Rightarrow> auth_error \<Rightarrow> rotation \<Rightarrow> rotation" where
  "fail userID err res = res\<lparr>ro_Failed := ro_Failed res + 1, ro_Failures := ro_Failures res @ [(userID, err)]\<rparr>"

text \<open>The body of the inner loop. \<open>nonces\<close> gives what the random source delivers when the row of a user is sealed.\<close>

definition rotate_row :: "aead_lib \<Rightarrow> aesGCMCipher \<Rightarrow> (string \<Rightarrow> string option) \<Rightarrow> 't mfa_repo \<Rightarrow> bool \<Rightarrow> row
    \<Rightarrow> rotation \<times> 't \<Rightarrow> rotation \<times> 't" where
  "rotate_row A c nonces repo dryRun row st =
     (let (userID, ciphertext) = row; (res0, t) = st; res = res0\<lparr>ro_Scanned := ro_Scanned res0 + 1\<rparr> in
      if \<not> NeedsRotation c ciphertext then (res\<lparr>ro_Current := ro_Current res + 1\<rparr>, t)
      else (case Open A c userID ciphertext of
          Inl e \<Rightarrow> (fail userID (CipherFailed e) res, t)
        | Inr plaintext \<Rightarrow>
            if dryRun then (res\<lparr>ro_Rotated := ro_Rotated res + 1\<rparr>, t)
            else (case Seal A c (nonces userID) userID plaintext of
                Inl e \<Rightarrow> (fail userID (CipherFailed e) res, t)
              | Inr succ \<Rightarrow>
                  (case mr_rotate repo userID ciphertext succ t of
                     (Inl e, t') \<Rightarrow> (fail userID e res, t')
                   | (Inr swapped, t') \<Rightarrow>
                       (if swapped then res\<lparr>ro_Rotated := ro_Rotated res + 1\<rparr> else res\<lparr>ro_Skipped := ro_Skipped res + 1\<rparr>, t')))))"

text \<open>The outer loop ends only if the pages run out, so it is partial; the first component of a result is its error. \<open>ctxErr\<close> is
  what \<open>ctx.Err\<close> says before a batch. The progress lines are output and leave no state.\<close>

partial_function (option) rotate :: "aead_lib \<Rightarrow> aesGCMCipher \<Rightarrow> (string \<Rightarrow> string option) \<Rightarrow> (nat \<Rightarrow> auth_error option) \<Rightarrow> 't mfa_repo \<Rightarrow> int \<Rightarrow> bool
    \<Rightarrow> nat \<Rightarrow> string \<Rightarrow> rotation \<times> 't \<Rightarrow> (auth_error option \<times> rotation \<times> 't) option" where
  "rotate A c nonces ctxErr repo batchSize dryRun batch after st =
     (case ctxErr batch of
        Some e \<Rightarrow> Some (Some e, st)
      | None \<Rightarrow>
          (case mr_list repo after batchSize (snd st) of
             (Inl e, t) \<Rightarrow> Some (Some (Wrapped (''read batch '' @ itoa (int batch)) e), fst st, t)
           | (Inr rows, t) \<Rightarrow>
               if rows = [] then Some (None, fst st, t)
               else rotate A c nonces ctxErr repo batchSize dryRun (batch + 1) (fst (last rows)) (fold (rotate_row A c nonces repo dryRun) rows (fst st, t))))"

section \<open>Rotation\<close>

abbreviation last_id :: "row list \<Rightarrow> string" where
  "last_id pre \<equiv> (if pre = [] then [] else fst (last pre))"

text \<open>What one row becomes and what it adds to the report.\<close>

definition rotated_row :: "aead_lib \<Rightarrow> aesGCMCipher \<Rightarrow> (string \<Rightarrow> string option) \<Rightarrow> row \<Rightarrow> row" where
  "rotated_row A c nonces row =
     (let (u, ct) = row in
      (u, if NeedsRotation c ct then
            (case Open A c u ct of
               Inl e \<Rightarrow> ct
             | Inr p \<Rightarrow> (case Seal A c (nonces u) u p of Inl e \<Rightarrow> ct | Inr ct' \<Rightarrow> ct'))
          else ct))"

definition tally :: "aead_lib \<Rightarrow> aesGCMCipher \<Rightarrow> (string \<Rightarrow> string option) \<Rightarrow> row \<Rightarrow> rotation \<Rightarrow> rotation" where
  "tally A c nonces row res0 =
     (let (u, ct) = row; res = res0\<lparr>ro_Scanned := ro_Scanned res0 + 1\<rparr> in
      if \<not> NeedsRotation c ct then res\<lparr>ro_Current := ro_Current res + 1\<rparr>
      else (case Open A c u ct of
          Inl e \<Rightarrow> fail u (CipherFailed e) res
        | Inr p \<Rightarrow> (case Seal A c (nonces u) u p of Inl e \<Rightarrow> fail u (CipherFailed e) res | Inr ct' \<Rightarrow> res\<lparr>ro_Rotated := ro_Rotated res + 1\<rparr>)))"

lemma fst_rotated_row [simp]: "fst (rotated_row A c nonces row) = fst row"
  by (simp add: rotated_row_def case_prod_unfold Let_def)

lemma map_fst_rotated [simp]: "map fst (map (rotated_row A c nonces) rs) = map fst rs"
  by simp

text \<open>What the rotation relies on of a repository whose contents are \<open>rows\<close>: pages after an id, and a compare-and-swap.\<close>

locale totp_repository =
  fixes repo :: "'t mfa_repo" and rows :: "'t \<Rightarrow> row list" and ready :: "'t \<Rightarrow> bool" and frame :: "'t \<Rightarrow> 'f"
  assumes page: "ready t \<Longrightarrow> rows t = pre @ suf \<Longrightarrow> 1 \<le> limit \<Longrightarrow>
      mr_list repo (last_id pre) limit t = (Inr (take (nat (min limit 1000000)) suf), t)"
    and swap: "ready t \<Longrightarrow> rows t = pre @ (u, ct) # suf \<Longrightarrow>
      \<exists>t'. mr_rotate repo u ct ct' t = (Inr True, t') \<and> rows t' = pre @ (u, ct') # suf \<and> ready t' \<and> frame t' = frame t"
    and stale: "ready t \<Longrightarrow> map_of (rows t) u = Some v \<Longrightarrow> v \<noteq> ct \<Longrightarrow> mr_rotate repo u ct ct' t = (Inr False, t)"
begin

text \<open>A secret that changed since it was listed is left alone and counted as skipped.\<close>

lemma stale_row_skipped:
  assumes "ready t" and "map_of (rows t) u = Some v" and "v \<noteq> ct" and "NeedsRotation c ct" and "Open A c u ct = Inr p"
    and "Seal A c (nonces u) u p = Inr ct'"
  shows "rotate_row A c nonces repo False (u, ct) (res, t) = (res\<lparr>ro_Scanned := ro_Scanned res + 1, ro_Skipped := ro_Skipped res + 1\<rparr>, t)"
  using stale [OF assms(1-3), of ct'] assms(4-6) by (simp add: rotate_row_def)

lemma row_step:
  assumes "ready t" and "rows t = pre @ row # suf"
  shows "\<exists>t'. rotate_row A c nonces repo False row (res, t) = (tally A c nonces row res, t') \<and>
    rows t' = pre @ rotated_row A c nonces row # suf \<and> ready t' \<and> frame t' = frame t"
proof -
  obtain u ct where row: "row = (u, ct)" by fastforce
  show ?thesis
  proof (cases "NeedsRotation c ct \<and> (\<exists>p ct'. Open A c u ct = Inr p \<and> Seal A c (nonces u) u p = Inr ct')")
    case True
    then obtain p ct' where p: "NeedsRotation c ct" "Open A c u ct = Inr p" "Seal A c (nonces u) u p = Inr ct'" by blast
    from swap [OF assms(1), of pre u ct suf ct'] assms(2) obtain t' where "mr_rotate repo u ct ct' t = (Inr True, t')" "rows t' = pre @ (u, ct') # suf" "ready t'" "frame t' = frame t"
      by (auto simp: row)
    with p show ?thesis by (simp add: rotate_row_def tally_def rotated_row_def row)
  next
    case False
    with assms show ?thesis
      by (intro exI [of _ t]) (auto simp: rotate_row_def tally_def rotated_row_def row Let_def split: sum.splits)
  qed
qed

lemma batch_step:
  assumes "ready t" and "rows t = pre @ rs @ suf"
  shows "\<exists>t'. fold (rotate_row A c nonces repo False) rs (res, t) = (fold (tally A c nonces) rs res, t') \<and>
    rows t' = pre @ map (rotated_row A c nonces) rs @ suf \<and> ready t' \<and> frame t' = frame t"
  using assms
proof (induction rs arbitrary: pre res t)
  case (Cons row rs)
  from row_step [OF Cons.prems(1), of pre row "rs @ suf" A c nonces res] Cons.prems(2)
  obtain t1 where t1: "rotate_row A c nonces repo False row (res, t) = (tally A c nonces row res, t1)"
      "rows t1 = (pre @ [rotated_row A c nonces row]) @ rs @ suf" "ready t1" "frame t1 = frame t" by auto
  from Cons.IH [OF t1(3,2), of "tally A c nonces row res"] t1(1,4) show ?case by auto
qed simp

lemma rotate_returns:
  assumes "ready t" and "rows t = pre @ suf" and "1 \<le> batch" and "\<forall>b. ctxErr b = None"
  shows "\<exists>t'. rotate A c nonces ctxErr repo batch False b (last_id pre) (res, t) = Some (None, fold (tally A c nonces) suf res, t') \<and>
    rows t' = pre @ map (rotated_row A c nonces) suf \<and> ready t' \<and> frame t' = frame t"
  using assms(1,2)
proof (induction "length suf" arbitrary: b pre suf res t rule: less_induct)
  case less
  let ?k = "nat (min batch 1000000)"
  have page: "mr_list repo (last_id pre) batch t = (Inr (take ?k suf), t)" using page [OF less.prems assms(3)] .
  show ?case
  proof (cases "suf = []")
    case True
    with page less.prems assms(4) show ?thesis by (subst rotate.simps) simp
  next
    case False
    then have k: "take ?k suf \<noteq> []" using assms(3) by simp
    have split: "suf = take ?k suf @ drop ?k suf" by simp
    from batch_step [OF less.prems(1), of pre "take ?k suf" "drop ?k suf" A c nonces res] less.prems(2) obtain t1
      where t1: "fold (rotate_row A c nonces repo False) (take ?k suf) (res, t) = (fold (tally A c nonces) (take ?k suf) res, t1)"
        "rows t1 = (pre @ map (rotated_row A c nonces) (take ?k suf)) @ drop ?k suf" "ready t1" "frame t1 = frame t" by auto
    have after: "last_id (pre @ map (rotated_row A c nonces) (take ?k suf)) = fst (last (take ?k suf))"
      using k by (simp add: last_map)
    have "length (drop ?k suf) < length suf" using False assms(3) by simp
    from less.hyps [OF this t1(3,2), of "b + 1" "fold (tally A c nonces) (take ?k suf) res"]
    obtain t' where t': "rotate A c nonces ctxErr repo batch False (b + 1) (fst (last (take ?k suf))) (fold (tally A c nonces) (take ?k suf) res, t1) =
        Some (None, fold (tally A c nonces) (drop ?k suf) (fold (tally A c nonces) (take ?k suf) res), t')"
      "rows t' = (pre @ map (rotated_row A c nonces) (take ?k suf)) @ map (rotated_row A c nonces) (drop ?k suf)" "frame t' = frame t1" "ready t'"
      unfolding after by blast
    have "rotate A c nonces ctxErr repo batch False b (last_id pre) (res, t) =
        rotate A c nonces ctxErr repo batch False (b + 1) (fst (last (take ?k suf))) (fold (tally A c nonces) (take ?k suf) res, t1)"
      using k assms(4) by (subst rotate.simps) (simp add: page t1(1))
    moreover have "fold (tally A c nonces) (drop ?k suf) (fold (tally A c nonces) (take ?k suf) res) = fold (tally A c nonces) suf res"
      by (subst (3) split) (simp only: fold_append comp_apply)
    moreover have "rows t' = pre @ map (rotated_row A c nonces) suf"
      unfolding t'(2) by (subst (3) split) (simp only: map_append append.assoc)
    ultimately show ?thesis using t'(1,3,4) t1(4) by auto
  qed
qed

end

section \<open>The database as the repository\<close>

lemma parseUserID_Nil: "parseUserID L [] = Inl ErrAuthUserNotFound"
proof -
  have "trim_space [] = []" by code_simp
  then show ?thesis by (simp add: parseUserID_def)
qed

lemma sorted_page:
  fixes pre suf :: "row list"
  assumes "sorted_wrt (<) (map fst (pre @ suf))" and "pre \<noteq> []"
  shows "filter (\<lambda>(u, ct). fst (last pre) < u) (pre @ suf) = suf"
proof -
  obtain pre' where pre: "pre = pre' @ [last pre]" using assms(2) by (metis append_butlast_last_id)
  have sorted: "sorted_wrt (<) (map fst pre' @ fst (last pre) # map fst suf)"
    using assms(1) by (subst (asm) pre) simp
  have "\<not> fst (last pre) < fst r" if "r \<in> set pre" for r
  proof -
    have "r \<in> set pre' \<or> r = last pre" using that pre by (metis Un_iff empty_iff insert_iff list.set set_append)
    then show ?thesis using sorted by (auto simp: sorted_wrt_append dest: less_asym)
  qed
  then have "filter (\<lambda>(u, ct). fst (last pre) < u) pre = []" by (auto simp: filter_empty_conv)
  moreover have "filter (\<lambda>(u, ct). fst (last pre) < u) suf = suf" using sorted by (auto simp: filter_id_conv sorted_wrt_append)
  ultimately show ?thesis by (simp only: filter_append append_Nil)
qed

definition db_ready :: "pglib \<Rightarrow> auth_db \<Rightarrow> bool" where
  "db_ready L db \<longleftrightarrow> db_ok L db \<and> db_fault db = None"

lemma sort_key_map: "(\<And>x. key (f x) = key' x) \<Longrightarrow> sort_key key (map f xs) = map f (sort_key key' xs)"
proof (induction xs)
  case (Cons x xs)
  have "insort_key key (f x) (map f ys) = map f (insort_key key' x ys)" for ys using Cons.prems by (induction ys) simp_all
  with Cons show ?case by simp
qed simp

lemma totp_rows_update:
  "totp_rows (on_totp uid (\<lambda>t. t\<lparr>tr_secret_ciphertext := ct\<rparr>) db) = map (\<lambda>(u, old). (u, if u = uid then ct else old)) (totp_rows db)"
proof -
  let ?g = "\<lambda>(u, old). (u, if u = uid then ct else old)"
  have "map (\<lambda>t. (tr_user_id t, tr_secret_ciphertext t)) (update_where (\<lambda>t. tr_user_id t = uid) (\<lambda>t. t\<lparr>tr_secret_ciphertext := ct\<rparr>) (db_totp db)) =
      map ?g (map (\<lambda>t. (tr_user_id t, tr_secret_ciphertext t)) (db_totp db))"
    by (simp add: update_where_def)
  moreover have "sort_key fst (map ?g xs) = map ?g (sort_key fst xs)" for xs by (rule sort_key_map) auto
  moreover have "db_totp (on_totp uid f db) = update_where (\<lambda>t. tr_user_id t = uid) f (db_totp db)" for f by simp
  ultimately show ?thesis unfolding totp_rows_def by (simp only:)
qed

lemma totp_rows_facts:
  assumes "db_ok L db"
  shows "sorted_wrt (<) (map fst (totp_rows db))"
    and "map_of (totp_rows db) u = map_option tr_secret_ciphertext (totp_by_id db u)"
    and "u \<in> fst ` set (totp_rows db) \<Longrightarrow> parseUserID L u = Inr u \<and> user_by_id db u \<noteq> None"
proof -
  let ?rows = "map (\<lambda>t. (tr_user_id t, tr_secret_ciphertext t)) (db_totp db)"
  have keys: "map fst ?rows = map tr_user_id (db_totp db)" by simp
  have distinct: "distinct (map fst ?rows)" using assms by (simp only: keys) (simp add: db_ok_def totp_ok_def)
  then have distinct': "distinct (map fst (sort_key fst ?rows))" by (metis (no_types, lifting) distinct_map distinct_sort set_sort)
  then show "sorted_wrt (<) (map fst (totp_rows db))" unfolding totp_rows_def strict_sorted_iff by (simp add: sorted_sort_key)
  have "map_of (sort_key fst ?rows) = map_of ?rows" using map_of_inject_set [OF distinct' distinct] by simp
  moreover have "map_of (map (\<lambda>t. (tr_user_id t, tr_secret_ciphertext t)) ts) u = map_option tr_secret_ciphertext (List.find (\<lambda>t. tr_user_id t = u) ts)" for ts
    by (induction ts) auto
  ultimately show "map_of (totp_rows db) u = map_option tr_secret_ciphertext (totp_by_id db u)" by (simp add: totp_rows_def)
  show "parseUserID L u = Inr u \<and> user_by_id db u \<noteq> None" if "u \<in> fst ` set (totp_rows db)"
  proof -
    have "u \<in> tr_user_id ` set (db_totp db)" using that by (auto simp: totp_rows_def image_iff)
    then have "u \<in> ur_id ` set (db_users db)" using assms by (auto simp: db_ok_def totp_ok_def)
    then show ?thesis using assms find_None_key [of ur_id u "db_users db"] by (auto simp: db_ok_def users_ok_def)
  qed
qed

text \<open>What rotation must not touch.\<close>

definition without_ciphertexts :: "auth_db \<Rightarrow> auth_db" where
  "without_ciphertexts db = db\<lparr>db_totp := map (\<lambda>t. t\<lparr>tr_secret_ciphertext := []\<rparr>) (db_totp db)\<rparr>"

lemma map_of_here: "u \<notin> fst ` set pre \<Longrightarrow> map_of (pre @ (u, ct) # suf) u = Some ct"
  by (induction pre) auto

interpretation totp_db: totp_repository "db_repo L" totp_rows "db_ready L" without_ciphertexts for L
proof
  fix db pre suf and limit :: int
  assume ready: "db_ready L db" and rows: "totp_rows db = pre @ suf" and limit: "1 \<le> limit"
  show "mr_list (db_repo L) (last_id pre) limit db = (Inr (take (nat (min limit 1000000)) suf), db)"
  proof (cases "pre = []")
    case False
    have "fst (last pre) \<in> fst ` set (totp_rows db)" using False rows by simp
    then have id: "parseUserID L (fst (last pre)) = Inr (fst (last pre))" using totp_rows_facts(3) [of L db "fst (last pre)"] ready by (simp add: db_ready_def)
    then have "fst (last pre) \<noteq> []" by (metis Inl_Inr_False parseUserID_Nil)
    with id False limit sorted_page [of pre suf] totp_rows_facts(1) [of L db] ready rows show ?thesis
      by (simp add: db_repo_def ListTOTPSecrets_def ListUserTOTPSecrets_def exec_def wrap_error_def with_user_def db_ready_def)
  qed (use limit rows ready in \<open>simp add: db_repo_def ListTOTPSecrets_def ListUserTOTPSecrets_def exec_def wrap_error_def db_ready_def case_prod_unfold\<close>)
next
  fix db pre u ct suf ct'
  assume ready: "db_ready L db" and rows: "totp_rows db = pre @ (u, ct) # suf"
  then have ok: "db_ok L db" "db_fault db = None" by (simp_all add: db_ready_def)
  have sorted: "sorted_wrt (<) (map fst pre @ u # map fst suf)" using totp_rows_facts(1) [OF ok(1)] rows by simp
  then have fresh: "u \<notin> fst ` set pre" "u \<notin> fst ` set suf" by (auto simp: sorted_wrt_append)
  have id: "parseUserID L u = Inr u" "user_by_id db u \<noteq> None" using totp_rows_facts(3) [OF ok(1), of u] rows by simp_all
  have "map_option tr_secret_ciphertext (totp_by_id db u) = Some ct"
    using totp_rows_facts(2) [OF ok(1), of u] map_of_here [OF fresh(1), of ct suf] unfolding rows by simp
  then obtain t where t: "totp_by_id db u = Some t" "tr_secret_ciphertext t = ct" by (auto simp: map_option_eq_Some)
  let ?db = "on_totp u (\<lambda>t. t\<lparr>tr_secret_ciphertext := ct'\<rparr>) db"
  have "mr_rotate (db_repo L) u ct ct' db = (Inr True, ?db)"
    using id t ok(2) by (auto simp: db_repo_def RotateTOTPSecret_def with_user_def RotateUserTOTPSecret_def exec_def wrap_error_def)
  moreover have "totp_rows ?db = pre @ (u, ct') # suf"
    unfolding totp_rows_update rows using fresh by (auto intro!: map_idI simp: rev_image_eqI)
  moreover have "db_ready L ?db" using ok db_step_ok [OF db_step.Reseal ok(1)] by (simp add: db_ready_def)
  moreover have "without_ciphertexts ?db = without_ciphertexts db" by (simp add: without_ciphertexts_def update_where_def)
  ultimately show "\<exists>t'. mr_rotate (db_repo L) u ct ct' db = (Inr True, t') \<and> totp_rows t' = pre @ (u, ct') # suf \<and> db_ready L t' \<and>
      without_ciphertexts t' = without_ciphertexts db" by blast
next
  fix db u v ct ct'
  assume ready: "db_ready L db" and v: "map_of (totp_rows db) u = Some v" "v \<noteq> ct"
  then have ok: "db_ok L db" "db_fault db = None" by (simp_all add: db_ready_def)
  have id: "parseUserID L u = Inr u" using totp_rows_facts(3) [OF ok(1), of u] map_of_SomeD [OF v(1)] by force
  obtain t where "totp_by_id db u = Some t" "tr_secret_ciphertext t = v" using totp_rows_facts(2) [OF ok(1), of u] v(1) by (metis map_option_eq_Some)
  then show "mr_rotate (db_repo L) u ct ct' db = (Inr False, db)"
    using id ok(2) v(2) by (auto simp: db_repo_def RotateTOTPSecret_def with_user_def RotateUserTOTPSecret_def exec_def wrap_error_def split: option.split)
qed

text \<open>The report when every sealing finds a nonce.\<close>

fun failures :: "aead_lib \<Rightarrow> aesGCMCipher \<Rightarrow> row list \<Rightarrow> (string \<times> auth_error) list" where
  "failures A c [] = []"
| "failures A c ((u, ct) # t) =
     (if NeedsRotation c ct then (case Open A c u ct of Inl e \<Rightarrow> [(u, CipherFailed e)] | Inr p \<Rightarrow> []) else []) @ failures A c t"

definition nonces_ok :: "(string \<Rightarrow> string option) \<Rightarrow> bool" where
  "nonces_ok nonces \<longleftrightarrow> (\<forall>u. \<exists>n. nonces u = Some n \<and> length n = NonceSize)"

lemma map_of_map_key: "(\<And>r. fst (f r) = fst r) \<Longrightarrow> map_of (map f t) u = map_option (\<lambda>ct. snd (f (u, ct))) (map_of t u)"
proof (induction t)
  case (Cons r t)
  have "f r = (fst r, snd (f (fst r, snd r)))" using Cons.prems by (metis prod.collapse)
  with Cons show ?case by (cases "fst r = u") (auto simp: map_of.simps)
qed simp

lemma Seal_succeeds: "cipher_ok c \<Longrightarrow> nonces_ok nonces \<Longrightarrow> \<exists>ct. Seal A c (nonces u) u p = Inr ct"
  unfolding nonces_ok_def cipher_ok_def Seal_def by (elim allE [of _ u]) auto

lemma tally_row:
  assumes "cipher_ok c" and "nonces_ok nonces"
  shows "tally A c nonces (u, ct) res =
      (if \<not> NeedsRotation c ct then res\<lparr>ro_Scanned := ro_Scanned res + 1, ro_Current := ro_Current res + 1\<rparr>
       else (case Open A c u ct of
           Inl e \<Rightarrow> fail u (CipherFailed e) (res\<lparr>ro_Scanned := ro_Scanned res + 1\<rparr>)
         | Inr p \<Rightarrow> res\<lparr>ro_Scanned := ro_Scanned res + 1, ro_Rotated := ro_Rotated res + 1\<rparr>))"
proof (cases "Open A c u ct")
  case (Inr p)
  then show ?thesis using Seal_succeeds [OF assms, of A u p] by (auto simp: tally_def)
qed (simp add: tally_def)

lemma tally_report:
  assumes "cipher_ok c" and "nonces_ok nonces"
  shows "ro_Failures (fold (tally A c nonces) t res) = ro_Failures res @ failures A c t"
    and "ro_Failed (fold (tally A c nonces) t res) = ro_Failed res + length (failures A c t)"
    and "ro_Scanned (fold (tally A c nonces) t res) = ro_Scanned res + length t"
    and "ro_Skipped (fold (tally A c nonces) t res) = ro_Skipped res"
    and "ro_Current (fold (tally A c nonces) t res) = ro_Current res + length (filter (\<lambda>(u, ct). \<not> NeedsRotation c ct) t)"
    and "ro_Current (fold (tally A c nonces) t res) + ro_Rotated (fold (tally A c nonces) t res) + ro_Failed (fold (tally A c nonces) t res) =
      ro_Current res + ro_Rotated res + ro_Failed res + length t"
proof (induction t arbitrary: res)
  case (Cons row t)
  obtain u ct where row: "row = (u, ct)" by fastforce
  { case 1 then show ?case using Cons(1) by (simp add: row tally_row [OF assms] fail_def split: sum.split) }
  { case 2 then show ?case using Cons(2) by (simp add: row tally_row [OF assms] fail_def split: sum.split) }
  { case 3 then show ?case using Cons(3) by (simp add: row tally_row [OF assms] fail_def split: sum.split) }
  { case 4 then show ?case using Cons(4) by (simp add: row tally_row [OF assms] fail_def split: sum.split) }
  { case 5 then show ?case using Cons(5) by (simp add: row tally_row [OF assms] fail_def split: sum.split) }
  { case 6 then show ?case using Cons(6) by (simp add: row tally_row [OF assms] fail_def split: sum.split) }
qed simp_all

lemma rotated_row_correct:
  assumes "aead_ok A" and "cipher_ok c" and "nonces_ok nonces"
  shows "\<exists>ct'. rotated_row A c nonces (u, ct) = (u, ct') \<and>
    (case Open A c u ct of Inl e \<Rightarrow> ct' = ct | Inr p \<Rightarrow> Open A c u ct' = Inr p \<and> \<not> NeedsRotation c ct')"
proof (cases "NeedsRotation c ct")
  case True
  show ?thesis
  proof (cases "Open A c u ct")
    case (Inr p)
    obtain n where n: "nonces u = Some n" "length n = NonceSize" using assms(3) by (auto simp: nonces_ok_def)
    obtain ct' where ct': "Seal A c (Some n) u p = Inr ct'" using Seal_succeeds [OF assms(2,3), of A u p] n by auto
    from Seal_Open [OF assms(1,2) n(2) ct'] show ?thesis using True Inr n ct' by (simp add: rotated_row_def)
  qed (use True in \<open>simp add: rotated_row_def\<close>)
qed (auto simp: rotated_row_def split: sum.split)

lemma failures_reported:
  assumes "map_of t u = Some ct" and "NeedsRotation c ct" and "Open A c u ct = Inl e"
  shows "(u, CipherFailed e) \<in> set (failures A c t)"
  using assms(1)
proof (induction t)
  case (Cons r t)
  obtain v w where r: "r = (v, w)" by fastforce
  show ?case
  proof (cases "v = u")
    case True
    with Cons.prems r assms(2,3) have "failures A c (r # t) = (u, CipherFailed e) # failures A c t" by simp
    then show ?thesis by (metis list.set_intros(1))
  next
    case False
    with Cons r have "(u, CipherFailed e) \<in> set (failures A c t)" by simp
    then show ?thesis unfolding r failures.simps set_append by (rule UnI2)
  qed
qed simp



end
