(* ===== verification/Auth_Factors.thy ===== *)
theory Auth_Factors
  imports Auth_Safety
begin

text \<open>
  What the second-factor operations of the provider achieve: enrolment with a time-based one-time password, and the replacement of backup codes.
\<close>

section \<open>Enrolment\<close>

definition stored_totp :: "string \<Rightarrow> string \<Rightarrow> totp_row option \<Rightarrow> totp_row" where
  "stored_totp uid ct t = (case t of
     None \<Rightarrow> \<lparr>tr_user_id = uid, tr_secret_ciphertext = ct, tr_verified = False, tr_last_used_counter = 0\<rparr>
   | Some t \<Rightarrow> t\<lparr>tr_secret_ciphertext := ct\<rparr>)"

lemma Upsert_effect:
  assumes "db_fault db = None" and "user_by_id db uid = Some r"
    and "ur_account_version (set_totp_enabled (tr_verified (stored_totp uid ct (totp_by_id db uid))) r) \<le> int32_max"
  shows "\<exists>db1. UpsertUserTOTPSecret uid ct db = (Inr uid, db1) \<and> totp_by_id db1 uid = Some (stored_totp uid ct (totp_by_id db uid)) \<and>
    user_by_id db1 uid = Some (set_totp_enabled (tr_verified (stored_totp uid ct (totp_by_id db uid))) r) \<and> db_fault db1 = None"
  using assms by (cases "totp_by_id db uid") (simp_all add: UpsertUserTOTPSecret_def exec_def stored_totp_def row_simps)

lemma stored_secret_read:
  assumes "mfaReady p = Some c" and "parseUserID L u = Inr uid" and "db_fault db = None" and "totp_by_id db uid = Some t"
    and "user_by_id db uid = Some r" and "Open A c u (tr_secret_ciphertext t) = Inr s" and "\<not> NeedsRotation c (tr_secret_ciphertext t)"
  shows "GetTOTPSecret L A m p u db =
    (Inr \<lparr>tp_Secret = s, tp_Enabled = ur_totp_enabled r, tp_Verified = tr_verified t, tp_LastUsedCounter = tr_last_used_counter t\<rparr>, db)"
  using assms by (simp add: GetTOTPSecret_def GetTOTP_def GetUserTOTP_def exec_def one_row_def totp_state_def rotateSecretLazily_def)

lemma EnableTOTP_effect:
  assumes "aead_ok A" and "mfaReady p = Some c" and "cipher_ok c" and "parseUserID L u = Inr uid" and "db_fault db = None"
    and "user_by_id db uid = Some r" and "secret \<noteq> []" and "length n = NonceSize" and "ur_account_version r < int32_max"
  shows "\<exists>db1 t r1. EnableTOTP L A (Some n) p u secret db = (Inr (), db1) \<and> db_fault db1 = None \<and>
    totp_by_id db1 uid = Some t \<and> user_by_id db1 uid = Some r1 \<and> ur_account_version r1 \<le> ur_account_version r + 1 \<and>
    tr_verified t = (case totp_by_id db uid of None \<Rightarrow> False | Some t \<Rightarrow> tr_verified t) \<and>
    tr_last_used_counter t = (case totp_by_id db uid of None \<Rightarrow> 0 | Some t \<Rightarrow> tr_last_used_counter t) \<and> ur_totp_enabled r1 = tr_verified t \<and>
    Open A c u (tr_secret_ciphertext t) = Inr secret \<and> \<not> NeedsRotation c (tr_secret_ciphertext t)"
proof -
  obtain ct where ct: "Seal A c (Some n) u secret = Inr ct" using assms(3) by (auto simp: Seal_def cipher_ok_def)
  let ?t = "stored_totp uid ct (totp_by_id db uid)"
  have version: "ur_account_version (set_totp_enabled b r) \<le> ur_account_version r + 1" for b by (simp add: set_totp_enabled_def)
  have "ur_account_version (set_totp_enabled (tr_verified ?t) r) \<le> int32_max" using version [of "tr_verified ?t"] assms(9) by linarith
  from Upsert_effect [OF assms(5,6) this] obtain db1 where db1: "UpsertUserTOTPSecret uid ct db = (Inr uid, db1)" "totp_by_id db1 uid = Some ?t"
    "user_by_id db1 uid = Some (set_totp_enabled (tr_verified ?t) r)" "db_fault db1 = None" by blast
  have "EnableTOTP L A (Some n) p u secret db = (Inr (), db1)"
    using assms(2,4,7) ct db1(1) by (simp add: EnableTOTP_def UpsertTOTPSecret_def with_user_def row_or_def mfaErr_def)
  moreover have "tr_secret_ciphertext ?t = ct" by (simp add: stored_totp_def split: option.split)
  ultimately show ?thesis using db1(2-4) version Seal_Open [OF assms(1,3,8) ct]
    by (intro exI [of _ db1] exI [of _ ?t] exI [of _ "set_totp_enabled (tr_verified ?t) r"]) (auto simp: stored_totp_def split: option.split)
qed

text \<open>
  enrolment with a one-time password works. After a secret is stored it reads back for its user, unverified and disabled if the user had none; once it
  was marked verified and stored again it reads back verified and enabled. (Nothing is written by these reads.)
\<close>

theorem totp_enrolment:
  assumes "aead_ok A" and "NewKeyRingCipher ring = Inr c" and "mfaReady p = Some c" and "parseUserID L u = Inr uid" and "db_fault db = None"
    and "user_by_id db uid = Some r" and "ur_account_version r + 1 < int32_max" and "totp_by_id db uid = None" and "secret \<noteq> []" and "length n = NonceSize"
  shows "\<exists>db1 db2 db3. EnableTOTP L A (Some n) p u secret db = (Inr (), db1) \<and>
    GetTOTPSecret L A m p u db1 = (Inr \<lparr>tp_Secret = secret, tp_Enabled = False, tp_Verified = False, tp_LastUsedCounter = 0\<rparr>, db1) \<and>
    MarkTOTPVerified L p u db1 = (Inr (), db2) \<and> EnableTOTP L A (Some n) p u secret db2 = (Inr (), db3) \<and>
    GetTOTPSecret L A m p u db3 = (Inr \<lparr>tp_Secret = secret, tp_Enabled = True, tp_Verified = True, tp_LastUsedCounter = 0\<rparr>, db3)"
proof -
  have ok: "cipher_ok c" using assms(2) by (rule NewKeyRingCipher_ok)
  have "ur_account_version r < int32_max" using assms(7) by simp
  from EnableTOTP_effect [OF assms(1,3) ok assms(4,5,6,9,10) this] obtain db1 t1 r1 where
    s1: "EnableTOTP L A (Some n) p u secret db = (Inr (), db1)" "db_fault db1 = None" "totp_by_id db1 uid = Some t1" "user_by_id db1 uid = Some r1"
      "ur_account_version r1 \<le> ur_account_version r + 1" "\<not> tr_verified t1" "tr_last_used_counter t1 = 0" "\<not> ur_totp_enabled r1"
      "Open A c u (tr_secret_ciphertext t1) = Inr secret" "\<not> NeedsRotation c (tr_secret_ciphertext t1)"
    using assms(8) by auto
  let ?db2 = "on_totp uid (\<lambda>t. t\<lparr>tr_verified := True\<rparr>) db1"
  have mark: "MarkTOTPVerified L p u db1 = (Inr (), ?db2)"
    using assms(3,4) s1(2-4) by (simp add: MarkTOTPVerified_def mfa_write_def repo_MarkTOTPVerified_def with_user_def MarkUserTOTPVerified_def exec_def row_or_def mfaErr_def)
  have db2: "db_fault ?db2 = None" "user_by_id ?db2 uid = Some r1" "totp_by_id ?db2 uid = Some (t1\<lparr>tr_verified := True\<rparr>)"
    using s1(2-4) by (simp_all add: row_simps)
  have "ur_account_version r1 < int32_max" using s1(5) assms(7) by simp
  from EnableTOTP_effect [OF assms(1,3) ok assms(4) db2(1,2) assms(9,10) this] obtain db3 t3 r3 where
    s3: "EnableTOTP L A (Some n) p u secret ?db2 = (Inr (), db3)" "db_fault db3 = None" "totp_by_id db3 uid = Some t3" "user_by_id db3 uid = Some r3"
      "tr_verified t3" "tr_last_used_counter t3 = 0" "ur_totp_enabled r3"
      "Open A c u (tr_secret_ciphertext t3) = Inr secret" "\<not> NeedsRotation c (tr_secret_ciphertext t3)"
    using db2(3) s1(7) by auto
  note read = stored_secret_read [OF assms(3,4)]
  show ?thesis
    using s1(1) read [OF s1(2-4,9,10)] mark s3(1) read [OF s3(2-4,8,9)] s1(6-8) s3(5-7) by auto
qed

text \<open>A secret stored over a verified one is enabled at once, without being verified itself.\<close>

theorem new_secret_keeps_verified:
  assumes "aead_ok A" and "cipher_ok c" and "mfaReady p = Some c" and "parseUserID L u = Inr uid" and "db_fault db = None"
    and "user_by_id db uid = Some r" and "ur_account_version r < int32_max" and "totp_by_id db uid = Some t" and "tr_verified t"
    and "secret \<noteq> []" and "length n = NonceSize"
  shows "\<exists>db1. EnableTOTP L A (Some n) p u secret db = (Inr (), db1) \<and>
    GetTOTPSecret L A m p u db1 = (Inr \<lparr>tp_Secret = secret, tp_Enabled = True, tp_Verified = True, tp_LastUsedCounter = tr_last_used_counter t\<rparr>, db1)"
proof -
  from EnableTOTP_effect [OF assms(1,3,2,4,5,6,10,11,7)] obtain db1 t1 r1 where
    s: "EnableTOTP L A (Some n) p u secret db = (Inr (), db1)" "db_fault db1 = None" "totp_by_id db1 uid = Some t1" "user_by_id db1 uid = Some r1"
      "tr_verified t1" "tr_last_used_counter t1 = tr_last_used_counter t" "ur_totp_enabled r1"
      "Open A c u (tr_secret_ciphertext t1) = Inr secret" "\<not> NeedsRotation c (tr_secret_ciphertext t1)"
    using assms(8,9) by auto
  with stored_secret_read [OF assms(3,4) s(2-4,8,9)] show ?thesis by auto
qed

section \<open>Backup codes\<close>

lemma new_codes_listed:
  assumes "user_by_id db uid \<noteq> None" and "db_fault db = None" and "db_codes db = filter (\<lambda>b. cr_user_id b \<noteq> uid) bs @ new_codes n uid hs"
  shows "ListUnusedBackupCodes_query uid db = (Inr hs, db)"
proof -
  have "filter (unused_code uid) (new_codes n uid hs) = new_codes n uid hs"
    using new_codes_facts(3) [of n uid hs] by (simp add: filter_id_conv unused_code_def)
  moreover have "filter (unused_code uid) (filter (\<lambda>b. cr_user_id b \<noteq> uid) bs) = []" by (auto simp: filter_empty_conv unused_code_def)
  moreover have "sort_key cr_id (new_codes n uid hs) = new_codes n uid hs" by (rule sort_key_id_if_sorted) (simp add: new_codes_facts(2))
  moreover have "map cr_code_hash (new_codes n uid hs) = hs"
    using arg_cong [OF new_codes_facts(1) [of n uid hs], of "map snd"] by (simp add: comp_def)
  ultimately show ?thesis using assms by (auto simp: ListUnusedBackupCodes_query_def exec_def)
qed

lemma repo_replace_succeeds:
  assumes "db_fault db = None" and "parseUserID L u = Inr uid" and "user_by_id db uid = Some r" and "\<forall>h \<in> set hs. length h = 32"
  shows "fst (repo_ReplaceBackupCodes L True u hs db) = Inr ()"
proof -
  have "list_all (\<lambda>h. length h = 32) (dedup_hashes [] hs)" "distinct (dedup_hashes [] hs)"
    using dedup_hashes [of "[]" hs] assms(4) by (auto simp: list_all_iff)
  then show ?thesis
    using assms(1-3) by (simp add: repo_ReplaceBackupCodes_def with_user_def DeleteBackupCodes_def InsertBackupCodes_def exec_def Let_def list_ex_iff)
qed

text \<open>
  the replacement of backup codes is all or nothing. If it reports an error, the codes are what they were; if it reports success, the codes offered
  are exactly the new ones, each once; and it succeeds for an account and well-formed hashes when the database answers.
\<close>

theorem backup_codes_replaced:
  assumes "mfaReady p = Some c" and "pv_tx p" and "parseUserID L u = Inr uid" and "user_by_id db uid = Some r"
    and "ReplaceBackupCodes L p u hs db = (res, db')"
  shows "(isl res \<longrightarrow> db_codes db' = db_codes db) \<and>
    (\<not> isl res \<longrightarrow> GetBackupCodes L p u db' = (Inr (dedup_hashes [] hs), db') \<and> set (dedup_hashes [] hs) = set hs \<and> distinct (dedup_hashes [] hs)) \<and>
    (db_fault db = None \<and> db_commit_fault db = None \<and> (\<forall>h \<in> set hs. length h = 32) \<longrightarrow> \<not> isl res)"
proof -
  obtain res0 db0 where tx: "Postgres_WithTx (\<lambda>tx. repo_ReplaceBackupCodes L tx u hs) db = (res0, db0)" by fastforce
  have "mfaErr (res0, db0) = (res, db')" using assms(1,2,5) tx by (simp add: ReplaceBackupCodes_def mfa_write_def inTx_def)
  then have res: "isl res = isl res0" "db' = db0" by (auto simp: mfaErr_def split: sum.splits)
  obtain r1 db1 where body: "repo_ReplaceBackupCodes L True u hs db = (r1, db1)" by fastforce
  note cases = Postgres_WithTx_cases [OF tx]
  have "db_codes db' = db_codes db" if "isl res" using cases res that by (auto simp: rollback_def)
  moreover have "GetBackupCodes L p u db' = (Inr (dedup_hashes [] hs), db')" if "\<not> isl res"
  proof -
    have up: "db_fault db = None" and same: "r1 = Inr ()" "db1 = db'" using cases body res that by auto
    from replace_in_tx [OF up assms(3,4) body] same have len: "\<forall>h \<in> set hs. length h = 32" and
      db': "db' = db\<lparr>db_codes := filter (\<lambda>b. cr_user_id b \<noteq> uid) (db_codes db) @ new_codes (db_serial db) uid (dedup_hashes [] hs),
        db_serial := db_serial db + length (dedup_hashes [] hs)\<rparr>" by auto
    have "filter (\<lambda>raw. length raw = 32) (dedup_hashes [] hs) = dedup_hashes [] hs"
      using len dedup_hashes [of "[]" hs] by (simp add: filter_id_conv)
    moreover have "ListUnusedBackupCodes_query uid db' = (Inr (dedup_hashes [] hs), db')"
      by (rule new_codes_listed [of _ _ "db_codes db" "db_serial db"]) (use assms(4) up db' in simp_all)
    ultimately show ?thesis using assms(1,3) by (simp add: GetBackupCodes_def ListUnusedBackupCodes_def wrap_error_def)
  qed
  moreover have "\<not> isl res" if "db_fault db = None" "db_commit_fault db = None" "\<forall>h \<in> set hs. length h = 32"
    using repo_replace_succeeds [OF that(1) assms(3,4) that(3)] body tx that(1,2) res by (auto simp: Postgres_WithTx_def)
  ultimately show ?thesis using dedup_hashes [of "[]" hs] by auto
qed

section \<open>Witnesses\<close>

lemma sample_mfa: "mfaReady sample_provider = Some sample_cipher" "pv_tx sample_provider"
  by (simp_all add: sample_provider_def mfaReady_def WithWebAuthnRepository_def provider_WithTx_def WithMFA_def NewStoreUserProvider_def)

definition bare_db :: auth_db where
  "bare_db = sample_db\<lparr>db_totp := []\<rparr>"

lemma bare_db_facts: "db_fault bare_db = None" "db_commit_fault bare_db = None" "totp_by_id bare_db ''u1'' = None"
  "user_by_id bare_db ''u1'' = Some (hd (db_users sample_db))" "ur_account_version (hd (db_users sample_db)) = 1"
  by (simp_all add: bare_db_def sample_db_def)

theorem totp_enrolment_witness:
  "\<exists>db1 db2 db3. EnableTOTP sample_pg sample_aead (Some (replicate 12 CHR ''n'')) sample_provider ''u1'' ''pq'' bare_db = (Inr (), db1) \<and>
    MarkTOTPVerified sample_pg sample_provider ''u1'' db1 = (Inr (), db2) \<and>
    EnableTOTP sample_pg sample_aead (Some (replicate 12 CHR ''n'')) sample_provider ''u1'' ''pq'' db2 = (Inr (), db3) \<and>
    GetTOTPSecret sample_pg sample_aead None sample_provider ''u1'' db3 =
      (Inr \<lparr>tp_Secret = ''pq'', tp_Enabled = True, tp_Verified = True, tp_LastUsedCounter = 0\<rparr>, db3)"
  using totp_enrolment [OF sample_aead_ok sample_ring_cipher sample_mfa(1) sample_id(1) bare_db_facts(1,4) _ bare_db_facts(3),
      of "''pq''" "replicate 12 CHR ''n''" None] bare_db_facts(5) by fastforce

theorem backup_codes_replaced_witness:
  "\<exists>db'. ReplaceBackupCodes sample_pg sample_provider ''u1'' [sample_hash, sample_hash] bare_db = (Inr (), db') \<and>
    GetBackupCodes sample_pg sample_provider ''u1'' db' = (Inr [sample_hash], db')"
proof -
  obtain res db' where run: "ReplaceBackupCodes sample_pg sample_provider ''u1'' [sample_hash, sample_hash] bare_db = (res, db')" by fastforce
  from backup_codes_replaced [OF sample_mfa sample_id(1) bare_db_facts(4) run] have "\<not> isl res"
    "GetBackupCodes sample_pg sample_provider ''u1'' db' = (Inr [sample_hash], db')"
    by (auto simp: bare_db_facts sample_hash_def)
  with run show ?thesis by (cases res) auto
qed

end
