(* ===== verification/Httpx.thy ===== *)
theory Httpx
  imports Policy_Handlers Config "HOL-Library.Word" "HOL-Library.Sublist"
begin

text \<open>
  The HTTP middleware of \<open>internal/core/httpx\<close> (request ids, client addresses, recovery, CORS, security
  headers, body and time limits, tracing, access logs, their assembly), the request instrumentation of
  \<open>internal/core/metrics\<close> and the router \<open>Mux\<close>.

  chi's matching, the random source, OpenTelemetry and Prometheus are arguments. A middleware runs
  its inner handler with its own wrapper on the stack of response writers and takes it off again.
\<close>

unbundle bit_operations_syntax

section \<open>Request identifiers\<close>

abbreviation maxRequestIDLen :: nat where "maxRequestIDLen \<equiv> 64"

definition request_id_byte :: "char \<Rightarrow> bool" where
  "request_id_byte c \<longleftrightarrow> (97 \<le> byte c \<and> byte c \<le> 122) \<or> (65 \<le> byte c \<and> byte c \<le> 90) \<or> (48 \<le> byte c \<and> byte c \<le> 57) \<or>
     c \<in> set ''-_.''"

definition normalizeRequestID :: "string \<Rightarrow> string" where
  "normalizeRequestID raw =
     (let trimmed = trim_space raw in
      if trimmed = [] then [] else if length trimmed > maxRequestIDLen then []
      else if list_all request_id_byte trimmed then trimmed else [])"

text \<open>\<open>hex.EncodeToString\<close>, and the source of 16 random bytes: \<open>None\<close> is its error.\<close>

definition hex_digit :: "nat \<Rightarrow> char" where
  "hex_digit n = ''0123456789abcdef'' ! (n mod 16)"

definition hex_encode :: "nat list \<Rightarrow> string" where
  "hex_encode bs = concat (map (\<lambda>b. [hex_digit (b div 16), hex_digit b]) bs)"

type_synonym 's random = "'s world \<Rightarrow> (nat \<Rightarrow> nat) option"

definition newRequestID :: "'s random \<Rightarrow> 's world \<Rightarrow> string" where
  "newRequestID rand w =
     (case rand w of None \<Rightarrow> replicate 32 (CHR ''0'') | Some b \<Rightarrow> hex_encode (map b [0..<16]))"

definition RequestID :: "'s random \<Rightarrow> 's middleware" where
  "RequestID rand next r w =
     (let rid0 = normalizeRequestID (header_get (req_header r) ''X-Request-Id'');
          rid = (if rid0 = [] then newRequestID rand w else rid0)
      in next (r\<lparr>ctx_request_id := rid\<rparr>) (SetHeader ''X-Request-Id'' rid w))"

section \<open>Client addresses\<close>

text \<open>\<open>net.IP.To4\<close> and \<open>net.IPNet.Contains\<close>. A network is its number and its mask.\<close>

definition To4 :: "ip \<Rightarrow> ip option" where
  "To4 a =
     (if length a = 4 then Some a
      else if length a = 16 \<and> take 12 a = replicate 10 0 @ [255, 255] then Some (drop 12 a) else None)"

type_synonym ipnet = "ip \<times> ip"

definition networkNumberAndMask :: "ipnet \<Rightarrow> (ip \<times> ip) option" where
  "networkNumberAndMask n =
     (let (number, m) = n; a = (case To4 number of Some x \<Rightarrow> x | None \<Rightarrow> number) in
      if To4 number = None \<and> length number \<noteq> 16 then None
      else if length m = 4 then (if length a = 4 then Some (a, m) else None)
      else if length m = 16 then Some (a, if length a = 4 then drop 12 m else m)
      else None)"

definition Contains :: "ipnet \<Rightarrow> ip \<Rightarrow> bool" where
  "Contains n addr =
     (let a = (case To4 addr of Some x \<Rightarrow> x | None \<Rightarrow> addr) in
      case networkNumberAndMask n of
        None \<Rightarrow> a = []
      | Some (nn, m) \<Rightarrow> length a = length nn \<and> list_all (\<lambda>i. nn ! i AND m ! i = a ! i AND m ! i) [0..<length a])"

definition parseTrustedProxies :: "netlib \<Rightarrow> string list \<Rightarrow> ipnet list" where
  "parseTrustedProxies N items =
     List.map_filter (\<lambda>raw. let trimmed = trim_space raw in
       if trimmed = [] then None
       else if CHR ''/'' \<in> set trimmed then nl_ParseCIDR N trimmed
       else (case nl_ParseIP N trimmed of
           None \<Rightarrow> None
         | Some a \<Rightarrow> Some (a, replicate (if To4 a = None then 16 else 4) 255))) items"

definition isTrustedProxy :: "netlib \<Rightarrow> string \<Rightarrow> ipnet list \<Rightarrow> bool" where
  "isTrustedProxy N remote trusted \<longleftrightarrow>
     trusted \<noteq> [] \<and> (case nl_ParseIP N (trim_space remote) of None \<Rightarrow> False | Some a \<Rightarrow> list_ex (\<lambda>n. Contains n a) trusted)"

definition remoteIP :: "string \<Rightarrow> string" where
  "remoteIP remoteAddr =
     (case SplitHostPort (trim_space remoteAddr) of None \<Rightarrow> trim_space remoteAddr | Some (host, port) \<Rightarrow> host)"

definition trim_quotes :: "string \<Rightarrow> string" where
  "trim_quotes s = rev (dropWhile (\<lambda>c. c = CHR 0x22) (rev (dropWhile (\<lambda>c. c = CHR 0x22) s)))"

definition parseIPLiteral :: "netlib \<Rightarrow> string \<Rightarrow> string" where
  "parseIPLiteral N value =
     (let v0 = trim_space value in
      if v0 = [] then []
      else (let v1 = trim_quotes v0;
                v2 = (if has_prefix ''['' v1 then drop 1 v1 else v1);
                v3 = trim_suffix v2 '']'';
                v4 = (case SplitHostPort v3 of Some (host, port) \<Rightarrow> host | None \<Rightarrow> v3)
            in case nl_ParseIP N (trim_space v4) of None \<Rightarrow> [] | Some a \<Rightarrow> nl_IPString N a))"

text \<open>The first non-empty result of a loop that returns it.\<close>

fun first_nonempty :: "string list \<Rightarrow> string" where
  "first_nonempty [] = []"
| "first_nonempty (s # ss) = (if s \<noteq> [] then s else first_nonempty ss)"

definition forwarded_directive :: "netlib \<Rightarrow> string \<Rightarrow> string" where
  "forwarded_directive N dir0 =
     (let dir = trim_space dir0 in
      if length dir < 4 \<or> \<not> equal_fold (take 4 dir) ''for='' then [] else parseIPLiteral N (trim_space (drop 4 dir)))"

definition parseForwardedHeader :: "netlib \<Rightarrow> string \<Rightarrow> string" where
  "parseForwardedHeader N header0 =
     (let header = trim_space header0 in
      if header = [] then []
      else first_nonempty (map (\<lambda>part. let section = trim_space part in
        if section = [] then [] else first_nonempty (map (forwarded_directive N) (split_on (CHR '';'') section)))
        (split_on (CHR '','') header)))"

definition parseXForwardedFor :: "netlib \<Rightarrow> string \<Rightarrow> string" where
  "parseXForwardedFor N header0 =
     (let header = trim_space header0 in
      if header = [] then []
      else (case split_on (CHR '','') header of [] \<Rightarrow> [] | p # ps \<Rightarrow> parseIPLiteral N p))"

text \<open>The address for a request: \<open>trusted\<close> are the parsed proxies.\<close>

definition resolve_client_ip :: "netlib \<Rightarrow> ipnet list \<Rightarrow> request \<Rightarrow> string" where
  "resolve_client_ip N trusted r =
     (let peer = remoteIP (req_remote r) in
      if isTrustedProxy N peer trusted then
        (let forwarded = parseForwardedHeader N (header_get (req_header r) ''Forwarded'');
             xff = parseXForwardedFor N (header_get (req_header r) ''X-Forwarded-For'');
             xri = parseIPLiteral N (header_get (req_header r) ''X-Real-IP'')
         in if forwarded \<noteq> [] then forwarded else if xff \<noteq> [] then xff else if xri \<noteq> [] then xri else peer)
      else peer)"

definition ClientIP :: "netlib \<Rightarrow> ClientIPConfig \<Rightarrow> 's middleware" where
  "ClientIP N cfg next r w =
     next (r\<lparr>ctx_client_ip := Some (resolve_client_ip N (parseTrustedProxies N (cip_TrustedProxies cfg)) r)\<rparr>) w"

section \<open>Recovery\<close>

definition panic_event :: "request \<Rightarrow> string \<Rightarrow> log_event" where
  "panic_event r text =
     \<lparr>ev_level = ''error'',
      ev_strings = [(''request_id'', ctx_request_id r), (''method'', req_method r), (''path'', req_path r),
        (''remote_addr'', req_remote r), (''panic'', text)],
      ev_ints = [], ev_bools = [], ev_message = ''panic recovered''\<rparr>"

text \<open>\<open>response.Error\<close> with a nil error takes its last branch, as an error without a type does.\<close>

definition Recoverer :: "(Envelope \<Rightarrow> string) \<Rightarrow> 's middleware" where
  "Recoverer enc next r w =
     (case next r w of
        Ret w' \<Rightarrow> Ret w'
      | Panic text w' \<Rightarrow>
          Ret (response_Error enc (Plain []) (ctx_request_id r) (w'\<lparr>logs := logs w' @ [panic_event r text]\<rparr>)))"

section \<open>Cross-origin requests\<close>

definition isPreflight :: "request \<Rightarrow> bool" where
  "isPreflight r \<longleftrightarrow> req_method r = ''OPTIONS'' \<and> header_get (req_header r) ''Access-Control-Request-Method'' \<noteq> []"

text \<open>A Go set of strings is a list, of which only membership and emptiness count.\<close>

definition normalizeOrigins :: "string list \<Rightarrow> string list" where
  "normalizeOrigins values = map to_lower (filter (\<lambda>t. t \<noteq> []) (map trim_space values))"

definition isDeniedOrigin :: "string \<Rightarrow> string list \<Rightarrow> bool" where
  "isDeniedOrigin origin deny \<longleftrightarrow> deny \<noteq> [] \<and> (''*'' \<in> set deny \<or> to_lower origin \<in> set deny)"

definition isAllowedOrigin :: "string \<Rightarrow> string list \<Rightarrow> bool \<Rightarrow> bool \<Rightarrow> bool" where
  "isAllowedOrigin origin allow allowAll allowCredentials \<longleftrightarrow>
     (if allowAll then \<not> allowCredentials else allow \<noteq> [] \<and> to_lower origin \<in> set allow)"

definition normalizeTokens :: "string list \<Rightarrow> string list \<Rightarrow> string list" where
  "normalizeTokens values fallback =
     (let out = filter (\<lambda>t. t \<noteq> []) (map trim_space values) in if out = [] then fallback else out)"

definition maxAgeSeconds :: "int \<Rightarrow> string" where
  "maxAgeSeconds d =
     (if d \<le> 0 then [] else (let seconds = whole_seconds d in if seconds \<le> 0 then [] else itoa seconds))"

definition set_when :: "bool \<Rightarrow> string \<Rightarrow> string \<Rightarrow> 's world \<Rightarrow> 's world" where
  "set_when b k v w = (if b then SetHeader k v w else w)"

text \<open>The headers of an allowed origin, and those of an answered preflight.\<close>

definition cors_grant :: "CORSConfig \<Rightarrow> bool \<Rightarrow> string \<Rightarrow> 's world \<Rightarrow> 's world" where
  "cors_grant cfg allowAll origin w =
     (let exposeHeaders = normalizeTokens (co_ExposeHeaders cfg) [];
          w1 = appendVaryHeader ''Origin'' w;
          w2 = SetHeader ''Access-Control-Allow-Origin'' (if allowAll \<and> \<not> co_AllowCredentials cfg then ''*'' else origin) w1;
          w3 = set_when (co_AllowCredentials cfg) ''Access-Control-Allow-Credentials'' ''true'' w2
      in set_when (exposeHeaders \<noteq> []) ''Access-Control-Expose-Headers'' (join '', '' exposeHeaders) w3)"

definition cors_preflight :: "CORSConfig \<Rightarrow> request \<Rightarrow> 's world \<Rightarrow> 's world" where
  "cors_preflight cfg r w =
     (let allowMethods = normalizeTokens (co_AllowMethods cfg)
            [''GET'', ''POST'', ''PUT'', ''PATCH'', ''DELETE'', ''HEAD'', ''OPTIONS''];
          allowHeaders = normalizeTokens (co_AllowHeaders cfg) [];
          reqHeaders = trim_space (header_get (req_header r) ''Access-Control-Request-Headers'');
          maxAge = maxAgeSeconds (co_MaxAge cfg);
          w1 = appendVaryHeader ''Access-Control-Request-Headers'' (appendVaryHeader ''Access-Control-Request-Method'' w);
          w2 = set_when (allowMethods \<noteq> []) ''Access-Control-Allow-Methods'' (join '', '' allowMethods) w1;
          w3 = (if allowHeaders \<noteq> [] then SetHeader ''Access-Control-Allow-Headers'' (join '', '' allowHeaders) w2
                else set_when (reqHeaders \<noteq> []) ''Access-Control-Allow-Headers'' reqHeaders w2);
          w4 = set_when (maxAge \<noteq> []) ''Access-Control-Max-Age'' maxAge w3;
          w5 = set_when (co_AllowPrivateNetwork cfg \<and>
                 equal_fold (trim_space (header_get (req_header r) ''Access-Control-Request-Private-Network'')) ''true'')
                 ''Access-Control-Allow-Private-Network'' ''true'' w4
      in WriteHeader 204 w5)"

definition origin_error :: go_error where
  "origin_error = apperr_New CodeForbidden 403 ''origin not allowed''"

definition CORS :: "(Envelope \<Rightarrow> string) \<Rightarrow> CORSConfig \<Rightarrow> 's middleware" where
  "CORS enc cfg next r w =
     (if \<not> co_Enabled cfg then next r w
      else (let allowOrigins = normalizeOrigins (co_AllowOrigins cfg);
                denyOrigins = normalizeOrigins (co_DenyOrigins cfg);
                allowAll = (''*'' \<in> set allowOrigins);
                origin = trim_space (header_get (req_header r) ''Origin'')
            in if origin = [] then next r w
               else if isDeniedOrigin origin denyOrigins \<or> \<not> isAllowedOrigin origin allowOrigins allowAll (co_AllowCredentials cfg)
               then (if isPreflight r then Ret (response_Error enc origin_error (ctx_request_id r) w) else next r w)
               else if isPreflight r then Ret (cors_preflight cfg r (cors_grant cfg allowAll origin w))
               else next r (cors_grant cfg allowAll origin w)))"

section \<open>Security headers and body limit\<close>

definition SecurityHeaders :: "'s middleware" where
  "SecurityHeaders next r w =
     next r (SetHeader ''Referrer-Policy'' ''no-referrer''
       (SetHeader ''X-Frame-Options'' ''DENY'' (SetHeader ''X-Content-Type-Options'' ''nosniff'' w)))"

definition shouldLimitBody :: "request \<Rightarrow> bool" where
  "shouldLimitBody r \<longleftrightarrow>
     (if req_method r \<in> set [''POST'', ''PUT'', ''PATCH''] then True
      else req_content_length r > 0 \<or> req_transfer_encoding r \<noteq> [] \<or> (req_body r \<noteq> NilBody \<and> req_body r \<noteq> NoBody))"

definition MaxBodyBytes :: "int \<Rightarrow> 's middleware" where
  "MaxBodyBytes limit next r w =
     next (if shouldLimitBody r then r\<lparr>req_body := MaxBytesReader limit (req_body r), ctx_body_limit := Some limit\<rparr> else r) w"

abbreviation DefaultJSONBodyLimit :: int where "DefaultJSONBodyLimit \<equiv> 1048576"

definition jsonBodyLimit :: "request \<Rightarrow> int \<times> bool" where
  "jsonBodyLimit r =
     (case ctx_body_limit r of Some v \<Rightarrow> if v > 0 then (v, True) else (DefaultJSONBodyLimit, False)
      | None \<Rightarrow> (DefaultJSONBodyLimit, False))"

section \<open>Request timeout\<close>

text \<open>\<open>ctx.Err()\<close> is \<open>DeadlineExceeded\<close> once the clock has passed the deadline.\<close>

definition deadline_passed :: "request \<Rightarrow> 's world \<Rightarrow> bool" where
  "deadline_passed r w \<longleftrightarrow> (case ctx_deadline r of None \<Rightarrow> False | Some d \<Rightarrow> d \<le> now w)"

definition WithTimeout :: "int \<Rightarrow> 's world \<Rightarrow> request \<Rightarrow> request" where
  "WithTimeout timeout w r =
     r\<lparr>ctx_deadline := Some (case ctx_deadline r of None \<Rightarrow> now w + timeout | Some d \<Rightarrow> min d (now w + timeout))\<rparr>"

definition shouldBypassRequestTimeout :: "request \<Rightarrow> bool" where
  "shouldBypassRequestTimeout r \<longleftrightarrow>
     equal_fold (trim_space (header_get (req_header r) ''Upgrade'')) ''websocket'' \<or>
     contains_str ''upgrade'' (to_lower (header_get (req_header r) ''Connection'')) \<or>
     contains_str ''text/event-stream'' (to_lower (header_get (req_header r) ''Accept''))"

definition timeout_error :: go_error where
  "timeout_error = apperr_New CodeTimeout 504 ''request timed out''"

definition RequestTimeout :: "(Envelope \<Rightarrow> string) \<Rightarrow> int \<Rightarrow> 's middleware" where
  "RequestTimeout enc timeout next r w =
     (if timeout \<le> 0 \<or> shouldBypassRequestTimeout r then next r w
      else (let r' = WithTimeout timeout w r in
        case run_wrapped (TimeoutW 200 False) next r' w of
          Panic text (l, w') \<Rightarrow> Panic text w'
        | Ret (l, w') \<Rightarrow>
            (case l of
               TimeoutW s wroteHeader \<Rightarrow>
                 Ret (if deadline_passed r' w' \<and> \<not> wroteHeader
                      then response_Error enc timeout_error (ctx_request_id r') w' else w')
             | _ \<Rightarrow> Ret w')))"

section \<open>Route patterns\<close>

definition RoutePattern :: "request \<Rightarrow> int \<Rightarrow> string \<Rightarrow> string" where
  "RoutePattern r statusCode captured =
     (if statusCode = 404 then ''not_found'' else if captured \<noteq> [] then captured
      else (case route_pattern r of Some p \<Rightarrow> if p \<noteq> [] then p else ''unknown'' | None \<Rightarrow> ''unknown''))"

text \<open>\<open>CaptureRoutePattern\<close>. The route context is shared and mutable: what chi resolved for the request is known after the
  inner handler has run, and is the argument \<open>resolved\<close>. A writer without \<open>SetRoutePattern\<close> on top is left alone.\<close>

definition CaptureRoutePattern :: "(request \<Rightarrow> string option) \<Rightarrow> 's middleware" where
  "CaptureRoutePattern resolved next r w =
     bind_outcome (next r w) (\<lambda>w'. Ret (case resolved r of
         Some p \<Rightarrow> if p \<noteq> [] then w'\<lparr>layers := layer_set_pattern p (layers w')\<rparr> else w'
       | None \<Rightarrow> w'))"

section \<open>Tracing\<close>

record span =
  sp_name :: string
  sp_strings :: "(string \<times> string) list"
  sp_ints :: "(string \<times> int) list"
  sp_error :: "string option"
  sp_ok :: bool
  sp_description :: string

text \<open>The tracer (OpenTelemetry) is what it does to the services when a span ends; \<open>None\<close>: tracing is off.\<close>

type_synonym 's tracer = "(span \<Rightarrow> 's \<Rightarrow> 's) option"

definition normalizeTracingPathSet :: "string list \<Rightarrow> string list" where
  "normalizeTracingPathSet paths = filter (\<lambda>p. p \<noteq> []) (map trim_space paths)"

definition serverAddress :: "string \<Rightarrow> string \<times> int" where
  "serverAddress hostport0 =
     (let hostport = trim_space hostport0 in
      if hostport = [] then ([], 0)
      else (case SplitHostPort hostport of
          None \<Rightarrow> (hostport, 0)
        | Some (host, portRaw) \<Rightarrow> (case parse_int 64 portRaw of None \<Rightarrow> (host, 0) | Some port \<Rightarrow> (host, port))))"

definition request_span :: "request \<Rightarrow> int \<Rightarrow> string \<Rightarrow> span" where
  "request_span r statusCode captured =
     (let route = RoutePattern r statusCode captured; (host, port) = serverAddress (req_host r) in
      \<lparr>sp_name = req_method r @ '' '' @ route,
       sp_strings = [(''http.method'', req_method r), (''http.route'', route)] @
         (if ctx_request_id r \<noteq> [] then [(''request.id'', ctx_request_id r)] else []) @
         (if host \<noteq> [] then [(''server.address'', host)] else []),
       sp_ints = [(''http.status_code'', statusCode)] @ (if host \<noteq> [] \<and> port > 0 then [(''server.port'', port)] else []),
       sp_error = (if statusCode \<ge> 500 then Some (''http status '' @ itoa statusCode) else None),
       sp_ok = (statusCode < 500),
       sp_description = (if statusCode \<ge> 500 then ''server error'' else [])\<rparr>)"

definition panic_span :: "request \<Rightarrow> span" where
  "panic_span r = \<lparr>sp_name = req_method r @ '' unknown'', sp_strings = [], sp_ints = [], sp_error = Some ''panic recovered'',
     sp_ok = False, sp_description = ''panic''\<rparr>"

definition TracingWithExcludes :: "'s tracer \<Rightarrow> string list \<Rightarrow> 's middleware" where
  "TracingWithExcludes tracer excludePaths next r w =
     (case tracer of
        None \<Rightarrow> next r w
      | Some finish \<Rightarrow>
          if trim_space (req_path r) \<in> set (normalizeTracingPathSet excludePaths) then next r w
          else (case run_wrapped (CapturingW 200 []) next r w of
              Panic text (l, w') \<Rightarrow> Panic text (w'\<lparr>svc := finish (panic_span r) (svc w')\<rparr>)
            | Ret (l, w') \<Rightarrow>
                (case l of
                   CapturingW statusCode captured \<Rightarrow> Ret (w'\<lparr>svc := finish (request_span r statusCode captured) (svc w')\<rparr>)
                 | _ \<Rightarrow> Ret w')))"

section \<open>Access log\<close>

definition hexNibble :: "char \<Rightarrow> nat option" where
  "hexNibble c =
     (if 48 \<le> byte c \<and> byte c \<le> 57 then Some (byte c - 48)
      else if 97 \<le> byte c \<and> byte c \<le> 102 then Some (byte c - 97 + 10)
      else if 65 \<le> byte c \<and> byte c \<le> 70 then Some (byte c - 65 + 10) else None)"

text \<open>The loop over the first sixteen bytes, and the loop that packs at most eight.\<close>

fun hex_prefix :: "64 word \<Rightarrow> string \<Rightarrow> 64 word option" where
  "hex_prefix out [] = Some out"
| "hex_prefix out (c # s) =
     (case hexNibble c of None \<Rightarrow> None | Some n \<Rightarrow> hex_prefix (push_bit 4 out OR word_of_nat n) s)"

definition parseHexPrefix64 :: "string \<Rightarrow> 64 word option" where
  "parseHexPrefix64 value = (if length value < 16 then None else hex_prefix 0 (take 16 value))"

definition mixUint64 :: "64 word \<Rightarrow> 64 word" where
  "mixUint64 v0 =
     (let v1 = v0 XOR drop_bit 33 v0; v2 = v1 * 0xff51afd7ed558ccd; v3 = v2 XOR drop_bit 33 v2;
          v4 = v3 * 0xc4ceb9fe1a85ec53
      in v4 XOR drop_bit 33 v4)"

definition pack_bytes :: "string \<Rightarrow> 64 word" where
  "pack_bytes s = foldl (\<lambda>key c. push_bit 8 key OR word_of_nat (byte c)) 0 (take 8 s)"

definition sampleKeyFromRequestID :: "string \<Rightarrow> 64 word" where
  "sampleKeyFromRequestID requestID =
     (case parseHexPrefix64 requestID of
        Some key \<Rightarrow> key
      | None \<Rightarrow> mixUint64 (pack_bytes requestID XOR (word_of_nat (length requestID) * 0x9e3779b97f4a7c15)))"

definition float_le :: "float64 \<Rightarrow> float64 \<Rightarrow> bool" where
  "float_le x y \<longleftrightarrow> float_less x y \<or> (x = y \<and> x \<noteq> NaN)"

text \<open>\<open>threshold\<close> stands for \<open>uint64(sampleRate * float64(^uint64(0)))\<close>.\<close>

definition shouldSampleRequest :: "(float64 \<Rightarrow> 64 word) \<Rightarrow> string \<Rightarrow> float64 \<Rightarrow> bool" where
  "shouldSampleRequest threshold requestID sampleRate \<longleftrightarrow>
     (if float_le (Finite 1) sampleRate then True else if float_le sampleRate (Finite 0) then False
      else if requestID = [] then False else sampleKeyFromRequestID requestID \<le> threshold sampleRate)"

definition access_event :: "AccessLogConfig \<Rightarrow> request \<Rightarrow> access_writer \<Rightarrow> int \<Rightarrow> int \<Rightarrow> bool \<Rightarrow> bool \<Rightarrow> log_event" where
  "access_event cfg r aw statusCode duration slow sampled =
     \<lparr>ev_level = (if statusCode \<ge> 500 then ''error'' else if slow \<or> statusCode \<ge> 400 then ''warn'' else ''info''),
      ev_strings = [(''method'', req_method r), (''route'', RoutePattern r statusCode (aw_routePattern aw))] @
        (if ctx_request_id r \<noteq> [] then [(''request_id'', ctx_request_id r)] else []) @
        (if al_IncludeUserAgent cfg then [(''user_agent'', header_get (req_header r) ''User-Agent'')] else []) @
        (if al_IncludeRemoteIP cfg
         then [(''remote_ip'', case ClientIPFromContext r of Some a \<Rightarrow> a | None \<Rightarrow> remoteIP (req_remote r))] else []),
      ev_ints = [(''status'', statusCode), (''duration_ms'', duration div millisecond), (''bytes_written'', aw_bytesWritten aw)],
      ev_bools = [(''sampled'', sampled)],
      ev_message = ''request''\<rparr>"

definition log_access :: "(float64 \<Rightarrow> 64 word) \<Rightarrow> AccessLogConfig \<Rightarrow> request \<Rightarrow> access_writer \<Rightarrow> int \<Rightarrow> 's world \<Rightarrow> 's world" where
  "log_access threshold cfg r aw start w =
     (let duration = now w - start;
          statusCode = (if deadline_passed r w \<and> \<not> aw_wroteHeader aw then 504 else aw_statusCode aw);
          slow = (al_SlowThreshold cfg > 0 \<and> duration \<ge> al_SlowThreshold cfg);
          alwaysLog = (statusCode \<ge> 500 \<or> slow);
          sampled = shouldSampleRequest threshold (ctx_request_id r) (al_SampleRate cfg)
      in if \<not> alwaysLog \<and> \<not> sampled then w
         else w\<lparr>logs := logs w @ [access_event cfg r aw statusCode duration slow sampled]\<rparr>)"

abbreviation new_access :: access_writer where
  "new_access \<equiv> \<lparr>aw_statusCode = 200, aw_bytesWritten = 0, aw_routePattern = [], aw_wroteHeader = False\<rparr>"

definition AccessLog :: "(float64 \<Rightarrow> 64 word) \<Rightarrow> AccessLogConfig \<Rightarrow> 's middleware" where
  "AccessLog threshold cfg next r w =
     (if \<not> al_Enabled cfg \<or> req_path r \<in> set (al_ExcludePaths cfg) then next r w
      else (case run_wrapped (AccessW new_access) next r w of
          Panic text (l, w') \<Rightarrow> Panic text w'
        | Ret (l, w') \<Rightarrow> (case l of AccessW aw \<Rightarrow> Ret (log_access threshold cfg r aw (now w) w') | _ \<Rightarrow> Ret w')))"

section \<open>The global middleware\<close>

definition WithFeatureMiddleware :: "'s middleware option list \<Rightarrow> 's middleware list" where
  "WithFeatureMiddleware mws = List.map_filter id mws"

definition enabled :: "bool \<Rightarrow> 's middleware \<Rightarrow> 's middleware" where
  "enabled b mw next = (if b then mw next else next)"

definition AssembleGlobalMiddleware :: "(Envelope \<Rightarrow> string) \<Rightarrow> netlib \<Rightarrow> (float64 \<Rightarrow> 64 word) \<Rightarrow> 's random \<Rightarrow> 's tracer
    \<Rightarrow> 's middleware list \<Rightarrow> HTTPMiddlewareConfig \<Rightarrow> 's middleware" where
  "AssembleGlobalMiddleware enc N threshold rand tracer feature cfg handler0 =
     (let h1 = foldr (\<lambda>mw h. mw h) feature handler0;
          h2 = AccessLog threshold (mw_AccessLog cfg) h1;
          h3 = TracingWithExcludes tracer (mw_TracingExcludePaths cfg) h2;
          h4 = RequestTimeout enc (mw_RequestTimeout cfg) h3;
          h5 = enabled (mw_MaxBodyBytes cfg > 0) (MaxBodyBytes (mw_MaxBodyBytes cfg)) h4;
          h6 = enabled (mw_SecurityHeadersEnabled cfg) SecurityHeaders h5;
          h7 = enabled (co_Enabled (mw_CORS cfg)) (CORS enc (mw_CORS cfg)) h6;
          h8 = enabled (mw_RecovererEnabled cfg) (Recoverer enc) h7;
          h9 = ClientIP N (mw_ClientIP cfg) h8
      in enabled (mw_RequestIDEnabled cfg) (RequestID rand) h9)"

section \<open>Metrics\<close>

text \<open>The collectors (Prometheus): what counting a request and moving the in-flight gauge do to the services.\<close>

record 's collectors =
  mc_request :: "string \<Rightarrow> string \<Rightarrow> string \<Rightarrow> int \<Rightarrow> 's \<Rightarrow> 's"
  mc_in_flight :: "int \<Rightarrow> 's \<Rightarrow> 's"

definition normalizePathSet :: "string list \<Rightarrow> string list" where
  "normalizePathSet paths = filter (\<lambda>p. p \<noteq> []) (map trim_space paths)"

definition metrics_Path :: "MetricsConfig \<Rightarrow> string" where
  "metrics_Path cfg = (if me_Path cfg = [] then ''/metrics'' else me_Path cfg)"

definition isExcludedPath :: "MetricsConfig \<Rightarrow> string \<Rightarrow> bool" where
  "isExcludedPath cfg path \<longleftrightarrow> trim_space path \<in> set (normalizePathSet (me_ExcludePaths cfg))"

definition metrics_routePattern :: "request \<Rightarrow> int \<Rightarrow> string" where
  "metrics_routePattern r statusCode = RoutePattern r statusCode []"

definition InstrumentHTTP :: "'s collectors \<Rightarrow> MetricsConfig \<Rightarrow> 's middleware" where
  "InstrumentHTTP mc cfg next r w =
     (if \<not> me_Enabled cfg \<or> req_path r = metrics_Path cfg \<or> isExcludedPath cfg (req_path r) then next r w
      else (case run_wrapped (CapturingW 200 []) next r (w\<lparr>svc := mc_in_flight mc 1 (svc w)\<rparr>) of
          Panic text (l, w') \<Rightarrow> Panic text (w'\<lparr>svc := mc_in_flight mc (- 1) (svc w')\<rparr>)
        | Ret (l, w') \<Rightarrow>
            (case l of
               CapturingW statusCode captured \<Rightarrow>
                 (let route = (if captured = [] then metrics_routePattern r statusCode else captured)
                  in Ret (w'\<lparr>svc := mc_in_flight mc (- 1)
                       (mc_request mc (req_method r) route (itoa statusCode) (now w' - now w) (svc w'))\<rparr>))
             | _ \<Rightarrow> Ret w')))"

section \<open>The router\<close>

text \<open>A route with its composed handler. Matching is chi's: it answers the index of the route that serves a method and
  path with its parameters, or that only the path is known, or neither.\<close>

datatype routing = Found nat "string \<Rightarrow> string" | NoMethod | NoRoute

record 's route =
  rt_method :: string
  rt_pattern :: string
  rt_handler :: "'s handler"

record 's Mux =
  mx_rules :: "RouteRule option list"
  mx_routes :: "'s route list"
  mx_use :: "'s middleware list"

definition NewMux :: "'s Mux" where
  "NewMux = \<lparr>mx_rules = [], mx_routes = [], mx_use = []\<rparr>"

definition UseRouteRules :: "RouteRule option list \<Rightarrow> 's Mux \<Rightarrow> 's Mux" where
  "UseRouteRules rules m = m\<lparr>mx_rules := mx_rules m @ rules\<rparr>"

definition Mux_Use :: "'s middleware list \<Rightarrow> 's Mux \<Rightarrow> 's Mux" where
  "Mux_Use mws m = m\<lparr>mx_use := mx_use m @ mws\<rparr>"

definition Mux_Handle :: "policy_table \<Rightarrow> string \<Rightarrow> string \<Rightarrow> 's handler \<Rightarrow> 's middleware policy option list \<Rightarrow> 's Mux
    \<Rightarrow> route_error + 's Mux" where
  "Mux_Handle t verb pattern h policies m =
     (case MustValidateRouteWith t (mx_rules m) verb pattern policies of
        Some e \<Rightarrow> Inl e
      | None \<Rightarrow> Inr (m\<lparr>mx_routes := mx_routes m @ [\<lparr>rt_method = verb, rt_pattern = pattern,
          rt_handler = Chain h (map (map_option behaviour) policies)\<rparr>]\<rparr>))"

definition Mux_ServeHTTP :: "(Envelope \<Rightarrow> string) \<Rightarrow> ((string \<times> string) list \<Rightarrow> string \<Rightarrow> string \<Rightarrow> routing) \<Rightarrow> 's Mux \<Rightarrow> 's handler" where
  "Mux_ServeHTTP enc chi m =
     foldr (\<lambda>mw h. mw h) (mx_use m) (\<lambda>r w.
       case chi (map (\<lambda>rt. (rt_method rt, rt_pattern rt)) (mx_routes m)) (req_method r) (req_path r) of
         Found i params \<Rightarrow> rt_handler (mx_routes m ! i) (r\<lparr>url_param := params, route_pattern := Some (rt_pattern (mx_routes m ! i))\<rparr>) w
       | NoMethod \<Rightarrow> Ret (response_Error enc (apperr_New CodeMethodNotAllowed 405 ''method not allowed'') (ctx_request_id r) w)
       | NoRoute \<Rightarrow> Ret (response_Error enc (apperr_New CodeNotFound 404 ''not found'') (ctx_request_id r) w))"

section \<open>Frames\<close>

lemma writer_logs [simp]:
  "logs (Write p w) = logs w" "logs (WriteHeader c w) = logs w" "logs (SetHeader k v w) = logs w" "logs (AddHeader k v w) = logs w"
  "logs (response_Error enc e rid w) = logs w"
  by (simp_all add: Write_def WriteHeader_def SetHeader_def AddHeader_def response_Error_def response_JSON_def Let_def case_prod_unfold)

lemma response_Error_header:
  "bw_header (base (response_Error enc e rid w)) = header_set (bw_header (base w)) ''Content-Type'' ''application/json; charset=utf-8''"
  by (simp add: response_Error_def response_JSON_def SetHeader_def Let_def case_prod_unfold)

lemma map_of_header_add:
  "map_of (header_add h k v) x = (if x = canonical_header k then Some (header_values h k @ [v]) else map_of h x)"
  by (simp add: header_add_def update_conv)

lemma map_of_header_set: "map_of (header_set h k v) x = (if x = canonical_header k then Some [v] else map_of h x)"
  by (simp add: header_set_def update_conv)

text \<open>Reading one header after another was set: decided by the canonical names.\<close>

lemma GetHeader_SetHeader: "GetHeader k (SetHeader k' v w) = (if canonical_header k = canonical_header k' then v else GetHeader k w)"
  by (simp add: GetHeader_def SetHeader_def header_get_def header_values_def map_of_header_set)

lemma GetHeader_AddHeader: "canonical_header k \<noteq> canonical_header k' \<Longrightarrow> GetHeader k (AddHeader k' v w) = GetHeader k w"
  by (simp add: GetHeader_def AddHeader_def header_get_def header_values_def map_of_header_add)

lemma GetHeader_Vary: "canonical_header k \<noteq> canonical_header ''Vary'' \<Longrightarrow> GetHeader k (appendVaryHeader v w) = GetHeader k w"
  by (simp add: appendVaryHeader_def Let_def GetHeader_AddHeader)

lemma GetHeader_set_when: "GetHeader k (set_when b k' v w) = (if b \<and> canonical_header k = canonical_header k' then v else GetHeader k w)"
  by (simp add: set_when_def GetHeader_SetHeader)

lemma GetHeader_response_Error:
  "canonical_header k \<noteq> canonical_header ''Content-Type'' \<Longrightarrow> GetHeader k (response_Error enc e rid w) = GetHeader k w"
  by (simp add: GetHeader_def response_Error_header header_get_def header_values_def map_of_header_set)

lemma GetHeader_WriteHeader [simp]: "GetHeader k (WriteHeader c w) = GetHeader k w"
  by (simp add: GetHeader_def)

abbreviation ACAO :: string where "ACAO \<equiv> ''Access-Control-Allow-Origin''"
abbreviation ACAC :: string where "ACAC \<equiv> ''Access-Control-Allow-Credentials''"

lemma cors_canonical:
  "canonical_header ACAO = ACAO" "canonical_header ACAC = ACAC" "canonical_header ''Vary'' = ''Vary''"
  "canonical_header ''Content-Type'' = ''Content-Type''"
  "canonical_header ''Access-Control-Expose-Headers'' = ''Access-Control-Expose-Headers''"
  "canonical_header ''Access-Control-Allow-Methods'' = ''Access-Control-Allow-Methods''"
  "canonical_header ''Access-Control-Allow-Headers'' = ''Access-Control-Allow-Headers''"
  "canonical_header ''Access-Control-Max-Age'' = ''Access-Control-Max-Age''"
  "canonical_header ''Access-Control-Allow-Private-Network'' = ''Access-Control-Allow-Private-Network''"
  by code_simp+

lemmas cors_header_simps = GetHeader_SetHeader GetHeader_Vary GetHeader_set_when GetHeader_response_Error cors_canonical

lemma cors_grant_headers:
  "GetHeader ACAO (cors_grant cfg allowAll origin w) = (if allowAll \<and> \<not> co_AllowCredentials cfg then ''*'' else origin)"
  "GetHeader ACAC (cors_grant cfg allowAll origin w) = (if co_AllowCredentials cfg then ''true'' else GetHeader ACAC w)"
  by (simp_all add: cors_grant_def Let_def cors_header_simps)

lemma cors_preflight_headers:
  "GetHeader ACAO (cors_preflight cfg r w) = GetHeader ACAO w" "GetHeader ACAC (cors_preflight cfg r w) = GetHeader ACAC w"
  by (simp_all add: cors_preflight_def Let_def cors_header_simps)

text \<open>
  C10: Cross-origin grants are confined. Whatever the configuration, a response to a request whose origin is denied
  or not allowed carries no grant; a grant names the request's own origin or, without
  credentials, the wildcard; credentials are granted only to an origin that the allow list names, never with a wildcard; and a
  preflight request is answered without reaching the handler.
\<close>

theorem cors_safe:
  assumes "co_Enabled cfg" and "GetHeader ACAO w = []" and "GetHeader ACAC w = []"
    and "origin = trim_space (header_get (req_header r) ''Origin'')" and "origin \<noteq> []"
  shows "\<exists>w'. (if isPreflight r then CORS enc cfg next r w = Ret w' else CORS enc cfg next r w = next r w') \<and>
    (GetHeader ACAO w' \<noteq> [] \<longrightarrow>
       \<not> isDeniedOrigin origin (normalizeOrigins (co_DenyOrigins cfg)) \<and>
       (GetHeader ACAO w' = origin \<and> to_lower origin \<in> set (normalizeOrigins (co_AllowOrigins cfg)) \<or>
        GetHeader ACAO w' = ''*'' \<and> GetHeader ACAC w' = [] \<and> ''*'' \<in> set (normalizeOrigins (co_AllowOrigins cfg)))) \<and>
    (GetHeader ACAC w' \<noteq> [] \<longrightarrow>
       co_AllowCredentials cfg \<and> GetHeader ACAO w' = origin \<and> ''*'' \<notin> set (normalizeOrigins (co_AllowOrigins cfg)))"
proof -
  let ?allow = "normalizeOrigins (co_AllowOrigins cfg)" and ?deny = "normalizeOrigins (co_DenyOrigins cfg)"
  let ?all = "''*'' \<in> set ?allow"
  show ?thesis
  proof (cases "isDeniedOrigin origin ?deny \<or> \<not> isAllowedOrigin origin ?allow ?all (co_AllowCredentials cfg)")
    case True
    then have "CORS enc cfg next r w =
        (if isPreflight r then Ret (response_Error enc origin_error (ctx_request_id r) w) else next r w)"
      using assms by (simp add: CORS_def Let_def)
    then show ?thesis using assms(2,3)
      by (intro exI [of _ "if isPreflight r then response_Error enc origin_error (ctx_request_id r) w else w"])
        (simp add: cors_header_simps)
  next
    case False
    let ?w = "cors_grant cfg ?all origin w"
    have "CORS enc cfg next r w = (if isPreflight r then Ret (cors_preflight cfg r ?w) else next r ?w)"
      using assms False by (simp add: CORS_def Let_def)
    then show ?thesis using False assms(3,5)
      by (intro exI [of _ "if isPreflight r then cors_preflight cfg r ?w else ?w"])
        (auto simp: cors_preflight_headers cors_grant_headers isAllowedOrigin_def)
  qed
qed

text \<open>
  The request identifier is bounded and safe to log and to echo: whatever the client sends, and even when the random source
  fails, the context and the response header get the same identifier, of 1 to 64 letters, digits,
  dots, dashes or underscores; a client's identifier of that form is kept.
\<close>

theorem request_id_safe:
  "\<exists>rid. RequestID rand next r w = next (r\<lparr>ctx_request_id := rid\<rparr>) (SetHeader ''X-Request-Id'' rid w) \<and>
     1 \<le> length rid \<and> length rid \<le> maxRequestIDLen \<and> list_all request_id_byte rid \<and>
     (let sent = trim_space (header_get (req_header r) ''X-Request-Id'') in
        sent \<noteq> [] \<and> length sent \<le> maxRequestIDLen \<and> list_all request_id_byte sent \<longrightarrow> rid = sent)"
proof -
  have digit: "request_id_byte (hex_digit n)" for n
  proof -
    have "list_all request_id_byte ''0123456789abcdef''" by code_simp
    moreover have "n mod 16 < length ''0123456789abcdef''" by simp
    ultimately show ?thesis unfolding hex_digit_def by (simp only: list_all_length)
  qed
  have "list_all request_id_byte (hex_encode bs) \<and> length (hex_encode bs) = 2 * length bs" for bs
    by (induction bs) (simp_all add: hex_encode_def digit)
  moreover have "request_id_byte (CHR ''0'')" by code_simp
  ultimately have new: "list_all request_id_byte (newRequestID rand w) \<and> length (newRequestID rand w) = 32"
    by (auto simp: newRequestID_def list_all_iff split: option.splits)
  let ?sent = "normalizeRequestID (header_get (req_header r) ''X-Request-Id'')"
  show ?thesis
    by (rule exI [of _ "if ?sent = [] then newRequestID rand w else ?sent"])
      (use new in \<open>auto simp: RequestID_def Let_def normalizeRequestID_def Suc_le_eq\<close>)
qed

section \<open>Witnesses for the header middleware\<close>

definition sample_cors :: CORSConfig where
  "sample_cors = \<lparr>co_Enabled = True, co_AllowOrigins = [''https://app.example''], co_DenyOrigins = [], co_AllowMethods = [],
     co_AllowHeaders = [], co_ExposeHeaders = [], co_AllowCredentials = True, co_MaxAge = 0, co_AllowPrivateNetwork = False\<rparr>"

definition cors_request :: request where
  "cors_request = blank_request\<lparr>req_header := [(''Origin'', [''https://app.example''])]\<rparr>"

theorem cors_safe_witness:
  "\<exists>w'. CORS (\<lambda>e. []) sample_cors (ok_handler []) cors_request (blank_world ()) = ok_handler [] cors_request w' \<and>
     (GetHeader ACAC w' \<noteq> [] \<longrightarrow> GetHeader ACAO w' = ''https://app.example'')"
proof -
  have "header_get (req_header cors_request) ''Origin'' = ''https://app.example''" by code_simp
  moreover have "trim_space ''https://app.example'' = ''https://app.example''" by code_simp
  moreover have "GetHeader ACAO (blank_world ()) = []" "GetHeader ACAC (blank_world ()) = []" by code_simp+
  moreover have "co_Enabled sample_cors" "\<not> isPreflight cors_request" by code_simp+
  ultimately show ?thesis
    using cors_safe [of sample_cors "blank_world ()" "''https://app.example''" cors_request "\<lambda>e. []" "ok_handler []"] by auto
qed

theorem request_id_safe_witness:
  "\<exists>rid. RequestID (\<lambda>w. None) (ok_handler []) blank_request (blank_world ()) =
     ok_handler [] (blank_request\<lparr>ctx_request_id := rid\<rparr>) (SetHeader ''X-Request-Id'' rid (blank_world ())) \<and> 1 \<le> length rid"
  using request_id_safe [of "\<lambda>w. None" "ok_handler []" blank_request "blank_world ()"] by blast

section \<open>Client addresses cannot be forged\<close>

lemma trusted_needs_proxies: "isTrustedProxy N peer (parseTrustedProxies N items) \<Longrightarrow> items \<noteq> []"
  by (auto simp: isTrustedProxy_def parseTrustedProxies_def map_filter_def)

text \<open>
  C11: A client that does not come through a trusted proxy cannot choose its address. Whatever headers it sends,
  the address in the context is the peer of its connection, and so is the key of an address-keyed
  rate limit; with no proxies configured this holds for every client.
\<close>

theorem client_ip_not_forged:
  assumes "cip_TrustedProxies cfg = [] \<or>
    \<not> isTrustedProxy N (remoteIP (req_remote r)) (parseTrustedProxies N (cip_TrustedProxies cfg))"
  shows "ClientIP N cfg next (r\<lparr>req_header := h\<rparr>) w =
      next (r\<lparr>req_header := h, ctx_client_ip := Some (remoteIP (req_remote r))\<rparr>) w \<and>
    (\<forall>h'. KeyByIP (r\<lparr>req_header := h, ctx_client_ip := Some (resolve_client_ip N (parseTrustedProxies N (cip_TrustedProxies cfg)) (r\<lparr>req_header := h\<rparr>))\<rparr>) =
          KeyByIP (r\<lparr>req_header := h', ctx_client_ip := Some (resolve_client_ip N (parseTrustedProxies N (cip_TrustedProxies cfg)) (r\<lparr>req_header := h'\<rparr>))\<rparr>))"
proof -
  have untrusted: "\<not> isTrustedProxy N (remoteIP (req_remote r)) (parseTrustedProxies N (cip_TrustedProxies cfg))"
    using assms trusted_needs_proxies by blast
  have "resolve_client_ip N (parseTrustedProxies N (cip_TrustedProxies cfg)) (r\<lparr>req_header := h\<rparr>) = remoteIP (req_remote r)" for h
    using untrusted by (simp add: resolve_client_ip_def Let_def)
  then show ?thesis by (simp add: ClientIP_def KeyByIP_def ClientIPFromContext_def Let_def)
qed

theorem client_ip_not_forged_witness:
  "ClientIP no_netlib \<lparr>cip_TrustedProxies = []\<rparr> (ok_handler []) (blank_request\<lparr>req_header := [(''X-Forwarded-For'', [''1.2.3.4''])]\<rparr>) (blank_world ()) =
     ok_handler [] (blank_request\<lparr>req_header := [(''X-Forwarded-For'', [''1.2.3.4''])], ctx_client_ip := Some (remoteIP ''10.0.0.1:4242'')\<rparr>) (blank_world ())"
  using client_ip_not_forged [of "\<lparr>cip_TrustedProxies = []\<rparr>" no_netlib blank_request "ok_handler []"
      "[(''X-Forwarded-For'', [''1.2.3.4''])]" "blank_world ()"]
  by (simp add: blank_request_def)

section \<open>Panics\<close>

text \<open>The stack of the server when the recoverer runs: at most the metrics writer.\<close>

definition outermost :: "layer list \<Rightarrow> bool" where
  "outermost ls \<longleftrightarrow> list_all (\<lambda>l. \<exists>s p. l = CapturingW s p) ls"

lemma outermost_error:
  assumes "outermost ls"
  shows "snd (layer_write_header c ls b) = base_write_header c b" and "snd (layer_write p ls b) = base_write p b"
    and "outermost (fst (layer_write_header c ls b))"
  using assms by (induction ls) (auto simp: outermost_def Let_def split: prod.splits)

lemma outermost_response:
  assumes "outermost (layers w)" and "bw_status (base w) = None" and "error_response e rid = (st, payload)" and "200 \<le> st"
  shows "bw_status (base (response_Error enc e rid w)) = Some st \<and> bw_body (base (response_Error enc e rid w)) = bw_body (base w) @ enc payload"
  using assms outermost_error(1,2) outermost_error(3) [OF assms(1), of st]
  by (auto simp: response_Error_def response_JSON_def WriteHeader_def Write_def SetHeader_def Let_def case_prod_unfold
      base_write_header_def base_write_def)

lemma Recoverer_returns: "\<exists>w'. Recoverer enc next r w = Ret w'"
  by (simp add: Recoverer_def split: outcome.splits)

text \<open>
  C6: With the recoverer enabled no panic of a handler or of an inner middleware leaves the global middleware, whatever the rest of the
  configuration. A panic before anything was sent is answered with status 500 and the fixed internal-error
  envelope, in which neither the panic's text nor anything but the request identifier varies; the text goes to one log line.
\<close>

theorem panics_recovered:
  assumes "mw_RecovererEnabled cfg"
  shows "(\<exists>w'. AssembleGlobalMiddleware enc N threshold rand tracer feature cfg handler r w = Ret w') \<and>
    (\<forall>msg w1. next r w = Panic msg w1 \<and> outermost (layers w1) \<and> bw_status (base w1) = None \<longrightarrow>
      (\<exists>w2. Recoverer enc next r w = Ret w2 \<and> bw_status (base w2) = Some 500 \<and>
        bw_body (base w2) = bw_body (base w1) @ enc (error_envelope ''internal_error'' ''internal server error'' None (ctx_request_id r)) \<and>
        logs w2 = logs w1 @ [panic_event r msg]))"
proof (rule conjI)
  show "\<exists>w'. AssembleGlobalMiddleware enc N threshold rand tracer feature cfg handler r w = Ret w'"
    using assms Recoverer_returns by (auto simp: AssembleGlobalMiddleware_def Let_def enabled_def RequestID_def ClientIP_def)
next
  show "\<forall>msg w1. next r w = Panic msg w1 \<and> outermost (layers w1) \<and> bw_status (base w1) = None \<longrightarrow>
      (\<exists>w2. Recoverer enc next r w = Ret w2 \<and> bw_status (base w2) = Some 500 \<and>
        bw_body (base w2) = bw_body (base w1) @ enc (error_envelope ''internal_error'' ''internal server error'' None (ctx_request_id r)) \<and>
        logs w2 = logs w1 @ [panic_event r msg])"
  proof (intro allI impI)
    fix msg w1 assume a: "next r w = Panic msg w1 \<and> outermost (layers w1) \<and> bw_status (base w1) = None"
    let ?w = "w1\<lparr>logs := logs w1 @ [panic_event r msg]\<rparr>"
    have e: "error_response (Plain []) (ctx_request_id r) = (500, error_envelope ''internal_error'' ''internal server error'' None (ctx_request_id r))"
      by (simp add: error_response_def)
    have o: "outermost (layers ?w)" "bw_status (base ?w) = None" using a by simp_all
    show "\<exists>w2. Recoverer enc next r w = Ret w2 \<and> bw_status (base w2) = Some 500 \<and>
        bw_body (base w2) = bw_body (base w1) @ enc (error_envelope ''internal_error'' ''internal server error'' None (ctx_request_id r)) \<and>
        logs w2 = logs w1 @ [panic_event r msg]"
      using a outermost_response [OF o e, of enc] by (simp add: Recoverer_def)
  qed
qed

definition panicking :: "'s handler" where
  "panicking r w = Panic ''boom'' w"

theorem panics_recovered_witness:
  "\<exists>w2. Recoverer (\<lambda>e. ''E'') panicking blank_request (blank_world ()) = Ret w2 \<and> bw_status (base w2) = Some 500"
proof -
  have "mw_RecovererEnabled (hc_Middleware (cf_HTTP (config_of Map.empty)))"
    by (simp add: config_of_def build_config_def default_readers load_http_def Let_def)
  from panics_recovered [OF this, of "\<lambda>e. ''E''" no_netlib "\<lambda>f. 0" "\<lambda>w. None" None "[]" panicking blank_request "blank_world ()" panicking]
  show ?thesis by (auto simp: panicking_def outermost_def blank_world_def)
qed

section \<open>Sampling\<close>

lemma xorshift_twice: "(x XOR drop_bit 33 x) XOR drop_bit 33 (x XOR drop_bit 33 x) = x" for x :: "64 word"
proof (rule bit_word_eqI)
  fix n assume "n < LENGTH(64)"
  moreover have "\<not> bit x (66 + n)" using bit_imp_le_length [of x "66 + n"] by auto
  ultimately show "bit ((x XOR drop_bit 33 x) XOR drop_bit 33 (x XOR drop_bit 33 x)) n = bit x n"
    by (auto simp: bit_simps add.commute)
qed

lemma xorshift_inj: "inj (\<lambda>x :: 64 word. x XOR drop_bit 33 x)"
  by (rule inj_on_inverseI [of _ "\<lambda>x. x XOR drop_bit 33 x"]) (rule xorshift_twice)

lemma unit_mult_inj: "c * d = 1 \<Longrightarrow> inj (\<lambda>x. x * c)" for c d :: "64 word"
  by (rule inj_on_inverseI [of _ "\<lambda>x. x * d"]) (simp add: mult.assoc)

lemma mixUint64_bij: "bij mixUint64"
proof -
  let ?s = "\<lambda>x :: 64 word. x XOR drop_bit 33 x"
  let ?a = "\<lambda>x :: 64 word. x * 0xff51afd7ed558ccd" and ?b = "\<lambda>x :: 64 word. x * 0xc4ceb9fe1a85ec53"
  have a: "inj ?a" by (rule unit_mult_inj [of _ "0x4f74430c22a54005"]) simp
  have b: "inj ?b" by (rule unit_mult_inj [of _ "0x9cb4b2f8129337db"]) simp
  have "inj (?s \<circ> (?b \<circ> (?s \<circ> (?a \<circ> ?s))))" by (intro inj_compose xorshift_inj a b)
  also have "?s \<circ> (?b \<circ> (?s \<circ> (?a \<circ> ?s))) = mixUint64" by (simp add: fun_eq_iff mixUint64_def Let_def)
  finally show ?thesis by (simp add: bij_def finite_UNIV_inj_surj)
qed

lemma nibble_step: "n < 16 \<Longrightarrow> push_bit 4 x OR word_of_nat n = x * 16 + word_of_nat n" for x :: "64 word"
proof -
  assume n: "n < 16"
  have "\<not> bit (push_bit 4 x) i \<or> \<not> bit (word_of_nat n :: 64 word) i" for i
  proof (cases "i < 4")
    case False
    have "n < 2 ^ 4" using n by simp
    also have "\<dots> \<le> (2 :: nat) ^ i" using False by (intro power_increasing) auto
    finally have "\<not> bit n i" by (simp add: bit_iff_odd)
    then show ?thesis by (simp add: bit_simps)
  qed (simp add: bit_simps)
  then have "push_bit 4 x AND word_of_nat n = (0 :: 64 word)" by (auto simp: bit_eq_iff bit_and_iff)
  then have "push_bit 4 x + word_of_nat n = push_bit 4 x OR (word_of_nat n :: 64 word)" by (rule disjunctive_add_eq_or)
  then show ?thesis by (simp add: push_bit_eq_mult)
qed

lemma hexNibble_digit: "hexNibble (hex_digit n) = Some (n mod 16)"
proof -
  have "\<forall>i < 16. hexNibble (''0123456789abcdef'' ! i) = Some i" by (simp add: hexNibble_def byte_def All_less_Suc numeral_eq_Suc)
  then show ?thesis by (simp add: hex_digit_def)
qed

lemma hex_encode_append [simp]: "hex_encode (xs @ ys) = hex_encode xs @ hex_encode ys"
  by (simp add: hex_encode_def)

lemma length_hex_encode [simp]: "length (hex_encode bs) = 2 * length bs"
  by (induction bs) (simp_all add: hex_encode_def)

text \<open>Eight bytes as one big-endian number.\<close>

definition big_endian :: "64 word \<Rightarrow> nat list \<Rightarrow> 64 word" where
  "big_endian = foldl (\<lambda>key b. key * 256 + word_of_nat b)"

lemma hex_prefix_encode:
  "list_all (\<lambda>b. b < 256) bs \<Longrightarrow> hex_prefix out (hex_encode bs) = Some (big_endian out bs)"
proof (induction bs arbitrary: out)
  case Nil
  then show ?case by (simp add: hex_encode_def big_endian_def)
next
  case (Cons b bs)
  have "(word_of_nat b :: 64 word) = word_of_nat (b div 16 * 16 + b mod 16)" by simp
  also have "\<dots> = word_of_nat (b div 16) * 16 + word_of_nat (b mod 16)" by (simp only: of_nat_add of_nat_mult of_nat_numeral)
  finally have sum: "(out * 16 + word_of_nat (b div 16)) * 16 + word_of_nat (b mod 16) = out * 256 + word_of_nat b"
    by (simp add: algebra_simps)
  have "b div 16 < 16" "b div 16 mod 16 = b div 16" using Cons.prems by (simp_all add: less_mult_imp_div_less)
  then have "hex_prefix out (hex_encode (b # bs)) =
      hex_prefix ((out * 16 + word_of_nat (b div 16)) * 16 + word_of_nat (b mod 16)) (hex_encode bs)"
    by (simp only: hex_encode_def list.map concat.simps append.simps hex_prefix.simps hexNibble_digit option.case) (simp add: nibble_step)
  then have "hex_prefix out (hex_encode (b # bs)) = hex_prefix (out * 256 + word_of_nat b) (hex_encode bs)"
    by (simp only: sum)
  with Cons show ?case by (simp add: big_endian_def)
qed

text \<open>
  Log sampling is unbiased. The sampling key of a generated request identifier is exactly the number of its first eight random
  bytes, so the identifiers that are sampled are those below the threshold; identifiers of
  another form are spread by a mixing function that is a bijection of the 64-bit words.
\<close>

theorem sampling_key_exact:
  assumes "rand w = Some b" and "\<And>i. i < 16 \<Longrightarrow> b i < 256"
  shows "sampleKeyFromRequestID (newRequestID rand w) = big_endian 0 (map b [0..<8]) \<and> bij mixUint64"
proof -
  have upt: "[0..<16] = [0..<8] @ [8..<16]" using upt_add_eq_append [of 0 8 8] by simp
  have "hex_prefix 0 (hex_encode (map b [0..<8])) = Some (big_endian 0 (map b [0..<8]))"
    by (rule hex_prefix_encode) (simp add: list_all_iff assms(2))
  moreover have "take 16 (newRequestID rand w) = hex_encode (map b [0..<8])"
    by (simp add: newRequestID_def assms(1) upt)
  ultimately have "parseHexPrefix64 (newRequestID rand w) = Some (big_endian 0 (map b [0..<8]))"
    by (simp add: parseHexPrefix64_def newRequestID_def assms(1))
  then show ?thesis by (simp add: sampleKeyFromRequestID_def mixUint64_bij)
qed

theorem sampling_key_exact_witness:
  "sampleKeyFromRequestID (newRequestID (\<lambda>w. Some (\<lambda>i. i)) (blank_world ())) = big_endian 0 (map (\<lambda>i. i) [0..<8])"
  using sampling_key_exact [of "\<lambda>w. Some (\<lambda>i. i)" "blank_world ()" "\<lambda>i. i"] by simp

section \<open>What the access log records\<close>

text \<open>
  The access log misses no slow request and no server error that a handler answers: with logging on and the path not excluded,
  such a request appends exactly one event with its status, whatever the sampling rate. A handler that panics, though,
  appends none: the 500 that the recoverer sends outside the access log is not in it.
\<close>

theorem server_errors_logged:
  assumes "al_Enabled cfg" and "req_path r \<notin> set (al_ExcludePaths cfg)"
  shows "(\<forall>aw w1. run_wrapped (AccessW new_access) next r w = Ret (AccessW aw, w1) \<and>
            (aw_statusCode aw \<ge> 500 \<or> 0 < al_SlowThreshold cfg \<and> al_SlowThreshold cfg \<le> now w1 - now w) \<and> \<not> deadline_passed r w1 \<longrightarrow>
          (\<exists>ev. AccessLog threshold cfg next r w = Ret (w1\<lparr>logs := logs w1 @ [ev]\<rparr>) \<and> (''status'', aw_statusCode aw) \<in> set (ev_ints ev) \<and>
            (aw_statusCode aw \<ge> 500 \<longrightarrow> ev_level ev = ''error''))) \<and>
    (\<forall>msg l w1. run_wrapped (AccessW new_access) next r w = Panic msg (l, w1) \<longrightarrow>
       Recoverer enc (AccessLog threshold cfg next) r w =
         Ret (response_Error enc (Plain []) (ctx_request_id r) (w1\<lparr>logs := logs w1 @ [panic_event r msg]\<rparr>)))"
proof (intro conjI allI impI)
  fix aw w1
  assume a: "run_wrapped (AccessW new_access) next r w = Ret (AccessW aw, w1) \<and>
    (aw_statusCode aw \<ge> 500 \<or> 0 < al_SlowThreshold cfg \<and> al_SlowThreshold cfg \<le> now w1 - now w) \<and> \<not> deadline_passed r w1"
  let ?slow = "0 < al_SlowThreshold cfg \<and> al_SlowThreshold cfg \<le> now w1 - now w"
  let ?ev = "access_event cfg r aw (aw_statusCode aw) (now w1 - now w) ?slow
    (shouldSampleRequest threshold (ctx_request_id r) (al_SampleRate cfg))"
  have "log_access threshold cfg r aw (now w) w1 = w1\<lparr>logs := logs w1 @ [?ev]\<rparr>" using a by (auto simp: log_access_def Let_def)
  then have "AccessLog threshold cfg next r w = Ret (w1\<lparr>logs := logs w1 @ [?ev]\<rparr>)" using a assms by (simp add: AccessLog_def)
  then show "\<exists>ev. AccessLog threshold cfg next r w = Ret (w1\<lparr>logs := logs w1 @ [ev]\<rparr>) \<and> (''status'', aw_statusCode aw) \<in> set (ev_ints ev) \<and>
      (aw_statusCode aw \<ge> 500 \<longrightarrow> ev_level ev = ''error'')"
    by (intro exI [of _ ?ev]) (simp add: access_event_def)
next
  fix msg l w1 assume "run_wrapped (AccessW new_access) next r w = Panic msg (l, w1)"
  then show "Recoverer enc (AccessLog threshold cfg next) r w =
      Ret (response_Error enc (Plain []) (ctx_request_id r) (w1\<lparr>logs := logs w1 @ [panic_event r msg]\<rparr>))"
    using assms by (simp add: AccessLog_def Recoverer_def)
qed

theorem server_errors_logged_witness:
  "Recoverer (\<lambda>e. ''E'') (AccessLog (\<lambda>f. 0) (mw_AccessLog (hc_Middleware (cf_HTTP (config_of Map.empty)))) panicking) blank_request (blank_world ()) =
     Ret (response_Error (\<lambda>e. ''E'') (Plain []) ''rid'' ((blank_world ())\<lparr>logs := [panic_event blank_request ''boom'']\<rparr>))"
proof -
  let ?cfg = "mw_AccessLog (hc_Middleware (cf_HTTP (config_of Map.empty)))"
  have "al_Enabled ?cfg" "req_path blank_request \<notin> set (al_ExcludePaths ?cfg)"
    by (simp_all add: config_of_def build_config_def default_readers load_http_def load_access_log_def blank_request_def Let_def)
  from server_errors_logged [OF this, of panicking "blank_world ()" "\<lambda>f. 0" "\<lambda>e. ''E''"]
  show ?thesis by (auto simp: run_wrapped_def panicking_def push_def pop_def blank_world_def blank_request_def)
qed

section \<open>Registered routes\<close>

text \<open>The muxes that registration calls build, with the calls of \<open>Handle\<close> that were accepted: the policy table and the rules
  of their time and their arguments.\<close>

record 's registration =
  rg_table :: policy_table
  rg_rules :: "RouteRule option list"
  rg_method :: string
  rg_pattern :: string
  rg_handler :: "'s handler"
  rg_policies :: "'s middleware policy option list"

inductive registered :: "'s Mux \<Rightarrow> 's registration list \<Rightarrow> bool" where
  new: "registered NewMux []"
| rules: "registered m regs \<Longrightarrow> registered (UseRouteRules rs m) regs"
| use: "registered m regs \<Longrightarrow> registered (Mux_Use mws m) regs"
| rejected: "registered m regs \<Longrightarrow> Mux_Handle t verb pattern h ps m = Inl e \<Longrightarrow> registered m regs"
| handle: "registered m regs \<Longrightarrow> Mux_Handle t verb pattern h ps m = Inr m' \<Longrightarrow>
    registered m' (regs @ [\<lparr>rg_table = t, rg_rules = mx_rules m, rg_method = verb, rg_pattern = pattern, rg_handler = h, rg_policies = ps\<rparr>])"

definition route_valid :: "RouteRule option list \<Rightarrow> 's registration \<Rightarrow> 's route \<Rightarrow> bool" where
  "route_valid rules g rt \<longleftrightarrow> prefix (rg_rules g) rules \<and> rt_method rt = rg_method g \<and> rt_pattern rt = rg_pattern g \<and>
     rt_handler rt = Chain (rg_handler g) (map (map_option behaviour) (rg_policies g)) \<and>
     ValidateRouteWith (rg_table g) (rg_rules g) (rg_method g) (rg_pattern g) (rg_policies g) = None"

lemma route_valid_later: "route_valid rules g rt \<Longrightarrow> route_valid (rules @ later) g rt"
  by (simp add: route_valid_def)

lemma Mux_Handle_Inr:
  assumes "Mux_Handle t verb pattern h ps m = Inr m'"
  shows "ValidateRouteWith t (mx_rules m) verb pattern ps = None"
    and "m' = m\<lparr>mx_routes := mx_routes m @ [\<lparr>rt_method = verb, rt_pattern = pattern, rt_handler = Chain h (map (map_option behaviour) ps)\<rparr>]\<rparr>"
  using assms by (auto simp: Mux_Handle_def MustValidateRouteWith_def split: option.splits)

text \<open>
  C13: Every route the router can serve has passed the validator: whatever sequence of rule installations, middleware
  installations and registrations built it, its routes are exactly the accepted registrations in order, and the handler of each is the
  chain of the policies that were accepted, with the rules installed before it, for its method and pattern;
  a rejected registration adds nothing.
\<close>

theorem registered_routes_valid:
  assumes "registered m regs"
  shows "list_all2 (route_valid (mx_rules m)) regs (mx_routes m)"
  using assms
proof (induction m regs)
  case new
  then show ?case by (simp add: NewMux_def)
next
  case (rules m regs rs)
  then show ?case by (auto simp: UseRouteRules_def intro: list_all2_mono route_valid_later)
next
  case (use m regs mws)
  then show ?case by (simp add: Mux_Use_def)
next
  case (handle m regs t verb pattern h ps m')
  from Mux_Handle_Inr [OF handle.hyps(2)] handle.IH show ?case
    by (simp add: list_all2_appendI route_valid_def)
qed

definition sample_registration :: "unit registration" where
  "sample_registration = \<lparr>rg_table = Map.empty, rg_rules = [], rg_method = ''GET'', rg_pattern = ''/x'', rg_handler = ok_handler [], rg_policies = []\<rparr>"

definition sample_mux :: "unit Mux" where
  "sample_mux = NewMux\<lparr>mx_routes := [\<lparr>rt_method = ''GET'', rt_pattern = ''/x'', rt_handler = Chain (ok_handler []) []\<rparr>]\<rparr>"

theorem registered_routes_valid_witness: "list_all2 (route_valid []) [sample_registration] (mx_routes sample_mux)"
proof -
  have "MustValidateRouteWith Map.empty [] ''GET'' ''/x'' ([] :: unit middleware policy option list) = None" by code_simp
  then have "Mux_Handle Map.empty ''GET'' ''/x'' (ok_handler []) [] NewMux = Inr sample_mux"
    by (simp add: Mux_Handle_def sample_mux_def NewMux_def)
  from registered.handle [OF registered.new this] have "registered sample_mux [sample_registration]"
    by (simp add: sample_registration_def NewMux_def)
  from registered_routes_valid [OF this] show ?thesis by (simp add: sample_mux_def NewMux_def)
qed

section \<open>Timeouts\<close>

text \<open>
  A request timeout never replaces an answer and never hides a missing one. For a handler that returns, the response is
  left as the handler made it when it wrote a header or a body or when the deadline has not
  passed, and is the 504 envelope otherwise; the handler runs with a deadline no later than the time of
  arrival plus the timeout.
\<close>

theorem timeout_answers:
  assumes "0 < timeout" and "\<not> shouldBypassRequestTimeout r"
    and "run_wrapped (TimeoutW 200 False) next (WithTimeout timeout w r) w = Ret (TimeoutW s wroteHeader, w1)"
  shows "(\<exists>d. ctx_deadline (WithTimeout timeout w r) = Some d \<and> d \<le> now w + timeout \<and>
      RequestTimeout enc timeout next r w =
        Ret (if d \<le> now w1 \<and> \<not> wroteHeader then response_Error enc timeout_error (ctx_request_id r) w1 else w1))"
  using assms by (auto simp: RequestTimeout_def deadline_passed_def WithTimeout_def Let_def split: option.splits)

text \<open>A handler that flushes (which commits status 200 without the wrapper noticing) and then overruns its deadline.\<close>

definition flush_then_sleep :: "'s handler" where
  "flush_then_sleep r w = Ret ((Flush w)\<lparr>now := now w + 60 * second\<rparr>)"

theorem timeout_answers_witness:
  "\<exists>w1. RequestTimeout (\<lambda>e. ''timeout'') second flush_then_sleep blank_request (blank_world ()) = Ret w1 \<and>
     bw_status (base w1) = Some 200 \<and> bw_body (base w1) = ''timeout''"
proof -
  let ?w1 = "(Flush (blank_world ()))\<lparr>now := 60 * second\<rparr>"
  have run: "run_wrapped (TimeoutW 200 False) flush_then_sleep (WithTimeout second (blank_world ()) blank_request) (blank_world ()) =
      Ret (TimeoutW 200 False, ?w1)"
    by (simp add: run_wrapped_def flush_then_sleep_def push_def pop_def Flush_def blank_world_def)
  have "\<not> shouldBypassRequestTimeout blank_request" by code_simp
  from timeout_answers [OF _ this run, of "\<lambda>e. ''timeout''"] show ?thesis
    by (auto simp: WithTimeout_def blank_request_def blank_world_def Flush_def base_write_header_def response_Error_def
        response_JSON_def error_response_def timeout_error_def apperr_New_def SetHeader_def WriteHeader_def Write_def base_write_def)
qed

end
