(* ===== verification/Notify.thy ===== *)
theory Notify
  imports Httpx Cache_Manager
begin

text \<open>
  Notifications (\<open>internal/core/notify\<close>): the registry of drivers, redaction, the log driver, mail over SMTP, and the dispatcher that
  delivers in the background.

  The address parser of \<open>net/mail\<close> is the record \<open>maillib\<close>; the SMTP server and the network are a function that says which step of a
  session fails. The dispatcher is a step relation: its critical section is one step, and so is each of the three actions by which a
  delivery ends.
\<close>

section \<open>Redaction and the log driver\<close>

definition RedactSecret :: "string \<Rightarrow> string" where
  "RedactSecret secret = ''[redacted len='' @ itoa (int (length secret)) @ '']''"

text \<open>\<open>strings.Cut\<close> at a byte.\<close>

definition cut_at :: "char \<Rightarrow> string \<Rightarrow> (string \<times> string) option" where
  "cut_at c s = (if c \<in> set s then Some (takeWhile (\<lambda>x. x \<noteq> c) s, tl (dropWhile (\<lambda>x. x \<noteq> c) s)) else None)"

definition RedactAddress :: "string \<Rightarrow> string" where
  "RedactAddress addr =
     (case cut_at (CHR ''@'') (trim_space addr) of
        None \<Rightarrow> ''***''
      | Some (local, domain) \<Rightarrow> if local = [] then ''***'' else take 1 local @ ''***@'' @ domain)"

record log_line =
  ll_notification :: string
  ll_to :: string
  ll_challenge :: string

text \<open>\<open>logger\<close>: the driver has a logger.\<close>

definition Log_write :: "bool \<Rightarrow> bool \<Rightarrow> string \<Rightarrow> string \<Rightarrow> string \<Rightarrow> log_line option" where
  "Log_write logger showSecrets kind to challenge =
     (if \<not> logger then None
      else Some \<lparr>ll_notification = kind, ll_to = RedactAddress to, ll_challenge = (if showSecrets then challenge else RedactSecret challenge)\<rparr>)"

section \<open>Mail\<close>

record mail_address =
  ma_Address :: string
  ma_String :: string

record maillib =
  ml_ParseAddress :: "string \<Rightarrow> string + mail_address"

record SMTP =
  sp_cfg :: SMTPConfig
  sp_from :: mail_address

definition line_breaks :: string where "line_breaks = [CHR 0x0D, CHR 0x0A]"

text \<open>The two templates are in a Go map; which of two bad ones is reported is left open there.\<close>

definition NewSMTP :: "netlib \<Rightarrow> maillib \<Rightarrow> SMTPConfig \<Rightarrow> string + SMTP" where
  "NewSMTP N M cfg =
     (if trim_space (sm_Host cfg) = [] then Inl ''smtp: SMTP_HOST is required''
      else if sm_Port cfg < 1 \<or> sm_Port cfg > 65535 then Inl (''smtp: SMTP_PORT must be between 1 and 65535, got '' @ itoa (sm_Port cfg))
      else if sm_TLS cfg \<notin> {SMTPTLSStartTLS, SMTPTLSImplicit, SMTPTLSNone} then Inl (''smtp: invalid SMTP_TLS '' @ quoted (sm_TLS cfg))
      else if contains_any (sm_From cfg) line_breaks then Inl ''smtp: SMTP_FROM must not contain line breaks''
      else (case ml_ParseAddress M (sm_From cfg) of
          Inl e \<Rightarrow> Inl (''smtp: SMTP_FROM is not a valid address: '' @ e)
        | Inr from \<Rightarrow>
            if sm_ResetURL cfg \<noteq> [] \<and> ValidateLinkTemplate N (sm_ResetURL cfg) \<noteq> None
            then Inl (''smtp: NOTIFY_RESET_URL: '' @ the (ValidateLinkTemplate N (sm_ResetURL cfg)))
            else if sm_VerifyURL cfg \<noteq> [] \<and> ValidateLinkTemplate N (sm_VerifyURL cfg) \<noteq> None
            then Inl (''smtp: NOTIFY_VERIFY_URL: '' @ the (ValidateLinkTemplate N (sm_VerifyURL cfg)))
            else Inr \<lparr>sp_cfg = cfg, sp_from = from\<rparr>))"

abbreviation nl :: string where "nl \<equiv> [CHR 0x0A]"
abbreviation crlf :: string where "crlf \<equiv> [CHR 0x0D, CHR 0x0A]"

abbreviation subjectPasswordReset :: string where "subjectPasswordReset \<equiv> ''Reset your password''"
abbreviation subjectEmailVerification :: string where "subjectEmailVerification \<equiv> ''Verify your email address''"

definition bodyPasswordReset :: "string \<Rightarrow> string" where
  "bodyPasswordReset link =
     ''We received a request to reset the password for your account.'' @ nl @ nl @ ''To choose a new password, open this link:'' @ nl @ nl @
     link @ nl @ nl @ ''If you did not ask for this, ignore this message. Your password will not change.'' @ nl"

definition bodyEmailVerification :: "string \<Rightarrow> string" where
  "bodyEmailVerification link =
     ''Please confirm this email address for your account.'' @ nl @ nl @ ''To confirm it, open this link:'' @ nl @ nl @
     link @ nl @ nl @ ''If you did not create an account, ignore this message.'' @ nl"

definition buildLink :: "string \<Rightarrow> string \<Rightarrow> string + string" where
  "buildLink template challenge =
     (if template = [] then Inl ''link template is empty''
      else if challenge = [] then Inl ''challenge is empty''
      else (let escaped = concat (map (\<lambda>c. if c = CHR ''+'' then ''%20'' else [c]) (query_escape challenge)) in
        Inr (replace_first TokenPlaceholder escaped template)))"

definition parseRecipient :: "maillib \<Rightarrow> string \<Rightarrow> string + string" where
  "parseRecipient M to =
     (if contains_any to (line_breaks @ [CHR 0x00]) then Inl ''recipient contains a line break''
      else (case ml_ParseAddress M (trim_space to) of
          Inl e \<Rightarrow> Inl ''recipient is not a valid address''
        | Inr addr \<Rightarrow>
            if contains_any (ma_Address addr) [CHR '' '', CHR 0x09, CHR ''<'', CHR ''>'', CHR '','', CHR '';'']
            then Inl ''recipient is not a valid address'' else Inr (ma_Address addr)))"

definition plain_byte :: "char \<Rightarrow> bool" where
  "plain_byte c \<longleftrightarrow> \<not> (byte c > 126 \<or> (byte c < 32 \<and> c \<noteq> CHR 0x0A \<and> c \<noteq> CHR 0x09))"

text \<open>\<open>strings.ReplaceAll(s, CRLF, LF)\<close> and back.\<close>

fun drop_cr :: "string \<Rightarrow> string" where
  "drop_cr [] = []"
| "drop_cr [c] = [c]"
| "drop_cr (c # d # s) = (if c = CHR 0x0D \<and> d = CHR 0x0A then CHR 0x0A # drop_cr s else c # drop_cr (d # s))"

definition add_cr :: "string \<Rightarrow> string" where
  "add_cr s = concat (map (\<lambda>c. if c = CHR 0x0A then crlf else [c]) s)"

definition mail_domain :: "SMTP \<Rightarrow> string" where
  "mail_domain s = (case cut_at (CHR ''@'') (ma_Address (sp_from s)) of Some (l, d) \<Rightarrow> if d \<noteq> [] then d else ''localhost'' | None \<Rightarrow> ''localhost'')"

text \<open>\<open>date\<close> is the formatted time, \<open>rnd\<close> what the random source delivers.\<close>

definition mail_headers :: "SMTP \<Rightarrow> string \<Rightarrow> string \<Rightarrow> nat list \<Rightarrow> string \<Rightarrow> string list" where
  "mail_headers s to subject bytes date =
     [''From: '' @ ma_String (sp_from s), ''To: '' @ to, ''Subject: '' @ subject, ''Date: '' @ date,
      ''Message-ID: <'' @ hex_encode bytes @ ''@'' @ mail_domain s @ ''>'', ''MIME-Version: 1.0'', ''Content-Type: text/plain; charset=UTF-8'',
      ''Content-Transfer-Encoding: 7bit'', ''Auto-Submitted: auto-generated'']"

definition buildMessage :: "SMTP \<Rightarrow> (string + nat list) \<Rightarrow> string \<Rightarrow> string \<Rightarrow> string \<Rightarrow> string \<Rightarrow> string + string" where
  "buildMessage s rnd date to subject body =
     (if contains_any to line_breaks then Inl ''recipient contains a line break''
      else if contains_any subject line_breaks then Inl ''subject contains a line break''
      else if \<not> list_all plain_byte body then Inl ''message body must be plain ASCII text''
      else (case rnd of
          Inl e \<Rightarrow> Inl (''message id: '' @ e)
        | Inr bytes \<Rightarrow> Inr (join crlf (mail_headers s to subject bytes date) @ crlf @ crlf @ add_cr (drop_cr body))))"

subsection \<open>The session\<close>

datatype smtp_event =
    Dial string | ImplicitTLS | Greeting | StartTLS | AuthPlain string string | MailFrom string | RcptTo string | DataCmd | WriteMessage string
  | EndData | QuitCmd | CloseConn

text \<open>What the other side does: the error of a step after those before it, and the extensions it announces.\<close>

record smtp_peer =
  pr_answer :: "smtp_event list \<Rightarrow> smtp_event \<Rightarrow> string option"
  pr_extension :: "smtp_event list \<Rightarrow> string \<Rightarrow> bool"

type_synonym session = "string option \<times> smtp_event list"   \<comment> \<open>error and steps taken\<close>

definition attempt :: "smtp_peer \<Rightarrow> string \<Rightarrow> smtp_event \<Rightarrow> (smtp_event list \<Rightarrow> session) \<Rightarrow> smtp_event list \<Rightarrow> session" where
  "attempt P op ev k tr = (case pr_answer P tr ev of Some e \<Rightarrow> (Some (op @ '': '' @ e), tr @ [ev]) | None \<Rightarrow> k (tr @ [ev]))"

text \<open>A failed write still closes the data writer; the result of that is ignored.\<close>

definition write_message :: "smtp_peer \<Rightarrow> string \<Rightarrow> (smtp_event list \<Rightarrow> session) \<Rightarrow> smtp_event list \<Rightarrow> session" where
  "write_message P msg k tr =
     (case pr_answer P tr (WriteMessage msg) of
        Some e \<Rightarrow> (Some (''write message: '' @ e), tr @ [WriteMessage msg, EndData])
      | None \<Rightarrow> k (tr @ [WriteMessage msg]))"

text \<open>The part of \<open>deliver\<close> after \<open>Mail\<close> may start, the one before it, and the whole, with the deferred \<open>Close\<close>.\<close>

definition send_mail :: "smtp_peer \<Rightarrow> SMTP \<Rightarrow> string \<Rightarrow> string \<Rightarrow> smtp_event list \<Rightarrow> session" where
  "send_mail P s to msg =
     attempt P ''mail from'' (MailFrom (ma_Address (sp_from s)))
       (attempt P ''rcpt to'' (RcptTo to)
         (attempt P ''data'' DataCmd
           (write_message P msg
             (attempt P ''finish message'' EndData (\<lambda>tr. (pr_answer P tr QuitCmd, tr @ [QuitCmd]))))))"

definition authenticate :: "smtp_peer \<Rightarrow> SMTP \<Rightarrow> (smtp_event list \<Rightarrow> session) \<Rightarrow> smtp_event list \<Rightarrow> session" where
  "authenticate P s k tr =
     (if sm_Username (sp_cfg s) \<noteq> [] then
        if \<not> pr_extension P tr ''AUTH'' then (Some ''server does not offer AUTH but SMTP_USERNAME is set'', tr)
        else attempt P ''auth'' (AuthPlain (sm_Username (sp_cfg s)) (sm_Password (sp_cfg s))) k tr
      else k tr)"

definition start_tls :: "smtp_peer \<Rightarrow> SMTP \<Rightarrow> (smtp_event list \<Rightarrow> session) \<Rightarrow> smtp_event list \<Rightarrow> session" where
  "start_tls P s k tr =
     (if sm_TLS (sp_cfg s) = SMTPTLSStartTLS then
        if \<not> pr_extension P tr ''STARTTLS'' then (Some ''server does not offer STARTTLS; refusing to send without encryption'', tr)
        else attempt P ''starttls'' StartTLS k tr
      else k tr)"

definition implicit_tls :: "smtp_peer \<Rightarrow> SMTP \<Rightarrow> (smtp_event list \<Rightarrow> session) \<Rightarrow> smtp_event list \<Rightarrow> session" where
  "implicit_tls P s k tr = (if sm_TLS (sp_cfg s) = SMTPTLSImplicit then attempt P ''tls handshake'' ImplicitTLS k tr else k tr)"

definition closing :: "(smtp_event list \<Rightarrow> session) \<Rightarrow> smtp_event list \<Rightarrow> session" where
  "closing k tr = (let (e, tr') = k tr in (e, tr' @ [CloseConn]))"

text \<open>\<open>net.JoinHostPort\<close>.\<close>

definition join_host_port :: "string \<Rightarrow> string \<Rightarrow> string" where
  "join_host_port host port = (if CHR '':'' \<in> set host \<or> CHR ''%'' \<in> set host then ''['' @ host @ '']:'' @ port else host @ '':'' @ port)"

definition deliver :: "smtp_peer \<Rightarrow> SMTP \<Rightarrow> string \<Rightarrow> string \<Rightarrow> session" where
  "deliver P s to msg =
     (let addr = join_host_port (sm_Host (sp_cfg s)) (itoa (sm_Port (sp_cfg s))) in
      attempt P (''connect to '' @ addr) (Dial addr)
        (closing
          (implicit_tls P s
            (attempt P ''smtp greeting'' Greeting (start_tls P s (authenticate P s (send_mail P s to msg))))))
        [])"

function replace_all :: "string \<Rightarrow> string \<Rightarrow> string \<Rightarrow> string" where
  "replace_all p q s =
     (if p = [] \<or> s = [] then s
      else if has_prefix p s then q @ replace_all p q (drop (length p) s) else hd s # replace_all p q (tl s))"
  by pat_completeness auto
termination
proof (relation "measure (\<lambda>(p, q, s). length s)", goal_cases)
  case (2 p q s)
  then show ?case by (cases p; cases s) auto
next
  case (3 p q s)
  then show ?case by (cases s) auto
qed simp

declare replace_all.simps [simp del]

definition scrub :: "string \<Rightarrow> string list \<Rightarrow> string" where
  "scrub err addresses =
     fold (\<lambda>a msg. let a = trim_space a in if a \<noteq> [] then replace_all a (RedactAddress a) msg else msg) addresses (''smtp: '' @ err)"

definition SMTP_send :: "maillib \<Rightarrow> smtp_peer \<Rightarrow> SMTP \<Rightarrow> (string + nat list) \<Rightarrow> string \<Rightarrow> string \<Rightarrow> string \<Rightarrow> string \<Rightarrow> session" where
  "SMTP_send M P s rnd date to subject body =
     (case parseRecipient M to of
        Inl e \<Rightarrow> (Some (''smtp: '' @ e), [])
      | Inr recipient \<Rightarrow>
          (case buildMessage s rnd date recipient subject body of
             Inl e \<Rightarrow> (Some (''smtp: '' @ e), [])
           | Inr msg \<Rightarrow> (case deliver P s recipient msg of (Some e, tr) \<Rightarrow> (Some (scrub e [to, recipient]), tr) | (None, tr) \<Rightarrow> (None, tr))))"

definition SendPasswordReset :: "maillib \<Rightarrow> smtp_peer \<Rightarrow> SMTP \<Rightarrow> (string + nat list) \<Rightarrow> string \<Rightarrow> string \<Rightarrow> string \<Rightarrow> session" where
  "SendPasswordReset M P s rnd date to challenge =
     (case buildLink (sm_ResetURL (sp_cfg s)) challenge of
        Inl e \<Rightarrow> (Some (''smtp: password reset link: '' @ e @ '' (set NOTIFY_RESET_URL)''), [])
      | Inr link \<Rightarrow> SMTP_send M P s rnd date to subjectPasswordReset (bodyPasswordReset link))"

definition SendEmailVerification :: "maillib \<Rightarrow> smtp_peer \<Rightarrow> SMTP \<Rightarrow> (string + nat list) \<Rightarrow> string \<Rightarrow> string \<Rightarrow> string \<Rightarrow> session" where
  "SendEmailVerification M P s rnd date to challenge =
     (case buildLink (sm_VerifyURL (sp_cfg s)) challenge of
        Inl e \<Rightarrow> (Some (''smtp: email verification link: '' @ e @ '' (set NOTIFY_VERIFY_URL)''), [])
      | Inr link \<Rightarrow> SMTP_send M P s rnd date to subjectEmailVerification (bodyEmailVerification link))"

section \<open>Drivers\<close>

datatype notifier = Noop | Log bool | Mail SMTP | Other nat

type_synonym driver_factory = "NotifyConfig \<Rightarrow> string \<Rightarrow> string + notifier"

text \<open>The factories of \<open>drivers\<close>, and the names that \<open>config\<close> accepts.\<close>

record registry =
  rg_factories :: "(string \<times> driver_factory) list"
  rg_names :: "string list"

text \<open>The error is the text of the panic.\<close>

definition RegisterDriver :: "string \<Rightarrow> driver_factory option \<Rightarrow> registry \<Rightarrow> string + registry" where
  "RegisterDriver name0 factory reg =
     (let name = to_lower (trim_space name0) in
      if name = [] then Inl ''notify: RegisterDriver: empty driver name''
      else (case factory of
          None \<Rightarrow> Inl (''notify: RegisterDriver: nil factory for driver '' @ name)
        | Some f \<Rightarrow>
            if map_of (rg_factories reg) name \<noteq> None then Inl (''notify: RegisterDriver: driver '' @ name @ '' registered twice'')
            else (case RegisterNotifyDriver name (rg_names reg) of
                None \<Rightarrow> Inl ''config: RegisterNotifyDriver: empty driver name''
              | Some names \<Rightarrow> Inr \<lparr>rg_factories = (name, f) # rg_factories reg, rg_names = names\<rparr>)))"

definition lookupDriver :: "string \<Rightarrow> registry \<Rightarrow> driver_factory option" where
  "lookupDriver name reg = map_of (rg_factories reg) (to_lower (trim_space name))"

definition smtp_factory :: "netlib \<Rightarrow> maillib \<Rightarrow> driver_factory" where
  "smtp_factory N M cfg env =
     (if sm_TLS (nt_SMTP cfg) = SMTPTLSNone \<and> \<not> equal_fold (trim_space env) ''dev''
      then Inl ''smtp: SMTP_TLS=none is only allowed with APP_ENV=dev''
      else (case NewSMTP N M (nt_SMTP cfg) of Inl e \<Rightarrow> Inl e | Inr s \<Rightarrow> Inr (Mail s)))"

definition log_factory :: driver_factory where
  "log_factory cfg env = Inr (Log (nt_LogSecrets cfg \<and> equal_fold (trim_space env) ''dev''))"

definition notify_New :: "registry \<Rightarrow> NotifyConfig \<Rightarrow> string \<Rightarrow> string + notifier" where
  "notify_New reg cfg env =
     (let name0 = to_lower (trim_space (nt_Driver cfg)); name = (if name0 = [] then ''noop'' else name0) in
      case lookupDriver name reg of
        None \<Rightarrow> Inl (''unknown notify driver '' @ quoted (nt_Driver cfg) @ '' (registered: '' @ join '', '' (NotifyDriverNames (rg_names reg)) @ '')'')
      | Some f \<Rightarrow> f cfg env)"

text \<open>After the \<open>init\<close> functions, and after a program's own calls of \<open>RegisterDriver\<close>, up to the first panic.\<close>

definition builtin_registry :: "netlib \<Rightarrow> maillib \<Rightarrow> registry" where
  "builtin_registry N M =
     \<lparr>rg_factories = [(''smtp'', smtp_factory N M), (''log'', log_factory), (''noop'', \<lambda>cfg env. Inr Noop)], rg_names = builtin_drivers\<rparr>"

fun register_all :: "(string \<times> driver_factory option) list \<Rightarrow> registry \<Rightarrow> string + registry" where
  "register_all [] reg = Inr reg"
| "register_all ((name, f) # ds) reg = (case RegisterDriver name f reg of Inl e \<Rightarrow> Inl e | Inr reg' \<Rightarrow> register_all ds reg')"

section \<open>Mail is sent over an encrypted connection\<close>

fun sensitive :: "smtp_event \<Rightarrow> bool" where
  "sensitive (AuthPlain u p) = True"
| "sensitive (MailFrom a) = True"
| "sensitive (RcptTo a) = True"
| "sensitive (WriteMessage m) = True"
| "sensitive ev = False"

text \<open>A TLS handshake among the steps succeeded; a sensitive step comes only after that.\<close>

definition secured :: "smtp_peer \<Rightarrow> smtp_event list \<Rightarrow> bool" where
  "secured P tr \<longleftrightarrow> (\<exists>pre ev post. tr = pre @ ev # post \<and> ev \<in> {StartTLS, ImplicitTLS} \<and> pr_answer P pre ev = None)"

definition confidential :: "smtp_peer \<Rightarrow> smtp_event list \<Rightarrow> bool" where
  "confidential P tr \<longleftrightarrow> (\<forall>pre ev post. tr = pre @ ev # post \<and> sensitive ev \<longrightarrow> secured P pre)"

lemma secured_append: "secured P tr \<Longrightarrow> secured P (tr @ ys)"
  by (fastforce simp: secured_def)

lemma confidential_append: "confidential P tr \<Longrightarrow> secured P tr \<Longrightarrow> confidential P (tr @ ys)"
  unfolding confidential_def
proof (intro allI impI, elim conjE)
  fix pre ev post
  assume c: "\<forall>pre ev post. tr = pre @ ev # post \<and> sensitive ev \<longrightarrow> secured P pre" and s: "secured P tr"
    and e: "tr @ ys = pre @ ev # post" and v: "sensitive ev"
  show "secured P pre"
  proof (cases "length tr \<le> length pre")
    case True
    then have "pre = tr @ drop (length tr) pre" using e by (metis append_eq_append_conv_if append_take_drop_id)
    then show ?thesis using secured_append [OF s] by metis
  next
    case False
    then have "tr = pre @ ev # drop (Suc (length pre)) tr"
      using e by (metis append_eq_append_conv_if append_take_drop_id Cons_nth_drop_Suc append_Cons list.inject not_le)
    then show ?thesis using c v by blast
  qed
qed

lemma confidential_plain: "confidential P tr \<Longrightarrow> \<not> sensitive ev \<Longrightarrow> confidential P (tr @ [ev])"
  unfolding confidential_def by (auto simp: append_eq_append_conv2 append_eq_Cons_conv Cons_eq_append_conv)

text \<open>A continuation only adds steps.\<close>

definition extends :: "(smtp_event list \<Rightarrow> session) \<Rightarrow> bool" where
  "extends k \<longleftrightarrow> (\<forall>tr. \<exists>ys. snd (k tr) = tr @ ys)"

lemma extends_attempt: "extends k \<Longrightarrow> extends (attempt P op ev k)"
  unfolding extends_def attempt_def by (auto split: option.split) (metis append.assoc)

lemma extends_write_message: "extends k \<Longrightarrow> extends (write_message P msg k)"
  unfolding extends_def write_message_def by (auto split: option.split) (metis append.assoc)

lemma extends_send_mail: "extends (send_mail P s to msg)"
  unfolding send_mail_def by (intro extends_attempt extends_write_message) (simp add: extends_def)

lemma extends_authenticate: "extends k \<Longrightarrow> extends (authenticate P s k)"
  using extends_attempt [of k P] by (auto simp: extends_def authenticate_def)

text \<open>A stage of the session is safe from a confidential and, unless it makes the handshake itself, secured start.\<close>

lemma confidential_extends: "extends k \<Longrightarrow> confidential P tr \<Longrightarrow> secured P tr \<Longrightarrow> confidential P (snd (k tr))"
  unfolding extends_def by (metis confidential_append)

lemma confidential_attempt:
  assumes "\<not> sensitive ev" and "confidential P tr"
    and "pr_answer P tr ev = None \<Longrightarrow> confidential P (tr @ [ev]) \<Longrightarrow> confidential P (snd (k (tr @ [ev])))"
  shows "confidential P (snd (attempt P op ev k tr))"
  using assms confidential_plain [OF assms(2,1)] by (auto simp: attempt_def split: option.split)

lemma confidential_handshake:
  assumes "ev \<in> {StartTLS, ImplicitTLS}" and "extends k" and "confidential P tr"
  shows "confidential P (snd (attempt P op ev k tr))"
proof (rule confidential_attempt)
  assume "pr_answer P tr ev = None" "confidential P (tr @ [ev])"
  moreover from this(1) have "secured P (tr @ [ev])" using assms(1) by (auto simp: secured_def)
  ultimately show "confidential P (snd (k (tr @ [ev])))" using confidential_extends [OF assms(2)] by blast
qed (use assms in auto)

lemma confidential_start_tls:
  assumes "sm_TLS (sp_cfg s) = SMTPTLSStartTLS \<or> secured P tr" and "extends k" and "confidential P tr"
  shows "confidential P (snd (start_tls P s k tr))"
  using assms confidential_handshake [OF _ assms(2,3), of StartTLS] confidential_extends [OF assms(2,3)] by (auto simp: start_tls_def)

lemma confidential_closing: "confidential P (snd (k tr)) \<Longrightarrow> confidential P (snd (closing k tr))"
  by (auto simp: closing_def confidential_plain split: prod.split)

lemma extends_start_tls: "extends k \<Longrightarrow> extends (start_tls P s k)"
  using extends_attempt [of k P] by (auto simp: extends_def start_tls_def)

lemma confidential_Nil [simp]: "confidential P []"
  by (simp add: confidential_def)

lemma deliver_confidential:
  assumes "sm_TLS (sp_cfg s) \<in> {SMTPTLSStartTLS, SMTPTLSImplicit}"
  shows "confidential P (snd (deliver P s to msg))"
proof -
  let ?k = "authenticate P s (send_mail P s to msg)"
  let ?g = "attempt P ''smtp greeting'' Greeting (start_tls P s ?k)"
  have k: "extends ?k" by (intro extends_authenticate extends_send_mail)
  have e: "extends ?g" by (intro extends_attempt extends_start_tls k)
  have c: "confidential P (snd (?g tr))" if "sm_TLS (sp_cfg s) = SMTPTLSStartTLS" and "confidential P tr" for tr
    by (rule confidential_attempt; (rule confidential_start_tls [OF _ k])?) (use that in auto)
  have "confidential P (snd (implicit_tls P s ?g tr))" if "confidential P tr" for tr
    using assms that c confidential_handshake [OF _ e that, of ImplicitTLS] by (auto simp: implicit_tls_def)
  then show ?thesis unfolding deliver_def Let_def
    by (intro confidential_attempt confidential_closing) auto
qed

text \<open>A stage takes only steps that satisfy \<open>Q\<close>; a stage that succeeds has taken the steps of \<open>S\<close>.\<close>

definition only :: "(smtp_event \<Rightarrow> bool) \<Rightarrow> (smtp_event list \<Rightarrow> session) \<Rightarrow> bool" where
  "only Q k \<longleftrightarrow> (\<forall>tr. list_all Q tr \<longrightarrow> list_all Q (snd (k tr)))"

definition reaches :: "smtp_event set \<Rightarrow> (smtp_event list \<Rightarrow> session) \<Rightarrow> bool" where
  "reaches S k \<longleftrightarrow> (\<forall>tr. fst (k tr) = None \<longrightarrow> S \<subseteq> set (snd (k tr)))"

lemma only_stages:
  "Q ev \<Longrightarrow> only Q k \<Longrightarrow> only Q (attempt P op ev k)"
  "Q (WriteMessage m) \<Longrightarrow> Q EndData \<Longrightarrow> only Q k \<Longrightarrow> only Q (write_message P m k)"
  "Q StartTLS \<Longrightarrow> only Q k \<Longrightarrow> only Q (start_tls P s k)"
  "(\<And>u p. Q (AuthPlain u p)) \<Longrightarrow> only Q k \<Longrightarrow> only Q (authenticate P s k)"
  "Q ImplicitTLS \<Longrightarrow> only Q k \<Longrightarrow> only Q (implicit_tls P s k)"
  "Q CloseConn \<Longrightarrow> only Q k \<Longrightarrow> only Q (closing k)"
  by (auto simp: only_def attempt_def write_message_def start_tls_def implicit_tls_def authenticate_def closing_def case_prod_beta split: option.splits)

lemma reaches_stages:
  "reaches S k \<Longrightarrow> reaches S (attempt P op ev k)"
  "reaches S k \<Longrightarrow> reaches S (write_message P m k)"
  "reaches S k \<Longrightarrow> reaches S (start_tls P s k)"
  "reaches S k \<Longrightarrow> reaches S (authenticate P s k)"
  "reaches S k \<Longrightarrow> reaches S (implicit_tls P s k)"
  "reaches S k \<Longrightarrow> reaches S (closing k)"
  by (auto simp: reaches_def attempt_def write_message_def start_tls_def implicit_tls_def authenticate_def closing_def case_prod_beta split: option.splits)

fun addressed :: "string \<Rightarrow> string \<Rightarrow> smtp_event \<Rightarrow> bool" where
  "addressed to msg (RcptTo r) \<longleftrightarrow> r = to"
| "addressed to msg (WriteMessage m) \<longleftrightarrow> m = msg"
| "addressed to msg ev \<longleftrightarrow> True"

lemma deliver_addressed: "list_all (addressed to msg) (snd (deliver P s to msg))"
proof -
  have "only (addressed to msg) (send_mail P s to msg)"
    unfolding send_mail_def by (intro only_stages) (simp_all add: only_def)
  then have "only (addressed to msg) (\<lambda>tr. attempt P op (Dial addr) (closing (implicit_tls P s
      (attempt P g Greeting (start_tls P s (authenticate P s (send_mail P s to msg)))))) tr)" for op addr g
    by (intro only_stages) simp_all
  then show ?thesis by (simp add: only_def deliver_def Let_def)
qed

lemma deliver_ok: "fst (deliver P s to msg) = None \<Longrightarrow> {RcptTo to, WriteMessage msg, EndData} \<subseteq> set (snd (deliver P s to msg))"
proof -
  have "reaches {RcptTo to, WriteMessage msg, EndData} (send_mail P s to msg)"
    by (auto simp: reaches_def send_mail_def attempt_def write_message_def split: option.splits)
  then have "reaches {RcptTo to, WriteMessage msg, EndData} (\<lambda>tr. attempt P op (Dial addr) (closing (implicit_tls P s
      (attempt P g Greeting (start_tls P s (authenticate P s (send_mail P s to msg)))))) tr)" for op addr g
    by (intro reaches_stages)
  then show "fst (deliver P s to msg) = None \<Longrightarrow> ?thesis" by (simp add: reaches_def deliver_def Let_def)
qed

lemma deliver_closes:
  "(\<exists>addr. snd (deliver P s to msg) = [Dial addr] \<and> pr_answer P [] (Dial addr) \<noteq> None) \<or> last (snd (deliver P s to msg)) = CloseConn"
  by (simp add: deliver_def Let_def closing_def attempt_def [of _ _ "Dial _"] case_prod_beta split: option.splits)

lemma factory_encrypts:
  assumes "smtp_factory N M cfg env = Inr (Mail s)" and "\<not> equal_fold (trim_space env) ''dev''"
  shows "sm_TLS (sp_cfg s) \<in> {SMTPTLSStartTLS, SMTPTLSImplicit}"
  using assms by (auto simp: smtp_factory_def NewSMTP_def Let_def split: sum.splits if_splits)

lemma SMTP_send_cases:
  obtains (refused) e where "SMTP_send M P s rnd date to subject body = (Some e, [])"
    | (sent) recipient msg where "parseRecipient M to = Inr recipient" and "buildMessage s rnd date recipient subject body = Inr msg"
        and "snd (SMTP_send M P s rnd date to subject body) = snd (deliver P s recipient msg)"
        and "fst (SMTP_send M P s rnd date to subject body) = None \<longleftrightarrow> fst (deliver P s recipient msg) = None"
proof (cases "parseRecipient M to")
  case (Inr recipient)
  show ?thesis
  proof (cases "buildMessage s rnd date recipient subject body")
    case Inl
    then show ?thesis using refused \<open>parseRecipient M to = Inr recipient\<close> by (simp add: SMTP_send_def)
  next
    case (Inr msg)
    with \<open>parseRecipient M to = Inr recipient\<close> show ?thesis
      by (intro sent [of recipient msg]) (auto simp: SMTP_send_def split: prod.split option.split)
  qed
qed (simp add: refused SMTP_send_def)


section \<open>A message has the headers it was given\<close>

text \<open>A reader of RFC 5322: lines end at CRLF, the headers at the first empty line.\<close>

fun read_line :: "string \<Rightarrow> string \<times> string" where
  "read_line (c # d # s) = (if c = CHR 0x0D \<and> d = CHR 0x0A then ([], s) else (let (l, r) = read_line (d # s) in (c # l, r)))"
| "read_line s = (s, [])"

fun read_headers :: "nat \<Rightarrow> string \<Rightarrow> string list \<times> string" where
  "read_headers 0 s = ([], s)"
| "read_headers (Suc n) s =
     (let (l, r) = read_line s in if l = [] then ([], r) else (let (hs, b) = read_headers n r in (l # hs, b)))"

definition one_line :: "string \<Rightarrow> bool" where
  "one_line s \<longleftrightarrow> \<not> contains_any s line_breaks"

lemma one_line_iff: "one_line s \<longleftrightarrow> CHR 0x0D \<notin> set s \<and> CHR 0x0A \<notin> set s"
  by (auto simp: one_line_def contains_any_def line_breaks_def list_ex_iff)

lemma read_line_one: "one_line h \<Longrightarrow> read_line (h @ crlf @ r) = (h, r)"
  by (induction h rule: read_line.induct) (auto simp: one_line_iff)

lemma read_headers_join:
  assumes "list_all one_line hs" and "[] \<notin> set hs" and "hs \<noteq> []" and "length hs < n"
  shows "read_headers n (join crlf hs @ crlf @ crlf @ b) = (hs, b)"
  using assms
proof (induction hs arbitrary: n)
  case (Cons h hs)
  then obtain m where n: "n = Suc m" by (cases n) auto
  show ?case
  proof (cases hs)
    case Nil
    obtain k where "m = Suc k" using Cons.prems(4) n Nil by (cases m) auto
    moreover have "read_line (crlf @ b) = ([], b)" by simp
    ultimately show ?thesis using Cons.prems n Nil read_line_one [of h "crlf @ b"] by simp
  next
    case (Cons h' hs')
    then have "join crlf (h # hs) @ crlf @ crlf @ b = h @ crlf @ (join crlf hs @ crlf @ crlf @ b)" by simp
    moreover have "read_headers m (join crlf hs @ crlf @ crlf @ b) = (hs, b)"
      using Cons.IH [of m] Cons.prems n \<open>hs = h' # hs'\<close> by simp
    ultimately show ?thesis using Cons.prems n read_line_one [of h] by auto
  qed
qed simp

lemma drop_cr_plain: "CHR 0x0D \<notin> set s \<Longrightarrow> drop_cr s = s"
  by (induction s rule: drop_cr.induct) auto

lemma drop_cr_Cons: "c \<noteq> CHR 0x0D \<Longrightarrow> drop_cr (c # s) = c # drop_cr s"
  by (cases s) simp_all

lemma drop_add_cr: "CHR 0x0D \<notin> set s \<Longrightarrow> drop_cr (add_cr s) = s"
proof (induction s)
  case (Cons c s)
  then show ?case using drop_cr_Cons [of c "add_cr s"] by (auto simp: add_cr_def)
qed (simp add: add_cr_def)

lemma plain_no_cr: "list_all plain_byte body \<Longrightarrow> CHR 0x0D \<notin> set body"
proof
  assume "list_all plain_byte body" and "CHR 0x0D \<in> set body"
  then have "plain_byte (CHR 0x0D)" by (simp add: list_all_iff)
  moreover have "\<not> plain_byte (CHR 0x0D)" by code_simp
  ultimately show False by blast
qed

lemma one_line_append [simp]: "one_line (s @ t) \<longleftrightarrow> one_line s \<and> one_line t"
  by (auto simp: one_line_iff)

lemma one_line_Cons [simp]: "one_line (c # s) \<longleftrightarrow> c \<noteq> CHR 0x0D \<and> c \<noteq> CHR 0x0A \<and> one_line s"
  by (auto simp: one_line_iff)

lemma one_line_Nil [simp]: "one_line []"
  by (simp add: one_line_iff)

lemma one_line_hex: "one_line (hex_encode bs)"
proof -
  have "list_all (\<lambda>c. c \<noteq> CHR 0x0D \<and> c \<noteq> CHR 0x0A) ''0123456789abcdef''" by code_simp
  moreover have "n mod 16 < length ''0123456789abcdef''" for n :: nat by simp
  ultimately have "Httpx.hex_digit n \<noteq> CHR 0x0D \<and> Httpx.hex_digit n \<noteq> CHR 0x0A" for n
    unfolding Httpx.hex_digit_def list_all_length by blast
  then show ?thesis by (induction bs) (simp_all add: hex_encode_def)
qed

lemma one_line_domain: "one_line (ma_Address (sp_from s)) \<Longrightarrow> one_line (mail_domain s)"
  unfolding one_line_iff mail_domain_def cut_at_def
  by (auto dest!: list.set_sel(2) [rotated] set_dropWhileD split: option.splits if_splits)

lemma headers_one_line:
  assumes "one_line (ma_String (sp_from s))" and "one_line (ma_Address (sp_from s))" and "one_line date" and "one_line to" and "one_line subject"
  shows "list_all one_line (mail_headers s to subject bytes date)"
  using assms one_line_hex one_line_domain by (simp add: mail_headers_def)

text \<open>
  No text handed to the mail driver can add or change a header. A message that \<open>buildMessage\<close> accepts is read back as
  exactly the nine headers it set, of which one names a recipient, followed by the given body, whatever the recipient, the subject and
  the body are. The parsed sender and the formatted date hold no line break.\<close>

theorem mail_headers_exact:
  assumes "one_line (ma_String (sp_from s))" and "one_line (ma_Address (sp_from s))" and "one_line date"
    and "buildMessage s (Inr bytes) date to subject body = Inr msg"
  shows "\<exists>content. read_headers 10 msg = (mail_headers s to subject bytes date, content) \<and> drop_cr content = body \<and>
    filter (\<lambda>h. has_prefix ''To:'' h \<or> has_prefix ''Cc:'' h \<or> has_prefix ''Bcc:'' h) (fst (read_headers 10 msg)) = [''To: '' @ to]"
proof -
  have ok: "one_line to" "one_line subject" "list_all plain_byte body"
    and msg: "msg = join crlf (mail_headers s to subject bytes date) @ crlf @ crlf @ add_cr (drop_cr body)"
    using assms(4) by (auto simp: buildMessage_def one_line_def split: if_splits)
  have "read_headers 10 msg = (mail_headers s to subject bytes date, add_cr body)"
    unfolding msg drop_cr_plain [OF plain_no_cr [OF ok(3)]]
    by (rule read_headers_join [OF headers_one_line [OF assms(1-3) ok(1,2)]]) (simp_all add: mail_headers_def)
  moreover have "drop_cr (add_cr body) = body" by (rule drop_add_cr [OF plain_no_cr [OF ok(3)]])
  moreover have "filter (\<lambda>h. has_prefix ''To:'' h \<or> has_prefix ''Cc:'' h \<or> has_prefix ''Bcc:'' h) (mail_headers s to subject bytes date) =
    [''To: '' @ to]" by (simp add: mail_headers_def has_prefix_def)
  ultimately show ?thesis by simp
qed

section \<open>The configuration and the registry agree\<close>

definition registry_ok :: "netlib \<Rightarrow> maillib \<Rightarrow> registry \<Rightarrow> bool" where
  "registry_ok N M reg \<longleftrightarrow> set (rg_names reg) = dom (map_of (rg_factories reg)) \<and> [] \<notin> set (rg_names reg) \<and>
     (\<forall>name f. map_of (rg_factories (builtin_registry N M)) name = Some f \<longrightarrow> map_of (rg_factories reg) name = Some f)"

lemma RegisterDriver_ok: "registry_ok N M reg \<Longrightarrow> RegisterDriver name f reg = Inr reg' \<Longrightarrow> registry_ok N M reg'"
  by (auto simp: RegisterDriver_def RegisterNotifyDriver_def registry_ok_def Let_def norm_idem eq_commute [of "[]"] split: if_splits option.splits)

lemma register_all_ok: "registry_ok N M reg \<Longrightarrow> register_all ds reg = Inr reg' \<Longrightarrow> registry_ok N M reg'"
  by (induction ds reg rule: register_all.induct) (auto split: sum.splits dest: RegisterDriver_ok)

lemma builtin_ok: "registry_ok N M (builtin_registry N M)"
  by (auto simp: registry_ok_def builtin_registry_def builtin_drivers_def split: if_splits)

text \<open>
  Configuration and notifier registry agree. Whatever drivers a program registers, as long as no registration panics, a driver name
  that linting accepts has exactly one factory, and \<open>New\<close> returns what that factory returns for the configuration; no registration
  replaces a built-in driver.\<close>

theorem drivers_agree:
  assumes "register_all ds (builtin_registry N M) = Inr reg"
  shows "(lintNotifyDriver (rg_names reg) c = None \<longleftrightarrow> lookupDriver (nt_Driver (cf_Notify c)) reg \<noteq> None) \<and>
    (lintNotifyDriver (rg_names reg) c = None \<longrightarrow>
       (\<exists>f. lookupDriver (nt_Driver (cf_Notify c)) reg = Some f \<and> notify_New reg (cf_Notify c) env = f (cf_Notify c) env)) \<and>
    lookupDriver ''smtp'' reg = Some (smtp_factory N M) \<and> lookupDriver ''log'' reg = Some log_factory"
proof -
  have ok: "registry_ok N M reg" using register_all_ok [OF builtin_ok assms] .
  let ?name = "to_lower (trim_space (nt_Driver (cf_Notify c)))"
  have known: "lintNotifyDriver (rg_names reg) c = None \<longleftrightarrow> ?name \<in> set (rg_names reg)"
    by (simp add: lintNotifyDriver_def refuse_def notifyDriverKnown_def)
  have found: "lookupDriver (nt_Driver (cf_Notify c)) reg \<noteq> None \<longleftrightarrow> ?name \<in> set (rg_names reg)"
    using ok by (auto simp: registry_ok_def lookupDriver_def)
  have new: "notify_New reg (cf_Notify c) env = f (cf_Notify c) env"
    if "lookupDriver (nt_Driver (cf_Notify c)) reg = Some f" and "?name \<noteq> []" for f
    using that by (simp add: notify_New_def lookupDriver_def norm_idem Let_def)
  have "?name \<noteq> []" if "?name \<in> set (rg_names reg)" using ok that unfolding registry_ok_def by metis
  moreover have "to_lower (trim_space ''smtp'') = ''smtp''" "to_lower (trim_space ''log'') = ''log''" by code_simp+
  ultimately show ?thesis using known found new ok by (auto simp: registry_ok_def lookupDriver_def builtin_registry_def)
qed

definition sample_smtp :: SMTPConfig where
  "sample_smtp = \<lparr>sm_Host = ''mail'', sm_Port = 587, sm_Username = ''u'', sm_Password = ''p'', sm_From = ''a@b'', sm_TLS = SMTPTLSStartTLS,
     sm_ResetURL = [], sm_VerifyURL = []\<rparr>"

definition sample_maillib :: maillib where
  "sample_maillib = \<lparr>ml_ParseAddress = \<lambda>s. Inr \<lparr>ma_Address = s, ma_String = ''<'' @ s @ ''>''\<rparr>\<rparr>"

definition sample_notify :: NotifyConfig where
  "sample_notify = \<lparr>nt_Driver = ''smtp'', nt_LogSecrets = False, nt_Timeout = 0, nt_SMTP = sample_smtp\<rparr>"

definition sample_sender :: SMTP where
  "sample_sender = \<lparr>sp_cfg = sample_smtp, sp_from = \<lparr>ma_Address = ''a@b'', ma_String = ''<a@b>''\<rparr>\<rparr>"

definition sample_peer :: smtp_peer where
  "sample_peer = \<lparr>pr_answer = \<lambda>tr ev. None, pr_extension = \<lambda>tr name. True\<rparr>"

lemma sample_factory: "smtp_factory no_netlib sample_maillib sample_notify ''prod'' = Inr (Mail sample_sender)"
proof -
  have "\<not> contains_any ''a@b'' line_breaks" "trim_space ''mail'' \<noteq> []" by code_simp+
  then show ?thesis by (simp add: smtp_factory_def NewSMTP_def sample_notify_def sample_smtp_def sample_maillib_def sample_sender_def)
qed

lemma sample_env: "\<not> equal_fold (trim_space ''prod'') ''dev''"
  by code_simp


theorem mail_headers_exact_witness:
  "\<exists>content. snd (read_headers 10 (projr (buildMessage sample_sender (Inr [1, 2]) ''now'' ''x@y'' ''Hi'' ''text''))) = content \<and> drop_cr content = ''text''"
proof -
  have b: "buildMessage sample_sender (Inr [1, 2]) ''now'' ''x@y'' ''Hi'' ''text'' =
      Inr (projr (buildMessage sample_sender (Inr [1, 2]) ''now'' ''x@y'' ''Hi'' ''text''))" by code_simp
  have l: "one_line (ma_String (sp_from sample_sender))" "one_line (ma_Address (sp_from sample_sender))" "one_line ''now''" by code_simp+
  show ?thesis using mail_headers_exact [OF l b] by (metis snd_conv)
qed

theorem drivers_agree_witness:
  "\<exists>reg. register_all [('' SendGrid '', Some (\<lambda>cfg env. Inr (Other 7)))] (builtin_registry no_netlib sample_maillib) = Inr reg \<and>
     lookupDriver ''smtp'' reg = Some (smtp_factory no_netlib sample_maillib)"
proof -
  have names: "to_lower (trim_space '' SendGrid '') = ''sendgrid''" "to_lower (trim_space ''sendgrid'') = ''sendgrid''" by code_simp+
  obtain reg where "register_all [('' SendGrid '', Some (\<lambda>cfg env. Inr (Other 7)))] (builtin_registry no_netlib sample_maillib) = Inr reg"
    by (simp add: RegisterDriver_def RegisterNotifyDriver_def builtin_registry_def builtin_drivers_def names Let_def)
  from this drivers_agree [OF this] show ?thesis by blast
qed

end
