(* ===== verification/Dispatcher.thy ===== *)
theory Dispatcher
  imports Prelude
begin

text \<open>
  The dispatcher of notifications (\<open>internal/core/notify/notify.go\<close>, \<open>Dispatcher\<close>): bounded delivery in the background, \<open>Shutdown\<close> and
  \<open>Wait\<close>.

  The state holds every delivery, every \<open>Shutdown\<close> call and every \<open>Wait\<close> call with the place it has reached. One step is one action on the
  shared state: the critical section of \<open>dispatch\<close>, a receive from \<open>slots\<close>, one atomic counter operation. \<open>step\<close> interleaves them in any
  order; a select that can take two ways is two steps. A receive from an empty channel and a send on a full one are not enabled.
\<close>

section \<open>State\<close>

datatype job = Reset string string | Verify string string   \<comment> \<open>address and challenge\<close>

fun job_kind :: "job \<Rightarrow> string" where
  "job_kind (Reset to challenge) = ''password_reset''"
| "job_kind (Verify to challenge) = ''email_verification''"

text \<open>A delivery runs the notifier, then the deferred function: \<open><-d.slots\<close>, \<open>inflight.Add(-1)\<close>, \<open>wg.Done()\<close>.\<close>

datatype delivery_pc = Sending | Released | Counted | Finished
datatype shutdown_pc = Draining | Loaded int | Drained | Abandoned int
datatype wait_pc = Acquiring nat | Giving nat | Backing nat | Waited bool   \<comment> \<open>tokens held; nil or the error of the context\<close>

record dispatcher =
  dp_cap :: int
  dp_slots :: int
  dp_closed :: bool
  dp_wg :: int
  dp_inflight :: int
  dp_stop :: bool
  dp_deliveries :: "(job \<times> delivery_pc) list"
  dp_shutdowns :: "shutdown_pc list"
  dp_waits :: "wait_pc list"
  dp_log :: "(string \<times> string) list"

definition NewDispatcher :: "int \<Rightarrow> dispatcher" where
  "NewDispatcher maxInFlight =
     \<lparr>dp_cap = (if maxInFlight \<le> 0 then 64 else maxInFlight), dp_slots = 0, dp_closed = False, dp_wg = 0, dp_inflight = 0, dp_stop = False,
      dp_deliveries = [], dp_shutdowns = [], dp_waits = [], dp_log = []\<rparr>"

section \<open>Operations\<close>

definition warn :: "job \<Rightarrow> string \<Rightarrow> dispatcher \<Rightarrow> dispatcher" where
  "warn j msg d = d\<lparr>dp_log := dp_log d @ [(job_kind j, msg)]\<rparr>"

definition dispatch :: "job \<Rightarrow> dispatcher \<Rightarrow> dispatcher" where
  "dispatch j d =
     (if dp_closed d then warn j ''notify: dispatcher is shut down; message dropped'' d
      else if dp_slots d \<ge> dp_cap d then warn j ''notify: dispatcher saturated; message dropped'' d
      else d\<lparr>dp_slots := dp_slots d + 1, dp_wg := dp_wg d + 1, dp_inflight := dp_inflight d + 1,
             dp_deliveries := dp_deliveries d @ [(j, Sending)]\<rparr>)"

definition Dispatcher_PasswordReset :: "string \<Rightarrow> string \<Rightarrow> dispatcher \<Rightarrow> dispatcher" where
  "Dispatcher_PasswordReset to challenge = dispatch (Reset to challenge)"

definition Dispatcher_EmailVerification :: "string \<Rightarrow> string \<Rightarrow> dispatcher \<Rightarrow> dispatcher" where
  "Dispatcher_EmailVerification to challenge = dispatch (Verify to challenge)"

text \<open>The next action of delivery \<open>i\<close>; \<open>failed\<close>: the notifier returned an error.\<close>

definition deliver_step :: "bool \<Rightarrow> nat \<Rightarrow> dispatcher \<Rightarrow> dispatcher option" where
  "deliver_step failed i d =
     (if i \<ge> length (dp_deliveries d) then None
      else (case dp_deliveries d ! i of
          (j, Sending) \<Rightarrow>
            if dp_slots d \<le> 0 then None
            else Some ((if failed then warn j ''notify: delivery failed'' d else d)
              \<lparr>dp_slots := dp_slots d - 1, dp_deliveries := (dp_deliveries d)[i := (j, Released)]\<rparr>)
        | (j, Released) \<Rightarrow> Some (d\<lparr>dp_inflight := dp_inflight d - 1, dp_deliveries := (dp_deliveries d)[i := (j, Counted)]\<rparr>)
        | (j, Counted) \<Rightarrow> Some (d\<lparr>dp_wg := dp_wg d - 1, dp_deliveries := (dp_deliveries d)[i := (j, Finished)]\<rparr>)
        | (j, Finished) \<Rightarrow> None))"

text \<open>\<open>Shutdown\<close>: its critical section; then either the group is done, or the context ends and the two actions after it follow.\<close>

definition Shutdown_begin :: "dispatcher \<Rightarrow> dispatcher" where
  "Shutdown_begin d = d\<lparr>dp_closed := True, dp_shutdowns := dp_shutdowns d @ [Draining]\<rparr>"

definition Shutdown_step :: "bool \<Rightarrow> nat \<Rightarrow> dispatcher \<Rightarrow> dispatcher option" where
  "Shutdown_step expired i d =
     (if i \<ge> length (dp_shutdowns d) then None
      else (case dp_shutdowns d ! i of
          Draining \<Rightarrow>
            if expired then Some (d\<lparr>dp_shutdowns := (dp_shutdowns d)[i := Loaded (dp_inflight d)]\<rparr>)
            else if dp_wg d = 0 then Some (d\<lparr>dp_shutdowns := (dp_shutdowns d)[i := Drained]\<rparr>) else None
        | Loaded n \<Rightarrow> Some (d\<lparr>dp_stop := True, dp_shutdowns := (dp_shutdowns d)[i := Abandoned n]\<rparr>)
        | _ \<Rightarrow> None))"

definition Wait_begin :: "dispatcher \<Rightarrow> dispatcher" where
  "Wait_begin d = d\<lparr>dp_waits := dp_waits d @ [Acquiring 0]\<rparr>"

definition Wait_step :: "bool \<Rightarrow> nat \<Rightarrow> dispatcher \<Rightarrow> dispatcher option" where
  "Wait_step expired i d =
     (if i \<ge> length (dp_waits d) then None
      else (case dp_waits d ! i of
          Acquiring n \<Rightarrow>
            if int n \<ge> dp_cap d then Some (d\<lparr>dp_waits := (dp_waits d)[i := Giving n]\<rparr>)
            else if expired then Some (d\<lparr>dp_waits := (dp_waits d)[i := Backing n]\<rparr>)
            else if dp_slots d \<ge> dp_cap d then None
            else Some (d\<lparr>dp_slots := dp_slots d + 1, dp_waits := (dp_waits d)[i := Acquiring (Suc n)]\<rparr>)
        | Giving 0 \<Rightarrow> Some (d\<lparr>dp_waits := (dp_waits d)[i := Waited True]\<rparr>)
        | Giving (Suc n) \<Rightarrow>
            if dp_slots d \<le> 0 then None else Some (d\<lparr>dp_slots := dp_slots d - 1, dp_waits := (dp_waits d)[i := Giving n]\<rparr>)
        | Backing 0 \<Rightarrow> Some (d\<lparr>dp_waits := (dp_waits d)[i := Waited False]\<rparr>)
        | Backing (Suc n) \<Rightarrow>
            if dp_slots d \<le> 0 then None else Some (d\<lparr>dp_slots := dp_slots d - 1, dp_waits := (dp_waits d)[i := Backing n]\<rparr>)
        | Waited b \<Rightarrow> None))"

inductive dispatcher_step :: "dispatcher \<Rightarrow> dispatcher \<Rightarrow> bool" where
  Dispatch: "dispatcher_step d (dispatch j d)"
| Deliver: "deliver_step failed i d = Some d' \<Longrightarrow> dispatcher_step d d'"
| Shutdown_call: "dispatcher_step d (Shutdown_begin d)"
| Shutdown_action: "Shutdown_step expired i d = Some d' \<Longrightarrow> dispatcher_step d d'"
| Wait_call: "dispatcher_step d (Wait_begin d)"
| Wait_action: "Wait_step expired i d = Some d' \<Longrightarrow> dispatcher_step d d'"

abbreviation dispatcher_steps :: "dispatcher \<Rightarrow> dispatcher \<Rightarrow> bool" where
  "dispatcher_steps \<equiv> dispatcher_step\<^sup>*\<^sup>*"

section \<open>The counters\<close>

text \<open>The sum of a quantity over a list, and what an update changes of it.\<close>

definition sum_over :: "('a \<Rightarrow> int) \<Rightarrow> 'a list \<Rightarrow> int" where
  "sum_over w xs = sum_list (map w xs)"

lemma sum_over_simps [simp]: "sum_over w [] = 0" "sum_over w (x # xs) = w x + sum_over w xs" "sum_over w (xs @ ys) = sum_over w xs + sum_over w ys"
  by (simp_all add: sum_over_def)

lemma sum_over_update: "i < length xs \<Longrightarrow> sum_over w (xs[i := y]) = sum_over w xs - w (xs ! i) + w y"
  by (induction xs arbitrary: i) (auto split: nat.split simp: nth_Cons)

lemma sum_over_nonneg: "(\<And>x. 0 \<le> w x) \<Longrightarrow> 0 \<le> sum_over w xs"
  by (induction xs) simp_all

lemma sum_over_member: "(\<And>x. 0 \<le> w x) \<Longrightarrow> x \<in> set xs \<Longrightarrow> w x \<le> sum_over w xs"
  by (induction xs) (auto intro: add_increasing add_increasing2 sum_over_nonneg)

fun sending :: "job \<times> delivery_pc \<Rightarrow> int" where
  "sending (j, Sending) = 1" | "sending (j, pc) = 0"

fun counted :: "job \<times> delivery_pc \<Rightarrow> int" where
  "counted (j, Sending) = 1" | "counted (j, Released) = 1" | "counted (j, pc) = 0"

fun unfinished :: "job \<times> delivery_pc \<Rightarrow> int" where
  "unfinished (j, Finished) = 0" | "unfinished (j, pc) = 1"

text \<open>Steps a delivery has left.\<close>

fun remaining :: "job \<times> delivery_pc \<Rightarrow> int" where
  "remaining (j, Sending) = 3" | "remaining (j, Released) = 2" | "remaining (j, Counted) = 1" | "remaining (j, Finished) = 0"

fun held :: "wait_pc \<Rightarrow> int" where
  "held (Acquiring n) = int n" | "held (Giving n) = int n" | "held (Backing n) = int n" | "held (Waited b) = 0"

lemma weights_nonneg [simp]: "0 \<le> sending x" "0 \<le> counted x" "0 \<le> unfinished x" "0 \<le> remaining x" "0 \<le> held w"
  by (cases x rule: remaining.cases; simp)+ (cases w; simp)

definition dispatcher_ok :: "dispatcher \<Rightarrow> bool" where
  "dispatcher_ok d \<longleftrightarrow>
     0 < dp_cap d \<and> dp_slots d = sum_over sending (dp_deliveries d) + sum_over held (dp_waits d) \<and> dp_slots d \<le> dp_cap d \<and>
     dp_inflight d = sum_over counted (dp_deliveries d) \<and> dp_wg d = sum_over unfinished (dp_deliveries d) \<and>
     (dp_shutdowns d \<noteq> [] \<longrightarrow> dp_closed d) \<and> (Drained \<in> set (dp_shutdowns d) \<longrightarrow> dp_wg d = 0)"

lemma dispatch_ok: "dispatcher_ok d \<Longrightarrow> dispatcher_ok (dispatch j d)"
  by (auto simp: dispatcher_ok_def dispatch_def warn_def)

lemma no_delivery_left:
  assumes "sum_over unfinished ds = 0" and "i < length ds"
  shows "snd (ds ! i) = Finished"
  using sum_over_member [of unfinished "ds ! i" ds] nth_mem [OF assms(2)] assms(1) by (cases "ds ! i" rule: remaining.cases) auto

text \<open>What one action of a delivery changes.\<close>

lemma deliver_step_cases:
  assumes "deliver_step failed i d = Some d'"
  obtains (release) j where "i < length (dp_deliveries d)" "dp_deliveries d ! i = (j, Sending)" "0 < dp_slots d"
      "dp_slots d' = dp_slots d - 1" "dp_inflight d' = dp_inflight d" "dp_wg d' = dp_wg d" "dp_deliveries d' = (dp_deliveries d)[i := (j, Released)]"
    | (count) j where "i < length (dp_deliveries d)" "dp_deliveries d ! i = (j, Released)" "dp_slots d' = dp_slots d"
      "dp_inflight d' = dp_inflight d - 1" "dp_wg d' = dp_wg d" "dp_deliveries d' = (dp_deliveries d)[i := (j, Counted)]"
    | (finish) j where "i < length (dp_deliveries d)" "dp_deliveries d ! i = (j, Counted)" "dp_slots d' = dp_slots d"
      "dp_inflight d' = dp_inflight d" "dp_wg d' = dp_wg d - 1" "dp_deliveries d' = (dp_deliveries d)[i := (j, Finished)]"
  using assms
  by (auto simp: deliver_step_def warn_def split: if_splits prod.splits delivery_pc.splits)

lemma deliver_step_same:
  "deliver_step failed i d = Some d' \<Longrightarrow> dp_cap d' = dp_cap d \<and> dp_closed d' = dp_closed d \<and> dp_shutdowns d' = dp_shutdowns d \<and> dp_waits d' = dp_waits d"
  by (auto simp: deliver_step_def warn_def split: if_splits prod.splits delivery_pc.splits)

lemma deliver_step_ok:
  assumes "dispatcher_ok d" and "deliver_step failed i d = Some d'"
  shows "dispatcher_ok d'"
  using assms(2)
proof (cases rule: deliver_step_cases)
  case (finish j)
  then have "dp_wg d \<noteq> 0" using assms(1) no_delivery_left [of "dp_deliveries d" i] by (auto simp: dispatcher_ok_def)
  then show ?thesis using finish assms(1) deliver_step_same [OF assms(2)] by (auto simp: dispatcher_ok_def sum_over_update)
qed (use assms(1) deliver_step_same [OF assms(2)] in \<open>auto simp: dispatcher_ok_def sum_over_update\<close>)

lemma Shutdown_ok: "dispatcher_ok d \<Longrightarrow> dispatcher_ok (Shutdown_begin d)"
  "dispatcher_ok d \<Longrightarrow> Shutdown_step expired i d = Some d' \<Longrightarrow> dispatcher_ok d'"
  by (auto simp: dispatcher_ok_def Shutdown_begin_def Shutdown_step_def in_set_conv_nth nth_list_update split: if_splits shutdown_pc.splits)

lemma Wait_ok: "dispatcher_ok d \<Longrightarrow> dispatcher_ok (Wait_begin d)"
  "dispatcher_ok d \<Longrightarrow> Wait_step expired i d = Some d' \<Longrightarrow> dispatcher_ok d'"
  by (auto simp: dispatcher_ok_def Wait_begin_def Wait_step_def sum_over_update split: if_splits wait_pc.splits nat.splits)

lemma dispatcher_step_ok: "dispatcher_step d d' \<Longrightarrow> dispatcher_ok d \<Longrightarrow> dispatcher_ok d'"
  by (induction rule: dispatcher_step.induct) (auto intro: dispatch_ok deliver_step_ok Shutdown_ok Wait_ok)

lemma dispatcher_steps_ok: "dispatcher_steps d d' \<Longrightarrow> dispatcher_ok d \<Longrightarrow> dispatcher_ok d'"
  by (induction rule: rtranclp_induct) (auto intro: dispatcher_step_ok)

lemma NewDispatcher_ok: "dispatcher_ok (NewDispatcher maxInFlight)"
  by (simp add: dispatcher_ok_def NewDispatcher_def)

lemma dispatcher_step_cap: "dispatcher_step d d' \<Longrightarrow> dp_cap d' = dp_cap d"
  by (induction rule: dispatcher_step.induct)
    (auto simp: dispatch_def warn_def deliver_step_def Shutdown_begin_def Shutdown_step_def Wait_begin_def Wait_step_def
      split: if_splits prod.splits delivery_pc.splits shutdown_pc.splits wait_pc.splits nat.splits)

lemma dispatcher_steps_cap: "dispatcher_steps d d' \<Longrightarrow> dp_cap d' = dp_cap d"
  by (induction rule: rtranclp_induct) (auto dest: dispatcher_step_cap)

text \<open>
  C25: Background delivery is bounded and its books balance. In every state any interleaving of requests, deliveries, shutdowns and waits
  can reach, at most \<open>maxInFlight\<close> deliveries are with the notifier; the slots taken are those deliveries and the tokens of running
  \<open>Wait\<close> calls; the two counters count exactly the deliveries they should, so the wait group never goes negative; an open
  dispatcher with a free slot accepts a message; and when a \<open>Wait\<close> call has all the tokens, no delivery is with the notifier.\<close>

theorem dispatcher_bounded:
  assumes "dispatcher_steps (NewDispatcher maxInFlight) d"
  shows "dp_cap d = (if maxInFlight \<le> 0 then 64 else maxInFlight) \<and>
    dp_slots d = sum_over sending (dp_deliveries d) + sum_over held (dp_waits d) \<and> sum_over sending (dp_deliveries d) \<le> dp_cap d \<and>
    dp_inflight d = sum_over counted (dp_deliveries d) \<and> dp_wg d = sum_over unfinished (dp_deliveries d) \<and> 0 \<le> dp_wg d \<and>
    (\<not> dp_closed d \<and> dp_slots d < dp_cap d \<longrightarrow> dp_deliveries (dispatch j d) = dp_deliveries d @ [(j, Sending)]) \<and>
    (\<forall>n. Acquiring n \<in> set (dp_waits d) \<and> int n \<ge> dp_cap d \<longrightarrow> sum_over sending (dp_deliveries d) = 0)"
proof -
  have ok: "dispatcher_ok d" using dispatcher_steps_ok [OF assms NewDispatcher_ok] .
  have nonneg: "0 \<le> sum_over sending (dp_deliveries d)" "0 \<le> sum_over held (dp_waits d)" "0 \<le> sum_over unfinished (dp_deliveries d)"
    by (simp_all add: sum_over_nonneg)
  have "sum_over sending (dp_deliveries d) = 0" if "Acquiring n \<in> set (dp_waits d)" "int n \<ge> dp_cap d" for n
    using sum_over_member [of held, OF weights_nonneg(5) that(1)] that(2) nonneg(1) ok by (auto simp: dispatcher_ok_def)
  moreover have "dp_cap d = (if maxInFlight \<le> 0 then 64 else maxInFlight)"
    using dispatcher_steps_cap [OF assms] by (simp add: NewDispatcher_def)
  ultimately show ?thesis using ok nonneg by (auto simp: dispatcher_ok_def dispatch_def)
qed

section \<open>Shutdown\<close>

definition drain :: "dispatcher \<Rightarrow> dispatcher \<Rightarrow> bool" where
  "drain d d' \<longleftrightarrow> (\<exists>failed i. deliver_step failed i d = Some d')"

lemma deliver_remaining: "deliver_step failed i d = Some d' \<Longrightarrow> sum_over remaining (dp_deliveries d') = sum_over remaining (dp_deliveries d) - 1"
  by (erule deliver_step_cases) (auto simp: sum_over_update)

text \<open>An unfinished delivery is never stuck: its slot is still in the channel.\<close>

lemma deliver_enabled:
  assumes "dispatcher_ok d" and "i < length (dp_deliveries d)" and "snd (dp_deliveries d ! i) \<noteq> Finished"
  shows "\<exists>d'. deliver_step failed i d = Some d'"
proof -
  have "0 < dp_slots d" if "dp_deliveries d ! i = (j, Sending)" for j
    using sum_over_member [of sending "(j, Sending)" "dp_deliveries d"] nth_mem [OF assms(2)] that assms(1) sum_over_nonneg [of held "dp_waits d"]
    by (auto simp: dispatcher_ok_def)
  then show ?thesis using assms(2,3) by (cases "dp_deliveries d ! i" rule: remaining.cases) (auto simp: deliver_step_def)
qed

lemma unfinished_exists: "sum_over unfinished ds \<noteq> 0 \<Longrightarrow> \<exists>i<length ds. snd (ds ! i) \<noteq> Finished"
proof (induction ds)
  case (Cons x ds)
  show ?case
  proof (cases "snd x = Finished")
    case True
    then have "unfinished x = 0" by (cases x) simp
    then show ?thesis using Cons by auto
  qed auto
qed simp

lemma remaining_0_iff: "sum_over remaining ds = 0 \<longleftrightarrow> sum_over unfinished ds = 0"
proof (induction ds)
  case (Cons x ds)
  have "remaining x = 0 \<longleftrightarrow> unfinished x = 0" by (cases x rule: remaining.cases) simp_all
  then show ?case using Cons sum_over_nonneg [of remaining ds] sum_over_nonneg [of unfinished ds] weights_nonneg(3,4) [of x]
    by (auto simp: add_nonneg_eq_0_iff)
qed simp

lemma drain_all:
  assumes "dispatcher_ok d"
  shows "\<exists>d'. (drain ^^ nat (sum_over remaining (dp_deliveries d))) d d' \<and> dp_wg d' = 0 \<and> dp_shutdowns d' = dp_shutdowns d"
  using assms
proof (induction "nat (sum_over remaining (dp_deliveries d))" arbitrary: d)
  case 0
  then have "sum_over remaining (dp_deliveries d) = 0" using sum_over_nonneg [of remaining "dp_deliveries d"] by simp
  then show ?case using 0 by (auto simp: dispatcher_ok_def remaining_0_iff)
next
  case (Suc n)
  then have "sum_over unfinished (dp_deliveries d) \<noteq> 0" using remaining_0_iff [of "dp_deliveries d"] by auto
  then obtain i d1 where d1: "deliver_step False i d = Some d1" using unfinished_exists deliver_enabled [OF Suc.prems] by blast
  have "n = nat (sum_over remaining (dp_deliveries d1))" using deliver_remaining [OF d1] Suc.hyps(2) by simp
  from Suc.hyps(1) [OF this deliver_step_ok [OF Suc.prems d1]]
  obtain d' where d': "(drain ^^ n) d1 d'" "dp_wg d' = 0" "dp_shutdowns d' = dp_shutdowns d1"
    using \<open>n = _\<close> by auto
  have "(drain ^^ Suc n) d d'" using d1 d'(1) relpowp_Suc_I2 [of drain d d1 n d'] by (auto simp: drain_def)
  then show ?case using d' deliver_step_same [OF d1] Suc.hyps(2) by metis
qed

text \<open>Nothing starts on a closed dispatcher.\<close>

lemma closed_step:
  assumes "dispatcher_step d d'" and "dp_closed d"
  shows "dp_closed d' \<and> map fst (dp_deliveries d') = map fst (dp_deliveries d) \<and>
    sum_over remaining (dp_deliveries d') \<le> sum_over remaining (dp_deliveries d)"
  using assms
proof (induction rule: dispatcher_step.induct)
  case (Deliver failed i d d')
  have "map fst (dp_deliveries d') = map fst (dp_deliveries d)"
    using Deliver.hyps by (rule deliver_step_cases) (auto simp: map_update intro!: nth_equalityI simp: nth_list_update)
  then show ?case using deliver_remaining [OF Deliver.hyps] deliver_step_same [OF Deliver.hyps] Deliver.prems by simp
qed (auto simp: dispatch_def warn_def Shutdown_begin_def Shutdown_step_def Wait_begin_def Wait_step_def
      split: if_splits shutdown_pc.splits wait_pc.splits nat.splits)

lemma closed_steps:
  assumes "dispatcher_steps d d'" and "dp_closed d"
  shows "dp_closed d' \<and> map fst (dp_deliveries d') = map fst (dp_deliveries d) \<and>
    sum_over remaining (dp_deliveries d') \<le> sum_over remaining (dp_deliveries d)"
  using assms by (induction rule: rtranclp_induct) (auto dest: closed_step)

text \<open>
  C26: Shutdown drains. On a closed dispatcher, whatever else happens, no message is accepted and the work left never grows; each action of a
  delivery takes exactly one unit off it, and as long as the wait group is not at zero some delivery can act, whether or not its notifier
  fails. So exactly as many actions as are left finish every delivery, and then a waiting \<open>Shutdown\<close> returns \<open>0\<close>; and a \<open>Shutdown\<close> that
  has returned so left nothing running. That a notifier returns is what its timeout and its context are for.\<close>

theorem shutdown_drains:
  assumes "dispatcher_steps (NewDispatcher maxInFlight) d" and "dp_closed d"
  shows "(\<forall>d'. dispatcher_steps d d' \<longrightarrow> dp_closed d' \<and> map fst (dp_deliveries d') = map fst (dp_deliveries d) \<and>
      sum_over remaining (dp_deliveries d') \<le> sum_over remaining (dp_deliveries d)) \<and>
    (\<forall>d'. drain d d' \<longrightarrow> sum_over remaining (dp_deliveries d') = sum_over remaining (dp_deliveries d) - 1) \<and>
    (dp_wg d \<noteq> 0 \<longrightarrow> (\<exists>i. \<forall>failed. deliver_step failed i d \<noteq> None)) \<and>
    (\<exists>d'. (drain ^^ nat (sum_over remaining (dp_deliveries d))) d d' \<and> dp_wg d' = 0 \<and>
       (\<forall>i<length (dp_shutdowns d). dp_shutdowns d ! i = Draining \<longrightarrow>
          (\<exists>d''. Shutdown_step False i d' = Some d'' \<and> dp_shutdowns d'' ! i = Drained))) \<and>
    (Drained \<in> set (dp_shutdowns d) \<longrightarrow> list_all (\<lambda>x. snd x = Finished) (dp_deliveries d))"
proof -
  have ok: "dispatcher_ok d" using dispatcher_steps_ok [OF assms(1) NewDispatcher_ok] .
  have wg: "dp_wg d = sum_over unfinished (dp_deliveries d)" using ok by (simp add: dispatcher_ok_def)
  have "\<exists>i. \<forall>failed. deliver_step failed i d \<noteq> None" if "dp_wg d \<noteq> 0"
    using unfinished_exists [of "dp_deliveries d"] deliver_enabled [OF ok] that wg by fastforce
  moreover have "list_all (\<lambda>x. snd x = Finished) (dp_deliveries d)" if "Drained \<in> set (dp_shutdowns d)"
    using that ok no_delivery_left [of "dp_deliveries d"] by (auto simp: dispatcher_ok_def list_all_length)
  moreover obtain d' where d': "(drain ^^ nat (sum_over remaining (dp_deliveries d))) d d'" "dp_wg d' = 0" "dp_shutdowns d' = dp_shutdowns d"
    using drain_all [OF ok] by blast
  moreover have "\<exists>d''. Shutdown_step False i d' = Some d'' \<and> dp_shutdowns d'' ! i = Drained"
    if "i < length (dp_shutdowns d)" "dp_shutdowns d ! i = Draining" for i
    using that d'(2,3) by (auto simp: Shutdown_step_def)
  ultimately show ?thesis using closed_steps [OF _ assms(2)] deliver_remaining unfolding drain_def by blast
qed

text \<open>One slot: the first message is taken, the second dropped; then shutdown begins.\<close>

definition sample_dispatcher :: dispatcher where
  "sample_dispatcher = Shutdown_begin (dispatch (Verify ''c@d'' ''x'') (dispatch (Reset ''a@b'' ''y'') (NewDispatcher 1)))"

lemma sample_dispatcher_reached: "dispatcher_steps (NewDispatcher 1) sample_dispatcher"
proof -
  have "dispatcher_steps (NewDispatcher 1) (dispatch (Reset ''a@b'' ''y'') (NewDispatcher 1))" by (rule r_into_rtranclp) (rule Dispatch)
  then have "dispatcher_steps (NewDispatcher 1) (dispatch (Verify ''c@d'' ''x'') (dispatch (Reset ''a@b'' ''y'') (NewDispatcher 1)))"
    by (rule rtranclp.rtrancl_into_rtrancl) (rule Dispatch)
  then show ?thesis unfolding sample_dispatcher_def by (rule rtranclp.rtrancl_into_rtrancl) (rule Shutdown_call)
qed

theorem dispatcher_bounded_witness: "sum_over sending (dp_deliveries sample_dispatcher) \<le> 1 \<and> dp_wg sample_dispatcher = 1"
proof -
  have "sum_over unfinished (dp_deliveries sample_dispatcher) = 1" by code_simp
  then show ?thesis using dispatcher_bounded [OF sample_dispatcher_reached, of "Reset [] []"] by simp
qed

theorem shutdown_drains_witness: "\<exists>d'. (drain ^^ 3) sample_dispatcher d' \<and> dp_wg d' = 0"
proof -
  have "dp_closed sample_dispatcher" by code_simp
  moreover have "nat (sum_over remaining (dp_deliveries sample_dispatcher)) = 3" by code_simp
  ultimately show ?thesis using shutdown_drains [OF sample_dispatcher_reached] by metis
qed

end
