(* ===== verification/Auth_Service.thy ===== *)
theory Auth_Service
  imports Auth_Repo Dispatcher Http
begin

text \<open>
  The service of the authentication module (\<open>internal/modules/auth\<close>: \<open>errors.go\<close>, \<open>repo.go\<close>, \<open>service.go\<close>, the ceremonies of
  \<open>webauthn.go\<close>).

  The goAuth engine is outside the repository: it is the record \<open>engine\<close> of its methods, each a function on a state \<open>'e\<close> that also
  holds the accounts. The messenger is the dispatcher of \<open>Dispatcher\<close>. A method of the service maps the pair of these states to a result
  and the new pair.
\<close>

section \<open>Errors\<close>

text \<open>The goAuth error values the module asks for with \<open>errors.Is\<close>, and the category of an \<open>AuthError\<close>.\<close>

datatype sentinel =
    ErrLoginRateLimited | ErrAccountExists | ErrPasswordPolicy | ErrPasswordReuse | ErrPasswordResetInvalid | ErrEmailVerificationInvalid
  | ErrInvalidCredentials | ErrTOTPInvalid | ErrBackupCodeInvalid | ErrMFALoginInvalid | ErrTOTPRequired | ErrMFALoginRequired
  | ErrTOTPAlreadyEnabled | ErrPasswordVerifyRateLimited | ErrTOTPNotConfigured | ErrBackupCodesNotConfigured
  | ErrBackupCodeRegenerationRequiresTOTP | ErrPasswordResetDisabled | ErrEmailVerificationDisabled | ErrTOTPFeatureDisabled
  | ErrAccountCreationDisabled | GoErrUserNotFound

datatype category = CategoryAuthAbuse | CategoryAuthState | CategorySystem | CategoryOther nat

text \<open>An error of goAuth: the values it \<open>Is\<close>, the \<open>AuthError\<close> it holds, and what it is for code that does not know goAuth.\<close>

record goauth_error =
  ge_is :: "sentinel list"
  ge_auth :: "(category \<times> bool) option"   \<comment> \<open>category; the code is \<open>CodeSystemInternalError\<close>\<close>
  ge_error :: go_error

definition caused :: "go_error \<Rightarrow> go_error \<Rightarrow> go_error" where
  "caused e cause = the (WithCause (Some e) cause)"

definition mapAuthEndpointError :: "goauth_error \<Rightarrow> string \<Rightarrow> go_error" where
  "mapAuthEndpointError err invalidMessage =
     (case ge_auth err of
        Some (cat, internal) \<Rightarrow>
          (case cat of
             CategoryAuthAbuse \<Rightarrow> caused (apperr_New CodeTooManyRequests 429 ''authentication temporarily limited'') (ge_error err)
           | CategoryAuthState \<Rightarrow> caused (apperr_New CodeForbidden 403 ''authentication state rejected'') (ge_error err)
           | CategorySystem \<Rightarrow>
               if internal then caused (apperr_New CodeInternal 500 ''authentication failed'') (ge_error err)
               else caused (apperr_New CodeDependencyFailure 503 ''authentication unavailable'') (ge_error err)
           | CategoryOther n \<Rightarrow> caused (apperr_New CodeUnauthorized 401 invalidMessage) (ge_error err))
      | None \<Rightarrow>
          if ErrLoginRateLimited \<in> set (ge_is err)
          then caused (apperr_New CodeTooManyRequests 429 ''authentication temporarily limited'') (ge_error err)
          else caused (apperr_New CodeUnauthorized 401 invalidMessage) (ge_error err))"

definition badRequestErr :: "string \<Rightarrow> go_error" where
  "badRequestErr msg = apperr_New CodeBadRequest 400 msg"

definition totpAlreadyEnabledErr :: go_error where
  "totpAlreadyEnabledErr = apperr_New CodeConflict 409 ''totp is already enabled; disable it before enrolling again''"

definition is_any :: "goauth_error \<Rightarrow> sentinel list \<Rightarrow> bool" where
  "is_any err targets \<longleftrightarrow> list_ex (\<lambda>t. t \<in> set (ge_is err)) targets"

definition mapFlowError :: "goauth_error \<Rightarrow> go_error" where
  "mapFlowError err =
     (if is_any err [ErrPasswordPolicy] then caused (badRequestErr ''password does not meet the password policy'') (ge_error err)
      else if is_any err [ErrPasswordReuse] then caused (badRequestErr ''new password must differ from the current password'') (ge_error err)
      else if is_any err [ErrPasswordResetInvalid, ErrEmailVerificationInvalid]
      then caused (badRequestErr ''invalid or expired challenge'') (ge_error err)
      else if is_any err [ErrInvalidCredentials] then caused (badRequestErr ''current password is incorrect'') (ge_error err)
      else if is_any err [ErrTOTPInvalid, ErrBackupCodeInvalid, ErrMFALoginInvalid] then caused (badRequestErr ''invalid code'') (ge_error err)
      else if is_any err [ErrTOTPRequired, ErrMFALoginRequired] then caused (badRequestErr ''a second-factor code is required'') (ge_error err)
      else if is_any err [ErrTOTPAlreadyEnabled] then caused totpAlreadyEnabledErr (ge_error err)
      else if is_any err [ErrPasswordVerifyRateLimited]
      then caused (apperr_New CodeTooManyRequests 429 ''authentication temporarily limited'') (ge_error err)
      else if is_any err [ErrTOTPNotConfigured, ErrBackupCodesNotConfigured, ErrBackupCodeRegenerationRequiresTOTP]
      then caused (apperr_New CodeConflict 409 ''totp is not enabled for this account'') (ge_error err)
      else if is_any err [ErrPasswordResetDisabled, ErrEmailVerificationDisabled, ErrTOTPFeatureDisabled, ErrAccountCreationDisabled]
      then caused (apperr_New CodeNotFound 404 ''not found'') (ge_error err)
      else if is_any err [GoErrUserNotFound] then caused (apperr_New CodeUnauthorized 401 ''authentication required'') (ge_error err)
      else mapAuthEndpointError err ''request rejected'')"

section \<open>The engine and the accounts\<close>

text \<open>What goAuth reads of the context: the request's values and the address and agent added by \<open>requestContext\<close>.\<close>

record auth_ctx =
  ac_request :: request
  ac_ClientIP :: "string option"
  ac_UserAgent :: "string option"

record LoginResult =
  lr_AccessToken :: string
  lr_RefreshToken :: string
  lr_MFARequired :: bool
  lr_MFAType :: string
  lr_MFASession :: string
  lr_MFATypes :: "string list"

record SessionInfo =
  si_SessionID :: string
  si_CreatedAt :: int
  si_ExpiresAt :: int

record RegistrationChallenge =
  rc_CeremonyID :: string
  rc_OptionsJSON :: string

type_synonym ('e, 'a) engine_op = "auth_ctx \<Rightarrow> 'e \<Rightarrow> (goauth_error + 'a) \<times> 'e"

record 'e engine =
  en_LoginWithOptions :: "string \<Rightarrow> string \<Rightarrow> bool \<Rightarrow> ('e, LoginResult option) engine_op"
  en_ConfirmLoginMFAWithType :: "string \<Rightarrow> string \<Rightarrow> string \<Rightarrow> ('e, LoginResult option) engine_op"
  en_Refresh :: "string \<Rightarrow> ('e, string \<times> string) engine_op"
  en_LogoutByAccessToken :: "string \<Rightarrow> ('e, unit) engine_op"
  en_LogoutAll :: "string \<Rightarrow> ('e, unit) engine_op"
  en_ListActiveSessions :: "string \<Rightarrow> ('e, SessionInfo list) engine_op"
  en_VerifyPassword :: "string \<Rightarrow> string \<Rightarrow> ('e, unit) engine_op"
  en_ChangePassword :: "string \<Rightarrow> string \<Rightarrow> string \<Rightarrow> ('e, unit) engine_op"
  en_CreateAccount :: "string \<Rightarrow> string \<Rightarrow> bool \<Rightarrow> ('e, (string \<times> string) option) engine_op"
  en_RequestPasswordReset :: "string \<Rightarrow> ('e, string) engine_op"
  en_ConfirmPasswordReset :: "string \<Rightarrow> string \<Rightarrow> ('e, unit) engine_op"
  en_ConfirmPasswordResetWithMFA :: "string \<Rightarrow> string \<Rightarrow> string \<Rightarrow> string \<Rightarrow> ('e, unit) engine_op"
  en_RequestEmailVerification :: "string \<Rightarrow> ('e, string) engine_op"
  en_ConfirmEmailVerification :: "string \<Rightarrow> ('e, unit) engine_op"
  en_ConfirmEmailVerificationCode :: "string \<Rightarrow> string \<Rightarrow> ('e, unit) engine_op"
  en_GenerateTOTPSetup :: "string \<Rightarrow> ('e, string \<times> string) engine_op"
  en_ConfirmTOTPSetup :: "string \<Rightarrow> string \<Rightarrow> ('e, unit) engine_op"
  en_GenerateBackupCodes :: "string \<Rightarrow> ('e, string list) engine_op"
  en_VerifyTOTP :: "string \<Rightarrow> string \<Rightarrow> ('e, unit) engine_op"
  en_DisableTOTP :: "string \<Rightarrow> ('e, unit) engine_op"
  en_RegenerateBackupCodes :: "string \<Rightarrow> string \<Rightarrow> ('e, string list) engine_op"
  en_BeginWebAuthnRegistration :: "string \<Rightarrow> ('e, RegistrationChallenge) engine_op"
  en_FinishWebAuthnRegistration :: "string \<Rightarrow> string \<Rightarrow> string \<Rightarrow> ('e, WebAuthnCredential) engine_op"
  en_ListWebAuthnCredentials :: "string \<Rightarrow> ('e, WebAuthnCredential list) engine_op"
  en_RemoveWebAuthnCredential :: "string \<Rightarrow> string \<Rightarrow> ('e, unit) engine_op"

text \<open>The two methods of \<open>UserRepository\<close> that the module calls, what their errors are for code outside the store, and the account
  repository over them.\<close>

record 'e user_lookup =
  ul_GetByIdentifier :: "string \<Rightarrow> 'e \<Rightarrow> (auth_error + StoredUser) \<times> 'e"
  ul_GetByID :: "string \<Rightarrow> 'e \<Rightarrow> (auth_error + StoredUser) \<times> 'e"
  ul_error :: "auth_error \<Rightarrow> go_error"

record recipient =
  rc_Address :: string
  rc_PendingVerification :: bool

record 'e accountRepository =
  ar_FindRecipient :: "string \<Rightarrow> 'e \<Rightarrow> (go_error + recipient option) \<times> 'e"
  ar_TOTPEnabled :: "string \<Rightarrow> 'e \<Rightarrow> (go_error + bool) \<times> 'e"

definition FindRecipient :: "'e user_lookup \<Rightarrow> string \<Rightarrow> 'e \<Rightarrow> (go_error + recipient option) \<times> 'e" where
  "FindRecipient users identifier s =
     (case ul_GetByIdentifier users (NormalizeIdentifier identifier) s of
        (Inl e, s') \<Rightarrow> (if err_is e ErrAuthUserNotFound then Inr None else Inl (ul_error users e), s')
      | (Inr row, s') \<Rightarrow>
          (Inr (Some \<lparr>rc_Address = su_Email row, rc_PendingVerification = (su_Status row = ''pending_verification'')\<rparr>), s'))"

definition TOTPEnabled :: "'e user_lookup \<Rightarrow> string \<Rightarrow> 'e \<Rightarrow> (go_error + bool) \<times> 'e" where
  "TOTPEnabled users userID s =
     (case ul_GetByID users userID s of (Inl e, s') \<Rightarrow> (Inl (ul_error users e), s') | (Inr row, s') \<Rightarrow> (Inr (su_TOTPEnabled row), s'))"

definition newAccountRepository :: "'e user_lookup option \<Rightarrow> 'e accountRepository option" where
  "newAccountRepository users = map_option (\<lambda>u. \<lparr>ar_FindRecipient = FindRecipient u, ar_TOTPEnabled = TOTPEnabled u\<rparr>) users"

section \<open>The service\<close>

record features =
  ft_Registration :: bool
  ft_AutoLogin :: bool
  ft_PasswordReset :: bool
  ft_EmailVerification :: bool
  ft_TOTP :: bool

text \<open>\<open>sv_messenger\<close>: there is a dispatcher.\<close>

record 'e service =
  sv_engine :: "'e engine option"
  sv_accounts :: "'e accountRepository option"
  sv_messenger :: bool
  sv_features :: features

type_synonym ('e, 'a) service_op = "'e \<times> dispatcher \<Rightarrow> (go_error + 'a) \<times> 'e \<times> dispatcher"

definition newService :: "'e engine option \<Rightarrow> 'e accountRepository option \<Rightarrow> bool \<Rightarrow> features \<Rightarrow> 'e service" where
  "newService en accounts m f = \<lparr>sv_engine = en, sv_accounts = accounts, sv_messenger = m, sv_features = f\<rparr>"

definition engine_unavailable :: go_error where
  "engine_unavailable = apperr_New CodeDependencyFailure 503 ''auth engine unavailable''"

definition auth_unavailable :: go_error where
  "auth_unavailable = apperr_New CodeDependencyFailure 503 ''authentication unavailable''"

definition requireEngine :: "'e service \<Rightarrow> ('e engine \<Rightarrow> ('e, 'a) service_op) \<Rightarrow> ('e, 'a) service_op" where
  "requireEngine s k st = (case sv_engine s of None \<Rightarrow> (Inl engine_unavailable, st) | Some en \<Rightarrow> k en st)"

text \<open>A call of the engine whose error is mapped and returned, and the rest.\<close>

definition call :: "('e \<Rightarrow> (goauth_error + 'a) \<times> 'e) \<Rightarrow> (goauth_error \<Rightarrow> go_error) \<Rightarrow> ('a \<Rightarrow> ('e, 'b) service_op) \<Rightarrow> ('e, 'b) service_op" where
  "call f err k st = (case f (fst st) of (Inl e, s) \<Rightarrow> (Inl (err e), s, snd st) | (Inr x, s) \<Rightarrow> k x (s, snd st))"

definition ret :: "'a \<Rightarrow> ('e, 'a) service_op" where
  "ret x st = (Inr x, st)"

record loginOutcome =
  lo_AccessToken :: string
  lo_RefreshToken :: string
  lo_MFARequired :: bool
  lo_MFAType :: string
  lo_MFASession :: string
  lo_MFATypes :: "string list"

definition outcomeFrom :: "LoginResult option \<Rightarrow> loginOutcome" where
  "outcomeFrom result =
     (case result of
        None \<Rightarrow> \<lparr>lo_AccessToken = [], lo_RefreshToken = [], lo_MFARequired = False, lo_MFAType = [], lo_MFASession = [], lo_MFATypes = []\<rparr>
      | Some r \<Rightarrow> \<lparr>lo_AccessToken = lr_AccessToken r, lo_RefreshToken = lr_RefreshToken r, lo_MFARequired = lr_MFARequired r,
          lo_MFAType = lr_MFAType r, lo_MFASession = lr_MFASession r, lo_MFATypes = lr_MFATypes r\<rparr>)"

definition svc_login :: "'e service \<Rightarrow> auth_ctx \<Rightarrow> string \<Rightarrow> string \<Rightarrow> bool \<Rightarrow> ('e, loginOutcome) service_op" where
  "svc_login s c identifier password rememberMe =
     requireEngine s (\<lambda>en. call (en_LoginWithOptions en (NormalizeIdentifier identifier) password rememberMe c)
       (\<lambda>e. mapAuthEndpointError e ''invalid credentials'') (\<lambda>result. ret (outcomeFrom result)))"

definition svc_confirmMFA :: "'e service \<Rightarrow> auth_ctx \<Rightarrow> string \<Rightarrow> string \<Rightarrow> string \<Rightarrow> ('e, loginOutcome) service_op" where
  "svc_confirmMFA s c challengeID code mfaType =
     requireEngine s (\<lambda>en. call (en_ConfirmLoginMFAWithType en (trim_space challengeID) (trim_space code) (trim_space mfaType) c)
       (\<lambda>e. mapAuthEndpointError e ''invalid mfa challenge'') (\<lambda>result. ret (outcomeFrom result)))"

definition svc_refresh :: "'e service \<Rightarrow> auth_ctx \<Rightarrow> string \<Rightarrow> ('e, string \<times> string) service_op" where
  "svc_refresh s c refreshToken =
     requireEngine s (\<lambda>en. call (en_Refresh en (trim_space refreshToken) c) (\<lambda>e. mapAuthEndpointError e ''invalid refresh token'') ret)"

definition svc_logout :: "'e service \<Rightarrow> auth_ctx \<Rightarrow> string \<Rightarrow> ('e, unit) service_op" where
  "svc_logout s c accessToken =
     requireEngine s (\<lambda>en. call (en_LogoutByAccessToken en (trim_space accessToken) c) (\<lambda>e. mapAuthEndpointError e ''invalid access token'') ret)"

definition svc_logoutAll :: "'e service \<Rightarrow> auth_ctx \<Rightarrow> string \<Rightarrow> ('e, unit) service_op" where
  "svc_logoutAll s c userID = requireEngine s (\<lambda>en. call (en_LogoutAll en userID c) mapFlowError ret)"

definition svc_listSessions :: "'e service \<Rightarrow> auth_ctx \<Rightarrow> string \<Rightarrow> ('e, SessionInfo list) service_op" where
  "svc_listSessions s c userID = requireEngine s (\<lambda>en. call (en_ListActiveSessions en userID c) mapFlowError ret)"

definition svc_verifyPassword :: "'e service \<Rightarrow> auth_ctx \<Rightarrow> string \<Rightarrow> string \<Rightarrow> ('e, unit) service_op" where
  "svc_verifyPassword s c userID password =
     requireEngine s (\<lambda>en. call (en_VerifyPassword en userID password c) (\<lambda>e. mapAuthEndpointError e ''invalid credentials'') ret)"

definition svc_changePassword :: "'e service \<Rightarrow> auth_ctx \<Rightarrow> string \<Rightarrow> string \<Rightarrow> string \<Rightarrow> ('e, unit) service_op" where
  "svc_changePassword s c userID current new_password =
     requireEngine s (\<lambda>en. call (en_ChangePassword en userID current new_password c) mapFlowError ret)"

subsection \<open>Messages\<close>

definition svc_deliver :: "'e service \<Rightarrow> string \<Rightarrow> (recipient \<Rightarrow> bool) \<Rightarrow> (string \<Rightarrow> dispatcher \<Rightarrow> dispatcher) \<Rightarrow> ('e, unit) service_op" where
  "svc_deliver s identifier eligible send st =
     (case sv_accounts s of
        None \<Rightarrow> (Inr (), st)
      | Some accounts \<Rightarrow>
          if \<not> sv_messenger s then (Inr (), st)
          else (case ar_FindRecipient accounts identifier (fst st) of
              (Inl e, e1) \<Rightarrow> (Inl (caused auth_unavailable e), e1, snd st)
            | (Inr None, e1) \<Rightarrow> (Inr (), e1, snd st)
            | (Inr (Some r), e1) \<Rightarrow>
                (Inr (), e1, if eligible r \<and> rc_Address r \<noteq> [] then send (rc_Address r) (snd st) else snd st)))"

definition svc_sendEmailVerification :: "'e service \<Rightarrow> auth_ctx \<Rightarrow> string \<Rightarrow> 'e engine \<Rightarrow> ('e, unit) service_op" where
  "svc_sendEmailVerification s c identifier en =
     call (en_RequestEmailVerification en identifier c) mapFlowError
       (\<lambda>challenge. svc_deliver s identifier rc_PendingVerification (\<lambda>to. Dispatcher_EmailVerification to challenge))"

definition svc_requestEmailVerification :: "'e service \<Rightarrow> auth_ctx \<Rightarrow> string \<Rightarrow> ('e, unit) service_op" where
  "svc_requestEmailVerification s c identifier =
     requireEngine s (svc_sendEmailVerification s c (NormalizeIdentifier identifier))"

definition svc_requestPasswordReset :: "'e service \<Rightarrow> auth_ctx \<Rightarrow> string \<Rightarrow> ('e, unit) service_op" where
  "svc_requestPasswordReset s c identifier0 =
     requireEngine s (\<lambda>en. let identifier = NormalizeIdentifier identifier0 in
       call (en_RequestPasswordReset en identifier c) mapFlowError
         (\<lambda>challenge. svc_deliver s identifier (\<lambda>r. True) (\<lambda>to. Dispatcher_PasswordReset to challenge)))"

definition svc_confirmPasswordReset :: "'e service \<Rightarrow> auth_ctx \<Rightarrow> string \<Rightarrow> string \<Rightarrow> string \<Rightarrow> string \<Rightarrow> ('e, unit) service_op" where
  "svc_confirmPasswordReset s c challenge newPassword mfaType0 mfaCode =
     requireEngine s (\<lambda>en. let code = trim_space mfaCode; mfaType1 = trim_space mfaType0; mfaType = (if mfaType1 = [] then ''totp'' else mfaType1) in
       call (if code \<noteq> [] then en_ConfirmPasswordResetWithMFA en (trim_space challenge) newPassword mfaType code c
             else en_ConfirmPasswordReset en (trim_space challenge) newPassword c) mapFlowError ret)"

definition svc_confirmEmailVerification :: "'e service \<Rightarrow> auth_ctx \<Rightarrow> string \<Rightarrow> string \<Rightarrow> string \<Rightarrow> ('e, unit) service_op" where
  "svc_confirmEmailVerification s c challenge0 verificationID code =
     requireEngine s (\<lambda>en. let challenge = trim_space challenge0 in
       call (if challenge \<noteq> [] then en_ConfirmEmailVerification en challenge c
             else en_ConfirmEmailVerificationCode en (trim_space verificationID) (trim_space code) c) mapFlowError ret)"

subsection \<open>Registration\<close>

text \<open>The outcome: the tokens, empty unless auto-login issued them. \<open>after_account\<close> is the rest of \<open>register\<close> once the account exists;
  \<open>created\<close> is the result for a new one.\<close>

definition after_account :: "'e service \<Rightarrow> auth_ctx \<Rightarrow> string \<Rightarrow> 'e engine \<Rightarrow> (string \<times> string) option \<Rightarrow> ('e, string \<times> string) service_op" where
  "after_account s c identifier en created st =
     (case (if ft_EmailVerification (sv_features s) then svc_sendEmailVerification s c identifier en st else (Inr (), st)) of
        (Inl err, st') \<Rightarrow> (Inl err, st')
      | (Inr _, st') \<Rightarrow>
          (Inr (case created of None \<Rightarrow> ([], []) | Some issued \<Rightarrow> if ft_AutoLogin (sv_features s) then issued else ([], [])), st'))"

definition svc_register :: "'e service \<Rightarrow> auth_ctx \<Rightarrow> string \<Rightarrow> string \<Rightarrow> bool \<Rightarrow> ('e, string \<times> string) service_op" where
  "svc_register s c identifier0 password rememberMe =
     requireEngine s (\<lambda>en st.
       let identifier = NormalizeIdentifier identifier0; (res, e1) = en_CreateAccount en identifier password rememberMe c (fst st) in
       case res of
         Inl e \<Rightarrow> if ErrAccountExists \<notin> set (ge_is e) then (Inl (mapFlowError e), e1, snd st) else after_account s c identifier en None (e1, snd st)
       | Inr result \<Rightarrow> after_account s c identifier en result (e1, snd st))"

subsection \<open>Second factors\<close>

definition svc_setupTOTP :: "'e service \<Rightarrow> auth_ctx \<Rightarrow> string \<Rightarrow> ('e, string \<times> string) service_op" where
  "svc_setupTOTP s c userID =
     requireEngine s (\<lambda>en st.
       case sv_accounts s of
         None \<Rightarrow> (Inl auth_unavailable, st)
       | Some accounts \<Rightarrow>
           (case ar_TOTPEnabled accounts userID (fst st) of
              (Inl e, e1) \<Rightarrow> (Inl (mapFlowError \<lparr>ge_is = [GoErrUserNotFound], ge_auth = None, ge_error = go_error.Plain ''user not found''\<rparr>), e1, snd st)
            | (Inr True, e1) \<Rightarrow> (Inl totpAlreadyEnabledErr, e1, snd st)
            | (Inr False, e1) \<Rightarrow> call (en_GenerateTOTPSetup en userID c) mapFlowError ret (e1, snd st)))"

definition svc_confirmTOTP :: "'e service \<Rightarrow> auth_ctx \<Rightarrow> string \<Rightarrow> string \<Rightarrow> ('e, string list) service_op" where
  "svc_confirmTOTP s c userID code =
     requireEngine s (\<lambda>en. call (en_ConfirmTOTPSetup en userID (trim_space code) c) mapFlowError
       (\<lambda>_. call (en_GenerateBackupCodes en userID c) mapFlowError ret))"

definition svc_disableTOTP :: "'e service \<Rightarrow> auth_ctx \<Rightarrow> string \<Rightarrow> string \<Rightarrow> ('e, unit) service_op" where
  "svc_disableTOTP s c userID code =
     requireEngine s (\<lambda>en. call (en_VerifyTOTP en userID (trim_space code) c) mapFlowError
       (\<lambda>_. call (en_DisableTOTP en userID c) mapFlowError ret))"

definition svc_regenerateBackupCodes :: "'e service \<Rightarrow> auth_ctx \<Rightarrow> string \<Rightarrow> string \<Rightarrow> ('e, string list) service_op" where
  "svc_regenerateBackupCodes s c userID code =
     requireEngine s (\<lambda>en. call (en_RegenerateBackupCodes en userID (trim_space code) c) mapFlowError ret)"

definition svc_beginWebAuthnRegistration :: "'e service \<Rightarrow> auth_ctx \<Rightarrow> string \<Rightarrow> ('e, RegistrationChallenge) service_op" where
  "svc_beginWebAuthnRegistration s c userID =
     requireEngine s (\<lambda>en. call (en_BeginWebAuthnRegistration en userID c) (\<lambda>e. mapAuthEndpointError e ''webauthn registration unavailable'') ret)"

definition svc_finishWebAuthnRegistration :: "'e service \<Rightarrow> auth_ctx \<Rightarrow> string \<Rightarrow> string \<Rightarrow> string \<Rightarrow> ('e, WebAuthnCredential) service_op" where
  "svc_finishWebAuthnRegistration s c userID ceremonyID responseJSON =
     requireEngine s (\<lambda>en. call (en_FinishWebAuthnRegistration en userID ceremonyID responseJSON c)
       (\<lambda>e. mapAuthEndpointError e ''webauthn registration failed'') ret)"

definition svc_listWebAuthnCredentials :: "'e service \<Rightarrow> auth_ctx \<Rightarrow> string \<Rightarrow> ('e, WebAuthnCredential list) service_op" where
  "svc_listWebAuthnCredentials s c userID =
     requireEngine s (\<lambda>en. call (en_ListWebAuthnCredentials en userID c) (\<lambda>e. mapAuthEndpointError e ''webauthn unavailable'') ret)"

definition svc_removeWebAuthnCredential :: "'e service \<Rightarrow> auth_ctx \<Rightarrow> string \<Rightarrow> string \<Rightarrow> ('e, unit) service_op" where
  "svc_removeWebAuthnCredential s c userID credentialID =
     requireEngine s (\<lambda>en. call (en_RemoveWebAuthnCredential en userID credentialID c)
       (\<lambda>e. mapAuthEndpointError e ''webauthn credential removal failed'') ret)"

end
