(* ===== verification/Typed_JSON.thy ===== *)
theory Typed_JSON
  imports Httpx
begin

text \<open>
  Typed handlers: \<open>internal/core/httpx/typedjson.go\<close> (decoding and validating JSON bodies, locating unknown fields) and
  \<open>adapter.go\<close>.

  \<open>encoding/json\<close> is an argument: its strict decoder, the second decode that looks for trailing data and
  its parser into a document tree. Go types are a small datatype over a table of struct types, so that types may be recursive.
\<close>

section \<open>Reading a body\<close>

text \<open>The bytes a reader delivers and the error it ends with (\<open>None\<close>: end of file). \<open>http.MaxBytesReader\<close> treats a negative limit as 0.\<close>

fun read_stream :: "body \<Rightarrow> string \<times> go_error option" where
  "read_stream NilBody = ([], None)"
| "read_stream NoBody = ([], None)"
| "read_stream (Stream s e) = (s, e)"
| "read_stream (MaxBytesReader n b) =
     (let (s, e) = read_stream b in
      if int (length s) > max n 0 then (take (nat n) s, Some (LibError MaxBytesKind ''http: request body too large'')) else (s, e))"

definition ReadAll :: "body \<Rightarrow> go_error + string" where
  "ReadAll b = (let (s, e) = read_stream b in case e of None \<Rightarrow> Inr s | Some err \<Rightarrow> Inl err)"

section \<open>Error mapping\<close>

abbreviation msgBodyRequired :: string where "msgBodyRequired \<equiv> ''request body is required''"
abbreviation msgBodyTooLarge :: string where "msgBodyTooLarge \<equiv> ''request body too large''"
abbreviation msgBodyMalformed :: string where "msgBodyMalformed \<equiv> ''malformed JSON body''"
abbreviation msgFieldType :: string where "msgFieldType \<equiv> ''invalid JSON field type''"
abbreviation msgUnknownField :: string where "msgUnknownField \<equiv> ''unknown field in request body''"
abbreviation msgSingleObject :: string where "msgSingleObject \<equiv> ''request body must contain a single JSON object''"
abbreviation msgInvalidBody :: string where "msgInvalidBody \<equiv> ''invalid JSON body''"
abbreviation msgInvalidInput :: string where "msgInvalidInput \<equiv> ''request validation failed''"
abbreviation maxReportedFieldPath :: nat where "maxReportedFieldPath \<equiv> 128"

text \<open>\<open>errors.As\<close> and \<open>errors.Is\<close> for the errors of \<open>io\<close>, \<open>net/http\<close> and \<open>encoding/json\<close>.\<close>

fun has_kind :: "lib_kind \<Rightarrow> go_error \<Rightarrow> bool" where
  "has_kind k (LibError l m) = (l = k)"
| "has_kind k (Wrapped m e) = has_kind k e"
| "has_kind k (AppError c s m d (Some e)) = has_kind k e"
| "has_kind k (AppError c s m d None) = False"
| "has_kind k DeadlineExceeded = False"
| "has_kind k (Plain m) = False"

definition appBadRequest :: "string \<Rightarrow> go_error \<Rightarrow> go_error" where
  "appBadRequest msg cause = AppError CodeBadRequest 400 msg None (Some cause)"

definition truncate_path :: "string \<Rightarrow> nat \<Rightarrow> string" where
  "truncate_path s n = (if length s \<le> n then s else take n s)"

text \<open>The details of an unknown field are a map with one entry, whose value is the text here.\<close>

definition mapDecodeError :: "(string \<Rightarrow> string option) \<Rightarrow> go_error \<Rightarrow> string option \<Rightarrow> go_error" where
  "mapDecodeError find_unknown err body =
     (if AsAppError err \<noteq> None then err
      else if has_kind MaxBytesKind err then appBadRequest msgBodyTooLarge err
      else if has_kind EOFKind err then appBadRequest msgBodyRequired err
      else if has_kind UnexpectedEOFKind err then appBadRequest msgBodyMalformed err
      else if has_kind SyntaxKind err then appBadRequest msgBodyMalformed err
      else if has_kind UnmarshalTypeKind err then appBadRequest msgFieldType err
      else (case body of
          None \<Rightarrow> appBadRequest msgInvalidBody err
        | Some raw \<Rightarrow> (case find_unknown raw of
            Some path \<Rightarrow> AppError CodeBadRequest 400 msgUnknownField (Some (truncate_path path maxReportedFieldPath)) (Some err)
          | None \<Rightarrow> appBadRequest msgInvalidBody err)))"

definition normalizeValidationError :: "go_error option \<Rightarrow> go_error option" where
  "normalizeValidationError err =
     (case err of None \<Rightarrow> None | Some e \<Rightarrow> Some (if AsAppError e \<noteq> None then e else appBadRequest msgInvalidInput e))"

section \<open>Go types and unknown fields\<close>

datatype gotype = TStruct nat | TMap gotype | TSeq gotype | TPtr gotype | TOther nat

record field =
  fd_Name :: string
  fd_Tag :: "string option"   \<comment> \<open>the json tag\<close>
  fd_Anonymous :: bool
  fd_Exported :: bool
  fd_Type :: gotype

type_synonym structs = "field list list"

datatype json = JObject "(string \<times> json) list" | JArray "json list" | JNull | JScalar

fun strip_ptr :: "gotype \<Rightarrow> gotype" where
  "strip_ptr (TPtr t) = strip_ptr t"
| "strip_ptr t = t"

definition tag_name :: "field \<Rightarrow> string" where
  "tag_name f = (case fd_Tag f of None \<Rightarrow> [] | Some tag \<Rightarrow> takeWhile (\<lambda>c. c \<noteq> CHR '','') tag)"

text \<open>The struct type that an embedded field without a name of its own promotes: one pointer is followed.\<close>

definition embedded_struct :: "field \<Rightarrow> nat option" where
  "embedded_struct f =
     (if fd_Anonymous f \<and> tag_name f = [] then
        (case (case fd_Type f of TPtr t \<Rightarrow> t | t \<Rightarrow> t) of TStruct i \<Rightarrow> Some i | _ \<Rightarrow> None)
      else None)"

definition field_name :: "field \<Rightarrow> string" where
  "field_name f = to_lower (if fd_Tag f = None \<or> tag_name f = [] then fd_Name f else tag_name f)"

lemma unseen_decreases:
  assumes "i \<notin> set seen \<and> \<not> (n :: nat) \<le> i"
  shows "card ({..<n} - set seen) - Suc 0 < card ({..<n} - set seen)"
proof -
  have "i \<in> {..<n} - set seen" using assms by simp
  then have "0 < card ({..<n} - set seen)" by (metis card_gt_0_iff empty_iff finite_Diff finite_lessThan)
  then show ?thesis by simp
qed

text \<open>\<open>collectFields\<close>: the maps \<open>out\<close> and \<open>seen\<close> are shared by the recursive calls, so the recursion into an embedded
  struct is the struct's fields put in front of those that remain. A struct index outside the table has no fields.\<close>

function collectFields :: "structs \<Rightarrow> field list \<Rightarrow> nat list \<Rightarrow> (string \<times> gotype) list \<Rightarrow> (string \<times> gotype) list" where
  "collectFields S [] seen out = out"
| "collectFields S (f # fs) seen out =
     (if fd_Tag f = Some ''-'' then collectFields S fs seen out
      else (case embedded_struct f of
          Some i \<Rightarrow> if i \<in> set seen \<or> length S \<le> i then collectFields S fs seen out
                    else collectFields S (S ! i @ fs) (i # seen) out
        | None \<Rightarrow>
            if \<not> fd_Exported f \<or> map_of out (field_name f) \<noteq> None then collectFields S fs seen out
            else collectFields S fs seen (out @ [(field_name f, fd_Type f)])))"
  by pat_completeness auto
termination
  by (relation "measures [\<lambda>(S, fs, seen, out). card ({..<length S} - set seen), \<lambda>(S, fs, seen, out). length fs]")
    (simp_all add: unseen_decreases)

definition jsonFieldTypes :: "structs \<Rightarrow> nat \<Rightarrow> (string \<times> gotype) list" where
  "jsonFieldTypes S i = (if i < length S then collectFields S (S ! i) [i] [] else [])"

definition joinPath :: "string \<Rightarrow> string \<Rightarrow> string" where
  "joinPath path key = (if path = [] then key else path @ ''.'' @ key)"

fun first_path :: "'a option list \<Rightarrow> 'a option" where
  "first_path [] = None"
| "first_path (Some x # xs) = Some x"
| "first_path (None # xs) = first_path xs"

text \<open>The keys in document order, each with the value that the Go map holds for it: its last one.\<close>

definition entries :: "(string \<times> json) list \<Rightarrow> (string \<times> json) list" where
  "entries kvs = map (\<lambda>(k, v). (k, case map_of (rev kvs) k of Some v' \<Rightarrow> v' | None \<Rightarrow> v)) kvs"

lemma set_entries: "(k, v) \<in> set (entries kvs) \<Longrightarrow> (k, v) \<in> set kvs"
  using map_of_SomeD [of "rev kvs"] by (fastforce simp: entries_def split: option.splits)

lemma entries_size: "(k, v) \<in> set (entries kvs) \<Longrightarrow> size v < size (JObject kvs)"
proof -
  assume "(k, v) \<in> set (entries kvs)"
  then have "(k, v) \<in> set kvs" by (rule set_entries)
  then have "size_prod (\<lambda>_. 0) size (k, v) \<le> size_list (size_prod (\<lambda>_. 0) size) kvs" by (rule size_list_estimation') simp
  then show ?thesis by simp
qed

lemma array_size: "j \<in> set js \<Longrightarrow> size j < size (JArray js)"
  using size_list_estimation' [of j js "size j" size] by simp

text \<open>\<open>custom\<close> tells which types have their own \<open>UnmarshalJSON\<close>.\<close>

function scanUnknown :: "structs \<Rightarrow> (gotype \<Rightarrow> bool) \<Rightarrow> json \<Rightarrow> gotype \<Rightarrow> string \<Rightarrow> string option" where
  "scanUnknown S custom (JObject kvs) t0 path =
     (let t = strip_ptr t0 in
      if custom t then None
      else (case t of
          TStruct i \<Rightarrow>
            first_path (map (\<lambda>(key, v). case map_of (jsonFieldTypes S i) (to_lower key) of
                None \<Rightarrow> Some (joinPath path key)
              | Some ft \<Rightarrow> scanUnknown S custom v ft (joinPath path key)) (entries kvs))
        | TMap et \<Rightarrow> first_path (map (\<lambda>(key, v). scanUnknown S custom v et (joinPath path key)) (entries kvs))
        | _ \<Rightarrow> None))"
| "scanUnknown S custom (JArray js) t0 path =
     (let t = strip_ptr t0 in
      if custom t then None
      else (case t of TSeq et \<Rightarrow> first_path (map (\<lambda>j. scanUnknown S custom j et path) js) | _ \<Rightarrow> None))"
| "scanUnknown S custom JNull t0 path = None"
| "scanUnknown S custom JScalar t0 path = None"
  by pat_completeness auto
termination
  by (relation "measure (\<lambda>(S, custom, j, t, path). size j)")
    (auto intro: entries_size array_size simp del: json.size)

definition findUnknownField :: "structs \<Rightarrow> (gotype \<Rightarrow> bool) \<Rightarrow> (string \<Rightarrow> json option) \<Rightarrow> gotype \<Rightarrow> string \<Rightarrow> string option" where
  "findUnknownField S custom parse t raw = (case parse raw of None \<Rightarrow> None | Some j \<Rightarrow> scanUnknown S custom j t [])"

section \<open>Decoding\<close>

text \<open>The decoder for one request type: the first value and the text after it; the error of decoding once more (\<open>None\<close>: there is
  another value); the type's \<open>Validate\<close>, which says nothing for a type without one; and the lookup of unknown fields.\<close>

record 'req json_lib =
  jl_decode :: "string \<Rightarrow> go_error + 'req \<times> string"
  jl_again :: "string \<Rightarrow> go_error option"
  jl_validate :: "'req \<Rightarrow> go_error option"
  jl_unknown :: "string \<Rightarrow> string option"

text \<open>After the first value: trailing data, then \<open>validateDecoded\<close>.\<close>

definition finish_decode :: "'req json_lib \<Rightarrow> 'req \<Rightarrow> string \<Rightarrow> go_error + 'req" where
  "finish_decode L req rest =
     (let trailing = jl_again L rest in
      if trailing \<noteq> None \<and> has_kind EOFKind (the trailing) then
        (case normalizeValidationError (jl_validate L req) of Some e \<Rightarrow> Inl e | None \<Rightarrow> Inr req)
      else Inl (case trailing of
          Some err \<Rightarrow> appBadRequest msgSingleObject err
        | None \<Rightarrow> AppError CodeBadRequest 400 msgSingleObject None None))"

definition DecodeAndValidateJSON :: "'req json_lib \<Rightarrow> request \<Rightarrow> go_error + 'req" where
  "DecodeAndValidateJSON L r =
     (if req_body r = NilBody then Inl (appBadRequest msgBodyRequired (LibError EOFKind ''EOF''))
      else (let (limit, capped) = jsonBodyLimit r;
                src = (if capped then req_body r else MaxBytesReader limit (req_body r))
            in case ReadAll src of
                 Inl err \<Rightarrow> Inl (mapDecodeError (jl_unknown L) err None)
               | Inr body \<Rightarrow>
                   (case jl_decode L body of
                      Inl err \<Rightarrow> Inl (mapDecodeError (jl_unknown L) err (Some body))
                    | Inr (req, rest) \<Rightarrow> finish_decode L req rest)))"

section \<open>The adapter\<close>

text \<open>A handler's value: a plain payload, or a \<open>Result\<close> with its status, explicit flag and payload. Payloads are encoded data.\<close>

datatype response = Payload string | Result int "bool option" string

fun HTTPStatus :: "response \<Rightarrow> int" where
  "HTTPStatus (Result status ok data) = (if status = 0 then 200 else status)"
| "HTTPStatus (Payload data) = 200"

fun HTTPOK :: "response \<Rightarrow> bool" where
  "HTTPOK (Result status ok data) = (case ok of Some b \<Rightarrow> b | None \<Rightarrow> HTTPStatus (Result status ok data) < 400)"
| "HTTPOK (Payload data) = True"

fun HTTPData :: "response \<Rightarrow> string" where
  "HTTPData (Result status ok data) = data"
| "HTTPData (Payload data) = data"

definition isNoBodyRequest :: "structs \<Rightarrow> gotype \<Rightarrow> bool" where
  "isNoBodyRequest S t \<longleftrightarrow> (case t of TStruct i \<Rightarrow> i < length S \<and> S ! i = [] | _ \<Rightarrow> False)"

type_synonym ('s, 'req) handler_func = "request \<Rightarrow> 'req \<Rightarrow> 's world \<Rightarrow> ((go_error + response) \<times> 's world) outcome"

text \<open>\<open>zero\<close> is the zero value of the request type.\<close>

definition Adapter :: "(Envelope \<Rightarrow> string) \<Rightarrow> 'req json_lib \<Rightarrow> bool \<Rightarrow> 'req \<Rightarrow> ('s, 'req) handler_func \<Rightarrow> 's handler" where
  "Adapter enc L noBody zero fn r w =
     (let reqID = ctx_request_id r in
      case (if noBody then Inr zero else DecodeAndValidateJSON L r) of
        Inl err \<Rightarrow> Ret (response_Error enc err reqID w)
      | Inr req \<Rightarrow>
          (case fn r req w of
             Panic msg (v, w') \<Rightarrow> Panic msg w'
           | Ret (Inl err, w') \<Rightarrow> Ret (response_Error enc err reqID w')
           | Ret (Inr (Result status ok data), w') \<Rightarrow>
               Ret (response_JSON enc (HTTPStatus (Result status ok data))
                 \<lparr>env_OK = HTTPOK (Result status ok data), env_Data = Some data, env_Error = None, env_RequestID = reqID, env_Meta = None\<rparr> w')
           | Ret (Inr (Payload data), w') \<Rightarrow> Ret (response_OK enc data reqID w')))"

section \<open>Body errors are safe to show\<close>

definition body_messages :: "string list" where
  "body_messages = [msgBodyRequired, msgBodyTooLarge, msgBodyMalformed, msgFieldType, msgUnknownField, msgSingleObject, msgInvalidBody, msgInvalidInput]"

text \<open>An error whose text is the program's own: a 400 with one of the fixed messages and at most a bounded field path.\<close>

definition owned_error :: "go_error \<Rightarrow> bool" where
  "owned_error e \<longleftrightarrow> (\<exists>msg d k. e = AppError CodeBadRequest 400 msg d k \<and> msg \<in> set body_messages \<and>
     (\<forall>path. d = Some path \<longrightarrow> length path \<le> maxReportedFieldPath))"

lemma owned_bad_request: "msg \<in> set body_messages \<Longrightarrow> owned_error (appBadRequest msg err)"
  by (simp add: owned_error_def appBadRequest_def)

lemma mapDecodeError_owned: "mapDecodeError unk err body = err \<and> AsAppError err \<noteq> None \<or> owned_error (mapDecodeError unk err body)"
proof (cases "AsAppError err = None")
  case True
  have path: "owned_error (AppError CodeBadRequest 400 msgUnknownField (Some (truncate_path p maxReportedFieldPath)) (Some err))" for p
    by (simp add: owned_error_def body_messages_def truncate_path_def)
  show ?thesis using True path
    by (auto simp: mapDecodeError_def body_messages_def intro!: owned_bad_request split: option.splits)
qed (simp add: mapDecodeError_def)

lemma finish_decode_owned:
  assumes "finish_decode L req rest = Inl e"
  shows "owned_error e \<or> AsAppError e \<noteq> None \<and> jl_validate L req = Some e"
proof (cases "jl_again L rest \<noteq> None \<and> has_kind EOFKind (the (jl_again L rest))")
  case True
  with assms show ?thesis
    by (auto simp: finish_decode_def Let_def normalizeValidationError_def body_messages_def intro!: owned_bad_request split: option.splits if_splits)
next
  case False
  have "owned_error (AppError CodeBadRequest 400 msgSingleObject None k)" for k by (simp add: owned_error_def body_messages_def)
  with assms False show ?thesis by (auto simp: finish_decode_def Let_def appBadRequest_def split: option.splits)
qed

text \<open>
  Errors about a request body never leak a library's text. Every error of decoding is an application error: a 400 with one of
  eight fixed messages and at most 128 bytes of field path, unless the reader, the decoder or the type's own
  validation itself returned an application error, which is passed on.
\<close>

theorem decode_errors_owned:
  assumes "DecodeAndValidateJSON L r = Inl e"
  shows "owned_error e \<or> (AsAppError e \<noteq> None \<and>
    (snd (read_stream (req_body r)) = Some e \<or> (\<exists>body. jl_decode L body = Inl e) \<or> (\<exists>req. jl_validate L req = Some e)))"
proof (cases "req_body r = NilBody")
  case True
  with assms show ?thesis by (auto simp: DecodeAndValidateJSON_def body_messages_def intro!: owned_bad_request)
next
  case False
  define src where "src = (if snd (jsonBodyLimit r) then req_body r else MaxBytesReader (fst (jsonBodyLimit r)) (req_body r))"
  show ?thesis
  proof (cases "ReadAll src")
    case (Inl err)
    have "snd (read_stream (req_body r)) = Some err \<or> err = LibError MaxBytesKind ''http: request body too large''"
      using Inl by (auto simp: ReadAll_def src_def split: if_splits option.splits prod.splits)
    moreover have "e = mapDecodeError (jl_unknown L) err None"
      using assms False Inl by (simp add: DecodeAndValidateJSON_def src_def case_prod_unfold Let_def split: if_splits)
    ultimately show ?thesis using mapDecodeError_owned [of "jl_unknown L" err None] by auto
  next
    case (Inr body)
    show ?thesis
    proof (cases "jl_decode L body")
      case (Inl err)
      then have "e = mapDecodeError (jl_unknown L) err (Some body)"
        using assms False Inr by (simp add: DecodeAndValidateJSON_def src_def case_prod_unfold Let_def split: if_splits)
      with Inl show ?thesis using mapDecodeError_owned [of "jl_unknown L" err "Some body"] by auto
    next
      case (Inr p)
      then have "finish_decode L (fst p) (snd p) = Inl e"
        using assms False \<open>ReadAll src = Inr body\<close>
        by (simp add: DecodeAndValidateJSON_def src_def case_prod_unfold Let_def split: if_splits)
      from finish_decode_owned [OF this] show ?thesis by blast
    qed
  qed
qed

text \<open>A library over one request type, for evaluation: every text decodes to itself, nothing trails, all is valid.\<close>

definition sample_lib :: "string json_lib" where
  "sample_lib = \<lparr>jl_decode = \<lambda>s. if s = [] then Inl (LibError EOFKind ''EOF'') else Inr (s, []),
     jl_again = \<lambda>s. Some (LibError EOFKind ''EOF''), jl_validate = \<lambda>s. None, jl_unknown = \<lambda>s. None\<rparr>"

theorem decode_errors_owned_witness:
  "owned_error (appBadRequest msgBodyRequired (LibError EOFKind ''EOF''))"
proof -
  have "DecodeAndValidateJSON sample_lib blank_request = Inl (appBadRequest msgBodyRequired (LibError EOFKind ''EOF''))"
    by (simp add: DecodeAndValidateJSON_def sample_lib_def blank_request_def jsonBodyLimit_def ReadAll_def mapDecodeError_def Let_def)
  from decode_errors_owned [OF this] show ?thesis by (auto simp: blank_request_def sample_lib_def appBadRequest_def split: if_splits)
qed

section \<open>Bodies are bounded\<close>

lemma read_capped:
  "0 \<le> n \<Longrightarrow> read_stream (MaxBytesReader n b) =
     (if int (length (fst (read_stream b))) > n
      then (take (nat n) (fst (read_stream b)), Some (LibError MaxBytesKind ''http: request body too large'')) else read_stream b)"
  by (simp add: case_prod_unfold Let_def)

lemma ReadAll_capped:
  assumes "0 \<le> n" and "ReadAll (MaxBytesReader n b) = Inr body"
  shows "read_stream b = (body, None)" and "int (length body) \<le> n"
  using assms by (auto simp: ReadAll_def read_capped prod_eq_iff case_prod_unfold Let_def simp del: read_stream.simps
      split: if_splits option.splits)

text \<open>The request that the body limit hands on.\<close>

definition limited :: "int \<Rightarrow> request \<Rightarrow> request" where
  "limited limit r =
     (if 0 < limit \<and> shouldLimitBody r then r\<lparr>req_body := MaxBytesReader limit (req_body r), ctx_body_limit := Some limit\<rparr> else r)"

lemma limited_source:
  assumes "ctx_body_limit r = None" and "req_body (limited limit r) \<noteq> NilBody"
  shows "\<exists>n. (n = limit \<and> 0 < limit \<or> n = DefaultJSONBodyLimit \<and> (limit \<le> 0 \<or> req_body r = NoBody)) \<and>
    DecodeAndValidateJSON L (limited limit r) =
      (case ReadAll (MaxBytesReader n (req_body r)) of
         Inl err \<Rightarrow> Inl (mapDecodeError (jl_unknown L) err None)
       | Inr body \<Rightarrow> (case jl_decode L body of
           Inl err \<Rightarrow> Inl (mapDecodeError (jl_unknown L) err (Some body))
         | Inr (req, rest) \<Rightarrow> finish_decode L req rest))"
proof (cases "0 < limit \<and> shouldLimitBody r")
  case True
  then show ?thesis by (intro exI [of _ limit]) (simp add: limited_def DecodeAndValidateJSON_def jsonBodyLimit_def)
next
  case False
  then have r: "limited limit r = r" by (simp only: limited_def if_False)
  have "limit \<le> 0 \<or> req_body r = NoBody" using False assms(2) unfolding r by (auto simp: shouldLimitBody_def split: if_splits)
  then show ?thesis using assms
    by (intro exI [of _ DefaultJSONBodyLimit]) (simp add: r DecodeAndValidateJSON_def jsonBodyLimit_def)
qed

lemma finish_decode_value: "finish_decode L req rest = Inr req' \<Longrightarrow> req' = req"
  by (auto simp: finish_decode_def Let_def split: if_splits option.splits)

text \<open>
  C12: No typed handler decodes more than the limit. Whatever the limit middleware is configured to, off included, a value that is decoded comes
  from the whole body and the body is at most the configured limit, or one mebibyte when the limit is off; a
  longer body is answered as too large and never parsed.
\<close>

theorem json_body_bounded:
  assumes "ctx_body_limit r = None" and "bound = (if 0 < limit then limit else DefaultJSONBodyLimit)"
  shows "enabled (0 < limit) (MaxBodyBytes limit) next r w = next (limited limit r) w \<and>
    (\<forall>req. DecodeAndValidateJSON L (limited limit r) = Inr req \<longrightarrow>
      (\<exists>body rest. read_stream (req_body r) = (body, None) \<and> int (length body) \<le> bound \<and> jl_decode L body = Inr (req, rest))) \<and>
    (req_body r \<noteq> NilBody \<and> bound < int (length (fst (read_stream (req_body r)))) \<longrightarrow>
      DecodeAndValidateJSON L (limited limit r) =
        Inl (appBadRequest msgBodyTooLarge (LibError MaxBytesKind ''http: request body too large'')))"
proof (cases "req_body (limited limit r) = NilBody")
  case True
  then have "req_body r = NilBody" by (simp add: limited_def split: if_splits)
  with True show ?thesis by (auto simp: DecodeAndValidateJSON_def enabled_def MaxBodyBytes_def limited_def)
next
  case False
  from limited_source [OF assms(1) False, of L] obtain n
    where n: "n = limit \<and> 0 < limit \<or> n = DefaultJSONBodyLimit \<and> (limit \<le> 0 \<or> req_body r = NoBody)"
    and dec: "DecodeAndValidateJSON L (limited limit r) =
      (case ReadAll (MaxBytesReader n (req_body r)) of
         Inl err \<Rightarrow> Inl (mapDecodeError (jl_unknown L) err None)
       | Inr body \<Rightarrow> (case jl_decode L body of
           Inl err \<Rightarrow> Inl (mapDecodeError (jl_unknown L) err (Some body))
         | Inr (req, rest) \<Rightarrow> finish_decode L req rest))" by blast
  have n0: "0 \<le> n" and le: "int (length (fst (read_stream (req_body r)))) \<le> n \<longleftrightarrow> int (length (fst (read_stream (req_body r)))) \<le> bound"
    using n assms(2) by auto
  have ok: "\<exists>body rest. read_stream (req_body r) = (body, None) \<and> int (length body) \<le> bound \<and> jl_decode L body = Inr (req, rest)"
    if req: "DecodeAndValidateJSON L (limited limit r) = Inr req" for req
  proof -
    from req obtain body where body: "ReadAll (MaxBytesReader n (req_body r)) = Inr body" unfolding dec by (auto split: sum.splits)
    with req obtain req' rest where "jl_decode L body = Inr (req', rest)" "finish_decode L req' rest = Inr req"
      unfolding dec by (auto split: sum.splits)
    with ReadAll_capped [OF n0 body] le finish_decode_value show ?thesis by fastforce
  qed
  have "ReadAll (MaxBytesReader n (req_body r)) = Inl (LibError MaxBytesKind ''http: request body too large'')"
    if "bound < int (length (fst (read_stream (req_body r))))"
    using that le n0 by (simp add: ReadAll_def read_capped del: read_stream.simps)
  then have "DecodeAndValidateJSON L (limited limit r) = Inl (appBadRequest msgBodyTooLarge (LibError MaxBytesKind ''http: request body too large''))"
    if "bound < int (length (fst (read_stream (req_body r))))" using that unfolding dec by (simp add: mapDecodeError_def)
  then show ?thesis using ok by (auto simp: enabled_def MaxBodyBytes_def limited_def)
qed

theorem json_body_bounded_witness:
  "DecodeAndValidateJSON sample_lib (limited 2 (blank_request\<lparr>req_method := ''POST'', req_body := Stream ''abc'' None\<rparr>)) =
     Inl (appBadRequest msgBodyTooLarge (LibError MaxBytesKind ''http: request body too large''))"
  using json_body_bounded [of "blank_request\<lparr>req_method := ''POST'', req_body := Stream ''abc'' None\<rparr>" 2 2 "ok_handler []" "blank_world ()" sample_lib]
  by (simp add: blank_request_def)

section \<open>Unknown fields\<close>

text \<open>What an unknown key is: a key of an object, at a struct type without its own decoder, that names no field of
  the struct; \<open>p\<close> is its path.\<close>

inductive unknown_at :: "structs \<Rightarrow> (gotype \<Rightarrow> bool) \<Rightarrow> json \<Rightarrow> gotype \<Rightarrow> string \<Rightarrow> string \<Rightarrow> bool" for S custom where
  key: "strip_ptr t = TStruct i \<Longrightarrow> \<not> custom (TStruct i) \<Longrightarrow> (k, v) \<in> set (entries kvs) \<Longrightarrow>
    map_of (jsonFieldTypes S i) (to_lower k) = None \<Longrightarrow> unknown_at S custom (JObject kvs) t path (joinPath path k)"
| field: "strip_ptr t = TStruct i \<Longrightarrow> \<not> custom (TStruct i) \<Longrightarrow> (k, v) \<in> set (entries kvs) \<Longrightarrow>
    map_of (jsonFieldTypes S i) (to_lower k) = Some ft \<Longrightarrow> unknown_at S custom v ft (joinPath path k) p \<Longrightarrow>
    unknown_at S custom (JObject kvs) t path p"
| entry: "strip_ptr t = TMap et \<Longrightarrow> \<not> custom (TMap et) \<Longrightarrow> (k, v) \<in> set (entries kvs) \<Longrightarrow>
    unknown_at S custom v et (joinPath path k) p \<Longrightarrow> unknown_at S custom (JObject kvs) t path p"
| item: "strip_ptr t = TSeq et \<Longrightarrow> \<not> custom (TSeq et) \<Longrightarrow> j \<in> set js \<Longrightarrow>
    unknown_at S custom j et path p \<Longrightarrow> unknown_at S custom (JArray js) t path p"

inductive_simps unknown_at_simps:
  "unknown_at S custom (JObject kvs) t path p" "unknown_at S custom (JArray js) t path p"
  "unknown_at S custom JNull t path p" "unknown_at S custom JScalar t path p"

lemma first_path_Some: "first_path xs = Some y \<Longrightarrow> Some y \<in> set xs"
  by (induction xs rule: first_path.induct) auto

lemma first_path_None: "first_path xs = None \<longleftrightarrow> (\<forall>x \<in> set xs. x = None)"
  by (induction xs rule: first_path.induct) auto

lemma scan_sound: "scanUnknown S custom j t path = Some p \<Longrightarrow> unknown_at S custom j t path p"
proof (induction S custom j t path rule: scanUnknown.induct)
  case (1 S custom kvs t path)
  show ?case
  proof (cases "strip_ptr t")
    case (TStruct i)
    with 1(3) obtain k v where kv: "(k, v) \<in> set (entries kvs)" and nc: "\<not> custom (TStruct i)"
      and r: "(case map_of (jsonFieldTypes S i) (to_lower k) of None \<Rightarrow> Some (joinPath path k) | Some ft \<Rightarrow> scanUnknown S custom v ft (joinPath path k)) = Some p"
      by (auto simp: Let_def dest!: first_path_Some split: if_splits prod.splits)
    with 1(1) [of "strip_ptr t"] TStruct show ?thesis
      by (auto split: option.splits intro: unknown_at.key unknown_at.field)
  next
    case (TMap et)
    with 1(3) obtain k v where "(k, v) \<in> set (entries kvs)" "\<not> custom (TMap et)" "scanUnknown S custom v et (joinPath path k) = Some p"
      by (auto simp: Let_def dest!: first_path_Some split: if_splits prod.splits)
    with 1(2) [of "strip_ptr t"] TMap show ?thesis by (auto intro: unknown_at.entry)
  qed (use 1(3) in \<open>auto simp: Let_def split: if_splits\<close>)
next
  case (2 S custom js t path)
  show ?case
  proof (cases "strip_ptr t")
    case (TSeq et)
    with 2(2) obtain j where "j \<in> set js" "\<not> custom (TSeq et)" "scanUnknown S custom j et path = Some p"
      by (auto simp: Let_def dest!: first_path_Some split: if_splits)
    with 2(1) [of "strip_ptr t"] TSeq show ?thesis by (auto intro: unknown_at.item)
  qed (use 2(2) in \<open>auto simp: Let_def split: if_splits\<close>)
qed simp_all

lemma scan_complete: "unknown_at S custom j t path p \<Longrightarrow> scanUnknown S custom j t path \<noteq> None"
proof (induction j t path p rule: unknown_at.induct)
  case (key t i k v kvs path)
  then show ?case by (auto simp: first_path_None intro!: bexI [of _ "(k, v)"])
next
  case (field t i k v kvs ft path p)
  then show ?case by (auto simp: first_path_None intro!: bexI [of _ "(k, v)"])
next
  case (entry t et k v kvs path p)
  then show ?case by (auto simp: first_path_None intro!: bexI [of _ "(k, v)"])
next
  case (item t et j js path p)
  then show ?case by (auto simp: first_path_None intro!: bexI [of _ j])
qed


text \<open>A recursive type: a tree whose nodes embed a header and have children.\<close>

definition plain_field :: "string \<Rightarrow> gotype \<Rightarrow> field" where
  "plain_field name t = \<lparr>fd_Name = name, fd_Tag = None, fd_Anonymous = False, fd_Exported = True, fd_Type = t\<rparr>"

definition tree_structs :: structs where
  "tree_structs = [[\<lparr>fd_Name = ''Header'', fd_Tag = None, fd_Anonymous = True, fd_Exported = True, fd_Type = TPtr (TStruct 1)\<rparr>,
       plain_field ''Children'' (TSeq (TPtr (TStruct 0)))],
     [plain_field ''Name'' (TOther 0), \<lparr>fd_Name = ''Header'', fd_Tag = None, fd_Anonymous = True, fd_Exported = True, fd_Type = TStruct 1\<rparr>]]"

definition tree_doc :: json where
  "tree_doc = JObject [(''name'', JScalar), (''children'', JArray [JObject [(''NAME'', JScalar), (''zip'', JScalar)]])]"


end
