(* ===== verification/Auth_Endpoints.thy ===== *)
theory Auth_Endpoints
  imports Auth_Service Typed_JSON
begin

text \<open>
  The endpoints of the authentication module (\<open>internal/modules/auth\<close>: \<open>dto.go\<close>, \<open>handler.go\<close>, \<open>webauthn.go\<close>, \<open>module.go\<close>,
  \<open>routes.go\<close>) and the runtime they are given (\<open>core/modulekit\<close>).

  A handler maps a request, its decoded body and the states of engine and dispatcher to an error or a reply; \<open>endpoint\<close> makes it a typed
  handler for \<open>Adapter\<close>. Time formatting, the JWT parser and base64 are the record \<open>authlib\<close>. \<open>Register\<close> is the sequence of its
  \<open>Handle\<close> calls on a mux and the table of policy metadata, up to the first panic.
\<close>

section \<open>Requests\<close>

abbreviation maxIdentifierLength :: nat where "maxIdentifierLength \<equiv> 320"
abbreviation maxPasswordLength :: nat where "maxPasswordLength \<equiv> 1024"
abbreviation maxChallengeLength :: nat where "maxChallengeLength \<equiv> 1024"
abbreviation maxCodeLength :: nat where "maxCodeLength \<equiv> 64"

definition badRequest :: "string \<Rightarrow> go_error" where
  "badRequest msg = apperr_New CodeBadRequest 400 msg"

definition requireField :: "string \<Rightarrow> string \<Rightarrow> nat \<Rightarrow> go_error option" where
  "requireField val name maxLen =
     (if trim_space val = [] then Some (badRequest (name @ '' is required''))
      else if length val > maxLen then Some (badRequest (name @ '' is too long'')) else None)"

definition requirePassword :: "string \<Rightarrow> go_error option" where
  "requirePassword password =
     (if password = [] then Some (badRequest ''password is required'')
      else if length password > maxPasswordLength then Some (badRequest ''password is too long'') else None)"

text \<open>The first error of two checks.\<close>

definition and_then :: "go_error option \<Rightarrow> go_error option \<Rightarrow> go_error option" where
  "and_then a b = (case a of Some e \<Rightarrow> Some e | None \<Rightarrow> b)"

record loginRequest =
  lq_Identifier :: string
  lq_Password :: string
  lq_RememberMe :: bool

definition loginRequest_Validate :: "loginRequest \<Rightarrow> go_error option" where
  "loginRequest_Validate r =
     and_then (requireField (lq_Identifier r) ''identifier'' maxIdentifierLength) (requireField (lq_Password r) ''password'' maxPasswordLength)"

text \<open>\<open>registerRequest\<close> has the fields of \<open>loginRequest\<close>.\<close>

type_synonym registerRequest = loginRequest

definition registerRequest_Validate :: "registerRequest \<Rightarrow> go_error option" where
  "registerRequest_Validate r =
     and_then (requireField (lq_Identifier r) ''identifier'' maxIdentifierLength) (requireField (lq_Password r) ''password'' maxPasswordLength)"

definition refreshRequest_Validate :: "string \<Rightarrow> go_error option" where
  "refreshRequest_Validate refreshToken = requireField refreshToken ''refresh_token'' 4096"

record mfaConfirmRequest =
  mq_Challenge :: string
  mq_Code :: string
  mq_Type :: string

definition mfaConfirmRequest_Validate :: "mfaConfirmRequest \<Rightarrow> go_error option" where
  "mfaConfirmRequest_Validate r =
     and_then (requireField (mq_Challenge r) ''challenge'' maxChallengeLength) (requireField (mq_Code r) ''code'' 8192)"

definition identifierRequest_Validate :: "string \<Rightarrow> go_error option" where
  "identifierRequest_Validate identifier = requireField identifier ''identifier'' maxIdentifierLength"

record passwordResetConfirmRequest =
  pq_Challenge :: string
  pq_NewPassword :: string
  pq_MFAType :: string
  pq_MFACode :: string

definition passwordResetConfirmRequest_Validate :: "passwordResetConfirmRequest \<Rightarrow> go_error option" where
  "passwordResetConfirmRequest_Validate r =
     and_then (requireField (pq_Challenge r) ''challenge'' maxChallengeLength)
       (and_then (requireField (pq_NewPassword r) ''new_password'' maxPasswordLength)
         (if length (pq_MFACode r) > maxCodeLength then Some (badRequest ''mfa_code is too long'') else None))"

record emailVerifyConfirmRequest =
  eq_Challenge :: string
  eq_VerificationID :: string
  eq_Code :: string

definition emailVerifyConfirmRequest_Validate :: "emailVerifyConfirmRequest \<Rightarrow> go_error option" where
  "emailVerifyConfirmRequest_Validate r =
     (let hasChallenge = trim_space (eq_Challenge r) \<noteq> [];
          hasPair = trim_space (eq_VerificationID r) \<noteq> [] \<or> trim_space (eq_Code r) \<noteq> [] in
      if hasChallenge \<and> hasPair then Some (badRequest ''send either challenge or verification_id and code, not both'')
      else if hasChallenge then requireField (eq_Challenge r) ''challenge'' maxChallengeLength
      else and_then (requireField (eq_VerificationID r) ''verification_id'' maxChallengeLength) (requireField (eq_Code r) ''code'' maxChallengeLength))"

record passwordChangeRequest =
  cq_CurrentPassword :: string
  cq_NewPassword :: string

definition passwordChangeRequest_Validate :: "passwordChangeRequest \<Rightarrow> go_error option" where
  "passwordChangeRequest_Validate r =
     and_then (requireField (cq_CurrentPassword r) ''current_password'' maxPasswordLength)
       (requireField (cq_NewPassword r) ''new_password'' maxPasswordLength)"

definition stepUpRequest_Validate :: "string \<Rightarrow> go_error option" where
  "stepUpRequest_Validate password = requirePassword password"

definition totpCodeRequest_Validate :: "string \<Rightarrow> go_error option" where
  "totpCodeRequest_Validate code = requireField code ''code'' maxCodeLength"

definition webAuthnRegisterBeginRequest_Validate :: "string \<Rightarrow> go_error option" where
  "webAuthnRegisterBeginRequest_Validate password = requirePassword password"

record webAuthnRegisterFinishRequest =
  fq_CeremonyID :: string
  fq_ResponseJSON :: string

definition webAuthnRegisterFinishRequest_Validate :: "webAuthnRegisterFinishRequest \<Rightarrow> go_error option" where
  "webAuthnRegisterFinishRequest_Validate r =
     (if fq_CeremonyID r = [] then Some (badRequest ''ceremony_id is required'')
      else if fq_ResponseJSON r = [] then Some (badRequest ''response_json is required'') else None)"

record webAuthnRemoveCredentialRequest =
  vq_CredentialID :: string
  vq_Password :: string

definition webAuthnRemoveCredentialRequest_Validate :: "webAuthnRemoveCredentialRequest \<Rightarrow> go_error option" where
  "webAuthnRemoveCredentialRequest_Validate r =
     (if vq_CredentialID r = [] then Some (badRequest ''credential_id is required'') else requirePassword (vq_Password r))"

section \<open>Replies\<close>

record tokenResponse =
  tk_AccessToken :: string
  tk_RefreshToken :: string
  tk_AccessExpiresUTC :: string
  tk_AccessExpiresUnix :: int
  tk_MFARequired :: bool
  tk_MFAChallenge :: string
  tk_MFAType :: string
  tk_MFATypes :: "string list"

record whoamiResponse =
  wr_UserID :: string
  wr_Role :: string
  wr_Permissions :: "string list"
  wr_Attributes :: "Attribute list"

record sessionView =
  sw_SessionID :: string
  sw_CreatedUTC :: string
  sw_ExpiresUTC :: string

record webAuthnCredentialView =
  cv_CredentialID :: string
  cv_SignCount :: int
  cv_CreatedUTC :: string
  cv_LastUsedUTC :: string

datatype auth_response =
    Tokens tokenResponse | LoggedOut bool | Whoami whoamiResponse | Accepted bool | Confirmed bool | Changed bool | Sessions "sessionView list"
  | TOTPSetup string string | TOTPConfirm bool "string list" | TOTPDisable bool | BackupCodes "string list"
  | RegisterBegin string string | Credential webAuthnCredentialView | Credentials "webAuthnCredentialView list" | Removed bool

text \<open>A plain value, or an \<open>httpx.Result\<close> with a status.\<close>

datatype auth_reply = Data auth_response | WithStatus int auth_response

text \<open>The fields of \<open>whoamiResponse.MarshalJSON\<close> in their order, with values as they are before encoding.\<close>

datatype field_value = Text string | Texts "string list"

fun whoami_attributes :: "string list \<Rightarrow> Attribute list \<Rightarrow> (string \<times> field_value) list" where
  "whoami_attributes reserved [] = []"
| "whoami_attributes reserved (attr # attrs) =
     (if attr_value attr = [] \<or> attr_key attr \<in> set reserved then whoami_attributes reserved attrs
      else (attr_key attr, Text (attr_value attr)) # whoami_attributes (attr_key attr # reserved) attrs)"

definition whoami_MarshalJSON :: "whoamiResponse \<Rightarrow> (string \<times> field_value) list" where
  "whoami_MarshalJSON w =
     (''user_id'', Text (wr_UserID w)) # whoami_attributes [''user_id'', ''role'', ''permissions''] (wr_Attributes w) @
     (if wr_Role w \<noteq> [] then [(''role'', Text (wr_Role w))] else []) @
     (if wr_Permissions w \<noteq> [] then [(''permissions'', Texts (wr_Permissions w))] else [])"

section \<open>Handlers\<close>

datatype exp_claim = ExpInt int | ExpNumber "go_error + int" | ExpOther

text \<open>\<open>al_exp\<close>: \<open>ParseUnverified\<close>, then the claim \<open>exp\<close> (\<open>ExpInt\<close> for a float or an integer, as the conversion to int64 yields it).\<close>

record authlib =
  al_exp :: "string \<Rightarrow> go_error + exp_claim option"
  al_rfc3339 :: "int \<Rightarrow> string"
  al_base64 :: "string \<Rightarrow> string"
  al_unbase64 :: "string \<Rightarrow> string option"

definition Context_Header :: "request \<Rightarrow> string \<Rightarrow> string" where
  "Context_Header r name = trim_space (header_get (req_header r) name)"

definition requestContext :: "request \<Rightarrow> auth_ctx" where
  "requestContext r =
     \<lparr>ac_request = r, ac_ClientIP = ClientIPFromContext r,
      ac_UserAgent = (let ua = Context_Header r ''User-Agent'' in if ua \<noteq> [] then Some ua else None)\<rparr>"

definition authentication_required :: go_error where
  "authentication_required = apperr_New CodeUnauthorized 401 ''authentication required''"

definition principalID :: "request \<Rightarrow> (string \<Rightarrow> ('e, 'a) service_op) \<Rightarrow> ('e, 'a) service_op" where
  "principalID r k st =
     (let (p, ok) = auth_FromContext r in
      if \<not> ok \<or> trim_space (UserID p) = [] then (Inl authentication_required, st) else k (UserID p) st)"

text \<open>A service call whose error is returned, and the rest.\<close>

definition attempting :: "('e, 'a) service_op \<Rightarrow> ('a \<Rightarrow> ('e, 'b) service_op) \<Rightarrow> ('e, 'b) service_op" where
  "attempting f k st = (case f st of (Inl e, st') \<Rightarrow> (Inl e, st') | (Inr x, st') \<Rightarrow> k x st')"

definition accepted :: auth_reply where
  "accepted = WithStatus 202 (Accepted True)"

definition parseJWTExpiryUnix :: "authlib \<Rightarrow> string \<Rightarrow> go_error + int" where
  "parseJWTExpiryUnix A accessToken =
     (case al_exp A accessToken of
        Inl e \<Rightarrow> Inl e
      | Inr None \<Rightarrow> Inl (go_error.Plain ''jwt exp claim missing'')
      | Inr (Some (ExpInt n)) \<Rightarrow> Inr n
      | Inr (Some (ExpNumber x)) \<Rightarrow> x
      | Inr (Some ExpOther) \<Rightarrow> Inl (go_error.Plain ''jwt exp claim has invalid type''))"

definition buildTokenResponse :: "authlib \<Rightarrow> string \<Rightarrow> string \<Rightarrow> go_error + tokenResponse" where
  "buildTokenResponse A accessToken refreshToken =
     (case parseJWTExpiryUnix A accessToken of
        Inl e \<Rightarrow> Inl (caused (apperr_New CodeInternal 500 ''invalid access token payload'') e)
      | Inr expiresUnix \<Rightarrow>
          Inr \<lparr>tk_AccessToken = accessToken, tk_RefreshToken = refreshToken, tk_AccessExpiresUTC = al_rfc3339 A expiresUnix,
            tk_AccessExpiresUnix = expiresUnix, tk_MFARequired = False, tk_MFAChallenge = [], tk_MFAType = [], tk_MFATypes = []\<rparr>)"

definition buildLoginResponse :: "authlib \<Rightarrow> loginOutcome \<Rightarrow> go_error + tokenResponse" where
  "buildLoginResponse A outcome =
     (if lo_MFARequired outcome
      then Inr \<lparr>tk_AccessToken = [], tk_RefreshToken = [], tk_AccessExpiresUTC = [], tk_AccessExpiresUnix = 0, tk_MFARequired = True,
             tk_MFAChallenge = lo_MFASession outcome, tk_MFAType = lo_MFAType outcome, tk_MFATypes = lo_MFATypes outcome\<rparr>
      else buildTokenResponse A (lo_AccessToken outcome) (lo_RefreshToken outcome))"

definition tokens_reply :: "go_error + tokenResponse \<Rightarrow> ('e, auth_reply) service_op" where
  "tokens_reply res st = (case res of Inl e \<Rightarrow> (Inl e, st) | Inr t \<Rightarrow> (Inr (Data (Tokens t)), st))"

definition auth_bearerToken :: "string \<Rightarrow> string" where
  "auth_bearerToken header0 =
     (let header = trim_space header0 in
      if header = [] then []
      else if length header \<ge> 7 \<and> equal_fold (take 7 header) ''Bearer '' then trim_space (drop 7 header) else [])"

definition unixToRFC3339 :: "authlib \<Rightarrow> int \<Rightarrow> string" where
  "unixToRFC3339 A sec = (if sec \<le> 0 then [] else al_rfc3339 A sec)"

definition h_login :: "authlib \<Rightarrow> 'e service \<Rightarrow> request \<Rightarrow> loginRequest \<Rightarrow> ('e, auth_reply) service_op" where
  "h_login A s r q =
     attempting (svc_login s (requestContext r) (lq_Identifier q) (lq_Password q) (lq_RememberMe q)) (\<lambda>outcome. tokens_reply (buildLoginResponse A outcome))"

definition h_confirmMFA :: "authlib \<Rightarrow> 'e service \<Rightarrow> request \<Rightarrow> mfaConfirmRequest \<Rightarrow> ('e, auth_reply) service_op" where
  "h_confirmMFA A s r q =
     attempting (svc_confirmMFA s (requestContext r) (mq_Challenge q) (mq_Code q) (mq_Type q)) (\<lambda>outcome. tokens_reply (buildLoginResponse A outcome))"

definition h_refresh :: "authlib \<Rightarrow> 'e service \<Rightarrow> request \<Rightarrow> string \<Rightarrow> ('e, auth_reply) service_op" where
  "h_refresh A s r refreshToken =
     attempting (svc_refresh s (requestContext r) refreshToken) (\<lambda>(access, fresh). tokens_reply (buildTokenResponse A access fresh))"

definition h_logout :: "'e service \<Rightarrow> request \<Rightarrow> string \<Rightarrow> ('e, auth_reply) service_op" where
  "h_logout s r accessToken st =
     (let given = trim_space accessToken;
          tok = (if given = [] then auth_bearerToken (Context_Header r ''Authorization'') else given) in
      if tok = [] then (Inl (badRequest ''access token is required''), st)
      else attempting (svc_logout s (requestContext r) tok) (\<lambda>_. ret (Data (LoggedOut True))) st)"

definition h_logoutAll :: "'e service \<Rightarrow> request \<Rightarrow> ('e, auth_reply) service_op" where
  "h_logoutAll s r = principalID r (\<lambda>userID. attempting (svc_logoutAll s (requestContext r) userID) (\<lambda>_. ret (Data (LoggedOut True))))"

definition h_whoami :: "request \<Rightarrow> ('e, auth_reply) service_op" where
  "h_whoami r st =
     (case auth_FromContext r of
        (p, False) \<Rightarrow> (Inl authentication_required, st)
      | (p, True) \<Rightarrow> (Inr (Data (Whoami \<lparr>wr_UserID = UserID p, wr_Role = Role p, wr_Permissions = Permissions p, wr_Attributes = Attributes p\<rparr>)), st))"

definition h_sessions :: "authlib \<Rightarrow> 'e service \<Rightarrow> request \<Rightarrow> ('e, auth_reply) service_op" where
  "h_sessions A s r =
     principalID r (\<lambda>userID. attempting (svc_listSessions s (requestContext r) userID)
       (\<lambda>xs. ret (Data (Sessions (map (\<lambda>x. \<lparr>sw_SessionID = si_SessionID x, sw_CreatedUTC = unixToRFC3339 A (si_CreatedAt x),
          sw_ExpiresUTC = unixToRFC3339 A (si_ExpiresAt x)\<rparr>) xs)))))"

definition h_changePassword :: "'e service \<Rightarrow> request \<Rightarrow> passwordChangeRequest \<Rightarrow> ('e, auth_reply) service_op" where
  "h_changePassword s r q =
     principalID r (\<lambda>userID. attempting (svc_changePassword s (requestContext r) userID (cq_CurrentPassword q) (cq_NewPassword q)) (\<lambda>_. ret (Data (Changed True))))"

definition h_registerAccount :: "authlib \<Rightarrow> 'e service \<Rightarrow> request \<Rightarrow> registerRequest \<Rightarrow> ('e, auth_reply) service_op" where
  "h_registerAccount A s r q =
     attempting (svc_register s (requestContext r) (lq_Identifier q) (lq_Password q) (lq_RememberMe q))
       (\<lambda>(access, fresh) st.
          if access = [] then (Inr (WithStatus 202 (Accepted True)), st)
          else (case buildTokenResponse A access fresh of Inl e \<Rightarrow> (Inl e, st) | Inr t \<Rightarrow> (Inr (WithStatus 201 (Tokens t)), st)))"

definition h_passwordResetRequest :: "'e service \<Rightarrow> request \<Rightarrow> string \<Rightarrow> ('e, auth_reply) service_op" where
  "h_passwordResetRequest s r identifier = attempting (svc_requestPasswordReset s (requestContext r) identifier) (\<lambda>_. ret accepted)"

definition h_passwordResetConfirm :: "'e service \<Rightarrow> request \<Rightarrow> passwordResetConfirmRequest \<Rightarrow> ('e, auth_reply) service_op" where
  "h_passwordResetConfirm s r q =
     attempting (svc_confirmPasswordReset s (requestContext r) (pq_Challenge q) (pq_NewPassword q) (pq_MFAType q) (pq_MFACode q)) (\<lambda>_. ret (Data (Changed True)))"

definition h_emailVerifyRequest :: "'e service \<Rightarrow> request \<Rightarrow> string \<Rightarrow> ('e, auth_reply) service_op" where
  "h_emailVerifyRequest s r identifier = attempting (svc_requestEmailVerification s (requestContext r) identifier) (\<lambda>_. ret accepted)"

definition h_emailVerifyConfirm :: "'e service \<Rightarrow> request \<Rightarrow> emailVerifyConfirmRequest \<Rightarrow> ('e, auth_reply) service_op" where
  "h_emailVerifyConfirm s r q =
     attempting (svc_confirmEmailVerification s (requestContext r) (eq_Challenge q) (eq_VerificationID q) (eq_Code q)) (\<lambda>_. ret (Data (Confirmed True)))"

definition h_totpSetup :: "'e service \<Rightarrow> request \<Rightarrow> string \<Rightarrow> ('e, auth_reply) service_op" where
  "h_totpSetup s r password =
     principalID r (\<lambda>userID. attempting (svc_verifyPassword s (requestContext r) userID password)
       (\<lambda>_. attempting (svc_setupTOTP s (requestContext r) userID) (\<lambda>(secret, uri). ret (Data (TOTPSetup secret uri)))))"

definition h_totpConfirm :: "'e service \<Rightarrow> request \<Rightarrow> string \<Rightarrow> ('e, auth_reply) service_op" where
  "h_totpConfirm s r code = principalID r (\<lambda>userID. attempting (svc_confirmTOTP s (requestContext r) userID code) (\<lambda>codes. ret (Data (TOTPConfirm True codes))))"

definition h_totpDisable :: "'e service \<Rightarrow> request \<Rightarrow> string \<Rightarrow> ('e, auth_reply) service_op" where
  "h_totpDisable s r code = principalID r (\<lambda>userID. attempting (svc_disableTOTP s (requestContext r) userID code) (\<lambda>_. ret (Data (TOTPDisable True))))"

definition h_backupCodesRegenerate :: "'e service \<Rightarrow> request \<Rightarrow> string \<Rightarrow> ('e, auth_reply) service_op" where
  "h_backupCodesRegenerate s r code =
     principalID r (\<lambda>userID. attempting (svc_regenerateBackupCodes s (requestContext r) userID code) (\<lambda>codes. ret (Data (BackupCodes codes))))"

definition webAuthnCredentialToView :: "authlib \<Rightarrow> WebAuthnCredential \<Rightarrow> webAuthnCredentialView" where
  "webAuthnCredentialToView A c =
     \<lparr>cv_CredentialID = al_base64 A (wa_CredentialID c), cv_SignCount = wa_SignCount c,
      cv_CreatedUTC = (case wa_CreatedAt c of None \<Rightarrow> [] | Some t \<Rightarrow> al_rfc3339 A t),
      cv_LastUsedUTC = (case wa_LastUsedAt c of None \<Rightarrow> [] | Some t \<Rightarrow> al_rfc3339 A t)\<rparr>"

definition h_webAuthnRegisterBegin :: "'e service \<Rightarrow> request \<Rightarrow> string \<Rightarrow> ('e, auth_reply) service_op" where
  "h_webAuthnRegisterBegin s r password =
     principalID r (\<lambda>userID. attempting (svc_verifyPassword s (requestContext r) userID password)
       (\<lambda>_. attempting (svc_beginWebAuthnRegistration s (requestContext r) userID)
          (\<lambda>challenge. ret (Data (RegisterBegin (rc_CeremonyID challenge) (rc_OptionsJSON challenge))))))"

definition h_webAuthnRegisterFinish :: "authlib \<Rightarrow> 'e service \<Rightarrow> request \<Rightarrow> webAuthnRegisterFinishRequest \<Rightarrow> ('e, auth_reply) service_op" where
  "h_webAuthnRegisterFinish A s r q =
     principalID r (\<lambda>userID. attempting (svc_finishWebAuthnRegistration s (requestContext r) userID (fq_CeremonyID q) (fq_ResponseJSON q))
       (\<lambda>cred. ret (Data (Credential (webAuthnCredentialToView A cred)))))"

definition h_webAuthnListCredentials :: "authlib \<Rightarrow> 'e service \<Rightarrow> request \<Rightarrow> ('e, auth_reply) service_op" where
  "h_webAuthnListCredentials A s r =
     principalID r (\<lambda>userID. attempting (svc_listWebAuthnCredentials s (requestContext r) userID)
       (\<lambda>creds. ret (Data (Credentials (map (webAuthnCredentialToView A) creds)))))"

definition h_webAuthnRemoveCredential :: "authlib \<Rightarrow> 'e service \<Rightarrow> request \<Rightarrow> webAuthnRemoveCredentialRequest \<Rightarrow> ('e, auth_reply) service_op" where
  "h_webAuthnRemoveCredential A s r q =
     principalID r (\<lambda>userID st.
       case al_unbase64 A (vq_CredentialID q) of
         None \<Rightarrow> (Inl (badRequest ''credential_id must be base64url-encoded''), st)
       | Some credentialID \<Rightarrow>
           attempting (svc_verifyPassword s (requestContext r) userID (vq_Password q))
             (\<lambda>_. attempting (svc_removeWebAuthnCredential s (requestContext r) userID credentialID) (\<lambda>_. ret (Data (Removed True)))) st)"

section \<open>The module\<close>

text \<open>The dependencies it is bound to: the engine as the guard knows it and with its methods, and what else \<open>BindDependencies\<close> and the
  runtime (\<open>core/modulekit\<close>) read.\<close>

record 'e module_deps =
  md_AuthEngine :: "(nat \<times> 'e engine) option"
  md_AuthMode :: Mode
  md_AuthUsers :: "'e user_lookup option"
  md_Auth :: AuthConfig
  md_Notifier :: bool
  md_RateLimit :: RateLimitConfig
  md_Limiter :: "('e \<times> dispatcher) allow_op option"

definition AuthEngine :: "'e module_deps option \<Rightarrow> nat option" where
  "AuthEngine deps = (case deps of None \<Rightarrow> None | Some d \<Rightarrow> map_option fst (md_AuthEngine d))"

definition AuthMode :: "'e module_deps option \<Rightarrow> Mode list \<Rightarrow> Mode" where
  "AuthMode deps overrides =
     (if overrides \<noteq> [] \<and> hd overrides \<noteq> [] then hd overrides
      else (case deps of None \<Rightarrow> ModeHybrid | Some d \<Rightarrow> if md_AuthMode d = [] then ModeHybrid else md_AuthMode d))"

definition Limiter :: "'e module_deps option \<Rightarrow> ('e \<times> dispatcher) allow_op option" where
  "Limiter deps = (case deps of None \<Rightarrow> None | Some d \<Rightarrow> md_Limiter d)"

record 'e Module =
  mo_runtime :: "'e module_deps option"
  mo_rateRule :: Rule
  mo_features :: features
  mo_svc :: "'e service"

definition auth_features :: "AuthConfig \<Rightarrow> features" where
  "auth_features a =
     \<lparr>ft_Registration = au_RegistrationEnabled a, ft_AutoLogin = (au_RegistrationEnabled a \<and> au_RegistrationAutoLogin a),
      ft_PasswordReset = au_PasswordResetEnabled a, ft_EmailVerification = au_EmailVerificationEnabled a, ft_TOTP = au_TOTPEnabled a\<rparr>"

definition no_features :: features where
  "no_features = \<lparr>ft_Registration = False, ft_AutoLogin = False, ft_PasswordReset = False, ft_EmailVerification = False, ft_TOTP = False\<rparr>"

definition BindDependencies :: "'e module_deps option \<Rightarrow> 'e Module" where
  "BindDependencies deps =
     (let rule = \<lparr>rule_Limit = 10, rule_Window = 60000000000, rule_Scope = ScopeUser, rule_Keyer = None\<rparr> in
      case deps of
        None \<Rightarrow> \<lparr>mo_runtime = None, mo_rateRule = rule, mo_features = no_features, mo_svc = newService None None False no_features\<rparr>
      | Some d \<Rightarrow>
          \<lparr>mo_runtime = Some d,
           mo_rateRule = rule\<lparr>rule_Limit := (if rlc_DefaultLimit (md_RateLimit d) > 0 then rlc_DefaultLimit (md_RateLimit d) else 10),
             rule_Window := (if rlc_DefaultWindow (md_RateLimit d) > 0 then rlc_DefaultWindow (md_RateLimit d) else 60000000000)\<rparr>,
           mo_features = auth_features (md_Auth d),
           mo_svc = newService (map_option snd (md_AuthEngine d)) (newAccountRepository (md_AuthUsers d)) (md_Notifier d) (auth_features (md_Auth d))\<rparr>)"

section \<open>Routes\<close>

text \<open>A handler of the module as a typed handler; \<open>encode\<close> is \<open>json.Marshal\<close> of the response.\<close>

definition endpoint :: "(auth_response \<Rightarrow> string) \<Rightarrow> (request \<Rightarrow> 'q \<Rightarrow> ('e, auth_reply) service_op) \<Rightarrow> ('e \<times> dispatcher, 'q) handler_func" where
  "endpoint encode h r q w =
     (case h r q (svc w) of
        (Inl e, st) \<Rightarrow> Ret (Inl e, w\<lparr>svc := st\<rparr>)
      | (Inr (Data d), st) \<Rightarrow> Ret (Inr (Payload (encode d)), w\<lparr>svc := st\<rparr>)
      | (Inr (WithStatus n d), st) \<Rightarrow> Ret (Inr (Result n None (encode d)), w\<lparr>svc := st\<rparr>))"

text \<open>What the routes are built from: the envelope encoder, the body encoder, one JSON decoder per request type, the guard and the
  extensions of \<open>AuthRequired\<close>, and the hash of the keyer. The type of \<open>logoutRequest\<close> and of the string requests is their only field.\<close>

record 'e route_env =
  re_enc :: "Envelope \<Rightarrow> string"
  re_encode :: "auth_response \<Rightarrow> string"
  re_lib :: authlib
  re_login :: "loginRequest json_lib"
  re_mfa :: "mfaConfirmRequest json_lib"
  re_text :: "string \<Rightarrow> string json_lib"   \<comment> \<open>by the name of the field\<close>
  re_resetConfirm :: "passwordResetConfirmRequest json_lib"
  re_verifyConfirm :: "emailVerifyConfirmRequest json_lib"
  re_change :: "passwordChangeRequest json_lib"
  re_finish :: "webAuthnRegisterFinishRequest json_lib"
  re_remove :: "webAuthnRemoveCredentialRequest json_lib"
  re_none :: "unit json_lib"
  re_guard :: "('e \<times> dispatcher) guard"
  re_exts :: "('e \<times> dispatcher) ext_table"
  re_sha :: "string \<Rightarrow> string"

definition body_route :: "'e route_env \<Rightarrow> 'q json_lib \<Rightarrow> ('q \<Rightarrow> go_error option) \<Rightarrow> 'q \<Rightarrow> (request \<Rightarrow> 'q \<Rightarrow> ('e, auth_reply) service_op)
    \<Rightarrow> ('e \<times> dispatcher) handler" where
  "body_route E L validate zero h = Adapter (re_enc E) (L\<lparr>jl_validate := validate\<rparr>) False zero (endpoint (re_encode E) h)"

definition text_route :: "'e route_env \<Rightarrow> string \<Rightarrow> (string \<Rightarrow> go_error option) \<Rightarrow> (request \<Rightarrow> string \<Rightarrow> ('e, auth_reply) service_op)
    \<Rightarrow> ('e \<times> dispatcher) handler" where
  "text_route E name validate h = body_route E (re_text E name) validate [] h"

definition plain_route :: "'e route_env \<Rightarrow> (request \<Rightarrow> ('e, auth_reply) service_op) \<Rightarrow> ('e \<times> dispatcher) handler" where
  "plain_route E h = Adapter (re_enc E) (re_none E) True () (endpoint (re_encode E) (\<lambda>r q. h r))"

text \<open>One call of \<open>r.Handle\<close>: its policies are built, then the route is registered.\<close>

datatype register_panic = RoutePanic route_error | PolicyPanic config_panic

type_synonym 's mounting = "'s Mux \<times> policy_table"
type_synonym 's policies = "policy_table \<Rightarrow> config_panic + ('s middleware policy option list \<times> policy_table)"

record 's handle_call =
  hc_method :: string
  hc_pattern :: string
  hc_handler :: "'s handler"
  hc_policies :: "'s policies"

definition no_policies :: "'s policies" where
  "no_policies t = Inr ([], t)"

definition auth_policies :: "'e route_env \<Rightarrow> nat option \<Rightarrow> Mode \<Rightarrow> ('e \<times> dispatcher) policies" where
  "auth_policies E engine mode t = (let (p, t') = AuthRequired (re_enc E) (re_guard E) (re_exts E) engine mode t in Inr ([p], t'))"

definition limited_policies :: "'e route_env \<Rightarrow> nat option \<Rightarrow> Mode \<Rightarrow> ('e \<times> dispatcher) allow_op option \<Rightarrow> string \<Rightarrow> Rule
    \<Rightarrow> ('e \<times> dispatcher) policies" where
  "limited_policies E engine mode allow name rule t =
     (let (p, t') = AuthRequired (re_enc E) (re_guard E) (re_exts E) engine mode t in
      case RateLimitWithKeyer (re_enc E) (re_sha E) allow name rule (Some (KeyByUserOrTokenHash (re_sha E) 16)) t' of
        Inl e \<Rightarrow> Inl e
      | Inr (q, t'') \<Rightarrow> Inr ([p, q], t''))"

definition handle :: "'s handle_call \<Rightarrow> 's mounting \<Rightarrow> register_panic + 's mounting" where
  "handle c mt =
     (case hc_policies c (snd mt) of
        Inl e \<Rightarrow> Inl (PolicyPanic e)
      | Inr (ps, t) \<Rightarrow>
          (case Mux_Handle t (hc_method c) (hc_pattern c) (hc_handler c) ps (fst mt) of Inl e \<Rightarrow> Inl (RoutePanic e) | Inr m \<Rightarrow> Inr (m, t)))"

fun handle_all :: "'s handle_call list \<Rightarrow> 's mounting \<Rightarrow> register_panic + 's mounting" where
  "handle_all [] mt = Inr mt"
| "handle_all (c # cs) mt = (case handle c mt of Inl e \<Rightarrow> Inl e | Inr mt' \<Rightarrow> handle_all cs mt')"

definition api :: "string \<Rightarrow> string" where
  "api path = ''/api/v1/auth/'' @ path"

definition post :: "string \<Rightarrow> 's policies \<Rightarrow> 's handler \<Rightarrow> 's handle_call" where
  "post path ps h = \<lparr>hc_method = ''POST'', hc_pattern = api path, hc_handler = h, hc_policies = ps\<rparr>"

definition get :: "string \<Rightarrow> 's policies \<Rightarrow> 's handler \<Rightarrow> 's handle_call" where
  "get path ps h = \<lparr>hc_method = ''GET'', hc_pattern = api path, hc_handler = h, hc_policies = ps\<rparr>"

abbreviation no_login :: loginRequest where "no_login \<equiv> \<lparr>lq_Identifier = [], lq_Password = [], lq_RememberMe = False\<rparr>"

definition credential_calls :: "'e route_env \<Rightarrow> 'e service \<Rightarrow> ('e \<times> dispatcher) handle_call list" where
  "credential_calls E s =
     [post ''login'' no_policies (body_route E (re_login E) loginRequest_Validate no_login (h_login (re_lib E) s)),
      post ''mfa/confirm'' no_policies
        (body_route E (re_mfa E) mfaConfirmRequest_Validate \<lparr>mq_Challenge = [], mq_Code = [], mq_Type = []\<rparr> (h_confirmMFA (re_lib E) s)),
      post ''refresh'' no_policies (text_route E ''refresh_token'' refreshRequest_Validate (h_refresh (re_lib E) s)),
      post ''logout'' no_policies (text_route E ''access_token'' (\<lambda>q. None) (h_logout s))]"

definition account_calls :: "'e route_env \<Rightarrow> 'e Module \<Rightarrow> ('e \<times> dispatcher) handle_call list" where
  "account_calls E m =
     (let s = mo_svc m; engine = AuthEngine (mo_runtime m); mode = AuthMode (mo_runtime m) []; allow = Limiter (mo_runtime m);
          auth = auth_policies E engine mode;
          limited = (\<lambda>name. if allow \<noteq> None then limited_policies E engine mode allow name (mo_rateRule m) else auth) in
      [post ''logout/all'' auth (plain_route E (h_logoutAll s)), get ''sessions'' auth (plain_route E (h_sessions (re_lib E) s)),
       get ''whoami'' (limited ''auth.whoami'') (plain_route E h_whoami),
       post ''password/change'' (limited ''auth.password.change'')
         (body_route E (re_change E) passwordChangeRequest_Validate \<lparr>cq_CurrentPassword = [], cq_NewPassword = []\<rparr> (h_changePassword s))])"

definition feature_calls :: "'e route_env \<Rightarrow> 'e Module \<Rightarrow> ('e \<times> dispatcher) handle_call list" where
  "feature_calls E m =
     (let s = mo_svc m; f = mo_features m; auth = auth_policies E (AuthEngine (mo_runtime m)) (AuthMode (mo_runtime m) []) in
      (if ft_Registration f
       then [post ''register'' no_policies (body_route E (re_login E) registerRequest_Validate no_login (h_registerAccount (re_lib E) s))] else []) @
      (if ft_PasswordReset f
       then [post ''password/reset/request'' no_policies (text_route E ''identifier'' identifierRequest_Validate (h_passwordResetRequest s)),
             post ''password/reset/confirm'' no_policies
               (body_route E (re_resetConfirm E) passwordResetConfirmRequest_Validate
                 \<lparr>pq_Challenge = [], pq_NewPassword = [], pq_MFAType = [], pq_MFACode = []\<rparr> (h_passwordResetConfirm s))] else []) @
      (if ft_EmailVerification f
       then [post ''email/verify/request'' no_policies (text_route E ''identifier'' identifierRequest_Validate (h_emailVerifyRequest s)),
             post ''email/verify/confirm'' no_policies
               (body_route E (re_verifyConfirm E) emailVerifyConfirmRequest_Validate
                 \<lparr>eq_Challenge = [], eq_VerificationID = [], eq_Code = []\<rparr> (h_emailVerifyConfirm s))] else []) @
      (if ft_TOTP f
       then [post ''mfa/totp/setup'' auth (text_route E ''password'' stepUpRequest_Validate (h_totpSetup s)),
             post ''mfa/totp/confirm'' auth (text_route E ''code'' totpCodeRequest_Validate (h_totpConfirm s)),
             post ''mfa/totp/disable'' auth (text_route E ''code'' totpCodeRequest_Validate (h_totpDisable s)),
             post ''mfa/backup-codes/regenerate'' auth (text_route E ''code'' totpCodeRequest_Validate (h_backupCodesRegenerate s))] else []))"

definition webauthn_calls :: "'e route_env \<Rightarrow> 'e Module \<Rightarrow> ('e \<times> dispatcher) handle_call list" where
  "webauthn_calls E m =
     (let s = mo_svc m; auth = auth_policies E (AuthEngine (mo_runtime m)) (AuthMode (mo_runtime m) []) in
      [post ''webauthn/register/begin'' auth (text_route E ''password'' webAuthnRegisterBeginRequest_Validate (h_webAuthnRegisterBegin s)),
       post ''webauthn/register/finish'' auth
         (body_route E (re_finish E) webAuthnRegisterFinishRequest_Validate \<lparr>fq_CeremonyID = [], fq_ResponseJSON = []\<rparr>
           (h_webAuthnRegisterFinish (re_lib E) s)),
       get ''webauthn/credentials'' auth (plain_route E (h_webAuthnListCredentials (re_lib E) s)),
       post ''webauthn/credentials/remove'' auth
         (body_route E (re_remove E) webAuthnRemoveCredentialRequest_Validate \<lparr>vq_CredentialID = [], vq_Password = []\<rparr>
           (h_webAuthnRemoveCredential (re_lib E) s))])"

definition Register :: "'e route_env \<Rightarrow> 'e Module \<Rightarrow> ('e \<times> dispatcher) mounting \<Rightarrow> register_panic + ('e \<times> dispatcher) mounting" where
  "Register E m mt =
     (if AuthEngine (mo_runtime m) = None then Inr mt
      else handle_all (credential_calls E (mo_svc m) @ account_calls E m @ feature_calls E m @ webauthn_calls E m) mt)"

end
