(* ===== verification/Auth_Flows.thy ===== *)
theory Auth_Flows
  imports Auth_Endpoints Auth_Safety
begin

text \<open>
  Properties of the authentication module: what its errors and its replies tell a client, that a second factor is changed only after the
  password was checked, and that its account routes are behind \<open>AuthRequired\<close>.
\<close>

named_theorems silent_intros \<open>operations that leave the record of the engine alone\<close>

section \<open>Errors\<close>

text \<open>The errors that a client can correct by sending something else.\<close>

definition correctable :: "sentinel list" where
  "correctable = [ErrPasswordPolicy, ErrPasswordReuse, ErrPasswordResetInvalid, ErrEmailVerificationInvalid, ErrInvalidCredentials, ErrTOTPInvalid,
     ErrBackupCodeInvalid, ErrMFALoginInvalid, ErrTOTPRequired, ErrMFALoginRequired]"

definition flow_messages :: "string list" where
  "flow_messages = [''password does not meet the password policy'', ''new password must differ from the current password'',
     ''invalid or expired challenge'', ''current password is incorrect'', ''invalid code'', ''a second-factor code is required'',
     ''totp is already enabled; disable it before enrolling again'', ''authentication temporarily limited'', ''totp is not enabled for this account'',
     ''not found'', ''authentication required'', ''authentication state rejected'', ''authentication failed'', ''authentication unavailable'',
     ''request rejected'']"

lemma flow_message [simp]:
  "''password does not meet the password policy'' \<in> set flow_messages"
  "''new password must differ from the current password'' \<in> set flow_messages"
  "''invalid or expired challenge'' \<in> set flow_messages"
  "''current password is incorrect'' \<in> set flow_messages"
  "''invalid code'' \<in> set flow_messages"
  "''a second-factor code is required'' \<in> set flow_messages"
  "''totp is already enabled; disable it before enrolling again'' \<in> set flow_messages"
  "''authentication temporarily limited'' \<in> set flow_messages"
  "''totp is not enabled for this account'' \<in> set flow_messages"
  "''not found'' \<in> set flow_messages"
  "''authentication required'' \<in> set flow_messages"
  "''authentication state rejected'' \<in> set flow_messages"
  "''authentication failed'' \<in> set flow_messages"
  "''authentication unavailable'' \<in> set flow_messages"
  "''request rejected'' \<in> set flow_messages"
  by (simp_all add: flow_messages_def)

lemma caused_AppError [simp]: "caused (apperr_New c n m) e = AppError c n m None (Some e)"
  by (simp add: caused_def apperr_New_def)

lemmas flow_error_defs = mapFlowError_def mapAuthEndpointError_def badRequestErr_def totpAlreadyEnabledErr_def

lemma mapAuthEndpointError_cases:
  "\<exists>c n m. mapAuthEndpointError e msg = AppError c n m None (Some (ge_error e)) \<and> n \<in> {401, 403, 429, 500, 503} \<and>
     m \<in> {msg, ''authentication temporarily limited'', ''authentication state rejected'', ''authentication failed'', ''authentication unavailable''} \<and>
     (n = 401 \<longrightarrow> m = msg)"
  by (auto simp: mapAuthEndpointError_def split: option.splits category.splits)

lemma mapFlowError_correctable:
  assumes "is_any e correctable"
  shows "\<exists>m \<in> set flow_messages. mapFlowError e = AppError CodeBadRequest 400 m None (Some (ge_error e))"
  using assms unfolding mapFlowError_def badRequestErr_def caused_AppError
  by (auto simp: is_any_def correctable_def)

lemma mapFlowError_other:
  assumes "\<not> is_any e correctable"
  shows "\<exists>c n m. mapFlowError e = AppError c n m None (Some (ge_error e)) \<and> m \<in> set flow_messages \<and> n \<in> {401, 403, 404, 409, 429, 500, 503}"
proof -
  have "mapFlowError e = (if is_any e [ErrTOTPAlreadyEnabled] then caused totpAlreadyEnabledErr (ge_error e)
      else if is_any e [ErrPasswordVerifyRateLimited]
      then caused (apperr_New CodeTooManyRequests 429 ''authentication temporarily limited'') (ge_error e)
      else if is_any e [ErrTOTPNotConfigured, ErrBackupCodesNotConfigured, ErrBackupCodeRegenerationRequiresTOTP]
      then caused (apperr_New CodeConflict 409 ''totp is not enabled for this account'') (ge_error e)
      else if is_any e [ErrPasswordResetDisabled, ErrEmailVerificationDisabled, ErrTOTPFeatureDisabled, ErrAccountCreationDisabled]
      then caused (apperr_New CodeNotFound 404 ''not found'') (ge_error e)
      else if is_any e [GoErrUserNotFound] then caused (apperr_New CodeUnauthorized 401 ''authentication required'') (ge_error e)
      else mapAuthEndpointError e ''request rejected'')"
    using assms by (simp add: mapFlowError_def is_any_def correctable_def)
  then show ?thesis using mapAuthEndpointError_cases [of e "''request rejected''"]
    by (auto simp: totpAlreadyEnabledErr_def)
qed

text \<open>
  C29: Why a credential was rejected does not show. All errors of goAuth that are neither abuse, state nor system errors get the same answer
  from a credential endpoint, status and body, whatever they are, unless one is a passed deadline; and the account flows answer an input a client can correct with
  400 and a fixed text, never 401, and every other error with a fixed text.\<close>

theorem auth_errors_uniform:
  assumes "\<forall>e \<in> {e1, e2}. (\<forall>cat internal. ge_auth e = Some (cat, internal) \<longrightarrow> (\<exists>n. cat = CategoryOther n)) \<and>
      (ge_auth e = None \<longrightarrow> ErrLoginRateLimited \<notin> set (ge_is e)) \<and> \<not> is_deadline (ge_error e)"
  shows "error_response (mapAuthEndpointError e1 msg) rid = error_response (mapAuthEndpointError e2 msg) rid \<and>
    fst (error_response (mapAuthEndpointError e1 msg) rid) = 401 \<and>
    (\<forall>e. \<not> is_deadline (ge_error e) \<longrightarrow> (\<exists>n c. \<exists>m \<in> set flow_messages. error_response (mapFlowError e) rid = (n, error_envelope c m None rid) \<and>
       (is_any e correctable \<longrightarrow> n = 400)))"
proof -
  have one: "error_response (mapAuthEndpointError e msg) rid = (401, error_envelope (code_string CodeUnauthorized) msg None rid)"
    if "e \<in> {e1, e2}" for e
    using bspec [OF assms that] by (auto simp: mapAuthEndpointError_def error_response_def split: option.splits category.splits)
  have "\<exists>n c. \<exists>m \<in> set flow_messages. error_response (mapFlowError e) rid = (n, error_envelope c m None rid) \<and> (is_any e correctable \<longrightarrow> n = 400)"
    if d: "\<not> is_deadline (ge_error e)" for e
  proof (cases "is_any e correctable")
    case True
    then obtain m where "m \<in> set flow_messages" "mapFlowError e = AppError CodeBadRequest 400 m None (Some (ge_error e))"
      using mapFlowError_correctable by blast
    then have "error_response (mapFlowError e) rid = (400, error_envelope (code_string CodeBadRequest) m None rid)" using d by (simp add: error_response_def)
    then show ?thesis using \<open>m \<in> set flow_messages\<close> by blast
  next
    case False
    then obtain c n m where "m \<in> set flow_messages" "mapFlowError e = AppError c n m None (Some (ge_error e))"
      using mapFlowError_other by blast
    then have "error_response (mapFlowError e) rid = (n, error_envelope (code_string c) m None rid)" using d by (simp add: error_response_def)
    then show ?thesis using \<open>m \<in> set flow_messages\<close> False by blast
  qed
  with one [of e1] one [of e2] show ?thesis by simp
qed

theorem auth_errors_uniform_witness:
  "error_response (mapAuthEndpointError \<lparr>ge_is = [ErrInvalidCredentials], ge_auth = None, ge_error = go_error.Plain ''no such user''\<rparr> ''invalid credentials'') ''r'' =
   error_response (mapAuthEndpointError \<lparr>ge_is = [], ge_auth = Some (CategoryOther 0, False), ge_error = go_error.Plain ''wrong password''\<rparr> ''invalid credentials'') ''r''"
  using auth_errors_uniform [of "\<lparr>ge_is = [ErrInvalidCredentials], ge_auth = None, ge_error = go_error.Plain ''no such user''\<rparr>"
    "\<lparr>ge_is = [], ge_auth = Some (CategoryOther 0, False), ge_error = go_error.Plain ''wrong password''\<rparr>" "''invalid credentials''" "''r''"]
  by simp

section \<open>Whether an account exists does not show\<close>

text \<open>What the endpoints rely on: the engine answers a request for a challenge with one whether the account exists or not (goAuth makes one up),
  and the account lookup works.\<close>

definition lookup_works :: "'e user_lookup \<Rightarrow> string \<Rightarrow> 'e \<Rightarrow> bool" where
  "lookup_works users identifier s \<longleftrightarrow>
     (case fst (ul_GetByIdentifier users (NormalizeIdentifier identifier) s) of Inl e \<Rightarrow> err_is e ErrAuthUserNotFound | Inr row \<Rightarrow> True)"

text \<open>The message that is due: to the stored address of the account, when there is one and it is eligible.\<close>

definition due :: "'e user_lookup \<Rightarrow> (StoredUser \<Rightarrow> bool) \<Rightarrow> (string \<Rightarrow> job) \<Rightarrow> string \<Rightarrow> 'e \<Rightarrow> dispatcher \<Rightarrow> dispatcher" where
  "due users eligible message identifier s d =
     (case fst (ul_GetByIdentifier users (NormalizeIdentifier identifier) s) of
        Inl e \<Rightarrow> d
      | Inr row \<Rightarrow> if eligible row \<and> su_Email row \<noteq> [] then dispatch (message (su_Email row)) d else d)"

definition serving :: "'e service \<Rightarrow> 'e engine \<Rightarrow> 'e user_lookup \<Rightarrow> bool" where
  "serving s en users \<longleftrightarrow> sv_engine s = Some en \<and> sv_accounts s = newAccountRepository (Some users) \<and> sv_messenger s"

lemma deliver_due:
  assumes "serving s en users" and "lookup_works users identifier e"
    and "\<And>row. el row \<longleftrightarrow> eligible \<lparr>rc_Address = su_Email row, rc_PendingVerification = (su_Status row = ''pending_verification'')\<rparr>"
    and "\<And>to. send to = dispatch (message to)"
  shows "svc_deliver s identifier eligible send (e, d) =
    (Inr (), snd (ul_GetByIdentifier users (NormalizeIdentifier identifier) e), due users el message identifier e d)"
  using assms
  by (cases "ul_GetByIdentifier users (NormalizeIdentifier identifier) e")
    (auto simp: svc_deliver_def serving_def newAccountRepository_def FindRecipient_def lookup_works_def due_def split: sum.splits)

lemma Normalize_idem [simp]: "NormalizeIdentifier (NormalizeIdentifier x) = NormalizeIdentifier x"
  by (simp add: NormalizeIdentifier_def)

lemma reset_reply:
  assumes "serving s en users" and "en_RequestPasswordReset en (NormalizeIdentifier identifier) (requestContext r) e = (Inr challenge, e1)"
    and "lookup_works users identifier e1"
  shows "h_passwordResetRequest s r identifier (e, d) =
    (Inr accepted, snd (ul_GetByIdentifier users (NormalizeIdentifier identifier) e1),
     due users (\<lambda>row. True) (\<lambda>to. Reset to challenge) identifier e1 d)"
proof -
  have "svc_deliver s (NormalizeIdentifier identifier) (\<lambda>r. True) (\<lambda>to. Dispatcher_PasswordReset to challenge) (e1, d) =
    (Inr (), snd (ul_GetByIdentifier users (NormalizeIdentifier identifier) e1),
     due users (\<lambda>row. True) (\<lambda>to. Reset to challenge) identifier e1 d)"
    using deliver_due [OF assms(1), of "NormalizeIdentifier identifier" e1 "\<lambda>row. True" "\<lambda>r. True"] assms(3)
    by (simp add: lookup_works_def due_def Dispatcher_PasswordReset_def)
  then show ?thesis using assms(1,2)
    by (simp add: h_passwordResetRequest_def attempting_def svc_requestPasswordReset_def requireEngine_def serving_def Let_def call_def ret_def)
qed

lemma verification_sent:
  assumes "serving s en users" and "en_RequestEmailVerification en (NormalizeIdentifier identifier) c e = (Inr challenge, e1)"
    and "lookup_works users identifier e1"
  shows "svc_sendEmailVerification s c (NormalizeIdentifier identifier) en (e, d) =
    (Inr (), snd (ul_GetByIdentifier users (NormalizeIdentifier identifier) e1),
     due users (\<lambda>row. su_Status row = ''pending_verification'') (\<lambda>to. Verify to challenge) identifier e1 d)"
proof -
  have "svc_deliver s (NormalizeIdentifier identifier) rc_PendingVerification (\<lambda>to. Dispatcher_EmailVerification to challenge) (e1, d) =
    (Inr (), snd (ul_GetByIdentifier users (NormalizeIdentifier identifier) e1),
     due users (\<lambda>row. su_Status row = ''pending_verification'') (\<lambda>to. Verify to challenge) identifier e1 d)"
    using deliver_due [OF assms(1), of "NormalizeIdentifier identifier" e1 "\<lambda>row. su_Status row = ''pending_verification''" rc_PendingVerification] assms(3)
    by (simp add: lookup_works_def due_def Dispatcher_EmailVerification_def)
  then show ?thesis using assms(2) by (simp add: svc_sendEmailVerification_def call_def)
qed

lemma register_reply:
  assumes "serving s en users" and "\<not> ft_AutoLogin (sv_features s)"
    and "en_CreateAccount en (NormalizeIdentifier (lq_Identifier q)) (lq_Password q) (lq_RememberMe q) (requestContext r) e = (res, e1)"
    and "case res of Inl err \<Rightarrow> ErrAccountExists \<in> set (ge_is err) | Inr created \<Rightarrow> True"
    and "ft_EmailVerification (sv_features s) \<longrightarrow>
      (\<exists>challenge e2. en_RequestEmailVerification en (NormalizeIdentifier (lq_Identifier q)) (requestContext r) e1 = (Inr challenge, e2) \<and>
        lookup_works users (lq_Identifier q) e2)"
  shows "fst (h_registerAccount A s r q (e, d)) = Inr accepted"
proof -
  have after: "\<exists>st. after_account s (requestContext r) (NormalizeIdentifier (lq_Identifier q)) en created (e1, d) = (Inr ([], []), st)" for created
    using assms(2,5) verification_sent [OF assms(1), of "lq_Identifier q" "requestContext r" e1]
    by (auto simp: after_account_def split: option.splits)
  have "\<exists>st. svc_register s (requestContext r) (lq_Identifier q) (lq_Password q) (lq_RememberMe q) (e, d) = (Inr ([], []), st)"
    using assms(1,3,4) after by (auto simp: svc_register_def requireEngine_def serving_def Let_def split: sum.splits)
  then show ?thesis by (auto simp: h_registerAccount_def attempting_def accepted_def)
qed


text \<open>An engine that refuses everything but reset requests, over the account tables.\<close>

definition denied :: goauth_error where
  "denied = \<lparr>ge_is = [], ge_auth = None, ge_error = go_error.Plain ''denied''\<rparr>"

definition denying_engine :: "'e engine" where
  "denying_engine =
     \<lparr>en_LoginWithOptions = (\<lambda>_ _ _ _. Pair (Inl denied)), en_ConfirmLoginMFAWithType = (\<lambda>_ _ _ _. Pair (Inl denied)),
      en_Refresh = (\<lambda>_ _. Pair (Inl denied)), en_LogoutByAccessToken = (\<lambda>_ _. Pair (Inl denied)), en_LogoutAll = (\<lambda>_
      _. Pair (Inl denied)), en_ListActiveSessions = (\<lambda>_ _. Pair (Inl denied)), en_VerifyPassword = (\<lambda>_ _ _. Pair (Inl
      denied)), en_ChangePassword = (\<lambda>_ _ _ _. Pair (Inl denied)), en_CreateAccount = (\<lambda>_ _ _ _. Pair (Inl denied)),
      en_RequestPasswordReset = (\<lambda>_ _. Pair (Inl denied)), en_ConfirmPasswordReset = (\<lambda>_ _ _. Pair (Inl denied)),
      en_ConfirmPasswordResetWithMFA = (\<lambda>_ _ _ _ _. Pair (Inl denied)), en_RequestEmailVerification = (\<lambda>_ _. Pair (Inl
      denied)), en_ConfirmEmailVerification = (\<lambda>_ _. Pair (Inl denied)), en_ConfirmEmailVerificationCode = (\<lambda>_ _ _. Pair
      (Inl denied)), en_GenerateTOTPSetup = (\<lambda>_ _. Pair (Inl denied)), en_ConfirmTOTPSetup = (\<lambda>_ _ _. Pair (Inl denied)),
      en_GenerateBackupCodes = (\<lambda>_ _. Pair (Inl denied)), en_VerifyTOTP = (\<lambda>_ _ _. Pair (Inl denied)), en_DisableTOTP =
      (\<lambda>_ _. Pair (Inl denied)), en_RegenerateBackupCodes = (\<lambda>_ _ _. Pair (Inl denied)), en_BeginWebAuthnRegistration =
      (\<lambda>_ _. Pair (Inl denied)), en_FinishWebAuthnRegistration = (\<lambda>_ _ _ _. Pair (Inl denied)), en_ListWebAuthnCredentials =
      (\<lambda>_ _. Pair (Inl denied)), en_RemoveWebAuthnCredential = (\<lambda>_ _ _. Pair (Inl denied))\<rparr>"

definition sample_engine :: "'e engine" where
  "sample_engine = denying_engine\<lparr>en_RequestPasswordReset := \<lambda>ident c. Pair (Inr ''challenge'')\<rparr>"

definition sample_lookup :: "auth_db user_lookup" where
  "sample_lookup = \<lparr>ul_GetByIdentifier = GetByIdentifier sample_pg, ul_GetByID = GetByID sample_pg, ul_error = (\<lambda>e. go_error.Plain ''store'')\<rparr>"

definition sample_service :: "auth_db service" where
  "sample_service = newService (Some sample_engine) (newAccountRepository (Some sample_lookup)) True (no_features\<lparr>ft_PasswordReset := True\<rparr>)"

section \<open>A second factor changes only after the password was checked\<close>

text \<open>The engine with a record of what it did: a password or a code that it accepted, a factor that it was asked to add or remove, and
  a second factor that it was asked to switch off, with the user.\<close>

datatype event = PasswordVerified string | CodeVerified string | FactorChanged string | FactorDisabled string

definition noting :: "(bool \<Rightarrow> event list) \<Rightarrow> ('e \<Rightarrow> (goauth_error + 'a) \<times> 'e) \<Rightarrow> 'e \<times> event list \<Rightarrow> (goauth_error + 'a) \<times> 'e \<times> event list" where
  "noting evs f st = (case f (fst st) of (res, e) \<Rightarrow> (res, e, snd st @ evs (\<not> isl res)))"

definition traced :: "'e engine \<Rightarrow> ('e \<times> event list) engine" where
  "traced en =
     \<lparr>en_LoginWithOptions = (\<lambda>a b x c. noting (\<lambda>ok. []) (en_LoginWithOptions en a b x c)), en_ConfirmLoginMFAWithType =
      (\<lambda>a b x c. noting (\<lambda>ok. []) (en_ConfirmLoginMFAWithType en a b x c)), en_Refresh = (\<lambda>a c. noting (\<lambda>ok.
      []) (en_Refresh en a c)), en_LogoutByAccessToken = (\<lambda>a c. noting (\<lambda>ok. []) (en_LogoutByAccessToken en a c)),
      en_LogoutAll = (\<lambda>a c. noting (\<lambda>ok. []) (en_LogoutAll en a c)), en_ListActiveSessions = (\<lambda>a c. noting
      (\<lambda>ok. []) (en_ListActiveSessions en a c)), en_VerifyPassword = (\<lambda>a b c. noting (\<lambda>ok. if ok then
      [PasswordVerified a] else []) (en_VerifyPassword en a b c)), en_ChangePassword = (\<lambda>a b x c. noting (\<lambda>ok. [])
      (en_ChangePassword en a b x c)), en_CreateAccount = (\<lambda>a b x c. noting (\<lambda>ok. []) (en_CreateAccount en a b x c)),
      en_RequestPasswordReset = (\<lambda>a c. noting (\<lambda>ok. []) (en_RequestPasswordReset en a c)), en_ConfirmPasswordReset =
      (\<lambda>a b c. noting (\<lambda>ok. []) (en_ConfirmPasswordReset en a b c)), en_ConfirmPasswordResetWithMFA = (\<lambda>a b x y c.
      noting (\<lambda>ok. []) (en_ConfirmPasswordResetWithMFA en a b x y c)), en_RequestEmailVerification = (\<lambda>a c. noting
      (\<lambda>ok. []) (en_RequestEmailVerification en a c)), en_ConfirmEmailVerification = (\<lambda>a c. noting (\<lambda>ok. [])
      (en_ConfirmEmailVerification en a c)), en_ConfirmEmailVerificationCode = (\<lambda>a b c. noting (\<lambda>ok. [])
      (en_ConfirmEmailVerificationCode en a b c)), en_GenerateTOTPSetup = (\<lambda>a c. noting (\<lambda>ok. [FactorChanged a])
      (en_GenerateTOTPSetup en a c)), en_ConfirmTOTPSetup = (\<lambda>a b c. noting (\<lambda>ok. []) (en_ConfirmTOTPSetup en a b c)),
      en_GenerateBackupCodes = (\<lambda>a c. noting (\<lambda>ok. []) (en_GenerateBackupCodes en a c)), en_VerifyTOTP = (\<lambda>a b c.
      noting (\<lambda>ok. if ok then [CodeVerified a] else []) (en_VerifyTOTP en a b c)), en_DisableTOTP = (\<lambda>a c. noting
      (\<lambda>ok. [FactorDisabled a]) (en_DisableTOTP en a c)), en_RegenerateBackupCodes = (\<lambda>a b c. noting (\<lambda>ok. [])
      (en_RegenerateBackupCodes en a b c)), en_BeginWebAuthnRegistration = (\<lambda>a c. noting (\<lambda>ok. [FactorChanged a])
      (en_BeginWebAuthnRegistration en a c)), en_FinishWebAuthnRegistration = (\<lambda>a b x c. noting (\<lambda>ok. [])
      (en_FinishWebAuthnRegistration en a b x c)), en_ListWebAuthnCredentials = (\<lambda>a c. noting (\<lambda>ok. [])
      (en_ListWebAuthnCredentials en a c)), en_RemoveWebAuthnCredential = (\<lambda>a b c. noting (\<lambda>ok. [FactorChanged a])
      (en_RemoveWebAuthnCredential en a b c))\<rparr>"

definition traced_lookup :: "'e user_lookup \<Rightarrow> ('e \<times> event list) user_lookup" where
  "traced_lookup u =
     \<lparr>ul_GetByIdentifier = (\<lambda>x st. case ul_GetByIdentifier u x (fst st) of (res, e) \<Rightarrow> (res, e, snd st)),
      ul_GetByID = (\<lambda>x st. case ul_GetByID u x (fst st) of (res, e) \<Rightarrow> (res, e, snd st)), ul_error = ul_error u\<rparr>"

text \<open>A call of an endpoint, with its decoded body.\<close>

datatype auth_call =
    CLogin loginRequest | CConfirmMFA mfaConfirmRequest | CRefresh string | CLogout string | CLogoutAll | CWhoami | CSessions
  | CChangePassword passwordChangeRequest | CRegister registerRequest | CResetRequest string | CResetConfirm passwordResetConfirmRequest
  | CVerifyRequest string | CVerifyConfirm emailVerifyConfirmRequest | CTotpSetup string | CTotpConfirm string | CTotpDisable string
  | CBackupCodes string | CWebAuthnBegin string | CWebAuthnFinish webAuthnRegisterFinishRequest | CWebAuthnList
  | CWebAuthnRemove webAuthnRemoveCredentialRequest

fun serve :: "authlib \<Rightarrow> 'e service \<Rightarrow> request \<Rightarrow> auth_call \<Rightarrow> ('e, auth_reply) service_op" where
  "serve A s r (CLogin q) = h_login A s r q"
| "serve A s r (CConfirmMFA q) = h_confirmMFA A s r q"
| "serve A s r (CRefresh q) = h_refresh A s r q"
| "serve A s r (CLogout q) = h_logout s r q"
| "serve A s r CLogoutAll = h_logoutAll s r"
| "serve A s r CWhoami = h_whoami r"
| "serve A s r CSessions = h_sessions A s r"
| "serve A s r (CChangePassword q) = h_changePassword s r q"
| "serve A s r (CRegister q) = h_registerAccount A s r q"
| "serve A s r (CResetRequest q) = h_passwordResetRequest s r q"
| "serve A s r (CResetConfirm q) = h_passwordResetConfirm s r q"
| "serve A s r (CVerifyRequest q) = h_emailVerifyRequest s r q"
| "serve A s r (CVerifyConfirm q) = h_emailVerifyConfirm s r q"
| "serve A s r (CTotpSetup q) = h_totpSetup s r q"
| "serve A s r (CTotpConfirm q) = h_totpConfirm s r q"
| "serve A s r (CTotpDisable q) = h_totpDisable s r q"
| "serve A s r (CBackupCodes q) = h_backupCodesRegenerate s r q"
| "serve A s r (CWebAuthnBegin q) = h_webAuthnRegisterBegin s r q"
| "serve A s r (CWebAuthnFinish q) = h_webAuthnRegisterFinish A s r q"
| "serve A s r CWebAuthnList = h_webAuthnListCredentials A s r"
| "serve A s r (CWebAuthnRemove q) = h_webAuthnRemoveCredential A s r q"

fun serve_all :: "authlib \<Rightarrow> 'e service \<Rightarrow> (request \<times> auth_call) list \<Rightarrow> 'e \<times> dispatcher \<Rightarrow> 'e \<times> dispatcher" where
  "serve_all A s [] st = st"
| "serve_all A s ((r, c) # rcs) st = serve_all A s rcs (snd (serve A s r c st))"

text \<open>Every change of a factor directly follows an accepted password of the same user, every switching off an accepted code.\<close>

fun guarded :: "event list \<Rightarrow> bool" where
  "guarded [] \<longleftrightarrow> True"
| "guarded (PasswordVerified u # FactorChanged v # evs) \<longleftrightarrow> u = v \<and> guarded evs"
| "guarded (CodeVerified u # FactorDisabled v # evs) \<longleftrightarrow> u = v \<and> guarded evs"
| "guarded (FactorChanged u # evs) \<longleftrightarrow> False"
| "guarded (FactorDisabled u # evs) \<longleftrightarrow> False"
| "guarded (ev # evs) \<longleftrightarrow> guarded evs"

lemma guarded_verified: "guarded ys \<Longrightarrow> guarded (PasswordVerified v # ys)" "guarded ys \<Longrightarrow> guarded (CodeVerified v # ys)"
  by (cases ys rule: guarded.cases; simp)+

lemma guarded_append: "guarded xs \<Longrightarrow> guarded ys \<Longrightarrow> guarded (xs @ ys)"
  by (induction xs rule: guarded.induct) (auto intro: guarded_verified)

text \<open>An operation adds events; one that adds none; one that adds at most a change of a factor of \<open>u\<close>.\<close>

abbreviation record_of :: "('e \<times> event list) \<times> dispatcher \<Rightarrow> event list" where
  "record_of st \<equiv> snd (fst st)"

definition adds :: "event list set \<Rightarrow> ('e \<times> event list, 'a) service_op \<Rightarrow> bool" where
  "adds S f \<longleftrightarrow> (\<forall>st. \<exists>evs \<in> S. record_of (snd (f st)) = record_of st @ evs)"

abbreviation silent :: "('e \<times> event list, 'a) service_op \<Rightarrow> bool" where
  "silent \<equiv> adds {[]}"

definition traced_service :: "'e engine option \<Rightarrow> 'e user_lookup option \<Rightarrow> bool \<Rightarrow> features \<Rightarrow> ('e \<times> event list) service" where
  "traced_service en users m f = newService (map_option traced en) (newAccountRepository (map_option traced_lookup users)) m f"

lemma addsE: "adds S f \<Longrightarrow> \<exists>evs \<in> S. record_of (snd (f st)) = record_of st @ evs"
  unfolding adds_def by blast

lemma silentD: "silent f \<Longrightarrow> record_of (snd (f st)) = record_of st"
  using addsE [of "{[]}" f st] by simp

lemma adds_mono: "adds S f \<Longrightarrow> S \<subseteq> T \<Longrightarrow> adds T f"
  unfolding adds_def by blast

lemma adds_ret [silent_intros]: "silent (ret x)"
  by (simp add: adds_def ret_def)

lemma adds_error [silent_intros]: "silent (Pair (Inl e))"
  by (simp add: adds_def)

lemma adds_requireEngine:
  assumes "\<And>en'. en = Some en' \<Longrightarrow> adds S (k (traced en'))" and "[] \<in> S"
  shows "adds S (requireEngine (traced_service en users m f) k)"
  using assms by (cases en) (auto simp: adds_def requireEngine_def traced_service_def newService_def)

lemmas silent_requireEngine [silent_intros] = adds_requireEngine [where S = "{[]}", OF _ singletonI]

lemma adds_call:
  assumes "\<And>st. \<exists>evs \<in> S. snd (snd (g st)) = snd st @ evs" and "\<And>x. silent (k x)"
  shows "adds S (call g err k)"
  unfolding adds_def
proof
  fix st :: "('a \<times> event list) \<times> dispatcher"
  obtain res e where g: "g (fst st) = (res, e)" by (cases "g (fst st)")
  from assms(1) [of "fst st"] g show "\<exists>evs \<in> S. record_of (snd (call g err k st)) = record_of st @ evs"
    using silentD [OF assms(2)] by (cases res) (auto simp: call_def)
qed

lemma silent_call [silent_intros]: "(\<And>x. silent (k x)) \<Longrightarrow> silent (call (noting (\<lambda>ok. []) g) err k)"
  by (rule adds_call) (auto simp: noting_def split: prod.split)

lemma adds_attempting:
  assumes "adds S f" and "\<And>x. silent (k x)"
  shows "adds S (attempting f k)"
  unfolding adds_def
proof
  fix st
  obtain res st' where f: "f st = (res, st')" by (cases "f st")
  from assms(1) f obtain evs where "evs \<in> S" "record_of st' = record_of st @ evs" using addsE [of S f st] by auto
  then show "\<exists>evs \<in> S. record_of (snd (attempting f k st)) = record_of st @ evs"
    using f silentD [OF assms(2)] by (cases res) (auto simp: attempting_def)
qed

lemmas silent_attempting [silent_intros] = adds_attempting [where S = "{[]}"]

lemma adds_principalID:
  assumes "\<And>u. adds S (k u)" and "[] \<in> S"
  shows "adds S (principalID r k)"
  using assms by (auto simp: adds_def principalID_def split: prod.splits)

lemmas silent_principalID [silent_intros] = adds_principalID [where S = "{[]}", OF _ singletonI]

lemma silent_tokens_reply [silent_intros]: "silent (tokens_reply res)"
  by (auto simp: adds_def tokens_reply_def split: sum.splits)

lemma silent_deliver [silent_intros]: "silent (svc_deliver (traced_service en users m f) ident eligible send)"
  by (auto simp: adds_def svc_deliver_def traced_service_def newService_def newAccountRepository_def FindRecipient_def traced_lookup_def
    split: prod.splits sum.splits option.splits)

lemma traced_silent:
  "en_LoginWithOptions (traced en) a b x c = noting (\<lambda>ok. []) (en_LoginWithOptions en a b x c)"
  "en_ConfirmLoginMFAWithType (traced en) a b y c = noting (\<lambda>ok. []) (en_ConfirmLoginMFAWithType en a b y c)"
  "en_Refresh (traced en) a c = noting (\<lambda>ok. []) (en_Refresh en a c)"
  "en_LogoutByAccessToken (traced en) a c = noting (\<lambda>ok. []) (en_LogoutByAccessToken en a c)"
  "en_LogoutAll (traced en) a c = noting (\<lambda>ok. []) (en_LogoutAll en a c)"
  "en_ListActiveSessions (traced en) a c = noting (\<lambda>ok. []) (en_ListActiveSessions en a c)"
  "en_ChangePassword (traced en) a b y c = noting (\<lambda>ok. []) (en_ChangePassword en a b y c)"
  "en_CreateAccount (traced en) a b x c = noting (\<lambda>ok. []) (en_CreateAccount en a b x c)"
  "en_RequestPasswordReset (traced en) a c = noting (\<lambda>ok. []) (en_RequestPasswordReset en a c)"
  "en_ConfirmPasswordReset (traced en) a b c = noting (\<lambda>ok. []) (en_ConfirmPasswordReset en a b c)"
  "en_ConfirmPasswordResetWithMFA (traced en) a b y z c = noting (\<lambda>ok. []) (en_ConfirmPasswordResetWithMFA en a b y z c)"
  "en_RequestEmailVerification (traced en) a c = noting (\<lambda>ok. []) (en_RequestEmailVerification en a c)"
  "en_ConfirmEmailVerification (traced en) a c = noting (\<lambda>ok. []) (en_ConfirmEmailVerification en a c)"
  "en_ConfirmEmailVerificationCode (traced en) a b c = noting (\<lambda>ok. []) (en_ConfirmEmailVerificationCode en a b c)"
  "en_ConfirmTOTPSetup (traced en) a b c = noting (\<lambda>ok. []) (en_ConfirmTOTPSetup en a b c)"
  "en_GenerateBackupCodes (traced en) a c = noting (\<lambda>ok. []) (en_GenerateBackupCodes en a c)"
  "en_RegenerateBackupCodes (traced en) a b c = noting (\<lambda>ok. []) (en_RegenerateBackupCodes en a b c)"
  "en_FinishWebAuthnRegistration (traced en) a b y c = noting (\<lambda>ok. []) (en_FinishWebAuthnRegistration en a b y c)"
  "en_ListWebAuthnCredentials (traced en) a c = noting (\<lambda>ok. []) (en_ListWebAuthnCredentials en a c)"
  by (simp_all add: traced_def)

lemma traced_noted:
  "en_VerifyPassword (traced en) a b c = noting (\<lambda>ok. if ok then [PasswordVerified a] else []) (en_VerifyPassword en a b c)"
  "en_VerifyTOTP (traced en) a b c = noting (\<lambda>ok. if ok then [CodeVerified a] else []) (en_VerifyTOTP en a b c)"
  "en_GenerateTOTPSetup (traced en) a c = noting (\<lambda>ok. [FactorChanged a]) (en_GenerateTOTPSetup en a c)"
  "en_BeginWebAuthnRegistration (traced en) a c = noting (\<lambda>ok. [FactorChanged a]) (en_BeginWebAuthnRegistration en a c)"
  "en_RemoveWebAuthnCredential (traced en) a b c = noting (\<lambda>ok. [FactorChanged a]) (en_RemoveWebAuthnCredential en a b c)"
  "en_DisableTOTP (traced en) a c = noting (\<lambda>ok. [FactorDisabled a]) (en_DisableTOTP en a c)"
  by (simp_all add: traced_def)

lemma silent_if [silent_intros]: "silent f \<Longrightarrow> silent g \<Longrightarrow> silent (if b then f else g)"
  by simp

lemma noting_if: "(if b then noting evs f else noting evs g) = noting evs (if b then f else g)"
  by simp

text \<open>The endpoints that neither add nor remove a factor.\<close>

lemmas quiet_services = svc_login_def svc_confirmMFA_def svc_refresh_def svc_logout_def svc_logoutAll_def svc_listSessions_def svc_changePassword_def
  svc_requestPasswordReset_def svc_requestEmailVerification_def svc_sendEmailVerification_def svc_confirmPasswordReset_def
  svc_confirmEmailVerification_def svc_confirmTOTP_def svc_regenerateBackupCodes_def svc_finishWebAuthnRegistration_def svc_listWebAuthnCredentials_def

lemma silent_services [silent_intros]:
  fixes en users m f
  defines "s \<equiv> traced_service en users m f"
  shows "silent (svc_login s c a b x)" "silent (svc_confirmMFA s c a b y)" "silent (svc_refresh s c a)" "silent (svc_logout s c a)"
    "silent (svc_logoutAll s c a)" "silent (svc_listSessions s c a)" "silent (svc_changePassword s c a b y)" "silent (svc_requestPasswordReset s c a)"
    "silent (svc_requestEmailVerification s c a)" "silent (svc_confirmPasswordReset s c a b y z)" "silent (svc_confirmEmailVerification s c a b y)"
    "silent (svc_confirmTOTP s c a b)" "silent (svc_regenerateBackupCodes s c a b)" "silent (svc_finishWebAuthnRegistration s c a b y)"
    "silent (svc_listWebAuthnCredentials s c a)"
  unfolding s_def quiet_services Let_def traced_silent noting_if
  by (intro silent_intros | simp only: traced_silent noting_if)+

lemma silent_sendEmailVerification: "silent (svc_sendEmailVerification (traced_service en users m f) c a (traced en'))"
  unfolding quiet_services traced_silent by (intro silent_intros)

lemma silent_register [silent_intros]: "silent (svc_register (traced_service en users m f) c a b x)"
  unfolding adds_def
proof
  fix st :: "('a \<times> event list) \<times> dispatcher"
  have after: "record_of (snd (after_account (traced_service en users m f) c a (traced en') created st)) = record_of st" for a en' created st
    using silentD [OF silent_sendEmailVerification, of en users m f c a en' st]
    by (auto simp: after_account_def split: prod.splits sum.splits)
  then show "\<exists>evs\<in>{[]}. record_of (snd (svc_register (traced_service en users m f) c a b x st)) = record_of st @ evs"
    by (cases en) (auto simp: svc_register_def requireEngine_def traced_service_def newService_def Let_def traced_silent noting_def after
      split: prod.splits sum.splits)
qed

text \<open>An operation that may note a verification, followed by one that may note what it allows.\<close>

lemma adds_verified:
  assumes "\<And>st. \<exists>evs \<in> (if isl (fst (f st)) then {[]} else {[v]}). record_of (snd (f st)) = record_of st @ evs" and "\<And>x. adds {[], [w]} (k x)"
  shows "adds {[], [v], [v, w]} (attempting f k)"
  unfolding adds_def
proof
  fix st
  obtain res st' where f: "f st = (res, st')" by (cases "f st")
  show "\<exists>evs \<in> {[], [v], [v, w]}. record_of (snd (attempting f k st)) = record_of st @ evs"
    using assms(1) [of st] addsE [OF assms(2), of _ st'] f by (cases res) (fastforce simp: attempting_def)+
qed

lemma verifyPassword_notes:
  "\<exists>evs \<in> (if isl (fst (svc_verifyPassword (traced_service en users m f) c u p st)) then {[]} else {[PasswordVerified u]}).
     record_of (snd (svc_verifyPassword (traced_service en users m f) c u p st)) = record_of st @ evs"
  by (cases en) (auto simp: svc_verifyPassword_def requireEngine_def traced_service_def newService_def call_def ret_def traced_noted noting_def
    split: prod.splits sum.splits)

lemma adds_noted: "(\<And>x. silent (k x)) \<Longrightarrow> adds {[], [w]} (call (noting (\<lambda>ok. [w]) g) err k)"
  by (rule adds_call) (auto simp: noting_def split: prod.split)

lemma changes_services:
  "adds {[], [FactorChanged u]} (svc_beginWebAuthnRegistration (traced_service en users m f) c u)"
  "adds {[], [FactorChanged u]} (svc_removeWebAuthnCredential (traced_service en users m f) c u b)"
  unfolding svc_beginWebAuthnRegistration_def svc_removeWebAuthnCredential_def traced_noted
  by (rule adds_requireEngine; (simp only: traced_noted)?; (intro adds_noted silent_intros)?; simp)+

lemma changes_setupTOTP: "adds {[], [FactorChanged u]} (svc_setupTOTP (traced_service en users m f) c u)"
  unfolding adds_def
  by (cases en) (auto simp: svc_setupTOTP_def requireEngine_def traced_service_def newService_def newAccountRepository_def TOTPEnabled_def
    traced_lookup_def call_def ret_def traced_noted noting_def split: option.splits prod.splits sum.splits bool.splits)

lemma disables: "adds {[], [CodeVerified u], [CodeVerified u, FactorDisabled u]} (svc_disableTOTP (traced_service en users m f) c u code)"
  unfolding adds_def
  by (cases en) (auto simp: svc_disableTOTP_def requireEngine_def traced_service_def newService_def call_def ret_def traced_noted noting_def
    split: prod.splits sum.splits)

lemma silent_whoami: "silent (h_whoami r)"
  by (auto simp: adds_def h_whoami_def split: prod.splits bool.splits)

lemma silent_logout: "silent (h_logout (traced_service en users m f) r q)"
  unfolding adds_def h_logout_def Let_def
  using silentD [OF silent_attempting [OF silent_services(4) adds_ret]] by auto

lemma silent_registerAccount: "silent (h_registerAccount A (traced_service en users m f) r q)"
  unfolding h_registerAccount_def
  by (rule silent_attempting [OF silent_register]) (auto simp: adds_def split: prod.splits sum.splits)

lemma silent_guarded: "silent f \<Longrightarrow> adds {evs. guarded evs} f"
  by (erule adds_mono) simp

lemma step_up_guarded:
  assumes "\<And>u. adds {[], [FactorChanged u]} (k u)"
  shows "adds {evs. guarded evs} (principalID r (\<lambda>u. attempting (svc_verifyPassword (traced_service en users m f) c u p) (\<lambda>_. k u)))"
  by (rule adds_principalID) (auto intro: adds_mono [OF adds_verified [OF verifyPassword_notes assms]])

lemma serve_guarded: "adds {evs. guarded evs} (serve A (traced_service en users m f) r c)"
proof (cases c)
  case (CTotpSetup q)
  show ?thesis unfolding CTotpSetup serve.simps h_totpSetup_def
    by (intro step_up_guarded adds_attempting changes_setupTOTP) (auto intro: adds_ret split: prod.split)
next
  case (CWebAuthnBegin q)
  show ?thesis unfolding CWebAuthnBegin serve.simps h_webAuthnRegisterBegin_def
    by (intro step_up_guarded adds_attempting changes_services adds_ret)
next
  case (CWebAuthnRemove q)
  have "adds {evs. guarded evs} (h_webAuthnRemoveCredential A (traced_service en users m f) r q)"
  proof (cases "al_unbase64 A (vq_CredentialID q)")
    case None
    then show ?thesis unfolding h_webAuthnRemoveCredential_def
      by (intro adds_principalID) (auto intro!: silent_guarded simp: adds_def)
  next
    case (Some id)
    show ?thesis unfolding h_webAuthnRemoveCredential_def Some option.simps
      by (intro step_up_guarded adds_attempting changes_services adds_ret)
  qed
  then show ?thesis by (simp add: CWebAuthnRemove)
next
  case (CTotpDisable q)
  show ?thesis unfolding CTotpDisable serve.simps h_totpDisable_def
    by (intro adds_principalID adds_attempting adds_ret adds_mono [OF disables]) auto
qed (auto intro!: silent_guarded silent_whoami silent_logout silent_registerAccount silent_intros
  simp: h_login_def h_confirmMFA_def h_refresh_def h_logoutAll_def h_sessions_def h_changePassword_def h_passwordResetRequest_def h_passwordResetConfirm_def
    h_emailVerifyRequest_def h_emailVerifyConfirm_def h_totpConfirm_def h_backupCodesRegenerate_def h_webAuthnRegisterFinish_def
    h_webAuthnListCredentials_def split: prod.split)

text \<open>The record changes nothing else: erased, a run of the traced service is a run of the plain one.\<close>

definition erase :: "('e \<times> event list) \<times> dispatcher \<Rightarrow> 'e \<times> dispatcher" where
  "erase st = (fst (fst st), snd st)"

definition sim :: "('e \<times> event list, 'a) service_op \<Rightarrow> ('e, 'a) service_op \<Rightarrow> bool" where
  "sim f g \<longleftrightarrow> (\<forall>st. fst (f st) = fst (g (erase st)) \<and> erase (snd (f st)) = snd (g (erase st)))"

abbreviation plain_service :: "'e engine option \<Rightarrow> 'e user_lookup option \<Rightarrow> bool \<Rightarrow> features \<Rightarrow> 'e service" where
  "plain_service en users m f \<equiv> newService en (newAccountRepository users) m f"

lemma simD: "sim f g \<Longrightarrow> \<exists>res st' . f st = (res, st') \<and> g (erase st) = (res, erase st')"
  unfolding sim_def by (metis prod.collapse)

lemma sim_parts: "sim f g \<Longrightarrow> fst (f st) = fst (g (erase st))" "sim f g \<Longrightarrow> erase (snd (f st)) = snd (g (erase st))"
  unfolding sim_def by blast+

lemma simI: "(\<And>e tr d. fst (f ((e, tr), d)) = fst (g (e, d)) \<and> erase (snd (f ((e, tr), d))) = snd (g (e, d))) \<Longrightarrow> sim f g"
  by (simp add: sim_def erase_def)

named_theorems sim_intros \<open>operations on the traced and the plain service\<close>

lemma sim_ret [sim_intros]: "sim (ret x) (ret x)"
  by (simp add: sim_def ret_def)

lemma sim_requireEngine [sim_intros]:
  assumes "\<And>en'. en = Some en' \<Longrightarrow> sim (k (traced en')) (k' en')"
  shows "sim (requireEngine (traced_service en users m f) k) (requireEngine (plain_service en users m f) k')"
  using assms by (cases en) (auto simp: sim_def requireEngine_def traced_service_def newService_def)

lemma sim_call [sim_intros]:
  assumes "\<And>x. sim (k x) (k' x)"
  shows "sim (call (noting evs g) err k) (call g err k')"
proof (rule simI)
  fix e tr d
  obtain res e' where g: "g e = (res, e')" by (cases "g e")
  show "fst (call (noting evs g) err k ((e, tr), d)) = fst (call g err k' (e, d)) \<and>
      erase (snd (call (noting evs g) err k ((e, tr), d))) = snd (call g err k' (e, d))"
  proof (cases res)
    case (Inl err')
    then show ?thesis using g by (simp add: call_def noting_def erase_def)
  next
    case (Inr x)
    then show ?thesis using g simD [OF assms, of x "((e', tr @ evs True), d)"] by (auto simp: call_def noting_def erase_def)
  qed
qed

lemma sim_attempting [sim_intros]:
  assumes "sim f g" and "\<And>x. sim (k x) (k' x)"
  shows "sim (attempting f k) (attempting g k')"
proof (rule simI)
  fix e tr d
  obtain res st' where f: "f ((e, tr), d) = (res, st')" "g (e, d) = (res, erase st')"
    using simD [OF assms(1), of "((e, tr), d)"] by (auto simp: erase_def)
  show "fst (attempting f k ((e, tr), d)) = fst (attempting g k' (e, d)) \<and> erase (snd (attempting f k ((e, tr), d))) = snd (attempting g k' (e, d))"
    using f by (cases res) (simp_all add: attempting_def sim_parts [OF assms(2)])
qed

lemma sim_principalID [sim_intros]: "(\<And>u. sim (k u) (k' u)) \<Longrightarrow> sim (principalID r k) (principalID r k')"
  by (auto simp: sim_def principalID_def split: prod.splits)

lemma sim_tokens_reply [sim_intros]: "sim (tokens_reply res) (tokens_reply res)"
  by (auto simp: sim_def tokens_reply_def split: sum.splits)

lemma sim_deliver [sim_intros]:
  "sim (svc_deliver (traced_service en users m f) ident eligible send) (svc_deliver (plain_service en users m f) ident eligible send)"
  by (auto simp: sim_def svc_deliver_def traced_service_def newService_def newAccountRepository_def FindRecipient_def traced_lookup_def erase_def
    split: prod.splits sum.splits option.splits)

lemma sim_services [sim_intros]:
  fixes en users m f
  defines "s \<equiv> traced_service en users m f" and "p \<equiv> plain_service en users m f"
  shows "sim (svc_login s c a b x) (svc_login p c a b x)" "sim (svc_confirmMFA s c a b y) (svc_confirmMFA p c a b y)"
    "sim (svc_refresh s c a) (svc_refresh p c a)" "sim (svc_logout s c a) (svc_logout p c a)" "sim (svc_logoutAll s c a) (svc_logoutAll p c a)"
    "sim (svc_listSessions s c a) (svc_listSessions p c a)" "sim (svc_changePassword s c a b y) (svc_changePassword p c a b y)"
    "sim (svc_requestPasswordReset s c a) (svc_requestPasswordReset p c a)"
    "sim (svc_requestEmailVerification s c a) (svc_requestEmailVerification p c a)"
    "sim (svc_confirmPasswordReset s c a b y z) (svc_confirmPasswordReset p c a b y z)"
    "sim (svc_confirmEmailVerification s c a b y) (svc_confirmEmailVerification p c a b y)" "sim (svc_confirmTOTP s c a b) (svc_confirmTOTP p c a b)"
    "sim (svc_regenerateBackupCodes s c a b) (svc_regenerateBackupCodes p c a b)"
    "sim (svc_finishWebAuthnRegistration s c a b y) (svc_finishWebAuthnRegistration p c a b y)"
    "sim (svc_listWebAuthnCredentials s c a) (svc_listWebAuthnCredentials p c a)"
    "sim (svc_verifyPassword s c a b) (svc_verifyPassword p c a b)" "sim (svc_disableTOTP s c a b) (svc_disableTOTP p c a b)"
    "sim (svc_beginWebAuthnRegistration s c a) (svc_beginWebAuthnRegistration p c a)"
    "sim (svc_removeWebAuthnCredential s c a b) (svc_removeWebAuthnCredential p c a b)"
  unfolding s_def p_def quiet_services svc_verifyPassword_def svc_disableTOTP_def svc_beginWebAuthnRegistration_def svc_removeWebAuthnCredential_def Let_def
  by (intro sim_intros | simp only: traced_silent traced_noted noting_if)+

lemma sim_setupTOTP [sim_intros]: "sim (svc_setupTOTP (traced_service en users m f) c u) (svc_setupTOTP (plain_service en users m f) c u)"
  by (cases en) (auto simp: sim_def svc_setupTOTP_def requireEngine_def traced_service_def newService_def newAccountRepository_def TOTPEnabled_def
    traced_lookup_def call_def ret_def traced_noted noting_def erase_def split: option.splits prod.splits sum.splits bool.splits)

lemma sim_sendEmailVerification:
  "sim (svc_sendEmailVerification (traced_service en users m f) c a (traced en')) (svc_sendEmailVerification (plain_service en users m f) c a en')"
  unfolding quiet_services traced_silent by (intro sim_intros)

lemma sim_after_account:
  "sim (after_account (traced_service en users m f) c a (traced en') created) (after_account (plain_service en users m f) c a en' created)"
proof (rule simI)
  fix e tr d
  obtain res st' where "svc_sendEmailVerification (traced_service en users m f) c a (traced en') ((e, tr), d) = (res, st')"
      "svc_sendEmailVerification (plain_service en users m f) c a en' (e, d) = (res, erase st')"
    using simD [OF sim_sendEmailVerification, of en users m f c a en' "((e, tr), d)"] by (auto simp: erase_def)
  moreover have "sv_features (traced_service en users m f) = f" "sv_features (plain_service en users m f) = f"
    by (simp_all add: traced_service_def newService_def)
  ultimately show "fst (after_account (traced_service en users m f) c a (traced en') created ((e, tr), d)) =
      fst (after_account (plain_service en users m f) c a en' created (e, d)) \<and>
      erase (snd (after_account (traced_service en users m f) c a (traced en') created ((e, tr), d))) =
      snd (after_account (plain_service en users m f) c a en' created (e, d))"
    unfolding after_account_def by (cases res; cases created) (simp_all add: erase_def [of "((e, tr), d)"])
qed

lemma sim_register [sim_intros]: "sim (svc_register (traced_service en users m f) c a b x) (svc_register (plain_service en users m f) c a b x)"
proof -
  have "fst (after_account (traced_service en users m f) c a (traced en') created ((e, tr), d)) =
      fst (after_account (plain_service en users m f) c a en' created (e, d))"
    and "erase (snd (after_account (traced_service en users m f) c a (traced en') created ((e, tr), d))) =
      snd (after_account (plain_service en users m f) c a en' created (e, d))" for a en' created e tr d
    using sim_after_account [of en users m f c a en' created] unfolding sim_def by (simp_all add: erase_def)
  then show ?thesis
    unfolding svc_register_def
    by (intro sim_requireEngine) (auto simp: sim_def traced_silent noting_def erase_def Let_def split: prod.splits sum.splits)
qed

lemma sim_misc [sim_intros]:
  "sim (h_whoami r) (h_whoami r)" "sim (Pair (Inl e)) (Pair (Inl e))"
  "sim (h_logout (traced_service en users m f) r q) (h_logout (plain_service en users m f) r q)"
proof -
  have "sim (attempting (svc_logout (traced_service en users m f) c tok) (\<lambda>_. ret v)) (attempting (svc_logout (plain_service en users m f) c tok) (\<lambda>_. ret v))"
    for c tok and v :: auth_reply by (intro sim_intros)
  from sim_parts [OF this] show "sim (h_logout (traced_service en users m f) r q) (h_logout (plain_service en users m f) r q)"
    unfolding sim_def h_logout_def Let_def by simp
qed (auto simp: sim_def h_whoami_def split: prod.splits bool.splits)

lemma sim_registerAccount [sim_intros]:
  "sim (h_registerAccount A (traced_service en users m f) r q) (h_registerAccount A (plain_service en users m f) r q)"
  unfolding h_registerAccount_def
  by (rule sim_attempting [OF sim_register]) (auto simp: sim_def split: prod.splits sum.splits)

lemma sim_serve: "sim (serve A (traced_service en users m f) r c) (serve A (plain_service en users m f) r c)"
proof (cases c)
  case (CWebAuthnRemove q)
  show ?thesis unfolding CWebAuthnRemove serve.simps h_webAuthnRemoveCredential_def
    by (cases "al_unbase64 A (vq_CredentialID q)") (simp_all, intro sim_intros, intro sim_intros)
qed (auto intro!: sim_intros
  simp: h_login_def h_confirmMFA_def h_refresh_def h_logoutAll_def h_sessions_def h_changePassword_def h_passwordResetRequest_def h_passwordResetConfirm_def
    h_emailVerifyRequest_def h_emailVerifyConfirm_def h_totpSetup_def h_totpConfirm_def h_totpDisable_def h_backupCodesRegenerate_def
    h_webAuthnRegisterBegin_def h_webAuthnRegisterFinish_def h_webAuthnListCredentials_def split: prod.split)

text \<open>
  C27: No sequence of requests to the module makes the engine start or remove a second factor of a user unless it accepted that user's password
  right before, in the same request, nor switch one off unless it accepted a code of that user right before. The engine, the account lookup and the
  requests are arbitrary, so a stolen access token alone changes no factor. The record in which the theorem reads this is only a record: without it the run is the
  run of the plain service.\<close>

theorem second_factor_step_up:
  assumes "guarded (record_of st)"
  shows "guarded (record_of (serve_all A (traced_service en users m f) rcs st)) \<and>
    erase (serve_all A (traced_service en users m f) rcs st) = serve_all A (newService en (newAccountRepository users) m f) rcs (erase st)"
  using assms
proof (induction rcs arbitrary: st)
  case (Cons rc rcs)
  obtain r c where rc: "rc = (r, c)" by (cases rc)
  obtain evs where "guarded evs" "record_of (snd (serve A (traced_service en users m f) r c st)) = record_of st @ evs"
    using addsE [OF serve_guarded, of A en users m f r c st] by auto
  moreover have "erase (snd (serve A (traced_service en users m f) r c st)) = snd (serve A (plain_service en users m f) r c (erase st))"
    using sim_serve [of A en users m f r c] unfolding sim_def by blast
  ultimately show ?case using Cons.IH [of "snd (serve A (traced_service en users m f) r c st)"] Cons.prems by (simp add: rc guarded_append)
qed simp

definition sample_authlib :: authlib where
  "sample_authlib = \<lparr>al_exp = (\<lambda>tok. Inr (Some (ExpInt 1))), al_rfc3339 = (\<lambda>n. ''now''), al_base64 = (\<lambda>s. s), al_unbase64 = Some\<rparr>"

theorem second_factor_step_up_witness:
  "guarded (record_of (serve_all sample_authlib (traced_service (Some denying_engine) (Some sample_lookup) True no_features) [(blank_request, CTotpSetup ''p'')]
     ((sample_db, []), NewDispatcher 1)))"
proof -
  have "guarded (record_of ((sample_db, []), NewDispatcher 1))" by simp
  from second_factor_step_up [OF this] show ?thesis by blast
qed

lemma sample_serving: "serving sample_service sample_engine sample_lookup"
  by (simp add: serving_def sample_service_def newService_def)


end
