(* ===== verification/Auth_Routes.thy ===== *)
theory Auth_Routes
  imports Auth_Flows
begin

text \<open>
  The routes of the authentication module: registration succeeds, registers exactly the routes of the enabled features, and puts every
  account route behind \<open>AuthRequired\<close>.
\<close>

section \<open>Registration\<close>

text \<open>Method and path of the routes that need no token, and of all routes in the order of registration.\<close>

definition public_routes :: "features \<Rightarrow> (string \<times> string) list" where
  "public_routes f =
     [(''POST'', api ''login''), (''POST'', api ''mfa/confirm''), (''POST'', api ''refresh''), (''POST'', api ''logout'')] @
     (if ft_Registration f then [(''POST'', api ''register'')] else []) @
     (if ft_PasswordReset f then [(''POST'', api ''password/reset/request''), (''POST'', api ''password/reset/confirm'')] else []) @
     (if ft_EmailVerification f then [(''POST'', api ''email/verify/request''), (''POST'', api ''email/verify/confirm'')] else [])"

definition route_table :: "features \<Rightarrow> (string \<times> string) list" where
  "route_table f =
     take 4 (public_routes f) @
     [(''POST'', api ''logout/all''), (''GET'', api ''sessions''), (''GET'', api ''whoami''), (''POST'', api ''password/change'')] @
     drop 4 (public_routes f) @
     (if ft_TOTP f then [(''POST'', api ''mfa/totp/setup''), (''POST'', api ''mfa/totp/confirm''), (''POST'', api ''mfa/totp/disable''),
        (''POST'', api ''mfa/backup-codes/regenerate'')] else []) @
     [(''POST'', api ''webauthn/register/begin''), (''POST'', api ''webauthn/register/finish''), (''GET'', api ''webauthn/credentials''),
      (''POST'', api ''webauthn/credentials/remove'')]"

definition route_key :: "'s route \<Rightarrow> string \<times> string" where
  "route_key rt = (rt_method rt, rt_pattern rt)"

definition call_key :: "'s handle_call \<Rightarrow> string \<times> string" where
  "call_key c = (hc_method c, hc_pattern c)"

text \<open>A call that the validator accepts, and what it registers.\<close>

definition acceptable :: "'s handle_call \<Rightarrow> bool" where
  "acceptable c \<longleftrightarrow> (\<forall>t. \<exists>ps t'. hc_policies c t = Inr (ps, t') \<and> ValidateRouteWith t' [] (hc_method c) (hc_pattern c) ps = None)"

definition registers :: "'s handle_call \<Rightarrow> 's route \<Rightarrow> bool" where
  "registers c rt \<longleftrightarrow> route_key rt = call_key c \<and>
     (\<exists>t ps t'. hc_policies c t = Inr (ps, t') \<and> rt_handler rt = Chain (hc_handler c) (map (map_option behaviour) ps))"

lemma handle_all_acceptable:
  assumes "list_all acceptable cs" and "mx_rules m = []"
  shows "\<exists>m' t' new. handle_all cs (m, t) = Inr (m', t') \<and> mx_routes m' = mx_routes m @ new \<and> list_all2 registers cs new"
  using assms
proof (induction cs arbitrary: m t)
  case (Cons c cs)
  then have "acceptable c" by simp
  then obtain ps t' where c: "hc_policies c t = Inr (ps, t')" "ValidateRouteWith t' [] (hc_method c) (hc_pattern c) ps = None"
    unfolding acceptable_def by blast
  define rt where "rt = \<lparr>rt_method = hc_method c, rt_pattern = hc_pattern c, rt_handler = Chain (hc_handler c) (map (map_option behaviour) ps)\<rparr>"
  define m1 where "m1 = m\<lparr>mx_routes := mx_routes m @ [rt]\<rparr>"
  have h: "handle c (m, t) = Inr (m1, t')"
    using c Cons.prems(2) by (simp add: handle_def Mux_Handle_def MustValidateRouteWith_def m1_def rt_def)
  obtain m' t'' new where "handle_all cs (m1, t') = Inr (m', t'')" "mx_routes m' = mx_routes m1 @ new" "list_all2 registers cs new"
    using Cons.IH [of m1 t'] Cons.prems by (auto simp: m1_def)
  moreover have "registers c rt" using c(1) by (auto simp: registers_def rt_def route_key_def call_key_def)
  ultimately show ?case using h by (auto simp: m1_def intro!: exI [of _ "rt # new"])
qed simp

lemma registers_keys: "list_all2 registers cs new \<Longrightarrow> map route_key new = map call_key cs"
  by (induction rule: list_all2_induct) (auto simp: registers_def)

section \<open>The policies\<close>

lemma trim_api: "visible path \<Longrightarrow> trim_space (api path) = api path"
proof -
  assume "visible path"
  moreover have "visible ''/api/v1/auth/''" by code_simp
  ultimately show ?thesis unfolding api_def by (intro trim_space_visible) (simp only: visible_append)
qed

lemma api_nonempty [simp]: "api path \<noteq> []"
  by (simp add: api_def)

lemma auth_built:
  "AuthRequired enc G exts engine mode t =
     (Some \<lparr>code_ptr = ptr_AuthRequired, behaviour = authRequiredWithEngine enc G exts engine mode\<rparr>, t(ptr_AuthRequired \<mapsto> auth_meta))"
proof -
  have "trim_space ''AuthRequired'' \<noteq> []" by code_simp
  then show ?thesis by (simp add: AuthRequired_def built_def annotatePolicy_def policyPointer_def meta_of_def)
qed

definition limit_meta :: Metadata where
  "limit_meta = meta_of PolicyTypeRateLimit ''RateLimit''"

lemma limit_built:
  assumes "Rule_Validate (rule\<lparr>rule_Keyer := Some keyer\<rparr>) = None"
  shows "RateLimitWithKeyer enc sha (Some allow) name rule (Some keyer) t =
     Inr (Some \<lparr>code_ptr = ptr_RateLimit, behaviour = RateLimit_handler enc sha allow (rule\<lparr>rule_Keyer := Some keyer\<rparr>)\<rparr>, t(ptr_RateLimit \<mapsto> limit_meta))"
proof -
  have "trim_space ''RateLimit'' \<noteq> []" by code_simp
  then show ?thesis using assms
    by (simp add: RateLimitWithKeyer_def built_def annotatePolicy_def policyPointer_def limit_meta_def meta_of_def Let_def)
qed

lemma chains_accepted:
  assumes "visible path" and "verb \<in> {''POST'', ''GET''}"
  shows "ValidateRouteWith t [] verb (api path) ([] :: 's middleware policy option list) = None"
    and "t ptr_AuthRequired = Some auth_meta \<Longrightarrow> ValidateRouteWith t [] verb (api path) [Some \<lparr>code_ptr = ptr_AuthRequired, behaviour = b\<rparr>] = None"
    and "t ptr_AuthRequired = Some auth_meta \<Longrightarrow> t ptr_RateLimit = Some limit_meta \<Longrightarrow>
      ValidateRouteWith t [] verb (api path) [Some \<lparr>code_ptr = ptr_AuthRequired, behaviour = b\<rparr>, Some \<lparr>code_ptr = ptr_RateLimit, behaviour = b'\<rparr>] = None"
proof -
  have verb: "trim_space verb = verb" "to_upper verb = verb" "verb \<noteq> []" using assms(2) by (auto; code_simp)+
  have one: "validateRouteRules v p [auth_meta] [] = None" and two: "validateRouteRules v p [auth_meta, limit_meta] [] = None" for v p
    unfolding validateRouteRules_None by (simp, code_simp)+
  note defs = ValidateRouteWith_def ValidateRouteMetadataWith_def DescribePolicies_def DescribePolicy_def policyPointer_def Let_def
  show "ValidateRouteWith t [] verb (api path) ([] :: 's middleware policy option list) = None"
    using verb trim_api [OF assms(1)] by (simp add: defs)
  show "ValidateRouteWith t [] verb (api path) [Some \<lparr>code_ptr = ptr_AuthRequired, behaviour = b\<rparr>] = None" if "t ptr_AuthRequired = Some auth_meta"
    using verb trim_api [OF assms(1)] that one by (simp add: defs)
  show "ValidateRouteWith t [] verb (api path) [Some \<lparr>code_ptr = ptr_AuthRequired, behaviour = b\<rparr>, Some \<lparr>code_ptr = ptr_RateLimit, behaviour = b'\<rparr>] = None"
    if "t ptr_AuthRequired = Some auth_meta" "t ptr_RateLimit = Some limit_meta"
    using verb trim_api [OF assms(1)] that two by (simp add: defs)
qed

lemma acceptable_public: "visible path \<Longrightarrow> acceptable (post path no_policies h)"
  by (auto simp: acceptable_def post_def no_policies_def intro!: chains_accepted(1))

lemma acceptable_auth: "visible path \<Longrightarrow> acceptable (post path (auth_policies E engine mode) h)"
  "visible path \<Longrightarrow> acceptable (get path (auth_policies E engine mode) h)"
  by (auto simp: acceptable_def post_def get_def auth_policies_def auth_built intro!: chains_accepted(2))

text \<open>The policies of an account route: those of \<open>auth_policies\<close> or, with a limiter and a valid rule, of \<open>limited_policies\<close>.\<close>

definition account_policies :: "'e route_env \<Rightarrow> nat option \<Rightarrow> Mode \<Rightarrow> ('e \<times> dispatcher) allow_op option \<Rightarrow> Rule \<Rightarrow> string
    \<Rightarrow> ('e \<times> dispatcher) policies" where
  "account_policies E engine mode allow rule name =
     (if allow \<noteq> None then limited_policies E engine mode allow name rule else auth_policies E engine mode)"

lemma limited_built:
  assumes "0 < rule_Limit rule" and "0 < rule_Window rule"
  shows "limited_policies E engine mode (Some allow) name rule t =
    Inr ([Some \<lparr>code_ptr = ptr_AuthRequired, behaviour = authRequiredWithEngine (re_enc E) (re_guard E) (re_exts E) engine mode\<rparr>,
          Some \<lparr>code_ptr = ptr_RateLimit,
            behaviour = RateLimit_handler (re_enc E) (re_sha E) allow (rule\<lparr>rule_Keyer := Some (KeyByUserOrTokenHash (re_sha E) 16)\<rparr>)\<rparr>],
         t(ptr_AuthRequired \<mapsto> auth_meta, ptr_RateLimit \<mapsto> limit_meta))"
  using assms by (simp add: limited_policies_def auth_built limit_built Rule_Validate_def)

lemma acceptable_account:
  assumes "visible path" and "0 < rule_Limit rule" and "0 < rule_Window rule"
  shows "acceptable (post path (account_policies E engine mode allow rule name) h)" "acceptable (get path (account_policies E engine mode allow rule name) h)"
proof -
  have "\<exists>ps t'. account_policies E engine mode allow rule name t = Inr (ps, t') \<and> ValidateRouteWith t' [] verb (api path) ps = None"
    if "verb \<in> {''POST'', ''GET''}" for t verb
    by (cases allow) (auto simp: account_policies_def auth_policies_def auth_built limited_built assms(2,3) intro!: chains_accepted(2,3) [OF assms(1) that])
  then show "acceptable (post path (account_policies E engine mode allow rule name) h)"
    "acceptable (get path (account_policies E engine mode allow rule name) h)"
    by (simp_all add: acceptable_def post_def get_def)
qed

section \<open>The guard\<close>

lemma push_svc: "svc (push l w) = svc w" "(push l w)\<lparr>svc := st\<rparr> = push l (w\<lparr>svc := st\<rparr>)"
  by (simp_all add: push_def)

lemma uniform_endpoint: "uniform (Adapter enc L noBody zero (endpoint encode h))"
  by (auto simp: uniform_def Adapter_def endpoint_def push_svc push_response_Error response_OK_def response_JSON_def push_writer Let_def
    split: sum.splits prod.splits auth_reply.splits)

lemma uniform_routes: "uniform (body_route E L v z h)" "uniform (text_route E name v' h')" "uniform (plain_route E h'')"
  by (simp_all add: body_route_def text_route_def plain_route_def uniform_endpoint)

text \<open>A call whose route runs its handler only for a token that the guard accepts.\<close>

definition guards :: "(Envelope \<Rightarrow> string) \<Rightarrow> 's guard \<Rightarrow> 's ext_table \<Rightarrow> nat option \<Rightarrow> Mode \<Rightarrow> 's handle_call \<Rightarrow> bool" where
  "guards enc G exts engine mode c \<longleftrightarrow>
     (\<forall>t ps t'. hc_policies c t = Inr (ps, t') \<longrightarrow>
        (\<exists>next. uniform next \<and> Chain (hc_handler c) (map (map_option behaviour) ps) = authRequiredWithEngine enc G exts engine mode next))"

lemma guards_rejects:
  assumes "guards enc G exts engine mode c" and "registers c rt" and "guard_contract G V hs body" and "checks_writer_free exts"
    and "V engine (route_mode mode) r w = (None, w1)"
  shows "rt_handler rt r w = Ret (response_Error enc unauthorized_error (ctx_request_id r) (fold (\<lambda>(k, v). SetHeader k v) hs w1))"
proof -
  obtain "next" where n: "uniform next" "rt_handler rt = authRequiredWithEngine enc G exts engine mode next"
    using assms(1,2) unfolding guards_def registers_def by metis
  show ?thesis unfolding n(2) auth_gate [OF assms(3,4) n(1)] by (simp add: gate_run_def dec_auth_def assms(5))
qed

definition limiter_writer_free :: "'s allow_op option \<Rightarrow> bool" where
  "limiter_writer_free allow \<longleftrightarrow> (\<forall>f req x w. allow = Some f \<longrightarrow> f req (push x w) = apsnd (push x) (f req w))"

lemma guards_auth:
  assumes "uniform h"
  shows "guards (re_enc E) (re_guard E) (re_exts E) engine mode (post path (auth_policies E engine mode) h)"
    "guards (re_enc E) (re_guard E) (re_exts E) engine mode (get path (auth_policies E engine mode) h)"
  using assms by (auto simp: guards_def post_def get_def auth_policies_def auth_built Chain_def)

lemma guards_account:
  assumes "uniform h" and "0 < rule_Limit rule" and "0 < rule_Window rule" and "limiter_writer_free allow"
  shows "guards (re_enc E) (re_guard E) (re_exts E) engine mode (post path (account_policies E engine mode allow rule name) h)"
    "guards (re_enc E) (re_guard E) (re_exts E) engine mode (get path (account_policies E engine mode allow rule name) h)"
proof -
  have "uniform (RateLimit_handler enc sha f rule' h)" if "allow = Some f" for enc sha f rule'
    unfolding gate_eqs using assms(4) that by (intro uniform_gate_run uniform_dec_limit assms(1)) (simp add: limiter_writer_free_def)
  then show "guards (re_enc E) (re_guard E) (re_exts E) engine mode (post path (account_policies E engine mode allow rule name) h)"
    "guards (re_enc E) (re_guard E) (re_exts E) engine mode (get path (account_policies E engine mode allow rule name) h)"
    using guards_auth [OF assms(1)] unfolding guards_def account_policies_def
    by (cases allow; fastforce simp: post_def get_def limited_built assms(2,3) Chain_def)+
qed

section \<open>The routes\<close>

lemma bound_module:
  fixes d :: "'e module_deps"
  defines "m \<equiv> BindDependencies (Some d)"
  shows "mo_runtime m = Some d" "mo_features m = auth_features (md_Auth d)" "0 < rule_Limit (mo_rateRule m)" "0 < rule_Window (mo_rateRule m)"
  by (simp_all add: m_def BindDependencies_def Let_def)

lemma all_visible:
  "list_all visible [''login'', ''mfa/confirm'', ''refresh'', ''logout'', ''logout/all'', ''sessions'', ''whoami'', ''password/change'', ''register'',
     ''password/reset/request'', ''password/reset/confirm'', ''email/verify/request'', ''email/verify/confirm'', ''mfa/totp/setup'', ''mfa/totp/confirm'',
     ''mfa/totp/disable'', ''mfa/backup-codes/regenerate'', ''webauthn/register/begin'', ''webauthn/register/finish'', ''webauthn/credentials'',
     ''webauthn/credentials/remove'']"
  by code_simp

lemma account_calls_eq:
  "account_calls E m =
     (let s = mo_svc m; engine = AuthEngine (mo_runtime m); mode = AuthMode (mo_runtime m) [];
          limited = account_policies E engine mode (Limiter (mo_runtime m)) (mo_rateRule m) in
      [post ''logout/all'' (auth_policies E engine mode) (plain_route E (h_logoutAll s)),
       get ''sessions'' (auth_policies E engine mode) (plain_route E (h_sessions (re_lib E) s)),
       get ''whoami'' (limited ''auth.whoami'') (plain_route E h_whoami),
       post ''password/change'' (limited ''auth.password.change'')
         (body_route E (re_change E) passwordChangeRequest_Validate \<lparr>cq_CurrentPassword = [], cq_NewPassword = []\<rparr> (h_changePassword s))])"
  by (simp add: account_calls_def account_policies_def Let_def)

definition all_calls :: "'e route_env \<Rightarrow> 'e Module \<Rightarrow> ('e \<times> dispatcher) handle_call list" where
  "all_calls E m = credential_calls E (mo_svc m) @ account_calls E m @ feature_calls E m @ webauthn_calls E m"

lemma calls_acceptable: "list_all acceptable (all_calls E (BindDependencies (Some d)))"
  using all_visible
  by (simp add: all_calls_def credential_calls_def account_calls_eq feature_calls_def webauthn_calls_def Let_def acceptable_public acceptable_auth
    acceptable_account bound_module)

lemma calls_guarded:
  assumes "limiter_writer_free (md_Limiter d)" and "c \<in> set (all_calls E (BindDependencies (Some d)))"
    and "call_key c \<notin> set (public_routes (auth_features (md_Auth d)))"
  shows "guards (re_enc E) (re_guard E) (re_exts E) (AuthEngine (Some d)) (AuthMode (Some d) []) c"
proof -
  let ?ok = "\<lambda>c. call_key c \<in> set (public_routes (auth_features (md_Auth d))) \<or>
    guards (re_enc E) (re_guard E) (re_exts E) (AuthEngine (Some d)) (AuthMode (Some d) []) c"
  have l: "limiter_writer_free (Limiter (Some d))" using assms(1) by (simp add: Limiter_def)
  have "list_all ?ok (credential_calls E s)" for s
    by (simp add: credential_calls_def call_key_def post_def public_routes_def)
  moreover have "list_all ?ok (account_calls E (BindDependencies (Some d)))"
    using l by (simp add: account_calls_eq Let_def bound_module guards_auth guards_account uniform_routes)
  moreover have "list_all ?ok (feature_calls E (BindDependencies (Some d)))"
    by (auto simp: feature_calls_def Let_def bound_module guards_auth uniform_routes call_key_def post_def [of _ no_policies] public_routes_def)
  moreover have "list_all ?ok (webauthn_calls E (BindDependencies (Some d)))"
    by (simp add: webauthn_calls_def Let_def bound_module guards_auth uniform_routes)
  ultimately have "list_all ?ok (all_calls E (BindDependencies (Some d)))" by (simp add: all_calls_def)
  then show ?thesis using assms(2,3) by (auto simp: list_all_iff)
qed

lemma calls_keys: "map call_key (all_calls E (BindDependencies (Some d))) = route_table (auth_features (md_Auth d))"
  by (simp add: all_calls_def credential_calls_def account_calls_eq feature_calls_def webauthn_calls_def Let_def bound_module call_key_def post_def get_def
    public_routes_def route_table_def)


definition empty_json :: "'q json_lib" where
  "empty_json = \<lparr>jl_decode = (\<lambda>s. Inl (LibError EOFKind ''EOF'')), jl_again = (\<lambda>s. Some (LibError EOFKind ''EOF'')), jl_validate = (\<lambda>q. None),
     jl_unknown = (\<lambda>s. None)\<rparr>"

definition sample_env :: "auth_db route_env" where
  "sample_env = \<lparr>re_enc = (\<lambda>e. []), re_encode = (\<lambda>r. []), re_lib = sample_authlib, re_login = empty_json, re_mfa = empty_json, re_text = (\<lambda>n. empty_json),
     re_resetConfirm = empty_json, re_verifyConfirm = empty_json, re_change = empty_json, re_finish = empty_json, re_remove = empty_json,
     re_none = empty_json, re_guard = sample_guard, re_exts = Map.empty, re_sha = (\<lambda>s. s)\<rparr>"

definition sample_deps :: "auth_db module_deps" where
  "sample_deps = \<lparr>md_AuthEngine = Some (1, sample_engine), md_AuthMode = [], md_AuthUsers = Some sample_lookup,
     md_Auth = cf_Auth (config_of Map.empty), md_Notifier = True,
     md_RateLimit = \<lparr>rlc_Enabled = False, rlc_FailOpen = False, rlc_DefaultLimit = 0, rlc_DefaultWindow = 0\<rparr>, md_Limiter = None\<rparr>"


end
