(* ===== verification/Auth_Config.thy ===== *)
theory Auth_Config
  imports Notify Auth_Endpoints
begin

text \<open>
  The configuration of the goAuth engine (\<open>internal/core/auth\<close>: \<open>config.go\<close>, \<open>config_env.go\<close>, \<open>config_webauthn.go\<close>, \<open>roles.go\<close>,
  \<open>goauth_provider.go\<close>, \<open>ParseMode\<close> of \<open>provider.go\<close>) and \<open>AuthFeatures\<close> of \<open>app/deps.go\<close>.

  The record holds the fields of \<open>goauth.Config\<close> that the code reads or writes; the others are \<open>gc_other\<close>. goAuth's default configuration,
  its lint and its builder, and the parsers of \<open>encoding/pem\<close> and \<open>crypto/x509\<close>, are arguments.
\<close>

section \<open>Data\<close>

datatype ValidationMode = ValidateJWTOnly | ValidateHybrid | ValidateStrict

record Features =
  af_RegistrationAutoLogin :: bool
  af_PasswordReset :: bool
  af_EmailVerification :: bool
  af_EmailVerificationRequired :: bool
  af_TOTP :: bool
  af_TOTPIssuer :: string
  af_AllowTestOverrides :: bool

record jwt_config =
  jw_AccessTTL :: int
  jw_RefreshTTL :: int
  jw_SigningMethod :: string
  jw_PrivateKey :: string
  jw_PublicKey :: string
  jw_Issuer :: string
  jw_Audience :: string
  jw_KeyID :: string
  jw_VerifyKeys :: "string \<rightharpoonup> string"

record webauthn_config =
  wa_Enabled :: bool
  wa_RPID :: string
  wa_RPDisplayName :: string
  wa_RPOrigins :: "string list"
  wa_AttestationPreference :: string
  wa_UserVerification :: string
  wa_CeremonyTTL :: int
  wa_RequireForLogin :: bool
  wa_RejectClonedAuthenticators :: bool

record 'c goauth_config =
  gc_ValidationMode :: ValidationMode
  gc_JWT :: jwt_config
  gc_IncludeRole :: bool
  gc_IncludePermissions :: bool
  gc_AccountEnabled :: bool
  gc_DefaultRole :: string
  gc_AutoLogin :: bool
  gc_PasswordReset :: bool
  gc_EmailVerification :: bool
  gc_EmailRequireForLogin :: bool
  gc_TOTPEnabled :: bool
  gc_TOTPRequireForLogin :: bool
  gc_TOTPIssuer :: string
  gc_MaxSessionDuration :: int
  gc_LimiterWindowMode :: string
  gc_WebAuthn :: webauthn_config
  gc_MultiTenant :: bool
  gc_TenantHeader :: string
  gc_other :: 'c

type_synonym 'c ConfigMutator = "'c goauth_config \<Rightarrow> 'c goauth_config"

record lint_warning =
  lw_Code :: string
  lw_Severity :: string
  lw_Message :: string

datatype public_key = Ed25519 string | OtherKey

text \<open>The libraries: goAuth, \<open>pem.Decode\<close> (the bytes of the first block) and \<open>x509.ParsePKIXPublicKey\<close>.\<close>

record 'c goauthlib =
  ga_DefaultConfig :: "'c goauth_config"
  ga_Lint :: "'c goauth_config \<Rightarrow> lint_warning list"
  ga_AsError :: "lint_warning list \<Rightarrow> string option"   \<comment> \<open>at severity \<open>LintHigh\<close>\<close>
  ga_pem :: "string \<Rightarrow> string option"
  ga_x509 :: "string \<Rightarrow> string + public_key"
  ga_floats :: floats

section \<open>Roles and modes\<close>

abbreviation PermissionWhoAmI :: string where "PermissionWhoAmI \<equiv> ''system.whoami''"
abbreviation RoleUser :: string where "RoleUser \<equiv> ''user''"
abbreviation RoleAdmin :: string where "RoleAdmin \<equiv> ''admin''"

definition DefaultPermissions :: "string list" where
  "DefaultPermissions = [PermissionWhoAmI]"

definition DefaultRoles :: "(string \<times> string list) list" where
  "DefaultRoles = [(RoleUser, [PermissionWhoAmI]), (RoleAdmin, [PermissionWhoAmI])]"

definition ParseMode :: "string \<Rightarrow> string + Mode" where
  "ParseMode mode =
     (let m = to_lower (trim_space mode) in
      if m \<in> set [''jwt_only'', ''jwt-only'', ''jwtonly''] then Inr ModeJWTOnly
      else if m = ''hybrid'' \<or> m = [] then Inr ModeHybrid
      else if m = ''strict'' then Inr ModeStrict
      else Inl ''invalid auth mode'')"

definition toGoAuthValidationMode :: "Mode \<Rightarrow> ValidationMode" where
  "toGoAuthValidationMode mode =
     (if mode = ModeJWTOnly then ValidateJWTOnly else if mode = ModeStrict then ValidateStrict
      else if mode = ModeHybrid then ValidateHybrid else ValidateHybrid)"

text \<open>\<open>None\<close> is the nil configuration.\<close>

definition AuthFeatures :: "Config option \<Rightarrow> Features" where
  "AuthFeatures cfg =
     (case cfg of
        None \<Rightarrow> \<lparr>af_RegistrationAutoLogin = False, af_PasswordReset = False, af_EmailVerification = False,
          af_EmailVerificationRequired = False, af_TOTP = False, af_TOTPIssuer = [], af_AllowTestOverrides = False\<rparr>
      | Some c \<Rightarrow> (let a = cf_Auth c in
          \<lparr>af_RegistrationAutoLogin = (au_RegistrationEnabled a \<and> au_RegistrationAutoLogin a),
           af_PasswordReset = au_PasswordResetEnabled a, af_EmailVerification = au_EmailVerificationEnabled a,
           af_EmailVerificationRequired = au_EmailVerificationRequired a, af_TOTP = au_TOTPEnabled a, af_TOTPIssuer = au_TOTPIssuer a,
           af_AllowTestOverrides = au_TestOverridesAllowed a\<rparr>))"

section \<open>Environment readers\<close>

definition env_text :: "environ \<Rightarrow> string \<Rightarrow> string" where
  "env_text env name = trim_space (os_Getenv env name)"

text \<open>\<open>Inr None\<close>: the variable is unset or blank.\<close>

definition envDuration :: "floats \<Rightarrow> environ \<Rightarrow> string \<Rightarrow> string + int option" where
  "envDuration F env name =
     (let raw = env_text env name in
      if raw = [] then Inr None
      else (case parse_duration (fl_frac F) raw of
          None \<Rightarrow> Inl (name @ '' must be a valid Go duration'')
        | Some d \<Rightarrow> if d \<le> 0 then Inl (name @ '' must be > 0'') else Inr (Some d)))"

definition envCSV :: "environ \<Rightarrow> string \<Rightarrow> string list" where
  "envCSV env name =
     (let raw = env_text env name in
      if raw = [] then [] else filter (\<lambda>p. p \<noteq> []) (map trim_space (split_on (CHR '','') raw)))"

definition envBool :: "environ \<Rightarrow> string \<Rightarrow> bool \<Rightarrow> bool" where
  "envBool env name def =
     (let raw = to_lower (env_text env name) in
      if raw \<in> set [''1'', ''t'', ''true'', ''yes'', ''y'', ''on''] then True
      else if raw \<in> set [''0'', ''f'', ''false'', ''no'', ''n'', ''off''] then False
      else def)"

section \<open>Key rotation\<close>

text \<open>\<open>strings.ReplaceAll\<close> of a backslash followed by \<open>n\<close> by a newline.\<close>

fun unescape_newlines :: "string \<Rightarrow> string" where
  "unescape_newlines (a # b # s) =
     (if a = CHR 0x5C \<and> b = CHR ''n'' then CHR 0x0A # unescape_newlines s else a # unescape_newlines (b # s))"
| "unescape_newlines s = s"

definition parseEd25519PublicKey :: "'c goauthlib \<Rightarrow> string \<Rightarrow> string + string" where
  "parseEd25519PublicKey G pemText =
     (case ga_pem G (trim_space (unescape_newlines pemText)) of
        None \<Rightarrow> Inl ''invalid PEM''
      | Some bytes \<Rightarrow> (case ga_x509 G bytes of
          Inl e \<Rightarrow> Inl (''parse public key: '' @ e)
        | Inr OtherKey \<Rightarrow> Inl ''not an Ed25519 public key''
        | Inr (Ed25519 k) \<Rightarrow> Inr k))"

definition verify_entry :: "'c goauthlib \<Rightarrow> string \<Rightarrow> string + string \<times> string" where
  "verify_entry G entry =
     (case cut_at (CHR ''='') entry of
        None \<Rightarrow> Inl (''AUTH_VERIFY_KEYS entry must be kid=<pem>: '' @ quoted entry)
      | Some (k, pemText) \<Rightarrow>
          if trim_space k = [] then Inl (''AUTH_VERIFY_KEYS entry must be kid=<pem>: '' @ quoted entry)
          else (case parseEd25519PublicKey G pemText of
              Inl e \<Rightarrow> Inl (''AUTH_VERIFY_KEYS kid '' @ quoted (trim_space k) @ '': '' @ e)
            | Inr pub \<Rightarrow> Inr (trim_space k, pub)))"

fun verify_entries :: "'c goauthlib \<Rightarrow> string list \<Rightarrow> (string \<rightharpoonup> string) \<Rightarrow> string + (string \<rightharpoonup> string)" where
  "verify_entries G [] keys = Inr keys"
| "verify_entries G (e # es) keys =
     (case verify_entry G e of Inl msg \<Rightarrow> Inl msg | Inr (kid, pub) \<Rightarrow> verify_entries G es (keys(kid \<mapsto> pub)))"

definition applyKeyRotation :: "'c goauthlib \<Rightarrow> environ \<Rightarrow> 'c goauth_config \<Rightarrow> string + 'c goauth_config" where
  "applyKeyRotation G env cfg =
     (let entries = envCSV env ''AUTH_VERIFY_KEYS''; keyID = env_text env ''AUTH_KEY_ID'' in
      if entries = [] then Inr (if keyID \<noteq> [] then cfg\<lparr>gc_JWT := (gc_JWT cfg)\<lparr>jw_KeyID := keyID\<rparr>\<rparr> else cfg)
      else if keyID = [] then Inl ''AUTH_VERIFY_KEYS requires AUTH_KEY_ID (the active signing kid)''
      else (case verify_entries G entries Map.empty of
          Inl e \<Rightarrow> Inl e
        | Inr keys \<Rightarrow>
            if keys keyID = None then Inl (''AUTH_KEY_ID '' @ quoted keyID @ '' must be present in AUTH_VERIFY_KEYS'')
            else Inr (cfg\<lparr>gc_JWT := (gc_JWT cfg)\<lparr>jw_KeyID := keyID, jw_VerifyKeys := keys\<rparr>\<rparr>)))"

section \<open>WebAuthn and test overrides\<close>

definition applyWebAuthnConfig :: "'c goauthlib \<Rightarrow> environ \<Rightarrow> 'c goauth_config \<Rightarrow> 'c goauth_config" where
  "applyWebAuthnConfig G env cfg =
     (let enabled = envBool env ''WEBAUTHN_ENABLED'' False; wa = (gc_WebAuthn cfg)\<lparr>wa_Enabled := enabled\<rparr> in
      if \<not> enabled then cfg\<lparr>gc_WebAuthn := wa\<rparr>
      else (let attestation = env_text env ''WEBAUTHN_ATTESTATION_PREFERENCE''; verification = env_text env ''WEBAUTHN_USER_VERIFICATION'' in
        cfg\<lparr>gc_WebAuthn := wa\<lparr>
          wa_RPID := env_text env ''WEBAUTHN_RP_ID'', wa_RPDisplayName := env_text env ''WEBAUTHN_RP_DISPLAY_NAME'',
          wa_RPOrigins := envCSV env ''WEBAUTHN_RP_ORIGINS'',
          wa_AttestationPreference := (if attestation \<noteq> [] then to_lower attestation else wa_AttestationPreference wa),
          wa_UserVerification := (if verification \<noteq> [] then to_lower verification else wa_UserVerification wa),
          wa_CeremonyTTL := (case envDuration (ga_floats G) env ''WEBAUTHN_CEREMONY_TTL'' of Inr (Some d) \<Rightarrow> d | _ \<Rightarrow> wa_CeremonyTTL wa),
          wa_RequireForLogin := envBool env ''WEBAUTHN_REQUIRE_FOR_LOGIN'' False,
          wa_RejectClonedAuthenticators := envBool env ''WEBAUTHN_REJECT_CLONED_AUTHENTICATORS'' True\<rparr>\<rparr>))"

definition testOverrideKeys :: "string list" where
  "testOverrideKeys = [''AUTH_TEST_SHARED_SECRET'', ''AUTH_TEST_ACCESS_TTL'', ''AUTH_TEST_REFRESH_TTL'']"

definition override_ttl :: "floats \<Rightarrow> environ \<Rightarrow> string \<Rightarrow> int \<Rightarrow> int" where
  "override_ttl F env name old =
     (let raw = env_text env name in
      if raw = [] then old
      else (case parse_duration (fl_frac F) raw of Some d \<Rightarrow> if d > 0 then d else old | None \<Rightarrow> old))"

definition applyTestOverrides :: "floats \<Rightarrow> environ \<Rightarrow> bool \<Rightarrow> 'c goauth_config \<Rightarrow> string + 'c goauth_config" where
  "applyTestOverrides F env allowed cfg =
     (if \<not> allowed
      then (case List.find (\<lambda>key. env_text env key \<noteq> []) testOverrideKeys of
          Some key \<Rightarrow> Inl (key @ '' is only allowed with APP_ENV=dev or APP_ENV=test'')
        | None \<Rightarrow> Inr cfg)
      else (let shared = env_text env ''AUTH_TEST_SHARED_SECRET'';
                jwt = (if shared \<noteq> []
                       then (gc_JWT cfg)\<lparr>jw_SigningMethod := ''hs256'', jw_PrivateKey := shared, jw_PublicKey := shared,
                              jw_Issuer := ''superapi-perf'', jw_Audience := ''superapi-perf'', jw_KeyID := ''superapi-perf-key''\<rparr>
                       else gc_JWT cfg)
            in Inr (cfg\<lparr>gc_JWT := jwt\<lparr>jw_AccessTTL := override_ttl F env ''AUTH_TEST_ACCESS_TTL'' (jw_AccessTTL jwt),
                          jw_RefreshTTL := override_ttl F env ''AUTH_TEST_REFRESH_TTL'' (jw_RefreshTTL jwt)\<rparr>\<rparr>)))"

section \<open>The project's configuration\<close>

text \<open>The assignments before the first reader of the environment.\<close>

definition project_defaults :: "Mode \<Rightarrow> Features \<Rightarrow> 'c goauth_config \<Rightarrow> 'c goauth_config" where
  "project_defaults mode f cfg =
     (let issuer = trim_space (af_TOTPIssuer f) in
      cfg\<lparr>gc_ValidationMode := toGoAuthValidationMode mode,
          gc_JWT := (gc_JWT cfg)\<lparr>jw_AccessTTL := 5 * minute, jw_RefreshTTL := 7 * 24 * 60 * minute\<rparr>,
          gc_IncludeRole := True, gc_IncludePermissions := True,
          gc_AccountEnabled := True, gc_DefaultRole := ''user'', gc_AutoLogin := af_RegistrationAutoLogin f,
          gc_PasswordReset := af_PasswordReset f,
          gc_EmailVerification := af_EmailVerification f,
          gc_EmailRequireForLogin := (af_EmailVerification f \<and> af_EmailVerificationRequired f),
          gc_TOTPEnabled := af_TOTP f, gc_TOTPRequireForLogin := af_TOTP f,
          gc_TOTPIssuer := (if af_TOTP f then if issuer = [] then ''SuperAPI'' else issuer else gc_TOTPIssuer cfg)\<rparr>)"

definition session_and_limiter :: "'c goauthlib \<Rightarrow> environ \<Rightarrow> 'c goauth_config \<Rightarrow> string + 'c goauth_config" where
  "session_and_limiter G env cfg =
     (case envDuration (ga_floats G) env ''AUTH_MAX_SESSION_DURATION'' of
        Inl e \<Rightarrow> Inl e
      | Inr d \<Rightarrow>
          (let window = env_text env ''AUTH_LIMITER_WINDOW_MODE'';
               cfg1 = (case d of Some n \<Rightarrow> cfg\<lparr>gc_MaxSessionDuration := n\<rparr> | None \<Rightarrow> cfg)
           in Inr (if window \<noteq> [] then cfg1\<lparr>gc_LimiterWindowMode := to_lower window\<rparr> else cfg1)))"

fun apply_mutators :: "'c ConfigMutator option list \<Rightarrow> 'c goauth_config \<Rightarrow> 'c goauth_config" where
  "apply_mutators [] cfg = cfg"
| "apply_mutators (None # ms) cfg = apply_mutators ms cfg"
| "apply_mutators (Some f # ms) cfg = apply_mutators ms (f cfg)"

text \<open>The result, with the warnings of goAuth's lint that are logged on the way.\<close>

definition ProjectGoAuthConfig :: "'c goauthlib \<Rightarrow> environ \<Rightarrow> Mode \<Rightarrow> Features \<Rightarrow> 'c ConfigMutator option list
    \<Rightarrow> (string + 'c goauth_config) \<times> lint_warning list" where
  "ProjectGoAuthConfig G env mode f mutators =
     (case session_and_limiter G env (project_defaults mode f (ga_DefaultConfig G)) of
        Inl e \<Rightarrow> (Inl e, [])
      | Inr cfg1 \<Rightarrow> (case applyKeyRotation G env cfg1 of
          Inl e \<Rightarrow> (Inl e, [])
        | Inr cfg2 \<Rightarrow> (case applyTestOverrides (ga_floats G) env (af_AllowTestOverrides f) (applyWebAuthnConfig G env cfg2) of
            Inl e \<Rightarrow> (Inl e, [])
          | Inr cfg3 \<Rightarrow>
              (let cfg = apply_mutators mutators cfg3; warnings = ga_Lint G cfg in
               ((case ga_AsError G warnings of Some e \<Rightarrow> Inl e | None \<Rightarrow> Inr cfg), warnings)))))"

text \<open>\<open>build\<close> is goAuth's builder on the client, the configuration, permissions, roles and provider.\<close>

definition NewGoAuthEngine :: "'c goauthlib
    \<Rightarrow> ('r \<Rightarrow> 'c goauth_config \<Rightarrow> string list \<Rightarrow> (string \<times> string list) list \<Rightarrow> 'p \<Rightarrow> string + 'e)
    \<Rightarrow> environ \<Rightarrow> 'r option \<Rightarrow> Mode \<Rightarrow> Features \<Rightarrow> 'p \<Rightarrow> 'c ConfigMutator option list \<Rightarrow> string + 'e" where
  "NewGoAuthEngine G build env redis mode f userProvider mutators =
     (case redis of
        None \<Rightarrow> Inl ''goAuth provider requires redis client''
      | Some client \<Rightarrow> (case fst (ProjectGoAuthConfig G env mode f mutators) of
          Inl e \<Rightarrow> Inl (''initialize goAuth config: '' @ e)
        | Inr cfg \<Rightarrow> (case build client cfg DefaultPermissions DefaultRoles userProvider of
            Inl e \<Rightarrow> Inl (''build goAuth engine: '' @ e)
          | Inr engine \<Rightarrow> Inr engine)))"

text \<open>The mutator of the tenancy feature (\<open>tenancy/feature.go\<close>).\<close>

definition EnableMultiTenant :: "'c ConfigMutator" where
  "EnableMultiTenant c = c\<lparr>gc_MultiTenant := True, gc_TenantHeader := []\<rparr>"

section \<open>What the engine is configured with\<close>

text \<open>A mutator that changes only the tenancy settings and fields the project does not set.\<close>

definition keeps_core :: "'c ConfigMutator \<Rightarrow> bool" where
  "keeps_core m \<longleftrightarrow> (\<forall>c. \<exists>b h x. m c = c\<lparr>gc_MultiTenant := b, gc_TenantHeader := h, gc_other := x\<rparr>)"

lemma keeps_core_multi_tenant: "keeps_core EnableMultiTenant"
proof -
  have "EnableMultiTenant c = c\<lparr>gc_MultiTenant := True, gc_TenantHeader := [], gc_other := gc_other c\<rparr>" for c :: "'a goauth_config"
    by (simp add: EnableMultiTenant_def)
  then show ?thesis unfolding keeps_core_def by blast
qed

text \<open>The settings a mutator must not touch, as one tuple of facts that each later step keeps.\<close>

definition core_agrees :: "'c goauth_config \<Rightarrow> 'c goauth_config \<Rightarrow> bool" where
  "core_agrees a b \<longleftrightarrow> gc_ValidationMode a = gc_ValidationMode b \<and> gc_DefaultRole a = gc_DefaultRole b \<and> gc_AutoLogin a = gc_AutoLogin b \<and>
     gc_PasswordReset a = gc_PasswordReset b \<and> gc_EmailVerification a = gc_EmailVerification b \<and>
     gc_EmailRequireForLogin a = gc_EmailRequireForLogin b \<and> gc_TOTPEnabled a = gc_TOTPEnabled b \<and>
     gc_TOTPRequireForLogin a = gc_TOTPRequireForLogin b \<and> gc_TOTPIssuer a = gc_TOTPIssuer b"

lemma core_agrees_trans: "core_agrees a b \<Longrightarrow> core_agrees b c \<Longrightarrow> core_agrees a c"
  by (simp add: core_agrees_def)

lemma mutators_agree:
  assumes "\<And>m. Some m \<in> set ms \<Longrightarrow> keeps_core m"
  shows "core_agrees (apply_mutators ms c) c \<and> gc_JWT (apply_mutators ms c) = gc_JWT c"
  using assms
proof (induction ms c rule: apply_mutators.induct)
  case (3 f ms cfg)
  then have "keeps_core f" by simp
  then obtain b h x where "f cfg = cfg\<lparr>gc_MultiTenant := b, gc_TenantHeader := h, gc_other := x\<rparr>" unfolding keeps_core_def by blast
  with 3 show ?case by (simp add: core_agrees_def)
qed (simp_all add: core_agrees_def)

lemma session_and_limiter_agrees:
  "session_and_limiter G env c = Inr d \<Longrightarrow> core_agrees d c \<and> gc_JWT d = gc_JWT c"
  by (auto simp: session_and_limiter_def core_agrees_def Let_def split: sum.splits option.splits if_splits)

lemma web_authn_agrees: "core_agrees (applyWebAuthnConfig G env c) c \<and> gc_JWT (applyWebAuthnConfig G env c) = gc_JWT c"
  by (simp add: applyWebAuthnConfig_def core_agrees_def Let_def)

lemma verify_entries_named: "verify_entries G es keys = Inr keys' \<Longrightarrow> [] \<notin> dom keys \<Longrightarrow> [] \<notin> dom keys'"
proof (induction es arbitrary: keys)
  case (Cons e es)
  then obtain k pub where "verify_entry G e = Inr (k, pub)" "verify_entries G es (keys(k \<mapsto> pub)) = Inr keys'" "k \<noteq> []"
    by (auto simp: verify_entry_def split: sum.splits option.splits if_splits)
  moreover from this Cons.prems(2) have "[] \<notin> dom (keys(k \<mapsto> pub))" by simp
  ultimately show ?case using Cons.IH by blast
qed simp

text \<open>The part of the token settings that only the test overrides may change.\<close>

definition signing :: "jwt_config \<Rightarrow> string \<times> string \<times> string \<times> string \<times> string" where
  "signing j = (jw_SigningMethod j, jw_PrivateKey j, jw_PublicKey j, jw_Issuer j, jw_Audience j)"

definition keys_usable :: "jwt_config \<Rightarrow> bool" where
  "keys_usable j \<longleftrightarrow> jw_KeyID j \<in> dom (jw_VerifyKeys j) \<and> [] \<notin> dom (jw_VerifyKeys j)"

lemma key_rotation_agrees:
  assumes "applyKeyRotation G env c = Inr d"
  shows "core_agrees d c \<and> signing (gc_JWT d) = signing (gc_JWT c) \<and> jw_AccessTTL (gc_JWT d) = jw_AccessTTL (gc_JWT c) \<and>
    jw_RefreshTTL (gc_JWT d) = jw_RefreshTTL (gc_JWT c) \<and> (jw_VerifyKeys (gc_JWT d) = jw_VerifyKeys (gc_JWT c) \<or> keys_usable (gc_JWT d))"
  using assms
  by (auto simp: applyKeyRotation_def core_agrees_def signing_def keys_usable_def Let_def split: sum.splits if_splits
      dest: verify_entries_named)

lemma test_overrides_agree:
  assumes "applyTestOverrides F env allowed c = Inr d"
  shows "core_agrees d c" and "\<not> allowed \<Longrightarrow> d = c \<and> (\<forall>k \<in> set testOverrideKeys. env_text env k = [])"
  using assms by (auto simp: applyTestOverrides_def core_agrees_def Let_def find_None_iff split: if_splits option.splits)

lemma Load_test_overrides: "Load F env = Inr c \<Longrightarrow> au_TestOverridesAllowed (cf_Auth c) = isDevOrTestEnv (cf_Env c)"
  by (auto simp: Load_def build_config_def load_auth_def Let_def split: sum.splits)

text \<open>
  C34: The engine is configured for the mode and the features that were loaded, and a production process cannot run on test settings. Whatever
  features adjust of goAuth's other settings, an accepted configuration validates tokens in the parsed mode; gives new accounts a role that
  exists and whose permissions are registered; switches on exactly the sections whose endpoints the auth module mounts, requires a verified
  address only with verification on, and asks enrolled users for a code whenever TOTP is on, under a non-empty issuer. Outside development and
  test no \<open>AUTH_TEST_\<close> variable is set, signing method, keys, issuer and audience are goAuth's own, tokens live five minutes and seven days,
  and configured verification keys contain the active key under a non-empty id.
\<close>

theorem engine_config_safe:
  assumes "Load F env = Inr c" and "fst (ProjectGoAuthConfig G env mode (AuthFeatures (Some c)) ms) = Inr cfg"
    and "\<And>m. Some m \<in> set ms \<Longrightarrow> keeps_core m"
  shows "gc_ValidationMode cfg = toGoAuthValidationMode mode \<and>
     (\<exists>perms. map_of DefaultRoles (gc_DefaultRole cfg) = Some perms \<and> set perms \<subseteq> set DefaultPermissions) \<and>
     auth_features (cf_Auth c) = \<lparr>ft_Registration = au_RegistrationEnabled (cf_Auth c), ft_AutoLogin = gc_AutoLogin cfg,
       ft_PasswordReset = gc_PasswordReset cfg, ft_EmailVerification = gc_EmailVerification cfg, ft_TOTP = gc_TOTPEnabled cfg\<rparr> \<and>
     (gc_EmailRequireForLogin cfg \<longrightarrow> gc_EmailVerification cfg) \<and>
     (gc_TOTPEnabled cfg \<longrightarrow> gc_TOTPRequireForLogin cfg \<and> gc_TOTPIssuer cfg \<noteq> []) \<and>
     (\<not> isDevOrTestEnv (cf_Env c) \<longrightarrow>
        (\<forall>k \<in> set testOverrideKeys. env_text env k = []) \<and>
        signing (gc_JWT cfg) = signing (gc_JWT (ga_DefaultConfig G)) \<and>
        jw_AccessTTL (gc_JWT cfg) = 5 * minute \<and> jw_RefreshTTL (gc_JWT cfg) = 7 * 24 * 60 * minute \<and>
        (jw_VerifyKeys (gc_JWT cfg) = jw_VerifyKeys (gc_JWT (ga_DefaultConfig G)) \<or> keys_usable (gc_JWT cfg)))"
proof -
  let ?f = "AuthFeatures (Some c)" and ?d = "project_defaults mode (AuthFeatures (Some c)) (ga_DefaultConfig G)"
  from assms(2) obtain c1 c2 c3 where c1: "session_and_limiter G env ?d = Inr c1" and c2: "applyKeyRotation G env c1 = Inr c2"
    and c3: "applyTestOverrides (ga_floats G) env (af_AllowTestOverrides ?f) (applyWebAuthnConfig G env c2) = Inr c3"
    and cfg: "cfg = apply_mutators ms c3"
    by (auto simp: ProjectGoAuthConfig_def Let_def split: sum.splits option.splits)
  note m = mutators_agree [of ms c3, OF assms(3), folded cfg]
  note steps = session_and_limiter_agrees [OF c1] key_rotation_agrees [OF c2] web_authn_agrees [of G env c2] test_overrides_agree [OF c3]
  have agrees: "core_agrees cfg ?d" using m steps core_agrees_trans by blast
  have allowed: "af_AllowTestOverrides ?f = isDevOrTestEnv (cf_Env c)"
    using Load_test_overrides [OF assms(1)] by (simp add: AuthFeatures_def Let_def)
  have outside: "\<not> isDevOrTestEnv (cf_Env c) \<Longrightarrow> (\<forall>k \<in> set testOverrideKeys. env_text env k = []) \<and>
        signing (gc_JWT cfg) = signing (gc_JWT (ga_DefaultConfig G)) \<and>
        jw_AccessTTL (gc_JWT cfg) = 5 * minute \<and> jw_RefreshTTL (gc_JWT cfg) = 7 * 24 * 60 * minute \<and>
        (jw_VerifyKeys (gc_JWT cfg) = jw_VerifyKeys (gc_JWT (ga_DefaultConfig G)) \<or> keys_usable (gc_JWT cfg))"
    using m steps allowed by (auto simp: project_defaults_def signing_def Let_def)
  from agrees show ?thesis
    using outside
    by (auto simp: core_agrees_def project_defaults_def AuthFeatures_def auth_features_def DefaultRoles_def DefaultPermissions_def Let_def)
qed

text \<open>A library with Ed25519 keys as they are, and an environment that rotates its keys with tenancy on.\<close>

definition sample_jwt :: jwt_config where
  "sample_jwt = \<lparr>jw_AccessTTL = 1, jw_RefreshTTL = 1, jw_SigningMethod = ''ed25519'', jw_PrivateKey = [], jw_PublicKey = [], jw_Issuer = [],
     jw_Audience = [], jw_KeyID = [], jw_VerifyKeys = Map.empty\<rparr>"

definition sample_goauth :: "unit goauthlib" where
  "sample_goauth = \<lparr>ga_DefaultConfig = \<lparr>gc_ValidationMode = ValidateHybrid, gc_JWT = sample_jwt, gc_IncludeRole = False,
       gc_IncludePermissions = False, gc_AccountEnabled = False, gc_DefaultRole = [], gc_AutoLogin = False, gc_PasswordReset = False,
       gc_EmailVerification = False, gc_EmailRequireForLogin = False, gc_TOTPEnabled = False, gc_TOTPRequireForLogin = False,
       gc_TOTPIssuer = [], gc_MaxSessionDuration = 0, gc_LimiterWindowMode = ''fixed'',
       gc_WebAuthn = \<lparr>wa_Enabled = False, wa_RPID = [], wa_RPDisplayName = [], wa_RPOrigins = [], wa_AttestationPreference = [],
         wa_UserVerification = [], wa_CeremonyTTL = 0, wa_RequireForLogin = False, wa_RejectClonedAuthenticators = False\<rparr>,
       gc_MultiTenant = False, gc_TenantHeader = ''X-Tenant'', gc_other = ()\<rparr>,
     ga_Lint = \<lambda>c. [], ga_AsError = \<lambda>ws. None, ga_pem = Some, ga_x509 = \<lambda>b. Inr (Ed25519 b),
     ga_floats = \<lparr>fl_parse = \<lambda>s. None, fl_frac = \<lambda>a b c. 0\<rparr>\<rparr>"

definition rotating_env :: environ where
  "rotating_env = [''APP_ENV'' \<mapsto> ''prod'', ''AUTH_TOTP_ENABLED'' \<mapsto> ''true'', ''AUTH_KEY_ID'' \<mapsto> ''k2'', ''AUTH_VERIFY_KEYS'' \<mapsto> ''k1=a,k2=b'']"

definition rotating_config :: Config where
  "rotating_config = projr (Load (ga_floats sample_goauth) rotating_env)"

definition rotating_goauth :: "unit goauth_config" where
  "rotating_goauth = projr (fst (ProjectGoAuthConfig sample_goauth rotating_env ModeStrict (AuthFeatures (Some rotating_config))
     [Some EnableMultiTenant, None]))"

theorem engine_config_safe_witness:
  "gc_TOTPRequireForLogin rotating_goauth \<and> keys_usable (gc_JWT rotating_goauth) \<and> jw_AccessTTL (gc_JWT rotating_goauth) = 5 * minute"
proof -
  let ?c = "rotating_config" and ?p = "ProjectGoAuthConfig sample_goauth rotating_env ModeStrict (AuthFeatures (Some rotating_config)) [Some EnableMultiTenant, None]"
  have "\<not> isl (Load (ga_floats sample_goauth) rotating_env)" and "\<not> isl (fst ?p)" by code_simp+
  then have "Load (ga_floats sample_goauth) rotating_env = Inr ?c" and "fst ?p = Inr rotating_goauth"
    by (simp_all add: rotating_config_def rotating_goauth_def)
  note safe = engine_config_safe [OF this]
  have "\<not> isDevOrTestEnv (cf_Env ?c)" and "gc_TOTPEnabled rotating_goauth" and "jw_VerifyKeys (gc_JWT rotating_goauth) ''k1'' = Some ''a''"
    by code_simp+
  with safe show ?thesis using keeps_core_multi_tenant by (auto simp: sample_goauth_def sample_jwt_def)
qed

end
