(* ===== verification/Readiness.thy ===== *)
theory Readiness
  imports Auth_Endpoints "HOL-Library.Multiset"
begin

text \<open>
  Readiness (\<open>internal/core/readiness/service.go\<close>), the health module (\<open>internal/modules/health\<close>), the health checks of the pools
  (\<open>db/postgres.go\<close>, \<open>cache/redis.go\<close>) and the readiness, rate-limit and cache collectors of \<open>metrics/metrics.go\<close>.

  A Go map is visited in an order that the program does not choose: \<open>Service_Check\<close> takes that order as an argument. A check runs under a
  context, of which the request carries the deadline, and may change the services. The collectors are Prometheus gauges and counters,
  one number per tuple of labels.
\<close>

section \<open>The service\<close>

datatype dependency_state = DependencyOK | DependencyDisabled | DependencyError
datatype readiness_state = StatusReady | StatusNotReady

record DependencyStatus =
  ds_Status :: dependency_state
  ds_Message :: string

record Report =
  rp_Status :: readiness_state
  rp_Dependencies :: "string \<rightharpoonup> DependencyStatus"

type_synonym 's CheckFunc = "request \<Rightarrow> 's world \<Rightarrow> go_error option \<times> 's world"

record 's dependency =
  dy_enabled :: bool
  dy_timeout :: int
  dy_check :: "'s CheckFunc option"

type_synonym 's readiness = "(string \<times> 's dependency) list"

definition readiness_NewService :: "'s readiness" where
  "readiness_NewService = []"

definition readiness_Add :: "string \<Rightarrow> bool \<Rightarrow> int \<Rightarrow> 's CheckFunc option \<Rightarrow> 's readiness \<Rightarrow> 's readiness" where
  "readiness_Add name isEnabled timeout check s = AList.update name \<lparr>dy_enabled = isEnabled, dy_timeout = timeout, dy_check = check\<rparr> s"

definition readiness_sanitize :: "go_error \<Rightarrow> string" where
  "readiness_sanitize err = (if is_deadline err then ''timeout'' else ''unavailable'')"

abbreviation dep_status :: "dependency_state \<Rightarrow> string \<Rightarrow> DependencyStatus" where
  "dep_status st msg \<equiv> \<lparr>ds_Status = st, ds_Message = msg\<rparr>"

text \<open>One iteration of the loop of \<open>Check\<close>.\<close>

definition check_one :: "request \<Rightarrow> string \<times> 's dependency \<Rightarrow> Report \<times> 's world \<Rightarrow> Report \<times> 's world" where
  "check_one ctx nd st = (case nd of (name, d) \<Rightarrow> case st of (report, w) \<Rightarrow>
     if \<not> dy_enabled d
     then (report\<lparr>rp_Dependencies := (rp_Dependencies report)(name \<mapsto> dep_status DependencyDisabled [])\<rparr>, w)
     else (case dy_check d of
         None \<Rightarrow> (report\<lparr>rp_Status := StatusNotReady,
             rp_Dependencies := (rp_Dependencies report)(name \<mapsto> dep_status DependencyError ''not configured'')\<rparr>, w)
       | Some check \<Rightarrow>
           (case check (WithTimeout (dy_timeout d) w ctx) w of
              (Some err, w') \<Rightarrow> (report\<lparr>rp_Status := StatusNotReady,
                rp_Dependencies := (rp_Dependencies report)(name \<mapsto> dep_status DependencyError (readiness_sanitize err))\<rparr>, w')
            | (None, w') \<Rightarrow> (report\<lparr>rp_Dependencies := (rp_Dependencies report)(name \<mapsto> dep_status DependencyOK [])\<rparr>, w'))))"

text \<open>\<open>order\<close> lists the entries as the \<open>range\<close> visits them.\<close>

definition Service_Check :: "(string \<times> 's dependency) list \<Rightarrow> request \<Rightarrow> 's world \<Rightarrow> Report \<times> 's world" where
  "Service_Check order ctx w = fold (check_one ctx) order (\<lparr>rp_Status = StatusReady, rp_Dependencies = Map.empty\<rparr>, w)"

section \<open>Health checks of the pools\<close>

definition pingWithTimeout :: "int \<Rightarrow> 's CheckFunc \<Rightarrow> 's CheckFunc" where
  "pingWithTimeout timeout ping ctx w = ping (WithTimeout timeout w ctx) w"

text \<open>\<open>db.CheckHealth\<close> and \<open>cache.CheckHealth\<close>; \<open>None\<close> is the nil pool or client.\<close>

definition db_CheckHealth :: "'s CheckFunc option \<Rightarrow> int \<Rightarrow> 's CheckFunc" where
  "db_CheckHealth pool timeout ctx w =
     (case pool of None \<Rightarrow> (Some (Plain ''postgres pool is nil''), w) | Some ping \<Rightarrow> pingWithTimeout timeout ping ctx w)"

definition cache_CheckHealth :: "'s CheckFunc option \<Rightarrow> int \<Rightarrow> 's CheckFunc" where
  "cache_CheckHealth client timeout ctx w =
     (case client of None \<Rightarrow> (Some (Plain ''redis client is nil''), w) | Some ping \<Rightarrow> pingWithTimeout timeout ping ctx w)"

section \<open>Collectors\<close>

record gauges =
  mt_ready :: int
  mt_dependency :: "string \<times> string \<rightharpoonup> int"
  mt_limits :: "string \<times> string \<Rightarrow> int"
  mt_cache :: "string \<times> string \<Rightarrow> int"

fun state_label :: "dependency_state \<Rightarrow> string" where
  "state_label DependencyOK = ''ok''" | "state_label DependencyDisabled = ''disabled''" | "state_label DependencyError = ''error''"

definition boolToFloat64 :: "bool \<Rightarrow> int" where
  "boolToFloat64 v = (if v then 1 else 0)"

definition observe_dependency :: "Report \<Rightarrow> string \<Rightarrow> (string \<times> string \<rightharpoonup> int) \<Rightarrow> (string \<times> string \<rightharpoonup> int)" where
  "observe_dependency report dep g =
     (case rp_Dependencies report dep of
        None \<Rightarrow> g
      | Some st \<Rightarrow> g((dep, state_label DependencyOK) \<mapsto> boolToFloat64 (ds_Status st = DependencyOK),
            (dep, state_label DependencyDisabled) \<mapsto> boolToFloat64 (ds_Status st = DependencyDisabled),
            (dep, state_label DependencyError) \<mapsto> boolToFloat64 (ds_Status st = DependencyError)))"

text \<open>The service is its configuration; \<open>None\<close> is the nil service. \<open>names\<close> is the order in which the report is visited.\<close>

definition ObserveReadiness :: "MetricsConfig option \<Rightarrow> string list \<Rightarrow> Report \<Rightarrow> gauges \<Rightarrow> gauges" where
  "ObserveReadiness s names report g =
     (case s of
        None \<Rightarrow> g
      | Some cfg \<Rightarrow>
          if \<not> me_Enabled cfg then g
          else g\<lparr>mt_ready := (if rp_Status report = StatusReady then 1 else 0),
                 mt_dependency := fold (observe_dependency report) names Map.empty\<rparr>)"

definition or_unknown :: "string \<Rightarrow> string" where
  "or_unknown s = (if s = [] then ''unknown'' else s)"

definition ObserveRateLimit :: "MetricsConfig option \<Rightarrow> string \<Rightarrow> string \<Rightarrow> gauges \<Rightarrow> gauges" where
  "ObserveRateLimit s route outcome g =
     (case s of
        None \<Rightarrow> g
      | Some cfg \<Rightarrow> if \<not> me_Enabled cfg then g
          else (let l = (or_unknown route, or_unknown outcome) in g\<lparr>mt_limits := (mt_limits g)(l := mt_limits g l + 1)\<rparr>))"

definition ObserveCache :: "MetricsConfig option \<Rightarrow> string \<Rightarrow> string \<Rightarrow> gauges \<Rightarrow> gauges" where
  "ObserveCache s route outcome g =
     (case s of
        None \<Rightarrow> g
      | Some cfg \<Rightarrow> if \<not> me_Enabled cfg then g
          else (let l = (or_unknown route, or_unknown outcome) in g\<lparr>mt_cache := (mt_cache g)(l := mt_cache g l + 1)\<rparr>))"

text \<open>\<open>metrics.New\<close>: \<open>register\<close> is the registry's answer for a collector, after those before it.\<close>

definition metric_names :: "bool \<Rightarrow> string list" where
  "metric_names pool =
     [''http_requests_total'', ''http_request_duration_seconds'', ''http_in_flight_requests'', ''rate_limit_requests_total'',
      ''cache_operations_total'', ''ready'', ''dependency_ready''] @ (if pool then [''pgxpool''] else [])"

fun register_metrics :: "(string list \<Rightarrow> string \<Rightarrow> string option) \<Rightarrow> string list \<Rightarrow> string list \<Rightarrow> string option" where
  "register_metrics register seen [] = None"
| "register_metrics register seen (n # ns) =
     (case register seen n of Some e \<Rightarrow> Some e | None \<Rightarrow> register_metrics register (seen @ [n]) ns)"

definition metrics_New :: "(string list \<Rightarrow> string \<Rightarrow> string option) \<Rightarrow> MetricsConfig \<Rightarrow> bool \<Rightarrow> string + MetricsConfig" where
  "metrics_New register cfg pool =
     (if \<not> me_Enabled cfg then Inr cfg
      else (case register_metrics register [] (metric_names pool) of Some e \<Rightarrow> Inl e | None \<Rightarrow> Inr cfg))"

definition metrics_Enabled :: "MetricsConfig option \<Rightarrow> bool" where
  "metrics_Enabled s = (case s of None \<Rightarrow> False | Some cfg \<Rightarrow> me_Enabled cfg)"

section \<open>The health module\<close>

text \<open>The services behind the endpoints: the collectors, and the rest.\<close>

record 's health_svc =
  hv_gauges :: gauges
  hv_rest :: 's

record 's health_module =
  hm_readiness :: "'s health_svc readiness option"
  hm_metrics :: "MetricsConfig option"

text \<open>\<open>BindDependencies\<close>: the two services of the dependencies; \<open>None\<close> is the nil pointer.\<close>

definition health_BindDependencies :: "('s health_svc readiness option \<times> MetricsConfig option) option \<Rightarrow> 's health_module" where
  "health_BindDependencies deps =
     (case deps of
        None \<Rightarrow> \<lparr>hm_readiness = None, hm_metrics = None\<rparr>
      | Some (rd, mt) \<Rightarrow> \<lparr>hm_readiness = rd, hm_metrics = mt\<rparr>)"

definition healthz :: "string \<Rightarrow> ('s, unit) handler_func" where
  "healthz okJSON ctx q w = Ret (Inr (Payload okJSON), w)"

text \<open>The iteration orders: of the registry for the checks, of the names of the report for the gauges.\<close>

record 's orders =
  od_checks :: "'s health_svc readiness \<Rightarrow> 's health_svc readiness"
  od_names :: "Report \<Rightarrow> string list"

definition readyz :: "(Report \<Rightarrow> string) \<Rightarrow> 's orders \<Rightarrow> 's health_module \<Rightarrow> ('s health_svc, unit) handler_func" where
  "readyz encode od m ctx q w =
     (let (report, w1) = (case hm_readiness m of
              None \<Rightarrow> (\<lparr>rp_Status = StatusReady, rp_Dependencies = Map.empty\<rparr>, w)
            | Some s \<Rightarrow> Service_Check (od_checks od s) ctx w);
          w2 = (if hm_metrics m \<noteq> None
                then w1\<lparr>svc := (svc w1)\<lparr>hv_gauges := ObserveReadiness (hm_metrics m) (od_names od report) report (hv_gauges (svc w1))\<rparr>\<rparr>
                else w1);
          ready = (rp_Status report = StatusReady)
      in Ret (Inr (Result (if ready then 200 else 503) (Some ready) (encode report)), w2))"

definition health_calls :: "(Envelope \<Rightarrow> string) \<Rightarrow> unit json_lib \<Rightarrow> string \<Rightarrow> (Report \<Rightarrow> string) \<Rightarrow> 's orders \<Rightarrow> 's health_module
    \<Rightarrow> 's health_svc handle_call list" where
  "health_calls enc L okJSON encode od m =
     [\<lparr>hc_method = ''GET'', hc_pattern = ''/healthz'', hc_handler = Adapter enc L True () (healthz okJSON), hc_policies = no_policies\<rparr>,
      \<lparr>hc_method = ''GET'', hc_pattern = ''/readyz'', hc_handler = Adapter enc L True () (readyz encode od m), hc_policies = no_policies\<rparr>]"

definition health_Register :: "(Envelope \<Rightarrow> string) \<Rightarrow> unit json_lib \<Rightarrow> string \<Rightarrow> (Report \<Rightarrow> string) \<Rightarrow> 's orders \<Rightarrow> 's health_module
    \<Rightarrow> 's health_svc mounting \<Rightarrow> register_panic + 's health_svc mounting" where
  "health_Register enc L okJSON encode od m mt = handle_all (health_calls enc L okJSON encode od m) mt"

section \<open>The report is exact\<close>

text \<open>What the report says of a dependency: the answer of its check in some state of the services, under its deadline.\<close>

definition reported :: "request \<Rightarrow> 's dependency \<Rightarrow> DependencyStatus \<Rightarrow> bool" where
  "reported ctx d st \<longleftrightarrow>
     (if \<not> dy_enabled d then st = dep_status DependencyDisabled []
      else (case dy_check d of
          None \<Rightarrow> st = dep_status DependencyError ''not configured''
        | Some check \<Rightarrow> (\<exists>w. st = (case fst (check (WithTimeout (dy_timeout d) w ctx) w) of
              None \<Rightarrow> dep_status DependencyOK []
            | Some err \<Rightarrow> dep_status DependencyError (if is_deadline err then ''timeout'' else ''unavailable'')))))"

lemma check_one_effect:
  assumes "check_one ctx (name, d) (report, w) = (report', w')"
  shows "\<exists>st. reported ctx d st \<and> rp_Dependencies report' = (rp_Dependencies report)(name \<mapsto> st) \<and>
    rp_Status report' = (if ds_Status st = DependencyError then StatusNotReady else rp_Status report)"
proof (cases "dy_enabled d \<and> dy_check d \<noteq> None")
  case True
  then obtain check where c: "dy_check d = Some check" by auto
  let ?v = "fst (check (WithTimeout (dy_timeout d) w ctx) w)"
  have "reported ctx d (case ?v of None \<Rightarrow> dep_status DependencyOK [] | Some err \<Rightarrow> dep_status DependencyError (readiness_sanitize err))"
    using True c by (simp add: reported_def) (rule exI [of _ w], simp add: readiness_sanitize_def split: option.split)
  then show ?thesis using assms True c by (intro exI conjI) (auto simp: check_one_def split: option.splits prod.splits)
next
  case False
  with assms show ?thesis by (auto simp: check_one_def reported_def split: if_splits option.splits)
qed

text \<open>The loop's invariant: the report covers the entries visited so far.\<close>

definition covers :: "request \<Rightarrow> 's readiness \<Rightarrow> Report \<Rightarrow> bool" where
  "covers ctx seen report \<longleftrightarrow> dom (rp_Dependencies report) = fst ` set seen \<and>
     (\<forall>n d. (n, d) \<in> set seen \<longrightarrow> reported ctx d (the (rp_Dependencies report n))) \<and>
     (rp_Status report = StatusReady \<longleftrightarrow> (\<forall>n st. rp_Dependencies report n = Some st \<longrightarrow> ds_Status st \<noteq> DependencyError))"

lemma covers_step:
  assumes "covers ctx seen report" and "check_one ctx (n, d) (report, w) = (report', w')" and "n \<notin> fst ` set seen"
  shows "covers ctx (seen @ [(n, d)]) report'"
proof -
  from check_one_effect [OF assms(2)] obtain st where st: "reported ctx d st" "rp_Dependencies report' = (rp_Dependencies report)(n \<mapsto> st)"
    "rp_Status report' = (if ds_Status st = DependencyError then StatusNotReady else rp_Status report)" by blast
  have fresh: "rp_Dependencies report n = None" using assms(1,3) by (auto simp: covers_def)
  have "reported ctx d' (the (rp_Dependencies report' n'))" if "(n', d') \<in> set seen" for n' d'
  proof -
    from that assms(3) have "n' \<noteq> n" by force
    with that assms(1) st(2) show ?thesis by (auto simp: covers_def)
  qed
  moreover have "(\<forall>n' st'. rp_Dependencies report' n' = Some st' \<longrightarrow> ds_Status st' \<noteq> DependencyError) \<longleftrightarrow>
      ds_Status st \<noteq> DependencyError \<and> (\<forall>n' st'. rp_Dependencies report n' = Some st' \<longrightarrow> ds_Status st' \<noteq> DependencyError)"
    using st(2) fresh by (metis fun_upd_apply option.distinct(1) option.inject)
  ultimately show ?thesis using assms(1) st by (auto simp: covers_def)
qed

lemma fold_covers:
  assumes "covers ctx seen report" and "fold (check_one ctx) order (report, w) = (report', w')" and "distinct (map fst (seen @ order))"
  shows "covers ctx (seen @ order) report'"
  using assms
proof (induction order arbitrary: seen report w)
  case (Cons nd order)
  obtain n d where nd: "nd = (n, d)" by fastforce
  obtain r1 w1 where one: "check_one ctx (n, d) (report, w) = (r1, w1)" by fastforce
  from Cons.prems nd have "n \<notin> fst ` set seen" by auto
  from covers_step [OF Cons.prems(1) one this] Cons.IH [of "seen @ [(n, d)]" r1 w1] Cons.prems(2,3) nd one show ?case by simp
qed simp

lemma distinct_registry: "distinct (map fst s) \<Longrightarrow> distinct (map fst (readiness_Add name isEnabled timeout check s))"
  by (simp add: readiness_Add_def distinct_update)

text \<open>The registries a program can build.\<close>

definition build_registry :: "(string \<times> bool \<times> int \<times> 's CheckFunc option) list \<Rightarrow> 's readiness" where
  "build_registry regs = fold (\<lambda>(n, e, t, c). readiness_Add n e t c) regs readiness_NewService"

lemma build_registry_distinct: "distinct (map fst (build_registry regs))"
proof -
  have "distinct (map fst s) \<Longrightarrow> distinct (map fst (fold (\<lambda>(n, e, t, c). readiness_Add n e t c) regs s))" for s :: "'a readiness"
    by (induction regs arbitrary: s) (auto simp: distinct_registry)
  then show ?thesis by (simp add: build_registry_def readiness_NewService_def)
qed

lemma observe_names:
  "fold (observe_dependency report) names g (dep, l) =
     (case rp_Dependencies report dep of
        Some st \<Rightarrow> if dep \<in> set names \<and> l \<in> {''ok'', ''disabled'', ''error''} then Some (boolToFloat64 (l = state_label (ds_Status st))) else g (dep, l)
      | None \<Rightarrow> g (dep, l))"
proof (induction names arbitrary: g)
  case (Cons n ns)
  show ?case
  proof (cases "rp_Dependencies report dep")
    case (Some st)
    then show ?thesis using Cons by (cases "ds_Status st") (auto simp: observe_dependency_def boolToFloat64_def split: option.splits)
  next
    case None
    then show ?thesis using Cons by (auto simp: observe_dependency_def split: option.splits)
  qed
qed (simp split: option.splits)

text \<open>
  C35: The readiness endpoint tells the truth. For whatever dependencies were registered and in whatever order they are visited, the report has
  exactly one entry per dependency: disabled without its check being run, an error when an enabled dependency has no check, and otherwise
  the answer of its check under its own timeout, with one of two fixed texts in place of the error. The service is ready exactly if no
  enabled dependency failed. The endpoint answers 200 and \<open>ok\<close> when it is ready and 503 when it is not, and with metrics on the gauges show
  the same: readiness, and for each dependency a one at its state and zeros at the other two, with no series left of earlier reports.
\<close>

theorem readyz_exact:
  assumes "s = build_registry regs" and "hm_readiness m = Some s" and "mset (od_checks od s) = mset s"
    and "\<forall>report. finite (dom (rp_Dependencies report)) \<longrightarrow> set (od_names od report) = dom (rp_Dependencies report)"
  shows "\<exists>(report :: Report) w'. Adapter enc L True () (readyz encode od m) r w =
      Ret (response_JSON enc (if rp_Status report = StatusReady then 200 else 503)
        \<lparr>env_OK = (rp_Status report = StatusReady), env_Data = Some (encode report), env_Error = None, env_RequestID = ctx_request_id r, env_Meta = None\<rparr> w') \<and>
    dom (rp_Dependencies report) = dom (map_of s) \<and>
    (\<forall>n d. map_of s n = Some d \<longrightarrow> reported r d (the (rp_Dependencies report n))) \<and>
    (rp_Status report = StatusReady \<longleftrightarrow>
       (\<forall>n d. map_of s n = Some d \<and> dy_enabled d \<longrightarrow> ds_Status (the (rp_Dependencies report n)) = DependencyOK)) \<and>
    (metrics_Enabled (hm_metrics m) \<longrightarrow>
       mt_ready (hv_gauges (svc w')) = boolToFloat64 (rp_Status report = StatusReady) \<and>
       (\<forall>n l. mt_dependency (hv_gauges (svc w')) (n, l) =
          (case rp_Dependencies report n of
             None \<Rightarrow> None
           | Some st \<Rightarrow> if l \<in> {''ok'', ''disabled'', ''error''} then Some (boolToFloat64 (l = state_label (ds_Status st))) else None)))"
proof -
  let ?order = "od_checks od s"
  obtain report w1 where check: "Service_Check ?order r w = (report, w1)" by fastforce
  have "mset (map fst ?order) = mset (map fst s)" using assms(3) by simp
  then have dis: "distinct (map fst ?order)" using build_registry_distinct assms(1) mset_eq_imp_distinct_iff by blast
  have same: "map_of ?order = map_of s"
    using assms(1,3) dis build_registry_distinct by (metis map_of_inject_set mset_eq_setD)
  have "covers r [] \<lparr>rp_Status = StatusReady, rp_Dependencies = Map.empty\<rparr>" by (simp add: covers_def)
  from fold_covers [OF this check [unfolded Service_Check_def]] dis have cov: "covers r ?order report" by simp
  have mem: "map_of s n = Some d \<longleftrightarrow> (n, d) \<in> set ?order" for n d
    using same dis map_of_eq_Some_iff [of ?order n d] by simp
  have dom: "dom (rp_Dependencies report) = dom (map_of s)"
    using cov same [symmetric] by (simp add: covers_def dom_map_of_conv_image_fst)
  have rep: "map_of s n = Some d \<Longrightarrow> reported r d (the (rp_Dependencies report n))" for n d
    using cov mem by (auto simp: covers_def)
  have fine: "ds_Status st \<noteq> DependencyError \<longleftrightarrow> (dy_enabled d \<longrightarrow> ds_Status st = DependencyOK)" if "reported r d st" for d st
    using that by (auto simp: reported_def split: if_splits option.splits)
  have "rp_Status report = StatusReady \<longleftrightarrow> (\<forall>n st. rp_Dependencies report n = Some st \<longrightarrow> ds_Status st \<noteq> DependencyError)"
    using cov by (simp add: covers_def)
  also have "\<dots> \<longleftrightarrow> (\<forall>n d. map_of s n = Some d \<longrightarrow> ds_Status (the (rp_Dependencies report n)) \<noteq> DependencyError)"
    using dom by (metis domD domI option.sel)
  also have "\<dots> \<longleftrightarrow> (\<forall>n d. map_of s n = Some d \<and> dy_enabled d \<longrightarrow> ds_Status (the (rp_Dependencies report n)) = DependencyOK)"
    using rep fine by meson
  finally have ready: "rp_Status report = StatusReady \<longleftrightarrow> \<dots>" .
  have names: "set (od_names od report) = dom (rp_Dependencies report)" using assms(4) dom by (simp add: finite_dom_map_of)
  let ?w = "if hm_metrics m \<noteq> None
    then w1\<lparr>svc := (svc w1)\<lparr>hv_gauges := ObserveReadiness (hm_metrics m) (od_names od report) report (hv_gauges (svc w1))\<rparr>\<rparr> else w1"
  have "Adapter enc L True () (readyz encode od m) r w =
      Ret (response_JSON enc (if rp_Status report = StatusReady then 200 else 503)
        \<lparr>env_OK = (rp_Status report = StatusReady), env_Data = Some (encode report), env_Error = None, env_RequestID = ctx_request_id r, env_Meta = None\<rparr> ?w)"
    using check assms(2) by (simp add: Adapter_def readyz_def Let_def)
  moreover have "mt_ready (hv_gauges (svc ?w)) = boolToFloat64 (rp_Status report = StatusReady) \<and>
       (\<forall>n l. mt_dependency (hv_gauges (svc ?w)) (n, l) =
          (case rp_Dependencies report n of
             None \<Rightarrow> None
           | Some st \<Rightarrow> if l \<in> {''ok'', ''disabled'', ''error''} then Some (boolToFloat64 (l = state_label (ds_Status st))) else None))"
    if "metrics_Enabled (hm_metrics m)"
    using that names
    by (auto simp: metrics_Enabled_def ObserveReadiness_def observe_names boolToFloat64_def domIff split: option.splits)
  ultimately show ?thesis using dom rep ready by blast
qed

text \<open>Postgres disabled, Redis down, a mail relay up.\<close>

definition sample_registry :: "unit health_svc readiness" where
  "sample_registry = build_registry [(''postgres'', False, 1, None), (''redis'', True, 1, Some (\<lambda>ctx w. (Some (Wrapped ''ping: '' DeadlineExceeded), w))),
     (''relay'', True, 1, Some (\<lambda>ctx w. (None, w)))]"

definition sample_orders :: "unit orders" where
  "sample_orders = \<lparr>od_checks = rev, od_names = \<lambda>rp. sorted_list_of_set (dom (rp_Dependencies rp))\<rparr>"

definition no_json :: "unit json_lib" where
  "no_json = \<lparr>jl_decode = (\<lambda>s. Inr ((), [])), jl_again = (\<lambda>s. None), jl_validate = (\<lambda>q. None), jl_unknown = (\<lambda>s. None)\<rparr>"

theorem readyz_exact_witness:
  "\<exists>(report :: Report) w'. Adapter (\<lambda>e. []) no_json True () (readyz (\<lambda>rp. []) sample_orders \<lparr>hm_readiness = Some sample_registry, hm_metrics = None\<rparr>)
       blank_request (blank_world \<lparr>hv_gauges = \<lparr>mt_ready = 0, mt_dependency = Map.empty, mt_limits = \<lambda>l. 0, mt_cache = \<lambda>l. 0\<rparr>, hv_rest = ()\<rparr>) =
     Ret (response_JSON (\<lambda>e. []) 503 \<lparr>env_OK = False, env_Data = Some [], env_Error = None, env_RequestID = ctx_request_id blank_request, env_Meta = None\<rparr> w') \<and>
     rp_Dependencies report ''redis'' = Some (dep_status DependencyError ''timeout'')"
proof -
  let ?m = "\<lparr>hm_readiness = Some sample_registry, hm_metrics = None\<rparr> :: unit health_module"
  let ?w = "blank_world \<lparr>hv_gauges = \<lparr>mt_ready = 0, mt_dependency = Map.empty, mt_limits = \<lambda>l. 0, mt_cache = \<lambda>l. 0\<rparr>, hv_rest = ()\<rparr>"
  have redis: "map_of sample_registry ''redis'' =
      Some \<lparr>dy_enabled = True, dy_timeout = 1, dy_check = Some (\<lambda>ctx w. (Some (Wrapped ''ping: '' DeadlineExceeded), w))\<rparr>"
    by (simp add: sample_registry_def build_registry_def readiness_NewService_def readiness_Add_def)
  have h: "hm_readiness ?m = Some sample_registry" "mset (od_checks sample_orders sample_registry) = mset sample_registry"
    "\<forall>rp. finite (dom (rp_Dependencies rp)) \<longrightarrow> set (od_names sample_orders rp) = dom (rp_Dependencies rp)"
    by (simp_all add: sample_orders_def)
  obtain report :: Report and w' where a: "Adapter (\<lambda>e. []) no_json True () (readyz (\<lambda>rp. []) sample_orders ?m) blank_request ?w =
      Ret (response_JSON (\<lambda>e. []) (if rp_Status report = StatusReady then 200 else 503)
        \<lparr>env_OK = (rp_Status report = StatusReady), env_Data = Some [], env_Error = None, env_RequestID = ctx_request_id blank_request, env_Meta = None\<rparr> w')"
    and dom: "dom (rp_Dependencies report) = dom (map_of sample_registry)"
    and rep: "\<forall>n d. map_of sample_registry n = Some d \<longrightarrow> reported blank_request d (the (rp_Dependencies report n))"
    and ready: "rp_Status report = StatusReady \<longleftrightarrow> (\<forall>n d. map_of sample_registry n = Some d \<and> dy_enabled d \<longrightarrow>
       ds_Status (the (rp_Dependencies report n)) = DependencyOK)"
    using readyz_exact [OF sample_registry_def h, where enc = "\<lambda>e. []" and L = no_json and encode = "\<lambda>rp. []" and r = blank_request and w = ?w]
    by blast
  from redis rep have "reported blank_request (the (map_of sample_registry ''redis'')) (the (rp_Dependencies report ''redis''))" by simp
  with redis have st: "the (rp_Dependencies report ''redis'') = dep_status DependencyError ''timeout''" by (simp add: reported_def)
  from dom redis have "''redis'' \<in> dom (rp_Dependencies report)" by (simp add: domI)
  with st have entry: "rp_Dependencies report ''redis'' = Some (dep_status DependencyError ''timeout'')" by auto
  have "rp_Status report \<noteq> StatusReady"
  proof
    assume "rp_Status report = StatusReady"
    with ready redis have "ds_Status (the (rp_Dependencies report ''redis'')) = DependencyOK" by (simp del: split_paired_All)
    with st show False by simp
  qed
  with a entry show ?thesis by (intro exI [of _ report] exI [of _ w']) simp
qed

end
