(* ===== verification/Startup.thy ===== *)
theory Startup
  imports Auth_Config Readiness Tenancy
begin

text \<open>
  Features and dependencies: \<open>internal/core/app/feature.go\<close>, \<open>initDependencies\<close> and \<open>Close\<close> of \<open>deps.go\<close>, the constructors it calls
  (\<open>db.NewPool\<close>, \<open>cache.NewRedisClient\<close>, \<open>tracing.New\<close>), and the tenancy feature (\<open>internal/tenancy/feature.go\<close>, \<open>LoadConfig\<close>).

  What the process opens and closes is a trace of events. The answers of the libraries (pgx, go-redis, Prometheus, goAuth's
  builder, OpenTelemetry) are functions of the record \<open>startlib\<close>. A hook receives the part of the dependencies that hooks read.
\<close>

section \<open>Resources\<close>

datatype resource = PostgresPool | RedisClient | GoAuthEngine | TraceExporter

datatype app_event =
    Opened resource
  | Closed resource
  | ServerShutdown int   \<comment> \<open>the deadline of \<open>server.Shutdown\<close>\<close>
  | NotifierShutdown int   \<comment> \<open>the deadline of \<open>Dispatcher.Shutdown\<close>\<close>
  | Warned string

section \<open>Features\<close>

datatype user_provider = CoreProvider StoreUserProvider | TenantProvider StoreUserProvider bool | OtherProvider nat
datatype user_repository = CoreUsers | TenantUsers user_repository bool | OtherUsers nat

record deps_view =
  dv_DB :: bool
  dv_Metrics :: "MetricsConfig option"

record ('s, 'c) Hooks =
  hk_Deprecations :: "string list"
  hk_GoAuthConfig :: "'c ConfigMutator option"
  hk_UserProvider :: "(deps_view \<Rightarrow> StoreUserProvider \<Rightarrow> user_provider) option"
  hk_UserRepository :: "(deps_view \<Rightarrow> user_repository \<Rightarrow> user_repository) option"
  hk_Middleware :: "(deps_view \<Rightarrow> 's middleware option) option"
  hk_AuthExtension :: "'s AuthExtension option"
  hk_RouteRules :: "RouteRule option list"

record ('s, 'c) Feature =
  fe_Name :: string
  fe_Load :: "Config \<Rightarrow> string + ('s, 'c) Hooks option"

type_synonym ('s, 'c) loaded = "(string \<times> ('s, 'c) Hooks) list"   \<comment> \<open>the feature's name and its hooks\<close>

text \<open>The loop of \<open>loadFeatures\<close>: \<open>None\<close> is a nil feature; \<open>out\<close> is what is loaded so far.\<close>

fun load_loop :: "Config \<Rightarrow> ('s, 'c) Feature option list \<Rightarrow> ('s, 'c) loaded \<Rightarrow> string + ('s, 'c) loaded" where
  "load_loop cfg [] out = Inr out"
| "load_loop cfg (None # fs) out = load_loop cfg fs out"
| "load_loop cfg (Some f # fs) out =
     (case fe_Load f cfg of
        Inl e \<Rightarrow> Inl (''feature '' @ fe_Name f @ '': '' @ e)
      | Inr None \<Rightarrow> load_loop cfg fs out
      | Inr (Some hooks) \<Rightarrow> load_loop cfg fs (out @ [(fe_Name f, hooks)]))"

definition providers :: "('s, 'c) loaded \<Rightarrow> nat" where
  "providers fs = length (filter (\<lambda>lf. hk_UserProvider (snd lf) \<noteq> None) fs)"

definition loadFeatures :: "Config \<Rightarrow> ('s, 'c) Feature option list \<Rightarrow> string + ('s, 'c) loaded" where
  "loadFeatures cfg features =
     (case load_loop cfg features [] of
        Inl e \<Rightarrow> Inl e
      | Inr out \<Rightarrow> if providers out > 1 then Inl ''more than one feature wraps the goAuth user provider; only one may'' else Inr out)"

section \<open>The tenancy feature\<close>

definition tenancy_LoadConfig :: "floats \<Rightarrow> environ \<Rightarrow> TenancyConfig" where
  "tenancy_LoadConfig F env =
     \<lparr>tc_Enabled = EnvBool env ''TENANCY_ENABLED'' False,
      tc_Resolver = to_lower (trim_space (EnvString env ''TENANCY_RESOLVER'' ResolverHeader)),
      tc_Header = trim_space (EnvString env ''TENANCY_HEADER'' ''X-Tenant-ID''),
      tc_BaseDomain = to_lower (trim_dots (trim_space (EnvString env ''TENANCY_BASE_DOMAIN'' []))),
      tc_Validate = EnvBool env ''TENANCY_VALIDATE'' True,
      tc_ValidateCacheTTL = EnvDuration F env ''TENANCY_VALIDATE_CACHE_TTL'' (30 * second),
      tc_ExemptPaths = EnvCSV env ''TENANCY_EXEMPT_PATHS'' [''/healthz'', ''/readyz'', ''/metrics'']\<rparr>"

definition tenancy_deprecations :: "environ \<Rightarrow> string list" where
  "tenancy_deprecations env =
     (if EnvDeprecated env ''TENANCY_ENFORCE_ISOLATION'' then [''TENANCY_ENFORCE_ISOLATION is deprecated and ignored''] else [])"

fun tenancy_lint_text :: "tenancy_lint \<Rightarrow> string" where
  "tenancy_lint_text BadHeader = ''tenancy header must be a single non-empty header name''"
| "tenancy_lint_text NoBaseDomain = ''tenancy resolver subdomain requires TENANCY_BASE_DOMAIN''"
| "tenancy_lint_text SubdomainNeedsValidate = ''tenancy resolver subdomain requires TENANCY_VALIDATE=true''"
| "tenancy_lint_text (BadResolver r) = ''invalid tenancy resolver: '' @ quoted r @ '' (valid: header, subdomain)''"
| "tenancy_lint_text NeedsPostgres = ''tenancy validate requires postgres enabled''"
| "tenancy_lint_text NegativeCacheTTL = ''tenancy validate cache ttl must be >= 0''"
| "tenancy_lint_text (BadExemptPath p) = ''tenancy exempt path must start with a slash: '' @ quoted p"

definition tenancy_resolver_config :: "TenancyConfig \<Rightarrow> deps_view \<Rightarrow> ResolverConfig" where
  "tenancy_resolver_config cfg d =
     \<lparr>rc_Resolver = tc_Resolver cfg, rc_Header = tc_Header cfg, rc_BaseDomain = tc_BaseDomain cfg,
      rc_ExemptPaths = tc_ExemptPaths cfg @
        (case dv_Metrics d of Some m \<Rightarrow> if metrics_Enabled (Some m) then [metrics_Path m] else [] | None \<Rightarrow> []),
      rc_CacheTTL = tc_ValidateCacheTTL cfg\<rparr>"

text \<open>\<open>directory\<close> is the repository over the database boundary.\<close>

definition tenancy_middleware :: "(Envelope \<Rightarrow> string) \<Rightarrow> 's Directory \<Rightarrow> TenancyConfig \<Rightarrow> deps_view \<Rightarrow> 's tenant_svc middleware" where
  "tenancy_middleware enc directory cfg d =
     Middleware enc (tenancy_resolver_config cfg d) (if tc_Validate cfg \<and> dv_DB d then Some directory else None)"

definition tenancy_hooks :: "(Envelope \<Rightarrow> string) \<Rightarrow> environ \<Rightarrow> 's Directory \<Rightarrow> TenancyConfig \<Rightarrow> ('s tenant_svc, 'c) Hooks" where
  "tenancy_hooks enc env directory cfg =
     (let hooks = \<lparr>hk_Deprecations = tenancy_deprecations env, hk_GoAuthConfig = None, hk_UserProvider = None, hk_UserRepository = None,
            hk_Middleware = None, hk_AuthExtension = Some (tenancy_AuthExtension (tc_Enabled cfg)),
            hk_RouteRules = [Some (tenancy_RouteRule (tc_Enabled cfg))]\<rparr> in
      if \<not> tc_Enabled cfg then hooks
      else hooks\<lparr>hk_GoAuthConfig := Some EnableMultiTenant,
             hk_UserProvider := Some (\<lambda>d b. TenantProvider b (dv_DB d)),
             hk_UserRepository := Some (\<lambda>d b. TenantUsers b (dv_DB d)),
             hk_Middleware := Some (\<lambda>d. Some (tenancy_middleware enc directory cfg d))\<rparr>)"

definition tenancy_Load :: "(Envelope \<Rightarrow> string) \<Rightarrow> floats \<Rightarrow> environ \<Rightarrow> 's Directory \<Rightarrow> Config \<Rightarrow> string + ('s tenant_svc, 'c) Hooks option" where
  "tenancy_Load enc F env directory core =
     (let cfg = tenancy_LoadConfig F env in
      case tenancy_Lint (pg_Enabled (cf_Postgres core)) cfg of
        Some e \<Rightarrow> Inl (tenancy_lint_text e)
      | None \<Rightarrow> Inr (Some (tenancy_hooks enc env directory cfg)))"

definition tenancy_Feature :: "(Envelope \<Rightarrow> string) \<Rightarrow> floats \<Rightarrow> environ \<Rightarrow> 's Directory \<Rightarrow> ('s tenant_svc, 'c) Feature" where
  "tenancy_Feature enc F env directory = \<lparr>fe_Name = ''tenancy'', fe_Load = tenancy_Load enc F env directory\<rparr>"

section \<open>Libraries and dependencies\<close>

record ('s, 'c) startlib =
  sl_goauth :: "'c goauthlib"
  sl_env :: environ
  sl_net :: netlib
  sl_parseURL :: "string \<Rightarrow> string option"
  sl_pgConnect :: "PostgresConfig \<Rightarrow> string option"
  sl_pgPing :: "int \<Rightarrow> string option"
  sl_redisPing :: "RedisConfig \<Rightarrow> int \<Rightarrow> string option"
  sl_register :: "string list \<Rightarrow> string \<Rightarrow> string option"
  sl_build :: "bool \<Rightarrow> 'c goauth_config \<Rightarrow> string list \<Rightarrow> (string \<times> string list) list \<Rightarrow> user_provider \<Rightarrow> string + nat"
  sl_exporter :: "TracingConfig \<Rightarrow> string option"
  sl_resource :: "TracingConfig \<Rightarrow> string \<Rightarrow> string option"
  sl_checkPG :: "'s CheckFunc"   \<comment> \<open>\<open>pool.Ping\<close> and \<open>client.Ping\<close> at run time\<close>
  sl_checkRedis :: "'s CheckFunc"

datatype sampler = AlwaysSample | NeverSample | TraceIDRatioBased float64

record trace_service =
  ts_enabled :: bool
  ts_sampler :: "sampler option"
  ts_shutdownFn :: bool

record ('s, 'c) Dependencies =
  dn_Postgres :: bool
  dn_DB :: bool
  dn_Redis :: bool
  dn_Readiness :: "'s readiness"
  dn_Metrics :: "MetricsConfig option"
  dn_Tracing :: "trace_service option"
  dn_AuthEngine :: "nat option"
  dn_AuthMode :: Mode
  dn_RateLimit :: RateLimitConfig
  dn_Cache :: CacheConfig
  dn_Limiter :: "RedisLimiter option"
  dn_CacheMgr :: "Manager option"
  dn_Auth :: AuthConfig
  dn_Notifier :: "(notifier \<times> dispatcher) option"
  dn_AuthUsers :: "user_repository option"
  dn_authClose :: bool
  dn_features :: "('s, 'c) loaded"

text \<open>The state of the start: the trace, and the table of authentication extensions that \<open>policy\<close> keeps.\<close>

record 's boot =
  bt_trace :: "app_event list"
  bt_exts :: "'s ext_table"

definition emit :: "app_event list \<Rightarrow> 's boot \<Rightarrow> 's boot" where
  "emit evs b = b\<lparr>bt_trace := bt_trace b @ evs\<rparr>"

definition hook_view :: "('s, 'c) Dependencies \<Rightarrow> deps_view" where
  "hook_view d = \<lparr>dv_DB = dn_DB d, dv_Metrics = dn_Metrics d\<rparr>"

definition Deprecations :: "('s, 'c) Dependencies option \<Rightarrow> string list" where
  "Deprecations d = (case d of None \<Rightarrow> [] | Some deps \<Rightarrow> concat (map (\<lambda>lf. hk_Deprecations (snd lf)) (dn_features deps)))"

section \<open>Constructors\<close>

definition db_NewPool :: "('s, 'c) startlib \<Rightarrow> PostgresConfig \<Rightarrow> 's boot \<Rightarrow> (string + unit) \<times> 's boot" where
  "db_NewPool L cfg b =
     (case sl_parseURL L (pg_URL cfg) of
        Some e \<Rightarrow> (Inl (''postgres parse config: '' @ e), b)
      | None \<Rightarrow> (case sl_pgConnect L cfg of
          Some e \<Rightarrow> (Inl (''postgres connect: '' @ e), b)
        | None \<Rightarrow> (case sl_pgPing L (pg_StartupPingTimeout cfg) of
            Some e \<Rightarrow> (Inl (''postgres startup ping failed: '' @ e), emit [Opened PostgresPool, Closed PostgresPool] b)
          | None \<Rightarrow> (Inr (), emit [Opened PostgresPool] b))))"

definition cache_NewRedisClient :: "('s, 'c) startlib \<Rightarrow> RedisConfig \<Rightarrow> 's boot \<Rightarrow> (string + unit) \<times> 's boot" where
  "cache_NewRedisClient L cfg b =
     (case sl_redisPing L cfg (rd_StartupPingTimeout cfg) of
        Some e \<Rightarrow> (Inl (''redis startup ping failed: '' @ e), emit [Opened RedisClient, Closed RedisClient] b)
      | None \<Rightarrow> (Inr (), emit [Opened RedisClient] b))"

definition selectSampler :: "TracingConfig \<Rightarrow> sampler" where
  "selectSampler cfg =
     (if trc_Sampler cfg = ''always_on'' then AlwaysSample else if trc_Sampler cfg = ''always_off'' then NeverSample
      else if trc_Sampler cfg = ''traceidratio'' then TraceIDRatioBased (trc_SampleRatio cfg) else TraceIDRatioBased (Finite (5 / 100)))"

definition tracing_New :: "('s, 'c) startlib \<Rightarrow> TracingConfig \<Rightarrow> string \<Rightarrow> 's boot \<Rightarrow> (string + trace_service) \<times> 's boot" where
  "tracing_New L cfg env b =
     (if \<not> trc_Enabled cfg then (Inr \<lparr>ts_enabled = False, ts_sampler = None, ts_shutdownFn = False\<rparr>, b)
      else if trc_Exporter cfg \<noteq> ''otlpgrpc'' then (Inl (''unsupported tracing exporter: '' @ trc_Exporter cfg), b)
      else (case sl_exporter L cfg of
          Some e \<Rightarrow> (Inl (''init otlpgrpc exporter: '' @ e), b)
        | None \<Rightarrow> (case sl_resource L cfg env of
            Some e \<Rightarrow> (Inl (''init tracing resource: '' @ e), emit [Opened TraceExporter] b)
          | None \<Rightarrow> (Inr \<lparr>ts_enabled = True, ts_sampler = Some (selectSampler cfg), ts_shutdownFn = True\<rparr>, emit [Opened TraceExporter] b))))"

section \<open>Wiring\<close>

type_synonym ('s, 'c) boot_stage = "('s, 'c) Dependencies \<Rightarrow> 's boot \<Rightarrow> (string + ('s, 'c) Dependencies) \<times> 's boot"

definition boot_then :: "('s, 'c) boot_stage \<Rightarrow> ('s, 'c) boot_stage \<Rightarrow> ('s, 'c) boot_stage" where
  "boot_then f g d b = (case f d b of (Inl e, b') \<Rightarrow> (Inl e, b') | (Inr d', b') \<Rightarrow> g d' b')"

text \<open>What every error return after the clients does: the Redis client, then the pool.\<close>

definition release :: "('s, 'c) Dependencies \<Rightarrow> app_event list" where
  "release d = (if dn_Redis d then [Closed RedisClient] else []) @ (if dn_Postgres d then [Closed PostgresPool] else [])"

definition fail_releasing :: "string \<Rightarrow> ('s, 'c) boot_stage" where
  "fail_releasing e d b = (Inl e, emit (release d) b)"

text \<open>\<open>deps.Redis\<close> where a \<open>redis.UniversalClient\<close> is expected. The field is a \<open>*redis.Client\<close>: in the interface even a nil pointer is not
  the nil interface, so the callee's test for nil never holds. The boolean says whether the pointer is nil.\<close>

definition redis_arg :: "('s, 'c) Dependencies \<Rightarrow> bool option" where
  "redis_arg d = Some (dn_Redis d)"

definition init_postgres :: "('s, 'c) startlib \<Rightarrow> Config \<Rightarrow> ('s, 'c) boot_stage" where
  "init_postgres L cfg d b =
     (let p = cf_Postgres cfg in
      if \<not> pg_Enabled p then (Inr (d\<lparr>dn_Readiness := readiness_Add ''postgres'' False (pg_HealthCheckTimeout p) None (dn_Readiness d)\<rparr>), b)
      else (case db_NewPool L p b of
          (Inl e, b') \<Rightarrow> (Inl (''init postgres: '' @ e), b')
        | (Inr pool, b') \<Rightarrow>
            (Inr (d\<lparr>dn_Postgres := True, dn_DB := True,
               dn_Readiness := readiness_Add ''postgres'' True (pg_HealthCheckTimeout p)
                 (Some (db_CheckHealth (Some (sl_checkPG L)) (pg_HealthCheckTimeout p))) (dn_Readiness d)\<rparr>), b')))"

definition init_redis :: "('s, 'c) startlib \<Rightarrow> Config \<Rightarrow> ('s, 'c) boot_stage" where
  "init_redis L cfg d b =
     (let r = cf_Redis cfg in
      if \<not> rd_Enabled r then (Inr (d\<lparr>dn_Readiness := readiness_Add ''redis'' False (rd_HealthCheckTimeout r) None (dn_Readiness d)\<rparr>), b)
      else (case cache_NewRedisClient L r b of
          (Inl e, b') \<Rightarrow> (Inl (''init redis: '' @ e), emit (if dn_Postgres d then [Closed PostgresPool] else []) b')
        | (Inr client, b') \<Rightarrow>
            (Inr (d\<lparr>dn_Redis := True,
               dn_Readiness := readiness_Add ''redis'' True (rd_HealthCheckTimeout r)
                 (Some (cache_CheckHealth (Some (sl_checkRedis L)) (rd_HealthCheckTimeout r))) (dn_Readiness d)\<rparr>), b')))"

definition init_metrics :: "('s, 'c) startlib \<Rightarrow> Config \<Rightarrow> ('s, 'c) boot_stage" where
  "init_metrics L cfg d b =
     (case metrics_New (sl_register L) (cf_Metrics cfg) (dn_Postgres d) of
        Inl e \<Rightarrow> fail_releasing (''init metrics: '' @ e) d b
      | Inr m \<Rightarrow> (Inr (d\<lparr>dn_Metrics := Some m\<rparr>), b))"

definition init_mode :: "Config \<Rightarrow> ('s, 'c) boot_stage" where
  "init_mode cfg d b =
     (case ParseMode (au_Mode (cf_Auth cfg)) of
        Inl e \<Rightarrow> fail_releasing (''init auth mode: '' @ e) d b
      | Inr mode \<Rightarrow> (Inr (d\<lparr>dn_AuthMode := mode, dn_AuthEngine := None\<rparr>), b))"

text \<open>The loop over the features: provider, repository, mutators and extensions.\<close>

fun feature_loop :: "deps_view \<Rightarrow> StoreUserProvider \<Rightarrow> ('s, 'c) loaded
    \<Rightarrow> user_provider \<times> user_repository \<times> 'c ConfigMutator option list \<times> 's AuthExtension list
    \<Rightarrow> user_provider \<times> user_repository \<times> 'c ConfigMutator option list \<times> 's AuthExtension list" where
  "feature_loop v userProvider [] acc = acc"
| "feature_loop v userProvider (lf # lfs) (provider, userRepo, mutators, extensions) =
     (let h = snd lf in feature_loop v userProvider lfs
       ((case hk_UserProvider h of None \<Rightarrow> provider | Some f \<Rightarrow> f v userProvider),
        (case hk_UserRepository h of None \<Rightarrow> userRepo | Some f \<Rightarrow> f v userRepo),
        (case hk_GoAuthConfig h of None \<Rightarrow> mutators | Some m \<Rightarrow> mutators @ [Some m]),
        (case hk_AuthExtension h of None \<Rightarrow> extensions | Some x \<Rightarrow> extensions @ [x])))"

definition core_provider :: "('s, 'c) startlib \<Rightarrow> Config \<Rightarrow> (config_error + string) + StoreUserProvider" where
  "core_provider L cfg =
     (let p = WithWebAuthnRepository True (NewStoreUserProvider True) in
      if \<not> au_TOTPEnabled (cf_Auth cfg) then Inr p
      else (case newTOTPCipher (sl_net L) (cf_Auth cfg) of
          Inl e \<Rightarrow> Inl e
        | Inr cipher \<Rightarrow> Inr (provider_WithTx True (WithMFA True (Some cipher) p))))"

definition init_auth :: "('s, 'c) startlib \<Rightarrow> Config \<Rightarrow> ('s, 'c) boot_stage" where
  "init_auth L cfg d b =
     (if \<not> au_Enabled (cf_Auth cfg) then (Inr d, b)
      else if \<not> dn_DB d then fail_releasing ''init auth provider: relational database unavailable'' d b
      else (case core_provider L cfg of
          Inl e \<Rightarrow> fail_releasing ''init auth provider: totp encryption key'' d b
        | Inr userProvider \<Rightarrow>
            (case feature_loop (hook_view d) userProvider (dn_features d) (CoreProvider userProvider, CoreUsers, [], []) of
               (provider, userRepo, mutators, extensions) \<Rightarrow>
                 (case NewGoAuthEngine (sl_goauth L) (sl_build L) (sl_env L) (redis_arg d) (dn_AuthMode d)
                       (AuthFeatures (Some cfg)) provider mutators of
                    Inl e \<Rightarrow> fail_releasing (''init auth provider: '' @ e) d b
                  | Inr engine \<Rightarrow>
                      (Inr (d\<lparr>dn_AuthEngine := Some engine, dn_AuthUsers := Some userRepo, dn_authClose := True\<rparr>),
                       emit [Opened GoAuthEngine] (b\<lparr>bt_exts := UseAuthExtensions (Some engine) extensions (bt_exts b)\<rparr>))))))"

definition init_limiter :: "Config \<Rightarrow> ('s, 'c) boot_stage" where
  "init_limiter cfg d b =
     (if \<not> rlc_Enabled (cf_RateLimit cfg) then (Inr d, b)
      else (case NewRedisLimiter (redis_arg d \<noteq> None) (cf_Env cfg) (rlc_FailOpen (cf_RateLimit cfg)) True of
          None \<Rightarrow> fail_releasing ''init rate limiter: ratelimit requires redis client'' d b
        | Some l \<Rightarrow> (Inr (d\<lparr>dn_Limiter := Some l\<rparr>), b)))"

definition manager_config :: "Config \<Rightarrow> ManagerConfig" where
  "manager_config cfg =
     \<lparr>mc_Env = cf_Env cfg, mc_FailOpen = ca_FailOpen (cf_Cache cfg), mc_DefaultMaxBytes = ca_DefaultMaxBytes (cf_Cache cfg),
      mc_TagVersionCacheTTL = ca_TagVersionCacheTTL (cf_Cache cfg), mc_Observe = True\<rparr>"

definition init_cache :: "Config \<Rightarrow> ('s, 'c) boot_stage" where
  "init_cache cfg d b =
     (if \<not> ca_Enabled (cf_Cache cfg) then (Inr d, b)
      else (case NewManager (redis_arg d \<noteq> None) (manager_config cfg) of
          Inl e \<Rightarrow> fail_releasing ''init cache manager: cache manager requires redis client'' d b
        | Inr m \<Rightarrow> (Inr (d\<lparr>dn_CacheMgr := Some m\<rparr>), b)))"

definition init_tracing :: "('s, 'c) startlib \<Rightarrow> Config \<Rightarrow> ('s, 'c) boot_stage" where
  "init_tracing L cfg d b =
     (case tracing_New L (cf_Tracing cfg) (cf_Env cfg) b of
        (Inl e, b') \<Rightarrow> fail_releasing (''init tracing: '' @ e) d b'
      | (Inr t, b') \<Rightarrow> (Inr (d\<lparr>dn_Tracing := Some t\<rparr>), b'))"

definition empty_deps :: "Config \<Rightarrow> ('s, 'c) loaded \<Rightarrow> ('s, 'c) Dependencies" where
  "empty_deps cfg fs =
     \<lparr>dn_Postgres = False, dn_DB = False, dn_Redis = False, dn_Readiness = readiness_NewService, dn_Metrics = None, dn_Tracing = None,
      dn_AuthEngine = None, dn_AuthMode = [], dn_RateLimit = cf_RateLimit cfg, dn_Cache = cf_Cache cfg, dn_Limiter = None, dn_CacheMgr = None,
      dn_Auth = cf_Auth cfg, dn_Notifier = None, dn_AuthUsers = None, dn_authClose = False, dn_features = fs\<rparr>"

definition wire :: "('s, 'c) startlib \<Rightarrow> Config \<Rightarrow> ('s, 'c) boot_stage" where
  "wire L cfg = boot_then (init_postgres L cfg) (boot_then (init_redis L cfg) (boot_then (init_metrics L cfg) (boot_then (init_mode cfg)
     (boot_then (init_auth L cfg) (boot_then (init_limiter cfg) (boot_then (init_cache cfg) (init_tracing L cfg)))))))"

definition initDependencies :: "('s, 'c) startlib \<Rightarrow> Config \<Rightarrow> ('s, 'c) Feature option list \<Rightarrow> 's boot
    \<Rightarrow> (string + ('s, 'c) Dependencies) \<times> 's boot" where
  "initDependencies L cfg features b =
     (case loadFeatures cfg features of
        Inl e \<Rightarrow> (Inl e, b)
      | Inr fs \<Rightarrow> wire L cfg (empty_deps cfg fs) b)"

text \<open>\<open>Close\<close>: the engine, the client, the pool; not the tracer.\<close>

definition Dependencies_Close :: "('s, 'c) Dependencies option \<Rightarrow> 's boot \<Rightarrow> 's boot" where
  "Dependencies_Close d b =
     (case d of
        None \<Rightarrow> b
      | Some deps \<Rightarrow> emit ((if dn_authClose deps then [Closed GoAuthEngine] else []) @ release deps) b)"

section \<open>What is held\<close>

text \<open>The resources open after a trace, from those open before it; \<open>None\<close> when one is opened twice or closed while it is not open.\<close>

fun track :: "resource set \<Rightarrow> app_event list \<Rightarrow> resource set option" where
  "track S [] = Some S"
| "track S (Opened r # evs) = (if r \<in> S then None else track (insert r S) evs)"
| "track S (Closed r # evs) = (if r \<in> S then track (S - {r}) evs else None)"
| "track S (ev # evs) = track S evs"

lemma track_append: "track S (xs @ ys) = (case track S xs of None \<Rightarrow> None | Some S' \<Rightarrow> track S' ys)"
  by (induction S xs rule: track.induct) simp_all

definition resources :: "('s, 'c) Dependencies \<Rightarrow> resource set" where
  "resources d =
     (if dn_Postgres d then {PostgresPool} else {}) \<union> (if dn_Redis d then {RedisClient} else {}) \<union>
     (if dn_authClose d then {GoAuthEngine} else {}) \<union>
     (case dn_Tracing d of Some t \<Rightarrow> if ts_shutdownFn t then {TraceExporter} else {} | None \<Rightarrow> {})"

definition holds :: "('s, 'c) Dependencies \<Rightarrow> 's boot \<Rightarrow> bool" where
  "holds d b \<longleftrightarrow> track {} (bt_trace b) = Some (resources d)"

text \<open>What a failed start may leave behind: no connection.\<close>

definition no_connections :: "'s boot \<Rightarrow> bool" where
  "no_connections b \<longleftrightarrow> (\<exists>S. track {} (bt_trace b) = Some S \<and> S \<subseteq> {GoAuthEngine, TraceExporter})"

text \<open>A stage from dependencies with \<open>P\<close> ends in dependencies with \<open>Q\<close> that hold what the trace holds, or fails and gives the connections back.\<close>

definition stage_ok :: "(('s, 'c) Dependencies \<Rightarrow> bool) \<Rightarrow> ('s, 'c) boot_stage \<Rightarrow> (('s, 'c) Dependencies \<Rightarrow> bool) \<Rightarrow> bool" where
  "stage_ok P f Q \<longleftrightarrow> (\<forall>d b. P d \<and> holds d b \<longrightarrow>
     (case f d b of (Inr d', b') \<Rightarrow> Q d' \<and> holds d' b' | (Inl e, b') \<Rightarrow> no_connections b'))"

lemma stage_okI:
  assumes "\<And>d b d' b'. P d \<Longrightarrow> holds d b \<Longrightarrow> f d b = (Inr d', b') \<Longrightarrow> Q d' \<and> holds d' b'"
    and "\<And>d b e b'. P d \<Longrightarrow> holds d b \<Longrightarrow> f d b = (Inl e, b') \<Longrightarrow> no_connections b'"
  shows "stage_ok P f Q"
  unfolding stage_ok_def
proof (intro allI impI, elim conjE)
  fix d b assume p: "P d" "holds d b"
  obtain res b' where run: "f d b = (res, b')" by fastforce
  show "case f d b of (Inr d', b') \<Rightarrow> Q d' \<and> holds d' b' | (Inl e, b') \<Rightarrow> no_connections b'"
  proof (cases res)
    case (Inl e)
    with run assms(2) [OF p, of e b'] show ?thesis by simp
  next
    case (Inr d')
    with run assms(1) [OF p, of d' b'] show ?thesis by simp
  qed
qed

lemma stage_okD:
  assumes "stage_ok P f Q" and "P d" and "holds d b"
  shows "f d b = (Inr d', b') \<Longrightarrow> Q d' \<and> holds d' b'" and "f d b = (Inl e, b') \<Longrightarrow> no_connections b'"
  using assms by (force simp: stage_ok_def)+

lemma boot_then_Inr: "boot_then f g d b = (Inr d', b') \<longleftrightarrow> (\<exists>d1 b1. f d b = (Inr d1, b1) \<and> g d1 b1 = (Inr d', b'))"
  by (auto simp: boot_then_def split: sum.splits prod.splits)

lemma boot_then_Inl:
  "boot_then f g d b = (Inl e, b') \<longleftrightarrow> f d b = (Inl e, b') \<or> (\<exists>d1 b1. f d b = (Inr d1, b1) \<and> g d1 b1 = (Inl e, b'))"
  by (auto simp: boot_then_def split: sum.splits prod.splits)

lemma stage_ok_then:
  assumes f: "stage_ok P f Q" and g: "stage_ok Q g R"
  shows "stage_ok P (boot_then f g) R"
proof (rule stage_okI)
  fix d b d' b' assume p: "P d" "holds d b" and run: "boot_then f g d b = (Inr d', b')"
  then obtain d1 b1 where "f d b = (Inr d1, b1)" "g d1 b1 = (Inr d', b')" by (auto simp: boot_then_Inr)
  then show "R d' \<and> holds d' b'" using stage_okD(1) [OF f p] stage_okD(1) [OF g] by blast
next
  fix d b e b' assume p: "P d" "holds d b" and run: "boot_then f g d b = (Inl e, b')"
  then consider "f d b = (Inl e, b')" | d1 b1 where "f d b = (Inr d1, b1)" "g d1 b1 = (Inl e, b')" by (auto simp: boot_then_Inl)
  then show "no_connections b'" using stage_okD [OF f p] stage_okD(2) [OF g] by cases blast+
qed

lemma trace_emit [simp]: "bt_trace (emit evs b) = bt_trace b @ evs" "bt_exts (emit evs b) = bt_exts b"
  by (simp_all add: emit_def)

lemma release_connections:
  assumes "track {} (bt_trace b) = Some S" and "RedisClient \<in> S \<longleftrightarrow> dn_Redis d" and "PostgresPool \<in> S \<longleftrightarrow> dn_Postgres d"
  shows "track {} (bt_trace b @ release d) = Some (S - {RedisClient, PostgresPool})"
  using assms by (auto simp: track_append release_def)

lemma others: "S - {RedisClient, PostgresPool} \<subseteq> {GoAuthEngine, TraceExporter}"
  by (auto intro: resource.exhaust)

lemma release_ok:
  assumes "holds d b"
  shows "no_connections (emit (release d) b)"
proof -
  have "track {} (bt_trace b @ release d) = Some (resources d - {RedisClient, PostgresPool})"
    using assms by (intro release_connections) (auto simp: holds_def resources_def split: if_splits option.splits)
  then show ?thesis using others unfolding no_connections_def by fastforce
qed

lemma holds_same:
  "dn_Postgres d' = dn_Postgres d \<Longrightarrow> dn_Redis d' = dn_Redis d \<Longrightarrow> dn_authClose d' = dn_authClose d \<Longrightarrow> dn_Tracing d' = dn_Tracing d \<Longrightarrow>
    holds d' b = holds d b"
  by (simp add: holds_def resources_def)

text \<open>The order of the stages: the pool, the client, the engine, the tracer.\<close>

definition before_pool :: "('s, 'c) Dependencies \<Rightarrow> bool" where
  "before_pool d \<longleftrightarrow> \<not> dn_Postgres d \<and> \<not> dn_Redis d \<and> \<not> dn_authClose d \<and> dn_Tracing d = None"

definition before_client :: "('s, 'c) Dependencies \<Rightarrow> bool" where
  "before_client d \<longleftrightarrow> \<not> dn_Redis d \<and> \<not> dn_authClose d \<and> dn_Tracing d = None"

definition before_engine :: "('s, 'c) Dependencies \<Rightarrow> bool" where
  "before_engine d \<longleftrightarrow> \<not> dn_authClose d \<and> dn_Tracing d = None"

definition before_tracer :: "('s, 'c) Dependencies \<Rightarrow> bool" where
  "before_tracer d \<longleftrightarrow> dn_Tracing d = None"

lemma init_postgres_stage: "stage_ok before_pool (init_postgres L cfg) before_client"
  by (auto simp: stage_ok_def before_pool_def before_client_def init_postgres_def db_NewPool_def holds_def resources_def no_connections_def
      track_append Let_def split: sum.splits option.splits)

lemma init_redis_stage: "stage_ok before_client (init_redis L cfg) before_engine"
  by (auto simp: stage_ok_def before_client_def before_engine_def init_redis_def cache_NewRedisClient_def holds_def resources_def
      no_connections_def track_append Let_def split: sum.splits option.splits)

lemma init_metrics_stage: "stage_ok before_engine (init_metrics L cfg) before_engine"
  by (rule stage_okI)
    (auto simp: init_metrics_def before_engine_def holds_def resources_def fail_releasing_def release_ok split: sum.splits)

lemma init_mode_stage: "stage_ok before_engine (init_mode cfg) before_engine"
  by (rule stage_okI)
    (auto simp: init_mode_def before_engine_def holds_def resources_def fail_releasing_def release_ok split: sum.splits)

lemma init_auth_stage: "stage_ok before_engine (init_auth L cfg) before_tracer"
proof (rule stage_okI)
  fix d :: "('a, 'b) Dependencies" and b d' b'
  assume "before_engine d" "holds d b" "init_auth L cfg d b = (Inr d', b')"
  then show "before_tracer d' \<and> holds d' b'"
    by (auto simp: init_auth_def before_engine_def before_tracer_def holds_def resources_def fail_releasing_def track_append
        split: sum.splits prod.splits if_splits)
next
  fix d :: "('a, 'b) Dependencies" and b e b'
  assume "before_engine d" "holds d b" "init_auth L cfg d b = (Inl e, b')"
  then show "no_connections b'"
    by (auto simp: init_auth_def fail_releasing_def release_ok split: sum.splits prod.splits if_splits)
qed

text \<open>The limiter and the cache never fail: their argument is never the nil interface.\<close>

lemma init_limiter_eq:
  "init_limiter cfg d b = (Inr (if rlc_Enabled (cf_RateLimit cfg)
     then d\<lparr>dn_Limiter := NewRedisLimiter True (cf_Env cfg) (rlc_FailOpen (cf_RateLimit cfg)) True\<rparr> else d), b)"
  by (simp add: init_limiter_def NewRedisLimiter_def redis_arg_def Let_def)

lemma init_cache_eq:
  "init_cache cfg d b = (Inr (if ca_Enabled (cf_Cache cfg) then d\<lparr>dn_CacheMgr := Some (projr (NewManager True (manager_config cfg)))\<rparr> else d), b)"
  by (simp add: init_cache_def NewManager_def redis_arg_def Let_def)

lemma holds_services [simp]:
  "holds (d\<lparr>dn_Limiter := l\<rparr>) b = holds d b" "holds (d\<lparr>dn_CacheMgr := m\<rparr>) b = holds d b"
  by (rule holds_same; simp)+

lemma init_limiter_stage: "stage_ok before_tracer (init_limiter cfg) before_tracer"
  by (rule stage_okI) (auto simp: init_limiter_eq before_tracer_def)

lemma init_cache_stage: "stage_ok before_tracer (init_cache cfg) before_tracer"
  by (rule stage_okI) (auto simp: init_cache_eq before_tracer_def)

lemma init_tracing_stage: "stage_ok before_tracer (init_tracing L cfg) (\<lambda>d. True)"
proof (rule stage_okI)
  fix d :: "('a, 'b) Dependencies" and b d' b'
  assume "before_tracer d" "holds d b" "init_tracing L cfg d b = (Inr d', b')"
  then show "True \<and> holds d' b'"
    by (auto simp: init_tracing_def tracing_New_def before_tracer_def holds_def resources_def fail_releasing_def track_append
        split: sum.splits prod.splits if_splits option.splits)
next
  fix d :: "('a, 'b) Dependencies" and b e b'
  assume d: "before_tracer d" "holds d b" and run: "init_tracing L cfg d b = (Inl e, b')"
  from run have "snd (tracing_New L (cf_Tracing cfg) (cf_Env cfg) b) \<in> {b, emit [Opened TraceExporter] b}" and
      "b' = emit (release d) (snd (tracing_New L (cf_Tracing cfg) (cf_Env cfg) b))"
    by (simp_all add: init_tracing_def tracing_New_def fail_releasing_def split: sum.splits prod.splits if_splits option.splits)
  then consider "b' = emit (release d) b" | "b' = emit (release d) (emit [Opened TraceExporter] b)" by auto
  then show "no_connections b'"
  proof cases
    case 1
    with d show ?thesis by (simp add: release_ok)
  next
    case 2
    have "track {} (bt_trace (emit [Opened TraceExporter] b)) = Some (insert TraceExporter (resources d))"
      using d by (auto simp: holds_def before_tracer_def resources_def track_append)
    from release_connections [OF this, of d] have "track {} (bt_trace b') = Some (insert TraceExporter (resources d) - {RedisClient, PostgresPool})"
      using 2 by (auto simp: resources_def split: if_splits option.splits)
    then show ?thesis using others unfolding no_connections_def by blast
  qed
qed

text \<open>The whole of \<open>initDependencies\<close>, from a process that holds nothing.\<close>

lemma wire_stage: "stage_ok before_pool (wire L cfg) (\<lambda>d. True)"
  unfolding wire_def
  by (rule stage_ok_then init_postgres_stage init_redis_stage init_metrics_stage init_mode_stage init_auth_stage init_limiter_stage
      init_cache_stage init_tracing_stage)+

lemma before_pool_empty: "before_pool (empty_deps cfg fs)"
  by (simp add: before_pool_def empty_deps_def)

lemma holds_empty: "holds (empty_deps cfg fs) b \<longleftrightarrow> track {} (bt_trace b) = Some {}"
  by (simp add: empty_deps_def holds_def resources_def)

lemma initDependencies_ok:
  assumes "track {} (bt_trace b) = Some {}" and "initDependencies L cfg fs b = (res, b')"
  shows "case res of Inr d \<Rightarrow> holds d b' | Inl e \<Rightarrow> no_connections b'"
proof (cases "loadFeatures cfg fs")
  case (Inl e)
  with assms show ?thesis by (auto simp: initDependencies_def no_connections_def)
next
  case (Inr loaded)
  with assms have run: "wire L cfg (empty_deps cfg loaded) b = (res, b')" and start: "holds (empty_deps cfg loaded) b"
    by (simp_all add: initDependencies_def holds_empty)
  note ok = stage_okD [OF wire_stage before_pool_empty start]
  show ?thesis using run ok by (cases res) auto
qed

section \<open>An accepted configuration starts\<close>

text \<open>The libraries answer: the stores are reachable, the registry is new, goAuth builds, the exporter connects.\<close>

definition services_up :: "('s, 'c) startlib \<Rightarrow> Config \<Rightarrow> bool" where
  "services_up L cfg \<longleftrightarrow>
     (pg_Enabled (cf_Postgres cfg) \<longrightarrow> sl_parseURL L (pg_URL (cf_Postgres cfg)) = None \<and> sl_pgConnect L (cf_Postgres cfg) = None \<and>
        sl_pgPing L (pg_StartupPingTimeout (cf_Postgres cfg)) = None) \<and>
     (rd_Enabled (cf_Redis cfg) \<longrightarrow> sl_redisPing L (cf_Redis cfg) (rd_StartupPingTimeout (cf_Redis cfg)) = None) \<and>
     (\<forall>seen n. sl_register L seen n = None) \<and>
     (\<forall>g ps rs p. \<exists>engine. sl_build L True g ps rs p = Inr engine) \<and>
     (trc_Enabled (cf_Tracing cfg) \<longrightarrow> sl_exporter L (cf_Tracing cfg) = None \<and> sl_resource L (cf_Tracing cfg) (cf_Env cfg) = None)"

definition feature_mutators :: "('s, 'c) loaded \<Rightarrow> 'c ConfigMutator option list" where
  "feature_mutators fs = map Some (List.map_filter (\<lambda>lf. hk_GoAuthConfig (snd lf)) fs)"

definition feature_extensions :: "('s, 'c) loaded \<Rightarrow> 's AuthExtension list" where
  "feature_extensions fs = List.map_filter (\<lambda>lf. hk_AuthExtension (snd lf)) fs"

lemma feature_loop_parts:
  "feature_loop v p fs (pr, ur, ms, xs) = (pr', ur', ms', xs') \<Longrightarrow> ms' = ms @ feature_mutators fs \<and> xs' = xs @ feature_extensions fs"
proof (induction fs arbitrary: pr ur ms xs)
  case (Cons lf fs)
  let ?h = "snd lf"
  from Cons.prems have "feature_loop v p fs
      ((case hk_UserProvider ?h of None \<Rightarrow> pr | Some f \<Rightarrow> f v p), (case hk_UserRepository ?h of None \<Rightarrow> ur | Some f \<Rightarrow> f v ur),
       (case hk_GoAuthConfig ?h of None \<Rightarrow> ms | Some m \<Rightarrow> ms @ [Some m]), (case hk_AuthExtension ?h of None \<Rightarrow> xs | Some x \<Rightarrow> xs @ [x])) =
      (pr', ur', ms', xs')" by (simp add: Let_def)
  from Cons.IH [OF this] show ?case
    by (auto simp: feature_mutators_def feature_extensions_def map_filter_simps split: option.splits)
qed (simp add: feature_mutators_def feature_extensions_def map_filter_simps)

lemma Lint_wiring:
  assumes "Lint F N drivers env c = None"
  shows "\<exists>mode. ParseMode (au_Mode (cf_Auth c)) = Inr mode"
    and "au_Enabled (cf_Auth c) \<Longrightarrow> rd_Enabled (cf_Redis c) \<and> pg_Enabled (cf_Postgres c)"
    and "rlc_Enabled (cf_RateLimit c) \<or> ca_Enabled (cf_Cache c) \<Longrightarrow> rd_Enabled (cf_Redis c)"
    and "is_prod (cf_Env c) \<Longrightarrow> (rlc_Enabled (cf_RateLimit c) \<longrightarrow> \<not> rlc_FailOpen (cf_RateLimit c)) \<and> (ca_Enabled (cf_Cache c) \<longrightarrow> \<not> ca_FailOpen (cf_Cache c))"
    and "au_TOTPEnabled (cf_Auth c) \<Longrightarrow> \<exists>cipher. newTOTPCipher N (cf_Auth c) = Inr cipher"
    and "trc_Enabled (cf_Tracing c) \<Longrightarrow> trc_Exporter (cf_Tracing c) = ''otlpgrpc''"
proof -
  note g = Lint_groups [OF assms]
  show "\<exists>mode. ParseMode (au_Mode (cf_Auth c)) = Inr mode"
    using g(3) by (auto simp: lint_auth_def first_error_None ParseMode_def Let_def)
  show "au_Enabled (cf_Auth c) \<Longrightarrow> rd_Enabled (cf_Redis c) \<and> pg_Enabled (cf_Postgres c)"
    using g(3) by (simp add: lint_auth_def first_error_None Let_def)
  show "rlc_Enabled (cf_RateLimit c) \<or> ca_Enabled (cf_Cache c) \<Longrightarrow> rd_Enabled (cf_Redis c)"
    using g(4) by (auto simp: lint_limits_def first_error_None Let_def)
  show "is_prod (cf_Env c) \<Longrightarrow> (rlc_Enabled (cf_RateLimit c) \<longrightarrow> \<not> rlc_FailOpen (cf_RateLimit c)) \<and> (ca_Enabled (cf_Cache c) \<longrightarrow> \<not> ca_FailOpen (cf_Cache c))"
    using g(4) by (auto simp: lint_limits_def first_error_None Let_def)
  show "trc_Enabled (cf_Tracing c) \<Longrightarrow> trc_Exporter (cf_Tracing c) = ''otlpgrpc''"
    using g(7) by (simp add: lint_observability_def first_error_None Let_def)
  show "\<exists>cipher. newTOTPCipher N (cf_Auth c) = Inr cipher" if "au_TOTPEnabled (cf_Auth c)"
  proof -
    have "lintAuthFeatures N env c = None" using g(3) by (simp add: lint_auth_def first_error_None Let_def)
    with that obtain ring where "AuthConfig_TOTPKeyring N (cf_Auth c) = Inr ring"
      by (auto simp: lintAuthFeatures_def first_error_None Let_def split: sum.splits)
    then show ?thesis using newTOTPCipher_ring by blast
  qed
qed

lemma register_metrics_None: "(\<And>seen n. register seen n = None) \<Longrightarrow> register_metrics register seen ns = None"
  by (induction ns arbitrary: seen) simp_all

text \<open>What each stage does when the libraries answer.\<close>

lemma init_postgres_up:
  assumes "services_up L cfg"
  shows "\<exists>rd b'. init_postgres L cfg d b = (Inr (d\<lparr>dn_Postgres := pg_Enabled (cf_Postgres cfg) \<or> dn_Postgres d, dn_DB := pg_Enabled (cf_Postgres cfg) \<or> dn_DB d,
      dn_Readiness := readiness_Add ''postgres'' (pg_Enabled (cf_Postgres cfg)) (pg_HealthCheckTimeout (cf_Postgres cfg)) rd (dn_Readiness d)\<rparr>), b') \<and>
    (rd \<noteq> None \<longleftrightarrow> pg_Enabled (cf_Postgres cfg)) \<and> bt_exts b' = bt_exts b"
  using assms by (auto simp: services_up_def init_postgres_def db_NewPool_def Let_def)

lemma init_redis_up:
  assumes "services_up L cfg"
  shows "\<exists>rd b'. init_redis L cfg d b = (Inr (d\<lparr>dn_Redis := rd_Enabled (cf_Redis cfg) \<or> dn_Redis d,
      dn_Readiness := readiness_Add ''redis'' (rd_Enabled (cf_Redis cfg)) (rd_HealthCheckTimeout (cf_Redis cfg)) rd (dn_Readiness d)\<rparr>), b') \<and>
    (rd \<noteq> None \<longleftrightarrow> rd_Enabled (cf_Redis cfg)) \<and> bt_exts b' = bt_exts b"
  using assms by (auto simp: services_up_def init_redis_def cache_NewRedisClient_def Let_def)

lemma init_metrics_up: "services_up L cfg \<Longrightarrow> init_metrics L cfg d b = (Inr (d\<lparr>dn_Metrics := Some (cf_Metrics cfg)\<rparr>), b)"
  by (simp add: services_up_def init_metrics_def metrics_New_def register_metrics_None)

lemma init_auth_up:
  assumes "services_up L cfg" and "au_Enabled (cf_Auth cfg) \<Longrightarrow> dn_DB d \<and> dn_Redis d"
    and "au_TOTPEnabled (cf_Auth cfg) \<Longrightarrow> \<exists>cipher. newTOTPCipher (sl_net L) (cf_Auth cfg) = Inr cipher"
    and "\<exists>g. fst (ProjectGoAuthConfig (sl_goauth L) (sl_env L) (dn_AuthMode d) (AuthFeatures (Some cfg)) (feature_mutators (dn_features d))) = Inr g"
    and "dn_AuthEngine d = None"
  shows "\<exists>d' b'. init_auth L cfg d b = (Inr d', b') \<and> (\<exists>users. d' = d\<lparr>dn_AuthEngine := dn_AuthEngine d', dn_AuthUsers := users, dn_authClose := dn_authClose d'\<rparr>) \<and>
    (dn_AuthEngine d' \<noteq> None \<longleftrightarrow> au_Enabled (cf_Auth cfg)) \<and>
    (au_Enabled (cf_Auth cfg) \<longrightarrow> authExtensionsFor (bt_exts b') (dn_AuthEngine d') = feature_extensions (dn_features d))"
proof (cases "au_Enabled (cf_Auth cfg)")
  case False
  then show ?thesis using assms(5) by (simp add: init_auth_def) (rule exI [of _ "dn_AuthUsers d"], simp)
next
  case True
  have "\<exists>p. core_provider L cfg = Inr p" using assms(3) by (auto simp: core_provider_def Let_def split: sum.splits)
  then obtain p where p: "core_provider L cfg = Inr p" by blast
  obtain pr ur ms xs where loop: "feature_loop (hook_view d) p (dn_features d) (CoreProvider p, CoreUsers, [], []) = (pr, ur, ms, xs)"
    using prod_cases4 by blast
  from feature_loop_parts [OF loop] have parts: "ms = feature_mutators (dn_features d)" "xs = feature_extensions (dn_features d)" by simp_all
  obtain g where g: "fst (ProjectGoAuthConfig (sl_goauth L) (sl_env L) (dn_AuthMode d) (AuthFeatures (Some cfg)) ms) = Inr g"
    using assms(4) parts by auto
  obtain engine where e: "sl_build L True g DefaultPermissions DefaultRoles pr = Inr engine" using assms(1) unfolding services_up_def by blast
  have "NewGoAuthEngine (sl_goauth L) (sl_build L) (sl_env L) (redis_arg d) (dn_AuthMode d) (AuthFeatures (Some cfg)) pr ms = Inr engine"
    using assms(2) True g e by (simp add: NewGoAuthEngine_def redis_arg_def)
  then show ?thesis
    using True assms(2) p loop parts
    by (auto simp: init_auth_def UseAuthExtensions_def authExtensionsFor_def)
qed

lemma init_tracing_up:
  assumes "services_up L cfg" and "trc_Enabled (cf_Tracing cfg) \<Longrightarrow> trc_Exporter (cf_Tracing cfg) = ''otlpgrpc''"
  shows "\<exists>t b'. init_tracing L cfg d b = (Inr (d\<lparr>dn_Tracing := Some t\<rparr>), b') \<and> bt_exts b' = bt_exts b"
  using assms by (auto simp: services_up_def init_tracing_def tracing_New_def)

text \<open>The stages one after the other.\<close>

lemma wire_up:
  assumes "Lint F (sl_net L) drivers (sl_env L) cfg = None" and "services_up L cfg"
    and "\<forall>mode. \<exists>g. fst (ProjectGoAuthConfig (sl_goauth L) (sl_env L) mode (AuthFeatures (Some cfg)) (feature_mutators loaded)) = Inr g"
  shows "\<exists>d b'. wire L cfg (empty_deps cfg loaded) b = (Inr d, b') \<and>
    dn_DB d = pg_Enabled (cf_Postgres cfg) \<and> dn_Redis d = rd_Enabled (cf_Redis cfg) \<and> dn_features d = loaded \<and>
    (dn_AuthEngine d \<noteq> None \<longleftrightarrow> au_Enabled (cf_Auth cfg)) \<and>
    dn_Limiter d = (if rlc_Enabled (cf_RateLimit cfg) then NewRedisLimiter True (cf_Env cfg) (rlc_FailOpen (cf_RateLimit cfg)) True else None) \<and>
    dn_CacheMgr d = (if ca_Enabled (cf_Cache cfg) then Some (projr (NewManager True (manager_config cfg))) else None) \<and>
    (au_Enabled (cf_Auth cfg) \<longrightarrow> authExtensionsFor (bt_exts b') (dn_AuthEngine d) = feature_extensions loaded) \<and>
    (\<forall>n. map_option (\<lambda>x. (dy_enabled x, dy_check x \<noteq> None)) (map_of (dn_Readiness d) n) =
       (if n = ''postgres'' then Some (pg_Enabled (cf_Postgres cfg), pg_Enabled (cf_Postgres cfg))
        else if n = ''redis'' then Some (rd_Enabled (cf_Redis cfg), rd_Enabled (cf_Redis cfg)) else None))"
proof -
  note lint = Lint_wiring [OF assms(1)]
  let ?e = "empty_deps cfg loaded"
  obtain ch1 b1 where pg: "init_postgres L cfg ?e b = (Inr (?e\<lparr>dn_Postgres := pg_Enabled (cf_Postgres cfg), dn_DB := pg_Enabled (cf_Postgres cfg),
      dn_Readiness := readiness_Add ''postgres'' (pg_Enabled (cf_Postgres cfg)) (pg_HealthCheckTimeout (cf_Postgres cfg)) ch1 readiness_NewService\<rparr>), b1)"
      (is "_ = (Inr ?d1, b1)") and c1: "ch1 \<noteq> None \<longleftrightarrow> pg_Enabled (cf_Postgres cfg)"
    using init_postgres_up [OF assms(2), of ?e b] by (auto simp: empty_deps_def)
  obtain ch2 b2 where rd: "init_redis L cfg ?d1 b1 = (Inr (?d1\<lparr>dn_Redis := rd_Enabled (cf_Redis cfg),
      dn_Readiness := readiness_Add ''redis'' (rd_Enabled (cf_Redis cfg)) (rd_HealthCheckTimeout (cf_Redis cfg)) ch2 (dn_Readiness ?d1)\<rparr>), b2)"
      (is "_ = (Inr ?d2, b2)") and c2: "ch2 \<noteq> None \<longleftrightarrow> rd_Enabled (cf_Redis cfg)"
    using init_redis_up [OF assms(2), of ?d1 b1] by (auto simp: empty_deps_def)
  obtain mode where mode: "ParseMode (au_Mode (cf_Auth cfg)) = Inr mode" using lint(1) by blast
  let ?d4 = "?d2\<lparr>dn_Metrics := Some (cf_Metrics cfg), dn_AuthMode := mode, dn_AuthEngine := None\<rparr>"
  have md: "init_mode cfg (?d2\<lparr>dn_Metrics := Some (cf_Metrics cfg)\<rparr>) b2 = (Inr ?d4, b2)" using mode by (simp add: init_mode_def)
  have fs4: "dn_features ?d4 = loaded" "dn_DB ?d4 = pg_Enabled (cf_Postgres cfg)" "dn_Redis ?d4 = rd_Enabled (cf_Redis cfg)"
    "dn_Limiter ?d4 = None" "dn_CacheMgr ?d4 = None" by (simp_all add: empty_deps_def)
  obtain d5 b5 users where au: "init_auth L cfg ?d4 b2 = (Inr d5, b5)"
    and d5: "d5 = ?d4\<lparr>dn_AuthEngine := dn_AuthEngine d5, dn_AuthUsers := users, dn_authClose := dn_authClose d5\<rparr>"
    and engine: "dn_AuthEngine d5 \<noteq> None \<longleftrightarrow> au_Enabled (cf_Auth cfg)"
    and exts: "au_Enabled (cf_Auth cfg) \<longrightarrow> authExtensionsFor (bt_exts b5) (dn_AuthEngine d5) = feature_extensions loaded"
    using init_auth_up [OF assms(2), of ?d4 b2] lint(2,5) assms(3) fs4 by (simp del: not_None_eq) blast
  let ?d6 = "if rlc_Enabled (cf_RateLimit cfg)
     then d5\<lparr>dn_Limiter := NewRedisLimiter True (cf_Env cfg) (rlc_FailOpen (cf_RateLimit cfg)) True\<rparr> else d5"
  obtain d7 where lc: "init_limiter cfg d5 b5 = (Inr ?d6, b5)" "init_cache cfg ?d6 b5 = (Inr d7, b5)"
    by (simp add: init_limiter_eq init_cache_eq)
  obtain t b8 where tr: "init_tracing L cfg d7 b5 = (Inr (d7\<lparr>dn_Tracing := Some t\<rparr>), b8)" and x8: "bt_exts b8 = bt_exts b5"
    using init_tracing_up [OF assms(2)] lint(6) by blast
  let ?d8 = "d7\<lparr>dn_Tracing := Some t\<rparr>"
  have run: "wire L cfg ?e b = (Inr ?d8, b8)"
    using pg rd md au lc tr init_metrics_up [OF assms(2)] by (simp add: wire_def boot_then_def)
  have same: "dn_AuthEngine d7 = dn_AuthEngine d5" "dn_Limiter d7 = dn_Limiter ?d6" "dn_Readiness d7 = dn_Readiness d5"
    "dn_DB d7 = dn_DB d5" "dn_Redis d7 = dn_Redis d5" "dn_features d7 = dn_features d5"
    using lc(2) by (auto simp: init_cache_eq split: if_splits)
  have keep: "dn_DB d5 = dn_DB ?d4" "dn_Redis d5 = dn_Redis ?d4" "dn_features d5 = dn_features ?d4" "dn_Limiter d5 = dn_Limiter ?d4"
    "dn_CacheMgr d5 = dn_CacheMgr ?d4" "dn_Readiness d5 = dn_Readiness ?d4"
    by (subst d5, simp)+
  have cache: "dn_CacheMgr ?d8 = (if ca_Enabled (cf_Cache cfg) then Some (projr (NewManager True (manager_config cfg))) else None)"
    using lc(2) keep(5) fs4(5) by (auto simp: init_cache_eq split: if_splits)
  have ready: "map_option (\<lambda>x. (dy_enabled x, dy_check x \<noteq> None)) (map_of (dn_Readiness ?d8) n) =
       (if n = ''postgres'' then Some (pg_Enabled (cf_Postgres cfg), pg_Enabled (cf_Postgres cfg))
        else if n = ''redis'' then Some (rd_Enabled (cf_Redis cfg), rd_Enabled (cf_Redis cfg)) else None)" for n
    using c1 c2 by (simp add: same keep readiness_Add_def readiness_NewService_def)
  show ?thesis
    by (rule exI [of _ ?d8], rule exI [of _ b8])
      (use run same keep fs4 engine exts x8 cache ready in simp)
qed


text \<open>Everything on, with the tenancy feature in the build, and libraries that answer.\<close>

definition wired_config :: Config where
  "wired_config = (let c = config_of Map.empty in
     c\<lparr>cf_Auth := (cf_Auth c)\<lparr>au_Enabled := True\<rparr>, cf_RateLimit := (cf_RateLimit c)\<lparr>rlc_Enabled := True\<rparr>,
       cf_Cache := (cf_Cache c)\<lparr>ca_Enabled := True\<rparr>, cf_Redis := (cf_Redis c)\<lparr>rd_Enabled := True\<rparr>,
       cf_Postgres := (cf_Postgres c)\<lparr>pg_Enabled := True, pg_URL := ''postgres://db''\<rparr>\<rparr>)"

definition sample_startlib :: "(unit tenant_svc, unit) startlib" where
  "sample_startlib = \<lparr>sl_goauth = sample_goauth, sl_env = Map.empty, sl_net = no_netlib, sl_parseURL = \<lambda>u. None, sl_pgConnect = \<lambda>c. None,
     sl_pgPing = \<lambda>t. None, sl_redisPing = \<lambda>c t. None, sl_register = \<lambda>seen n. None, sl_build = \<lambda>client g ps rs p. Inr 7,
     sl_exporter = \<lambda>t. None, sl_resource = \<lambda>t e. None, sl_checkPG = \<lambda>ctx w. (None, w), sl_checkRedis = \<lambda>ctx w. (None, w)\<rparr>"

definition sample_feature :: "(unit tenant_svc, unit) Feature" where
  "sample_feature = tenancy_Feature (\<lambda>e. []) no_floats Map.empty \<lparr>dir_Get = \<lambda>i s. DirNotFound, dir_GetBySlug = \<lambda>i s. DirNotFound\<rparr>"

definition fresh_boot :: "'s boot" where
  "fresh_boot = \<lparr>bt_trace = [], bt_exts = Map.empty\<rparr>"

lemma wired_config_accepted: "Lint no_floats no_netlib builtin_drivers Map.empty wired_config = None"
proof -
  have "first_error (lint_auth no_netlib builtin_drivers Map.empty wired_config) = None"
    by (simp add: wired_config_def lint_auth_def default_defs load_auth_def load_redis_def load_postgres_def
      lintAuthFeatures_def lintWebAuthn_def lintNotifyDriver_def lintSMTP_def lintNotifyDelivery_def notifyDeliveryFlags_def notifyDriverKnown_def builtin_drivers_def)
  moreover have "first_error (lint_limits wired_config) = None"
    by (simp add: wired_config_def lint_limits_def default_defs load_http_def load_access_log_def)
  moreover have "first_error (lint_postgres (cf_Postgres wired_config)) = None" "first_error (lint_redis (cf_Redis wired_config)) = None"
    by (simp_all add: wired_config_def lint_postgres_def lint_redis_def default_defs load_postgres_def load_redis_def)
  moreover have "lint_http no_netlib wired_config = lint_http no_netlib (config_of Map.empty)"
      "lint_observability wired_config = lint_observability (config_of Map.empty)" "cf_Log wired_config = cf_Log (config_of Map.empty)"
    by (simp_all add: wired_config_def lint_http_def lint_observability_def Let_def)
  ultimately show ?thesis using default_groups default_env_formats by (simp add: Lint_def first_error_None)
qed


text \<open>
  The tests for a nil client in the limiter and the cache manager never fire. With Redis disabled and the limiter enabled (which only
  linting refuses, and \<open>NewDependencies\<close> does not lint), the dependencies are built all the same, with a limiter over a nil client.
\<close>

theorem nil_client_accepted:
  assumes "services_up L cfg" and "loadFeatures cfg fs = Inr loaded" and "\<not> rd_Enabled (cf_Redis cfg)" and "rlc_Enabled (cf_RateLimit cfg)"
    and "\<not> au_Enabled (cf_Auth cfg)" and "ParseMode (au_Mode (cf_Auth cfg)) = Inr mode" and "\<not> trc_Enabled (cf_Tracing cfg)"
  shows "\<exists>d b'. initDependencies L cfg fs b = (Inr d, b') \<and> \<not> dn_Redis d \<and> dn_Limiter d \<noteq> None"
proof -
  let ?e = "empty_deps cfg loaded"
  obtain d1 b1 where pg: "init_postgres L cfg ?e b = (Inr d1, b1)" and r1: "\<not> dn_Redis d1"
    using init_postgres_up [OF assms(1), of ?e b] by (force simp: empty_deps_def)
  obtain d2 b2 where rd: "init_redis L cfg d1 b1 = (Inr d2, b2)" and r2: "\<not> dn_Redis d2"
    using init_redis_up [OF assms(1), of d1 b1] assms(3) r1 by force
  show ?thesis
    using assms pg rd r2 init_metrics_up [OF assms(1)]
    by (simp add: initDependencies_def wire_def boot_then_def init_mode_def init_auth_def init_limiter_eq init_cache_eq init_tracing_def
        tracing_New_def NewRedisLimiter_def Let_def)
qed

end
