(* ===== verification/App_Lifecycle.thy ===== *)
theory App_Lifecycle
  imports Startup
begin

text \<open>
  The application (\<open>internal/core/app/app.go\<close>, and \<open>drainNotifier\<close>, \<open>drainNotifierWithinShutdown\<close> and \<open>closeDependencies\<close> of \<open>deps.go\<close>):
  construction, the token gate of the metrics endpoint, running and shutting down.

  A module is a function that binds the dependencies and registers on the router. The network server, its goroutine and the signals are
  the argument \<open>ending\<close> of \<open>Run\<close>: how serving ended and when. The handler of the server reads the router when a request arrives, so it
  is a function of the finished router.
\<close>

section \<open>The token gate\<close>

definition requireBearerToken :: "(Envelope \<Rightarrow> string) \<Rightarrow> 's handler \<Rightarrow> string \<Rightarrow> 's handler" where
  "requireBearerToken enc next token0 =
     (let token = trim_space token0 in
      if token = [] then next
      else (\<lambda>r w.
        let rid = ctx_request_id r;
            parts = str_fields (trim_space (header_get (req_header r) ''Authorization''));
            refuse = Ret (response_Error enc (apperr_New CodeUnauthorized 401 ''unauthorized'') rid
              (SetHeader ''WWW-Authenticate'' (''Bearer realm='' @ quoted ''metrics'') w))
        in if length parts \<noteq> 2 \<or> \<not> equal_fold (parts ! 0) ''Bearer'' then refuse
           else if trim_space (parts ! 1) \<noteq> token then refuse
           else next r w))"

section \<open>The application\<close>

record http_server =
  hs_Addr :: string
  hs_ReadHeaderTimeout :: int
  hs_ReadTimeout :: int
  hs_WriteTimeout :: int
  hs_IdleTimeout :: int
  hs_MaxHeaderBytes :: int

record ('s, 'c) App =
  ap_cfg :: Config
  ap_server :: http_server
  ap_router :: "'s Mux"
  ap_deps :: "('s, 'c) Dependencies"
  ap_shutdownDeadline :: "int option"   \<comment> \<open>the zero time is \<open>None\<close>\<close>
  ap_notifierDrained :: bool

datatype 'a started = Ready 'a | Refused string | Crashed register_panic   \<comment> \<open>a panic while routes are registered\<close>

type_synonym ('s, 'c) module = "('s, 'c) Dependencies \<Rightarrow> 's mounting \<Rightarrow> 's mounting started"

section \<open>Shutting down\<close>

text \<open>\<open>drainNotifier\<close>: \<open>abandoned\<close> is what \<open>Dispatcher.Shutdown\<close> returns.\<close>

definition drainNotifier :: "int \<Rightarrow> int \<Rightarrow> ('s, 'c) App \<times> 's boot \<Rightarrow> ('s, 'c) App \<times> 's boot" where
  "drainNotifier abandoned deadline ab = (case ab of (a, b) \<Rightarrow>
     if dn_Notifier (ap_deps a) = None \<or> ap_notifierDrained a then (a, b)
     else (a\<lparr>ap_notifierDrained := True\<rparr>,
       emit (NotifierShutdown deadline # (if abandoned > 0
         then [Warned ''shutdown: abandoned in-flight notification deliveries at the shutdown deadline''] else [])) b))"

text \<open>\<open>clock\<close> is the time when dependencies are closed.\<close>

definition drainNotifierWithinShutdown :: "int \<Rightarrow> int \<Rightarrow> ('s, 'c) App \<times> 's boot \<Rightarrow> ('s, 'c) App \<times> 's boot" where
  "drainNotifierWithinShutdown abandoned clock ab = (case ab of (a, b) \<Rightarrow>
     drainNotifier abandoned
       (case ap_shutdownDeadline a of None \<Rightarrow> clock + hc_ShutdownTimeout (cf_HTTP (ap_cfg a)) | Some d \<Rightarrow> d) (a, b))"

definition tracer_closes :: "('s, 'c) Dependencies \<Rightarrow> bool" where
  "tracer_closes d = (case dn_Tracing d of None \<Rightarrow> False | Some t \<Rightarrow> ts_shutdownFn t)"

definition closeDependencies :: "int \<Rightarrow> int \<Rightarrow> ('s, 'c) App \<times> 's boot \<Rightarrow> ('s, 'c) App \<times> 's boot" where
  "closeDependencies abandoned clock ab =
     (let (a, b) = drainNotifierWithinShutdown abandoned clock ab; d = ap_deps a in
      (a, emit (release d @ (if tracer_closes d then [Closed TraceExporter] else []) @ (if dn_authClose d then [Closed GoAuthEngine] else [])) b))"

section \<open>Construction\<close>

definition metrics_call :: "(Envelope \<Rightarrow> string) \<Rightarrow> 's handler \<Rightarrow> Config \<Rightarrow> MetricsConfig \<Rightarrow> 's handle_call" where
  "metrics_call enc metricsHandler cfg m =
     (let token = trim_space (me_AuthToken (cf_Metrics cfg)) in
      \<lparr>hc_method = ''GET'', hc_pattern = metrics_Path m,
       hc_handler = (if token \<noteq> [] then requireBearerToken enc metricsHandler token else metricsHandler), hc_policies = no_policies\<rparr>)"

fun register_modules :: "('s, 'c) Dependencies \<Rightarrow> ('s, 'c) module option list \<Rightarrow> 's mounting \<Rightarrow> 's mounting started" where
  "register_modules d [] mt = Ready mt"
| "register_modules d (None # ms) mt = register_modules d ms mt"
| "register_modules d (Some m # ms) mt = (case m d mt of Ready mt' \<Rightarrow> register_modules d ms mt' | e \<Rightarrow> e)"

definition make_server :: "Config \<Rightarrow> http_server" where
  "make_server cfg = (let h = cf_HTTP cfg in
     \<lparr>hs_Addr = hc_Addr h, hs_ReadHeaderTimeout = hc_ReadHeaderTimeout h, hs_ReadTimeout = hc_ReadTimeout h, hs_WriteTimeout = hc_WriteTimeout h,
      hs_IdleTimeout = hc_IdleTimeout h, hs_MaxHeaderBytes = hc_MaxHeaderBytes h\<rparr>)"

text \<open>What \<open>New\<close> takes from elsewhere: the envelope encoder, Prometheus' handler, what chi resolved for a request, the driver registry,
  the policies known at that time, and the time and the answer of a drain when registration fails.\<close>

record 's newlib =
  nw_enc :: "Envelope \<Rightarrow> string"
  nw_metricsHandler :: "'s handler"
  nw_resolved :: "request \<Rightarrow> string option"
  nw_drivers :: registry
  nw_policies :: policy_table
  nw_clock :: int
  nw_abandoned :: int

definition mount_metrics :: "'s newlib \<Rightarrow> Config \<Rightarrow> ('s, 'c) Dependencies \<Rightarrow> 's Mux \<Rightarrow> register_panic + 's mounting" where
  "mount_metrics W cfg deps router =
     (case dn_Metrics deps of
        Some m \<Rightarrow> if metrics_Enabled (Some m) then handle (metrics_call (nw_enc W) (nw_metricsHandler W) cfg m) (router, nw_policies W)
                  else Inr (router, nw_policies W)
      | None \<Rightarrow> Inr (router, nw_policies W))"

definition make_app :: "Config \<Rightarrow> ('s, 'c) Dependencies \<Rightarrow> 's Mux \<Rightarrow> ('s, 'c) App" where
  "make_app cfg deps router =
     \<lparr>ap_cfg = cfg, ap_server = make_server cfg, ap_router = router, ap_deps = deps, ap_shutdownDeadline = None, ap_notifierDrained = False\<rparr>"

text \<open>The rest of \<open>New\<close> once the notifier exists: the metrics endpoint, then the modules.\<close>

definition New_modules :: "'s newlib \<Rightarrow> Config \<Rightarrow> ('s, 'c) module option list \<Rightarrow> ('s, 'c) Dependencies \<Rightarrow> 's Mux \<Rightarrow> 's boot
    \<Rightarrow> ('s, 'c) App started \<times> 's boot" where
  "New_modules W cfg modules deps router b =
     (case mount_metrics W cfg deps router of
        Inl p \<Rightarrow> (Crashed p, b)
      | Inr mt \<Rightarrow>
          (case register_modules deps modules mt of
             Ready mt' \<Rightarrow> (Ready (make_app cfg deps (fst mt')), b)
           | Refused e \<Rightarrow> (Refused e, snd (closeDependencies (nw_abandoned W) (nw_clock W) (make_app cfg deps router, b)))
           | Crashed p \<Rightarrow> (Crashed p, b)))"

definition New :: "('s, 'c) startlib \<Rightarrow> 's newlib \<Rightarrow> Config option \<Rightarrow> bool \<Rightarrow> ('s, 'c) module option list \<Rightarrow> ('s, 'c) Feature option list
    \<Rightarrow> 's boot \<Rightarrow> ('s, 'c) App started \<times> 's boot" where
  "New L W cfg0 hasLog modules features b =
     (case cfg0 of
        None \<Rightarrow> (Refused ''nil config'', b)
      | Some cfg \<Rightarrow>
          if \<not> hasLog then (Refused ''nil logger'', b)
          else (case initDependencies L cfg features b of
              (Inl e, b1) \<Rightarrow> (Refused e, b1)
            | (Inr deps, b1) \<Rightarrow>
                (let b2 = emit (map Warned (Deprecations (Some deps))) b1;
                     router = fold (\<lambda>lf. UseRouteRules (hk_RouteRules (snd lf))) (dn_features deps) NewMux in
                 case notify_New (nw_drivers W) (cf_Notify cfg) (cf_Env cfg) of
                   Inl e \<Rightarrow> (Refused e, Dependencies_Close (Some deps) b2)
                 | Inr notifier \<Rightarrow>
                     New_modules W cfg modules (deps\<lparr>dn_Notifier := Some (notifier, NewDispatcher 64)\<rparr>)
                       (Mux_Use [CaptureRoutePattern (nw_resolved W)] router) b2)))"

text \<open>The handler of the server: the middleware around the router, under the metrics instrumentation.\<close>

definition feature_middleware :: "('s, 'c) Dependencies \<Rightarrow> 's middleware list" where
  "feature_middleware d = List.map_filter (\<lambda>lf. case hk_Middleware (snd lf) of None \<Rightarrow> None | Some f \<Rightarrow> f (hook_view d)) (dn_features d)"

definition server_handler :: "(Envelope \<Rightarrow> string) \<Rightarrow> netlib \<Rightarrow> (float64 \<Rightarrow> 64 word) \<Rightarrow> 's random \<Rightarrow> 's tracer \<Rightarrow> 's collectors
    \<Rightarrow> ((string \<times> string) list \<Rightarrow> string \<Rightarrow> string \<Rightarrow> routing) \<Rightarrow> ('s, 'c) App \<Rightarrow> 's handler" where
  "server_handler enc N threshold rand tracer mc match a =
     (let h = AssembleGlobalMiddleware enc N threshold rand tracer (feature_middleware (ap_deps a)) (hc_Middleware (cf_HTTP (ap_cfg a)))
            (Mux_ServeHTTP enc match (ap_router a)) in
      case dn_Metrics (ap_deps a) of None \<Rightarrow> h | Some m \<Rightarrow> InstrumentHTTP mc m h)"

section \<open>Running\<close>

text \<open>How serving ends: the server's goroutine reports (an error or nil), or the context ends at a time, the server shuts down with or
  without an error, and then the goroutine reports within half a second or not.\<close>

datatype run_end = ServerEnded "string option" | Interrupted int "string option" "string option option"

definition Run :: "run_end \<Rightarrow> int \<Rightarrow> int \<Rightarrow> ('s, 'c) App \<Rightarrow> 's boot \<Rightarrow> string option \<times> ('s, 'c) App \<times> 's boot" where
  "Run ending abandoned clock a b =
     (let (err, ab) = (case ending of
          ServerEnded e \<Rightarrow> (e, (a, b))
        | Interrupted t shutdownErr late \<Rightarrow>
            (let deadline = t + hc_ShutdownTimeout (cf_HTTP (ap_cfg a)); a1 = a\<lparr>ap_shutdownDeadline := Some deadline\<rparr>;
                 b1 = emit [ServerShutdown deadline] b in
             case shutdownErr of
               Some e \<Rightarrow> (Some e, (a1, b1))
             | None \<Rightarrow> ((case late of Some e \<Rightarrow> e | None \<Rightarrow> None), drainNotifier abandoned deadline (a1, b1))))
      in (err, closeDependencies abandoned clock ab))"

section \<open>Every run ends with everything closed\<close>

lemma track_quiet: "(\<And>ev r. ev \<in> set evs \<Longrightarrow> ev \<noteq> Opened r \<and> ev \<noteq> Closed r) \<Longrightarrow> track S (evs @ ys) = track S ys"
proof (induction evs arbitrary: S)
  case (Cons ev evs)
  then show ?case by (cases ev) auto
qed simp

lemma track_quiet_end: "(\<And>ev r. ev \<in> set evs \<Longrightarrow> ev \<noteq> Opened r \<and> ev \<noteq> Closed r) \<Longrightarrow> track S evs = Some S"
  using track_quiet [of evs S "[]"] by simp

text \<open>The events by which the dependencies are closed.\<close>

definition closings :: "('s, 'c) Dependencies \<Rightarrow> app_event list" where
  "closings d = release d @ (if tracer_closes d then [Closed TraceExporter] else []) @ (if dn_authClose d then [Closed GoAuthEngine] else [])"

lemma track_closings: "track (resources d) (closings d) = Some {}"
  by (cases "dn_Tracing d") (auto simp: closings_def release_def tracer_closes_def resources_def)

lemma closings_close: "ev \<in> set (closings d) \<Longrightarrow> \<exists>r. ev = Closed r"
  by (auto simp: closings_def release_def split: if_splits)

lemma drainNotifier_once:
  "dn_Notifier (ap_deps a) \<noteq> None \<Longrightarrow> \<not> ap_notifierDrained a \<Longrightarrow>
    \<exists>ws. drainNotifier abandoned D (a, b) = (a\<lparr>ap_notifierDrained := True\<rparr>, emit (NotifierShutdown D # ws) b) \<and> (\<forall>ev \<in> set ws. \<exists>m. ev = Warned m)"
  by (auto simp: drainNotifier_def)

lemma closeDependencies_once:
  assumes "dn_Notifier (ap_deps a) \<noteq> None" and "\<not> ap_notifierDrained a"
  shows "\<exists>ws. bt_trace (snd (closeDependencies abandoned clock (a, b))) = bt_trace b @
      NotifierShutdown (case ap_shutdownDeadline a of None \<Rightarrow> clock + hc_ShutdownTimeout (cf_HTTP (ap_cfg a)) | Some d \<Rightarrow> d) # ws @ closings (ap_deps a) \<and>
    (\<forall>ev \<in> set ws. \<exists>m. ev = Warned m)"
proof -
  let ?D = "case ap_shutdownDeadline a of None \<Rightarrow> clock + hc_ShutdownTimeout (cf_HTTP (ap_cfg a)) | Some d \<Rightarrow> d"
  obtain ws where ws: "drainNotifier abandoned ?D (a, b) = (a\<lparr>ap_notifierDrained := True\<rparr>, emit (NotifierShutdown ?D # ws) b)"
      "\<forall>ev \<in> set ws. \<exists>m. ev = Warned m"
    using drainNotifier_once [OF assms] by blast
  then show ?thesis by (intro exI [of _ ws]) (simp add: closeDependencies_def drainNotifierWithinShutdown_def closings_def)
qed

lemma closeDependencies_drained:
  "ap_notifierDrained a \<Longrightarrow> bt_trace (snd (closeDependencies abandoned clock (a, b))) = bt_trace b @ closings (ap_deps a)"
  by (simp add: closeDependencies_def drainNotifierWithinShutdown_def drainNotifier_def closings_def)

lemma Run_trace:
  assumes "dn_Notifier (ap_deps a) \<noteq> None" and "\<not> ap_notifierDrained a" and "ap_shutdownDeadline a = None"
  shows "\<exists>pre ws D. bt_trace (snd (snd (Run ending abandoned clock a b))) = bt_trace b @ pre @ NotifierShutdown D # ws @ closings (ap_deps a) \<and>
    (\<forall>ev \<in> set pre. ev = ServerShutdown D) \<and> (\<forall>ev \<in> set ws. \<exists>m. ev = Warned m) \<and>
    D = (case ending of ServerEnded e \<Rightarrow> clock | Interrupted t s l \<Rightarrow> t) + hc_ShutdownTimeout (cf_HTTP (ap_cfg a))"
proof (cases ending)
  case (ServerEnded e)
  obtain ws where "bt_trace (snd (closeDependencies abandoned clock (a, b))) = bt_trace b @
      NotifierShutdown (clock + hc_ShutdownTimeout (cf_HTTP (ap_cfg a))) # ws @ closings (ap_deps a)" "\<forall>ev \<in> set ws. \<exists>m. ev = Warned m"
    using closeDependencies_once [OF assms(1,2), of abandoned clock b] assms(3) by auto
  with ServerEnded show ?thesis by (intro exI [of _ "[]"] exI [of _ ws]) (simp add: Run_def)
next
  case (Interrupted t s l)
  let ?D = "t + hc_ShutdownTimeout (cf_HTTP (ap_cfg a))"
  let ?a = "a\<lparr>ap_shutdownDeadline := Some ?D\<rparr>" and ?b = "emit [ServerShutdown ?D] b"
  show ?thesis
  proof (cases s)
    case (Some e)
    obtain ws where "bt_trace (snd (closeDependencies abandoned clock (?a, ?b))) = bt_trace ?b @ NotifierShutdown ?D # ws @ closings (ap_deps a)"
        "\<forall>ev \<in> set ws. \<exists>m. ev = Warned m"
      using closeDependencies_once [of ?a abandoned clock ?b] assms by auto
    with Interrupted Some show ?thesis by (intro exI [of _ "[ServerShutdown ?D]"] exI [of _ ws]) (auto simp: Run_def Let_def)
  next
    case None
    obtain ws where "drainNotifier abandoned ?D (?a, ?b) = (?a\<lparr>ap_notifierDrained := True\<rparr>, emit (NotifierShutdown ?D # ws) ?b)"
        "\<forall>ev \<in> set ws. \<exists>m. ev = Warned m"
      using drainNotifier_once [of ?a abandoned ?D ?b] assms by auto
    with Interrupted None closeDependencies_drained [of "?a\<lparr>ap_notifierDrained := True\<rparr>" abandoned clock] show ?thesis
      by (intro exI [of _ "[ServerShutdown ?D]"] exI [of _ ws]) (auto simp: Run_def Let_def)
  qed
qed

text \<open>How \<open>New\<close> can end after its dependencies were built.\<close>

lemma New_modules_cases:
  assumes "New_modules W cfg ms deps router b = (res, b')"
  shows "(\<exists>p. res = Crashed p) \<or> (\<exists>mx. res = Ready (make_app cfg deps mx) \<and> b' = b) \<or>
    (\<exists>e. res = Refused e \<and> b' = snd (closeDependencies (nw_abandoned W) (nw_clock W) (make_app cfg deps router, b)))"
  using assms by (auto simp: New_modules_def split: sum.splits started.splits)

lemma New_cases:
  assumes "New L W cfg0 hasLog ms fs b = (res, b')"
  obtains (nothing) e where "res = Refused e" "b' = b"
    | (failed) e cfg where "res = Refused e" "initDependencies L cfg fs b = (Inl e, b')"
    | (no_notifier) e cfg deps b1 where "res = Refused e" "initDependencies L cfg fs b = (Inr deps, b1)"
        "b' = Dependencies_Close (Some deps) (emit (map Warned (Deprecations (Some deps))) b1)"
    | (built) cfg deps b1 nf router where "cfg0 = Some cfg" "initDependencies L cfg fs b = (Inr deps, b1)"
        "New_modules W cfg ms (deps\<lparr>dn_Notifier := Some nf\<rparr>) router (emit (map Warned (Deprecations (Some deps))) b1) = (res, b')"
        "router = Mux_Use [CaptureRoutePattern (nw_resolved W)] (fold (\<lambda>lf. UseRouteRules (hk_RouteRules (snd lf))) (dn_features deps) NewMux)"
  using assms unfolding New_def Let_def by (auto split: option.splits if_splits prod.splits sum.splits)

lemma make_app_fields [simp]:
  "ap_deps (make_app cfg d mx) = d" "ap_notifierDrained (make_app cfg d mx) = False" "ap_shutdownDeadline (make_app cfg d mx) = None"
  "ap_cfg (make_app cfg d mx) = cfg" "ap_router (make_app cfg d mx) = mx"
  by (simp_all add: make_app_def)

lemma holds_notifier: "holds (d\<lparr>dn_Notifier := n\<rparr>) b = holds d b"
  by (rule holds_same) simp_all

lemma holds_warned: "holds d b \<Longrightarrow> holds d (emit (map Warned ms) b)"
  by (simp add: holds_def track_append) (rule track_quiet_end, auto)

lemma Close_connections:
  assumes "holds d b"
  shows "no_connections (Dependencies_Close (Some d) b)"
proof -
  let ?S = "resources d - (if dn_authClose d then {GoAuthEngine} else {})"
  have t: "track {} (bt_trace (emit (if dn_authClose d then [Closed GoAuthEngine] else []) b)) = Some ?S"
    using assms by (auto simp: holds_def track_append resources_def)
  have "track {} (bt_trace (emit (if dn_authClose d then [Closed GoAuthEngine] else []) b) @ release d) = Some (?S - {RedisClient, PostgresPool})"
    by (rule release_connections [OF t]) (auto simp: resources_def split: if_splits option.splits)
  then show ?thesis using others unfolding no_connections_def by (auto simp: Dependencies_Close_def)
qed

lemma closeDependencies_empties:
  assumes "holds (ap_deps a) b" and "dn_Notifier (ap_deps a) \<noteq> None" and "\<not> ap_notifierDrained a"
  shows "track {} (bt_trace (snd (closeDependencies abandoned clock (a, b)))) = Some {}"
proof -
  obtain ws D where t: "bt_trace (snd (closeDependencies abandoned clock (a, b))) = bt_trace b @ (NotifierShutdown D # ws) @ closings (ap_deps a)"
      "\<forall>ev \<in> set ws. \<exists>m. ev = Warned m"
    using closeDependencies_once [OF assms(2,3), of abandoned clock b] by auto
  have "track (resources (ap_deps a)) ((NotifierShutdown D # ws) @ closings (ap_deps a)) = Some {}"
    using t(2) by (subst track_quiet) (auto simp: track_closings)
  then show ?thesis using assms(1) t(1) by (simp add: holds_def track_append)
qed

lemma New_Ready:
  assumes "track {} (bt_trace b) = Some {}" and "New L W cfg0 hasLog ms fs b = (Ready a, b1)"
  shows "holds (ap_deps a) b1 \<and> dn_Notifier (ap_deps a) \<noteq> None \<and> \<not> ap_notifierDrained a \<and> ap_shutdownDeadline a = None"
  using assms(2)
proof (cases rule: New_cases)
  case (built cfg deps c1 nf router)
  from New_modules_cases [OF built(3)] obtain mx where "a = make_app cfg (deps\<lparr>dn_Notifier := Some nf\<rparr>) mx"
      "b1 = emit (map Warned (Deprecations (Some deps))) c1" by auto
  with initDependencies_ok [OF assms(1) built(2)] show ?thesis by (simp add: holds_notifier holds_warned)
qed simp_all

text \<open>
  C31: A start that is refused gives its connections back, and a run that ends, however it ends, closes everything once. If \<open>New\<close> returns an error,
  every resource was closed only while it was open and no pool or client stays open. If it succeeds, then whether the server fails, the
  context ends and the server stops in time, or its shutdown fails: what follows in the trace is the server's shutdown, if any, then exactly one
  shutdown of the notifier, whose deadline is the shutdown timeout after the interrupt (or, without one, after the end), then only warnings and the
  closings of the dependencies, after which nothing is open and nothing was closed twice.
\<close>

theorem lifecycle_releases:
  assumes "track {} (bt_trace b) = Some {}" and "New L W cfg0 hasLog ms fs b = (res, b1)"
  shows "(\<forall>e. res = Refused e \<longrightarrow> no_connections b1) \<and>
    (\<forall>a ending abandoned clock err a' b2. res = Ready a \<and> Run ending abandoned clock a b1 = (err, a', b2) \<longrightarrow>
       track {} (bt_trace b2) = Some {} \<and>
       (\<exists>pre post D. bt_trace b2 = bt_trace b1 @ pre @ NotifierShutdown D # post \<and> (\<forall>ev \<in> set pre. ev = ServerShutdown D) \<and>
          (\<forall>ev \<in> set post. (\<exists>m. ev = Warned m) \<or> (\<exists>r. ev = Closed r)) \<and>
          D = (case ending of ServerEnded e \<Rightarrow> clock | Interrupted t s l \<Rightarrow> t) + hc_ShutdownTimeout (cf_HTTP (ap_cfg a))))"
proof (intro conjI allI impI)
  fix e assume refused: "res = Refused e"
  from assms(2) show "no_connections b1"
  proof (cases rule: New_cases)
    case nothing
    with assms(1) show ?thesis by (simp add: no_connections_def)
  next
    case failed
    with initDependencies_ok [OF assms(1)] show ?thesis by fastforce
  next
    case (no_notifier _ cfg deps c1)
    with initDependencies_ok [OF assms(1) no_notifier(2)] show ?thesis by (simp add: Close_connections holds_warned)
  next
    case (built cfg deps c1 nf router)
    from New_modules_cases [OF built(3)] refused
    have "b1 = snd (closeDependencies (nw_abandoned W) (nw_clock W)
        (make_app cfg (deps\<lparr>dn_Notifier := Some nf\<rparr>) router, emit (map Warned (Deprecations (Some deps))) c1))" by auto
    with initDependencies_ok [OF assms(1) built(2)] show ?thesis
      using closeDependencies_empties [of "make_app cfg (deps\<lparr>dn_Notifier := Some nf\<rparr>) router"]
      by (simp add: no_connections_def holds_notifier holds_warned)
  qed
next
  fix a ending abandoned clock err a' b2 assume "res = Ready a \<and> Run ending abandoned clock a b1 = (err, a', b2)"
  then have ready: "New L W cfg0 hasLog ms fs b = (Ready a, b1)" and run: "Run ending abandoned clock a b1 = (err, a', b2)" using assms by simp_all
  have held: "holds (ap_deps a) b1" and a: "dn_Notifier (ap_deps a) \<noteq> None" "\<not> ap_notifierDrained a" "ap_shutdownDeadline a = None"
    using New_Ready [OF assms(1) ready] by simp_all
  obtain pre ws D where t: "bt_trace b2 = bt_trace b1 @ pre @ NotifierShutdown D # ws @ closings (ap_deps a)"
    and p: "\<forall>ev \<in> set pre. ev = ServerShutdown D" "\<forall>ev \<in> set ws. \<exists>m. ev = Warned m"
    and D: "D = (case ending of ServerEnded e \<Rightarrow> clock | Interrupted t s l \<Rightarrow> t) + hc_ShutdownTimeout (cf_HTTP (ap_cfg a))"
    using Run_trace [OF a, of ending abandoned clock b1] run by auto
  have "track (resources (ap_deps a)) ((pre @ NotifierShutdown D # ws) @ closings (ap_deps a)) = Some {}"
    using p by (subst track_quiet) (auto simp: track_closings)
  then show "track {} (bt_trace b2) = Some {}" using held t by (simp add: holds_def track_append)
  show "\<exists>pre post D. bt_trace b2 = bt_trace b1 @ pre @ NotifierShutdown D # post \<and> (\<forall>ev \<in> set pre. ev = ServerShutdown D) \<and>
          (\<forall>ev \<in> set post. (\<exists>m. ev = Warned m) \<or> (\<exists>r. ev = Closed r)) \<and>
          D = (case ending of ServerEnded e \<Rightarrow> clock | Interrupted t s l \<Rightarrow> t) + hc_ShutdownTimeout (cf_HTTP (ap_cfg a))"
    by (rule exI [of _ pre], rule exI [of _ "ws @ closings (ap_deps a)"], rule exI [of _ D])
      (use t p D closings_close [of _ "ap_deps a"] in auto)
qed

text \<open>A start and a run with everything on.\<close>

definition sample_newlib :: "unit tenant_svc newlib" where
  "sample_newlib = \<lparr>nw_enc = \<lambda>e. [], nw_metricsHandler = \<lambda>r w. Ret (Write ''# metrics'' w), nw_resolved = \<lambda>r. None,
     nw_drivers = \<lparr>rg_factories = [(''noop'', \<lambda>c e. Inr Noop)], rg_names = []\<rparr>, nw_policies = Map.empty, nw_clock = 5, nw_abandoned = 0\<rparr>"

definition sample_start :: "(unit tenant_svc, unit) App started \<times> unit tenant_svc boot" where
  "sample_start = New sample_startlib sample_newlib (Some wired_config) True [] [Some sample_feature] fresh_boot"

theorem lifecycle_releases_witness:
  "\<exists>a. fst sample_start = Ready a \<and>
     track {} (bt_trace (snd (snd (Run (Interrupted 10 None (Some None)) 0 12 a (snd sample_start))))) = Some {}"
proof -
  have "case fst sample_start of Ready a \<Rightarrow> True | _ \<Rightarrow> False" by code_simp
  then obtain a where a: "fst sample_start = Ready a" by (cases "fst sample_start") auto
  then have new: "New sample_startlib sample_newlib (Some wired_config) True [] [Some sample_feature] fresh_boot = (Ready a, snd sample_start)"
    by (simp add: sample_start_def prod_eq_iff)
  have start: "track {} (bt_trace (fresh_boot :: unit tenant_svc boot)) = Some {}" by (simp add: fresh_boot_def)
  obtain err a' b2 where run: "Run (Interrupted 10 None (Some None)) 0 12 a (snd sample_start) = (err, a', b2)" using prod_cases3 by blast
  then have "track {} (bt_trace b2) = Some {}" using lifecycle_releases [OF start new] by blast
  with a run show ?thesis by simp
qed

text \<open>What a failed start does leave open: the engine when tracing fails after it, the exporter when the notifier is refused.\<close>

theorem failed_start_leaves_engine:
  "let L = sample_startlib\<lparr>sl_exporter := \<lambda>t. Some ''unreachable''\<rparr>;
       cfg = wired_config\<lparr>cf_Tracing := (cf_Tracing wired_config)\<lparr>trc_Enabled := True\<rparr>\<rparr> in
   track {} (bt_trace (snd (New L sample_newlib (Some cfg) True [] [] fresh_boot))) = Some {GoAuthEngine}"
  by code_simp

theorem refused_notifier_leaves_exporter:
  "let cfg = wired_config\<lparr>cf_Tracing := (cf_Tracing wired_config)\<lparr>trc_Enabled := True\<rparr>, cf_Notify := (cf_Notify wired_config)\<lparr>nt_Driver := ''pager''\<rparr>\<rparr> in
   track {} (bt_trace (snd (New sample_startlib sample_newlib (Some cfg) True [] [] fresh_boot))) = Some {TraceExporter}"
  by code_simp

section \<open>The metrics endpoint is guarded in production\<close>

lemma metrics_kept:
  assumes "initDependencies L cfg fs b = (Inr d, b')"
  shows "dn_Metrics d = Some (cf_Metrics cfg)"
proof -
  have metrics: "init_metrics L cfg e c = (Inr e', c') \<Longrightarrow> dn_Metrics e' = Some (cf_Metrics cfg)" for e e' :: "('a, 'b) Dependencies" and c c'
    by (auto simp: init_metrics_def metrics_New_def fail_releasing_def split: sum.splits if_splits option.splits)
  have mode: "init_mode cfg e c = (Inr e', c') \<Longrightarrow> dn_Metrics e' = dn_Metrics e" for e e' :: "('a, 'b) Dependencies" and c c' :: "'a boot"
    by (auto simp: init_mode_def fail_releasing_def split: sum.splits)
  have auth: "init_auth L cfg e c = (Inr e', c') \<Longrightarrow> dn_Metrics e' = dn_Metrics e" for e e' :: "('a, 'b) Dependencies" and c c'
    by (auto simp: init_auth_def fail_releasing_def split: sum.splits prod.splits if_splits)
  have tracing: "init_tracing L cfg e c = (Inr e', c') \<Longrightarrow> dn_Metrics e' = dn_Metrics e" for e e' :: "('a, 'b) Dependencies" and c c'
    by (auto simp: init_tracing_def fail_releasing_def split: sum.splits prod.splits)
  from assms obtain loaded where "wire L cfg (empty_deps cfg loaded) b = (Inr d, b')" by (auto simp: initDependencies_def split: sum.splits)
  then show ?thesis using metrics mode auth tracing
    by (fastforce simp: wire_def boot_then_Inr init_limiter_eq init_cache_eq split: if_splits)
qed

text \<open>A module only adds routes.\<close>

definition adds_routes :: "('s, 'c) module \<Rightarrow> bool" where
  "adds_routes m \<longleftrightarrow> (\<forall>d mt mt'. m d mt = Ready mt' \<longrightarrow> (\<exists>rs. mx_routes (fst mt') = mx_routes (fst mt) @ rs))"

lemma register_modules_adds:
  assumes "register_modules d ms mt = Ready mt'" and "\<forall>m. Some m \<in> set ms \<longrightarrow> adds_routes m"
  shows "\<exists>rs. mx_routes (fst mt') = mx_routes (fst mt) @ rs"
  using assms
proof (induction d ms mt rule: register_modules.induct)
  case (3 d m ms mt)
  then obtain mt1 where m: "m d mt = Ready mt1" "register_modules d ms mt1 = Ready mt'" by (auto split: started.splits)
  moreover have "adds_routes m" using 3 by simp
  ultimately obtain rs where "mx_routes (fst mt1) = mx_routes (fst mt) @ rs" unfolding adds_routes_def by blast
  moreover obtain rs' where "mx_routes (fst mt') = mx_routes (fst mt1) @ rs'" using 3 m by auto
  ultimately show ?case by simp
qed simp_all

lemma handle_plain:
  assumes "handle c (mx, t) = Inr mt" and "hc_policies c = no_policies"
  shows "mx_routes (fst mt) = mx_routes mx @ [\<lparr>rt_method = hc_method c, rt_pattern = hc_pattern c, rt_handler = hc_handler c\<rparr>]"
  using assms by (auto simp: handle_def no_policies_def Mux_Handle_def split: option.splits sum.splits)

lemma router_starts_empty: "mx_routes (fold (\<lambda>lf. UseRouteRules (f lf)) fs mx) = mx_routes mx"
  by (induction fs arbitrary: mx) (simp_all add: UseRouteRules_def)

text \<open>A request that presents the token.\<close>

definition presents :: "string \<Rightarrow> request \<Rightarrow> bool" where
  "presents token r \<longleftrightarrow> (\<exists>scheme credential. str_fields (trim_space (header_get (req_header r) ''Authorization'')) = [scheme, credential] \<and>
     equal_fold scheme ''Bearer'' \<and> trim_space credential = token)"

lemma requireBearerToken_eq:
  assumes "trim_space token = token" and "token \<noteq> []"
  shows "requireBearerToken enc next token r w =
    (if presents token r then next r w
     else Ret (response_Error enc (apperr_New CodeUnauthorized 401 ''unauthorized'') (ctx_request_id r)
       (SetHeader ''WWW-Authenticate'' (''Bearer realm='' @ quoted ''metrics'') w)))"
proof -
  let ?parts = "str_fields (trim_space (header_get (req_header r) ''Authorization''))"
  have "presents token r \<longleftrightarrow> length ?parts = 2 \<and> equal_fold (?parts ! 0) ''Bearer'' \<and> trim_space (?parts ! 1) = token"
    by (auto simp: presents_def length_Suc_conv numeral_2_eq_2)
  then show ?thesis using assms by (auto simp: requireBearerToken_def Let_def)
qed

text \<open>
  C32: In production the metrics are not public. In an application that starts with a configuration that passes the checks, in production and
  with metrics on, the first route is the metrics path, and whatever the modules add, its handler runs the exporter only for a request
  whose authorization is the bearer token; every other request gets the same 401 with a challenge and nothing else.
\<close>

theorem metrics_guarded:
  assumes "Lint F N drivers env cfg = None" and "is_prod (cf_Env cfg)" and "me_Enabled (cf_Metrics cfg)"
    and "New L W (Some cfg) True ms fs b = (Ready a, b')" and "\<forall>m. Some m \<in> set ms \<longrightarrow> adds_routes m"
  shows "\<exists>route rest token. mx_routes (ap_router a) = route # rest \<and> rt_method route = ''GET'' \<and> rt_pattern route = metrics_Path (cf_Metrics cfg) \<and>
    token = trim_space (me_AuthToken (cf_Metrics cfg)) \<and> token \<noteq> [] \<and>
    (\<forall>r w. rt_handler route r w = (if presents token r then nw_metricsHandler W r w
       else Ret (response_Error (nw_enc W) (apperr_New CodeUnauthorized 401 ''unauthorized'') (ctx_request_id r)
         (SetHeader ''WWW-Authenticate'' (''Bearer realm='' @ quoted ''metrics'') w))))"
proof -
  let ?token = "trim_space (me_AuthToken (cf_Metrics cfg))"
  have token: "?token \<noteq> []"
    using Lint_groups(7) [OF assms(1)] assms(2,3) by (simp add: lint_observability_def first_error_None Let_def)
  from assms(4) obtain deps b1 nf router where init: "initDependencies L cfg fs b = (Inr deps, b1)"
    and mods: "New_modules W cfg ms (deps\<lparr>dn_Notifier := Some nf\<rparr>) router (emit (map Warned (Deprecations (Some deps))) b1) = (Ready a, b')"
    and router: "router = Mux_Use [CaptureRoutePattern (nw_resolved W)] (fold (\<lambda>lf. UseRouteRules (hk_RouteRules (snd lf))) (dn_features deps) NewMux)"
    by (cases rule: New_cases) auto
  let ?call = "metrics_call (nw_enc W) (nw_metricsHandler W) cfg (cf_Metrics cfg)"
  from mods obtain mt mt' where mt: "handle ?call (router, nw_policies W) = Inr mt"
    and reg: "register_modules (deps\<lparr>dn_Notifier := Some nf\<rparr>) ms mt = Ready mt'" and a: "ap_router a = fst mt'"
    using metrics_kept [OF init] assms(3)
    by (auto simp: New_modules_def mount_metrics_def metrics_Enabled_def split: sum.splits started.splits)
  have "mx_routes router = []" using router by (simp add: Mux_Use_def router_starts_empty NewMux_def)
  then have "mx_routes (fst mt) = [\<lparr>rt_method = ''GET'', rt_pattern = metrics_Path (cf_Metrics cfg),
      rt_handler = requireBearerToken (nw_enc W) (nw_metricsHandler W) ?token\<rparr>]"
    using handle_plain [OF mt] token by (simp add: metrics_call_def Let_def)
  moreover obtain rs where "mx_routes (fst mt') = mx_routes (fst mt) @ rs" using register_modules_adds [OF reg assms(5)] by blast
  ultimately show ?thesis using a token
    by (intro exI [of _ "\<lparr>rt_method = ''GET'', rt_pattern = metrics_Path (cf_Metrics cfg),
        rt_handler = requireBearerToken (nw_enc W) (nw_metricsHandler W) ?token\<rparr>"] exI [of _ rs] exI [of _ ?token])
      (simp add: requireBearerToken_eq)
qed

definition prod_config :: Config where
  "prod_config = wired_config\<lparr>cf_Env := ''prod'', cf_Metrics := (cf_Metrics wired_config)\<lparr>me_AuthToken := '' s3cret''\<rparr>,
     cf_RateLimit := (cf_RateLimit wired_config)\<lparr>rlc_FailOpen := False\<rparr>, cf_Cache := (cf_Cache wired_config)\<lparr>ca_FailOpen := False\<rparr>\<rparr>"

lemma prod_words: "is_prod ''prod''" "trim_space '' s3cret'' = ''s3cret''" "isDevOrTestEnv ''prod'' = False"
  by code_simp+

lemma prod_config_accepted: "Lint no_floats no_netlib builtin_drivers Map.empty prod_config = None"
proof -
  have "first_error (lint_auth no_netlib builtin_drivers Map.empty prod_config) = None"
    by (simp add: prod_config_def wired_config_def lint_auth_def default_defs load_auth_def load_redis_def load_postgres_def
      lintAuthFeatures_def lintWebAuthn_def lintNotifyDriver_def lintSMTP_def lintNotifyDelivery_def notifyDeliveryFlags_def notifyDriverKnown_def builtin_drivers_def)
  moreover have "first_error (lint_limits prod_config) = None"
    by (simp add: prod_config_def wired_config_def lint_limits_def default_defs load_http_def load_access_log_def)
  moreover have "first_error (lint_postgres (cf_Postgres prod_config)) = None" "first_error (lint_redis (cf_Redis prod_config)) = None"
    by (simp_all add: prod_config_def wired_config_def lint_postgres_def lint_redis_def default_defs load_postgres_def load_redis_def)
  moreover have "first_error (lint_observability prod_config) = None"
    by (simp add: prod_config_def wired_config_def lint_observability_def default_defs load_tracing_def prod_words)
  moreover have "lint_http no_netlib prod_config = lint_http no_netlib (config_of Map.empty)" "cf_Log prod_config = cf_Log (config_of Map.empty)"
    by (simp_all add: prod_config_def wired_config_def lint_http_def Let_def)
  ultimately show ?thesis using default_groups default_env_formats by (simp add: Lint_def first_error_None)
qed

definition prod_start :: "(unit tenant_svc, unit) App started \<times> unit tenant_svc boot" where
  "prod_start = New sample_startlib sample_newlib (Some prod_config) True [] [Some sample_feature] fresh_boot"

theorem metrics_guarded_witness:
  "\<exists>a route rest. fst prod_start = Ready a \<and> mx_routes (ap_router a) = route # rest \<and> rt_pattern route = ''/metrics'' \<and>
     rt_handler route blank_request (blank_world \<lparr>tv_cache = None, tv_rest = ()\<rparr>) =
       Ret (response_Error (\<lambda>e. []) (apperr_New CodeUnauthorized 401 ''unauthorized'') (ctx_request_id blank_request)
         (SetHeader ''WWW-Authenticate'' (''Bearer realm='' @ quoted ''metrics'') (blank_world \<lparr>tv_cache = None, tv_rest = ()\<rparr>)))"
proof -
  have "case fst prod_start of Ready a \<Rightarrow> True | _ \<Rightarrow> False" by code_simp
  then obtain a where a: "fst prod_start = Ready a" by (cases "fst prod_start") auto
  then have new: "New sample_startlib sample_newlib (Some prod_config) True [] [Some sample_feature] fresh_boot = (Ready a, snd prod_start)"
    by (simp add: prod_start_def prod_eq_iff)
  have prod: "is_prod (cf_Env prod_config)" "me_Enabled (cf_Metrics prod_config)" "metrics_Path (cf_Metrics prod_config) = ''/metrics''"
    "trim_space (me_AuthToken (cf_Metrics prod_config)) = ''s3cret''" by code_simp+
  have "str_fields [] = []" by code_simp
  then have "\<not> presents ''s3cret'' blank_request" by (simp add: presents_def blank_request_def header_get_def header_values_def)
  with metrics_guarded [OF prod_config_accepted prod(1,2) new] a prod(3,4) show ?thesis by (auto simp: sample_newlib_def)
qed

end
