(* ===== verification/Flags.thy ===== *)
theory Flags
  imports Prelude
begin

text \<open>
  Command-line flags as the \<open>flag\<close> package of Go's standard library parses them, for the commands under \<open>cmd/\<close>: string and
  boolean flags with one or two dashes, \<open>-name value\<close> or \<open>-name=value\<close>, up to the first argument that is no flag or a bare \<open>--\<close>.
\<close>

section \<open>Parsing\<close>

text \<open>The \<open>flag\<close> package: the flags with their kind, the values in the order they are set, and the arguments left.\<close>

datatype flag_kind = StringFlag | BoolFlag
datatype flag_error = ErrHelp | BadSyntax string | NotDefined string | BadBool string | NeedsArgument string
  | Unexpected "string list" | Required string   \<comment> \<open>what commands report of their own\<close>

text \<open>The name and, after the first equals sign that is not its first byte, the value.\<close>

definition split_flag :: "string \<Rightarrow> string \<times> string option" where
  "split_flag name =
     (let rest = tl name; n = takeWhile (\<lambda>c. c \<noteq> CHR ''='') rest in
      if CHR ''='' \<in> set rest then (hd name # n, Some (drop (length n + 1) rest)) else (name, None))"

function FlagSet_Parse :: "(string \<times> flag_kind) list \<Rightarrow> string list \<Rightarrow> (string \<times> string) list
    \<Rightarrow> flag_error + (string \<times> string) list \<times> string list" where
  "FlagSet_Parse defs [] vals = Inr (vals, [])"
| "FlagSet_Parse defs (s # args) vals =
     (if length s < 2 \<or> s ! 0 \<noteq> CHR ''-'' then Inr (vals, s # args)
      else if s = ''--'' then Inr (vals, args)
      else (let name0 = (if s ! 1 = CHR ''-'' then drop 2 s else drop 1 s) in
        if name0 = [] \<or> hd name0 = CHR ''-'' \<or> hd name0 = CHR ''='' then Inl (BadSyntax s)
        else (case split_flag name0 of
            (name, given) \<Rightarrow>
              (case map_of defs name of
                 None \<Rightarrow> Inl (if name = ''help'' \<or> name = ''h'' then ErrHelp else NotDefined name)
               | Some BoolFlag \<Rightarrow>
                   (case given of
                      None \<Rightarrow> FlagSet_Parse defs args (vals @ [(name, ''true'')])
                    | Some v \<Rightarrow> if parse_bool v = None then Inl (BadBool name) else FlagSet_Parse defs args (vals @ [(name, v)]))
               | Some StringFlag \<Rightarrow>
                   (case given of
                      Some v \<Rightarrow> FlagSet_Parse defs args (vals @ [(name, v)])
                    | None \<Rightarrow> if args = [] then Inl (NeedsArgument name)
                        else FlagSet_Parse defs (tl args) (vals @ [(name, hd args)]))))))"
  by pat_completeness auto

termination
  by (relation "measure (\<lambda>(defs, args, vals). length args)") (auto simp: less_Suc_eq_le neq_Nil_conv)

definition flag_value :: "(string \<times> string) list \<Rightarrow> string \<Rightarrow> string \<Rightarrow> string" where
  "flag_value vals name unset = (case map_of (rev vals) name of None \<Rightarrow> unset | Some v \<Rightarrow> v)"

definition flag_set :: "(string \<times> string) list \<Rightarrow> string \<Rightarrow> bool" where
  "flag_set vals name = (case map_of (rev vals) name of None \<Rightarrow> False | Some v \<Rightarrow> parse_bool v = Some True)"

end
