(* ===== verification/Create_User.thy ===== *)
theory Create_User
  imports App_Lifecycle Flags
begin

text \<open>
  The tenants of a deployment and the command that creates accounts: the \<open>tenants\<close> table with its queries (\<open>sqlcgen/tenancy.sql.go\<close>, the
  constraints of \<open>db/schema/tenancy.sql\<close>), the repository over it (\<open>tenancy/directory.go\<close>), the step of the tenancy feature
  (\<open>tenancy/createuser.go\<close>) and \<open>cmd/createuser/main.go\<close> with the terminal it reads.

  goAuth's engine is the record \<open>account_engine\<close> of the two methods the command calls. An error of \<open>CreateAccount\<close> is the first of the
  values the command asks \<open>errors.Is\<close> for, or a text.
\<close>

section \<open>The tenants table\<close>

record tenant_row =
  tw_ID :: string
  tw_Slug :: string
  tw_Name :: string
  tw_Status :: string

record tenant_db =
  td_rows :: "tenant_row list"
  td_fault :: "string option"   \<comment> \<open>an error of the connection\<close>

type_synonym 'a tenant_query = "tenant_db \<Rightarrow> (pg_error + 'a) \<times> tenant_db"

definition tenant_exec :: "'a tenant_query \<Rightarrow> 'a tenant_query" where
  "tenant_exec q db = (case td_fault db of Some e \<Rightarrow> (Inl (DriverError e), db) | None \<Rightarrow> q db)"

definition tenant_where :: "(tenant_row \<Rightarrow> bool) \<Rightarrow> tenant_row tenant_query" where
  "tenant_where P = tenant_exec (\<lambda>db. (case List.find P (td_rows db) of None \<Rightarrow> Inl ErrNoRows | Some row \<Rightarrow> Inr row, db))"

definition GetTenantByID :: "string \<Rightarrow> tenant_row tenant_query" where
  "GetTenantByID i = tenant_where (\<lambda>row. tw_ID row = i)"

definition GetTenantBySlug :: "string \<Rightarrow> tenant_row tenant_query" where
  "GetTenantBySlug slug = tenant_where (\<lambda>row. tw_Slug row = slug)"

text \<open>\<open>CHECK (status IN ('active', 'inactive'))\<close>, the primary key and the unique slug.\<close>

definition CreateTenant :: "tenant_row \<Rightarrow> tenant_row tenant_query" where
  "CreateTenant p = tenant_exec (\<lambda>db.
     if tw_Status p \<notin> set [''active'', ''inactive''] then (Inl (PgCode pgCheckViolation), db)
     else if list_ex (\<lambda>row. tw_ID row = tw_ID p \<or> tw_Slug row = tw_Slug p) (td_rows db) then (Inl (PgCode pgUniqueViolation), db)
     else (Inr p, db\<lparr>td_rows := td_rows db @ [p]\<rparr>))"

section \<open>The repository\<close>

definition tenant_of_row :: "tenant_row \<Rightarrow> TenantRecord" where
  "tenant_of_row row = \<lparr>tr_ID = tw_ID row, tr_Slug = tw_Slug row, tr_Name = tw_Name row, tr_Status = tw_Status row\<rparr>"

text \<open>\<open>etext\<close> is the text of a driver error. The queries that read leave the table alone.\<close>

definition directory_result :: "(pg_error \<Rightarrow> string) \<Rightarrow> string \<Rightarrow> pg_error + tenant_row \<Rightarrow> directory_reply" where
  "directory_result etext op res =
     (case res of
        Inl e \<Rightarrow> if e = ErrNoRows then DirNotFound else DirError (go_error.Wrapped op (go_error.Plain (etext e)))
      | Inr row \<Rightarrow> DirFound (tenant_of_row row))"

definition repository_Get :: "(pg_error \<Rightarrow> string) \<Rightarrow> string \<Rightarrow> tenant_db \<Rightarrow> directory_reply" where
  "repository_Get etext tenantID db = directory_result etext ''get tenant'' (fst (GetTenantByID (trim_space tenantID) db))"

definition repository_GetBySlug :: "(pg_error \<Rightarrow> string) \<Rightarrow> string \<Rightarrow> tenant_db \<Rightarrow> directory_reply" where
  "repository_GetBySlug etext slug db = directory_result etext ''get tenant by slug'' (fst (GetTenantBySlug (NormalizeSlug slug) db))"

definition repository_Create :: "(pg_error \<Rightarrow> string) \<Rightarrow> TenantRecord \<Rightarrow> tenant_db \<Rightarrow> (go_error + TenantRecord) \<times> tenant_db" where
  "repository_Create etext rec db =
     (let status = (let s = trim_space (tr_Status rec) in if s = [] then ''active'' else s) in
      case CreateTenant \<lparr>tw_ID = trim_space (tr_ID rec), tw_Slug = NormalizeSlug (tr_Slug rec), tw_Name = trim_space (tr_Name rec), tw_Status = status\<rparr> db of
        (Inl e, db') \<Rightarrow> (Inl (go_error.Wrapped ''create tenant'' (go_error.Plain (etext e))), db')
      | (Inr row, db') \<Rightarrow> (Inr (tenant_of_row row), db'))"

text \<open>\<open>NewRepository\<close> as the directory of the middleware.\<close>

definition table_directory :: "(pg_error \<Rightarrow> string) \<Rightarrow> tenant_db Directory" where
  "table_directory etext = \<lparr>dir_Get = repository_Get etext, dir_GetBySlug = repository_GetBySlug etext\<rparr>"

section \<open>The step of the tenancy feature\<close>

record userStep =
  us_tenantID :: string
  us_createTenant :: bool
  us_cfg :: TenancyConfig

definition step_Validate :: "floats \<Rightarrow> environ \<Rightarrow> Config \<Rightarrow> userStep \<Rightarrow> string + userStep" where
  "step_Validate F env core s0 =
     (let t = trim_space (us_tenantID s0); cfg = tenancy_LoadConfig F env; s = s0\<lparr>us_tenantID := t, us_cfg := cfg\<rparr> in
      if t \<noteq> [] \<and> \<not> ValidTenantID t then Inl (''invalid --tenant '' @ quoted t)
      else (case tenancy_Lint (pg_Enabled (cf_Postgres core)) cfg of
          Some e \<Rightarrow> Inl (tenancy_lint_text e)
        | None \<Rightarrow>
            if tc_Enabled cfg \<and> t = [] then Inl ''TENANCY_ENABLED=true requires --tenant''
            else if \<not> tc_Enabled cfg \<and> t \<noteq> [] then Inl ''--tenant requires TENANCY_ENABLED=true''
            else Inr s))"

text \<open>\<open>db\<close>: the dependencies have a database. \<open>None\<close> is no error.\<close>

definition ensureTenant :: "(pg_error \<Rightarrow> string) \<Rightarrow> userStep \<Rightarrow> bool \<Rightarrow> tenant_db \<Rightarrow> go_error option \<times> tenant_db" where
  "ensureTenant etext s db tenants =
     (if \<not> db then (Some (go_error.Plain ''tenant repository unavailable (POSTGRES_ENABLED=false?)''), tenants)
      else (case repository_Get etext (us_tenantID s) tenants of
          DirNotFound \<Rightarrow>
            if \<not> us_createTenant s then
              (if tc_Validate (us_cfg s) then Some (go_error.Plain (''tenant '' @ quoted (us_tenantID s) @ '' does not exist; pass --create-tenant to create it'')) else None,
               tenants)
            else (case repository_Create etext \<lparr>tr_ID = us_tenantID s, tr_Slug = us_tenantID s, tr_Name = us_tenantID s, tr_Status = ''active''\<rparr> tenants of
                (Inl e, tenants') \<Rightarrow> (Some e, tenants')
              | (Inr rec, tenants') \<Rightarrow> (None, tenants'))
        | DirError e \<Rightarrow> (Some e, tenants)
        | DirFound rec \<Rightarrow>
            (if \<not> tenant_Active rec then Some (go_error.Plain (''tenant '' @ quoted (us_tenantID s) @ '' is not active'')) else None, tenants)))"

definition step_Prepare :: "(pg_error \<Rightarrow> string) \<Rightarrow> userStep \<Rightarrow> bool \<Rightarrow> request \<Rightarrow> tenant_db \<Rightarrow> (go_error + request) \<times> tenant_db" where
  "step_Prepare etext s db ctx tenants =
     (if us_tenantID s = [] then (Inr ctx, tenants)
      else (case ensureTenant etext s db tenants of
          (Some e, tenants') \<Rightarrow> (Inl e, tenants')
        | (None, tenants') \<Rightarrow> (Inr (WithRequestTenant ctx (us_tenantID s)), tenants')))"

definition step_Summary :: "userStep \<Rightarrow> string list" where
  "step_Summary s = (if us_tenantID s = [] then [] else [''  tenant: '' @ us_tenantID s])"

section \<open>Flags and the password\<close>

record create_options =
  op_email :: string
  op_role :: string
  op_passwordStdin :: bool
  op_requireVerification :: bool
  op_steps :: "userStep list"

text \<open>\<open>steps\<close>: the registered features with a part in the command; here the tenancy feature, or none.\<close>

definition create_flags :: "bool \<Rightarrow> (string \<times> flag_kind) list" where
  "create_flags tenancy =
     [(''email'', StringFlag), (''role'', StringFlag), (''password-stdin'', BoolFlag), (''require-verification'', BoolFlag)] @
     (if tenancy then [(''tenant'', StringFlag), (''create-tenant'', BoolFlag)] else [])"

definition no_tenancy :: TenancyConfig where
  "no_tenancy = \<lparr>tc_Enabled = False, tc_Resolver = [], tc_Header = [], tc_BaseDomain = [], tc_Validate = False, tc_ValidateCacheTTL = 0, tc_ExemptPaths = []\<rparr>"

definition UserFlags :: "(string \<times> string) list \<Rightarrow> userStep" where
  "UserFlags vals = \<lparr>us_tenantID = flag_value vals ''tenant'' [], us_createTenant = flag_set vals ''create-tenant'', us_cfg = no_tenancy\<rparr>"

definition parseFlags :: "bool \<Rightarrow> string list \<Rightarrow> flag_error + create_options" where
  "parseFlags tenancy args =
     (case FlagSet_Parse (create_flags tenancy) args [] of
        Inl e \<Rightarrow> Inl e
      | Inr (vals, rest) \<Rightarrow>
          (let email = NormalizeIdentifier (flag_value vals ''email'' []) in
           if rest \<noteq> [] then Inl (Unexpected rest)
           else if email = [] then Inl (Required ''email'')
           else Inr \<lparr>op_email = email, op_role = trim_space (flag_value vals ''role'' RoleUser), op_passwordStdin = flag_set vals ''password-stdin'',
                op_requireVerification = flag_set vals ''require-verification'', op_steps = (if tenancy then [UserFlags vals] else [])\<rparr>))"

text \<open>Standard input: what can be read before the end (\<open>None\<close>) or an error, whether it is a terminal, and what \<open>term.ReadPassword\<close> answers
  the first and the second time.\<close>

record stdin =
  in_bytes :: string
  in_error :: "string option"
  in_terminal :: bool
  in_first :: "string + string"
  in_second :: "string + string"

definition ReadLine :: "stdin \<Rightarrow> string \<times> string option" where
  "ReadLine input =
     (let line = takeWhile (\<lambda>c. c \<noteq> CHR 0x0A) (in_bytes input) in
      if CHR 0x0A \<in> set (in_bytes input) then (line @ [CHR 0x0A], None) else (line, in_error input))"

definition trim_newlines :: "string \<Rightarrow> string" where
  "trim_newlines s = rev (dropWhile (\<lambda>c. c = CHR 0x0D \<or> c = CHR 0x0A) (rev s))"

definition readPassword :: "bool \<Rightarrow> stdin \<Rightarrow> string + string" where
  "readPassword fromStdin input =
     (if fromStdin then
        (case ReadLine input of
           (line, Some e) \<Rightarrow> Inl (''read password from stdin: '' @ e)
         | (line, None) \<Rightarrow> (let password = trim_newlines line in if password = [] then Inl ''empty password on stdin'' else Inr password))
      else if \<not> in_terminal input then Inl ''stdin is not a terminal; pipe the password with --password-stdin''
      else (case in_first input of
          Inl e \<Rightarrow> Inl (''read password: '' @ e)
        | Inr once \<Rightarrow>
            (case in_second input of
               Inl e \<Rightarrow> Inl (''read password: '' @ e)
             | Inr again \<Rightarrow>
                 if once \<noteq> again then Inl ''passwords do not match'' else if once = [] then Inl ''empty password'' else Inr once)))"

section \<open>The command\<close>

datatype account_error = AccountExists | RoleInvalid | PolicyViolated | OtherFailure string

record 'e account_engine =
  ae_CreateAccount :: "nat option \<Rightarrow> string \<Rightarrow> string \<Rightarrow> string \<Rightarrow> request \<Rightarrow> 'e \<Rightarrow> (account_error + string \<times> string) \<times> 'e"
  ae_EnableAccount :: "nat option \<Rightarrow> string \<Rightarrow> request \<Rightarrow> 'e \<Rightarrow> string option \<times> 'e"

datatype complaint =
    BadFlags flag_error | LoadFailed config_error | LintFailed config_error | AuthDisabled | StepRejected string | BadPassword string
  | InitFailed string | PrepareFailed go_error | CreateFailed account_error | ActivateFailed string

record command_result =
  cr_exit :: int
  cr_error :: "complaint option"
  cr_out :: "string list"

record ('s, 'e) command_state =
  cs_boot :: "'s boot"
  cs_tenants :: tenant_db
  cs_engine :: 'e

abbreviation fails :: "int \<Rightarrow> complaint \<Rightarrow> command_result" where
  "fails code e \<equiv> \<lparr>cr_exit = code, cr_error = Some e, cr_out = []\<rparr>"

fun validate_steps :: "floats \<Rightarrow> environ \<Rightarrow> Config \<Rightarrow> userStep list \<Rightarrow> string + userStep list" where
  "validate_steps F env cfg [] = Inr []"
| "validate_steps F env cfg (s # ss) =
     (case step_Validate F env cfg s of
        Inl e \<Rightarrow> Inl e
      | Inr s' \<Rightarrow> (case validate_steps F env cfg ss of Inl e \<Rightarrow> Inl e | Inr ss' \<Rightarrow> Inr (s' # ss')))"

fun prepare_steps :: "(pg_error \<Rightarrow> string) \<Rightarrow> bool \<Rightarrow> userStep list \<Rightarrow> request \<Rightarrow> tenant_db \<Rightarrow> (go_error + request) \<times> tenant_db" where
  "prepare_steps etext db [] ctx tenants = (Inr ctx, tenants)"
| "prepare_steps etext db (s # ss) ctx tenants =
     (case step_Prepare etext s db ctx tenants of
        (Inl e, tenants') \<Rightarrow> (Inl e, tenants')
      | (Inr ctx', tenants') \<Rightarrow> prepare_steps etext db ss ctx' tenants')"

text \<open>The account: \<open>engine_ref\<close> is the engine of the dependencies. \<open>Inr\<close>: the identifier, the role and the status printed.\<close>

definition create_account :: "'e account_engine \<Rightarrow> nat option \<Rightarrow> bool \<Rightarrow> create_options \<Rightarrow> string \<Rightarrow> request \<Rightarrow> 'e
    \<Rightarrow> (complaint + string \<times> string \<times> string) \<times> 'e" where
  "create_account E engine_ref verification opts password ctx e =
     (case ae_CreateAccount E engine_ref (op_email opts) password (op_role opts) ctx e of
        (Inl err, e1) \<Rightarrow> (Inl (CreateFailed err), e1)
      | (Inr (uid, role), e1) \<Rightarrow>
          if \<not> verification then (Inr (uid, role, ''active''), e1)
          else if op_requireVerification opts then (Inr (uid, role, ''pending_verification''), e1)
          else (case ae_EnableAccount E engine_ref uid ctx e1 of
              (Some err, e2) \<Rightarrow> (Inl (ActivateFailed err), e2)
            | (None, e2) \<Rightarrow> (Inr (uid, role, ''active''), e2)))"

definition created_lines :: "string \<Rightarrow> string \<Rightarrow> string \<Rightarrow> string \<Rightarrow> string list" where
  "created_lines uid email role status = [''created user'', ''  id:     '' @ uid, ''  email:  '' @ email, ''  role:   '' @ role, ''  status: '' @ status]"

text \<open>From the dependencies on; they are closed on every way out.\<close>

definition run_with :: "('s, 'c) startlib \<Rightarrow> (pg_error \<Rightarrow> string) \<Rightarrow> 'e account_engine \<Rightarrow> ('s, 'c) Feature option list \<Rightarrow> request \<Rightarrow> Config
    \<Rightarrow> create_options \<Rightarrow> string \<Rightarrow> ('s, 'e) command_state \<Rightarrow> command_result \<times> ('s, 'e) command_state" where
  "run_with L etext E registry ctx cfg opts password st =
     (case initDependencies L cfg registry (cs_boot st) of
        (Inl e, b) \<Rightarrow> (fails 1 (InitFailed e), st\<lparr>cs_boot := b\<rparr>)
      | (Inr deps, b) \<Rightarrow>
          (let closed = st\<lparr>cs_boot := Dependencies_Close (Some deps) b\<rparr> in
           case prepare_steps etext (dn_DB deps) (op_steps opts) ctx (cs_tenants st) of
             (Inl e, tenants) \<Rightarrow> (fails 1 (PrepareFailed e), closed\<lparr>cs_tenants := tenants\<rparr>)
           | (Inr ctx', tenants) \<Rightarrow>
               (case create_account E (dn_AuthEngine deps) (au_EmailVerificationEnabled (cf_Auth cfg)) opts password ctx' (cs_engine st) of
                  (Inl e, eng) \<Rightarrow> (fails 1 e, closed\<lparr>cs_tenants := tenants, cs_engine := eng\<rparr>)
                | (Inr (uid, role, status), eng) \<Rightarrow>
                    (\<lparr>cr_exit = 0, cr_error = None, cr_out = created_lines uid (op_email opts) role status @ concat (map step_Summary (op_steps opts))\<rparr>,
                     closed\<lparr>cs_tenants := tenants, cs_engine := eng\<rparr>))))"

text \<open>\<open>run\<close>: \<open>drivers\<close> are the registered notifiers, \<open>tenancy\<close> whether the tenancy feature is compiled in.\<close>

definition createuser_run :: "('s, 'c) startlib \<Rightarrow> floats \<Rightarrow> string list \<Rightarrow> (pg_error \<Rightarrow> string) \<Rightarrow> 'e account_engine \<Rightarrow> ('s, 'c) Feature option list \<Rightarrow> bool
    \<Rightarrow> request \<Rightarrow> string list \<Rightarrow> stdin \<Rightarrow> ('s, 'e) command_state \<Rightarrow> command_result \<times> ('s, 'e) command_state" where
  "createuser_run L F drivers etext E registry tenancy ctx args input st =
     (case parseFlags tenancy args of
        Inl e \<Rightarrow> (if e = ErrHelp then \<lparr>cr_exit = 0, cr_error = None, cr_out = []\<rparr> else fails 2 (BadFlags e), st)
      | Inr opts \<Rightarrow>
          (case Load F (sl_env L) of
             Inl e \<Rightarrow> (fails 1 (LoadFailed e), st)
           | Inr cfg \<Rightarrow>
               (case Lint F (sl_net L) drivers (sl_env L) cfg of
                  Some e \<Rightarrow> (fails 1 (LintFailed e), st)
                | None \<Rightarrow>
                    if \<not> au_Enabled (cf_Auth cfg) then (fails 1 AuthDisabled, st)
                    else (case validate_steps F (sl_env L) cfg (op_steps opts) of
                        Inl e \<Rightarrow> (fails 2 (StepRejected e), st)
                      | Inr steps \<Rightarrow>
                          (case readPassword (op_passwordStdin opts) input of
                             Inl e \<Rightarrow> (fails 2 (BadPassword e), st)
                           | Inr password \<Rightarrow> run_with L etext E registry ctx cfg (opts\<lparr>op_steps := steps\<rparr>) password st)))))"

section \<open>What the command leaves behind\<close>

text \<open>The row the command may add.\<close>

definition new_tenant :: "string \<Rightarrow> tenant_row" where
  "new_tenant t = \<lparr>tw_ID = trim_space t, tw_Slug = NormalizeSlug t, tw_Name = trim_space t, tw_Status = ''active''\<rparr>"

lemma repository_Get_found:
  "repository_Get etext t db = DirFound rec \<longleftrightarrow>
     td_fault db = None \<and> (\<exists>row. List.find (\<lambda>row. tw_ID row = trim_space t) (td_rows db) = Some row \<and> rec = tenant_of_row row)"
  by (auto simp: repository_Get_def directory_result_def GetTenantByID_def tenant_where_def tenant_exec_def split: option.splits)

lemma repository_Get_missing:
  "repository_Get etext t db = DirNotFound \<longleftrightarrow> td_fault db = None \<and> List.find (\<lambda>row. tw_ID row = trim_space t) (td_rows db) = None"
  by (auto simp: repository_Get_def directory_result_def GetTenantByID_def tenant_where_def tenant_exec_def split: option.splits)

lemma find_added: "List.find P xs = None \<Longrightarrow> P y \<Longrightarrow> List.find P (xs @ [y]) = Some y"
  by (induction xs) (auto split: if_splits)

lemma trim_active: "trim_space ''active'' = ''active''"
  by code_simp

lemma repository_Create_active:
  "repository_Create etext \<lparr>tr_ID = t, tr_Slug = t, tr_Name = t, tr_Status = ''active''\<rparr> db = (res, db') \<Longrightarrow>
     isl res \<and> db' = db \<or> \<not> isl res \<and> db' = db\<lparr>td_rows := td_rows db @ [new_tenant t]\<rparr>"
  by (auto simp: repository_Create_def CreateTenant_def tenant_exec_def new_tenant_def trim_active Let_def split: option.splits if_splits)

lemma ensureTenant_effect:
  assumes "ensureTenant etext s db tenants = (res, tenants')"
  shows "tenants' = tenants \<or> res = None \<and> us_createTenant s \<and> tenants' = tenants\<lparr>td_rows := td_rows tenants @ [new_tenant (us_tenantID s)]\<rparr>"
    and "res = None \<Longrightarrow> tc_Validate (us_cfg s) \<Longrightarrow>
      \<exists>rec. repository_Get etext (us_tenantID s) tenants' = DirFound rec \<and> tenant_Active rec \<and> tr_ID rec = trim_space (us_tenantID s)"
proof -
  let ?t = "us_tenantID s"
  have "(tenants' = tenants \<or> res = None \<and> us_createTenant s \<and> tenants' = tenants\<lparr>td_rows := td_rows tenants @ [new_tenant ?t]\<rparr>) \<and>
    (res = None \<longrightarrow> tc_Validate (us_cfg s) \<longrightarrow> (\<exists>rec. repository_Get etext ?t tenants' = DirFound rec \<and> tenant_Active rec \<and> tr_ID rec = trim_space ?t))"
  proof (cases "repository_Get etext ?t tenants")
    case (DirFound rec)
    moreover from this have "tr_ID rec = trim_space ?t" by (auto simp: repository_Get_found tenant_of_row_def find_Some_iff)
    ultimately show ?thesis using assms by (auto simp: ensureTenant_def split: if_splits)
  next
    case DirNotFound
    then have "repository_Get etext ?t (tenants\<lparr>td_rows := td_rows tenants @ [new_tenant ?t]\<rparr>) = DirFound (tenant_of_row (new_tenant ?t))"
      by (auto simp: repository_Get_missing repository_Get_found find_added new_tenant_def)
    with DirNotFound show ?thesis
      using assms by (auto simp: ensureTenant_def tenant_Active_def tenant_of_row_def new_tenant_def split: if_splits sum.splits prod.splits
          dest!: repository_Create_active)
  next
    case (DirError e)
    then show ?thesis using assms by (auto simp: ensureTenant_def split: if_splits)
  qed
  then show "tenants' = tenants \<or> res = None \<and> us_createTenant s \<and> tenants' = tenants\<lparr>td_rows := td_rows tenants @ [new_tenant (us_tenantID s)]\<rparr>"
    and "res = None \<Longrightarrow> tc_Validate (us_cfg s) \<Longrightarrow>
      \<exists>rec. repository_Get etext (us_tenantID s) tenants' = DirFound rec \<and> tenant_Active rec \<and> tr_ID rec = trim_space (us_tenantID s)" by blast+
qed

text \<open>With the table as its directory the resolver middleware serves every request that names the tenant, unless a cached answer is used.\<close>

definition passes_resolver :: "(pg_error \<Rightarrow> string) \<Rightarrow> string \<Rightarrow> tenant_db \<Rightarrow> bool" where
  "passes_resolver etext t tenants \<longleftrightarrow>
     (\<forall>enc rcfg next r w. resolver_of rcfg = ResolverHeader \<and> extract_value rcfg r = t \<and> req_path r \<notin> set (exempt_paths rcfg) \<and>
        fst (vc_get (now w) (cacheKey ResolverHeader t) (tv_cache (svc w))) = None \<and> tv_rest (svc w) = tenants \<longrightarrow>
        (\<exists>w'. Middleware enc rcfg (Some (table_directory etext)) next r w = next (WithRequestTenant r t) w'))"

lemma active_tenant_served:
  assumes "ValidTenantID t" and "repository_Get etext t tenants = DirFound rec" and "tenant_Active rec" and "tr_ID rec = t"
  shows "passes_resolver etext t tenants"
  unfolding passes_resolver_def using assms ValidTenantID_trim(1,2) [OF assms(1)]
  by (auto simp: Middleware_def lookupTenant_def table_directory_def Let_def split: prod.splits) (rule exI, rule refl)

lemma engine_built:
  assumes "initDependencies L cfg fs b = (Inr d, b')" and "au_Enabled (cf_Auth cfg)"
  shows "\<exists>n. dn_AuthEngine d = Some n"
proof -
  have auth: "init_auth L cfg e c = (Inr e', c') \<Longrightarrow> \<exists>n. dn_AuthEngine e' = Some n" for e e' :: "('a, 'b) Dependencies" and c c'
    using assms(2) by (auto simp: init_auth_def fail_releasing_def split: sum.splits prod.splits if_splits)
  have tracing: "init_tracing L cfg e c = (Inr e', c') \<Longrightarrow> dn_AuthEngine e' = dn_AuthEngine e" for e e' :: "('a, 'b) Dependencies" and c c'
    by (auto simp: init_tracing_def fail_releasing_def split: sum.splits prod.splits)
  from assms(1) obtain loaded where "wire L cfg (empty_deps cfg loaded) b = (Inr d, b')" by (auto simp: initDependencies_def split: sum.splits)
  then show ?thesis using auth tracing
    by (fastforce simp: wire_def boot_then_Inr init_limiter_eq init_cache_eq split: if_splits)
qed

lemma parseFlags_Inr:
  assumes "parseFlags tenancy args = Inr opts"
  shows "op_email opts \<noteq> []" and "NormalizeIdentifier (op_email opts) = op_email opts"
    and "\<exists>s. op_steps opts = (if tenancy then [s] else [])"
  using assms by (auto simp: parseFlags_def NormalizeIdentifier_def Let_def split: sum.splits if_splits)

lemma readPassword_Inr: "readPassword stdin input = Inr password \<Longrightarrow> password \<noteq> []"
  by (auto simp: readPassword_def Let_def split: if_splits sum.splits prod.splits option.splits)

lemma step_Validate_Inr:
  assumes "step_Validate F env core s = Inr s'"
  shows "s' = s\<lparr>us_tenantID := trim_space (us_tenantID s), us_cfg := tenancy_LoadConfig F env\<rparr>"
    and "tc_Enabled (tenancy_LoadConfig F env) \<longleftrightarrow> us_tenantID s' \<noteq> []" and "us_tenantID s' \<noteq> [] \<Longrightarrow> ValidTenantID (us_tenantID s')"
  using assms by (auto simp: step_Validate_def Let_def split: option.splits if_splits)

lemma step_Prepare_effect:
  assumes "step_Prepare etext s db ctx tenants = (res, tenants')"
  shows "tenants' = tenants \<or> us_createTenant s \<and> us_tenantID s \<noteq> [] \<and> tenants' = tenants\<lparr>td_rows := td_rows tenants @ [new_tenant (us_tenantID s)]\<rparr>"
    and "res = Inr ctx' \<Longrightarrow> us_tenantID s = [] \<Longrightarrow> ctx' = ctx"
    and "res = Inr ctx' \<Longrightarrow> us_tenantID s \<noteq> [] \<Longrightarrow> ctx' = WithRequestTenant ctx (us_tenantID s) \<and>
      (tc_Validate (us_cfg s) \<longrightarrow>
        (\<exists>rec. repository_Get etext (us_tenantID s) tenants' = DirFound rec \<and> tenant_Active rec \<and> tr_ID rec = trim_space (us_tenantID s)))"
  using assms by (auto simp: step_Prepare_def split: if_splits prod.splits option.splits dest: ensureTenant_effect)

text \<open>What a successful creation is: the calls of the engine, and the status the command printed.\<close>

definition created :: "'e account_engine \<Rightarrow> nat option \<Rightarrow> bool \<Rightarrow> create_options \<Rightarrow> string \<Rightarrow> request \<Rightarrow> 'e \<Rightarrow> 'e \<Rightarrow> bool" where
  "created E engine_ref verification opts password ctx e e' \<longleftrightarrow>
     (\<exists>uid role e1. ae_CreateAccount E engine_ref (op_email opts) password (op_role opts) ctx e = (Inr (uid, role), e1) \<and>
        (if verification \<and> \<not> op_requireVerification opts then ae_EnableAccount E engine_ref uid ctx e1 = (None, e') else e' = e1))"

lemma create_account_Inr: "create_account E n v opts password ctx e = (Inr x, e') \<Longrightarrow> created E n v opts password ctx e e'"
  by (auto simp: create_account_def created_def split: prod.splits sum.splits if_splits option.splits)

lemma run_with_effect:
  assumes "run_with L etext E registry ctx cfg opts password st = (res, st')" and "track {} (bt_trace (cs_boot st)) = Some {}"
    and "au_Enabled (cf_Auth cfg)"
  shows "no_connections (cs_boot st')" and "cr_exit res \<noteq> 2" and "cr_exit res = 0 \<longleftrightarrow> cr_error res = None"
    and "\<exists>db p. cs_tenants st' = cs_tenants st \<or> prepare_steps etext db (op_steps opts) ctx (cs_tenants st) = (p, cs_tenants st')"
    and "cr_out res \<noteq> [] \<Longrightarrow> \<exists>n ctx' db. prepare_steps etext db (op_steps opts) ctx (cs_tenants st) = (Inr ctx', cs_tenants st') \<and>
      created E (Some n) (au_EmailVerificationEnabled (cf_Auth cfg)) opts password ctx' (cs_engine st) (cs_engine st')"
proof -
  obtain init b where init: "initDependencies L cfg registry (cs_boot st) = (init, b)" by fastforce
  note start = initDependencies_ok [OF assms(2) init]
  have "no_connections (cs_boot st') \<and> cr_exit res \<noteq> 2 \<and> (cr_exit res = 0 \<longleftrightarrow> cr_error res = None) \<and>
    (\<exists>db p. cs_tenants st' = cs_tenants st \<or> prepare_steps etext db (op_steps opts) ctx (cs_tenants st) = (p, cs_tenants st')) \<and>
    (cr_out res \<noteq> [] \<longrightarrow> (\<exists>n ctx' db. prepare_steps etext db (op_steps opts) ctx (cs_tenants st) = (Inr ctx', cs_tenants st') \<and>
      created E (Some n) (au_EmailVerificationEnabled (cf_Auth cfg)) opts password ctx' (cs_engine st) (cs_engine st')))"
  proof (cases init)
    case (Inl e)
    with assms(1) init start show ?thesis by (auto simp: run_with_def)
  next
    case (Inr deps)
    then obtain n where n: "dn_AuthEngine deps = Some n" using engine_built init assms(3) by blast
    have closed: "no_connections (Dependencies_Close (Some deps) b)" using start Inr Close_connections by simp
    obtain p tenants where p: "prepare_steps etext (dn_DB deps) (op_steps opts) ctx (cs_tenants st) = (p, tenants)" by fastforce
    show ?thesis
    proof (cases p)
      case (Inl e)
      with assms(1) init Inr p closed show ?thesis by (auto simp: run_with_def Let_def)
    next
      case (Inr ctx')
      obtain c eng where c: "create_account E (Some n) (au_EmailVerificationEnabled (cf_Auth cfg)) opts password ctx' (cs_engine st) = (c, eng)" by fastforce
      show ?thesis
        using assms(1) init \<open>init = Inr deps\<close> n p Inr c closed create_account_Inr
        by (cases c) (fastforce simp: run_with_def Let_def created_lines_def)+
    qed
  qed
  then show "no_connections (cs_boot st')" and "cr_exit res \<noteq> 2" and "cr_exit res = 0 \<longleftrightarrow> cr_error res = None"
    and "\<exists>db p. cs_tenants st' = cs_tenants st \<or> prepare_steps etext db (op_steps opts) ctx (cs_tenants st) = (p, cs_tenants st')"
    and "cr_out res \<noteq> [] \<Longrightarrow> \<exists>n ctx' db. prepare_steps etext db (op_steps opts) ctx (cs_tenants st) = (Inr ctx', cs_tenants st') \<and>
      created E (Some n) (au_EmailVerificationEnabled (cf_Auth cfg)) opts password ctx' (cs_engine st) (cs_engine st')" by blast+
qed

lemma steps_effect:
  assumes "op_steps opts = (if tenancy then [s] else [])" and "validate_steps F env cfg (op_steps opts) = Inr steps"
    and "prepare_steps etext db steps ctx tenants = (p, tenants')"
  shows "tenants' = tenants \<or> (\<exists>t. ValidTenantID t \<and> tenants' = tenants\<lparr>td_rows := td_rows tenants @ [new_tenant t]\<rparr>)"
    and "p = Inr ctx' \<Longrightarrow> if tenancy \<and> tc_Enabled (tenancy_LoadConfig F env)
      then \<exists>t. ValidTenantID t \<and> ctx' = WithRequestTenant ctx t \<and> (tc_Validate (tenancy_LoadConfig F env) \<longrightarrow>
        (\<exists>rec. repository_Get etext t tenants' = DirFound rec \<and> tenant_Active rec \<and> tr_ID rec = t))
      else ctx' = ctx"
proof -
  have "(tenants' = tenants \<or> (\<exists>t. ValidTenantID t \<and> tenants' = tenants\<lparr>td_rows := td_rows tenants @ [new_tenant t]\<rparr>)) \<and>
    (p = Inr ctx' \<longrightarrow> (if tenancy \<and> tc_Enabled (tenancy_LoadConfig F env)
      then \<exists>t. ValidTenantID t \<and> ctx' = WithRequestTenant ctx t \<and> (tc_Validate (tenancy_LoadConfig F env) \<longrightarrow>
        (\<exists>rec. repository_Get etext t tenants' = DirFound rec \<and> tenant_Active rec \<and> tr_ID rec = t))
      else ctx' = ctx))"
  proof (cases tenancy)
    case False
    with assms show ?thesis by auto
  next
    case True
    with assms obtain s' where s': "step_Validate F env cfg s = Inr s'" and steps: "steps = [s']" by (auto split: sum.splits)
    note valid = step_Validate_Inr [OF s']
    from assms(3) steps have prep: "step_Prepare etext s' db ctx tenants = (p, tenants')" by (auto split: prod.splits sum.splits)
    note effect = step_Prepare_effect [OF prep]
    have cfg: "us_cfg s' = tenancy_LoadConfig F env" using valid(1) by simp
    show ?thesis
    proof (cases "us_tenantID s' = []")
      case True
      with effect(1,2) valid(2) show ?thesis by auto
    next
      case False
      with valid(3) have t: "ValidTenantID (us_tenantID s')" "trim_space (us_tenantID s') = us_tenantID s'" using ValidTenantID_trim(1) by blast+
      have "tenants' = tenants \<or> (\<exists>t. ValidTenantID t \<and> tenants' = tenants\<lparr>td_rows := td_rows tenants @ [new_tenant t]\<rparr>)"
        using effect(1) t(1) by blast
      moreover have "p = Inr ctx' \<Longrightarrow> ctx' = WithRequestTenant ctx (us_tenantID s') \<and> (tc_Validate (tenancy_LoadConfig F env) \<longrightarrow>
          (\<exists>rec. repository_Get etext (us_tenantID s') tenants' = DirFound rec \<and> tenant_Active rec \<and> tr_ID rec = us_tenantID s'))"
        using effect(3) False t(2) cfg by simp
      ultimately show ?thesis using t(1) True valid(2) False by auto
    qed
  qed
  then show "tenants' = tenants \<or> (\<exists>t. ValidTenantID t \<and> tenants' = tenants\<lparr>td_rows := td_rows tenants @ [new_tenant t]\<rparr>)"
    and "p = Inr ctx' \<Longrightarrow> if tenancy \<and> tc_Enabled (tenancy_LoadConfig F env)
      then \<exists>t. ValidTenantID t \<and> ctx' = WithRequestTenant ctx t \<and> (tc_Validate (tenancy_LoadConfig F env) \<longrightarrow>
        (\<exists>rec. repository_Get etext t tenants' = DirFound rec \<and> tenant_Active rec \<and> tr_ID rec = t))
      else ctx' = ctx" by blast+
qed

text \<open>The ways of the command: it stops before it touches anything, or it goes on with accepted input.\<close>

lemma createuser_cases:
  assumes "createuser_run L F drivers etext E registry tenancy ctx args input st = (res, st')"
  obtains (stopped) "st' = st" "cr_exit res = 0 \<longleftrightarrow> cr_error res = None" "cr_out res = []"
  | (going) opts cfg steps password where "parseFlags tenancy args = Inr opts" "Load F (sl_env L) = Inr cfg"
      "Lint F (sl_net L) drivers (sl_env L) cfg = None" "au_Enabled (cf_Auth cfg)" "validate_steps F (sl_env L) cfg (op_steps opts) = Inr steps"
      "readPassword (op_passwordStdin opts) input = Inr password" "run_with L etext E registry ctx cfg (opts\<lparr>op_steps := steps\<rparr>) password st = (res, st')"
  using assms by (auto simp: createuser_run_def split: sum.splits option.splits if_splits)


text \<open>A deployment with tenancy, where the command makes an account in a new tenant.\<close>

definition tenant_env :: environ where
  "tenant_env = [''AUTH_ENABLED'' \<mapsto> ''true'', ''REDIS_ENABLED'' \<mapsto> ''true'', ''POSTGRES_ENABLED'' \<mapsto> ''true'',
     ''POSTGRES_URL'' \<mapsto> ''postgres://db'', ''TENANCY_ENABLED'' \<mapsto> ''true'']"

definition tenant_config :: Config where
  "tenant_config = (let c = config_of Map.empty in
     c\<lparr>cf_Auth := (cf_Auth c)\<lparr>au_Enabled := True\<rparr>, cf_Redis := (cf_Redis c)\<lparr>rd_Enabled := True\<rparr>,
       cf_Postgres := (cf_Postgres c)\<lparr>pg_Enabled := True, pg_URL := ''postgres://db''\<rparr>\<rparr>)"

lemma tenant_raw: "raw_value tenant_env None k = os_Getenv tenant_env k"
  by (simp add: raw_value_def profileDefaultValue_def Let_def)

lemma tenant_get: "os_Getenv tenant_env k =
   (if k \<in> {''AUTH_ENABLED'', ''REDIS_ENABLED'', ''POSTGRES_ENABLED'', ''TENANCY_ENABLED''} then ''true'' else if k = ''POSTGRES_URL'' then ''postgres://db'' else [])"
  by (simp add: os_Getenv_def tenant_env_def)
lemma true_text: "parse_bool ''true'' = Some True" by code_simp
lemma tenant_csv: "k \<notin> {''AUTH_ENABLED'', ''REDIS_ENABLED'', ''POSTGRES_ENABLED'', ''TENANCY_ENABLED'', ''POSTGRES_URL''} \<Longrightarrow> getCSV tenant_env None k fb = fb"
  by (simp add: getCSV_def tenant_get profileDefaultValue_def Let_def)

lemma tenant_config_loaded: "Load no_floats tenant_env = Inr tenant_config"
  by (simp add: Load_def tenant_get activateProfile_def resolveProfileDefaults_def build_config_def readers_of_def getenv_def getInt_def getInt32_def getInt64_def getBool_def getDuration_def getFloat64_def
     tenant_raw tenant_csv true_text parsed_def load_http_def load_cors_def load_access_log_def load_auth_def load_redis_def load_postgres_def load_tracing_def
     loadSMTP_def tenant_config_def config_of_def Let_def)

lemma tenant_config_accepted: "Lint no_floats no_netlib builtin_drivers tenant_env tenant_config = None"
proof -
  have "lint_profile tenant_env = None" by (simp add: lint_profile_def tenant_get)
  moreover have "first_error (lint_auth no_netlib builtin_drivers tenant_env tenant_config) = None"
    by (simp add: tenant_config_def lint_auth_def default_defs load_auth_def load_redis_def load_postgres_def tenant_get
      lintAuthFeatures_def lintWebAuthn_def lintNotifyDriver_def lintSMTP_def lintNotifyDelivery_def notifyDeliveryFlags_def notifyDriverKnown_def builtin_drivers_def)
  moreover have "first_error (lint_limits tenant_config) = None"
    by (simp add: tenant_config_def lint_limits_def default_defs load_http_def load_access_log_def)
  moreover have "first_error (lint_postgres (cf_Postgres tenant_config)) = None" "first_error (lint_redis (cf_Redis tenant_config)) = None"
    by (simp_all add: tenant_config_def lint_postgres_def lint_redis_def default_defs load_postgres_def load_redis_def)
  moreover have "lint_http no_netlib tenant_config = lint_http no_netlib (config_of Map.empty)"
      "lint_observability tenant_config = lint_observability (config_of Map.empty)" "cf_Log tenant_config = cf_Log (config_of Map.empty)"
    by (simp_all add: tenant_config_def lint_http_def lint_observability_def Let_def)
  moreover have "first_error (lint_env_http no_floats tenant_env) = None" "first_error (lint_env_stores no_floats tenant_env) = None"
    by (simp_all add: lint_env_defs first_error_None lint_parse_def tenant_env_def true_text)
  ultimately show ?thesis using default_groups by (simp add: Lint_def first_error_None)
qed

definition tenant_startlib :: "(unit tenant_svc, unit) startlib" where
  "tenant_startlib = sample_startlib\<lparr>sl_env := tenant_env\<rparr>"

definition sample_accounts :: "(string \<times> string) list account_engine" where
  "sample_accounts = \<lparr>ae_CreateAccount = \<lambda>h email password role ctx e. (Inr (''u1'', role), (email, password) # e), ae_EnableAccount = \<lambda>h uid ctx e. (None, e)\<rparr>"

definition sample_input :: stdin where
  "sample_input = \<lparr>in_bytes = ''s3cret'' @ [CHR 0x0D, CHR 0x0A], in_error = None, in_terminal = False, in_first = Inl [], in_second = Inl []\<rparr>"

definition sample_args :: "string list" where
  "sample_args = [''-email'', ''Ann@X.io'', ''--password-stdin'', ''--tenant=acme'', ''-create-tenant'']"
definition tenancy_registry :: "(unit tenant_svc, unit) Feature option list" where
  "tenancy_registry = [Some (tenancy_Feature (\<lambda>e. []) no_floats tenant_env \<lparr>dir_Get = \<lambda>i s. DirNotFound, dir_GetBySlug = \<lambda>i s. DirNotFound\<rparr>)]"

definition sample_options :: create_options where
  "sample_options = \<lparr>op_email = ''ann@x.io'', op_role = ''user'', op_passwordStdin = True, op_requireVerification = False,
     op_steps = [\<lparr>us_tenantID = ''acme'', us_createTenant = True, us_cfg = tenancy_LoadConfig no_floats tenant_env\<rparr>]\<rparr>"
definition sample_state :: "(unit tenant_svc, (string \<times> string) list) command_state" where
  "sample_state = \<lparr>cs_boot = fresh_boot, cs_tenants = \<lparr>td_rows = [], td_fault = None\<rparr>, cs_engine = []\<rparr>"

lemma sample_parsed:
  "parseFlags True sample_args = Inr (sample_options\<lparr>op_steps := [\<lparr>us_tenantID = ''acme'', us_createTenant = True, us_cfg = no_tenancy\<rparr>]\<rparr>)"
  "readPassword True sample_input = Inr ''s3cret''" "tc_Enabled (tenancy_LoadConfig no_floats tenant_env)"
  "tc_Validate (tenancy_LoadConfig no_floats tenant_env)" "tenancy_Lint True (tenancy_LoadConfig no_floats tenant_env) = None"
  "ValidTenantID ''acme''" "trim_space ''acme'' = ''acme''"
  by code_simp+

definition sample_created :: "command_result \<times> (unit tenant_svc, (string \<times> string) list) command_state" where
  "sample_created = createuser_run tenant_startlib no_floats builtin_drivers (\<lambda>e. []) sample_accounts tenancy_registry True blank_request
     sample_args sample_input sample_state"

lemma sample_created_eq: "sample_created =
    run_with tenant_startlib (\<lambda>e. []) sample_accounts tenancy_registry blank_request tenant_config sample_options ''s3cret'' sample_state"
proof -
  have lib: "sl_env tenant_startlib = tenant_env" "sl_net tenant_startlib = no_netlib" by (simp_all add: tenant_startlib_def sample_startlib_def)
  have on: "au_Enabled (cf_Auth tenant_config)" "pg_Enabled (cf_Postgres tenant_config)" by (simp_all add: tenant_config_def Let_def)
  show ?thesis
    by (simp add: sample_created_def createuser_run_def lib sample_parsed tenant_config_loaded tenant_config_accepted on step_Validate_def
        sample_options_def Let_def)
qed

lemma sample_created_result: "cr_out (fst sample_created) \<noteq> []" "cs_engine (snd sample_created) = [(''ann@x.io'', ''s3cret'')]"
  unfolding sample_created_eq by code_simp+


end
