(* ===== verification/Module_Render.thy ===== *)
theory Module_Render
  imports Prelude "HOL-Library.List_Lexorder" "HOL-Library.Char_ord"
begin

text \<open>
  The sources that the module generator writes (\<open>internal/devx/modulegen/generator.go\<close>, \<open>extensions.go\<close>, \<open>tenancy_extension.go\<close>): the
  normalised names of a module, its options, the extensions of features, and one definition per rendered file. A text is the
  list of its lines, each ended by a newline.
\<close>

section \<open>Names, options and extensions\<close>

record ModuleSpec =
  sp_RawName :: string
  sp_Package :: string
  sp_RoutePath :: string

record TemplateOptions =
  to_UseDB :: bool
  to_UseAuth :: bool
  to_UseRateLimit :: bool
  to_UseCache :: bool
  to_CreateMigration :: bool
  to_Extra :: "string \<Rightarrow> bool"

record TemplateConfig =
  tg_Spec :: ModuleSpec
  tg_Options :: TemplateOptions

record Extension =
  ex_Flag :: string
  ex_Help :: string
  ex_Prompt :: string
  ex_RequiresAuth :: bool
  ex_Imports :: "string list"
  ex_Notes :: "string list"
  ex_Policies :: "string list"
  ex_CachePart :: string

definition RegisterExtension :: "Extension \<Rightarrow> Extension list \<Rightarrow> Extension list" where
  "RegisterExtension ext extensions = sort_key ex_Flag (extensions @ [ext])"

definition enabled_extensions :: "Extension list \<Rightarrow> TemplateOptions \<Rightarrow> Extension list" where
  "enabled_extensions extensions opt = filter (\<lambda>ext. to_Extra opt (ex_Flag ext)) extensions"

section \<open>Text\<close>

abbreviation in_quotes :: "string \<Rightarrow> string" where
  "in_quotes s \<equiv> CHR 0x22 # s @ [CHR 0x22]"

abbreviation in1 :: "string \<Rightarrow> string" where "in1 s \<equiv> CHR 0x09 # s"
abbreviation in2 :: "string \<Rightarrow> string" where "in2 s \<equiv> CHR 0x09 # CHR 0x09 # s"

definition text_of :: "string list \<Rightarrow> string" where
  "text_of ls = concat (map (\<lambda>l. l @ [CHR 0x0A]) ls)"

definition core_import :: "string \<Rightarrow> string" where
  "core_import name = in_quotes (''github.com/MrEthical07/superapi/internal/core/'' @ name)"

definition tenant_policy :: string where
  "tenant_policy = in2 ''tenancy.TenantRequired(),''"

definition tenant_extension :: Extension where
  "tenant_extension = \<lparr>ex_Flag = ''tenant'', ex_Help = ''attach tenant policy to generated route'',
     ex_Prompt = ''Require tenant scope on the generated route?'', ex_RequiresAuth = True,
     ex_Imports = [in_quotes ''github.com/MrEthical07/superapi/internal/tenancy''],
     ex_Notes = [''NOTE: TenantRequired() below needs TENANCY_ENABLED=true at runtime to be'',
       ''meaningful: with tenancy off every principal carries goAuth'' @ [CHR 0x27] @ ''s default tenant.'',
       ''Remove the tenant policy (and --tenant) if this module is not tenant-scoped.''],
     ex_Policies = [tenant_policy], ex_CachePart = ''tenancy.CacheVary()''\<rparr>"

definition registered_extensions :: "Extension list" where
  "registered_extensions = RegisterExtension tenant_extension []"

section \<open>The files\<close>

definition newRepoCall :: "TemplateConfig \<Rightarrow> string" where
  "newRepoCall cfg = (if to_UseDB (tg_Options cfg) then ''NewRepo(nil)'' else ''NewRepo()'')"

definition renderModuleFile :: "TemplateConfig \<Rightarrow> string" where
  "renderModuleFile cfg =
     (let pkg = sp_Package (tg_Spec cfg); db = to_UseDB (tg_Options cfg) in
      text_of ([''package '' @ pkg, [],
        ''import ('', in1 (core_import ''app''), in1 (core_import ''modulekit''), '')'', [],
        ''type Module struct {'', in1 ''handler *Handler'', in1 ''runtime modulekit.Runtime'', ''}'', [],
        ''func New() *Module {'',
        in1 (if db then ''return &Module{handler: NewHandler(NewService(NewRepo(nil)))}'' else ''return &Module{handler: NewHandler(NewService(NewRepo()))}''),
        ''}'', [],
        ''var _ app.Module = ('' @ ''*Module)(nil)'', ''var _ app.DependencyBinder = ('' @ ''*Module)(nil)'', [],
        ''func (m *Module) Name() string { return '' @ in_quotes pkg @ '' }'', [],
        ''func (m *Module) BindDependencies(deps *app.Dependencies) {'',
        in1 ''m.runtime = modulekit.New(deps)''] @
        (if db then [in1 ''m.handler = NewHandler(NewService(NewRepo(m.runtime.DB())))'']
         else [in1 ''if m.handler == nil {'', in2 ''m.handler = NewHandler(NewService(NewRepo()))'', in1 ''}'']) @
        [''}'']))"

definition cachePartExpr :: "Extension list \<Rightarrow> string" where
  "cachePartExpr exts = join '', '' (filter (\<lambda>p. p \<noteq> []) (map ex_CachePart exts))"

definition auth_policy :: string where
  "auth_policy = in2 ''policy.AuthRequired(m.runtime.AuthEngine(), m.runtime.AuthMode()),''"

definition limit_policy :: string where
  "limit_policy = in2 ''policy.RateLimit(m.runtime.Limiter(), ratelimit.Rule{Limit: 30, Window: time.Minute, Scope: ratelimit.ScopeAuto}),''"

definition cache_policy :: "Extension list \<Rightarrow> TemplateConfig \<Rightarrow> string" where
  "cache_policy exts cfg =
     (let pkg = sp_Package (tg_Spec cfg); auth = to_UseAuth (tg_Options cfg); parts = cachePartExpr exts;
          key = in_quotes (pkg @ ''.ping'') in
      in2 (''policy.CacheRead(m.runtime.CacheManager(), cache.CacheReadConfig{Key: '' @ key @
      '', TTL: 30 * time.Second, TagSpecs: []cache.CacheTagSpec{{Name: '' @ key @
      (if parts \<noteq> [] then '', Parts: []cache.KeyPart{'' @ parts @ ''}'' else if auth then '', UserID: true'' else []) @ ''}}'' @
      (if auth \<or> exts \<noteq> [] then '', AllowAuthenticated: true, VaryBy: cache.CacheVaryBy{'' @
         (if parts \<noteq> [] then ''Parts: []cache.KeyPart{'' @ parts @ ''}'' else ''UserID: true'') @ ''}'' else []) @ ''}),''))"

definition routePolicies :: "Extension list \<Rightarrow> TemplateConfig \<Rightarrow> string list" where
  "routePolicies extensions cfg =
     (let opt = tg_Options cfg; exts = enabled_extensions extensions opt in
      (if to_UseAuth opt then [auth_policy] else []) @ concat (map ex_Policies exts) @
      (if to_UseRateLimit opt then [limit_policy] else []) @ (if to_UseCache opt then [cache_policy exts cfg] else []))"

definition route_imports :: "Extension list \<Rightarrow> TemplateOptions \<Rightarrow> string list" where
  "route_imports exts opt =
     [in_quotes ''net/http'', core_import ''httpx''] @
     (if to_UseAuth opt \<or> exts \<noteq> [] \<or> to_UseRateLimit opt \<or> to_UseCache opt then [core_import ''policy''] else []) @
     concat (map ex_Imports exts) @
     (if to_UseCache opt \<or> to_UseRateLimit opt then [in_quotes ''time''] else []) @
     (if to_UseCache opt then [core_import ''cache''] else []) @
     (if to_UseRateLimit opt then [core_import ''ratelimit''] else [])"

definition renderRoutesFile :: "Extension list \<Rightarrow> TemplateConfig \<Rightarrow> string" where
  "renderRoutesFile extensions cfg =
     (let spec = tg_Spec cfg; exts = enabled_extensions extensions (tg_Options cfg); policies = routePolicies extensions cfg;
          path = in_quotes (''/api/v1/'' @ sp_RoutePath spec @ ''/ping'') in
      text_of ([''package '' @ sp_Package spec, [], ''import (''] @ map in1 (route_imports exts (tg_Options cfg)) @ ['')'', [],
        ''func (m *Module) Register(r httpx.Router) error {'', in1 ''if m.handler == nil {'',
        in2 (''m.handler = NewHandler(NewService('' @ newRepoCall cfg @ ''))''), in1 ''}'', []] @
        map (\<lambda>note. in1 (''// '' @ note)) (concat (map ex_Notes exts)) @
        (if policies = [] then [in1 (''r.Handle(http.MethodGet, '' @ path @ '', httpx.Adapter(m.handler.Ping))'')]
         else [in1 ''r.Handle('', in2 ''http.MethodGet,'', in2 (path @ '',''), in2 ''httpx.Adapter(m.handler.Ping),''] @ policies @ [in1 '')'']) @
        [[], in1 ''return nil'', ''}'']))"

definition renderDTOFile :: "ModuleSpec \<Rightarrow> string" where
  "renderDTOFile spec = text_of [''package '' @ sp_Package spec, [], ''type pingResponse struct {'',
     in1 (''Status string `json:'' @ in_quotes ''status'' @ ''`''), in1 (''Module string `json:'' @ in_quotes ''module'' @ ''`''), ''}'']"

definition renderHandlerFile :: "ModuleSpec \<Rightarrow> string" where
  "renderHandlerFile spec = text_of [''package '' @ sp_Package spec, [], ''import ('', in1 (core_import ''httpx''), '')'', [],
     ''type Handler struct {'', in1 ''svc Service'', ''}'', [],
     ''func NewHandler(svc Service) *Handler {'', in1 ''return &Handler{svc: svc}'', ''}'', [],
     ''func (h *Handler) Ping(ctx *httpx.Context, req httpx.NoBody) (pingResponse, error) {'', in1 ''return h.svc.Ping(), nil'', ''}'']"

definition renderServiceFile :: "TemplateConfig \<Rightarrow> string" where
  "renderServiceFile cfg =
     (let pkg = sp_Package (tg_Spec cfg) in
      text_of ([''package '' @ pkg, [], ''type Service interface {'', in1 ''Ping() pingResponse'', ''}'', [],
        ''type service struct {'', in1 ''repo *Repo'', ''}'', [],
        ''func NewService(repo *Repo) Service {'', in1 ''return &service{repo: repo}'', ''}'', [],
        ''func (s *service) Ping() pingResponse {'', in1 (''return pingResponse{Status: '' @ in_quotes ''ok'' @ '', Module: '' @ in_quotes pkg @ ''}''), ''}''] @
        (if \<not> to_UseDB (tg_Options cfg) then []
         else [[], ''// Example write path (uncomment and adapt once you add queries):'', ''//'',
           ''// func (s *service) Create(ctx context.Context, in CreateInput) error {'',
           ''// '' @ in1 ''return s.repo.pg.WithTx(ctx, func(txCtx context.Context) error {'',
           ''// '' @ in2 ''return s.repo.Insert(txCtx, in)'', ''// '' @ in1 ''})'', ''// }''])))"

definition renderHandlerTestFile :: "TemplateConfig \<Rightarrow> string" where
  "renderHandlerTestFile cfg =
     (let spec = tg_Spec cfg in
      text_of [''package '' @ sp_Package spec, [],
        ''import ('', in1 (in_quotes ''encoding/json''), in1 (in_quotes ''net/http''), in1 (in_quotes ''net/http/httptest''), in1 (in_quotes ''testing''), [],
        in1 (core_import ''httpx''), '')'', [],
        ''func TestPingHandler(t *testing.T) {'', in1 (''h := NewHandler(NewService('' @ newRepoCall cfg @ ''))''),
        in1 ''rr := httptest.NewRecorder()'',
        in1 (''req := httptest.NewRequest(http.MethodGet, '' @ in_quotes (''/api/v1/'' @ sp_RoutePath spec @ ''/ping'') @ '', nil)''), [],
        in1 ''handler := httpx.Adapter(h.Ping)'', in1 ''handler.ServeHTTP(rr, req)'', [],
        in1 ''if rr.Code != http.StatusOK {'', in2 (''t.Fatalf('' @ in_quotes ''status=%d want=%d'' @ '', rr.Code, http.StatusOK)''), in1 ''}'', [],
        in1 ''var body struct {'', in2 (''OK   bool `json:'' @ in_quotes ''ok'' @ ''`''), in2 (''Data pingResponse `json:'' @ in_quotes ''data'' @ ''`''), in1 ''}'',
        in1 ''if err := json.Unmarshal(rr.Body.Bytes(), &body); err != nil {'', in2 (''t.Fatalf('' @ in_quotes ''unmarshal response: %v'' @ '', err)''), in1 ''}'',
        in1 (''if !body.OK || body.Data.Module != '' @ in_quotes (sp_Package spec) @ '' || body.Data.Status != '' @ in_quotes ''ok'' @ '' {''),
        in2 (''t.Fatalf('' @ in_quotes ''unexpected response: %+v'' @ '', body)''), in1 ''}'', ''}''])"

definition renderServiceTestFile :: "TemplateConfig \<Rightarrow> string" where
  "renderServiceTestFile cfg =
     (let pkg = sp_Package (tg_Spec cfg) in
      text_of [''package '' @ pkg, [], ''import '' @ in_quotes ''testing'', [],
        ''func TestServicePing(t *testing.T) {'', in1 (''s := NewService('' @ newRepoCall cfg @ '')''), in1 ''res := s.Ping()'',
        in1 (''if res.Status != '' @ in_quotes ''ok'' @ '' {''), in2 (''t.Fatalf('' @ in_quotes ''status=%q want=%q'' @ '', res.Status, '' @ in_quotes ''ok'' @ '')''), in1 ''}'', [],
        in1 (''if res.Module != '' @ in_quotes pkg @ '' {''), in2 (''t.Fatalf('' @ in_quotes ''module=%q want=%q'' @ '', res.Module, '' @ in_quotes pkg @ '')''), in1 ''}'', ''}''])"

definition toPascalCase :: "string \<Rightarrow> string" where
  "toPascalCase pkg =
     (let out = map (\<lambda>part. to_upper (take 1 part) @ drop 1 part) (filter (\<lambda>part. part \<noteq> []) (split_on (CHR ''_'') pkg)) in
      if out = [] then ''Module'' else concat out)"

definition renderModuleSchema :: "ModuleSpec \<Rightarrow> string" where
  "renderModuleSchema spec = text_of [''-- Module-local sqlc schema source for '' @ sp_Package spec @ ''.'',
     ''-- Keep module SQL here. `make sqlc-generate` syncs this file into db/schema/'' @ sp_Package spec @ ''.sql.'',
     ''-- Example:'', ''-- CREATE TABLE IF NOT EXISTS '' @ sp_RoutePath spec @ '' ('', ''--     id TEXT PRIMARY KEY,'',
     ''--     created_at TIMESTAMPTZ NOT NULL DEFAULT NOW()'', ''-- );'']"

definition renderModuleQueries :: "ModuleSpec \<Rightarrow> string" where
  "renderModuleQueries spec = text_of [''-- Module-local sqlc queries for '' @ sp_Package spec @ ''.'',
     ''-- Keep module queries here. `make sqlc-generate` syncs this file into db/queries/'' @ sp_Package spec @ ''.sql.'',
     ''-- Example:'', ''-- name: List'' @ toPascalCase (sp_Package spec) @ '' :many'', ''-- SELECT id, created_at'',
     ''-- FROM '' @ sp_RoutePath spec @ '';'']"

definition renderRepoFile :: "TemplateConfig \<Rightarrow> string" where
  "renderRepoFile cfg =
     (let pkg = sp_Package (tg_Spec cfg) in
      if \<not> to_UseDB (tg_Options cfg)
      then text_of [''package '' @ pkg, [], ''type Repo struct{}'', [], ''func NewRepo() *Repo {'', in1 ''return &Repo{}'', ''}'']
      else text_of [''package '' @ pkg, [], ''import ('', in1 (core_import ''storage''), '')'', [],
        ''type Repo struct {'', in1 ''pg *storage.Postgres'', ''}'', [],
        ''func NewRepo(pg *storage.Postgres) *Repo {'', in1 ''return &Repo{pg: pg}'', ''}'', [],
        ''// Example read (uncomment once you add queries and run make sqlc-generate):'', ''//'',
        ''// func (r *Repo) List(ctx context.Context) ([]Item, error) {'',
        ''// '' @ in1 (''rows, err := r.pg.Queries(ctx).List'' @ toPascalCase pkg @ ''(ctx)''),
        ''// '' @ in1 ''if err != nil {'', ''// '' @ in2 ''return nil, err'', ''// '' @ in1 ''}'',
        ''// '' @ in1 ''// map rows -> domain'', ''// '' @ in1 ''return nil, nil'', ''// }''])"

definition RenderFiles :: "Extension list \<Rightarrow> TemplateConfig \<Rightarrow> (string \<times> string) list" where
  "RenderFiles extensions cfg =
     [(''module.go'', renderModuleFile cfg), (''routes.go'', renderRoutesFile extensions cfg), (''dto.go'', renderDTOFile (tg_Spec cfg)),
      (''handler.go'', renderHandlerFile (tg_Spec cfg)), (''service.go'', renderServiceFile cfg), (''repo.go'', renderRepoFile cfg),
      (''handler_test.go'', renderHandlerTestFile cfg), (''service_test.go'', renderServiceTestFile cfg)] @
     (if to_UseDB (tg_Options cfg)
      then [(''db/schema.sql'', renderModuleSchema (tg_Spec cfg)), (''db/queries.sql'', renderModuleQueries (tg_Spec cfg))] else [])"

end
