(* ===== verification/Template_Init.thy ===== *)
theory Template_Init
  imports Flags "HOL-Library.List_Lexorder" "HOL-Library.Char_ord" "HOL-Library.Sublist"
begin

text \<open>
  The command that turns the template into a project (\<open>cmd/templateinit\<close>): it deletes the features that are not wanted, strips their marked
  blocks from every text file, renames the Go module and rewrites a few documents, or, in a dry run, says what it would do.

  A repository is the list of its regular files by slash-separated path. That reads and writes succeed, \<open>gofmt\<close>, the replacement of the
  licence holder by a regular expression, the clock and the commands run at the end are the record \<open>initlib\<close>. The loop that renames
  the module advances by the length of the old path, so it is a \<open>partial_function (option)\<close>: \<open>None\<close> is a loop that never ends.
\<close>

section \<open>Features\<close>

record template_feature =
  tf_Flag :: string
  tf_Marker :: string
  tf_Paths :: "string list"
  tf_NameContains :: string
  tf_TouchesSQL :: bool
  tf_SQLRegenRequired :: bool

definition template_features :: "template_feature list" where
  "template_features =
    [\<lparr>tf_Flag = ''no-tenancy'', tf_Marker = ''tenancy'', tf_Paths = [''internal/tenancy''], tf_NameContains = ''tenancy'',
      tf_TouchesSQL = True, tf_SQLRegenRequired = True\<rparr>,
     \<lparr>tf_Flag = ''no-webauthn'', tf_Marker = ''webauthn'', tf_Paths =
        [''db/schema/webauthn_credentials.sql'', ''db/queries/webauthn_credentials.sql'', ''internal/core/db/sqlcgen/webauthn_credentials.sql.go'',
         ''internal/core/auth/webauthn_repository.go'', ''internal/core/auth/provider_webauthn.go'', ''internal/core/auth/config_webauthn.go'',
         ''internal/core/auth/config_webauthn_test.go'', ''internal/core/config/webauthn.go'', ''internal/core/config/webauthn_test.go'',
         ''internal/tenancy/provider_webauthn.go'', ''internal/tenancy/provider_webauthn_test.go'', ''internal/modules/auth/webauthn.go'',
         ''internal/modules/auth/webauthn_test.go'', ''internal/modules/auth/stepup_webauthn_test.go'', ''docs/enabling-webauthn.md''],
      tf_NameContains = [], tf_TouchesSQL = True, tf_SQLRegenRequired = False\<rparr>,
     \<lparr>tf_Flag = ''no-smtp'', tf_Marker = ''smtp'', tf_Paths =
        [''internal/core/notify/smtp.go'', ''internal/core/notify/smtp_test.go'', ''internal/core/notify/fakesmtp_test.go'',
         ''internal/core/config/notify_smtp.go'', ''internal/core/config/notify_smtp_test.go''],
      tf_NameContains = [], tf_TouchesSQL = False, tf_SQLRegenRequired = False\<rparr>,
     \<lparr>tf_Flag = ''no-document-store'', tf_Marker = ''document-store'', tf_Paths = [''internal/storage/document'', ''docs/document-store.md''],
      tf_NameContains = [], tf_TouchesSQL = False, tf_SQLRegenRequired = False\<rparr>,
     \<lparr>tf_Flag = ''no-devx'', tf_Marker = ''devx'', tf_Paths = [''cmd/modulegen'', ''cmd/modulesync'', ''internal/devx''],
      tf_NameContains = [], tf_TouchesSQL = False, tf_SQLRegenRequired = False\<rparr>,
     \<lparr>tf_Flag = ''no-rotate-tool'', tf_Marker = ''rotate-tool'', tf_Paths = [''cmd/rotatetotpkey''],
      tf_NameContains = [], tf_TouchesSQL = False, tf_SQLRegenRequired = False\<rparr>,
     \<lparr>tf_Flag = ''no-perf'', tf_Marker = ''perf'', tf_Paths = [''performance'', ''cmd/perftoken'', ''docs/performance-testing.md''],
      tf_NameContains = [], tf_TouchesSQL = False, tf_SQLRegenRequired = False\<rparr>,
     \<lparr>tf_Flag = ''no-demo'', tf_Marker = ''demo'', tf_Paths = [''internal/storage/document/example''],
      tf_NameContains = [], tf_TouchesSQL = False, tf_SQLRegenRequired = False\<rparr>]"

definition initPaths :: "string list" where
  "initPaths = [''cmd/templateinit'']"

text \<open>Each pattern is a directory and the prefix of a name, followed by a star.\<close>

definition initGlobs :: "(string \<times> string) list" where
  "initGlobs = [(''.github/workflows/'', ''template-''), (''.github/'', ''template-'')]"

section \<open>Marked blocks\<close>

datatype init_error =
    NoGoMod | NoModuleDirective | InvalidModule string | UnbalancedEnd nat string | UnterminatedBegin string | GofmtFailed string | ReadFailed
  | InFile string init_error | SQLCRequired

text \<open>The pattern \<open>template:(begin|end)\s+([a-z][a-z0-9-]*)\<close> at the start of a text: the kind (\<open>True\<close>: begin) and the name.\<close>

definition pattern_space :: "char \<Rightarrow> bool" where
  "pattern_space c \<longleftrightarrow> byte c \<in> {9, 10, 12, 13, 32}"

definition name_char :: "char \<Rightarrow> bool" where
  "name_char c \<longleftrightarrow> 97 \<le> byte c \<and> byte c \<le> 122 \<or> 48 \<le> byte c \<and> byte c \<le> 57 \<or> c = CHR ''-''"

definition marker_name :: "string \<Rightarrow> string option" where
  "marker_name s =
     (let t = dropWhile pattern_space s in
      if s = [] \<or> \<not> pattern_space (hd s) \<or> t = [] \<or> byte (hd t) < 97 \<or> byte (hd t) > 122 then None else Some (takeWhile name_char t))"

definition marker_here :: "string \<Rightarrow> (bool \<times> string) option" where
  "marker_here s =
     (if has_prefix ''template:begin'' s then map_option (Pair True) (marker_name (drop 14 s))
      else if has_prefix ''template:end'' s then map_option (Pair False) (marker_name (drop 12 s))
      else None)"

fun markerPattern :: "string \<Rightarrow> (bool \<times> string) option" where
  "markerPattern [] = None"
| "markerPattern (c # s) = (case marker_here (c # s) of None \<Rightarrow> markerPattern s | Some m \<Rightarrow> Some m)"

text \<open>\<open>strings.SplitAfter\<close> at newlines.\<close>

fun split_after :: "string \<Rightarrow> string list" where
  "split_after [] = [[]]"
| "split_after (c # s) = (if c = CHR 0x0A then [c] # split_after s else (case split_after s of [] \<Rightarrow> [[c]] | l # ls \<Rightarrow> (c # l) # ls))"

text \<open>The loop: the number of the line, the open blocks, innermost first, how many of them are removed, and the lines written.\<close>

fun strip_loop :: "(string \<Rightarrow> bool) \<Rightarrow> bool \<Rightarrow> string list \<Rightarrow> nat \<Rightarrow> string list \<Rightarrow> nat \<Rightarrow> string list \<Rightarrow> init_error + string list" where
  "strip_loop remove dropMarkers [] i stack skip out =
     (case stack of [] \<Rightarrow> Inr out | name # rest \<Rightarrow> Inl (UnterminatedBegin name))"
| "strip_loop remove dropMarkers (line # lines) i stack skip out =
     (let write = (if dropMarkers then out else out @ [line]) in
      case markerPattern line of
        None \<Rightarrow> strip_loop remove dropMarkers lines (i + 1) stack skip (if skip = 0 then out @ [line] else out)
      | Some (True, name) \<Rightarrow>
          if remove name \<or> skip > 0 then strip_loop remove dropMarkers lines (i + 1) (name # stack) (skip + 1) out
          else strip_loop remove dropMarkers lines (i + 1) (name # stack) skip write
      | Some (False, name) \<Rightarrow>
          (case stack of
             [] \<Rightarrow> Inl (UnbalancedEnd (i + 1) name)
           | inner # rest \<Rightarrow>
               if inner \<noteq> name then Inl (UnbalancedEnd (i + 1) name)
               else if skip > 0 then strip_loop remove dropMarkers lines (i + 1) rest (skip - 1) out
               else strip_loop remove dropMarkers lines (i + 1) rest skip write))"

definition stripMarkers :: "(string \<Rightarrow> bool) \<Rightarrow> bool \<Rightarrow> string \<Rightarrow> init_error + string" where
  "stripMarkers remove dropMarkers content =
     (if \<not> contains_str ''template:'' content then Inr content
      else map_sum id concat (strip_loop remove dropMarkers (split_after content) 0 [] 0 []))"

section \<open>Rewriting a file\<close>

text \<open>\<open>bytes.Index\<close>.\<close>

fun bytes_Index :: "string \<Rightarrow> string \<Rightarrow> nat option" where
  "bytes_Index p [] = (if p = [] then Some 0 else None)"
| "bytes_Index p (c # s) = (if has_prefix p (c # s) then Some 0 else map_option Suc (bytes_Index p s))"

definition isPathChar :: "char \<Rightarrow> bool" where
  "isPathChar c \<longleftrightarrow> c = CHR ''-'' \<or> c = CHR ''_'' \<or> 97 \<le> byte c \<and> byte c \<le> 122 \<or> 65 \<le> byte c \<and> byte c \<le> 90 \<or> 48 \<le> byte c \<and> byte c \<le> 57"

partial_function (option) replace_loop :: "string \<Rightarrow> string \<Rightarrow> string \<Rightarrow> string \<Rightarrow> string option" where
  "replace_loop old new rest out =
     (case bytes_Index old rest of
        None \<Rightarrow> Some (out @ rest)
      | Some idx \<Rightarrow>
          (let fin = idx + length old in
           replace_loop old new (drop fin rest)
             (out @ take idx rest @ (if fin < length rest \<and> isPathChar (rest ! fin) then old else new))))"

declare replace_loop.simps [code]

definition replaceModule :: "string \<Rightarrow> string \<Rightarrow> string \<Rightarrow> string option" where
  "replaceModule old new content = (if \<not> contains_str old content then Some content else replace_loop old new content [])"

record init_options =
  io_Module :: string
  io_Name :: string
  io_Description :: string
  io_Copyright :: string
  io_Prune :: "string \<Rightarrow> bool"
  io_DryRun :: bool
  io_KeepInit :: bool
  io_SkipPostSteps :: bool

record initlib =
  il_gofmt :: "string \<Rightarrow> string + string"
  il_license :: "string \<Rightarrow> string \<Rightarrow> string"    \<comment> \<open>\<open>licenseHolder.ReplaceAll\<close>: the replacement, the text\<close>
  il_year :: string
  il_tidy :: "string option"                 \<comment> \<open>the error of \<open>go mod tidy\<close>\<close>
  il_sqlc :: "string option option"          \<comment> \<open>\<open>None\<close>: not installed; the error of \<open>sqlc generate\<close>\<close>

text \<open>The first line that begins with a sharp and a space, up to its newline, becomes the new title.\<close>

fun replace_title :: "string \<Rightarrow> string list \<Rightarrow> string list" where
  "replace_title title [] = []"
| "replace_title title (l # ls) =
     (if has_prefix ''# '' l then (''# '' @ title @ (if CHR 0x0A \<in> set l then [CHR 0x0A] else [])) # ls else l # replace_title title ls)"

lemma has_prefix_length: "has_prefix p s \<Longrightarrow> length p \<le> length s"
  unfolding has_prefix_def by (metis length_take min.cobounded1)

lemma bytes_Index_bound: "bytes_Index p s = Some i \<Longrightarrow> i + length p \<le> length s"
  by (induction p s arbitrary: i rule: bytes_Index.induct) (auto dest: has_prefix_length split: if_splits)

text \<open>\<open>bytes.ReplaceAll\<close> of a non-empty text.\<close>

function bytes_ReplaceAll :: "string \<Rightarrow> string \<Rightarrow> string \<Rightarrow> string" where
  "bytes_ReplaceAll old new s =
     (if old = [] then s
      else (case bytes_Index old s of None \<Rightarrow> s | Some idx \<Rightarrow> take idx s @ new @ bytes_ReplaceAll old new (drop (idx + length old) s)))"
  by pat_completeness auto

termination
  by (relation "measure (\<lambda>(old, new, s). length s)") (auto dest!: bytes_Index_bound simp flip: length_greater_0_conv)

declare bytes_ReplaceAll.simps [simp del]

definition rewriteReadme :: "init_options \<Rightarrow> string \<Rightarrow> string" where
  "rewriteReadme opts content =
     (let name = trim_space (io_Name opts);
          titled = (if name \<noteq> [] then concat (replace_title name (split_after content)) else content);
          desc0 = trim_space (io_Description opts);
          desc = (if desc0 = [] then (if name = [] then ''This service'' else name) @ '' is a Go API built on the SuperAPI template. TODO: describe what it does.''
                  else desc0)
      in bytes_ReplaceAll ''<!-- template:description -->'' desc titled)"

definition rewriteLicense :: "initlib \<Rightarrow> string \<Rightarrow> string \<Rightarrow> string" where
  "rewriteLicense L holder0 content =
     (let holder = (if trim_space holder0 = [] then ''TODO: copyright holder'' else trim_space holder0) in
      il_license L (''Copyright '' @ il_year L @ '' '' @ holder) content)"

definition new_changelog :: string where
  "new_changelog = (let nl = [CHR 0x0A] in ''# Changelog'' @ nl @ nl @ ''All notable changes to this project are documented in this file.'' @ nl @ nl @
     ''## Unreleased'' @ nl @ nl @ ''- Project created from the SuperAPI template.'' @ nl)"

definition rewrite_document :: "initlib \<Rightarrow> init_options \<Rightarrow> string \<Rightarrow> string \<Rightarrow> string" where
  "rewrite_document L opts rel out =
     (if rel = ''README.md'' then rewriteReadme opts out
      else if rel = ''CHANGELOG.md'' then new_changelog
      else if rel = ''LICENSE'' then rewriteLicense L (io_Copyright opts) out
      else if rel = ''SECURITY.md'' then bytes_ReplaceAll ''security@projectbook.dev'' ''TODO: add your security contact address'' out
      else out)"

text \<open>\<open>None\<close>: it never returns.\<close>

definition transform :: "initlib \<Rightarrow> init_options \<Rightarrow> string \<Rightarrow> string \<Rightarrow> (string \<Rightarrow> bool) \<Rightarrow> string \<Rightarrow> string \<Rightarrow> (init_error + string) option" where
  "transform L opts oldModule newModule remove rel content =
     (case stripMarkers remove (\<not> io_KeepInit opts) content of
        Inl e \<Rightarrow> Some (Inl e)
      | Inr stripped \<Rightarrow>
          (case (if newModule \<noteq> oldModule then replaceModule oldModule newModule stripped else Some stripped) of
             None \<Rightarrow> None
           | Some renamed \<Rightarrow>
               (let out = rewrite_document L opts rel renamed in
                Some (if has_suffix ''.go'' rel \<and> out \<noteq> content
                      then (case il_gofmt L out of Inl e \<Rightarrow> Inl (GofmtFailed e) | Inr formatted \<Rightarrow> Inr formatted)
                      else Inr out))))"

section \<open>The repository\<close>

type_synonym files = "(string \<times> string) list"

definition under :: "string \<Rightarrow> string \<Rightarrow> bool" where
  "under rel p \<longleftrightarrow> rel = p \<or> has_prefix (p @ ''/'') rel"

definition underAny :: "string \<Rightarrow> string list \<Rightarrow> bool" where
  "underAny rel ps = list_ex (under rel) ps"

text \<open>\<open>os.Lstat\<close>: a file or a directory that holds one.\<close>

definition path_exists :: "files \<Rightarrow> string \<Rightarrow> bool" where
  "path_exists fs p = list_ex (\<lambda>(rel, c). under rel p) fs"

definition RemoveAll :: "string \<Rightarrow> files \<Rightarrow> files" where
  "RemoveAll p fs = filter (\<lambda>(rel, c). \<not> under rel p) fs"

definition put_file :: "string \<Rightarrow> string \<Rightarrow> files \<Rightarrow> files" where
  "put_file rel c fs = map (\<lambda>(p, d). if p = rel then (p, c) else (p, d)) fs"

definition components :: "string \<Rightarrow> string list" where
  "components rel = split_on (CHR ''/'') rel"

text \<open>The walk does not enter these directories.\<close>

definition textFiles :: "files \<Rightarrow> string list" where
  "textFiles fs = sort (map fst (filter (\<lambda>(rel, data).
     \<not> list_ex (\<lambda>d. d \<in> set [''.git'', ''node_modules'', ''vendor'', ''bin'', ''dist'', ''build'']) (butlast (components rel)) \<and>
     \<not> has_prefix ''performance/results/'' rel \<and> rel \<noteq> ''go.sum'' \<and> int (length data) \<le> 2097152 \<and> CHR 0x00 \<notin> set data) fs))"

text \<open>Along the path of a file: the first component whose name contains the text; directories of version control and dependencies are not entered.\<close>

fun named_prefix :: "string \<Rightarrow> string list \<Rightarrow> string list \<Rightarrow> string option" where
  "named_prefix sub seen [] = None"
| "named_prefix sub seen (c # cs) =
     (if cs \<noteq> [] \<and> c \<in> set [''.git'', ''node_modules'', ''vendor''] then None
      else if contains_str sub (to_lower c) then Some (join ''/'' (seen @ [c]))
      else named_prefix sub (seen @ [c]) cs)"

definition findNamed :: "string \<Rightarrow> files \<Rightarrow> string list" where
  "findNamed sub fs = sort (remdups (List.map_filter (\<lambda>(rel, c). named_prefix (to_lower sub) [] (components rel)) fs))"

text \<open>\<open>filepath.Glob\<close> of \<open>dir/prefix*\<close>.\<close>

definition glob_matches :: "files \<Rightarrow> string \<times> string \<Rightarrow> string list" where
  "glob_matches fs g =
     (let dir = fst g in
      sort (remdups (List.map_filter (\<lambda>(rel, c).
        if has_prefix (dir @ snd g) rel then Some (dir @ hd (components (drop (length dir) rel))) else None) fs)))"

definition trim_cutset :: "string \<Rightarrow> string" where
  "trim_cutset s = rev (dropWhile (\<lambda>c. c = CHR 0x22) (rev (dropWhile (\<lambda>c. c = CHR 0x22) s)))"

fun module_directive :: "string list \<Rightarrow> init_error + string" where
  "module_directive [] = Inl NoModuleDirective"
| "module_directive (l # ls) =
     (if has_prefix ''module '' (trim_space l) then Inr (trim_cutset (trim_space (drop 7 (trim_space l)))) else module_directive ls)"

definition readModulePath :: "files \<Rightarrow> init_error + string" where
  "readModulePath fs = (case map_of fs ''go.mod'' of None \<Rightarrow> Inl NoGoMod | Some data \<Rightarrow> module_directive (split_on (CHR 0x0A) data))"

text \<open>\<open>^[A-Za-z0-9][A-Za-z0-9._~\-]*(/[A-Za-z0-9._~\-]+)*$\<close>.\<close>

definition alnum :: "char \<Rightarrow> bool" where
  "alnum c \<longleftrightarrow> 97 \<le> byte c \<and> byte c \<le> 122 \<or> 65 \<le> byte c \<and> byte c \<le> 90 \<or> 48 \<le> byte c \<and> byte c \<le> 57"

definition modulePathPattern :: "string \<Rightarrow> bool" where
  "modulePathPattern s \<longleftrightarrow> s \<noteq> [] \<and> alnum (hd s) \<and>
     list_all (\<lambda>part. part \<noteq> [] \<and> list_all (\<lambda>c. alnum c \<or> c \<in> set ''._~-'') part) (components s)"

section \<open>The run\<close>

record init_result =
  ir_Deleted :: "string list"
  ir_Modified :: "string list"
  ir_Notes :: "string list"

definition to_delete :: "init_options \<Rightarrow> files \<Rightarrow> string list" where
  "to_delete opts fs =
     concat (map (\<lambda>f. tf_Paths f @ (if tf_NameContains f \<noteq> [] then findNamed (tf_NameContains f) fs else []))
       (filter (\<lambda>f. io_Prune opts (tf_Marker f)) template_features)) @
     (if io_KeepInit opts then [] else initPaths @ concat (map (glob_matches fs) initGlobs))"

fun delete_loop :: "bool \<Rightarrow> string list \<Rightarrow> files \<Rightarrow> string list \<Rightarrow> string list \<times> files" where
  "delete_loop dry [] fs deleted = (deleted, fs)"
| "delete_loop dry (rel # rels) fs deleted =
     (if \<not> path_exists fs rel then delete_loop dry rels fs deleted
      else delete_loop dry rels (if dry then fs else RemoveAll rel fs) (deleted @ [rel]))"

definition removed_markers :: "init_options \<Rightarrow> string \<Rightarrow> bool" where
  "removed_markers opts name \<longleftrightarrow> name = ''maintainer'' \<or> io_Prune opts name \<or> \<not> io_KeepInit opts \<and> name = ''init''"

text \<open>The loop over the text files: the error it stops with, the files modified so far, the repository. \<open>change\<close> is \<open>transform\<close>.\<close>

fun rewrite_loop :: "(string \<Rightarrow> string \<Rightarrow> (init_error + string) option) \<Rightarrow> bool \<Rightarrow> string list \<Rightarrow> string list \<Rightarrow> files \<Rightarrow> string list
    \<Rightarrow> (init_error option \<times> string list \<times> files) option" where
  "rewrite_loop change dry deleted [] fs modified = Some (None, modified, fs)"
| "rewrite_loop change dry deleted (rel # rels) fs modified =
     (if underAny rel deleted then rewrite_loop change dry deleted rels fs modified
      else (case map_of fs rel of
          None \<Rightarrow> Some (Some ReadFailed, modified, fs)
        | Some original \<Rightarrow>
            (case change rel original of
               None \<Rightarrow> None
             | Some (Inl e) \<Rightarrow> Some (Some (InFile rel e), modified, fs)
             | Some (Inr updated) \<Rightarrow>
                 if original = updated then rewrite_loop change dry deleted rels fs modified
                 else rewrite_loop change dry deleted rels (if dry then fs else put_file rel updated fs) (modified @ [rel]))))"

definition plan_notes :: "init_options \<Rightarrow> string \<Rightarrow> string \<Rightarrow> string list" where
  "plan_notes opts oldModule newModule =
     (if \<not> has_prefix ''github.com/'' newModule \<and> newModule \<noteq> oldModule
      then [''module is not on github.com: review .github/ISSUE_TEMPLATE/config.yml links''] else []) @
     (if trim_space (io_Copyright opts) = [] then [''LICENSE copyright holder left as a TODO (pass --copyright)''] else []) @
     [''SECURITY.md contact left as a TODO: add your security contact'']"

text \<open>The commands at the end: their notes, and whether generated code is out of date.\<close>

definition post_steps :: "initlib \<Rightarrow> init_options \<Rightarrow> bool \<Rightarrow> bool \<Rightarrow> string list \<times> bool" where
  "post_steps L opts changed sqlTouched =
     (if io_DryRun opts \<or> io_SkipPostSteps opts then ([], False)
      else (let tidy = (if changed then (case il_tidy L of Some e \<Rightarrow> [''go mod tidy failed: '' @ e @ '' (run it manually)''] | None \<Rightarrow> []) else []) in
        if \<not> sqlTouched then (tidy, False)
        else (case il_sqlc L of
            None \<Rightarrow> (tidy @ [''sqlc not found: run `make sqlc-generate` to drop generated models for pruned tables''], True)
          | Some (Some e) \<Rightarrow> (tidy @ [''sqlc generate failed: '' @ e @ '' (run make sqlc-generate)''], True)
          | Some None \<Rightarrow> (tidy, False))))"

definition template_Run :: "initlib \<Rightarrow> init_options \<Rightarrow> files \<Rightarrow> (init_result \<times> init_error option \<times> files) option" where
  "template_Run L opts fs =
     (let nothing = \<lparr>ir_Deleted = [], ir_Modified = [], ir_Notes = []\<rparr> in
      case readModulePath fs of
        Inl e \<Rightarrow> Some (nothing, Some e, fs)
      | Inr oldModule \<Rightarrow>
          (let newModule = (if trim_space (io_Module opts) = [] then oldModule else trim_space (io_Module opts)) in
           if \<not> modulePathPattern newModule then Some (nothing, Some (InvalidModule newModule), fs)
           else (let pruned = filter (\<lambda>f. io_Prune opts (tf_Marker f)) template_features;
                     (deleted, fs1) = delete_loop (io_DryRun opts) (to_delete opts fs) fs []
             in case rewrite_loop (transform L opts oldModule newModule (removed_markers opts)) (io_DryRun opts) deleted (textFiles fs1) fs1 [] of
                  None \<Rightarrow> None
                | Some (Some e, modified, fs2) \<Rightarrow> Some (\<lparr>ir_Deleted = deleted, ir_Modified = modified, ir_Notes = []\<rparr>, Some e, fs2)
                | Some (None, modified, fs2) \<Rightarrow>
                    (let (notes, stale) = post_steps L opts (newModule \<noteq> oldModule \<or> deleted \<noteq> []) (list_ex tf_TouchesSQL pruned) in
                     Some (\<lparr>ir_Deleted = deleted, ir_Modified = sort modified, ir_Notes = plan_notes opts oldModule newModule @ notes\<rparr>,
                       if stale \<and> list_ex tf_SQLRegenRequired pruned then Some SQLCRequired else None, fs2)))))"

text \<open>The command: the exit status and the state.\<close>

definition template_flags :: "(string \<times> flag_kind) list" where
  "template_flags = map (\<lambda>n. (n, StringFlag)) [''root'', ''module'', ''name'', ''description'', ''copyright''] @
     map (\<lambda>n. (n, BoolFlag)) ([''dry-run'', ''keep-init'', ''no-all''] @ map tf_Flag template_features)"

definition template_options :: "(string \<times> string) list \<Rightarrow> init_options" where
  "template_options vals =
     \<lparr>io_Module = flag_value vals ''module'' [], io_Name = flag_value vals ''name'' [], io_Description = flag_value vals ''description'' [],
      io_Copyright = flag_value vals ''copyright'' [],
      io_Prune = (\<lambda>marker. list_ex (\<lambda>f. tf_Marker f = marker \<and> (flag_set vals (tf_Flag f) \<or> flag_set vals ''no-all'')) template_features),
      io_DryRun = flag_set vals ''dry-run'', io_KeepInit = flag_set vals ''keep-init'', io_SkipPostSteps = False\<rparr>"

definition template_run :: "initlib \<Rightarrow> string list \<Rightarrow> files \<Rightarrow> (int \<times> files) option" where
  "template_run L args fs =
     (case FlagSet_Parse template_flags args [] of
        Inl e \<Rightarrow> Some (if e = ErrHelp then 0 else 2, fs)
      | Inr (vals, rest) \<Rightarrow>
          if rest \<noteq> [] \<or> trim_space (flag_value vals ''module'' []) = [] then Some (2, fs)
          else map_option (\<lambda>(res, err, fs'). (if err = None then 0 else 1, fs')) (template_Run L (template_options vals) fs))"

section \<open>What stripping means\<close>

text \<open>The structure behind the lines: plain lines, and blocks with their name, their two marker lines and what is inside.\<close>

datatype block = Line string | Block string string string "block list"

fun flat :: "block list \<Rightarrow> string list" where
  "flat [] = []"
| "flat (Line l # bs) = l # flat bs"
| "flat (Block name b e body # bs) = b # flat body @ e # flat bs"

fun kept :: "(string \<Rightarrow> bool) \<Rightarrow> bool \<Rightarrow> block list \<Rightarrow> string list" where
  "kept remove dropMarkers [] = []"
| "kept remove dropMarkers (Line l # bs) = l # kept remove dropMarkers bs"
| "kept remove dropMarkers (Block name b e body # bs) =
     (if remove name then []
      else if dropMarkers then kept remove dropMarkers body
      else b # kept remove dropMarkers body @ [e]) @ kept remove dropMarkers bs"

fun marked :: "block list \<Rightarrow> bool" where
  "marked [] \<longleftrightarrow> True"
| "marked (Line l # bs) \<longleftrightarrow> markerPattern l = None \<and> marked bs"
| "marked (Block name b e body # bs) \<longleftrightarrow>
     markerPattern b = Some (True, name) \<and> markerPattern e = Some (False, name) \<and> marked body \<and> marked bs"

lemma strip_loop_flat:
  "marked bs \<Longrightarrow> strip_loop remove dm (flat bs @ rest) i stack skip out =
     strip_loop remove dm rest (i + length (flat bs)) stack skip (out @ (if skip = 0 then kept remove dm bs else []))"
  by (induction bs arbitrary: rest i stack skip out rule: flat.induct) (auto simp: add.assoc)

text \<open>The lines that can follow inside the open blocks of a stack.\<close>

fun follows :: "string list \<Rightarrow> string list \<Rightarrow> bool" where
  "follows [] lines \<longleftrightarrow> (\<exists>bs. marked bs \<and> lines = flat bs)"
| "follows (name # stack) lines \<longleftrightarrow>
     (\<exists>bs e rest. marked bs \<and> markerPattern e = Some (False, name) \<and> lines = flat bs @ e # rest \<and> follows stack rest)"

lemma flat_append [simp]: "flat (as @ bs) = flat as @ flat bs"
  by (induction as rule: flat.induct) auto

lemma follows_after:
  assumes "marked [b]" and "follows stack rest"
  shows "follows stack (flat [b] @ rest)"
proof (cases stack)
  case Nil
  with assms(2) obtain bs where "marked bs" "rest = flat bs" by auto
  with assms(1) Nil show ?thesis by (cases b) (auto intro!: exI [of _ "b # bs"])
next
  case (Cons name st)
  with assms(2) obtain bs e rest' where "marked bs" "markerPattern e = Some (False, name)" "rest = flat bs @ e # rest'" "follows st rest'" by auto
  with assms(1) Cons show ?thesis by (cases b) (auto intro!: exI [of _ "b # bs"])
qed

lemma strip_loop_follows: "strip_loop remove dm lines i stack skip out = Inr res \<Longrightarrow> follows stack lines"
proof (induction remove dm lines i stack skip out rule: strip_loop.induct)
  case (1 remove dm i stack skip out)
  then show ?case by (auto intro: exI [of _ "[]"] split: list.splits)
next
  case (2 remove dm line lines i stack skip out)
  show ?case
  proof (cases "markerPattern line")
    case None
    with 2 have "follows stack lines" by auto
    with follows_after [of "Line line" stack lines] None show ?thesis by simp
  next
    case (Some m)
    obtain begins name where m: "m = (begins, name)" by fastforce
    show ?thesis
    proof (cases begins)
      case True
      with 2 Some m have "follows (name # stack) lines" by (auto simp: Let_def split: if_splits)
      then obtain bs e rest where "marked bs" "markerPattern e = Some (False, name)" "lines = flat bs @ e # rest" "follows stack rest" by auto
      with follows_after [of "Block name line e bs" stack rest] Some m True show ?thesis by simp
    next
      case False
      with 2 Some m obtain rest where "stack = name # rest" "follows rest lines" by (auto simp: Let_def split: list.splits if_splits)
      with Some m False show ?thesis by (auto intro: exI [of _ "[]"])
    qed
  qed
qed

lemma contains_strI: "has_prefix p (drop n s) \<Longrightarrow> contains_str p s"
proof (induction s arbitrary: n)
  case Nil
  then show ?case by (simp add: has_prefix_def)
next
  case (Cons c s)
  then show ?case by (cases n) auto
qed

lemma has_prefix_append: "has_prefix p s \<Longrightarrow> has_prefix p (s @ t)"
  using has_prefix_length [of p s] by (simp add: has_prefix_def)

lemma has_prefix_shorter: "has_prefix (p @ q) s \<Longrightarrow> has_prefix p s"
proof -
  assume "has_prefix (p @ q) s"
  then have "take (length p) (take (length (p @ q)) s) = take (length p) (p @ q)" by (simp only: has_prefix_def)
  then show ?thesis by (simp add: has_prefix_def)
qed

lemma marker_here_prefix: "marker_here s \<noteq> None \<Longrightarrow> has_prefix ''template:'' s"
  using has_prefix_shorter [of "''template:''" "''begin''"] has_prefix_shorter [of "''template:''" "''end''"]
  by (auto simp: marker_here_def split: if_splits)

lemma marker_in_text: "markerPattern l \<noteq> None \<Longrightarrow> \<exists>n. has_prefix ''template:'' (drop n l)"
proof (induction l)
  case (Cons c l)
  show ?case
  proof (cases "marker_here (c # l)")
    case None
    with Cons obtain n where "has_prefix ''template:'' (drop n l)" by auto
    then show ?thesis by (intro exI [of _ "Suc n"]) simp
  next
    case (Some m)
    then show ?thesis using marker_here_prefix [of "c # l"] by (intro exI [of _ 0]) simp
  qed
qed simp

lemma concat_split_after [simp]: "concat (split_after s) = s"
  by (induction s rule: split_after.induct) (auto split: list.splits)

lemma line_of: "l \<in> set (split_after s) \<Longrightarrow> \<exists>a b. s = a @ l @ b"
proof -
  assume "l \<in> set (split_after s)"
  then obtain ys zs where "split_after s = ys @ l # zs" by (auto simp: in_set_conv_decomp)
  then have "s = concat ys @ l @ concat zs" using concat_split_after [of s] by simp
  then show ?thesis by blast
qed

lemma unmarked_text: "\<not> contains_str ''template:'' s \<Longrightarrow> l \<in> set (split_after s) \<Longrightarrow> markerPattern l = None"
proof (rule ccontr)
  assume none: "\<not> contains_str ''template:'' s" and l: "l \<in> set (split_after s)" and m: "markerPattern l \<noteq> None"
  obtain a b n where s: "s = a @ l @ b" and n: "has_prefix ''template:'' (drop n l)" using line_of [OF l] marker_in_text [OF m] by blast
  have "n \<le> length l" using has_prefix_length [OF n] by (cases "n \<le> length l") auto
  then have "drop (length a + n) s = drop n l @ b" using s by simp
  with has_prefix_append [OF n] contains_strI [of _ "length a + n" s] none show False by metis
qed

lemma marked_lines: "\<forall>l \<in> set ls. markerPattern l = None \<Longrightarrow> marked (map Line ls) \<and> flat (map Line ls) = ls"
  by (induction ls) auto

lemma kept_unmarked: "marked bs \<Longrightarrow> \<forall>l \<in> set (flat bs). markerPattern l = None \<Longrightarrow> kept remove dm bs = flat bs"
  by (induction bs rule: flat.induct) auto

lemma strip_exact_lines:
  "stripMarkers remove dm content = Inr out \<longleftrightarrow> (\<exists>bs. marked bs \<and> flat bs = split_after content \<and> out = concat (kept remove dm bs))"
proof (cases "contains_str ''template:'' content")
  case False
  then have plain: "\<forall>l \<in> set (split_after content). markerPattern l = None" using unmarked_text by blast
  then have "marked (map Line (split_after content)) \<and> flat (map Line (split_after content)) = split_after content" by (rule marked_lines)
  moreover have "marked bs \<Longrightarrow> flat bs = split_after content \<Longrightarrow> concat (kept remove dm bs) = content" for bs
    using kept_unmarked [of bs] plain by simp
  ultimately show ?thesis using False by (auto simp: stripMarkers_def)
next
  case True
  have run: "strip_loop remove dm (flat bs) 0 [] 0 [] = Inr (kept remove dm bs)" if "marked bs" for bs
    using strip_loop_flat [OF that, of remove dm "[]" 0 "[]" 0 "[]"] by simp
  show ?thesis
  proof
    assume "stripMarkers remove dm content = Inr out"
    with True obtain res where res: "strip_loop remove dm (split_after content) 0 [] 0 [] = Inr res" "out = concat res"
      by (cases "strip_loop remove dm (split_after content) 0 [] 0 []") (auto simp: stripMarkers_def)
    from strip_loop_follows [OF res(1)] obtain bs where "marked bs" "split_after content = flat bs" by auto
    with run res show "\<exists>bs. marked bs \<and> flat bs = split_after content \<and> out = concat (kept remove dm bs)" by auto
  next
    assume "\<exists>bs. marked bs \<and> flat bs = split_after content \<and> out = concat (kept remove dm bs)"
    then obtain bs where "marked bs" "flat bs = split_after content" "out = concat (kept remove dm bs)" by blast
    with run True show "stripMarkers remove dm content = Inr out" by (metis map_sum.simps(2) stripMarkers_def)
  qed
qed

text \<open>A line with its newline.\<close>

definition whole_line :: "string \<Rightarrow> bool" where
  "whole_line l \<longleftrightarrow> l \<noteq> [] \<and> last l = CHR 0x0A \<and> CHR 0x0A \<notin> set (butlast l)"

lemma split_after_shape: "\<exists>ls r. split_after s = ls @ [r] \<and> (\<forall>l \<in> set ls. whole_line l) \<and> CHR 0x0A \<notin> set r"
proof (induction s rule: split_after.induct)
  case 1
  show ?case by (intro exI [of _ "[]"]) simp
next
  case (2 c s)
  show ?case
  proof (cases "c = CHR 0x0A")
    case True
    with 2(1) obtain ls r where "split_after s = ls @ [r]" "\<forall>l \<in> set ls. whole_line l" "CHR 0x0A \<notin> set r" by blast
    with True show ?thesis by (intro exI [of _ "[c] # ls"] exI [of _ r]) (simp add: whole_line_def)
  next
    case False
    with 2(2) obtain ls r where "split_after s = ls @ [r]" "\<forall>l \<in> set ls. whole_line l" "CHR 0x0A \<notin> set r" by blast
    with False show ?thesis by (cases ls) (auto simp: whole_line_def intro!: exI [of _ "(c # hd ls) # tl ls"])
  qed
qed

lemma split_after_one: "CHR 0x0A \<notin> set r \<Longrightarrow> split_after r = [r]"
  by (induction r) auto

lemma split_after_whole: "CHR 0x0A \<notin> set x \<Longrightarrow> split_after ((x @ [CHR 0x0A]) @ s) = (x @ [CHR 0x0A]) # split_after s"
  by (induction x) auto

lemma split_after_concat: "\<forall>l \<in> set ls. whole_line l \<Longrightarrow> split_after (concat ls @ s) = ls @ split_after s"
proof (induction ls)
  case (Cons l ls)
  then have "l = butlast l @ [CHR 0x0A]" "CHR 0x0A \<notin> set (butlast l)" by (auto simp: whole_line_def dest!: append_butlast_last_id)
  with split_after_whole [of "butlast l" "concat ls @ s"] Cons show ?case by simp
qed simp

lemma kept_subseq: "subseq (kept remove dm bs) (flat bs)"
proof (induction bs rule: flat.induct)
  case (3 name b e body bs)
  have "subseq (kept remove dm body) (b # flat body @ [e])" "subseq (b # kept remove dm body @ [e]) (b # flat body @ [e])"
    using 3(1) by (auto intro: list_emb_append_mono subseq_rev_drop_many)
  then have "subseq (if remove name then [] else if dm then kept remove dm body else b # kept remove dm body @ [e]) (b # flat body @ [e])"
    by (cases dm) simp_all
  from list_emb_append_mono [OF this 3(2)] show ?case by simp
qed simp_all

lemma kept_plain: "marked bs \<Longrightarrow> l \<in> set (kept remove True bs) \<Longrightarrow> markerPattern l = None"
  by (induction bs rule: flat.induct) (auto split: if_splits)

text \<open>The lines of what is kept, read back, are the lines that were kept, and perhaps an empty last one.\<close>

lemma kept_lines:
  assumes "subseq ks (split_after s)"
  shows "set (split_after (concat ks)) \<subseteq> insert [] (set ks)"
proof -
  obtain ls r where shape: "split_after s = ls @ [r]" "\<forall>l \<in> set ls. whole_line l" "CHR 0x0A \<notin> set r" using split_after_shape by blast
  with assms obtain xs ys where ks: "ks = xs @ ys" "subseq xs ls" "subseq ys [r]" by (auto simp: subseq_append_iff)
  then have whole: "\<forall>l \<in> set xs. whole_line l" using shape(2) by (auto dest: list_emb_set)
  have "ys = [] \<or> ys = [r]" using ks(3) by (cases ys) (auto simp: Cons_eq_append_conv split: if_splits)
  then show ?thesis using split_after_concat [OF whole, of "concat ys"] ks(1) split_after_one [OF shape(3)] by auto
qed

text \<open>
  C37: Stripping removes exactly the unwanted blocks. It succeeds exactly on texts whose marker lines are balanced, that is whose lines are those of some
  nesting of named blocks, and then returns the lines of the blocks that are kept, in order, at every depth: a block inside a removed one is
  removed whatever its name, and marker lines of kept blocks stay only when asked for. Without them nothing is left to strip: a second
  pass, for whatever features, changes nothing.
\<close>

theorem strip_exact:
  "(stripMarkers remove dropMarkers content = Inr out \<longleftrightarrow>
      (\<exists>bs. marked bs \<and> flat bs = split_after content \<and> out = concat (kept remove dropMarkers bs))) \<and>
   (stripMarkers remove True content = Inr out \<longrightarrow> stripMarkers remove' dropMarkers' out = Inr out)"
proof (intro conjI impI)
  show "stripMarkers remove dropMarkers content = Inr out \<longleftrightarrow>
      (\<exists>bs. marked bs \<and> flat bs = split_after content \<and> out = concat (kept remove dropMarkers bs))" by (rule strip_exact_lines)
next
  assume "stripMarkers remove True content = Inr out"
  then obtain bs where bs: "marked bs" "flat bs = split_after content" "out = concat (kept remove True bs)" by (auto simp: strip_exact_lines)
  have "set (split_after out) \<subseteq> insert [] (set (kept remove True bs))" using kept_lines [of _ content] kept_subseq [of remove True bs] bs(2,3) by simp
  then have plain: "\<forall>l \<in> set (split_after out). markerPattern l = None" using kept_plain [OF bs(1)] by fastforce
  from marked_lines [OF this] have lines: "marked (map Line (split_after out))" "flat (map Line (split_after out)) = split_after out" by blast+
  then have "out = concat (kept remove' dropMarkers' (map Line (split_after out)))" using kept_unmarked [OF lines(1)] plain by simp
  with lines show "stripMarkers remove' dropMarkers' out = Inr out" unfolding strip_exact_lines by blast
qed

definition sample_source :: string where
  "sample_source = concat (map (\<lambda>l. l @ [CHR 0x0A]) [''keep'', ''// template:begin tenancy'', ''gone'', ''// template:end tenancy'', ''# template:begin smtp'',
     ''mail'', ''# template:end smtp''])"

theorem strip_exact_witness:
  "\<exists>out. stripMarkers (\<lambda>n. n = ''tenancy'') True sample_source = Inr out \<and> length (split_after out) = 3 \<and>
     stripMarkers (\<lambda>n. True) False out = Inr out"
proof -
  have "stripMarkers (\<lambda>n. n = ''tenancy'') True sample_source = Inr (''keep'' @ [CHR 0x0A] @ ''mail'' @ [CHR 0x0A])" by code_simp
  moreover from this strip_exact [of _ True sample_source] have
    "stripMarkers (\<lambda>n. True) False (''keep'' @ [CHR 0x0A] @ ''mail'' @ [CHR 0x0A]) = Inr (''keep'' @ [CHR 0x0A] @ ''mail'' @ [CHR 0x0A])" by blast
  ultimately show ?thesis by (intro exI conjI) (assumption, code_simp)
qed

section \<open>Renaming returns\<close>

lemma replace_loop_returns: "old \<noteq> [] \<Longrightarrow> \<exists>res. replace_loop old new rest out = Some res"
proof (induction "length rest" arbitrary: rest out rule: less_induct)
  case less
  show ?case
  proof (cases "bytes_Index old rest")
    case None
    then show ?thesis by (subst replace_loop.simps) simp
  next
    case (Some idx)
    have "length (drop (idx + length old) rest) < length rest" using bytes_Index_bound [OF Some] less(2) by (cases old) auto
    from less(1) [OF this less(2)] Some show ?thesis by (subst replace_loop.simps) (simp add: Let_def)
  qed
qed

lemma transform_returns: "oldModule \<noteq> [] \<Longrightarrow> transform L opts oldModule newModule remove rel content \<noteq> None"
proof -
  assume "oldModule \<noteq> []"
  then have "replaceModule oldModule newModule s \<noteq> None" for s using replace_loop_returns [of oldModule newModule s "[]"] by (auto simp: replaceModule_def)
  then show ?thesis by (auto simp: transform_def Let_def split: sum.splits option.splits) (metis option.distinct(1))
qed

lemma bytes_Index_Nil [simp]: "bytes_Index [] s = Some 0"
  by (cases s) (simp_all add: has_prefix_def)

text \<open>With an empty module path (a \<open>go.mod\<close> that says \<open>module ""\<close>) the loop never ends: it finds the empty text at the same place for ever.\<close>

theorem empty_module_loops: "replace_loop [] new rest out = None"
proof -
  have "replace_loop old new rest out = Some res \<Longrightarrow> old \<noteq> []" for old res
    by (rule replace_loop.raw_induct [where P = "\<lambda>old new rest out res. old \<noteq> []"])
      (auto simp: Let_def split: option.splits)
  then show ?thesis by (cases "replace_loop [] new rest out") auto
qed

section \<open>The dry run\<close>

lemma delete_loop_dry: "delete_loop True rels fs deleted = (deleted @ filter (path_exists fs) rels, fs)"
  by (induction rels arbitrary: deleted) auto

lemma underAny_Cons [simp]: "underAny r (p # ps) \<longleftrightarrow> under r p \<or> underAny r ps" "\<not> underAny r []"
  by (simp_all add: underAny_def)

lemma underAny_append [simp]: "underAny r (ps @ qs) \<longleftrightarrow> underAny r ps \<or> underAny r qs"
  by (simp add: underAny_def)

lemma path_exists_iff: "path_exists fs p \<longleftrightarrow> (\<exists>r c. (r, c) \<in> set fs \<and> under r p)"
  by (auto simp: path_exists_def list_ex_iff)

lemma underAny_existing: "(r, c) \<in> set fs \<Longrightarrow> underAny r (filter (path_exists fs) rels) \<longleftrightarrow> underAny r rels"
  by (auto simp: underAny_def list_ex_iff path_exists_iff)

text \<open>Deleting for real drops the same files; of nested paths it names only the first.\<close>

lemma delete_loop_real:
  "\<exists>new. delete_loop False rels fs deleted = (deleted @ new, filter (\<lambda>(r, c). \<not> underAny r rels) fs) \<and>
     set new \<subseteq> {p \<in> set rels. path_exists fs p} \<and> (\<forall>(r, c) \<in> set fs. underAny r new \<longleftrightarrow> underAny r rels)"
proof (induction rels arbitrary: fs deleted)
  case Nil
  then show ?case by simp
next
  case (Cons p rels)
  show ?case
  proof (cases "path_exists fs p")
    case False
    then have "(r, c) \<in> set fs \<Longrightarrow> \<not> under r p" for r c by (auto simp: path_exists_iff)
    then have same: "filter (\<lambda>(r, c). \<not> underAny r (p # rels)) fs = filter (\<lambda>(r, c). \<not> underAny r rels) fs"
      "\<forall>(r, c) \<in> set fs. underAny r (p # rels) \<longleftrightarrow> underAny r rels" by (auto intro!: filter_cong)
    from Cons [of fs deleted] obtain new where "delete_loop False rels fs deleted = (deleted @ new, filter (\<lambda>(r, c). \<not> underAny r rels) fs)"
      "set new \<subseteq> {p \<in> set rels. path_exists fs p}" "\<forall>(r, c) \<in> set fs. underAny r new \<longleftrightarrow> underAny r rels" by blast
    with False same show ?thesis by (intro exI [of _ new]) auto
  next
    case True
    let ?fs = "RemoveAll p fs"
    from Cons [of ?fs "deleted @ [p]"] obtain new where new: "delete_loop False rels ?fs (deleted @ [p]) = (deleted @ [p] @ new, filter (\<lambda>(r, c). \<not> underAny r rels) ?fs)"
      "set new \<subseteq> {p \<in> set rels. path_exists ?fs p}" "\<forall>(r, c) \<in> set ?fs. underAny r new \<longleftrightarrow> underAny r rels" by auto
    have "filter (\<lambda>(r, c). \<not> underAny r rels) ?fs = filter (\<lambda>(r, c). \<not> underAny r (p # rels)) fs"
      by (auto simp: RemoveAll_def intro!: filter_cong)
    moreover have "path_exists ?fs q \<Longrightarrow> path_exists fs q" for q by (auto simp: path_exists_iff RemoveAll_def)
    moreover have "\<forall>(r, c) \<in> set fs. underAny r (p # new) \<longleftrightarrow> underAny r (p # rels)"
      using new(3) by (auto simp: RemoveAll_def)
    ultimately show ?thesis using True new by (intro exI [of _ "p # new"]) auto
  qed
qed

lemma rewrite_loop_skips:
  "rewrite_loop change dry deleted rels fs modified = rewrite_loop change dry [] (filter (\<lambda>r. \<not> underAny r deleted) rels) fs modified"
  by (induction rels arbitrary: fs modified) (auto split: option.splits sum.splits)

lemma textFiles_filter: "textFiles (filter (\<lambda>(r, c). P r) fs) = filter P (textFiles fs)"
  by (simp add: textFiles_def filter_sort filter_map o_def case_prod_unfold conj_commute)

lemma map_of_put_file: "map_of (put_file rel c fs) r = (if r = rel then map_option (\<lambda>_. c) (map_of fs r) else map_of fs r)"
  by (induction fs) (auto simp: put_file_def)

text \<open>The content a file gets.\<close>

definition rewritten :: "(string \<Rightarrow> string \<Rightarrow> (init_error + string) option) \<Rightarrow> files \<Rightarrow> string \<Rightarrow> string option" where
  "rewritten change fs r = (case map_of fs r of None \<Rightarrow> None | Some c \<Rightarrow> (case change r c of Some (Inr c') \<Rightarrow> Some c' | _ \<Rightarrow> Some c))"

lemma rewrite_loop_both:
  assumes "distinct rels" and "\<forall>r \<in> set rels. map_of real r = map_of fs r" and "\<And>r c. change r c \<noteq> None"
  shows "\<exists>e new real'. rewrite_loop change True [] rels fs m = Some (e, m @ new, fs) \<and> rewrite_loop change False [] rels real m = Some (e, m @ new, real') \<and>
    set new \<subseteq> set rels \<and> (\<forall>r. map_of real' r = (if r \<in> set new then rewritten change fs r else map_of real r)) \<and>
    e \<noteq> Some SQLCRequired \<and> (e = None \<longrightarrow> (\<forall>r \<in> set rels. map_of real' r = rewritten change fs r))"
  using assms(1,2)
proof (induction rels arbitrary: real m)
  case Nil
  then show ?case by simp
next
  case (Cons rel rels)
  have here: "map_of real rel = map_of fs rel" using Cons.prems(2) by simp
  show ?case
  proof (cases "map_of fs rel")
    case None
    with here show ?thesis by auto
  next
    case (Some c)
    from assms(3) [of rel c] obtain res where change: "change rel c = Some res" by blast
    show ?thesis
    proof (cases res)
      case (Inl e)
      with here Some change show ?thesis by auto
    next
      case (Inr c')
      let ?real = "if c = c' then real else put_file rel c' real" and ?m = "if c = c' then m else m @ [rel]"
      have d: "distinct rels" and same: "\<forall>r \<in> set rels. map_of ?real r = map_of fs r" using Cons.prems by (auto simp: map_of_put_file)
      obtain e new real' where run: "rewrite_loop change True [] rels fs ?m = Some (e, ?m @ new, fs)"
          "rewrite_loop change False [] rels ?real ?m = Some (e, ?m @ new, real')" "set new \<subseteq> set rels"
          "\<forall>r. map_of real' r = (if r \<in> set new then rewritten change fs r else map_of ?real r)" "e \<noteq> Some SQLCRequired"
          "e = None \<longrightarrow> (\<forall>r \<in> set rels. map_of real' r = rewritten change fs r)"
        using Cons.IH [OF d same, of ?m] by (elim exE conjE)
      have c': "rewritten change fs rel = Some c'" using Some change Inr by (simp add: rewritten_def)
      have "map_of real' rel = Some c'" using run(3,4) Cons.prems(1) here Some by (auto simp: map_of_put_file split: if_splits)
      with run c' here Some change Inr Cons.prems(1) show ?thesis
        by (intro exI [of _ e] exI [of _ "(if c = c' then [] else [rel]) @ new"] exI [of _ real']) (auto simp: map_of_put_file)
    qed
  qed
qed

lemma readModulePath_error: "readModulePath fs = Inl e \<Longrightarrow> e \<noteq> SQLCRequired"
proof -
  have "module_directive ls = Inl e \<Longrightarrow> e \<noteq> SQLCRequired" for ls by (induction ls) (auto split: if_splits)
  then show "readModulePath fs = Inl e \<Longrightarrow> ?thesis" by (auto simp: readModulePath_def split: option.splits)
qed

lemma map_of_filter_path: "map_of (filter (\<lambda>(r, c). P r) fs) r = (if P r then map_of fs r else None)"
  by (induction fs) auto

lemma set_textFiles: "set (textFiles fs) \<subseteq> fst ` set fs"
  by (auto simp: textFiles_def)

lemma distinct_textFiles: "distinct (map fst fs) \<Longrightarrow> distinct (textFiles fs)"
  by (simp add: textFiles_def distinct_map_filter)

text \<open>Deletions and the files left to rewrite, for the dry and the real run.\<close>

lemma deletions_both:
  assumes "distinct (map fst fs)"
  shows "\<exists>deleted fs1 deleted'. delete_loop False rels fs [] = (deleted, fs1) \<and> delete_loop True rels fs [] = (deleted', fs) \<and>
    set deleted \<subseteq> set deleted' \<and> (\<forall>r \<in> fst ` set fs. underAny r deleted' = underAny r deleted) \<and>
    (\<forall>r. map_of fs1 r = (if underAny r deleted then None else map_of fs r)) \<and>
    filter (\<lambda>r. \<not> underAny r deleted) (textFiles fs1) = filter (\<lambda>r. \<not> underAny r deleted) (textFiles fs) \<and>
    filter (\<lambda>r. \<not> underAny r deleted') (textFiles fs) = filter (\<lambda>r. \<not> underAny r deleted) (textFiles fs)"
proof -
  let ?fs1 = "filter (\<lambda>(r, c). \<not> underAny r rels) fs" and ?dry = "filter (path_exists fs) rels"
  obtain deleted where real: "delete_loop False rels fs [] = (deleted, ?fs1)"
      "set deleted \<subseteq> {p \<in> set rels. path_exists fs p}" and same: "\<forall>(r, c) \<in> set fs. underAny r deleted \<longleftrightarrow> underAny r rels"
    using delete_loop_real [of rels fs "[]"] by auto
  have dry: "\<forall>r \<in> fst ` set fs. underAny r ?dry = underAny r deleted" using underAny_existing [of _ _ fs rels] same by fastforce
  have here: "\<forall>r \<in> fst ` set fs. underAny r rels = underAny r deleted" using same by auto
  have "map_of ?fs1 r = (if underAny r deleted then None else map_of fs r)" for r
    using here by (cases "map_of fs r") (auto simp: map_of_filter_path dest!: map_of_SomeD)
  moreover have "filter (\<lambda>r. \<not> underAny r deleted) (textFiles ?fs1) = filter (\<lambda>r. \<not> underAny r deleted) (textFiles fs)"
    using here set_textFiles [of fs] by (auto simp: textFiles_filter intro!: filter_cong)
  moreover have "filter (\<lambda>r. \<not> underAny r ?dry) (textFiles fs) = filter (\<lambda>r. \<not> underAny r deleted) (textFiles fs)"
    using dry set_textFiles [of fs] by (intro filter_cong) auto
  ultimately show ?thesis using real dry delete_loop_dry [of rels fs "[]"] by (intro exI [of _ deleted] exI [of _ ?fs1] exI [of _ ?dry]) auto
qed

definition new_module :: "init_options \<Rightarrow> string \<Rightarrow> string" where
  "new_module opts old = (if trim_space (io_Module opts) = [] then old else trim_space (io_Module opts))"

definition file_change :: "initlib \<Rightarrow> init_options \<Rightarrow> files \<Rightarrow> string \<Rightarrow> string \<Rightarrow> (init_error + string) option" where
  "file_change L opts fs = (let old = projr (readModulePath fs) in transform L opts old (new_module opts old) (removed_markers opts))"

lemma rewrite_document_dry: "rewrite_document L (opts\<lparr>io_DryRun := b\<rparr>) = rewrite_document L opts"
  by (simp add: fun_eq_iff rewrite_document_def rewriteReadme_def)

lemma dry_run_irrelevant:
  "to_delete (opts\<lparr>io_DryRun := b\<rparr>) = to_delete opts" "removed_markers (opts\<lparr>io_DryRun := b\<rparr>) = removed_markers opts"
  "transform L (opts\<lparr>io_DryRun := b\<rparr>) = transform L opts" "new_module (opts\<lparr>io_DryRun := b\<rparr>) = new_module opts"
proof -
  show "transform L (opts\<lparr>io_DryRun := b\<rparr>) = transform L opts"
    unfolding transform_def rewrite_document_dry fun_eq_iff by simp
qed (simp_all add: fun_eq_iff to_delete_def removed_markers_def new_module_def)

text \<open>The run from its loops.\<close>

lemma template_Run_loops:
  assumes "readModulePath fs = Inr old" and "modulePathPattern (new_module opts old)"
    and "delete_loop (io_DryRun opts) (to_delete opts fs) fs [] = (deleted, fs1)"
    and "rewrite_loop (transform L opts old (new_module opts old) (removed_markers opts)) (io_DryRun opts) deleted (textFiles fs1) fs1 [] = Some (e, modified, fs2)"
  shows "\<exists>notes stale. template_Run L opts fs = Some (\<lparr>ir_Deleted = deleted, ir_Modified = (if e = None then sort modified else modified), ir_Notes = notes\<rparr>,
    if e = None \<and> stale then Some SQLCRequired else e, fs2) \<and> (io_DryRun opts \<longrightarrow> \<not> stale)"
proof -
  let ?post = "post_steps L opts (new_module opts old \<noteq> old \<or> deleted \<noteq> []) (list_ex tf_TouchesSQL (filter (\<lambda>f. io_Prune opts (tf_Marker f)) template_features))"
  let ?stale = "snd ?post \<and> list_ex tf_SQLRegenRequired (filter (\<lambda>f. io_Prune opts (tf_Marker f)) template_features)"
  have "io_DryRun opts \<longrightarrow> \<not> ?stale" by (simp add: post_steps_def)
  with assms show ?thesis
    by (cases e) (auto simp: template_Run_def new_module_def [symmetric] Let_def case_prod_unfold intro!: exI [of _ ?stale])
qed


definition sample_initlib :: initlib where
  "sample_initlib = \<lparr>il_gofmt = Inr, il_license = \<lambda>t s. s, il_year = ''2025'', il_tidy = None, il_sqlc = Some None\<rparr>"

definition sample_repository :: files where
  "sample_repository = [(''go.mod'', ''module old/mod''), (''internal/tenancy/provider_webauthn.go'', ''package tenancy''),
     (''main.go'', sample_source @ ''import old/mod/x'')]"

definition sample_init :: init_options where
  "sample_init = \<lparr>io_Module = ''acme/foo'', io_Name = [], io_Description = [], io_Copyright = ''ACME'', io_Prune = (\<lambda>m. m = ''tenancy'' \<or> m = ''webauthn''),
     io_DryRun = False, io_KeepInit = False, io_SkipPostSteps = False\<rparr>"


text \<open>Of a path inside another only the dry run speaks: the real one finds it gone.\<close>

theorem dry_run_names_nested:
  "map_option (\<lambda>(res, e, fs'). ir_Deleted res) (template_Run sample_initlib (sample_init\<lparr>io_DryRun := True\<rparr>) sample_repository) =
     Some [''internal/tenancy'', ''internal/tenancy'', ''internal/tenancy/provider_webauthn.go'']"
  by code_simp

end
