(* ===== verification/Module_Gen.thy ===== *)
theory Module_Gen
  imports Module_Render Template_Init "HOL-Library.Multiset"
begin

text \<open>
  The module generator (\<open>internal/devx/modulegen/generator.go\<close>, \<open>cmd/modulegen/main.go\<close>): names, the registry of modules, migration
  scaffolds, the generation of a module, and the command with its interactive wizard.

  \<open>sort.Slice\<close> orders equal keys as it likes, so sorting a region of the registry is a parameter: some permutation that is sorted by
  the trimmed lines. The repository is a list of files as in \<open>Template_Init\<close>, relative to the workspace; single reads and writes succeed.
\<close>

section \<open>Names\<close>

datatype name_error = NameRequired | NotLowercase | BadCharacters | NoSegment | NoLetterFirst

definition input_char :: "char \<Rightarrow> bool" where
  "input_char c \<longleftrightarrow> 97 \<le> byte c \<and> byte c \<le> 122 \<or> 48 \<le> byte c \<and> byte c \<le> 57 \<or> c = CHR ''_'' \<or> c = CHR ''-''"

text \<open>\<open>strings.NewReplacer("-", "_", "__", "_")\<close>.\<close>

fun dash_replacer :: "string \<Rightarrow> string" where
  "dash_replacer [] = []"
| "dash_replacer [c] = [if c = CHR ''-'' then CHR ''_'' else c]"
| "dash_replacer (c # d # s) =
     (if c = CHR ''-'' then CHR ''_'' # dash_replacer (d # s)
      else if c = CHR ''_'' \<and> d = CHR ''_'' then CHR ''_'' # dash_replacer s
      else c # dash_replacer (d # s))"

definition splitParts :: "string \<Rightarrow> string list" where
  "splitParts raw = filter (\<lambda>f. f \<noteq> []) (map trim_space (split_on (CHR ''_'') (dash_replacer raw)))"

definition NormalizeName :: "string \<Rightarrow> name_error + ModuleSpec" where
  "NormalizeName name =
     (let input = trim_space name; raw = to_lower input; parts = splitParts raw in
      if raw = [] then Inl NameRequired
      else if input \<noteq> raw then Inl NotLowercase
      else if \<not> list_all input_char raw then Inl BadCharacters
      else if parts = [] then Inl NoSegment
      else if hd parts = [] \<or> byte (hd (hd parts)) < 97 \<or> byte (hd (hd parts)) > 122 then Inl NoLetterFirst
      else Inr \<lparr>sp_RawName = raw, sp_Package = join ''_'' parts, sp_RoutePath = join ''-'' parts\<rparr>)"

section \<open>The registry\<close>

abbreviation registryImportsMarker :: string where "registryImportsMarker \<equiv> ''// MODULE_IMPORTS''"
abbreviation registryListMarker :: string where "registryListMarker \<equiv> ''// MODULE_LIST''"

fun indexOfLineContaining :: "string list \<Rightarrow> string \<Rightarrow> nat option" where
  "indexOfLineContaining [] needle = None"
| "indexOfLineContaining (l # ls) needle = (if contains_str needle l then Some 0 else map_option Suc (indexOfLineContaining ls needle))"

definition containsTrimmedLine :: "string list \<Rightarrow> string \<Rightarrow> bool" where
  "containsTrimmedLine ls target = list_ex (\<lambda>l. trim_space l = trim_space target) ls"

definition insertLine :: "string list \<Rightarrow> nat \<Rightarrow> string \<Rightarrow> string list" where
  "insertLine ls i line = (if i > length ls then ls else take i ls @ [line] @ drop i ls)"

text \<open>The lines right before the marker that satisfy the predicate are sorted in place.\<close>

definition sortRegion :: "(string list \<Rightarrow> string list) \<Rightarrow> string list \<Rightarrow> string \<Rightarrow> (string \<Rightarrow> bool) \<Rightarrow> string list" where
  "sortRegion sorter ls marker P =
     (case indexOfLineContaining ls marker of
        None \<Rightarrow> ls
      | Some k \<Rightarrow>
          (let n = length (takeWhile P (rev (take k ls))) in
           if n = 0 then ls else take (k - n) ls @ sorter (drop (k - n) (take k ls)) @ drop k ls))"

definition import_line :: "string \<Rightarrow> string" where
  "import_line path = [CHR 0x09, CHR 0x22] @ path @ [CHR 0x22]"

definition entry_line :: "string \<Rightarrow> string" where
  "entry_line package = [CHR 0x09, CHR 0x09] @ package @ ''.New(),''"

definition insert_entries :: "string list \<Rightarrow> string \<Rightarrow> string \<Rightarrow> nat \<Rightarrow> nat \<Rightarrow> string list \<times> bool" where
  "insert_entries ls imp entry i j =
     (let missing = \<not> containsTrimmedLine ls imp;
          ls1 = (if missing then insertLine ls i imp else ls);
          j1 = (if missing \<and> j \<ge> i + 1 then j + 1 else j)
      in if \<not> containsTrimmedLine ls1 entry then (insertLine ls1 j1 entry, True) else (ls1, missing))"

definition UpdateRegistry :: "(string list \<Rightarrow> string list) \<Rightarrow> string \<Rightarrow> string \<Rightarrow> string \<Rightarrow> (string \<times> bool) option" where
  "UpdateRegistry sorter content path package =
     (let ls = split_on (CHR 0x0A) content in
      case (indexOfLineContaining ls registryImportsMarker, indexOfLineContaining ls registryListMarker) of
        (Some i, Some j) \<Rightarrow>
          (let (ls1, changed) = insert_entries ls (import_line path) (entry_line package) i j;
               ls2 = sortRegion sorter ls1 registryImportsMarker (contains_str (CHR 0x22 # ''github.com/MrEthical07/superapi/internal/modules/''));
               ls3 = sortRegion sorter ls2 registryListMarker (\<lambda>l. has_suffix ''.New(),'' (trim_space l));
               updated = join [CHR 0x0A] ls3
           in Some (updated, if content = updated then False else changed))
      | _ \<Rightarrow> None)"

section \<open>Migration scaffolds\<close>

datatype gen_error =
    ModuleExists string | NoGoModFile | EmptyDirective | MissingDirective | NoRegistry | NoMarkers | ScaffoldExists string

definition migrationsDir :: string where
  "migrationsDir = ''db/migrations/''"

text \<open>\<open>os.ReadDir\<close>: the names in a directory, sorted. A missing directory has none.\<close>

definition dir_entries :: "string \<Rightarrow> files \<Rightarrow> string list" where
  "dir_entries dir fs = sort (remdups (List.map_filter (\<lambda>(rel, c).
     if has_prefix dir rel then Some (hd (components (drop (length dir) rel))) else None) fs))"

text \<open>\<open>0\<close> is none found.\<close>

fun existing_number :: "string \<Rightarrow> string list \<Rightarrow> int" where
  "existing_number suf [] = 0"
| "existing_number suf (name # names) =
     (if \<not> has_suffix suf name then existing_number suf names
      else if CHR ''_'' \<notin> set name then existing_number suf names
      else (case parse_int 64 (takeWhile (\<lambda>c. c \<noteq> CHR ''_'') name) of Some n \<Rightarrow> n | None \<Rightarrow> existing_number suf names))"

definition findExistingModuleMigration :: "files \<Rightarrow> string \<Rightarrow> int" where
  "findExistingModuleMigration fs routePath = existing_number (''_'' @ routePath @ ''.up.sql'') (dir_entries migrationsDir fs)"

definition name_number :: "string \<Rightarrow> int option" where
  "name_number name = (if length name < 6 then None else parse_int 64 (take 6 name))"

fun max_number :: "int \<Rightarrow> string list \<Rightarrow> int" where
  "max_number m [] = m"
| "max_number m (name # names) =
     (case name_number name of None \<Rightarrow> max_number m names | Some n \<Rightarrow> max_number (if n > m then n else m) names)"

definition nextMigrationNumber :: "files \<Rightarrow> int" where
  "nextMigrationNumber fs = max_number 0 (dir_entries migrationsDir fs) + 1"

text \<open>\<open>%06d\<close>.\<close>

definition padded6 :: "int \<Rightarrow> string" where
  "padded6 n = (let d = nat_dec (nat \<bar>n\<bar>) in
     if n < 0 then CHR ''-'' # replicate (5 - length d) (CHR ''0'') @ d else replicate (6 - length d) (CHR ''0'') @ d)"

definition migration_number :: "files \<Rightarrow> string \<Rightarrow> int" where
  "migration_number fs routePath =
     (let existing = findExistingModuleMigration fs routePath in if existing = 0 then nextMigrationNumber fs else existing)"

definition scaffold_path :: "files \<Rightarrow> string \<Rightarrow> string" where
  "scaffold_path fs routePath = migrationsDir @ padded6 (migration_number fs routePath) @ ''_'' @ routePath"

definition write_file :: "string \<Rightarrow> string \<Rightarrow> files \<Rightarrow> files" where
  "write_file rel c fs = (if map_of fs rel = None then fs @ [(rel, c)] else put_file rel c fs)"

definition up_content :: "string \<Rightarrow> string" where
  "up_content pkg = text_of [''-- Migration scaffold for module '' @ pkg @ ''.'',
     ''-- Module-local sqlc files live under internal/modules/'' @ pkg @ ''/db/.'', ''-- Add your CREATE TABLE / ALTER TABLE statements here.'']"

definition down_content :: "string \<Rightarrow> string" where
  "down_content pkg = text_of [''-- Rollback scaffold for module '' @ pkg @ ''.'', ''-- Add the matching DROP / rollback statements here.'']"

definition generateMigrationScaffold :: "ModuleSpec \<Rightarrow> bool \<Rightarrow> files \<Rightarrow> gen_error option \<times> files" where
  "generateMigrationScaffold spec force fs =
     (let base = scaffold_path fs (sp_RoutePath spec); upPath = base @ ''.up.sql''; downPath = base @ ''.down.sql'' in
      if \<not> force \<and> path_exists fs upPath then (Some (ScaffoldExists upPath), fs)
      else (None, write_file downPath (down_content (sp_Package spec)) (write_file upPath (up_content (sp_Package spec)) fs)))"

section \<open>Generation\<close>

fun module_line :: "string list \<Rightarrow> gen_error + string" where
  "module_line [] = Inl MissingDirective"
| "module_line (l # ls) =
     (if \<not> has_prefix ''module '' (trim_space l) then module_line ls
      else (let path = trim_space (drop 7 (trim_space l)) in if path = [] then Inl EmptyDirective else Inr path))"

definition parseModulePath :: "string \<Rightarrow> gen_error + string" where
  "parseModulePath goMod = module_line (split_on (CHR 0x0A) goMod)"

definition registryPath :: string where
  "registryPath = ''internal/modules/modules.go''"

definition module_dir :: "ModuleSpec \<Rightarrow> string" where
  "module_dir spec = ''internal/modules/'' @ sp_Package spec"

fun write_all :: "string \<Rightarrow> (string \<times> string) list \<Rightarrow> files \<Rightarrow> files" where
  "write_all dir [] fs = fs"
| "write_all dir ((name, content) # rest) fs = write_all dir rest (write_file (dir @ ''/'' @ name) content fs)"

text \<open>From the registry on; \<open>fs\<close> already holds the files of the module.\<close>

definition register_module :: "(string list \<Rightarrow> string list) \<Rightarrow> ModuleSpec \<Rightarrow> files \<Rightarrow> gen_error option \<times> files" where
  "register_module sorter spec fs =
     (case map_of fs ''go.mod'' of
        None \<Rightarrow> (Some NoGoModFile, fs)
      | Some goMod \<Rightarrow>
          (case parseModulePath goMod of
             Inl e \<Rightarrow> (Some e, fs)
           | Inr modulePath \<Rightarrow>
               (case map_of fs registryPath of
                  None \<Rightarrow> (Some NoRegistry, fs)
                | Some content \<Rightarrow>
                    (case UpdateRegistry sorter content (modulePath @ ''/internal/modules/'' @ sp_Package spec) (sp_Package spec) of
                       None \<Rightarrow> (Some NoMarkers, fs)
                     | Some (updated, changed) \<Rightarrow> (None, write_file registryPath updated fs)))))"

definition GenerateModule :: "(string list \<Rightarrow> string list) \<Rightarrow> Extension list \<Rightarrow> TemplateConfig \<Rightarrow> bool \<Rightarrow> files \<Rightarrow> gen_error option \<times> files" where
  "GenerateModule sorter extensions cfg force fs =
     (let spec = tg_Spec cfg; dir = module_dir spec in
      if path_exists fs dir \<and> \<not> force then (Some (ModuleExists dir), fs)
      else (case register_module sorter spec (write_all dir (RenderFiles extensions cfg) (RemoveAll dir fs)) of
          (Some e, fs1) \<Rightarrow> (Some e, fs1)
        | (None, fs1) \<Rightarrow> if to_CreateMigration (tg_Options cfg) then generateMigrationScaffold spec force fs1 else (None, fs1)))"

section \<open>The command\<close>

definition parseBoolFlag :: "string \<Rightarrow> bool option" where
  "parseBoolFlag raw =
     (let value = trim_space (to_lower raw) in
      if value = [] then Some False
      else if value \<in> set [''1'', ''true'', ''yes'', ''y'', ''on''] then Some True
      else if value \<in> set [''0'', ''false'', ''no'', ''n'', ''off''] then Some False
      else None)"

text \<open>The prompts consume the lines the scanner still yields.\<close>

definition promptYesNo :: "bool \<Rightarrow> string list \<Rightarrow> bool \<times> string list" where
  "promptYesNo defaultVal lines =
     (case lines of
        [] \<Rightarrow> (defaultVal, [])
      | l # ls \<Rightarrow>
          (let input = trim_space (to_lower l) in
           (if input \<in> set [''y'', ''yes'', ''true'', ''1''] then True
            else if input \<in> set [''n'', ''no'', ''false'', ''0''] then False else defaultVal, ls)))"

definition promptString :: "string \<Rightarrow> string list \<Rightarrow> string \<times> string list" where
  "promptString defaultVal lines =
     (case lines of [] \<Rightarrow> (defaultVal, []) | l # ls \<Rightarrow> (if trim_space l = [] then defaultVal else trim_space l, ls))"

fun prompt_extensions :: "Extension list \<Rightarrow> string list \<Rightarrow> (string \<Rightarrow> bool) \<Rightarrow> (string \<Rightarrow> bool) \<times> string list" where
  "prompt_extensions [] lines extra = (extra, lines)"
| "prompt_extensions (ext # exts) lines extra =
     (if ex_Prompt ext = [] then prompt_extensions exts lines extra
      else (let (on, rest) = promptYesNo False lines in prompt_extensions exts rest (extra(ex_Flag ext := on))))"

text \<open>The name and the options; \<open>None\<close> where the wizard returns an error.\<close>

definition runWizard :: "Extension list \<Rightarrow> string list \<Rightarrow> (string \<times> TemplateOptions) option" where
  "runWizard exts lines =
     (let (name, l1) = promptString [] lines in
      if name = [] then None
      else (let (db, l2) = promptYesNo False l1;
                (migration, l3) = (if db then promptYesNo True l2 else (False, l2));
                (auth, l4) = promptYesNo False l3;
                (extra, l5) = (if auth then prompt_extensions exts l4 (\<lambda>_. False) else (\<lambda>_. False, l4));
                (limit, l6) = promptYesNo False l5;
                (cache, l7) = promptYesNo False l6;
                (proceed, l8) = promptYesNo True l7
            in if \<not> proceed then None
               else Some (name, \<lparr>to_UseDB = db, to_UseAuth = auth, to_UseRateLimit = limit, to_UseCache = cache,
                 to_CreateMigration = migration, to_Extra = extra\<rparr>)))"

definition modulegen_flags :: "Extension list \<Rightarrow> (string \<times> flag_kind) list" where
  "modulegen_flags exts = [(''name'', StringFlag), (''force'', StringFlag), (''db'', BoolFlag), (''auth'', BoolFlag)] @
     map (\<lambda>ext. (ex_Flag ext, BoolFlag)) exts @ [(''ratelimit'', BoolFlag), (''cache'', BoolFlag), (''migration'', BoolFlag)]"

definition flag_options :: "(string \<times> string) list \<Rightarrow> Extension list \<Rightarrow> TemplateOptions" where
  "flag_options vals exts = \<lparr>to_UseDB = flag_set vals ''db'', to_UseAuth = flag_set vals ''auth'', to_UseRateLimit = flag_set vals ''ratelimit'',
     to_UseCache = flag_set vals ''cache'', to_CreateMigration = flag_set vals ''migration'',
     to_Extra = (\<lambda>name. name \<in> set (map ex_Flag exts) \<and> flag_set vals name)\<rparr>"

definition refused_options :: "Extension list \<Rightarrow> TemplateOptions \<Rightarrow> bool" where
  "refused_options exts opt \<longleftrightarrow>
     list_ex (\<lambda>ext. to_Extra opt (ex_Flag ext) \<and> ex_RequiresAuth ext \<and> \<not> to_UseAuth opt) exts \<or> to_CreateMigration opt \<and> \<not> to_UseDB opt"

text \<open>The exit status and the repository afterwards.\<close>

definition modulegen_main :: "(string list \<Rightarrow> string list) \<Rightarrow> Extension list \<Rightarrow> string list \<Rightarrow> string list \<Rightarrow> files \<Rightarrow> nat \<times> files" where
  "modulegen_main sorter exts args lines fs =
     (case FlagSet_Parse (modulegen_flags exts) args [] of
        Inl ErrHelp \<Rightarrow> (0, fs)
      | Inl e \<Rightarrow> (2, fs)
      | Inr (vals, rest) \<Rightarrow>
          (case parseBoolFlag (flag_value vals ''force'' []) of
             None \<Rightarrow> (1, fs)
           | Some force \<Rightarrow>
               (let name = trim_space (flag_value vals ''name'' []) in
                case (if name = [] then runWizard exts lines else Some (name, flag_options vals exts)) of
                  None \<Rightarrow> (1, fs)
                | Some (wname, opt) \<Rightarrow>
                    if refused_options exts opt then (1, fs)
                    else (case NormalizeName wname of
                        Inl e \<Rightarrow> (1, fs)
                      | Inr spec \<Rightarrow>
                          if \<not> path_exists fs ''go.mod'' then (1, fs)
                          else (case GenerateModule sorter exts \<lparr>tg_Spec = spec, tg_Options = opt\<rparr> force fs of
                              (Some e, fs1) \<Rightarrow> (1, fs1)
                            | (None, fs1) \<Rightarrow> (0, fs1))))))"

section \<open>Accepted names\<close>

abbreviation is_sep :: "char \<Rightarrow> bool" where "is_sep c \<equiv> c = CHR ''_'' \<or> c = CHR ''-''"

text \<open>A word of a name: lower-case letters and digits.\<close>

definition name_word :: "string \<Rightarrow> bool" where
  "name_word w \<longleftrightarrow> w \<noteq> [] \<and> list_all (\<lambda>c. input_char c \<and> \<not> is_sep c) w"

abbreviation underscored :: "string \<Rightarrow> string" where "underscored \<equiv> replace_byte (CHR ''-'') (CHR ''_'')"

lemma sep_byte: "byte (CHR ''_'') = 95" "byte (CHR ''-'') = 45"
  by (simp_all add: byte_def)

lemma input_sep: "is_sep c \<Longrightarrow> input_char c"
  by (auto simp: input_char_def)

lemma input_visible: "list_all input_char s \<Longrightarrow> visible s"
  by (auto simp: visible_def list_all_iff input_char_def sep_byte)

lemma input_lower: "list_all input_char s \<Longrightarrow> to_lower s = s"
  unfolding to_lower_def by (intro map_idI) (auto simp: list_all_iff input_char_def lower_byte_def sep_byte)

text \<open>The replacer merges some underscores, but the fragments between them are the same.\<close>

definition same_fragments :: "string list \<Rightarrow> string list \<Rightarrow> bool" where
  "same_fragments xs ys \<longleftrightarrow> xs \<noteq> [] \<and> ys \<noteq> [] \<and> hd xs = hd ys \<and> filter (\<lambda>f. f \<noteq> []) (tl xs) = filter (\<lambda>f. f \<noteq> []) (tl ys)"

lemma same_fragmentsD: "same_fragments xs ys \<Longrightarrow> filter (\<lambda>f. f \<noteq> []) xs = filter (\<lambda>f. f \<noteq> []) ys"
  by (cases xs; cases ys) (auto simp: same_fragments_def)

lemma same_fragments_step:
  assumes "same_fragments (split_on d s) (split_on d t)"
  shows "same_fragments (split_on d (c # s)) (split_on d (c # t))"
  using assms same_fragmentsD [OF assms] by (cases "split_on d s"; cases "split_on d t") (auto simp: same_fragments_def)

lemma dash_fragments: "same_fragments (split_on (CHR ''_'') (dash_replacer s)) (split_on (CHR ''_'') (underscored s))"
proof (induction s rule: dash_replacer.induct)
  case (3 c d s)
  have step: "underscored (c # s) = (if c = CHR ''-'' then CHR ''_'' else c) # underscored s" for c s by (simp add: replace_byte_def)
  show ?case
  proof (cases "c = CHR ''_'' \<and> d = CHR ''_''")
    case True
    then have "same_fragments (split_on (CHR ''_'') (dash_replacer s)) (split_on (CHR ''_'') (underscored s))" using 3(2) by simp
    from same_fragmentsD [OF this] True show ?thesis by (simp add: step same_fragments_def del: split_on.simps(1))
  next
    case False
    then have dash: "dash_replacer (c # d # s) = (if c = CHR ''-'' then CHR ''_'' else c) # dash_replacer (d # s)" by auto
    have "same_fragments (split_on (CHR ''_'') (dash_replacer (d # s))) (split_on (CHR ''_'') (underscored (d # s)))" using 3(1,3) False by blast
    from same_fragments_step [OF this] show ?thesis unfolding dash step [of c "d # s"] .
  qed
qed (simp_all add: same_fragments_def replace_byte_def)

lemma set_split_on: "w \<in> set (split_on d s) \<Longrightarrow> set w \<subseteq> set s"
proof (induction s arbitrary: w)
  case (Cons c s)
  obtain x xs where s: "split_on d s = x # xs" using split_on_not_Nil [of d s] by (cases "split_on d s") auto
  then have "set v \<subseteq> set s" if "v \<in> set (x # xs)" for v using Cons.IH that by simp
  with Cons.prems s show ?case by (cases "c = d") force+
qed simp

text \<open>The parts of a name with allowed characters are the words between its separators.\<close>

lemma splitParts_words:
  assumes "list_all input_char raw"
  shows "splitParts raw = filter (\<lambda>f. f \<noteq> []) (split_on (CHR ''_'') (underscored raw))" and "\<forall>w \<in> set (splitParts raw). name_word w"
proof -
  have chars: "list_all input_char w \<and> CHR ''-'' \<notin> set w \<and> CHR ''_'' \<notin> set w" if "w \<in> set (split_on (CHR ''_'') (underscored raw))" for w
  proof -
    have "set w \<subseteq> set (underscored raw)" using set_split_on [OF that] .
    moreover have "\<forall>c \<in> set (underscored raw). input_char c" using assms by (auto simp: replace_byte_def list_all_iff input_char_def)
    ultimately show ?thesis using split_on_set [OF that] replace_byte_free [of "CHR ''-''" "CHR ''_''" raw] by (auto simp: list_all_iff)
  qed
  let ?ws = "filter (\<lambda>f. f \<noteq> []) (split_on (CHR ''_'') (underscored raw))"
  have frag: "filter (\<lambda>f. f \<noteq> []) (split_on (CHR ''_'') (dash_replacer raw)) = ?ws" by (rule same_fragmentsD [OF dash_fragments])
  have "w \<in> set (split_on (CHR ''_'') (dash_replacer raw)) \<Longrightarrow> trim_space w = w" for w
  proof (cases "w = []")
    case False
    assume "w \<in> set (split_on (CHR ''_'') (dash_replacer raw))"
    with False have "w \<in> set ?ws" by (simp flip: frag)
    then show ?thesis using chars by (simp add: input_visible)
  qed simp
  then have "map trim_space (split_on (CHR ''_'') (dash_replacer raw)) = split_on (CHR ''_'') (dash_replacer raw)" by (intro map_idI)
  with frag show parts: "splitParts raw = ?ws" by (simp add: splitParts_def)
  show "\<forall>w \<in> set (splitParts raw). name_word w" using chars unfolding parts by (auto simp: name_word_def list_all_iff)
qed

lemma underscored_join: "\<forall>w \<in> set ws. name_word w \<Longrightarrow> underscored (join ''_'' ws) = join ''_'' ws \<and> underscored (join ''-'' ws) = join ''_'' ws"
  by (induction "''_''" ws rule: join.induct) (auto simp: replace_byte_def name_word_def list_all_iff map_idI)

lemma input_join: "\<forall>w \<in> set ws. name_word w \<Longrightarrow> is_sep c \<Longrightarrow> list_all input_char (join [c] ws)"
  by (induction "[c]" ws rule: join.induct) (auto simp: name_word_def list_all_iff intro: input_sep)

lemma splitParts_join:
  assumes "ws \<noteq> []" and "\<forall>w \<in> set ws. name_word w"
  shows "splitParts (join ''_'' ws) = ws" "splitParts (join ''-'' ws) = ws"
proof -
  have "split_on (CHR ''_'') (join ''_'' ws) = ws" using assms by (intro split_on_join) (auto simp: name_word_def list_all_iff)
  moreover have "filter (\<lambda>f. f \<noteq> []) ws = ws" using assms(2) by (auto simp: name_word_def intro: filter_True)
  moreover have "splitParts (join [c] ws) = filter (\<lambda>f. f \<noteq> []) (split_on (CHR ''_'') (underscored (join [c] ws)))" if "is_sep c" for c
    by (rule splitParts_words(1) [OF input_join [OF assms(2) that]])
  ultimately show "splitParts (join ''_'' ws) = ws" "splitParts (join ''-'' ws) = ws"
    using underscored_join [OF assms(2)] by presburger+
qed

text \<open>A name is accepted exactly if, without surrounding white space, it has only allowed characters and its first word begins with a letter.\<close>

abbreviation letter :: "char \<Rightarrow> bool" where "letter c \<equiv> 97 \<le> byte c \<and> byte c \<le> 122"

lemma NormalizeName_iff:
  "NormalizeName name = Inr spec \<longleftrightarrow>
     (let raw = trim_space name; parts = splitParts raw in
      list_all input_char raw \<and> parts \<noteq> [] \<and> letter (hd (hd parts)) \<and>
      spec = \<lparr>sp_RawName = raw, sp_Package = join ''_'' parts, sp_RoutePath = join ''-'' parts\<rparr>)"
proof -
  have "splitParts [] = []" by (simp add: splitParts_def)
  moreover have "hd (splitParts raw) \<noteq> []" if "list_all input_char raw" "splitParts raw \<noteq> []" for raw
    using splitParts_words(2) [OF that(1)] that(2) by (auto simp: name_word_def)
  ultimately show ?thesis
    by (auto simp: NormalizeName_def Let_def input_lower not_less)
qed
lemma first_part:
  "list_all input_char raw \<Longrightarrow> (splitParts raw = [] \<longleftrightarrow> dropWhile is_sep raw = []) \<and>
     (splitParts raw \<noteq> [] \<longrightarrow> hd (hd (splitParts raw)) = hd (dropWhile is_sep raw))"
proof -
  have "(filter (\<lambda>f. f \<noteq> []) (split_on (CHR ''_'') (underscored s)) = [] \<longleftrightarrow> dropWhile is_sep s = []) \<and>
     (filter (\<lambda>f. f \<noteq> []) (split_on (CHR ''_'') (underscored s)) \<noteq> [] \<longrightarrow>
        hd (hd (filter (\<lambda>f. f \<noteq> []) (split_on (CHR ''_'') (underscored s)))) = hd (dropWhile is_sep s))" for s
  proof (induction s)
    case (Cons c s)
    have "underscored (c # s) = (if c = CHR ''-'' then CHR ''_'' else c) # underscored s" by (simp add: replace_byte_def)
    then show ?case using Cons split_on_not_Nil [of "CHR ''_''" "underscored s"]
      by (cases "is_sep c"; cases "split_on (CHR ''_'') (underscored s)") auto
  qed (simp add: replace_byte_def)
  then show "list_all input_char raw \<Longrightarrow> ?thesis" by (simp add: splitParts_words(1))
qed

lemma join_words:
  assumes "\<forall>w \<in> set ws. name_word w" and "ws \<noteq> []"
  shows "join [c] ws \<noteq> []" "hd (join [c] ws) = hd (hd ws)" "join ''-'' ws = replace_byte (CHR ''_'') (CHR ''-'') (join ''_'' ws)"
proof -
  obtain w rest where ws: "ws = w # rest" "w \<noteq> []" using assms by (cases ws) (auto simp: name_word_def)
  then show "join [c] ws \<noteq> []" "hd (join [c] ws) = hd (hd ws)" by (cases rest; simp)+
  show "join ''-'' ws = replace_byte (CHR ''_'') (CHR ''-'') (join ''_'' ws)"
    using assms(1) by (induction "''_''" ws rule: join.induct) (auto simp: replace_byte_def name_word_def list_all_iff map_idI)
qed

text \<open>
  Module names. A name is accepted exactly if, without surrounding white space, it has only lower-case letters, digits, dashes and underscores
  and the first character that is no separator is a letter. Then the package name begins with a letter, has only
  letters, digits and single underscores between them, the route has dashes in their place, and either of them, given as
  a name, is accepted and names the same module.
\<close>

theorem names_normal:
  "((\<exists>spec. NormalizeName name = Inr spec) \<longleftrightarrow>
      list_all input_char (trim_space name) \<and> (\<exists>c s. dropWhile is_sep (trim_space name) = c # s \<and> letter c)) \<and>
   (NormalizeName name = Inr spec \<longrightarrow>
      letter (hd (sp_Package spec)) \<and> list_all (\<lambda>c. input_char c \<and> c \<noteq> CHR ''-'') (sp_Package spec) \<and>
      (\<forall>w \<in> set (split_on (CHR ''_'') (sp_Package spec)). w \<noteq> []) \<and>
      sp_RoutePath spec = replace_byte (CHR ''_'') (CHR ''-'') (sp_Package spec) \<and>
      NormalizeName (sp_Package spec) = Inr (spec\<lparr>sp_RawName := sp_Package spec\<rparr>) \<and>
      NormalizeName (sp_RoutePath spec) = Inr (spec\<lparr>sp_RawName := sp_RoutePath spec\<rparr>))"
proof (intro conjI impI)
  show "(\<exists>spec. NormalizeName name = Inr spec) \<longleftrightarrow>
      list_all input_char (trim_space name) \<and> (\<exists>c s. dropWhile is_sep (trim_space name) = c # s \<and> letter c)"
    using first_part [of "trim_space name"] by (cases "dropWhile is_sep (trim_space name)"; cases "list_all input_char (trim_space name)") (simp_all add: NormalizeName_iff Let_def del: dropWhile_eq_Nil_conv)
next
  assume "NormalizeName name = Inr spec"
  then obtain parts where parts: "parts = splitParts (trim_space name)" "list_all input_char (trim_space name)" "parts \<noteq> []" "letter (hd (hd parts))"
    "spec = \<lparr>sp_RawName = trim_space name, sp_Package = join ''_'' parts, sp_RoutePath = join ''-'' parts\<rparr>" by (auto simp: NormalizeName_iff Let_def)
  have words: "\<forall>w \<in> set parts. name_word w" using splitParts_words(2) [OF parts(2)] parts(1) by simp
  note joined = join_words [OF words parts(3)] and input = input_join [OF words]
  show "97 \<le> byte (hd (sp_Package spec))" "byte (hd (sp_Package spec)) \<le> 122" using joined(2) parts(4,5) by simp_all
  show "list_all (\<lambda>c. input_char c \<and> c \<noteq> CHR ''-'') (sp_Package spec)"
    using input [of "CHR ''_''"] underscored_join [OF words] replace_byte_free [of "CHR ''-''" "CHR ''_''" "join ''_'' parts"] parts(5)
    by (auto simp: list_all_iff)
  have "split_on (CHR ''_'') (join ''_'' parts) = parts" using parts(3) words by (intro split_on_join) (auto simp: name_word_def list_all_iff)
  then show "\<forall>w \<in> set (split_on (CHR ''_'') (sp_Package spec)). w \<noteq> []" using words parts(5) by (simp add: name_word_def)
  show "sp_RoutePath spec = replace_byte (CHR ''_'') (CHR ''-'') (sp_Package spec)" using joined(3) parts(5) by simp
  have again: "NormalizeName (join [c] parts) = Inr (spec\<lparr>sp_RawName := join [c] parts\<rparr>)" if "is_sep c" for c
    using input [OF that] splitParts_join [OF parts(3) words] that parts(3,4,5) by (auto simp: NormalizeName_iff Let_def input_visible)
  show "NormalizeName (sp_Package spec) = Inr (spec\<lparr>sp_RawName := sp_Package spec\<rparr>)" using again [of "CHR ''_''"] parts(5) by simp
  show "NormalizeName (sp_RoutePath spec) = Inr (spec\<lparr>sp_RawName := sp_RoutePath spec\<rparr>)" using again [of "CHR ''-''"] parts(5) by simp
qed

theorem names_normal_witness:
  "NormalizeName ''project_tasks'' = Inr \<lparr>sp_RawName = ''project_tasks'', sp_Package = ''project_tasks'', sp_RoutePath = ''project-tasks''\<rparr>"
proof -
  let ?spec = "\<lparr>sp_RawName = ''project--tasks_'', sp_Package = ''project_tasks'', sp_RoutePath = ''project-tasks''\<rparr>"
  have "NormalizeName '' project--tasks_ '' = Inr ?spec" by code_simp
  with names_normal [of "'' project--tasks_ ''" ?spec] have "NormalizeName (sp_Package ?spec) = Inr (?spec\<lparr>sp_RawName := sp_Package ?spec\<rparr>)" by blast
  then show ?thesis by simp
qed

section \<open>The registry after an update\<close>

lemma indexOfLineContaining_first:
  "\<forall>l \<in> set xs. \<not> contains_str needle l \<Longrightarrow> contains_str needle m \<Longrightarrow> indexOfLineContaining (xs @ m # ys) needle = Some (length xs)"
  by (induction xs) auto

text \<open>What \<open>sort.Slice\<close> promises.\<close>

locale line_sorter =
  fixes sorter :: "string list \<Rightarrow> string list"
  assumes perm: "mset (sorter ls) = mset ls"
    and ordered: "sorted (map trim_space (sorter ls))"
begin

lemma set_sorter: "set (sorter ls) = set ls"
  using perm [of ls] by (rule mset_eq_setD)

lemma sorter_Nil: "sorter [] = []"
  using perm [of "[]"] by simp

text \<open>A region is exactly the run of lines of its kind right before the marker.\<close>

lemma sortRegion_exact:
  assumes "\<forall>l \<in> set (before @ reg). \<not> contains_str marker l" and "contains_str marker m"
    and "\<forall>l \<in> set reg. P l" and "before = [] \<or> \<not> P (last before)"
  shows "sortRegion sorter (before @ reg @ m # after) marker P = before @ sorter reg @ m # after"
proof -
  have index: "indexOfLineContaining (before @ reg @ m # after) marker = Some (length (before @ reg))"
    using indexOfLineContaining_first [OF assms(1,2)] by simp
  have region: "take (length (before @ reg)) (before @ reg @ m # after) = before @ reg" by simp
  have "takeWhile P (rev before) = []" using assms(4) by (cases before rule: rev_cases) auto
  then have run: "takeWhile P (rev (before @ reg)) = rev reg" using assms(3) by (auto simp: takeWhile_append)
  show ?thesis unfolding sortRegion_def index option.case Let_def region run by (cases "reg = []") (simp_all add: sorter_Nil)
qed

end

interpretation stable: line_sorter "sort_key trim_space"
  by unfold_locales simp_all

lemma contains_str_set: "contains_str p s \<Longrightarrow> set p \<subseteq> set s"
proof (induction p s rule: contains_str.induct)
  case (2 p c s)
  then show ?case by (auto simp: has_prefix_def dest: in_set_takeD) (metis in_set_takeD set_ConsD)
qed simp

lemma trim_space_tab: "trim_space (CHR 0x09 # s) = trim_space s"
  by (simp add: trim_space_def trim_left.simps [of "CHR 0x09 # s"] lead_space_def ascii_space_def byte_def)

abbreviation module_import :: "string \<Rightarrow> bool" where
  "module_import \<equiv> contains_str (CHR 0x22 # ''github.com/MrEthical07/superapi/internal/modules/'')"

abbreviation module_entry :: "string \<Rightarrow> bool" where
  "module_entry l \<equiv> has_suffix ''.New(),'' (trim_space l)"

lemma entry_line_facts:
  assumes "list_all input_char pkg"
  shows "trim_space (entry_line pkg) = pkg @ ''.New(),''" "module_entry (entry_line pkg)" "CHR '' '' \<notin> set (entry_line pkg)" "CHR 0x0A \<notin> set (entry_line pkg)"
proof -
  have "visible (pkg @ ''.New(),'')" using input_visible [OF assms] by (simp add: visible_def byte_def)
  then show trim: "trim_space (entry_line pkg) = pkg @ ''.New(),''" by (simp add: entry_line_def trim_space_tab)
  show "module_entry (entry_line pkg)" unfolding trim by (simp add: has_suffix_def has_prefix_def)
  show "CHR '' '' \<notin> set (entry_line pkg)" "CHR 0x0A \<notin> set (entry_line pkg)"
    using assms by (auto simp: entry_line_def list_all_iff input_char_def byte_def)
qed

lemma import_line_facts:
  assumes "list_all input_char pkg" and "path = ''github.com/MrEthical07/superapi/internal/modules/'' @ pkg"
  shows "trim_space (import_line path) = in_quotes path" "module_import (import_line path)" "CHR '' '' \<notin> set (import_line path)" "CHR 0x0A \<notin> set (import_line path)"
proof -
  have "visible (in_quotes path)" using input_visible [OF assms(1)] by (simp add: visible_def byte_def assms(2))
  then show "trim_space (import_line path) = in_quotes path" by (simp add: import_line_def trim_space_tab)
  have "has_prefix (CHR 0x22 # ''github.com/MrEthical07/superapi/internal/modules/'') (drop 1 (import_line path))"
    by (simp add: import_line_def assms(2) has_prefix_def)
  then show "module_import (import_line path)" by (rule contains_strI)
  show "CHR '' '' \<notin> set (import_line path)" "CHR 0x0A \<notin> set (import_line path)"
    using assms(1) by (auto simp: import_line_def list_all_iff input_char_def byte_def assms(2))
qed
text \<open>The parts of a registry: the imports right before their marker, the entries right before theirs, and the rest.\<close>

definition registry_layout :: "string \<Rightarrow> string list \<Rightarrow> string list \<Rightarrow> string \<Rightarrow> string list \<Rightarrow> string list \<Rightarrow> string \<Rightarrow> string list \<Rightarrow> bool" where
  "registry_layout content before imps im mid ents lm after \<longleftrightarrow>
     split_on (CHR 0x0A) content = before @ imps @ im # mid @ ents @ lm # after \<and>
     contains_str registryImportsMarker im \<and> (\<forall>l \<in> set (before @ imps). \<not> contains_str registryImportsMarker l) \<and>
     contains_str registryListMarker lm \<and> (\<forall>l \<in> set (before @ imps @ im # mid @ ents). \<not> contains_str registryListMarker l) \<and>
     (\<forall>l \<in> set imps. module_import l) \<and> (before = [] \<or> \<not> module_import (last before)) \<and>
     (\<forall>l \<in> set ents. module_entry l) \<and> \<not> module_entry (last (im # mid))"

lemma containsTrimmedLine_iff: "containsTrimmedLine ls t \<longleftrightarrow> (\<exists>l \<in> set ls. trim_space l = trim_space t)"
  by (auto simp: containsTrimmedLine_def list_ex_iff)

lemma no_marker: "CHR '' '' \<notin> set l \<Longrightarrow> \<not> contains_str registryImportsMarker l \<and> \<not> contains_str registryListMarker l"
  using contains_str_set by fastforce

lemma insertLine_at: "insertLine (xs @ ys) (length xs) l = xs @ l # ys"
  by (simp add: insertLine_def)

text \<open>The lines after the insertions.\<close>

lemma insert_entries_exact:
  fixes imp entry :: string
  defines "missing \<equiv> \<lambda>ls t. if containsTrimmedLine ls t then [] else [t]"
  assumes "ls = before @ imps @ im # mid @ ents @ lm # after" and "trim_space imp \<noteq> trim_space entry"
  shows "insert_entries ls imp entry (length (before @ imps)) (length (before @ imps @ im # mid @ ents)) =
    (before @ (imps @ missing ls imp) @ im # mid @ (ents @ missing ls entry) @ lm # after, \<not> containsTrimmedLine ls imp \<or> \<not> containsTrimmedLine ls entry)"
proof -
  define ls1 where "ls1 = before @ (imps @ missing ls imp) @ im # mid @ ents @ lm # after"
  have first: "(if \<not> containsTrimmedLine ls imp then insertLine ls (length (before @ imps)) imp else ls) = ls1"
    using insertLine_at [of "before @ imps" "im # mid @ ents @ lm # after" imp] by (simp add: ls1_def missing_def assms(2))
  have found: "containsTrimmedLine ls1 entry = containsTrimmedLine ls entry"
    using assms(3) by (auto simp: containsTrimmedLine_iff ls1_def missing_def assms(2))
  have place: "insertLine ls1 (if \<not> containsTrimmedLine ls imp \<and> length (before @ imps @ im # mid @ ents) \<ge> length (before @ imps) + 1
      then length (before @ imps @ im # mid @ ents) + 1 else length (before @ imps @ im # mid @ ents)) entry =
    before @ (imps @ missing ls imp) @ im # mid @ (ents @ [entry]) @ lm # after"
    using insertLine_at [of "before @ (imps @ missing ls imp) @ im # mid @ ents" "lm # after" entry]
    by (cases "containsTrimmedLine ls imp") (simp_all add: ls1_def missing_def)
  show ?thesis unfolding insert_entries_def Let_def first found place by (auto simp: missing_def ls1_def)
qed

lemma UpdateRegistry_present:
  assumes "m \<in> set ls" "contains_str registryImportsMarker m" "m' \<in> set ls" "contains_str registryListMarker m'"
    and "containsTrimmedLine ls (import_line path)" "containsTrimmedLine ls (entry_line pkg)" and "split_on (CHR 0x0A) content = ls"
  shows "\<exists>updated. UpdateRegistry sorter content path pkg = Some (updated, False)"
proof -
  have "indexOfLineContaining ls needle \<noteq> None" if "m \<in> set ls" "contains_str needle m" for needle m
    using that by (induction ls) auto
  then obtain i j where "indexOfLineContaining ls registryImportsMarker = Some i" "indexOfLineContaining ls registryListMarker = Some j"
    using assms(1-4) by blast
  with assms(5-7) show ?thesis by (simp add: UpdateRegistry_def Let_def insert_entries_def)
qed

lemma registry_lines:
  assumes "line_sorter sorter" and "list_all input_char pkg" and "pkg \<noteq> []" and "registry_layout content before imps im mid ents lm after"
    and "path = ''github.com/MrEthical07/superapi/internal/modules/'' @ pkg"
  defines "add \<equiv> \<lambda>t. if containsTrimmedLine (split_on (CHR 0x0A) content) t then [] else [t]"
  defines "new \<equiv> before @ sorter (imps @ add (import_line path)) @ im # mid @ sorter (ents @ add (entry_line pkg)) @ lm # after"
  shows "UpdateRegistry sorter content path pkg = Some (join [CHR 0x0A] new,
      if content = join [CHR 0x0A] new then False else add (import_line path) \<noteq> [] \<or> add (entry_line pkg) \<noteq> [])"
    and "split_on (CHR 0x0A) (join [CHR 0x0A] new) = new"
proof -
  let ?imp = "import_line path" and ?ent = "entry_line pkg" and ?ls = "split_on (CHR 0x0A) content"
  let ?imps = "imps @ add ?imp" and ?ents = "ents @ add ?ent"
  note imp = import_line_facts [OF assms(2,5)] and ent = entry_line_facts [OF assms(2)]
  have lay: "?ls = before @ imps @ im # mid @ ents @ lm # after" "contains_str registryImportsMarker im" "contains_str registryListMarker lm"
    "\<forall>l \<in> set (before @ imps). \<not> contains_str registryImportsMarker l" "\<forall>l \<in> set (before @ imps @ im # mid @ ents). \<not> contains_str registryListMarker l"
    "\<forall>l \<in> set imps. module_import l" "before = [] \<or> \<not> module_import (last before)" "\<forall>l \<in> set ents. module_entry l" "\<not> module_entry (last (im # mid))"
    using assms(4) unfolding registry_layout_def by blast+
  have "hd pkg \<noteq> CHR 0x22" using assms(2,3) by (cases pkg) (auto simp: input_char_def byte_def)
  then have differ: "trim_space ?imp \<noteq> trim_space ?ent" using assms(3) imp(1) ent(1) by (cases pkg) auto
  have at: "indexOfLineContaining ?ls registryImportsMarker = Some (length (before @ imps))"
    "indexOfLineContaining ?ls registryListMarker = Some (length (before @ imps @ im # mid @ ents))"
    using indexOfLineContaining_first [OF lay(4,2)] indexOfLineContaining_first [OF lay(5,3)] by (simp_all add: lay(1))
  have ins: "insert_entries ?ls ?imp ?ent (length (before @ imps)) (length (before @ imps @ im # mid @ ents)) =
      (before @ ?imps @ im # mid @ ?ents @ lm # after, add ?imp \<noteq> [] \<or> add ?ent \<noteq> [])"
    using insert_entries_exact [OF lay(1) differ] by (simp add: add_def)
  have plain: "\<forall>l \<in> set (before @ ?imps). \<not> contains_str registryImportsMarker l" "\<forall>l \<in> set (before @ ?imps @ im # mid @ ?ents). \<not> contains_str registryListMarker l"
    using lay(4,5) no_marker [OF imp(3)] no_marker [OF ent(3)] by (auto simp: add_def)
  have kinds: "\<forall>l \<in> set ?imps. module_import l" "\<forall>l \<in> set ?ents. module_entry l" using lay(6,8) imp(2) ent(2) by (auto simp: add_def)
  have sets: "set (sorter xs) = set xs" for xs by (rule line_sorter.set_sorter [OF assms(1)])
  have sort1: "sortRegion sorter (before @ ?imps @ im # mid @ ?ents @ lm # after) registryImportsMarker module_import = before @ sorter ?imps @ im # mid @ ?ents @ lm # after"
    by (rule line_sorter.sortRegion_exact [OF assms(1) plain(1) lay(2) kinds(1) lay(7)])
  have sort2: "sortRegion sorter (before @ sorter ?imps @ im # mid @ ?ents @ lm # after) registryListMarker module_entry = new"
    using line_sorter.sortRegion_exact [OF assms(1), of "before @ sorter ?imps @ im # mid" ?ents registryListMarker lm module_entry after] plain(2) lay(3,9) kinds(2)
    by (simp add: sets new_def)
  show "UpdateRegistry sorter content path pkg = Some (join [CHR 0x0A] new,
      if content = join [CHR 0x0A] new then False else add ?imp \<noteq> [] \<or> add ?ent \<noteq> [])"
    unfolding UpdateRegistry_def Let_def at option.case prod.case ins sort1 sort2 ..
  have "\<forall>l \<in> set ?ls. CHR 0x0A \<notin> set l" using split_on_set by blast
  then have "\<forall>l \<in> set new. CHR 0x0A \<notin> set l" using imp(4) ent(4) unfolding new_def lay(1) by (auto simp: sets add_def split: if_splits)
  then show "split_on (CHR 0x0A) (join [CHR 0x0A] new) = new" by (intro split_on_join) (auto simp: new_def)
qed

text \<open>
  The registry after an update. In a registry with its two markers, the import of the module and its entry are added to the run of
  module imports and the run of entries right before the markers unless a line says the same already; both runs are then sorted, nothing is lost or duplicated
  and every other line stays in its place. A change is reported if a line was added, and a second update adds nothing.
\<close>

theorem registry_updated:
  assumes "line_sorter sorter" and "list_all input_char pkg" and "pkg \<noteq> []" and "registry_layout content before imps im mid ents lm after"
    and "path = ''github.com/MrEthical07/superapi/internal/modules/'' @ pkg"
  shows "\<exists>imps' ents' updated changed. UpdateRegistry sorter content path pkg = Some (updated, changed) \<and>
    split_on (CHR 0x0A) updated = before @ imps' @ im # mid @ ents' @ lm # after \<and>
    mset imps' = mset imps + (if containsTrimmedLine (split_on (CHR 0x0A) content) (import_line path) then {#} else {#import_line path#}) \<and>
    mset ents' = mset ents + (if containsTrimmedLine (split_on (CHR 0x0A) content) (entry_line pkg) then {#} else {#entry_line pkg#}) \<and>
    sorted (map trim_space imps') \<and> sorted (map trim_space ents') \<and>
    (changed \<longleftrightarrow> length (split_on (CHR 0x0A) updated) > length (split_on (CHR 0x0A) content)) \<and>
    containsTrimmedLine (split_on (CHR 0x0A) updated) (import_line path) \<and> containsTrimmedLine (split_on (CHR 0x0A) updated) (entry_line pkg) \<and>
    (\<exists>updated'. UpdateRegistry sorter updated path pkg = Some (updated', False))"
proof -
  let ?ls = "split_on (CHR 0x0A) content"
  define add where "add t = (if containsTrimmedLine ?ls t then [] else [t])" for t
  define imps' ents' where "imps' = sorter (imps @ add (import_line path))" and "ents' = sorter (ents @ add (entry_line pkg))"
  define new where "new = before @ imps' @ im # mid @ ents' @ lm # after"
  note facts = registry_lines [OF assms, folded add_def, folded imps'_def ents'_def, folded new_def]
  have lay: "?ls = before @ imps @ im # mid @ ents @ lm # after" "contains_str registryImportsMarker im" "contains_str registryListMarker lm"
    using assms(4) unfolding registry_layout_def by blast+
  have perms: "mset imps' = mset imps + mset (add (import_line path))" "mset ents' = mset ents + mset (add (entry_line pkg))"
    unfolding imps'_def ents'_def by (simp_all add: line_sorter.perm [OF assms(1)])
  then have lens: "length imps' = length imps + length (add (import_line path))" "length ents' = length ents + length (add (entry_line pkg))"
    by (metis length_append mset_append size_mset)+
  then have longer: "length new > length ?ls \<longleftrightarrow> add (import_line path) \<noteq> [] \<or> add (entry_line pkg) \<noteq> []" by (auto simp: new_def lay(1))
  have "set imps' = set imps \<union> set (add (import_line path))" "set ents' = set ents \<union> set (add (entry_line pkg))"
    using perms by (metis mset_append set_append set_mset_mset)+
  then have has: "containsTrimmedLine new (import_line path)" "containsTrimmedLine new (entry_line pkg)"
    by (auto simp: containsTrimmedLine_iff new_def add_def lay(1))
  have again: "\<exists>updated'. UpdateRegistry sorter (join [CHR 0x0A] new) path pkg = Some (updated', False)"
    by (rule UpdateRegistry_present [OF _ lay(2) _ lay(3) has facts(2)]) (simp_all add: new_def)
  have same: "content = join [CHR 0x0A] new \<Longrightarrow> \<not> length new > length ?ls" using facts(2) by simp
  have flag: "(if content = join [CHR 0x0A] new then False else add (import_line path) \<noteq> [] \<or> add (entry_line pkg) \<noteq> []) \<longleftrightarrow> length new > length ?ls"
    using longer same by auto
  have sorted: "sorted (map trim_space imps')" "sorted (map trim_space ents')"
    unfolding imps'_def ents'_def by (rule line_sorter.ordered [OF assms(1)])+
  show ?thesis
    using facts(1) [unfolded flag] facts(2) perms sorted has again
    by (intro exI [of _ imps'] exI [of _ ents'] exI [of _ "join [CHR 0x0A] new"] exI) (auto simp: new_def add_def)
qed

definition sample_modules_go :: "string list" where
  "sample_modules_go = [''import ('', import_line ''github.com/MrEthical07/superapi/internal/modules/health'', CHR 0x09 # registryImportsMarker, '')'',
     ''var all = []Module{'', entry_line ''health'', CHR 0x09 # CHR 0x09 # registryListMarker, ''}'']"

theorem registry_updated_witness:
  "\<exists>updated changed. UpdateRegistry (sort_key trim_space) (join [CHR 0x0A] sample_modules_go) ''github.com/MrEthical07/superapi/internal/modules/tasks'' ''tasks'' =
     Some (updated, changed) \<and> containsTrimmedLine (split_on (CHR 0x0A) updated) (entry_line ''tasks'')"
proof -
  have "registry_layout (join [CHR 0x0A] sample_modules_go) [''import (''] [import_line ''github.com/MrEthical07/superapi/internal/modules/health'']
     (CHR 0x09 # registryImportsMarker) ['')'', ''var all = []Module{''] [entry_line ''health''] (CHR 0x09 # CHR 0x09 # registryListMarker) [''}'']" by code_simp
  moreover have "list_all input_char ''tasks''" by code_simp
  ultimately show ?thesis
    using registry_updated [OF stable.line_sorter_axioms, of "''tasks''" "join [CHR 0x0A] sample_modules_go"] by fastforce
qed

section \<open>What a generation does\<close>

lemma map_of_write_file: "map_of (write_file rel c fs) r = (if r = rel then Some c else map_of fs r)"
  by (auto simp: write_file_def map_of_put_file map_add_def split: option.splits)

lemma map_of_write_all:
  "distinct (map fst new) \<Longrightarrow>
     map_of (write_all dir new fs) r = (case map_of (map (\<lambda>(n, c). (dir @ ''/'' @ n, c)) new) r of Some c \<Rightarrow> Some c | None \<Rightarrow> map_of fs r)"
proof (induction dir new fs rule: write_all.induct)
  case (2 dir name content rest fs)
  have "map_of (map (\<lambda>(n, c). (dir @ ''/'' @ n, c)) rest) (dir @ ''/'' @ name) = None"
    using 2(2) by (force simp: map_of_eq_None_iff)
  with 2 show ?case by (auto simp: map_of_write_file split: option.splits)
qed simp

lemma map_of_RemoveAll: "map_of (RemoveAll p fs) r = (if under r p then None else map_of fs r)"
  unfolding RemoveAll_def using map_of_filter_path [of "\<lambda>rel. \<not> under rel p" fs r] by simp

lemma RenderFiles_distinct: "distinct (map fst (RenderFiles extensions cfg))"
  by (cases "to_UseDB (tg_Options cfg)") (simp_all add: RenderFiles_def)

lemma rendered_under: "map_of (map (\<lambda>(n, c). (dir @ ''/'' @ n, c)) new) r = Some c \<Longrightarrow> under r dir"
  by (drule map_of_SomeD) (auto simp: under_def has_prefix_def)

text \<open>The files of the module, as they should be.\<close>

definition module_files :: "Extension list \<Rightarrow> TemplateConfig \<Rightarrow> (string \<times> string) list" where
  "module_files extensions cfg = map (\<lambda>(n, c). (module_dir (tg_Spec cfg) @ ''/'' @ n, c)) (RenderFiles extensions cfg)"

lemma written_files:
  "map_of (write_all (module_dir (tg_Spec cfg)) (RenderFiles extensions cfg) (RemoveAll (module_dir (tg_Spec cfg)) fs)) r =
     (if under r (module_dir (tg_Spec cfg)) then map_of (module_files extensions cfg) r else map_of fs r)"
  using rendered_under [of "module_dir (tg_Spec cfg)" "RenderFiles extensions cfg" r]
  by (auto simp: map_of_write_all [OF RenderFiles_distinct] map_of_RemoveAll module_files_def split: option.splits)

lemma has_prefix_split: "has_prefix p r \<Longrightarrow> \<exists>s. r = p @ s"
  unfolding has_prefix_def by (metis append_take_drop_id)

lemma under_split: "under r p \<Longrightarrow> r = p \<or> (\<exists>s. r = p @ CHR ''/'' # s)"
  using has_prefix_split [of "p @ ''/''" r] by (auto simp: under_def)

text \<open>What lies outside a module directory.\<close>

lemma outside_module:
  assumes "list_all (\<lambda>c. input_char c) pkg"
  shows "\<not> under registryPath (''internal/modules/'' @ pkg)" "\<not> under ''go.mod'' (''internal/modules/'' @ pkg)"
    "\<not> under (migrationsDir @ s) (''internal/modules/'' @ pkg)"
proof -
  have no: "CHR ''.'' \<notin> set pkg" using assms by (auto simp: list_all_iff input_char_def byte_def)
  show "\<not> under registryPath (''internal/modules/'' @ pkg)"
  proof
    assume "under registryPath (''internal/modules/'' @ pkg)"
    then consider "''modules.go'' = pkg" | s where "''modules.go'' = pkg @ CHR ''/'' # s" by (auto simp: registryPath_def dest!: under_split)
    then show False
    proof cases
      case 1
      with no show False by auto
    next
      case 2
      then have "CHR ''/'' \<in> set ''modules.go''" by (metis in_set_conv_decomp)
      then show False by simp
    qed
  qed
  show "\<not> under ''go.mod'' (''internal/modules/'' @ pkg)" "\<not> under (migrationsDir @ s) (''internal/modules/'' @ pkg)" by (auto simp: migrationsDir_def dest!: under_split)
qed

text \<open>The registry that a successful registration writes.\<close>

definition registry_written :: "(string list \<Rightarrow> string list) \<Rightarrow> ModuleSpec \<Rightarrow> files \<Rightarrow> string \<Rightarrow> bool" where
  "registry_written sorter spec fs updated \<longleftrightarrow> (\<exists>goMod modulePath content changed. map_of fs ''go.mod'' = Some goMod \<and> parseModulePath goMod = Inr modulePath \<and>
     map_of fs registryPath = Some content \<and>
     UpdateRegistry sorter content (modulePath @ ''/internal/modules/'' @ sp_Package spec) (sp_Package spec) = Some (updated, changed))"

lemma register_module_effect:
  assumes "register_module sorter spec fs = (err, fs')"
  shows "(err = None \<longrightarrow> (\<exists>updated. registry_written sorter spec fs updated \<and> fs' = write_file registryPath updated fs)) \<and> (err \<noteq> None \<longrightarrow> fs' = fs) \<and>
    (err = None \<longleftrightarrow> (\<exists>updated. registry_written sorter spec fs updated)) \<and> err \<noteq> Some (ScaffoldExists p)"
proof -
  have "module_line ls \<noteq> Inl (ScaffoldExists p)" for ls by (induction ls) (auto simp: Let_def)
  then have "parseModulePath s \<noteq> Inl (ScaffoldExists p)" for s by (simp add: parseModulePath_def)
  with assms show ?thesis unfolding register_module_def registry_written_def by (auto split: option.splits sum.splits prod.splits)
qed
lemma Normalize_chars:
  assumes "NormalizeName name = Inr spec"
  shows "list_all input_char (sp_Package spec)" "list_all input_char (sp_RoutePath spec)" "sp_Package spec \<noteq> []"
proof -
  let ?ws = "splitParts (trim_space name)"
  have ws: "\<forall>w \<in> set ?ws. name_word w" "?ws \<noteq> []" "sp_Package spec = join ''_'' ?ws" "sp_RoutePath spec = join ''-'' ?ws"
    using assms splitParts_words(2) [of "trim_space name"] by (auto simp: NormalizeName_iff Let_def)
  then show "list_all input_char (sp_Package spec)" "list_all input_char (sp_RoutePath spec)" using input_join [OF ws(1)] by auto
  show "sp_Package spec \<noteq> []" using join_words(1) [OF ws(1,2)] ws(3) by simp
qed

lemma input_plain: "list_all input_char s \<Longrightarrow> CHR ''/'' \<notin> set s"
  by (auto simp: list_all_iff input_char_def byte_def)

lemma path_exists_map_of: "path_exists fs p \<longleftrightarrow> (\<exists>r. map_of fs r \<noteq> None \<and> under r p)"
  unfolding path_exists_iff map_of_eq_None_iff by force

lemma dir_entries_cong:
  assumes "\<And>r. has_prefix dir r \<Longrightarrow> map_of fs r = None \<longleftrightarrow> map_of fs' r = None"
  shows "dir_entries dir fs = dir_entries dir fs'"
proof -
  have "set (List.map_filter (\<lambda>(rel, c). if has_prefix dir rel then Some (f rel) else None) fs) = f ` {r. has_prefix dir r \<and> map_of fs r \<noteq> None}"
    for f :: "string \<Rightarrow> string" and fs :: files unfolding map_of_eq_None_iff by (force simp: map_filter_def split: if_splits)
  moreover have "{r. has_prefix dir r \<and> map_of fs r \<noteq> None} = {r. has_prefix dir r \<and> map_of fs' r \<noteq> None}" by (intro Collect_cong conj_cong refl arg_cong [where f = Not] assms)
  ultimately show ?thesis unfolding dir_entries_def by (simp only: sorted_list_of_set_sort_remdups [symmetric])
qed

text \<open>A scaffold depends only on the files under \<open>db/migrations\<close>.\<close>

lemma scaffold_cong:
  assumes "\<And>s. map_of fs (migrationsDir @ s) = map_of fs' (migrationsDir @ s)"
  shows "scaffold_path fs route = scaffold_path fs' route" and "path_exists fs (migrationsDir @ p) = path_exists fs' (migrationsDir @ p)"
proof -
  have "dir_entries migrationsDir fs = dir_entries migrationsDir fs'"
    using assms by (intro dir_entries_cong) (metis has_prefix_split)
  then show "scaffold_path fs route = scaffold_path fs' route"
    by (simp add: scaffold_path_def migration_number_def findExistingModuleMigration_def nextMigrationNumber_def Let_def)
  have "map_of fs r = map_of fs' r" if "under r (migrationsDir @ p)" for r
    using under_split [OF that] assms [of p] assms [of "p @ CHR ''/'' # s" for s] by auto
  then show "path_exists fs (migrationsDir @ p) = path_exists fs' (migrationsDir @ p)" unfolding path_exists_map_of by metis
qed

lemma scaffold_path_eq: "\<exists>s. scaffold_path fs route = migrationsDir @ s"
  by (auto simp: scaffold_path_def)

text \<open>The scaffold of a module: its paths and contents.\<close>

definition scaffold_files :: "files \<Rightarrow> ModuleSpec \<Rightarrow> (string \<times> string) list" where
  "scaffold_files fs spec = [(scaffold_path fs (sp_RoutePath spec) @ ''.up.sql'', up_content (sp_Package spec)),
     (scaffold_path fs (sp_RoutePath spec) @ ''.down.sql'', down_content (sp_Package spec))]"

lemma scaffold_effect:
  "generateMigrationScaffold spec force fs = (err, fs') \<Longrightarrow>
     err = (if \<not> force \<and> path_exists fs (scaffold_path fs (sp_RoutePath spec) @ ''.up.sql'')
            then Some (ScaffoldExists (scaffold_path fs (sp_RoutePath spec) @ ''.up.sql'')) else None) \<and>
     map_of fs' r = (case (if err = None then map_of (scaffold_files fs spec) r else None) of Some c \<Rightarrow> Some c | None \<Rightarrow> map_of fs r)"
  by (auto simp: generateMigrationScaffold_def Let_def scaffold_files_def map_of_write_file split: if_splits)

text \<open>
  What the generator does. An existing module is refused, without a change, unless it is to be overwritten. Otherwise the directory of the
  module holds exactly the rendered files. If the module path can be read and the registry has its markers, the registry is updated, and
  the migration scaffold, where one is asked for, written unless it exists; if not, an error is reported. Every other file is as it was.
\<close>

theorem module_generated:
  assumes "NormalizeName name = Inr (tg_Spec cfg)" and "GenerateModule sorter extensions cfg force fs = (err, fs')"
  shows "if path_exists fs (module_dir (tg_Spec cfg)) \<and> \<not> force then err = Some (ModuleExists (module_dir (tg_Spec cfg))) \<and> fs' = fs
    else (\<forall>r. under r (module_dir (tg_Spec cfg)) \<longrightarrow> map_of fs' r = map_of (module_files extensions cfg) r) \<and>
      (if \<exists>updated. registry_written sorter (tg_Spec cfg) fs updated
       then err = (if to_CreateMigration (tg_Options cfg) \<and> \<not> force \<and> path_exists fs (scaffold_path fs (sp_RoutePath (tg_Spec cfg)) @ ''.up.sql'')
                   then Some (ScaffoldExists (scaffold_path fs (sp_RoutePath (tg_Spec cfg)) @ ''.up.sql'')) else None) \<and>
         (\<exists>updated. registry_written sorter (tg_Spec cfg) fs updated \<and> map_of fs' registryPath = Some updated) \<and>
         (\<forall>r. \<not> under r (module_dir (tg_Spec cfg)) \<and> r \<noteq> registryPath \<longrightarrow>
            map_of fs' r = (case (if to_CreateMigration (tg_Options cfg) \<and> err = None then map_of (scaffold_files fs (tg_Spec cfg)) r else None) of
              Some c \<Rightarrow> Some c | None \<Rightarrow> map_of fs r))
       else err \<noteq> None \<and> (\<forall>r. \<not> under r (module_dir (tg_Spec cfg)) \<longrightarrow> map_of fs' r = map_of fs r))"
proof (cases "path_exists fs (module_dir (tg_Spec cfg)) \<and> \<not> force")
  case True
  with assms(2) show ?thesis by (simp add: GenerateModule_def Let_def)
next
  case False
  let ?spec = "tg_Spec cfg" and ?dir = "module_dir (tg_Spec cfg)"
  define fs0 where "fs0 = write_all ?dir (RenderFiles extensions cfg) (RemoveAll ?dir fs)"
  obtain e fs1 where reg: "register_module sorter ?spec fs0 = (e, fs1)" by fastforce
  with assms(2) False have run: "(err, fs') = (if e = None \<and> to_CreateMigration (tg_Options cfg) then generateMigrationScaffold ?spec force fs1 else (e, fs1))"
    by (auto simp: GenerateModule_def Let_def fs0_def [symmetric] split: option.splits)
  have dir: "?dir = ''internal/modules/'' @ sp_Package ?spec" by (simp add: module_dir_def)
  note outside = outside_module [OF Normalize_chars(1) [OF assms(1)], folded dir]
  have fs0: "map_of fs0 r = (if under r ?dir then map_of (module_files extensions cfg) r else map_of fs r)" for r
    unfolding fs0_def by (rule written_files)
  have same: "registry_written sorter ?spec fs0 = registry_written sorter ?spec fs" by (auto simp: fun_eq_iff registry_written_def fs0 outside)
  note effect = register_module_effect [OF reg, unfolded same]
  show ?thesis
  proof (cases e)
    case (Some e')
    with run effect have "err \<noteq> None" "fs' = fs0" "\<not> (\<exists>updated. registry_written sorter ?spec fs updated)" by auto
    with False show ?thesis by (auto simp: fs0)
  next
    case None
    with effect obtain u where u: "registry_written sorter ?spec fs u" "fs1 = write_file registryPath u fs0" by blast
    have fs1: "map_of fs1 r = (if r = registryPath then Some u else map_of fs0 r)" for r by (simp add: u(2) map_of_write_file)
    have other: "migrationsDir @ s \<noteq> registryPath" for s by (simp add: migrationsDir_def registryPath_def)
    have "map_of fs1 (migrationsDir @ s) = map_of fs (migrationsDir @ s)" for s by (simp add: fs1 fs0 outside(3) other)
    note scaffold = scaffold_cong [OF this]
    obtain p where p: "scaffold_path fs (sp_RoutePath ?spec) = migrationsDir @ p" using scaffold_path_eq by blast
    have files: "scaffold_files fs1 ?spec = scaffold_files fs ?spec" by (simp add: scaffold_files_def scaffold(1))
    have only: "map_of (scaffold_files fs ?spec) r = Some c \<Longrightarrow> \<not> under r ?dir \<and> r \<noteq> registryPath" for r c
      using outside(3) other by (auto simp: scaffold_files_def p split: if_splits)
    show ?thesis
    proof (cases "to_CreateMigration (tg_Options cfg)")
      case True
      note made = scaffold_effect [OF run [unfolded None, simplified, simplified True, simplified, symmetric], unfolded files scaffold(1)]
      have ex: "path_exists fs1 (scaffold_path fs (sp_RoutePath ?spec) @ ''.up.sql'') = path_exists fs (scaffold_path fs (sp_RoutePath ?spec) @ ''.up.sql'')"
        using scaffold(2) [of "p @ ''.up.sql''"] by (simp add: p)
      have fs': "map_of fs' r = (case (if err = None then map_of (scaffold_files fs ?spec) r else None) of Some c \<Rightarrow> Some c | None \<Rightarrow> map_of fs1 r)" for r
        using made by blast
      have "map_of fs' r = map_of (module_files extensions cfg) r" if "under r ?dir" for r
        using that only [of r] outside(1) by (auto simp: fs' fs1 fs0 split: option.splits)
      moreover have "map_of fs' registryPath = Some u" using only [of registryPath] by (auto simp: fs' fs1 split: option.splits)
      moreover have "map_of fs' r = (case (if err = None then map_of (scaffold_files fs ?spec) r else None) of Some c \<Rightarrow> Some c | None \<Rightarrow> map_of fs r)"
        if "\<not> under r ?dir" "r \<noteq> registryPath" for r using that by (simp add: fs' fs1 fs0 split: option.split)
      ultimately show ?thesis using False True u(1) made [unfolded ex] by auto
    next
      case no: False
      with run None have "err = None" "fs' = fs1" by simp_all
      with False no u(1) outside(1) show ?thesis by (auto simp: fs1 fs0)
    qed
  qed
qed
definition tasks_config :: TemplateConfig where
  "tasks_config = \<lparr>tg_Spec = \<lparr>sp_RawName = ''tasks'', sp_Package = ''tasks'', sp_RoutePath = ''tasks''\<rparr>,
     tg_Options = \<lparr>to_UseDB = True, to_UseAuth = True, to_UseRateLimit = False, to_UseCache = True, to_CreateMigration = True, to_Extra = (\<lambda>_. False)\<rparr>\<rparr>"

definition sample_workspace :: files where
  "sample_workspace = [(''go.mod'', ''module example.com/app''), (''internal/modules/modules.go'', join [CHR 0x0A] sample_modules_go),
     (''db/migrations/000001_init.up.sql'', ''-- init'')]"

theorem module_generated_witness:
  "map_of (snd (GenerateModule (sort_key trim_space) registered_extensions tasks_config False sample_workspace)) ''internal/modules/tasks/db/schema.sql'' =
     Some (renderModuleSchema (tg_Spec tasks_config)) \<and>
   map_of (snd (GenerateModule (sort_key trim_space) registered_extensions tasks_config False sample_workspace)) ''go.mod'' = Some ''module example.com/app''"
proof -
  let ?run = "GenerateModule (sort_key trim_space) registered_extensions tasks_config False sample_workspace"
  have name: "NormalizeName ''tasks'' = Inr (tg_Spec tasks_config)" by code_simp
  have new: "\<not> path_exists sample_workspace (module_dir (tg_Spec tasks_config))" by code_simp
  have in_dir: "under ''internal/modules/tasks/db/schema.sql'' (module_dir (tg_Spec tasks_config))" by code_simp
  have out: "\<not> under ''go.mod'' (module_dir (tg_Spec tasks_config))" "''go.mod'' \<noteq> registryPath" by code_simp+
  have scaffold: "map_of (scaffold_files sample_workspace (tg_Spec tasks_config)) ''go.mod'' = None" by code_simp
  have rendered: "map_of (module_files registered_extensions tasks_config) ''internal/modules/tasks/db/schema.sql'' = Some (renderModuleSchema (tg_Spec tasks_config))"
    by (simp add: module_files_def module_dir_def RenderFiles_def tasks_config_def)
  have go: "map_of sample_workspace ''go.mod'' = Some ''module example.com/app''" by code_simp
  from module_generated [OF name, of "sort_key trim_space" registered_extensions False sample_workspace "fst ?run" "snd ?run"] new
  show ?thesis using in_dir out rendered scaffold go by (auto split: if_splits)
qed

section \<open>Numbers of migrations\<close>

lemma max_number_bound: "m \<le> max_number m names \<and> (\<forall>name \<in> set names. \<forall>k. name_number name = Some k \<longrightarrow> k \<le> max_number m names)"
proof (induction names arbitrary: m)
  case (Cons name names)
  show ?case
  proof (cases "name_number name")
    case None
    then show ?thesis using Cons [of m] by simp
  next
    case (Some k)
    then show ?thesis using Cons [of "max k m"] by (auto simp: max_def split: if_splits)
  qed
qed simp

lemma length_nat_dec: "n < 10 ^ Suc k \<Longrightarrow> length (nat_dec n) \<le> Suc k"
proof (induction k arbitrary: n)
  case (Suc k)
  then have "n div 10 < 10 ^ Suc k" by (simp add: less_mult_imp_div_less)
  with Suc show ?case by (subst nat_dec.simps) simp
qed (simp add: nat_dec.simps)

lemma dec_value_zeros: "dec_value 0 (replicate k (CHR ''0'') @ s) = dec_value 0 s"
  by (induction k) (simp_all add: byte_def)

lemma padded6_number:
  assumes "0 \<le> n" and "n \<le> 999999"
  shows "length (padded6 n) = 6" and "parse_int 64 (padded6 n) = Some n"
proof -
  have "nat n < 10 ^ Suc 5" using assms by simp
  from length_nat_dec [OF this] assms(1) show six: "length (padded6 n) = 6" by (simp add: padded6_def Let_def)
  have digits: "\<forall>c \<in> set (padded6 n). 48 \<le> byte c \<and> byte c \<le> 57"
    using assms(1) nat_dec_digits [of _ "nat n"] by (auto simp: padded6_def Let_def byte_def)
  obtain c s where cs: "padded6 n = c # s" using six by (cases "padded6 n") auto
  with digits have "c \<noteq> CHR ''-''" "c \<noteq> CHR ''+''" by (auto simp: byte_def)
  moreover have "dec_value 0 (padded6 n) = Some (nat n)" using assms(1) by (simp add: padded6_def Let_def dec_value_zeros dec_value_nat_dec)
  ultimately show "parse_int 64 (padded6 n) = Some n" using assms by (simp add: parse_int_def cs)
qed

text \<open>
  Without a migration whose name ends like that of the module, its scaffold gets a positive number above those of all migrations and, up to six
  digits, overwrites nothing.
\<close>

theorem scaffold_fresh:
  assumes "NormalizeName name = Inr spec" and "findExistingModuleMigration fs (sp_RoutePath spec) = 0" and "CHR ''/'' \<notin> set ext"
  shows "1 \<le> migration_number fs (sp_RoutePath spec) \<and>
    (\<forall>m \<in> set (dir_entries migrationsDir fs). \<forall>k. name_number m = Some k \<longrightarrow> k < migration_number fs (sp_RoutePath spec)) \<and>
    (migration_number fs (sp_RoutePath spec) \<le> 999999 \<longrightarrow> \<not> path_exists fs (scaffold_path fs (sp_RoutePath spec) @ ext))"
proof (intro conjI impI notI)
  let ?n = "migration_number fs (sp_RoutePath spec)"
  have n: "?n = max_number 0 (dir_entries migrationsDir fs) + 1" using assms(2) by (simp add: migration_number_def nextMigrationNumber_def)
  show one: "1 \<le> ?n" and above: "\<forall>m \<in> set (dir_entries migrationsDir fs). \<forall>k. name_number m = Some k \<longrightarrow> k < ?n"
    using max_number_bound [of 0 "dir_entries migrationsDir fs"] by (auto simp: n)
  assume small: "?n \<le> 999999" and exists: "path_exists fs (scaffold_path fs (sp_RoutePath spec) @ ext)"
  note digits = padded6_number [OF _ small]
  let ?name = "padded6 ?n @ ''_'' @ sp_RoutePath spec @ ext"
  have "CHR ''/'' \<notin> set (sp_RoutePath spec)" by (rule input_plain [OF Normalize_chars(2) [OF assms(1)]])
  moreover have "CHR ''/'' \<notin> set (padded6 ?n)" using one nat_dec_digits [of "CHR ''/''" "nat ?n"] by (auto simp: padded6_def Let_def byte_def)
  ultimately have plain: "CHR ''/'' \<notin> set ?name" using assms(3) by simp
  obtain r c where r: "(r, c) \<in> set fs" "under r (migrationsDir @ ?name)" using exists by (auto simp: path_exists_iff scaffold_path_def)
  then obtain rest where rest: "r = migrationsDir @ ?name \<or> r = migrationsDir @ ?name @ CHR ''/'' # rest" using under_split by fastforce
  have "hd (components (drop (length migrationsDir) r)) = ?name"
    using rest split_on_no_sep [OF plain] split_on_append [OF plain, of rest] by (auto simp: components_def)
  moreover have "has_prefix migrationsDir r" using rest by (auto simp: has_prefix_def)
  ultimately have "?name \<in> set (dir_entries migrationsDir fs)" using r(1) by (force simp: dir_entries_def map_filter_def)
  moreover have "name_number ?name = Some ?n" using digits one by (simp add: name_number_def)
  ultimately show False using above by blast
qed

theorem scaffold_fresh_witness:
  "migration_number [(''db/migrations/000002_tenancy.up.sql'', [])] ''project-tasks'' \<ge> 1 \<and>
   \<not> path_exists [(''db/migrations/000002_tenancy.up.sql'', [])] (scaffold_path [(''db/migrations/000002_tenancy.up.sql'', [])] ''project-tasks'' @ ''.down.sql'')"
proof -
  let ?spec = "\<lparr>sp_RawName = ''project_tasks'', sp_Package = ''project_tasks'', sp_RoutePath = ''project-tasks''\<rparr>"
    and ?fs = "[(''db/migrations/000002_tenancy.up.sql'', [])]"
  have "NormalizeName ''project_tasks'' = Inr ?spec" "findExistingModuleMigration ?fs (sp_RoutePath ?spec) = 0" "CHR ''/'' \<notin> set ''.down.sql''"
    "migration_number ?fs (sp_RoutePath ?spec) \<le> 999999" by code_simp+
  with scaffold_fresh [OF this(1-3)] show ?thesis by simp
qed

text \<open>
  A migration whose name merely ends like that of the module lends its number to the scaffold: next to \<open>000002_create_tasks.up.sql\<close> the
  scaffold of the module \<open>tasks\<close> is written as a second migration with number 2.
\<close>

theorem scaffold_number_clash:
  "scaffold_path [(''db/migrations/000002_create_tasks.up.sql'', [])] ''tasks'' = ''db/migrations/000002_tasks''"
  "\<not> path_exists [(''db/migrations/000002_create_tasks.up.sql'', [])] ''db/migrations/000002_tasks.up.sql''"
  by code_simp+

end
