(* ===== verification/Module_Sync.thy ===== *)
theory Module_Sync
  imports Module_Gen "HOL-Library.Product_Lexorder"
begin

text \<open>
  The synchronisation of the SQL files of the modules into \<open>db/\<close> (\<open>internal/devx/modulesync/sync.go\<close>): every module-local schema and
  query file is copied under a generated header, and copies whose source is gone are removed. Files are as in \<open>Template_Init\<close>, relative
  to the workspace; \<open>root\<close> is the path of the workspace, which appears in the headers.
\<close>

section \<open>Synchronisation\<close>

record SourceFile =
  sf_Module :: string
  sf_Source :: string
  sf_Target :: string

definition header_prefix :: string where
  "header_prefix = ''-- Code generated by modulesync. DO NOT EDIT.'' @ [CHR 0x0A] @ ''-- Source: ''"

definition modules_path :: string where "modules_path = ''internal/modules/''"
definition schema_path :: string where "schema_path = ''db/schema/''"
definition queries_path :: string where "queries_path = ''db/queries/''"

text \<open>\<open>filepath.Join\<close> of the workspace and a relative path.\<close>

definition full_path :: "string \<Rightarrow> string \<Rightarrow> string" where
  "full_path root rel = (if root = ''.'' then rel else root @ ''/'' @ rel)"

definition relativeSource :: "string \<Rightarrow> string" where
  "relativeSource path = (case bytes_Index ''/internal/modules/'' path of Some i \<Rightarrow> drop (i + 1) path | None \<Rightarrow> path)"

text \<open>The directories under \<open>internal/modules\<close>, in the order of \<open>os.ReadDir\<close>.\<close>

definition module_names :: "files \<Rightarrow> string list" where
  "module_names fs = sort (remdups (List.map_filter (\<lambda>(rel, c).
     if has_prefix modules_path rel \<and> CHR ''/'' \<in> set (drop (length modules_path) rel)
     then Some (hd (components (drop (length modules_path) rel))) else None) fs))"

definition module_source :: "files \<Rightarrow> string \<Rightarrow> string \<Rightarrow> string \<Rightarrow> SourceFile list" where
  "module_source fs name base dir =
     (let source = modules_path @ name @ ''/db/'' @ base in
      if path_exists fs source then [\<lparr>sf_Module = name, sf_Source = source, sf_Target = dir @ name @ ''.sql''\<rparr>] else [])"

definition module_sources :: "files \<Rightarrow> string \<Rightarrow> SourceFile list" where
  "module_sources fs name =
     (if \<not> path_exists fs (modules_path @ name @ ''/db'') then []
      else module_source fs name ''schema.sql'' schema_path @ module_source fs name ''queries.sql'' queries_path)"

definition collect_sources :: "files \<Rightarrow> SourceFile list" where
  "collect_sources fs = sort_key (\<lambda>f. (sf_Target f, sf_Source f)) (concat (map (module_sources fs) (module_names fs)))"

definition synced :: "string \<Rightarrow> string \<Rightarrow> string \<Rightarrow> string" where
  "synced root source content = header_prefix @ relativeSource (full_path root source) @ [CHR 0x0A, CHR 0x0A] @ content"

text \<open>\<open>Inl\<close>: the file that could not be read.\<close>

definition syncFile :: "string \<Rightarrow> SourceFile \<Rightarrow> files \<Rightarrow> string + files" where
  "syncFile root f fs =
     (case map_of fs (sf_Source f) of
        None \<Rightarrow> Inl (sf_Source f)
      | Some content \<Rightarrow> Inr (write_file (sf_Target f) (synced root (sf_Source f) content) fs))"

text \<open>The error, if any, and the repository.\<close>

fun sync_files :: "string \<Rightarrow> SourceFile list \<Rightarrow> files \<Rightarrow> string option \<times> files" where
  "sync_files root [] fs = (None, fs)"
| "sync_files root (f # rest) fs = (case syncFile root f fs of Inl e \<Rightarrow> (Some e, fs) | Inr fs1 \<Rightarrow> sync_files root rest fs1)"

fun drop_crlf :: "string \<Rightarrow> string" where
  "drop_crlf (a # b # s) = (if a = CHR 0x0D \<and> b = CHR 0x0A then b # drop_crlf s else a # drop_crlf (b # s))"
| "drop_crlf s = s"

text \<open>A file right in the directory that is not managed now but has the header of one that was.\<close>

definition stale :: "string \<Rightarrow> string list \<Rightarrow> string \<times> string \<Rightarrow> bool" where
  "stale dir managed f \<longleftrightarrow> has_prefix dir (fst f) \<and> CHR ''/'' \<notin> set (drop (length dir) (fst f)) \<and> fst f \<notin> set managed \<and>
     has_prefix header_prefix (drop_crlf (snd f))"

definition cleanupManaged :: "string \<Rightarrow> string list \<Rightarrow> files \<Rightarrow> files" where
  "cleanupManaged dir managed fs = filter (\<lambda>f. \<not> stale dir managed f) fs"

definition modulesync_Sync :: "string \<Rightarrow> files \<Rightarrow> string option \<times> files" where
  "modulesync_Sync root fs =
     (if \<not> list_ex (\<lambda>(rel, c). has_prefix modules_path rel) fs then (Some ''read modules directory'', fs)
      else (let sources = collect_sources fs; managed = map sf_Target sources in
        case sync_files root sources fs of
          (Some e, fs1) \<Rightarrow> (Some e, fs1)
        | (None, fs1) \<Rightarrow> (None, cleanupManaged queries_path managed (cleanupManaged schema_path managed fs1))))"

section \<open>Sources and targets\<close>

lemma set_module_names:
  "set (module_names fs) = (\<lambda>r. hd (components (drop (length modules_path) r))) `
     {r. has_prefix modules_path r \<and> CHR ''/'' \<in> set (drop (length modules_path) r) \<and> map_of fs r \<noteq> None}"
  unfolding module_names_def map_of_eq_None_iff by (force simp: map_filter_def split: if_splits)

text \<open>Sources lie under \<open>internal/modules/\<close> and determine, and are determined by, their targets under \<open>db/\<close>.\<close>

definition source_of :: "string \<Rightarrow> bool \<Rightarrow> SourceFile" where
  "source_of name schema = \<lparr>sf_Module = name, sf_Source = modules_path @ name @ (if schema then ''/db/schema.sql'' else ''/db/queries.sql''),
     sf_Target = (if schema then schema_path else queries_path) @ name @ ''.sql''\<rparr>"

lemma set_collect_sources:
  "set (collect_sources fs) = {source_of name schema |name schema. name \<in> set (module_names fs) \<and> path_exists fs (sf_Source (source_of name schema))}"
proof -
  have "path_exists fs (modules_path @ name @ ''/db'')" if "path_exists fs (sf_Source (source_of name schema))" for name schema
  proof -
    obtain r where r: "map_of fs r \<noteq> None" "under r (sf_Source (source_of name schema))" using \<open>path_exists fs _\<close> path_exists_map_of by blast
    have "sf_Source (source_of name schema) = (modules_path @ name @ ''/db'') @ CHR ''/'' # (if schema then ''schema.sql'' else ''queries.sql'')"
      by (simp add: source_of_def)
    with under_split [OF r(2)] obtain s where "r = (modules_path @ name @ ''/db'') @ CHR ''/'' # s" by auto
    then have "under r (modules_path @ name @ ''/db'')" by (simp add: under_def has_prefix_def)
    with r(1) show ?thesis using path_exists_map_of by blast
  qed
  moreover have "module_source fs name ''schema.sql'' schema_path = (if path_exists fs (sf_Source (source_of name True)) then [source_of name True] else [])"
    "module_source fs name ''queries.sql'' queries_path = (if path_exists fs (sf_Source (source_of name False)) then [source_of name False] else [])" for name
    by (simp_all add: module_source_def source_of_def Let_def)
  ultimately have "f \<in> set (module_sources fs name) \<longleftrightarrow> (\<exists>schema. f = source_of name schema \<and> path_exists fs (sf_Source (source_of name schema)))" for f name
    unfolding module_sources_def by (simp add: ex_bool_eq) blast
  then have "f \<in> set (collect_sources fs) \<longleftrightarrow>
      (\<exists>name schema. f = source_of name schema \<and> name \<in> set (module_names fs) \<and> path_exists fs (sf_Source (source_of name schema)))" for f
    unfolding collect_sources_def set_sort set_concat set_map by blast
  then show ?thesis by blast
qed

lemma source_facts:
  "has_prefix modules_path (sf_Source (source_of name schema))" "\<not> has_prefix modules_path (sf_Target (source_of name schema))"
  "sf_Target (source_of name schema) = sf_Target (source_of name' schema') \<Longrightarrow> name = name' \<and> schema = schema'"
  by (auto simp: source_of_def has_prefix_def modules_path_def schema_path_def queries_path_def split: if_splits)

text \<open>The sources depend only on the files under \<open>internal/modules/\<close>.\<close>

lemma collect_sources_cong:
  assumes "\<And>r. has_prefix modules_path r \<Longrightarrow> map_of fs r = map_of fs' r"
  shows "collect_sources fs = collect_sources fs'"
proof -
  have names: "module_names fs = module_names fs'"
  proof -
    have "set (module_names fs) = set (module_names fs')" unfolding set_module_names using assms by (intro image_cong) auto
    then show ?thesis by (intro sorted_distinct_set_unique) (simp_all add: module_names_def)
  qed
  have "under r p \<Longrightarrow> has_prefix modules_path p \<Longrightarrow> has_prefix modules_path r" for r p
    using under_split [of r p] has_prefix_append by auto
  then have "path_exists fs p = path_exists fs' p" if "has_prefix modules_path p" for p
    unfolding path_exists_map_of using assms that by metis
  then have "module_sources fs = module_sources fs'"
    by (simp add: fun_eq_iff module_sources_def module_source_def has_prefix_def Let_def)
  with names show ?thesis by (simp add: collect_sources_def)
qed

section \<open>What a synchronisation does\<close>

text \<open>Writing: the sources are read as they were, the targets get the copies, nothing else changes.\<close>

definition separate_sources :: "SourceFile list \<Rightarrow> bool" where
  "separate_sources files \<longleftrightarrow> (\<forall>f \<in> set files. \<forall>g \<in> set files. sf_Source f \<noteq> sf_Target g \<and> (sf_Target f = sf_Target g \<longrightarrow> f = g))"

lemma collect_separate: "separate_sources (collect_sources fs)"
  unfolding separate_sources_def set_collect_sources using source_facts by (auto dest: source_facts(3)) metis+

lemma write_file_keys: "distinct (map fst fs) \<Longrightarrow> distinct (map fst (write_file rel c fs))"
proof -
  have "map fst (put_file rel c fs) = map fst fs" by (induction fs) (auto simp: put_file_def)
  then show "distinct (map fst fs) \<Longrightarrow> ?thesis" by (auto simp: write_file_def map_of_eq_None_iff)
qed

lemma write_file_same: "map_of fs rel = Some c \<Longrightarrow> distinct (map fst fs) \<Longrightarrow> write_file rel c fs = fs"
  unfolding write_file_def put_file_def by (auto intro!: map_idI simp: map_of_eq_Some_iff split: prod.splits) (metis eq_key_imp_eq_value)

lemma sync_files_exact:
  assumes "separate_sources files" and "\<forall>f \<in> set files. map_of fs (sf_Source f) \<noteq> None" and "distinct (map fst fs)"
  shows "\<exists>fs1. sync_files root files fs = (None, fs1) \<and> distinct (map fst fs1) \<and>
    (\<forall>f \<in> set files. map_of fs1 (sf_Target f) = Some (synced root (sf_Source f) (the (map_of fs (sf_Source f))))) \<and>
    (\<forall>r. r \<notin> sf_Target ` set files \<longrightarrow> map_of fs1 r = map_of fs r)"
  using assms
proof (induction files arbitrary: fs)
  case (Cons f rest)
  let ?c = "synced root (sf_Source f) (the (map_of fs (sf_Source f)))" and ?fs = "write_file (sf_Target f) (synced root (sf_Source f) (the (map_of fs (sf_Source f)))) fs"
  have sep: "sf_Source g \<noteq> sf_Target f" "sf_Target g = sf_Target f \<Longrightarrow> g = f" if "g \<in> set (f # rest)" for g
    using Cons.prems(1) that unfolding separate_sources_def by auto
  have src: "map_of ?fs (sf_Source g) = map_of fs (sf_Source g)" if "g \<in> set (f # rest)" for g using sep(1) [OF that] by (simp add: map_of_write_file)
  have "separate_sources rest" using Cons.prems(1) by (simp add: separate_sources_def)
  moreover have "\<forall>g \<in> set rest. map_of ?fs (sf_Source g) \<noteq> None" using Cons.prems(2) src by simp
  ultimately obtain fs1 where fs1: "sync_files root rest ?fs = (None, fs1)" "distinct (map fst fs1)"
      "\<forall>g \<in> set rest. map_of fs1 (sf_Target g) = Some (synced root (sf_Source g) (the (map_of ?fs (sf_Source g))))"
      "\<forall>r. r \<notin> sf_Target ` set rest \<longrightarrow> map_of fs1 r = map_of ?fs r"
    using Cons.IH write_file_keys [OF Cons.prems(3)] by blast
  have target: "map_of fs1 (sf_Target f) = Some ?c"
  proof (cases "f \<in> set rest")
    case True
    then show ?thesis using fs1(3) src by simp
  next
    case False
    then have "sf_Target f \<notin> sf_Target ` set rest" using sep(2) by force
    then show ?thesis using fs1(4) by (simp add: map_of_write_file)
  qed
  have "sync_files root (f # rest) fs = (None, fs1)" using fs1(1) Cons.prems(2) by (auto simp: syncFile_def)
  then show ?case using fs1(2,3,4) src target by (auto simp: map_of_write_file)
qed simp

lemma sync_files_reads:
  assumes "separate_sources files" and "sync_files root files fs = (None, fs1)"
  shows "\<forall>f \<in> set files. map_of fs (sf_Source f) \<noteq> None"
  using assms
proof (induction files arbitrary: fs)
  case (Cons f rest)
  then obtain c where c: "map_of fs (sf_Source f) = Some c" "sync_files root rest (write_file (sf_Target f) (synced root (sf_Source f) c) fs) = (None, fs1)"
    by (auto simp: syncFile_def split: option.splits)
  have "separate_sources rest" "\<forall>g \<in> set rest. sf_Source g \<noteq> sf_Target f" using Cons.prems(1) by (auto simp: separate_sources_def)
  then show ?case using Cons.IH [OF _ c(2)] c(1) by (simp add: map_of_write_file)
qed simp

lemma sync_files_again:
  assumes "\<forall>f \<in> set files. \<exists>c. map_of fs (sf_Source f) = Some c \<and> map_of fs (sf_Target f) = Some (synced root (sf_Source f) c)" and "distinct (map fst fs)"
  shows "sync_files root files fs = (None, fs)"
  using assms(1)
proof (induction files)
  case (Cons f rest)
  then obtain c where "map_of fs (sf_Source f) = Some c" "map_of fs (sf_Target f) = Some (synced root (sf_Source f) c)" by auto
  with Cons show ?case by (simp add: syncFile_def write_file_same [OF _ assms(2)])
qed simp

definition leftover :: "string list \<Rightarrow> string \<times> string \<Rightarrow> bool" where
  "leftover managed f \<longleftrightarrow> stale schema_path managed f \<or> stale queries_path managed f"

lemma cleanup_both: "cleanupManaged queries_path managed (cleanupManaged schema_path managed fs) = filter (\<lambda>f. \<not> leftover managed f) fs"
  by (simp add: cleanupManaged_def leftover_def conj_commute)

lemma map_of_filter_pairs:
  "distinct (map fst fs) \<Longrightarrow> map_of (filter P fs) r = (case map_of fs r of None \<Rightarrow> None | Some c \<Rightarrow> if P (r, c) then Some c else None)"
proof (induction fs)
  case (Cons f fs)
  then have "map_of (filter P fs) (fst f) = None" by (auto simp: map_of_eq_None_iff)
  with Cons show ?case by (cases f) (auto split: option.splits)
qed simp

lemma disjoint_dirs: "has_prefix schema_path r \<Longrightarrow> \<not> has_prefix modules_path r" "has_prefix queries_path r \<Longrightarrow> \<not> has_prefix modules_path r"
  using has_prefix_split [of schema_path r] has_prefix_split [of queries_path r] has_prefix_split [of modules_path r]
  by (auto simp: schema_path_def queries_path_def modules_path_def)

lemma leftover_facts: "leftover managed (r, c) \<Longrightarrow> r \<notin> set managed \<and> \<not> has_prefix modules_path r"
proof -
  assume "leftover managed (r, c)"
  then consider "has_prefix schema_path r" "r \<notin> set managed" | "has_prefix queries_path r" "r \<notin> set managed" by (auto simp: leftover_def stale_def)
  then show ?thesis by cases (simp_all add: disjoint_dirs)
qed

text \<open>The repository after a synchronisation that read all its sources.\<close>

lemma sync_effect:
  assumes "distinct (map fst fs)" and "list_ex (\<lambda>(rel, c). has_prefix modules_path rel) fs" and "\<forall>f \<in> set (collect_sources fs). map_of fs (sf_Source f) \<noteq> None"
  obtains fs' where "modulesync_Sync root fs = (None, fs')" and "distinct (map fst fs')" and "\<forall>f \<in> set fs'. \<not> leftover (map sf_Target (collect_sources fs)) f"
    and "\<forall>f \<in> set (collect_sources fs). map_of fs' (sf_Target f) = Some (synced root (sf_Source f) (the (map_of fs (sf_Source f))))"
    and "\<forall>r. r \<notin> sf_Target ` set (collect_sources fs) \<longrightarrow>
      map_of fs' r = (case map_of fs r of None \<Rightarrow> None | Some c \<Rightarrow> if leftover (map sf_Target (collect_sources fs)) (r, c) then None else Some c)"
proof -
  let ?managed = "map sf_Target (collect_sources fs)"
  obtain fs1 where fs1: "sync_files root (collect_sources fs) fs = (None, fs1)" "distinct (map fst fs1)"
    "\<forall>f \<in> set (collect_sources fs). map_of fs1 (sf_Target f) = Some (synced root (sf_Source f) (the (map_of fs (sf_Source f))))"
    "\<forall>r. r \<notin> sf_Target ` set (collect_sources fs) \<longrightarrow> map_of fs1 r = map_of fs r"
    using sync_files_exact [OF collect_separate assms(3,1)] by blast
  let ?fs' = "filter (\<lambda>f. \<not> leftover ?managed f) fs1"
  have lookup: "map_of ?fs' r = (case map_of fs1 r of None \<Rightarrow> None | Some c \<Rightarrow> if \<not> leftover ?managed (r, c) then Some c else None)" for r
    by (rule map_of_filter_pairs [OF fs1(2)])
  show thesis
  proof (rule that)
    show "modulesync_Sync root fs = (None, ?fs')" using assms(2) by (simp add: modulesync_Sync_def Let_def fs1(1) cleanup_both)
    show "distinct (map fst ?fs')" using fs1(2) by (rule distinct_map_filter)
    show "\<forall>f \<in> set (collect_sources fs). map_of ?fs' (sf_Target f) = Some (synced root (sf_Source f) (the (map_of fs (sf_Source f))))"
      using fs1(3) leftover_facts [of ?managed] by (fastforce simp: lookup)
  qed (use fs1(4) in \<open>auto simp: lookup split: option.splits\<close>)
qed

definition readable_sources :: "files \<Rightarrow> bool" where
  "readable_sources fs \<longleftrightarrow> list_ex (\<lambda>(rel, c). has_prefix modules_path rel) fs \<and> (\<forall>f \<in> set (collect_sources fs). map_of fs (sf_Source f) \<noteq> None)"

lemma sync_reads: "fst (modulesync_Sync root fs) = None \<Longrightarrow> readable_sources fs"
  using sync_files_reads [OF collect_separate, of root fs]
  by (auto simp: readable_sources_def modulesync_Sync_def Let_def split: if_splits prod.splits option.splits)

text \<open>The files of the modules are not touched, so a second run finds the same sources and everything in place.\<close>

lemma sync_again:
  assumes "distinct (map fst fs)" and "readable_sources fs" and "distinct (map fst fs')" and "\<forall>f \<in> set fs'. \<not> leftover (map sf_Target (collect_sources fs)) f"
    and "\<forall>f \<in> set (collect_sources fs). map_of fs' (sf_Target f) = Some (synced root (sf_Source f) (the (map_of fs (sf_Source f))))"
    and "\<forall>r. r \<notin> sf_Target ` set (collect_sources fs) \<longrightarrow>
      map_of fs' r = (case map_of fs r of None \<Rightarrow> None | Some c \<Rightarrow> if leftover (map sf_Target (collect_sources fs)) (r, c) then None else Some c)"
  shows "modulesync_Sync root fs' = (None, fs')"
proof -
  have kept: "map_of fs' r = map_of fs r" if "has_prefix modules_path r" for r
  proof -
    have "r \<notin> sf_Target ` set (collect_sources fs)" unfolding set_collect_sources using source_facts(2) that by auto
    then show ?thesis using assms(6) leftover_facts that by (auto split: option.splits)
  qed
  have same: "collect_sources fs' = collect_sources fs" by (rule collect_sources_cong) (rule kept)
  obtain r c where "(r, c) \<in> set fs" "has_prefix modules_path r" using assms(2) by (auto simp: readable_sources_def list_ex_iff)
  with kept assms(1) have "(r, c) \<in> set fs'" by (metis map_of_SomeD map_of_is_SomeI)
  with \<open>has_prefix modules_path r\<close> have dir: "list_ex (\<lambda>(rel, c). has_prefix modules_path rel) fs'" by (auto simp: list_ex_iff)
  have files: "sync_files root (collect_sources fs) fs' = (None, fs')"
  proof (rule sync_files_again [OF _ assms(3)], intro ballI)
    fix f assume f: "f \<in> set (collect_sources fs)"
    then have "has_prefix modules_path (sf_Source f)" unfolding set_collect_sources using source_facts(1) by auto
    moreover obtain c where "map_of fs (sf_Source f) = Some c" using assms(2) f by (auto simp: readable_sources_def)
    ultimately show "\<exists>c. map_of fs' (sf_Source f) = Some c \<and> map_of fs' (sf_Target f) = Some (synced root (sf_Source f) c)" using kept assms(5) f by simp
  qed
  have "filter (\<lambda>f. \<not> leftover (map sf_Target (collect_sources fs)) f) fs' = fs'" using assms(4) by (auto intro: filter_True)
  with dir files show ?thesis by (simp add: modulesync_Sync_def Let_def cleanup_both same)
qed

lemma sync_converges_targets:
  assumes "distinct (map fst fs)" and "modulesync_Sync root fs = (None, fs')" and "f \<in> set (collect_sources fs)"
  shows "map_of fs' (sf_Target f) = Some (synced root (sf_Source f) (the (map_of fs (sf_Source f))))"
proof -
  have "readable_sources fs" using sync_reads [of root fs] assms(2) by simp
  then show ?thesis using sync_effect [OF assms(1), of root] assms(2,3) unfolding readable_sources_def by (metis prod.inject)
qed


definition synced_workspace :: files where
  "synced_workspace = [(''internal/modules/tasks/db/schema.sql'', ''-- tasks''), (''db/schema/gone.sql'', header_prefix @ ''x''), (''db/schema/users.sql'', ''-- by hand'')]"


section \<open>Generated modules\<close>

lemma module_named:
  assumes "map_of fs (modules_path @ name @ CHR ''/'' # rest) \<noteq> None" and "CHR ''/'' \<notin> set name"
  shows "name \<in> set (module_names fs)"
proof -
  let ?r = "modules_path @ name @ CHR ''/'' # rest"
  have "hd (components (drop (length modules_path) ?r)) = name" using split_on_append [OF assms(2)] by (simp add: components_def)
  moreover have "has_prefix modules_path ?r" by (simp add: has_prefix_def)
  ultimately show ?thesis unfolding set_module_names using assms(1) by (intro image_eqI [of _ _ ?r]) simp_all
qed

lemma module_synced:
  assumes "list_all input_char (sp_Package (tg_Spec cfg))" and "to_UseDB (tg_Options cfg)" and "distinct (map fst fs)"
    and "\<forall>r. under r (module_dir (tg_Spec cfg)) \<longrightarrow> map_of fs r = map_of (module_files extensions cfg) r" and "modulesync_Sync root fs = (None, fs')"
  shows "map_of fs' (schema_path @ sp_Package (tg_Spec cfg) @ ''.sql'') =
      Some (synced root (module_dir (tg_Spec cfg) @ ''/db/schema.sql'') (renderModuleSchema (tg_Spec cfg))) \<and>
    map_of fs' (queries_path @ sp_Package (tg_Spec cfg) @ ''.sql'') =
      Some (synced root (module_dir (tg_Spec cfg) @ ''/db/queries.sql'') (renderModuleQueries (tg_Spec cfg)))"
proof -
  let ?pkg = "sp_Package (tg_Spec cfg)" and ?dir = "module_dir (tg_Spec cfg)"
  have dir: "?dir = modules_path @ ?pkg" by (simp add: module_dir_def modules_path_def)
  have db: "map_of (RenderFiles extensions cfg) ''db/schema.sql'' = Some (renderModuleSchema (tg_Spec cfg))"
    "map_of (RenderFiles extensions cfg) ''db/queries.sql'' = Some (renderModuleQueries (tg_Spec cfg))"
    using assms(2) by (simp_all add: RenderFiles_def)
  have shift: "map_of (map (\<lambda>(n, c). (p @ n, c)) fs) (p @ r) = map_of fs r" for p r :: string and fs :: files by (induction fs) auto
  have "map_of fs (?dir @ ''/'' @ r) = map_of (RenderFiles extensions cfg) r" for r
    using assms(4) shift [of "?dir @ ''/''" "RenderFiles extensions cfg" r] by (simp add: module_files_def under_def has_prefix_def)
  note here = this [of "''db/schema.sql''"] this [of "''db/queries.sql''"]
  have source: "sf_Source (source_of ?pkg True) = ?dir @ ''/'' @ ''db/schema.sql''" "sf_Source (source_of ?pkg False) = ?dir @ ''/'' @ ''db/queries.sql''"
    by (simp_all add: source_of_def dir)
  have "?pkg \<in> set (module_names fs)" using module_named [of fs ?pkg "''db/schema.sql''"] here(1) db(1) input_plain [OF assms(1)] by (simp add: dir)
  moreover have "path_exists fs (sf_Source (source_of ?pkg b))" for b
    unfolding path_exists_map_of using here db source by (cases b) (auto simp: under_def)
  ultimately have "source_of ?pkg b \<in> set (collect_sources fs)" for b unfolding set_collect_sources by blast
  then have "map_of fs' (sf_Target (source_of ?pkg b)) = Some (synced root (sf_Source (source_of ?pkg b)) (the (map_of fs (sf_Source (source_of ?pkg b)))))" for b
    using sync_converges_targets [OF assms(3,5)] by blast
  from this [of True] this [of False] show ?thesis using here db by (simp add: source_of_def dir)
qed

text \<open>
  Generating a module with database files and then synchronising puts its rendered schema and queries, under the generated header, where
  \<open>sqlc\<close> reads them.
\<close>

theorem generated_module_synced:
  assumes "NormalizeName name = Inr (tg_Spec cfg)" and "to_UseDB (tg_Options cfg)" and "GenerateModule sorter extensions cfg force fs = (None, fs1)"
    and "distinct (map fst fs1)" and "modulesync_Sync root fs1 = (None, fs2)"
  shows "map_of fs2 (schema_path @ sp_Package (tg_Spec cfg) @ ''.sql'') =
      Some (synced root (module_dir (tg_Spec cfg) @ ''/db/schema.sql'') (renderModuleSchema (tg_Spec cfg))) \<and>
    map_of fs2 (queries_path @ sp_Package (tg_Spec cfg) @ ''.sql'') =
      Some (synced root (module_dir (tg_Spec cfg) @ ''/db/queries.sql'') (renderModuleQueries (tg_Spec cfg)))"
proof (rule module_synced [OF Normalize_chars(1) [OF assms(1)] assms(2,4) _ assms(5)])
  show "\<forall>r. under r (module_dir (tg_Spec cfg)) \<longrightarrow> map_of fs1 r = map_of (module_files extensions cfg) r"
    using module_generated [OF assms(1,3)] by (simp split: if_splits)
qed

end
