(* ===== verification/Spec2Isabelle.thy ===== *)
theory Spec2Isabelle
  imports Tenant_Store Document_Store Totp_Rotation Auth_Factors Notify Auth_Routes App_Lifecycle Create_User
    Generated_Routes Module_Sync
begin

text \<open>
  A verification library for SuperAPI, a Go template for multi-tenant HTTP services (\<open>src/internal\<close>, \<open>src/cmd\<close>).

  \<^bold>\<open>The program.\<close> A process loads and checks its configuration (\<open>config\<close>), opens its stores and clients and builds the
  authentication engine (\<open>app\<close>), and serves requests through a global middleware stack (\<open>httpx\<close>: request id, client address,
  recovery, CORS, security headers, body and time limits, tracing, access log, then the tenancy resolver), a router whose
  routes carry chains of policies (\<open>policy\<close>: authentication, permissions, tenant checks, rate limits, response caching), and typed
  handlers (\<open>httpx/adapter.go\<close>, \<open>typedjson.go\<close>). The route validator (\<open>policy/validator*.go\<close>) refuses unsafe chains when routes are
  registered. Rate limits and cached responses live in Redis (\<open>ratelimit\<close>, \<open>cache\<close>); documents in an in-memory store with
  transactions (\<open>storage/document\<close>); accounts, second factors and tenants in Postgres (\<open>auth\<close>, \<open>tenancy\<close>, the queries of
  \<open>db/queries\<close>). The endpoints of \<open>modules/auth\<close> call the goAuth engine, whose user provider is the store of \<open>auth\<close>, and hand
  challenges to the notification dispatcher (\<open>notify\<close>). Readiness checks and metrics watch the process until shutdown drains the
  dispatcher and closes what was opened. Beside the server there are commands: \<open>createuser\<close>, the rotation of TOTP secrets,
  \<open>templateinit\<close>, and the tools that generate and synchronise modules.

  \<^bold>\<open>How it is modelled.\<close> Go structs are records, enumerations and error values are datatypes, strings are byte lists, int64 and
  durations are integers with the wrap-around written out (\<open>wrap64\<close>), the hash functions of the access log are 64-bit words.
  A handler is a function from a request and a world to \<open>Ret\<close> or \<open>Panic\<close> of a world; a middleware is a function on handlers.
  The world holds the response under construction with the stack of response-writer wrappers, the clock, the observed metrics, the
  log, the cached version tokens and an arbitrary service state \<open>'s\<close> (Redis, collectors). Postgres is a record of tables and one
  definition per query; transactions and faults are explicit. Goroutines and concurrent operations are step relations. Opening and
  closing of connections is a trace of events. Errors and panics are values throughout.

  \<^bold>\<open>Theories: requests.\<close>
  \<^item> \<open>Prelude\<close>: \<open>strings\<close>, \<open>strconv\<close> and slice functions of the standard library on byte lists, with their laws.
  \<^item> \<open>Http\<close>: errors (\<open>errors/errors.go\<close>), requests and their context values, response writers and wrappers, envelopes
    (\<open>response/response.go\<close>). The text of a foreign error never reaches a client.
  \<^item> \<open>Policy_Meta\<close>: policy metadata and the route validator; what it accepts, exactly.
  \<^item> \<open>Redis\<close>: the interface to Redis as a locale, with a concrete store as its interpretation.
  \<^item> \<open>Ratelimit\<close>: rules, keyers, keys, the Lua script and \<open>RedisLimiter.Allow\<close>; the budget of a window, failure modes,
    separation of keys.
  \<^item> \<open>Cache_Manager\<close>: read keys, tags, version tokens, \<open>Get\<close>, \<open>Set\<close>, \<open>BumpTags\<close>; identity of keys, effect of a bump, staleness of
    tokens as an invariant of a step relation.
  \<^item> \<open>Policy_Handlers\<close>: authentication, permission, rate-limit and header policies as functions on handlers, shown equal to decision
    gates; a protected route runs its handler only for an accepted, permitted and admitted request.
  \<^item> \<open>Policy_Cache\<close>: \<open>CacheRead\<close> and \<open>CacheInvalidate\<close>; transparency, replay, invalidation, safety of registered routes.
  \<^item> \<open>Presets\<close>: the policy presets and their options.
  \<^item> \<open>Httpx\<close>: the global middleware, request instrumentation (\<open>metrics/metrics.go\<close>) and the router; recovery, CORS grants, client
    addresses, request ids, sampling keys, registered routes as an invariant by rule induction.
  \<^item> \<open>Typed_JSON\<close>: body decoding, unknown fields over recursive types, the adapter; bounded bodies, owned error texts.
  \<^item> \<open>Document_Store\<close>: the document store; refinement of a plain map, atomic transactions, exact queries, interleavings.
  \<^item> \<open>Tenant_Cache\<close>, \<open>Tenancy\<close>: the validation cache and the tenancy feature; isolation of tenants on a route, staleness of the
    directory, the resolver's answers, the route rule.

  \<^bold>\<open>Theories: accounts.\<close>
  \<^item> \<open>Secret_Cipher\<close>: the key ring cipher of TOTP secrets; what is sealed opens, also under later ciphers.
  \<^item> \<open>Auth_Db\<close>, \<open>Auth_Repo\<close>: tables and queries of accounts, secrets, backup codes and passkeys, the repositories and the provider
    of the goAuth engine over them (\<open>auth/provider*.go\<close>, \<open>*_repository.go\<close>).
  \<^item> \<open>Auth_Safety\<close>: any sequence of provider operations with database faults in between; well-formed tables, no replay of one-time
    passwords, single use of backup codes. \<open>Auth_Factors\<close>: enrolment and replacement of second factors.
  \<^item> \<open>Totp_Rotation\<close>: the rotation command over an interface to the secrets (locale \<open>totp_repository\<close>), interpreted on the queries.
  \<^item> \<open>Tenant_Store\<close>: the provider of the tenancy feature; users of tenants stay apart.
  \<^item> \<open>Notify\<close>, \<open>Dispatcher\<close>: drivers, mail messages and the SMTP dialogue; bounded concurrent delivery and its shutdown.
  \<^item> \<open>Auth_Service\<close>, \<open>Auth_Endpoints\<close>, \<open>Auth_Flows\<close>, \<open>Auth_Routes\<close>: service, handlers and routes of \<open>modules/auth\<close>; step-up before
    changes of second factors, uniform answers, guarded routes.

  \<^bold>\<open>Theories: configuration and process.\<close>
  \<^item> \<open>Env_Values\<close>, \<open>Config\<close>: environment readers, \<open>time.ParseDuration\<close>, profiles, \<open>Load\<close>, \<open>Lint\<close>, the TOTP key ring, SMTP
    and WebAuthn settings; what an accepted configuration guarantees, profiles as overlays, the key ring's invariant.
  \<^item> \<open>Auth_Config\<close>: the configuration of the goAuth engine (\<open>auth/config.go\<close>); no test override outside development.
  \<^item> \<open>Readiness\<close>: the readiness service and the health module. \<open>Startup\<close>: \<open>initDependencies\<close> and the services it builds.
    \<open>App_Lifecycle\<close>: \<open>New\<close>, \<open>Run\<close>, the metrics route and shutdown; whatever was opened is closed, once.

  \<^bold>\<open>Theories: commands.\<close>
  \<^item> \<open>Flags\<close>: \<open>flag.FlagSet.Parse\<close>. \<open>Create_User\<close>: the account command with its tenancy step and the tenants table.
  \<^item> \<open>Template_Init\<close>: marker stripping, module renaming, deletion and rewriting of files; exact stripping, exact dry runs.
  \<^item> \<open>Module_Render\<close>, \<open>Module_Gen\<close>: the files of a generated module; names, the registry, migration scaffolds, the generation and its command
    (\<open>devx/modulegen\<close>, \<open>cmd/modulegen\<close>). \<open>Generated_Routes\<close>: a generated route passes the route validator.
  \<^item> \<open>Module_Sync\<close>: the SQL files of the modules under \<open>db/\<close> (\<open>devx/modulesync\<close>); exact copies, removal of stale ones, idempotence.

  \<^bold>\<open>Interfaces.\<close> What lies outside the repository is an argument of the definitions that use it: Redis operations, the goAuth
  guard, engine and builder, chi's matching, the JSON encoder and decoder, SHA-256, AES-GCM, random bytes, floating-point
  arithmetic, the parsers of \<open>net\<close>, \<open>net/url\<close>, \<open>net/mail\<close>, \<open>encoding/base64\<close> and of JWT keys, pgx's UUID and time conversions, the SMTP
  peer, the answers of Postgres, Redis, OpenTelemetry and Prometheus at start (\<open>startlib\<close>), and the formatter,
  year and tools of the init command (\<open>initlib\<close>). Where a theorem needs their documented behaviour it is a named hypothesis with a witness
  at a concrete function. Interfaces between components are locales interpreted on the model's own definitions.

  \<^bold>\<open>Bounds and loops.\<close> No definition uses fuel. Recursions are structural or have a measure (\<open>trim_left\<close>, \<open>duration_loop\<close>,
  \<open>collectFields\<close> on the set of struct types not seen yet, \<open>scanUnknown\<close> on the document), so these loops end. The batches of the rotation
  command (\<open>rotate\<close>) and the replacement of the module path (\<open>replace_loop\<close>) may run forever for some arguments: they are partial
  functions into \<open>option\<close>, and the theorems about them say that they return. Waiting for deliveries is a step relation with a measure.

  \<^bold>\<open>Not modelled.\<close> The goAuth library itself, the network server and operating-system signals, the migrations runner, the
  static analysers over Go syntax trees, and the main functions that only connect parts (\<open>cmd/api\<close>, \<open>cmd/migrate\<close>, \<open>cmd/modulesync\<close>,
  \<open>cmd/perftoken\<close>). Of the response writers \<open>Hijack\<close> and \<open>Push\<close> are left out, of contexts the
  cancellation by a client, and of the file tools the errors of single reads and writes. Error texts of the configuration lack their
  explanatory tails.
\<close>

end
